(* ===== verification/Prelude.thy ===== *)
theory Prelude
  imports Complex_Main "HOL-Library.Word"
begin

text \<open>
  Shared vocabulary of the development: results of fallible code, the error
  classes the backend raises, JavaScript truthiness and string helpers, byte
  strings, and the lemmas on them that the component theories use.
  Collections: \<open>result_simps\<close> rewrites the result monad, \<open>str_simps\<close> the string
  helpers.
\<close>

unbundle bit_operations_syntax

named_theorems result_simps \<open>rewriting of the result monad\<close>
named_theorems str_simps \<open>rewriting of the string helpers\<close>

section \<open>Results\<close>

text \<open>
  A call that may throw returns \<open>Inl e\<close> for the thrown error and \<open>Inr v\<close> for a
  returned value; \<open>rbind\<close> is sequencing, \<open>try_catch\<close> a try block with a handler and
  \<open>ensure\<close> a guard that throws.
\<close>

type_synonym ('e, 'a) result = "'e + 'a"

definition rbind :: "('e, 'a) result \<Rightarrow> ('a \<Rightarrow> ('e, 'b) result) \<Rightarrow> ('e, 'b) result" where
  "rbind r k = (case r of Inl e \<Rightarrow> Inl e | Inr a \<Rightarrow> k a)"

definition try_catch :: "('e, 'a) result \<Rightarrow> ('e \<Rightarrow> ('f, 'a) result) \<Rightarrow> ('f, 'a) result" where
  "try_catch r h = (case r of Inl e \<Rightarrow> h e | Inr a \<Rightarrow> Inr a)"

definition ensure :: "bool \<Rightarrow> 'e \<Rightarrow> ('e, unit) result" where
  "ensure b e = (if b then Inr () else Inl e)"

lemma rbind_simps [simp, result_simps]:
  "rbind (Inl e) k = Inl e" "rbind (Inr a) k = k a"
  by (simp_all add: rbind_def)

lemma try_catch_simps [simp, result_simps]:
  "try_catch (Inl e) h = h e" "try_catch (Inr a) h = Inr a"
  by (simp_all add: try_catch_def)

lemma ensure_simps [simp, result_simps]:
  "ensure True e = Inr ()" "ensure False e = Inl e"
  by (simp_all add: ensure_def)

lemma rbind_Inr_iff [result_simps]:
  "rbind r k = Inr b \<longleftrightarrow> (\<exists>a. r = Inr a \<and> k a = Inr b)"
  by (cases r) simp_all

lemma rbind_Inl_iff [result_simps]:
  "rbind r k = Inl e \<longleftrightarrow> r = Inl e \<or> (\<exists>a. r = Inr a \<and> k a = Inl e)"
  by (cases r) simp_all

lemma rbind_InrE [elim]:
  assumes "rbind r k = Inr b"
  obtains a where "r = Inr a" and "k a = Inr b"
  using assms by (auto simp: rbind_Inr_iff)

lemma ensure_Inr_iff [simp, result_simps]: "ensure b e = Inr u \<longleftrightarrow> b"
  by (cases u) (simp add: ensure_def)

lemma ensure_Inl_iff [simp, result_simps]: "ensure b e = Inl f \<longleftrightarrow> \<not> b \<and> f = e"
  by (auto simp: ensure_def)

lemma rbind_assoc: "rbind (rbind r f) g = rbind r (\<lambda>a. rbind (f a) g)"
  by (cases r) simp_all

lemma rbind_cong [fundef_cong]:
  "r = r' \<Longrightarrow> (\<And>a. r' = Inr a \<Longrightarrow> k a = k' a) \<Longrightarrow> rbind r k = rbind r' k'"
  by (cases r') simp_all

text \<open>
  The exceptions of the backend: the HTTP exceptions of the framework with their
  message, and an error of the runtime. Messages are written without accents.
\<close>

datatype http_error =
    BadRequest string
  | Unauthorized string
  | Forbidden string
  | NotFound string
  | Conflict string
  | PreconditionRequired string
  | TooManyRequests string
  | ServiceUnavailable string
  | InternalError string
  | RuntimeError string

text \<open>The \<open>message\<close> of an error.\<close>

definition err_msg :: "http_error \<Rightarrow> string" where
  "err_msg e = (case e of BadRequest m \<Rightarrow> m | Unauthorized m \<Rightarrow> m | Forbidden m \<Rightarrow> m | NotFound m \<Rightarrow> m
     | Conflict m \<Rightarrow> m | PreconditionRequired m \<Rightarrow> m | TooManyRequests m \<Rightarrow> m | ServiceUnavailable m \<Rightarrow> m | InternalError m \<Rightarrow> m
     | RuntimeError m \<Rightarrow> m)"

section \<open>Optional values\<close>

text \<open>
  \<open>nullish a b\<close> is the operator \<open>??\<close>; the optional fields of the code's records
  (\<open>undefined\<close> or \<open>null\<close>) are \<open>option\<close> values.
\<close>

definition nullish :: "'a option \<Rightarrow> 'a \<Rightarrow> 'a" where
  "nullish a b = (case a of None \<Rightarrow> b | Some v \<Rightarrow> v)"

definition orelse :: "'a option \<Rightarrow> 'a option \<Rightarrow> 'a option" where
  "orelse a b = (case a of None \<Rightarrow> b | Some v \<Rightarrow> Some v)"

lemma nullish_simps [simp]: "nullish None b = b" "nullish (Some v) b = v"
  by (simp_all add: nullish_def)

lemma orelse_simps [simp]: "orelse None b = b" "orelse (Some v) b = Some v"
  by (simp_all add: orelse_def)

text \<open>A string is falsy when it is absent or empty.\<close>

definition falsy_str :: "string option \<Rightarrow> bool" where
  "falsy_str s = (case s of None \<Rightarrow> True | Some t \<Rightarrow> t = [])"

lemma falsy_str_simps [simp, str_simps]:
  "falsy_str None" "falsy_str (Some t) \<longleftrightarrow> t = []"
  by (simp_all add: falsy_str_def)

section \<open>Strings\<close>

text \<open>
  Strings are lists of ASCII characters. \<open>js_trim\<close> removes the white space
  characters of \<open>String.prototype.trim\<close> that are ASCII (tab, line feed, vertical
  tab, form feed, carriage return, space) at both ends.
\<close>

definition is_ws :: "char \<Rightarrow> bool" where
  "is_ws c = (of_char c \<in> {9, 10, 11, 12, 13, 32 :: nat})"

definition js_trim :: "string \<Rightarrow> string" where
  "js_trim s = rev (dropWhile is_ws (rev (dropWhile is_ws s)))"

definition char_lower :: "char \<Rightarrow> char" where
  "char_lower c = (let n = of_char c :: nat in if 65 \<le> n \<and> n \<le> 90 then char_of (n + 32) else c)"

definition char_upper :: "char \<Rightarrow> char" where
  "char_upper c = (let n = of_char c :: nat in if 97 \<le> n \<and> n \<le> 122 then char_of (n - 32) else c)"

definition to_lower :: "string \<Rightarrow> string" where
  "to_lower s = map char_lower s"

definition to_upper :: "string \<Rightarrow> string" where
  "to_upper s = map char_upper s"

fun starts_with :: "string \<Rightarrow> string \<Rightarrow> bool" where
  "starts_with s [] = True"
| "starts_with [] (p # ps) = False"
| "starts_with (c # cs) (p # ps) = (c = p \<and> starts_with cs ps)"

definition is_digit_char :: "char \<Rightarrow> bool" where
  "is_digit_char c = (let n = of_char c :: nat in 48 \<le> n \<and> n \<le> 57)"

definition is_hex_char :: "char \<Rightarrow> bool" where
  "is_hex_char c = (let n = of_char c :: nat in
     (48 \<le> n \<and> n \<le> 57) \<or> (65 \<le> n \<and> n \<le> 70) \<or> (97 \<le> n \<and> n \<le> 102))"

lemma char_less_256: "(of_char c :: nat) < 256"
  using of_char_mod_256 [of c, where 'a = nat] by (metis mod_less_divisor zero_less_numeral)

lemma of_char_of_nat: "n < 256 \<Longrightarrow> (of_char (char_of (n :: nat)) :: nat) = n"
  by simp

lemma char_lower_idem [simp]: "char_lower (char_lower c) = char_lower c"
proof (cases "65 \<le> (of_char c :: nat) \<and> (of_char c :: nat) \<le> 90")
  case True
  then have "char_lower c = char_of ((of_char c :: nat) + 32)"
    by (simp add: char_lower_def)
  moreover from True have "(of_char (char_of ((of_char c :: nat) + 32)) :: nat) = of_char c + 32"
    by (intro of_char_of_nat) simp
  ultimately show ?thesis using True by (simp add: char_lower_def Let_def)
qed (auto simp: char_lower_def Let_def)

lemma of_char_lower:
  "(of_char (char_lower c) :: nat) =
     (if 65 \<le> (of_char c :: nat) \<and> (of_char c :: nat) \<le> 90 then of_char c + 32 else of_char c)"
  using of_char_of_nat [of "of_char c + 32"] by (simp add: char_lower_def Let_def)

lemma is_hex_char_lower [simp, str_simps]: "is_hex_char (char_lower c) = is_hex_char c"
  by (auto simp: is_hex_char_def of_char_lower Let_def)

lemma hex_not_ws: "is_hex_char c \<Longrightarrow> \<not> is_ws c"
  by (auto simp: is_hex_char_def is_ws_def Let_def)

lemma digit_not_ws: "is_digit_char c \<Longrightarrow> \<not> is_ws c"
  by (auto simp: is_digit_char_def is_ws_def Let_def)

lemma to_lower_idem [simp, str_simps]: "to_lower (to_lower s) = to_lower s"
  by (simp add: to_lower_def)

lemma length_to_lower [simp, str_simps]: "length (to_lower s) = length s"
  by (simp add: to_lower_def)

lemma dropWhile_hd: "dropWhile P s \<noteq> [] \<Longrightarrow> \<not> P (hd (dropWhile P s))"
  by (induction s) auto

lemma js_trim_id:
  assumes "s = [] \<or> (\<not> is_ws (hd s) \<and> \<not> is_ws (last s))"
  shows "js_trim s = s"
proof -
  from assms have "dropWhile is_ws s = s" and "dropWhile is_ws (rev s) = rev s"
    by (auto simp: dropWhile_eq_self_iff hd_rev)
  then show ?thesis by (simp add: js_trim_def)
qed

lemma js_trim_no_ws: "\<forall>c \<in> set s. \<not> is_ws c \<Longrightarrow> js_trim s = s"
  by (rule js_trim_id) (metis hd_in_set last_in_set)

lemma js_trim_idem [simp, str_simps]: "js_trim (js_trim s) = js_trim s"
proof (rule js_trim_id)
  define d where "d = dropWhile is_ws s"
  define e where "e = dropWhile is_ws (rev d)"
  have t: "js_trim s = rev e" by (simp add: js_trim_def d_def e_def)
  obtain p where p: "rev d = p @ e" and "\<forall>c \<in> set p. is_ws c"
    by (metis e_def set_takeWhileD takeWhile_dropWhile_id)
  show "js_trim s = [] \<or> (\<not> is_ws (hd (js_trim s)) \<and> \<not> is_ws (last (js_trim s)))"
  proof (cases "e = []")
    case False
    then have "\<not> is_ws (hd e)" using dropWhile_hd [of is_ws "rev d"] by (simp add: e_def)
    moreover from p have "d = rev e @ rev p" by (metis rev_append rev_rev_ident)
    then have "hd (rev e) = hd d" and "d \<noteq> []" using False by simp_all
    then have "\<not> is_ws (hd (rev e))" using dropWhile_hd [of is_ws s] by (simp add: d_def)
    ultimately show ?thesis using False by (simp add: t last_rev)
  qed (simp add: t)
qed

lemma starts_with_append [simp, str_simps]: "starts_with (p @ s) p"
  by (induction p) auto

lemma starts_with_take: "starts_with s p \<Longrightarrow> s = p @ drop (length p) s"
  by (induction s p rule: starts_with.induct) auto

section \<open>Bytes\<close>

type_synonym byte = "8 word"
type_synonym bytes = "byte list"

text \<open>\<open>Uint8Array.prototype.slice\<close> with non-negative arguments, clamped to the array.\<close>

definition js_slice :: "'a list \<Rightarrow> nat \<Rightarrow> nat \<Rightarrow> 'a list" where
  "js_slice xs a b = take (b - a) (drop a xs)"

lemma length_js_slice [simp]: "length (js_slice xs a b) = min (b - a) (length xs - a)"
  by (simp add: js_slice_def min.commute)

lemma js_slice_append_left:
  "b \<le> length xs \<Longrightarrow> js_slice (xs @ ys) a b = js_slice xs a b"
  by (cases "a \<le> b") (auto simp: js_slice_def)

lemma js_slice_append_right:
  "length xs \<le> a \<Longrightarrow> js_slice (xs @ ys) a b = js_slice ys (a - length xs) (b - length xs)"
  by (auto simp: js_slice_def)

lemma js_slice_whole [simp]: "length xs \<le> b \<Longrightarrow> js_slice xs 0 b = xs"
  by (simp add: js_slice_def)

lemma js_slice_mid:
  "length xs = a \<Longrightarrow> a + length ys = b \<Longrightarrow> js_slice (xs @ ys @ zs) a b = ys"
  by (auto simp: js_slice_def)

section \<open>Invariants of step relations\<close>

text \<open>
  The contract every stateful component discharges: its steps keep its invariant. Its
  consequences for runs of any length are proved once.
\<close>

locale invariant_system =
  fixes step :: "'s \<Rightarrow> 's \<Rightarrow> bool" and inv :: "'s \<Rightarrow> bool"
  assumes inv_step: "inv s \<Longrightarrow> step s t \<Longrightarrow> inv t"
begin

lemma inv_run: "step\<^sup>*\<^sup>* s t \<Longrightarrow> inv s \<Longrightarrow> inv t"
  by (induction rule: rtranclp_induct) (auto intro: inv_step)

end

text \<open>A step relation that keeps a relation to the start state: reflexive and kept by steps.\<close>

locale frame_system =
  fixes step :: "'s \<Rightarrow> 's \<Rightarrow> bool" and frame :: "'s \<Rightarrow> 's \<Rightarrow> bool"
  assumes frame_refl: "frame s s"
    and frame_step: "frame s t \<Longrightarrow> step t u \<Longrightarrow> frame s u"
begin

lemma frame_run: "step\<^sup>*\<^sup>* s t \<Longrightarrow> frame s t"
  by (induction rule: rtranclp_induct) (auto intro: frame_refl frame_step)

end

text \<open>
  Forward simulation: every step of the detailed system is matched by steps of the abstract
  one, so every run is.
\<close>

locale simulation =
  fixes cstep :: "'c \<Rightarrow> 'c \<Rightarrow> bool" and astep :: "'a \<Rightarrow> 'a \<Rightarrow> bool" and rel :: "'c \<Rightarrow> 'a \<Rightarrow> bool"
  assumes sim_step: "rel c a \<Longrightarrow> cstep c c' \<Longrightarrow> \<exists>a'. astep\<^sup>*\<^sup>* a a' \<and> rel c' a'"
begin

lemma sim_run: "cstep\<^sup>*\<^sup>* c c' \<Longrightarrow> rel c a \<Longrightarrow> \<exists>a'. astep\<^sup>*\<^sup>* a a' \<and> rel c' a'"
proof (induction rule: rtranclp_induct)
  case base
  then show ?case by blast
next
  case (step d e)
  then obtain b where "astep\<^sup>*\<^sup>* a b" "rel d b" by blast
  with sim_step [OF this(2) step(2)] show ?case by (meson rtranclp_trans)
qed

end

text \<open>A system whose steps lower a measure: every run is short, and a stuck state is reached.\<close>

locale terminating_system =
  fixes step :: "'s \<Rightarrow> 's \<Rightarrow> bool" and size_of :: "'s \<Rightarrow> nat"
  assumes size_step: "step s t \<Longrightarrow> size_of t < size_of s"
begin

lemma terminates: "wfP (\<lambda>t s. step s t)"
proof (rule wfp_subset)
  show "wfP (\<lambda>t s. size_of t < size_of s)" by (rule wfp_if_convertible_to_nat) assumption
qed (auto intro: size_step)

lemma run_length: "(step ^^ n) s t \<Longrightarrow> n + size_of t \<le> size_of s"
proof (induction n arbitrary: t)
  case (Suc n)
  then obtain u where "(step ^^ n) s u" "step u t" by auto
  with Suc.IH size_step show ?case by fastforce
qed simp

lemma stuck_reached: "\<exists>t. step\<^sup>*\<^sup>* s t \<and> (\<nexists>u. step t u)"
proof (induction "size_of s" arbitrary: s rule: less_induct)
  case less
  show ?case
  proof (cases "\<exists>u. step s u")
    case True
    then obtain u where "step s u" by blast
    with less [OF size_step] show ?thesis by (meson converse_rtranclp_into_rtranclp)
  qed blast
qed

end

end
