(* ===== verification/Js_Number.thy ===== *)
theory Js_Number
  imports Prelude
begin

text \<open>
  Numbers of the program. Integers that the code keeps exact (\<open>bigint\<close>, timestamps,
  counters, 7-decimal token units below \<open>2 ^ 53\<close>) are \<open>int\<close>. A \<open>number\<close> with a
  fraction is a rational on which every operation rounds as IEEE binary64 does
  (53 significant bits, ties to even); a \<open>Decimal\<close> of decimal.js is a rational on
  which every operation rounds to 40 significant decimal digits, ties away from
  zero (the configuration that \<open>loan.service.ts\<close> sets for the process). Both are instances of \<open>round_sig\<close>,
  whose laws are proved once in the locale \<open>integer_rounding\<close>. The exponent range of
  binary64 is not modelled: no value of the code comes near \<open>2 ^ 1023\<close> or
  \<open>2 ^ - 1022\<close>. Where the code tests \<open>Number.isFinite\<close> its argument has type
  \<open>jsnum\<close>, which has the non-finite values too.
\<close>

section \<open>Rounding to a number of significant digits\<close>

text \<open>\<open>digits b n\<close> is the number of base-\<open>b\<close> digits of \<open>n\<close>.\<close>

function digits :: "int \<Rightarrow> int \<Rightarrow> nat" where
  "digits b n = (if n \<le> 0 \<or> b \<le> 1 then 0 else Suc (digits b (n div b)))"
  by pat_completeness auto
termination
  by (relation "measure (\<lambda>(b, n). nat n)") (auto simp: nat_less_eq_zless int_div_less_self)

declare digits.simps [simp del]

definition ilog :: "nat \<Rightarrow> rat \<Rightarrow> int" where
  "ilog b x =
     (let (p, q) = quotient_of x;
          k = int (digits (int b) p) - int (digits (int b) q)
      in if of_nat b powi k \<le> x then k else k - 1)"

definition round_half_even :: "rat \<Rightarrow> int" where
  "round_half_even x =
     (let f = \<lfloor>x\<rfloor>; d = x - of_int f
      in if d < 1 / 2 then f else if 1 / 2 < d then f + 1 else if even f then f else f + 1)"

definition round_half_up :: "rat \<Rightarrow> int" where
  "round_half_up x = \<lfloor>x + 1 / 2\<rfloor>"

definition round_sig :: "nat \<Rightarrow> nat \<Rightarrow> (rat \<Rightarrow> int) \<Rightarrow> rat \<Rightarrow> rat" where
  "round_sig b p r x =
     (if x = 0 then 0
      else let u = of_nat b powi (ilog b \<bar>x\<bar> - int p + 1)
           in sgn x * (of_int (r (\<bar>x\<bar> / u)) * u))"

lemma digits_bounds:
  assumes "1 < b" and "0 < n"
  shows "b ^ (digits b n - 1) \<le> n \<and> n < b ^ digits b n \<and> 0 < digits b n"
  using assms
proof (induction b n rule: digits.induct)
  case (1 b n)
  have d: "digits b n = Suc (digits b (n div b))" using 1(2,3) by (subst digits.simps) simp
  show ?case
  proof (cases "n div b = 0")
    case True
    then have "n < b" using 1(2,3) pos_imp_zdiv_pos_iff [of b n] by linarith
    moreover have "digits b (n div b) = 0" using True by (subst digits.simps) simp
    ultimately show ?thesis using d 1(3) by simp
  next
    case False
    then have q: "0 < n div b" using 1(2,3) by (simp add: pos_imp_zdiv_nonneg_iff order_less_le)
    with 1 have IH: "b ^ (digits b (n div b) - 1) \<le> n div b" "n div b < b ^ digits b (n div b)"
      "0 < digits b (n div b)" by auto
    define m where "m = digits b (n div b)"
    have n: "n = b * (n div b) + n mod b" "0 \<le> n mod b" "n mod b < b" using 1(2) by simp_all
    have "b * b ^ (m - 1) \<le> b * (n div b)" using IH(1) 1(2) by (simp add: m_def)
    moreover have "b ^ m = b * b ^ (m - 1)" using IH(3) by (simp add: m_def flip: power_Suc)
    ultimately have "b ^ m \<le> n" using n(1,2) by linarith
    moreover have "b * (n div b + 1) \<le> b * b ^ m" using IH(2) 1(2) by (intro mult_left_mono) (simp_all add: m_def)
    then have "b * (n div b) + b \<le> b ^ Suc m" by (simp add: algebra_simps)
    then have "n < b ^ Suc m" using n(1,3) by linarith
    ultimately show ?thesis using d by (simp add: m_def)
  qed
qed

text \<open>The exponent found through the digit counts of numerator and denominator is right.\<close>

lemma ilog_bounds:
  assumes b: "1 < b" and x: "0 < x"
  shows "of_nat b powi ilog b x \<le> x" and "x < of_nat b powi (ilog b x + 1)"
proof -
  obtain p q where pq: "quotient_of x = (p, q)" by (cases "quotient_of x")
  have xd: "x = of_int p / of_int q" and q: "0 < q" using pq quotient_of_div quotient_of_denom_pos by auto
  with x have p: "0 < p" by (simp add: zero_less_divide_iff)
  define lp lq where "lp = digits (int b) p" and "lq = digits (int b) q"
  have pq0: "0 < (of_int p :: rat)" "0 < (of_int q :: rat)" using p q by simp_all
  define B :: rat where "B = of_nat b"
  have B: "1 < B" using b by (simp add: B_def)
  have fb: "int b ^ (lp - 1) \<le> p" "p < int b ^ lp" "0 < lp"
      "int b ^ (lq - 1) \<le> q" "q < int b ^ lq" "0 < lq"
    using digits_bounds [of "int b" p] digits_bounds [of "int b" q] b p q
    by (simp_all add: lp_def lq_def)
  have Bp: "of_int (int b ^ i) = B ^ i" for i by (simp add: B_def)
  have up: "of_int p < B ^ lp" "of_int q < B ^ lq"
    and lo: "B ^ (lp - 1) \<le> of_int p" "B ^ (lq - 1) \<le> of_int q"
    unfolding Bp [symmetric] of_int_less_iff of_int_le_iff using fb by simp_all
  define k where "k = int lp - int lq"
  have "x < B ^ lp / B ^ (lq - 1)"
    using up(1) lo(2) pq0 B by (auto simp: xd intro!: frac_less)
  also have "B ^ lp / B ^ (lq - 1) = B powi (int lp - int (lq - 1))"
    using B by (simp add: power_int_diff power_int_of_nat)
  also have "int lp - int (lq - 1) = k + 1" using fb by (simp add: k_def of_nat_diff)
  finally have hi: "x < B powi (k + 1)" .
  have "B powi (int (lp - 1) - int lq) = B ^ (lp - 1) / B ^ lq"
    using B by (simp add: power_int_diff power_int_of_nat)
  also have "\<dots> \<le> x"
    using lo(1) up(2) pq0 B by (auto simp: xd intro!: frac_le)
  also have "int (lp - 1) - int lq = k - 1" using fb by (simp add: k_def of_nat_diff)
  finally have lw: "B powi (k - 1) \<le> x" .
  have e: "ilog b x = (if B powi k \<le> x then k else k - 1)"
    by (simp add: ilog_def pq Let_def B_def k_def lp_def lq_def)
  from hi lw show "of_nat b powi ilog b x \<le> x" and "x < of_nat b powi (ilog b x + 1)"
    unfolding e by (auto simp: B_def [symmetric])
qed

section \<open>The laws of rounding\<close>

text \<open>
  What a rounding of rationals to integers has to promise so that rounding to
  significant digits is monotone, keeps representable values and has a bounded
  relative error.
\<close>

locale integer_rounding =
  fixes r :: "rat \<Rightarrow> int"
  assumes r_mono: "x \<le> y \<Longrightarrow> r x \<le> r y"
    and r_int: "r (of_int n) = n"
    and r_close: "\<bar>of_int (r x) - x\<bar> \<le> 1 / 2"
begin

lemma round_sig_0: "round_sig b p r 0 = 0"
  by (simp add: round_sig_def)

lemma round_sig_minus: "round_sig b p r (- x) = - round_sig b p r x"
  by (simp add: round_sig_def sgn_minus Let_def)

lemma round_sig_pos_eq:
  "0 < x \<Longrightarrow> round_sig b p r x =
     of_int (r (x / of_nat b powi (ilog b x - int p + 1))) * of_nat b powi (ilog b x - int p + 1)"
  by (simp add: round_sig_def Let_def)

lemma round_sig_range:
  assumes b: "1 < b" and p: "0 < p" and x: "0 < x"
  shows "of_nat b powi ilog b x \<le> round_sig b p r x"
    and "round_sig b p r x \<le> of_nat b powi (ilog b x + 1)"
proof -
  define B :: rat where "B = of_nat b"
  define e where "e = ilog b x"
  define u where "u = B powi (e - int p + 1)"
  have B: "1 < B" using b by (simp add: B_def)
  then have u: "0 < u" by (simp add: u_def)
  have lo: "B powi e \<le> x" and hi: "x < B powi (e + 1)"
    using ilog_bounds [OF b x] by (simp_all add: B_def e_def)
  have le: "B powi e = of_int (int b ^ (p - 1)) * u" and he: "B powi (e + 1) = of_int (int b ^ p) * u"
    using B p by (simp_all add: u_def B_def of_nat_diff flip: power_int_of_nat power_int_add)
  have "of_int (int b ^ (p - 1)) \<le> x / u" using lo le u by (simp add: field_simps)
  then have "int b ^ (p - 1) \<le> r (x / u)" using r_mono r_int by metis
  then have "of_int (int b ^ (p - 1)) * u \<le> of_int (r (x / u)) * u"
    using u by (simp only: mult_le_cancel_right_pos of_int_le_iff)
  then show "of_nat b powi ilog b x \<le> round_sig b p r x"
    using x le by (simp add: round_sig_pos_eq e_def u_def B_def)
  have "x / u \<le> of_int (int b ^ p)" using hi he u by (simp add: field_simps)
  then have "r (x / u) \<le> int b ^ p" using r_mono r_int by metis
  then have "of_int (r (x / u)) * u \<le> of_int (int b ^ p) * u"
    using u by (simp only: mult_le_cancel_right_pos of_int_le_iff)
  then show "round_sig b p r x \<le> of_nat b powi (ilog b x + 1)"
    using x he by (simp add: round_sig_pos_eq e_def u_def B_def)
qed

lemma round_sig_pos: "1 < b \<Longrightarrow> 0 < p \<Longrightarrow> 0 < x \<Longrightarrow> 0 < round_sig b p r x"
  using round_sig_range(1) [of b p x] by (meson less_le_trans of_nat_0_less_iff zero_less_power_int less_trans zero_less_one)

lemma round_sig_mono_pos:
  assumes b: "1 < b" and p: "0 < p" and x: "0 < x" and xy: "x \<le> y"
  shows "round_sig b p r x \<le> round_sig b p r y"
proof -
  define B :: rat where "B = of_nat b"
  have B: "1 < B" using b by (simp add: B_def)
  have y: "0 < y" using x xy by simp
  have "B powi ilog b x < B powi (ilog b y + 1)"
    using ilog_bounds [OF b x] ilog_bounds [OF b y] xy by (simp add: B_def)
  then have "ilog b x \<le> ilog b y"
    using B by (metis linorder_not_le power_int_increasing zless_add1_eq less_imp_le
        add1_zle_eq)
  then consider "ilog b x = ilog b y" | "ilog b x + 1 \<le> ilog b y" by linarith
  then show ?thesis
  proof cases
    case 1
    define u where "u = B powi (ilog b y - int p + 1)"
    have u: "0 < u" using B by (simp add: u_def)
    then have "r (x / u) \<le> r (y / u)" using xy by (intro r_mono) (simp add: divide_right_mono)
    then have "of_int (r (x / u)) * u \<le> of_int (r (y / u)) * u"
      using u by (simp only: mult_le_cancel_right_pos of_int_le_iff)
    then show ?thesis using x y 1 by (simp add: round_sig_pos_eq u_def B_def)
  next
    case 2
    have "round_sig b p r x \<le> B powi (ilog b x + 1)"
      using round_sig_range(2) [OF b p x] by (simp add: B_def)
    also have "\<dots> \<le> B powi ilog b y" using 2 B by (intro power_int_increasing) simp_all
    also have "\<dots> \<le> round_sig b p r y" using round_sig_range(1) [OF b p y] by (simp add: B_def)
    finally show ?thesis .
  qed
qed

lemma round_sig_mono:
  assumes b: "1 < b" and p: "0 < p" and xy: "x \<le> y"
  shows "round_sig b p r x \<le> round_sig b p r y"
proof -
  consider "0 < x" | "x \<le> 0" "0 \<le> y" | "y < 0" using xy by linarith
  then show ?thesis
  proof cases
    case 1 then show ?thesis using round_sig_mono_pos b p xy by blast
  next
    case 2
    have "round_sig b p r x \<le> 0"
      using round_sig_pos [OF b p, of "- x"] 2 round_sig_0
      by (cases "x = 0") (auto simp: round_sig_minus)
    moreover have "0 \<le> round_sig b p r y"
      using round_sig_pos [OF b p, of y] 2 round_sig_0 by (cases "y = 0") auto
    ultimately show ?thesis by simp
  next
    case 3
    then have "round_sig b p r (- y) \<le> round_sig b p r (- x)"
      using round_sig_mono_pos b p xy by simp
    then show ?thesis by (simp add: round_sig_minus)
  qed
qed

text \<open>Values of the form \<open>m * b ^ k\<close> with at most \<open>p\<close> digits are not changed.\<close>

lemma round_sig_exact_pos:
  assumes b: "1 < b" and m: "0 < m" "m < int b ^ p"
  shows "round_sig b p r (of_int m * of_nat b powi k) = of_int m * of_nat b powi k"
proof -
  define B :: rat where "B = of_nat b"
  have B: "1 < B" using b by (simp add: B_def)
  define x where "x = of_int m * B powi k"
  have x: "0 < x" using m B by (simp add: x_def)
  define e where "e = ilog b x"
  have "of_int m < (of_int (int b ^ p) :: rat)" using m by (simp only: of_int_less_iff)
  then have "of_int m < B ^ p" by (simp add: B_def)
  then have "x < B powi (int p + k)" using B by (simp add: x_def power_int_add power_int_of_nat)
  moreover have "B powi e \<le> x" using ilog_bounds [OF b x] by (simp add: B_def e_def)
  ultimately have "B powi e < B powi (int p + k)" by simp
  then have "e < int p + k" using B by (metis linorder_not_le power_int_increasing less_imp_le)
  then have "k = (e - int p + 1) + int (nat (k - (e - int p + 1)))" by simp
  then obtain n where n: "k = (e - int p + 1) + int n" by blast
  define u where "u = B powi (e - int p + 1)"
  have u: "0 < u" using B by (simp add: u_def)
  have "B powi k = u * B ^ n"
    using B unfolding n u_def by (subst power_int_add) (simp_all add: power_int_of_nat)
  then have xu: "x = of_int (m * int b ^ n) * u"
    by (simp add: x_def B_def mult.assoc mult.commute [of u])
  then have "x / u = of_int (m * int b ^ n)" using u by simp
  then have "r (x / u) = m * int b ^ n" by (simp only: r_int)
  moreover have "round_sig b p r x = of_int (r (x / u)) * u"
    unfolding u_def e_def B_def by (rule round_sig_pos_eq [OF x])
  ultimately have "round_sig b p r x = of_int (m * int b ^ n) * u" by simp
  also have "\<dots> = x" by (rule xu [symmetric])
  finally have "round_sig b p r x = x" .
  then show ?thesis by (simp add: x_def B_def)
qed

lemma round_sig_exact:
  assumes b: "1 < b" and m: "\<bar>m\<bar> < int b ^ p"
  shows "round_sig b p r (of_int m * of_nat b powi k) = of_int m * of_nat b powi k"
proof -
  consider "m = 0" | "0 < m" | "0 < - m" by linarith
  then show ?thesis
  proof cases
    case 1 then show ?thesis by (simp add: round_sig_0)
  next
    case 2 then show ?thesis using round_sig_exact_pos [OF b] m by simp
  next
    case 3
    then have "round_sig b p r (of_int (- m) * of_nat b powi k) = of_int (- m) * of_nat b powi k"
      using m by (intro round_sig_exact_pos [OF b]) simp_all
    then show ?thesis by (simp add: round_sig_minus)
  qed
qed

lemma round_sig_of_int:
  "1 < b \<Longrightarrow> \<bar>n\<bar> < int b ^ p \<Longrightarrow> round_sig b p r (of_int n) = of_int n"
  using round_sig_exact [of b n p 0] by simp

text \<open>The relative error is at most half a unit of the last digit.\<close>

lemma round_sig_error:
  assumes b: "1 < b" and x: "x \<noteq> 0"
  shows "\<bar>round_sig b p r x - x\<bar> \<le> \<bar>x\<bar> * of_nat b powi (1 - int p) / 2"
proof -
  define a where "a = \<bar>x\<bar>"
  define B :: rat where "B = of_nat b"
  have a: "0 < a" and B: "1 < B" using x b by (simp_all add: a_def B_def)
  define u where "u = B powi (ilog b a - int p + 1)"
  have u: "0 < u" using B by (simp add: u_def)
  have "round_sig b p r x = sgn x * round_sig b p r a"
    using x by (simp add: round_sig_def a_def Let_def sgn_abs)
  then have "\<bar>round_sig b p r x - x\<bar> = \<bar>round_sig b p r a - a\<bar>"
    using x by (cases "0 < x") (auto simp: a_def)
  also have "\<dots> = \<bar>of_int (r (a / u)) - a / u\<bar> * u"
  proof -
    have "round_sig b p r a - a = (of_int (r (a / u)) - a / u) * u"
      using a u by (simp add: round_sig_pos_eq left_diff_distrib flip: u_def B_def)
    then show ?thesis using u by (simp add: abs_mult)
  qed
  also have "\<dots> \<le> 1 / 2 * u" using r_close u by (intro mult_right_mono) simp_all
  also have "u = B powi ilog b a * B powi (1 - int p)"
    using B by (simp add: u_def flip: power_int_add) (simp add: algebra_simps)
  also have "1 / 2 * (B powi ilog b a * B powi (1 - int p)) \<le> a * B powi (1 - int p) / 2"
    using ilog_bounds(1) [OF b a] B by (simp add: B_def)
  finally show ?thesis by (simp add: a_def B_def)
qed

end

section \<open>The two rounding modes\<close>

lemma round_half_even_cases:
  "round_half_even x = \<lfloor>x\<rfloor> \<and> x - of_int \<lfloor>x\<rfloor> \<le> 1 / 2 \<or>
   round_half_even x = \<lfloor>x\<rfloor> + 1 \<and> 1 / 2 \<le> x - of_int \<lfloor>x\<rfloor>"
  by (auto simp: round_half_even_def Let_def)

lemma round_half_even_mono:
  assumes "x \<le> y"
  shows "round_half_even x \<le> round_half_even y"
proof (cases "\<lfloor>x\<rfloor> = \<lfloor>y\<rfloor>")
  case True
  with assms show ?thesis by (auto simp: round_half_even_def Let_def)
next
  case False
  then have "\<lfloor>x\<rfloor> + 1 \<le> \<lfloor>y\<rfloor>" using floor_mono [OF assms] by linarith
  then show ?thesis using round_half_even_cases [of x] round_half_even_cases [of y] by linarith
qed

lemma round_half_even_close: "\<bar>of_int (round_half_even x) - x\<bar> \<le> 1 / 2"
  using round_half_even_cases [of x] floor_correct [of x] by (auto simp: abs_le_iff)

interpretation even_rounding: integer_rounding round_half_even
proof
  show "round_half_even (of_int n) = n" for n
    by (simp add: round_half_even_def)
qed (rule round_half_even_mono round_half_even_close; assumption?)+

lemma round_half_up_close: "\<bar>of_int (round_half_up x) - x\<bar> \<le> 1 / 2"
  unfolding round_half_up_def abs_le_iff using floor_correct [of "x + 1 / 2"] by linarith

interpretation up_rounding: integer_rounding round_half_up
proof
  fix x y :: rat and n :: int
  show "x \<le> y \<Longrightarrow> round_half_up x \<le> round_half_up y"
    by (simp add: round_half_up_def floor_mono)
  show "round_half_up (of_int n) = n"
    unfolding round_half_up_def by (rule floor_unique) simp_all
  show "\<bar>of_int (round_half_up x) - x\<bar> \<le> 1 / 2" by (rule round_half_up_close)
qed

section \<open>JavaScript numbers\<close>

datatype jsnum = Fin rat | NaN | PosInf | NegInf

fun isFinite :: "jsnum \<Rightarrow> bool" where
  "isFinite (Fin _) = True"
| "isFinite _ = False"

definition fl :: "rat \<Rightarrow> rat" where
  "fl x = round_sig 2 53 round_half_even x"

definition fadd :: "rat \<Rightarrow> rat \<Rightarrow> rat" where "fadd x y = fl (x + y)"
definition fsub :: "rat \<Rightarrow> rat \<Rightarrow> rat" where "fsub x y = fl (x - y)"
definition fmul :: "rat \<Rightarrow> rat \<Rightarrow> rat" where "fmul x y = fl (x * y)"
definition fdiv :: "rat \<Rightarrow> rat \<Rightarrow> rat" where "fdiv x y = fl (x / y)"

text \<open>\<open>Number\<close> of a bigint, as a value and as an integer, and the division of bigints towards zero.\<close>

definition num_of_big :: "int \<Rightarrow> rat" where "num_of_big n = fl (of_int n)"
definition js_num :: "int \<Rightarrow> int" where "js_num n = \<lfloor>num_of_big n\<rfloor>"

definition big_div :: "int \<Rightarrow> int \<Rightarrow> int" where
  "big_div a b = sgn a * sgn b * (\<bar>a\<bar> div \<bar>b\<bar>)"

text \<open>A decimal literal of the source: \<open>lit 14 2\<close> is \<open>0.14\<close>.\<close>

definition lit :: "int \<Rightarrow> nat \<Rightarrow> rat" where
  "lit m k = fl (of_int m / 10 ^ k)"

lemmas f_ops = fadd_def fsub_def fmul_def fdiv_def

lemma fl_mono: "x \<le> y \<Longrightarrow> fl x \<le> fl y"
  unfolding fl_def by (rule even_rounding.round_sig_mono) simp_all

lemma fl_0 [simp]: "fl 0 = 0"
  by (simp add: fl_def even_rounding.round_sig_0)

lemma fl_minus: "fl (- x) = - fl x"
  by (simp add: fl_def even_rounding.round_sig_minus)

lemma fl_nonneg: "0 \<le> x \<Longrightarrow> 0 \<le> fl x"
  using fl_mono [of 0 x] by simp

lemma fl_pos: "0 < x \<Longrightarrow> 0 < fl x"
  unfolding fl_def by (rule even_rounding.round_sig_pos) simp_all

lemma lit_mono: "m \<le> n \<Longrightarrow> lit m k \<le> lit n k"
  by (simp add: lit_def fl_mono divide_right_mono)

lemma lit_nonneg: "0 \<le> m \<Longrightarrow> 0 \<le> lit m k"
  by (simp add: lit_def fl_nonneg)

lemma fl_of_int: "\<bar>n\<bar> < 2 ^ 53 \<Longrightarrow> fl (of_int n) = of_int n"
  unfolding fl_def by (rule even_rounding.round_sig_of_int) simp_all

lemma fl_error: "\<bar>fl x - x\<bar> \<le> \<bar>x\<bar> / 2 ^ 53"
proof (cases "x = 0")
  case False
  have "\<bar>fl x - x\<bar> \<le> \<bar>x\<bar> * of_nat 2 powi (1 - int 53) / 2"
    unfolding fl_def by (rule even_rounding.round_sig_error) (simp_all add: False)
  then show ?thesis by (simp add: power_int_minus)
qed simp

text \<open>
  A rounded value is recognised by its mantissa and exponent, which evaluates closed
  instances with numerals only.
\<close>

lemma ilog_unique:
  assumes b: "1 < b" and lo: "of_nat b powi e \<le> x" and hi: "x < of_nat b powi (e + 1)"
  shows "ilog b x = e"
proof -
  define B :: rat where "B = of_nat b"
  have B: "1 < B" using b by (simp add: B_def)
  have "0 < B powi e" using B by simp
  then have x: "0 < x" using lo by (simp add: B_def)
  have "B powi e < B powi (ilog b x + 1)" "B powi ilog b x < B powi (e + 1)"
    using ilog_bounds [OF b x] lo hi by (simp_all add: B_def)
  then have "e < ilog b x + 1" "ilog b x < e + 1"
    using B by (metis linorder_not_le power_int_increasing less_imp_le)+
  then show ?thesis by simp
qed

lemma round_half_even_unique: "\<bar>x - of_int m\<bar> < 1 / 2 \<Longrightarrow> round_half_even x = m"
proof -
  assume a: "\<bar>x - of_int m\<bar> < 1 / 2"
  have "\<bar>of_int (round_half_even x) - of_int m :: rat\<bar> < 1"
    using round_half_even_close [of x] a by linarith
  then show ?thesis by linarith
qed

lemma fl_eqI:
  assumes "2 ^ 52 \<le> x / 2 powi k" "x / 2 powi k < 2 ^ 53" "\<bar>x / 2 powi k - of_int m\<bar> < 1 / 2"
  shows "fl x = of_int m * 2 powi k"
proof -
  have u: "0 < (2 :: rat) powi k" by simp
  have "0 < x / 2 powi k" using assms(1) by (rule less_le_trans [rotated]) simp
  then have x: "0 < x" using u by (simp add: zero_less_divide_iff)
  have "2 powi (k + 52) \<le> x" "x < 2 powi (k + 52 + 1)"
    using assms(1,2) u by (simp_all add: field_simps power_int_add)
  then have "ilog 2 x = k + 52" using ilog_unique [of 2 "k + 52" x] by simp
  then show ?thesis
    using x round_half_even_unique [OF assms(3)] by (simp add: fl_def even_rounding.round_sig_pos_eq)
qed

lemma fl_idem [simp]: "fl (fl x) = fl x"
proof -
  have pos: "fl (fl x) = fl x" if x: "0 < x" for x
  proof -
    define e where "e = ilog 2 x - 53 + 1"
    define m where "m = round_half_even (x / 2 powi e)"
    have f: "fl x = of_int m * 2 powi e"
      using x by (simp add: fl_def even_rounding.round_sig_pos_eq m_def e_def)
    have u: "0 < (2 :: rat) powi e" by simp
    have "fl x \<le> 2 powi (ilog 2 x + 1)" "0 < fl x"
      using even_rounding.round_sig_range(2) [of 2 53 x] x fl_pos [OF x] by (simp_all add: fl_def)
    moreover have "(2 :: rat) powi (ilog 2 x + 1) = 2 ^ 53 * 2 powi e"
    proof -
      have "ilog 2 x + 1 = e + 53" by (simp add: e_def)
      then show ?thesis by (simp add: power_int_add)
    qed
    ultimately have m: "0 < m" "m \<le> 2 ^ 53"
      using f u by (simp_all add: zero_less_mult_iff)
    show ?thesis
    proof (cases "m = 2 ^ 53")
      case True
      then have "fl x = of_int 1 * 2 powi (e + 53)" using f by (simp add: power_int_add)
      then show ?thesis using even_rounding.round_sig_exact [of 2 1 53 "e + 53"] by (simp add: fl_def)
    next
      case False
      then show ?thesis using f m even_rounding.round_sig_exact [of 2 m 53 e] by (simp add: fl_def)
    qed
  qed
  show ?thesis
  proof (cases "x < 0")
    case True
    then show ?thesis using pos [of "- x"] by (simp add: fl_minus)
  qed (use pos [of x] in \<open>cases "x = 0"; simp\<close>)
qed

text \<open>
  The decimal that \<open>Number.prototype.toString\<close> prints, and hence the value of \<open>new Decimal\<close> of
  a number: the nearest decimal with the fewest significant digits that reads back as the
  number. Seventeen digits are always enough.
\<close>

definition shortest_decimal :: "rat \<Rightarrow> rat" where
  "shortest_decimal x =
     (case find (\<lambda>k. fl (round_sig 10 k round_half_even x) = x) [1..<18] of
        Some k \<Rightarrow> round_sig 10 k round_half_even x
      | None \<Rightarrow> x)"

lemma fl_shortest: "fl x = x \<Longrightarrow> fl (shortest_decimal x) = x"
  by (auto simp: shortest_decimal_def find_Some_iff split: option.splits)

lemma shortest_mono:
  assumes "fl x = x" "fl y = y" "x \<le> y"
  shows "shortest_decimal x \<le> shortest_decimal y"
proof (cases "x = y")
  case False
  show ?thesis
  proof (rule ccontr)
    assume "\<not> shortest_decimal x \<le> shortest_decimal y"
    then have "fl (shortest_decimal y) \<le> fl (shortest_decimal x)" by (intro fl_mono) simp
    then show False using assms False by (simp add: fl_shortest)
  qed
qed simp

section \<open>Decimal values\<close>

definition dl :: "rat \<Rightarrow> rat" where
  "dl x = round_sig 10 40 round_half_up x"

definition dadd :: "rat \<Rightarrow> rat \<Rightarrow> rat" where "dadd x y = dl (x + y)"
definition dsub :: "rat \<Rightarrow> rat \<Rightarrow> rat" where "dsub x y = dl (x - y)"
definition dmul :: "rat \<Rightarrow> rat \<Rightarrow> rat" where "dmul x y = dl (x * y)"
definition ddiv :: "rat \<Rightarrow> rat \<Rightarrow> rat" where "ddiv x y = dl (x / y)"

lemmas d_ops = dadd_def dsub_def dmul_def ddiv_def

text \<open>\<open>Decimal.prototype.toFixed\<close>, as the value its string denotes.\<close>

definition toFixed :: "nat \<Rightarrow> rat \<Rightarrow> rat" where
  "toFixed k x = sgn x * (of_int (round_half_up (\<bar>x\<bar> * 10 ^ k)) / 10 ^ k)"

lemma dl_mono: "x \<le> y \<Longrightarrow> dl x \<le> dl y"
  unfolding dl_def by (rule up_rounding.round_sig_mono) simp_all

lemma dl_0 [simp]: "dl 0 = 0"
  by (simp add: dl_def up_rounding.round_sig_0)

lemma dl_nonneg: "0 \<le> x \<Longrightarrow> 0 \<le> dl x"
  using dl_mono [of 0 x] by simp

lemma dl_exact:
  assumes "\<bar>m\<bar> < 10 ^ 40"
  shows "dl (of_int m / 10 ^ k) = of_int m / 10 ^ k"
  using up_rounding.round_sig_exact [of 10 m 40 "- int k"] assms
  by (simp add: dl_def power_int_minus power_int_of_nat divide_inverse)

lemma toFixed_idem [simp]: "toFixed k (toFixed k x) = toFixed k x"
proof -
  define n where "n = round_half_up (\<bar>x\<bar> * 10 ^ k)"
  have n: "0 \<le> n" by (simp add: n_def round_half_up_def)
  have r: "round_half_up (of_int m) = m" for m
    unfolding round_half_up_def by (rule floor_unique) simp_all
  have "toFixed k (sgn x * (of_int n / 10 ^ k)) = sgn x * (of_int n / 10 ^ k)"
    using n r [of n] by (cases "n = 0"; cases x "0 :: rat" rule: linorder_cases) (auto simp: toFixed_def)
  then show ?thesis by (simp add: toFixed_def [of k x] n_def)
qed

lemma toFixed_nonneg: "0 \<le> x \<Longrightarrow> 0 \<le> toFixed k x"
  by (auto simp: toFixed_def round_half_up_def sgn_if intro!: divide_nonneg_nonneg)

lemma toFixed_mono_nonneg:
  assumes "0 \<le> x" "x \<le> y"
  shows "toFixed k x \<le> toFixed k y"
proof -
  have "round_half_up (x * 10 ^ k) \<le> round_half_up (y * 10 ^ k)"
    using assms by (intro up_rounding.r_mono) (simp add: mult_right_mono)
  then show ?thesis using assms toFixed_nonneg [of y k]
    by (cases "x = 0") (auto simp: toFixed_def sgn_if divide_right_mono)
qed

lemma toFixed_error: "\<bar>toFixed k x - x\<bar> \<le> 1 / (2 * 10 ^ k)"
proof -
  define a where "a = \<bar>x\<bar>"
  define n :: rat where "n = of_int (round_half_up (a * 10 ^ k))"
  have "n / 10 ^ k - a = (n - a * 10 ^ k) / 10 ^ k" by (simp add: field_simps)
  then have "\<bar>n / 10 ^ k - a\<bar> = \<bar>n - a * 10 ^ k\<bar> / 10 ^ k" by (simp add: abs_divide)
  also have "\<dots> \<le> (1 / 2) / 10 ^ k"
    unfolding n_def by (intro divide_right_mono round_half_up_close) simp
  finally have "\<bar>of_int (round_half_up (a * 10 ^ k)) / 10 ^ k - a\<bar> \<le> 1 / (2 * 10 ^ k)"
    by (simp add: n_def)
  then show ?thesis
    by (cases "x = 0"; cases "0 < x") (auto simp: toFixed_def a_def sgn_if abs_minus_commute)
qed

end
