(* ===== verification/Entities.thy ===== *)
theory Entities
  imports Js_Number
begin

text \<open>
  The persistent entities: \<open>backend/src/domain/entities/loan.entity.ts\<close> and
  \<open>user.entity.ts\<close>. A nullable column is an option, a \<open>timestamptz\<close> is its number of
  milliseconds, an \<open>integer\<close> column an \<open>int\<close>, and a \<open>decimal\<close> column the decimal number that
  its text denotes, as a rational: the service code stores, compares and reloads these
  numbers, and computes with them through the operations of \<open>Js_Number\<close>. The columns of
  \<open>User\<close> come in three groups, each extending the one before, in the order of the source.

  A table is the list of its rows. What a repository does with it (lookup by a
  condition, replacement by primary key, insertion) is at the end of the theory.
\<close>

section \<open>Loans\<close>

datatype LoanStatus = OPEN | REPAID_ON_TIME | REPAID_LATE | DEFAULTED_IN_GRACE | DEFAULTED

record Loan =
  loan_id :: nat
  loan_userId :: nat
  borrowerAddress :: string
  principal :: rat
  amountDueAtOpen :: rat
  amountPaid :: rat
  tenorDays :: int
  feeBps :: int
  startAt :: int
  dueAt :: int
  closedAt :: "int option"
  status :: LoanStatus
  repaidOnTime :: bool
  openTxHash :: "string option"
  closeTxHash :: "string option"
  syncedByChain :: bool
  loan_lateRatePerSecWad :: "int option"
  gracePeriodSec :: "int option"
  lateFeesCurrentUsd :: "rat option"
  lateFeesSnapshotAt :: "int option"
  lateFeesCollectedUsd :: "rat option"
  loan_createdAt :: int

section \<open>Users\<close>

record UserIdentity =
  user_id :: nat
  walletAddress :: string
  platform :: "string option"
  firstName :: "string option"
  lastName :: "string option"
  birthdate :: "string option"
  nationality :: "string option"
  documentType :: "string option"
  documentNumber :: "string option"
  creditLimit :: "rat option"
  score :: "int option"
  email :: "string option"
  waitlistJoinedAt :: "int option"
  earlyAccessNotifiedAt :: "int option"
  user_createdAt :: int
  xp :: int
  waitlistPriority :: int

record UserRisk = UserIdentity +
  riskDecision :: "string option"
  riskPDefault :: "rat option"
  riskClass :: "string option"
  riskScoredAt :: "int option"
  walletQuality :: "string option"
  workType :: "string option"
  termsAcceptedAt :: "int option"
  phone :: "string option"
  phoneVerifiedAt :: "int option"
  lastPhoneOtpSentAt :: "int option"
  phoneOtpCode :: "string option"
  phoneOtpExpiresAt :: "int option"
  phoneOtpAttemptCount :: int

record User = UserRisk +
  hadDefaultEver :: bool
  defaultsCount :: int
  lemonTag :: "string option"
  pep :: "bool option"
  lemonCountry :: "string option"
  lemonAuthenticatedAt :: "int option"
  identityCrossCheckedAt :: "int option"
  kycStatus :: string
  kycSessionId :: "string option"
  kycProvider :: "string option"
  kycApprovedAt :: "int option"
  identityMatchScore :: "int option"
  lemonEmail :: "string option"
  emailMatchesLemon :: "bool option"

section \<open>Tables\<close>

text \<open>\<open>Repository.findOne\<close> with an order: the first row of a stable sort, newest first.\<close>

definition newest :: "('a \<Rightarrow> int) \<Rightarrow> ('a \<Rightarrow> bool) \<Rightarrow> 'a list \<Rightarrow> 'a option" where
  "newest k P rows = find P (sort_key (\<lambda>r. - k r) rows)"

text \<open>Replacement of the row with the same primary key.\<close>

definition put_row :: "('a \<Rightarrow> nat) \<Rightarrow> 'a \<Rightarrow> 'a list \<Rightarrow> 'a list" where
  "put_row key r rows = map (\<lambda>s. if key s = key r then r else s) rows"

definition fresh_id :: "('a \<Rightarrow> nat) \<Rightarrow> 'a list \<Rightarrow> nat" where
  "fresh_id key rows = fold (\<lambda>r n. max (key r + 1) n) rows 1"

text \<open>The scale of the decimal columns: the database rounds to two decimals on write.\<close>

definition store_loan :: "Loan \<Rightarrow> Loan" where
  "store_loan l = l\<lparr>principal := toFixed 2 (principal l), amountDueAtOpen := toFixed 2 (amountDueAtOpen l),
     amountPaid := toFixed 2 (amountPaid l),
     lateFeesCurrentUsd := map_option (toFixed 2) (lateFeesCurrentUsd l),
     lateFeesCollectedUsd := map_option (toFixed 2) (lateFeesCollectedUsd l)\<rparr>"

definition store_user :: "User \<Rightarrow> User" where
  "store_user u = u\<lparr>creditLimit := map_option (toFixed 2) (creditLimit u),
     riskPDefault := map_option (toFixed 4) (riskPDefault u)\<rparr>"

section \<open>Lemmas on tables\<close>

lemma store_idem [simp]: "store_loan (store_loan l) = store_loan l" "store_user (store_user u) = store_user u"
  by (simp_all add: store_loan_def store_user_def option.map_comp o_def)

lemma find_cond: "find P xs = Some x \<Longrightarrow> P x \<and> x \<in> set xs"
  by (auto simp: find_Some_iff in_set_conv_nth)

lemma find_none: "find P xs = None \<longleftrightarrow> (\<forall>x \<in> set xs. \<not> P x)"
  by (auto simp: find_None_iff)

lemma newest_Some: "newest k P rows = Some r \<Longrightarrow> P r \<and> r \<in> set rows"
  unfolding newest_def using find_cond by fastforce

lemma newest_None: "newest k P rows = None \<longleftrightarrow> (\<forall>x \<in> set rows. \<not> P x)"
  unfolding newest_def find_none by simp

lemma find_sorted_first:
  assumes "find P xs = Some r" and "sorted_wrt R xs" and "s \<in> set xs" "P s" and refl: "\<And>x. R x x"
  shows "R r s"
proof -
  from assms(1) obtain i where i: "i < length xs" "r = xs ! i" "\<forall>j < i. \<not> P (xs ! j)"
    by (auto simp: find_Some_iff)
  from assms(3) obtain j where j: "j < length xs" "s = xs ! j" by (auto simp: in_set_conv_nth)
  with i assms(4) have "i \<le> j" by (metis not_le)
  then show ?thesis using i j assms(2) refl by (cases "i = j") (auto simp: sorted_wrt_iff_nth_less)
qed

lemma newest_max:
  assumes "newest k P rows = Some r" and "s \<in> set rows" and "P s"
  shows "k s \<le> k r"
proof -
  have "sorted_wrt (\<lambda>x y. - k x \<le> - k y) (sort_key (\<lambda>r. - k r) rows)"
    using sorted_sort_key [of "\<lambda>r. - k r" rows] by (simp add: sorted_map)
  from find_sorted_first [OF _ this, of P r s] assms show ?thesis by (simp add: newest_def)
qed

lemma set_put_row: "set (put_row key r rows) = (\<lambda>s. if key s = key r then r else s) ` set rows"
  by (simp add: put_row_def)

lemma put_row_keys [simp]: "map key (put_row key r rows) = map key rows"
  by (simp add: put_row_def)

lemma length_put_row [simp]: "length (put_row key r rows) = length rows"
  by (simp add: put_row_def)

lemma put_row_other: "s \<in> set rows \<Longrightarrow> key s \<noteq> key r \<Longrightarrow> s \<in> set (put_row key r rows)"
  by (auto simp: set_put_row intro!: rev_image_eqI)

lemma put_row_same: "s \<in> set rows \<Longrightarrow> key s = key r \<Longrightarrow> r \<in> set (put_row key r rows)"
  by (auto simp: set_put_row intro!: rev_image_eqI)

lemma find_put_row:
  assumes "distinct (map key rows)" "s \<in> set rows" "key s = key r" "P r"
    and "\<And>x. x \<in> set rows \<Longrightarrow> key x \<noteq> key r \<Longrightarrow> \<not> P x"
  shows "find P (put_row key r rows) = Some r"
  using assms
proof (induction rows)
  case (Cons a rows)
  then show ?case by (cases "key a = key r") (auto simp: put_row_def)
qed simp

lemma fresh_id_bound: "r \<in> set rows \<Longrightarrow> key r < fresh_id key rows"
proof -
  have mono: "n \<le> fold (\<lambda>r n. max (key r + 1) n) xs n" for xs n
    by (induction xs arbitrary: n) (auto intro: order_trans [OF max.cobounded2])
  have "r \<in> set xs \<Longrightarrow> key r < fold (\<lambda>r n. max (key r + 1) n) xs n" for xs n
  proof (induction xs arbitrary: n)
    case (Cons a xs)
    then show ?case using mono [of "max (key a + 1) n" xs] by fastforce
  qed simp
  then show "r \<in> set rows \<Longrightarrow> key r < fresh_id key rows" by (simp add: fresh_id_def)
qed

lemma fresh_id_notin: "fresh_id key rows \<notin> key ` set rows"
  by (auto dest!: fresh_id_bound [where key = key])

end
