(* ===== verification/Service.thy ===== *)
theory Service
  imports Prelude Entities
begin

text \<open>
  How service code runs: a handler maps the world to an outcome and the world after it.
  The world holds the tables, the chain (of arbitrary type, changed by the operations of
  the gateway only) and the clock. An \<open>async\<close> method that throws is \<open>Inl\<close>; what it did to
  the world before it threw stays done, except for the tables of a database transaction,
  which are rolled back.

  The gateway is the port of \<open>backend/src/domain/ports/outbound/blockchain-gateway.port.ts\<close>.
\<close>

section \<open>The world\<close>

record 'c world =
  users :: "User list"
  loans :: "Loan list"
  chain :: 'c
  now :: int

type_synonym ('s, 'a) svc = "'s \<Rightarrow> (http_error, 'a) result \<times> 's"

definition sret :: "'a \<Rightarrow> ('s, 'a) svc" where "sret a s = (Inr a, s)"
definition sthrow :: "http_error \<Rightarrow> ('s, 'a) svc" where "sthrow e s = (Inl e, s)"

definition sbind :: "('s, 'a) svc \<Rightarrow> ('a \<Rightarrow> ('s, 'b) svc) \<Rightarrow> ('s, 'b) svc" where
  "sbind m f s = (case m s of (Inl e, s') \<Rightarrow> (Inl e, s') | (Inr a, s') \<Rightarrow> f a s')"

definition sget :: "('s \<Rightarrow> 'a) \<Rightarrow> ('s, 'a) svc" where "sget f s = (Inr (f s), s)"
definition smod :: "('s \<Rightarrow> 's) \<Rightarrow> ('s, unit) svc" where "smod f s = (Inr (), f s)"
definition slift :: "(http_error, 'a) result \<Rightarrow> ('s, 'a) svc" where "slift r s = (r, s)"

definition scatch :: "('s, 'a) svc \<Rightarrow> (http_error \<Rightarrow> ('s, 'a) svc) \<Rightarrow> ('s, 'a) svc" where
  "scatch m h s = (case m s of (Inl e, s') \<Rightarrow> h e s' | (Inr a, s') \<Rightarrow> (Inr a, s'))"

definition srequire :: "bool \<Rightarrow> http_error \<Rightarrow> ('s, unit) svc" where
  "srequire b e = (if b then sret () else sthrow e)"

definition swhen :: "bool \<Rightarrow> ('s, unit) svc \<Rightarrow> ('s, unit) svc" where
  "swhen b m = (if b then m else sret ())"

fun smapM :: "('a \<Rightarrow> ('s, 'b) svc) \<Rightarrow> 'a list \<Rightarrow> ('s, 'b list) svc" where
  "smapM f [] = sret []"
| "smapM f (x # xs) = sbind (f x) (\<lambda>y. sbind (smapM f xs) (\<lambda>ys. sret (y # ys)))"

text \<open>A read and a write of the gateway.\<close>

definition chain_read :: "('c \<Rightarrow> (http_error, 'a) result) \<Rightarrow> ('c world, 'a) svc" where
  "chain_read p s = (p (chain s), s)"

definition chain_write :: "('c \<Rightarrow> (http_error, 'a) result \<times> 'c) \<Rightarrow> ('c world, 'a) svc" where
  "chain_write p s = (let (r, c) = p (chain s) in (r, s\<lparr>chain := c\<rparr>))"

text \<open>A database transaction: the tables are rolled back when its body throws.\<close>

definition transaction :: "('c world, 'a) svc \<Rightarrow> ('c world, 'a) svc" where
  "transaction m s =
     (case m s of
        (Inl e, s') \<Rightarrow> (Inl e, s'\<lparr>users := users s, loans := loans s\<rparr>)
      | (Inr a, s') \<Rightarrow> (Inr a, s'))"

section \<open>Repositories\<close>

definition user_by_wallet :: "string \<Rightarrow> 'c world \<Rightarrow> User option" where
  "user_by_wallet w s = find (\<lambda>u. walletAddress u = w) (users s)"

definition user_by_id :: "nat \<Rightarrow> 'c world \<Rightarrow> User option" where
  "user_by_id i s = find (\<lambda>u. user_id u = i) (users s)"

definition save_user :: "User \<Rightarrow> ('c world, unit) svc" where
  "save_user u = smod (\<lambda>s. s\<lparr>users := put_row user_id (store_user u) (users s)\<rparr>)"

text \<open>\<open>Repository.update\<close>: only the named columns of the row change.\<close>

definition update_user :: "nat \<Rightarrow> (User \<Rightarrow> User) \<Rightarrow> ('c world, unit) svc" where
  "update_user i f = smod (\<lambda>s. s\<lparr>users := map (\<lambda>u. if user_id u = i then store_user (f u) else u) (users s)\<rparr>)"

text \<open>
  The partial unique indexes on \<open>closeTxHash\<close> and \<open>openTxHash\<close>: a row may not share a
  non-null hash with another row.
\<close>

definition unique_violation :: http_error where
  "unique_violation = RuntimeError ''23505''"

definition hash_clash :: "Loan \<Rightarrow> Loan list \<Rightarrow> bool" where
  "hash_clash l rows = list_ex (\<lambda>k. loan_id k \<noteq> loan_id l \<and>
     (closeTxHash l \<noteq> None \<and> closeTxHash k = closeTxHash l \<or> openTxHash l \<noteq> None \<and> openTxHash k = openTxHash l)) rows"

definition save_loan :: "Loan \<Rightarrow> ('c world, unit) svc" where
  "save_loan l = (\<lambda>s. if hash_clash l (loans s) then (Inl unique_violation, s)
     else (Inr (), s\<lparr>loans := put_row loan_id (store_loan l) (loans s)\<rparr>))"

definition insert_loan :: "Loan \<Rightarrow> ('c world, Loan) svc" where
  "insert_loan l = (\<lambda>s. let l' = l\<lparr>loan_id := fresh_id loan_id (loans s), loan_createdAt := now s\<rparr>
     in if hash_clash l' (loans s) then (Inl unique_violation, s)
        else (Inr l', s\<lparr>loans := loans s @ [store_loan l']\<rparr>))"

text \<open>
  The constraints of the schema that the properties rely on: the primary key, the scale of
  the decimal columns and the check on the score.
\<close>

definition wf_users :: "'c world \<Rightarrow> bool" where
  "wf_users s \<longleftrightarrow> distinct (map user_id (users s)) \<and>
     (\<forall>u \<in> set (users s). store_user u = u \<and> (\<forall>n. score u = Some n \<longrightarrow> 0 \<le> n \<and> n \<le> 1000))"

definition count_loans :: "(Loan \<Rightarrow> bool) \<Rightarrow> 'c world \<Rightarrow> int" where
  "count_loans P s = int (length (filter P (loans s)))"

section \<open>The gateway port\<close>

record ChainLoan =
  cl_principal :: int
  cl_amountDue :: int
  cl_start :: int
  cl_due :: int
  cl_feeBps :: int
  cl_gracePeriod :: int
  cl_active :: bool

record ChainPremium =
  premiumRatePerSecWad :: int
  lateRatePerSecWad :: int

record ChainRisk =
  ur_score :: int
  ur_validUntil :: int
  ur_limit :: int

record ChainLoanOpenedEvent =
  oe_borrower :: string
  oe_principal :: int
  oe_amountDue :: int
  oe_due :: int
  oe_feeBps :: int
  oe_ledger :: int
  oe_txHash :: string
  oe_timestamp :: int

record ChainLoanClosedEvent =
  ce_borrower :: string
  ce_amountPaid :: int
  ce_txHash :: string
  ce_ledger :: int
  ce_timestamp :: int

record LoanOffer =
  of_ok :: bool
  of_feeBps :: int
  of_tenorDays :: int
  of_maxAmountBase :: string
  of_minedBlock :: int

datatype repay_reason = NoReceipt | Reverted | NoMatch | RpcError

text \<open>The answer of \<open>verifyRepayByTxHash\<close>: verified with the paid units, or the reason.\<close>

datatype repay_check = Verified "int option" | Unverified repay_reason

record 'c BlockchainGatewayPort =
  readCreditLimitOnChain :: "string \<Rightarrow> 'c \<Rightarrow> (http_error, int) result"
  readNextBorrowTime :: "(string \<Rightarrow> 'c \<Rightarrow> (http_error, int) result) option"
  giveCreditScoreAndLimit :: "string \<Rightarrow> int \<Rightarrow> int \<Rightarrow> 'c \<Rightarrow> (http_error, nat) result \<times> 'c"
  createLoanOfferBackend :: "string \<Rightarrow> string \<Rightarrow> int \<Rightarrow> int \<Rightarrow> 'c \<Rightarrow> (http_error, LoanOffer) result \<times> 'c"
  setPremiumConfig :: "string \<Rightarrow> int \<Rightarrow> 'c \<Rightarrow> (http_error, unit) result \<times> 'c"
  previewLoanWithLate :: "string \<Rightarrow> 'c \<Rightarrow> (http_error, int option) result"
  readLoanFull :: "string \<Rightarrow> 'c \<Rightarrow> (http_error, ChainLoan option) result"
  readLoanOnChain :: "string \<Rightarrow> 'c \<Rightarrow> (http_error, ChainLoan option) result"
  readPremium :: "string \<Rightarrow> 'c \<Rightarrow> (http_error, ChainPremium option) result"
  readIsDefaulted :: "string \<Rightarrow> 'c \<Rightarrow> (http_error, bool option) result"
  getChainBlockTimestamp :: "'c \<Rightarrow> (http_error, int option) result"
  getLatestLedger :: "'c \<Rightarrow> (http_error, int) result"
  readUserRisk :: "string \<Rightarrow> 'c \<Rightarrow> (http_error, ChainRisk option) result"
  getLoanOpenedEvents :: "int \<Rightarrow> int \<Rightarrow> 'c \<Rightarrow> (http_error, ChainLoanOpenedEvent list) result"
  findLoanClosedEvent :: "string \<Rightarrow> int \<Rightarrow> int \<Rightarrow> 'c \<Rightarrow> (http_error, ChainLoanClosedEvent option) result"
  verifyLoanOpenedByTxHash :: "string \<Rightarrow> string \<Rightarrow> 'c \<Rightarrow> (http_error, bool) result"
  accrueLate :: "string \<Rightarrow> 'c \<Rightarrow> (http_error, unit) result \<times> 'c"
  verifyRepayByTxHash :: "string \<Rightarrow> string \<Rightarrow> 'c \<Rightarrow> (http_error, repay_check) result"

section \<open>Lemmas\<close>

named_theorems svc_simps

lemma sbind_ret [svc_simps]: "sbind (sret a) f = f a"
  by (simp add: sbind_def sret_def fun_eq_iff)

lemma sbind_throw [svc_simps]: "sbind (sthrow e) f = sthrow e"
  by (simp add: sbind_def sthrow_def fun_eq_iff)

lemma sbind_assoc: "sbind (sbind m f) g = sbind m (\<lambda>x. sbind (f x) g)"
  by (auto simp: sbind_def fun_eq_iff split: sum.splits prod.splits)

lemma sbind_get [svc_simps]: "sbind (sget f) g s = g (f s) s"
  by (simp add: sbind_def sget_def)

lemma sbind_mod [svc_simps]: "sbind (smod f) g s = g () (f s)"
  by (simp add: sbind_def smod_def)

lemma sbind_lift [svc_simps]: "sbind (slift r) g s = (case r of Inl e \<Rightarrow> (Inl e, s) | Inr a \<Rightarrow> g a s)"
  by (simp add: sbind_def slift_def split: sum.split)

lemma sbind_require [svc_simps]: "sbind (srequire b e) g s = (if b then g () s else (Inl e, s))"
  by (simp add: sbind_def srequire_def sret_def sthrow_def)

lemma sbind_read [svc_simps]:
  "sbind (chain_read p) g s = (case p (chain s) of Inl e \<Rightarrow> (Inl e, s) | Inr a \<Rightarrow> g a s)"
  by (simp add: sbind_def chain_read_def split: sum.split)

lemma sbind_write [svc_simps]:
  "sbind (chain_write p) g s =
     (case p (chain s) of (Inl e, c) \<Rightarrow> (Inl e, s\<lparr>chain := c\<rparr>) | (Inr a, c) \<Rightarrow> g a (s\<lparr>chain := c\<rparr>))"
  by (simp add: sbind_def chain_write_def split: sum.split prod.split)

lemma svc_eval [svc_simps]:
  "sret a s = (Inr a, s)" "sthrow e s = (Inl e, s)" "sget f s = (Inr (f s), s)" "smod h s = (Inr (), h s)"
  by (simp_all add: sret_def sthrow_def sget_def smod_def)

lemma sbind_save_loan [svc_simps]:
  "sbind (save_loan l) g s = (if hash_clash l (loans s) then (Inl unique_violation, s)
     else g () (s\<lparr>loans := put_row loan_id (store_loan l) (loans s)\<rparr>))"
  by (simp add: sbind_def save_loan_def)

lemma sbind_save_user [svc_simps]:
  "sbind (save_user u) g s = g () (s\<lparr>users := put_row user_id (store_user u) (users s)\<rparr>)"
  by (simp add: save_user_def sbind_mod)

lemma sbind_update_user [svc_simps]:
  "sbind (update_user i f) g s =
     g () (s\<lparr>users := map (\<lambda>u. if user_id u = i then store_user (f u) else u) (users s)\<rparr>)"
  by (simp add: update_user_def sbind_mod)

lemma scatch_eval [svc_simps]:
  "scatch m h s = (case m s of (Inl e, s') \<Rightarrow> h e s' | (Inr a, s') \<Rightarrow> (Inr a, s'))"
  by (simp add: scatch_def)

lemma svc_if [svc_simps]: "(if b then f else g) s = (if b then f s else g s)"
  by simp

lemma sbind_Inr_iff:
  "sbind m f s = (Inr b, s'') \<longleftrightarrow> (\<exists>a s'. m s = (Inr a, s') \<and> f a s' = (Inr b, s''))"
  by (auto simp: sbind_def split: sum.splits prod.splits)

lemma transaction_Inr_iff: "transaction m s = (Inr a, s') \<longleftrightarrow> m s = (Inr a, s')"
  by (auto simp: transaction_def split: sum.splits prod.splits)

lemma transaction_Inl: "transaction m s = (Inl e, s') \<Longrightarrow> users s' = users s \<and> loans s' = loans s"
  by (auto simp: transaction_def split: sum.splits prod.splits)

text \<open>
  A relation on worlds that every step of a handler respects holds from its start to its
  end, whatever it returns. The relations in use are preorders: some part of the world is
  kept, or only changes in an allowed way.
\<close>

locale world_frame =
  fixes R :: "'s \<Rightarrow> 's \<Rightarrow> bool"
  assumes R_refl: "R s s" and R_trans: "R s t \<Longrightarrow> R t u \<Longrightarrow> R s u"
begin

definition keeps :: "('s, 'a) svc \<Rightarrow> bool" where
  "keeps m \<longleftrightarrow> (\<forall>s. R s (snd (m s)))"

lemma keeps_ret [intro, simp]: "keeps (sret a)" "keeps (sthrow e)" "keeps (sget f)" "keeps (slift r)"
    "keeps (srequire b e)"
  by (simp_all add: keeps_def sret_def sthrow_def sget_def slift_def srequire_def R_refl)

lemma keeps_bind [intro]: "keeps m \<Longrightarrow> (\<And>a. keeps (f a)) \<Longrightarrow> keeps (sbind m f)"
  unfolding keeps_def sbind_def
  by (auto split: sum.splits prod.splits intro: R_refl) (metis R_trans snd_conv)+

lemma keeps_catch [intro]: "keeps m \<Longrightarrow> (\<And>e. keeps (h e)) \<Longrightarrow> keeps (scatch m h)"
  unfolding keeps_def scatch_def
  by (auto split: sum.splits prod.splits intro: R_refl) (metis R_trans snd_conv)+

lemma keeps_if [intro]: "(b \<Longrightarrow> keeps m) \<Longrightarrow> (\<not> b \<Longrightarrow> keeps m') \<Longrightarrow> keeps (if b then m else m')"
  by simp

lemma keeps_when [intro]: "(b \<Longrightarrow> keeps m) \<Longrightarrow> keeps (swhen b m)"
  by (simp add: swhen_def)

lemma keeps_mapM [intro]: "(\<And>x. x \<in> set xs \<Longrightarrow> keeps (f x)) \<Longrightarrow> keeps (smapM f xs)"
  by (induction xs) auto

lemma keeps_run: "keeps m \<Longrightarrow> m s = (r, s') \<Longrightarrow> R s s'"
  by (metis keeps_def snd_conv)

end

text \<open>The instance for handlers that change no table.\<close>

definition same_tables :: "'c world \<Rightarrow> 'c world \<Rightarrow> bool" where
  "same_tables s t \<longleftrightarrow> users t = users s \<and> loans t = loans s \<and> now t = now s"

interpretation tables: world_frame same_tables
  by unfold_locales (auto simp: same_tables_def)

lemma tables_read [intro, simp]: "tables.keeps (chain_read p)" "tables.keeps (chain_write q)"
  by (auto simp: tables.keeps_def chain_read_def chain_write_def same_tables_def split: prod.split)

text \<open>The instance for handlers that change no loan and no chain state.\<close>

definition same_loans :: "'c world \<Rightarrow> 'c world \<Rightarrow> bool" where
  "same_loans s t \<longleftrightarrow> loans t = loans s \<and> now t = now s"

interpretation loans_kept: world_frame same_loans
  by unfold_locales (auto simp: same_loans_def)

lemma loans_kept_step [intro, simp]: "loans_kept.keeps (chain_read p)" "loans_kept.keeps (chain_write q)"
    "loans_kept.keeps (save_user u)" "loans_kept.keeps (update_user i f)"
  by (auto simp: loans_kept.keeps_def chain_read_def chain_write_def same_loans_def save_user_def
      update_user_def smod_def split: prod.split)

end
