(* ===== verification/Digits.thy ===== *)
theory Digits
  imports Prelude
begin

text \<open>
  Positional notation, shared by the base-32 addresses, the hexadecimal strings and
  the big-endian integers of the CCTP messages: the value of a digit list, the digits
  of a number, and that both are inverse to each other.
\<close>

definition horner :: "nat \<Rightarrow> nat list \<Rightarrow> nat" where
  "horner b ds = foldl (\<lambda>a d. a * b + d) 0 ds"

primrec to_digits :: "nat \<Rightarrow> nat \<Rightarrow> nat \<Rightarrow> nat list" where
  "to_digits b 0 n = []"
| "to_digits b (Suc k) n = to_digits b k (n div b) @ [n mod b]"

lemma horner_Nil [simp]: "horner b [] = 0"
  by (simp add: horner_def)

lemma horner_snoc [simp]: "horner b (ds @ [d]) = horner b ds * b + d"
  by (simp add: horner_def)

lemma horner_append: "horner b (xs @ ys) = horner b xs * b ^ length ys + horner b ys"
proof (induction ys rule: rev_induct)
  case (snoc y ys)
  have "horner b (xs @ ys @ [y]) = horner b (xs @ ys) * b + y"
    using horner_snoc [of b "xs @ ys" y] by simp
  with snoc show ?case by (simp add: algebra_simps)
qed simp

lemma horner_Cons: "horner b (d # ds) = d * b ^ length ds + horner b ds"
  using horner_append [of b "[d]" ds] by (simp add: horner_def)

lemma horner_less: "\<forall>d \<in> set ds. d < b \<Longrightarrow> horner b ds < b ^ length ds"
proof (induction ds rule: rev_induct)
  case (snoc d ds)
  then have "horner b ds + 1 \<le> b ^ length ds" and d: "d < b" by simp_all
  then have "(horner b ds + 1) * b \<le> b ^ length ds * b" by (intro mult_right_mono) simp_all
  with d show ?case by (simp add: algebra_simps)
qed simp

lemma length_to_digits [simp]: "length (to_digits b k n) = k"
  by (induction k arbitrary: n) simp_all

lemma to_digits_less: "0 < b \<Longrightarrow> d \<in> set (to_digits b k n) \<Longrightarrow> d < b"
  by (induction k arbitrary: n) auto

lemma horner_to_digits: "horner b (to_digits b k n) = n mod b ^ k"
proof (induction k arbitrary: n)
  case (Suc k)
  have "horner b (to_digits b (Suc k) n) = (n div b mod b ^ k) * b + n mod b" by (simp add: Suc)
  also have "\<dots> = n mod (b * b ^ k)" by (simp add: mod_mult2_eq mult.commute)
  finally show ?case by simp
qed simp

lemma to_digits_horner:
  "\<forall>d \<in> set ds. d < b \<Longrightarrow> to_digits b (length ds) (horner b ds) = ds"
proof (induction ds rule: rev_induct)
  case (snoc d ds)
  then have "d < b" by simp
  then have "(horner b ds * b + d) div b = horner b ds" "(horner b ds * b + d) mod b = d" by simp_all
  with snoc show ?case by simp
qed simp

lemma horner_inj:
  assumes "\<forall>d \<in> set xs. d < b" "\<forall>d \<in> set ys. d < b"
    and "length xs = length ys" "horner b xs = horner b ys"
  shows "xs = ys"
  by (metis assms to_digits_horner)

lemma horner_digits_div:
  assumes "\<forall>d \<in> set ys. d < b"
  shows "horner b (xs @ ys) div b ^ length ys = horner b xs"
proof -
  have "horner b ys < b ^ length ys" using assms by (rule horner_less)
  moreover from this have "0 < b ^ length ys" by (rule le_less_trans [OF le0])
  ultimately show ?thesis by (simp add: horner_append del: zero_less_power_eq)
qed

section \<open>Big-endian bytes\<close>

definition be_nat :: "bytes \<Rightarrow> nat" where
  "be_nat bs = horner 256 (map unat bs)"

definition be_bytes :: "nat \<Rightarrow> nat \<Rightarrow> bytes" where
  "be_bytes k n = map word_of_nat (to_digits 256 k n)"

lemma unat_byte_less [simp]: "unat (b :: byte) < 256"
  using unsigned_less [of b, where 'a = nat] by simp

lemma be_nat_less: "be_nat bs < 256 ^ length bs"
  using horner_less [of "map unat bs" 256] by (simp add: be_nat_def)

lemma be_nat_append: "be_nat (xs @ ys) = be_nat xs * 256 ^ length ys + be_nat ys"
  by (simp add: be_nat_def horner_append)

lemma be_nat_Nil [simp]: "be_nat [] = 0"
  by (simp add: be_nat_def)

lemma be_nat_snoc [simp]: "be_nat (bs @ [b]) = be_nat bs * 256 + unat b"
  by (simp add: be_nat_def)

lemma length_be_bytes [simp]: "length (be_bytes k n) = k"
  by (simp add: be_bytes_def)

lemma map_unat_be_bytes: "map unat (be_bytes k n) = to_digits 256 k n"
proof -
  have "unat (word_of_nat d :: byte) = d" if "d \<in> set (to_digits 256 k n)" for d
    using to_digits_less [OF _ that] by (simp add: unat_of_nat take_bit_eq_mod)
  then show ?thesis by (simp add: be_bytes_def map_idI)
qed

lemma be_nat_be_bytes: "be_nat (be_bytes k n) = n mod 256 ^ k"
  by (simp add: be_nat_def map_unat_be_bytes horner_to_digits)

lemma be_bytes_be_nat [simp]: "be_bytes (length bs) (be_nat bs) = bs"
proof -
  have "to_digits 256 (length (map unat bs)) (horner 256 (map unat bs)) = map unat bs"
    by (rule to_digits_horner) auto
  then show ?thesis by (simp add: be_bytes_def be_nat_def comp_def)
qed

lemma be_nat_inj: "length xs = length ys \<Longrightarrow> be_nat xs = be_nat ys \<Longrightarrow> xs = ys"
  by (metis be_bytes_be_nat)

end
