(* ===== verification/Stellar_Strkey.thy ===== *)
theory Stellar_Strkey
  imports Digits
begin

text \<open>
  Stellar account addresses (\<open>backend/src/common/stellar-strkey.ts\<close>): the base-32
  decoder with JavaScript's 32-bit shifts, the CRC16-XModem checksum and the account
  id check. The decoder keeps its accumulator in a 32-bit integer that overflows; the
  lemmas show that the overflow never reaches the output.
\<close>

section \<open>Decoding\<close>

datatype strkey_error = InvalidBase32Character | InvalidAccountLength
  | InvalidVersionByte | InvalidChecksum

definition ACCOUNT_ID_VERSION_BYTE :: byte where
  "ACCOUNT_ID_VERSION_BYTE = push_bit 3 6"

definition BASE32_ALPHABET :: string where
  "BASE32_ALPHABET = ''ABCDEFGHIJKLMNOPQRSTUVWXYZ234567''"

fun indexOf :: "'a list \<Rightarrow> 'a \<Rightarrow> nat option" where
  "indexOf [] c = None"
| "indexOf (x # xs) c = (if x = c then Some 0 else map_option Suc (indexOf xs c))"

fun b32_loop :: "string \<Rightarrow> nat \<Rightarrow> 32 word \<Rightarrow> bytes \<Rightarrow> (strkey_error, bytes) result" where
  "b32_loop [] bits value bytes = Inr bytes"
| "b32_loop (c # cs) bits value bytes =
     (case indexOf BASE32_ALPHABET c of
        None \<Rightarrow> Inl InvalidBase32Character
      | Some idx \<Rightarrow>
          (let value' = push_bit 5 value OR word_of_nat idx; bits' = bits + 5
           in if bits' \<ge> 8
              then b32_loop cs (bits' - 8) value' (bytes @ [ucast (drop_bit (bits' - 8) value' AND 255)])
              else b32_loop cs bits' value' bytes))"

definition decodeBase32 :: "string \<Rightarrow> (strkey_error, bytes) result" where
  "decodeBase32 input = b32_loop input 0 0 []"

definition crc_shift :: "32 word \<Rightarrow> 32 word" where
  "crc_shift crc =
     (if crc AND 0x8000 \<noteq> 0 then (push_bit 1 crc XOR 0x1021) AND 0xffff
      else push_bit 1 crc AND 0xffff)"

definition crc_byte :: "32 word \<Rightarrow> byte \<Rightarrow> 32 word" where
  "crc_byte crc b = (crc_shift ^^ 8) (crc XOR push_bit 8 (ucast b))"

definition crc16Xmodem :: "bytes \<Rightarrow> 32 word" where
  "crc16Xmodem bs = foldl crc_byte 0 bs"

definition decodeStellarPublicKey :: "string \<Rightarrow> (strkey_error, bytes) result" where
  "decodeStellarPublicKey accountId =
     rbind (decodeBase32 accountId) (\<lambda>decoded.
       if length decoded \<noteq> 35 then Inl InvalidAccountLength
       else if decoded ! 0 \<noteq> ACCOUNT_ID_VERSION_BYTE then Inl InvalidVersionByte
       else
         (let payload = js_slice decoded 0 33;
              expected = crc16Xmodem payload;
              actual = ucast (decoded ! 33) OR push_bit 8 (ucast (decoded ! 34))
          in if actual \<noteq> expected then Inl InvalidChecksum else Inr (js_slice decoded 1 33)))"

definition isValidStellarPublicKey :: "string \<Rightarrow> bool" where
  "isValidStellarPublicKey accountId =
     (case decodeStellarPublicKey accountId of Inl _ \<Rightarrow> False | Inr _ \<Rightarrow> True)"

section \<open>Lemmas on base 32\<close>

lemma indexOf_Some_iff:
  "distinct xs \<Longrightarrow> indexOf xs c = Some i \<longleftrightarrow> i < length xs \<and> xs ! i = c"
proof (induction xs arbitrary: i)
  case (Cons x xs)
  show ?case
  proof (cases i)
    case 0
    then show ?thesis by simp
  next
    case (Suc j)
    then show ?thesis using Cons by (cases "x = c") (auto simp: in_set_conv_nth)
  qed
qed simp

lemma alphabet_distinct: "distinct BASE32_ALPHABET" and alphabet_length: "length BASE32_ALPHABET = 32"
  by (simp_all add: BASE32_ALPHABET_def)

lemma indexOf_alphabet:
  "indexOf BASE32_ALPHABET c = Some i \<longleftrightarrow> i < 32 \<and> BASE32_ALPHABET ! i = c"
  by (simp add: indexOf_Some_iff alphabet_distinct alphabet_length)

text \<open>One step of the accumulator, read below bit \<open>bits + 5\<close>, where it cannot have overflowed.\<close>

lemma b32_step_value:
  fixes v :: "32 word"
  assumes "i < 32" and "n \<le> 27"
  shows "unat (push_bit 5 v OR word_of_nat i) mod 2 ^ (n + 5) = (unat v mod 2 ^ n) * 32 + i"
proof -
  have "push_bit 5 v OR word_of_nat i = push_bit 5 v + word_of_nat i"
  proof (rule disjunctive_add_eq_or [symmetric], rule bit_eqI)
    fix k
    have "\<not> bit i k" if "5 \<le> k"
    proof -
      have "i < 2 ^ k" using assms(1) power_increasing [OF that, of "2 :: nat"] by simp
      then show ?thesis by (simp add: bit_iff_odd)
    qed
    then show "bit (push_bit 5 v AND word_of_nat i) k \<longleftrightarrow> bit 0 k"
      by (auto simp: bit_simps)
  qed
  then have "unat (push_bit 5 v OR word_of_nat i) = (unat v * 32 + i) mod 2 ^ 32"
    by (simp add: push_bit_eq_mult unat_word_ariths unat_of_nat take_bit_eq_mod mod_simps mult.commute)
  moreover have "(2 :: nat) ^ (n + 5) dvd 2 ^ 32" using assms(2) by (intro le_imp_power_dvd) simp
  ultimately have "unat (push_bit 5 v OR word_of_nat i) mod 2 ^ (n + 5) = (unat v * 32 + i) mod 2 ^ (n + 5)"
    by (simp only: mod_mod_cancel)
  also have "\<dots> = (unat v * 32 + i) mod (32 * 2 ^ n)" by (simp add: power_add mult.commute)
  also have "\<dots> = (unat v mod 2 ^ n) * 32 + i" using assms(1) by (simp add: mod_mult2_eq)
  finally show ?thesis .
qed

lemma unat_low_byte:
  fixes v :: "32 word"
  shows "unat (ucast (drop_bit m v AND 255) :: byte) = unat v div 2 ^ m mod 256"
proof -
  have m: "(255 :: 32 word) = mask 8" by (simp add: mask_eq_exp_minus_1)
  have "ucast (drop_bit m v AND 255) = (ucast (drop_bit m v) :: byte)"
    unfolding m by (rule bit_eqI) (simp add: bit_simps)
  then have "unat (ucast (drop_bit m v AND 255) :: byte) = take_bit 8 (unat (drop_bit m v))"
    by (simp add: unsigned_ucast_eq)
  moreover have "unat (drop_bit m v) = unat v div 2 ^ m"
    by (metis unat_drop_bit_eq drop_bit_eq_div)
  ultimately show ?thesis by (simp only: take_bit_eq_mod) simp
qed

text \<open>
  The loop decodes exactly: together with the characters' digits \<open>is\<close>, the bytes are
  the leading whole bytes of the base-32 number.
\<close>

lemma b32_loop_correct:
  assumes "b32_loop cs bits v acc = Inr bs" and "bits < 8"
  shows "\<exists>is. map (indexOf BASE32_ALPHABET) cs = map Some is \<and>
     length bs = length acc + (bits + 5 * length cs) div 8 \<and>
     be_nat bs = ((be_nat acc * 2 ^ bits + unat v mod 2 ^ bits) * 32 ^ length cs + horner 32 is)
        div 2 ^ ((bits + 5 * length cs) mod 8)"
  using assms
proof (induction cs arbitrary: bits v acc)
  case Nil
  have "(be_nat acc * 2 ^ bits + unat v mod 2 ^ bits) div 2 ^ bits = be_nat acc" by simp
  with Nil show ?case by simp
next
  case (Cons c cs)
  then obtain i where i: "indexOf BASE32_ALPHABET c = Some i"
    by (auto split: option.splits)
  then have i32: "i < 32" by (simp add: indexOf_alphabet)
  define v' where "v' = push_bit 5 v OR word_of_nat i"
  define p where "p = unat v mod 2 ^ bits"
  have v': "unat v' mod 2 ^ (bits + 5) = p * 32 + i"
    unfolding v'_def p_def by (rule b32_step_value) (use i32 Cons.prems in simp_all)
  show ?case
  proof (cases "bits + 5 \<ge> 8")
    case False
    then have loop: "b32_loop cs (bits + 5) v' acc = Inr bs" and lt: "bits + 5 < 8"
      using Cons.prems i by (simp_all add: v'_def Let_def)
    from Cons.IH [OF loop lt] obtain "is" where "is":
      "map (indexOf BASE32_ALPHABET) cs = map Some is"
      "length bs = length acc + (bits + 5 + 5 * length cs) div 8"
      "be_nat bs = ((be_nat acc * 2 ^ (bits + 5) + (p * 32 + i)) * 32 ^ length cs + horner 32 is)
        div 2 ^ ((bits + 5 + 5 * length cs) mod 8)"
      unfolding v' by blast
    have "length is = length cs" using "is"(1) map_eq_imp_length_eq by force
    then have "(be_nat acc * 2 ^ bits + p) * 32 ^ length (c # cs) + horner 32 (i # is) =
      (be_nat acc * 2 ^ (bits + 5) + (p * 32 + i)) * 32 ^ length cs + horner 32 is"
      by (simp add: horner_Cons power_add algebra_simps)
    then show ?thesis using "is" i by (intro exI [of _ "i # is"]) (simp add: p_def add.assoc)
  next
    case True
    define m where "m = bits + 5 - 8"
    have m: "bits + 5 = m + 8" "m < 8" using True Cons.prems by (simp_all add: m_def)
    define byt :: byte where "byt = ucast (drop_bit m v' AND 255)"
    have loop: "b32_loop cs m v' (acc @ [byt]) = Inr bs"
      using Cons.prems i True by (simp add: v'_def Let_def m_def byt_def)
    have "unat byt = unat v' div 2 ^ m mod 256" unfolding byt_def by (rule unat_low_byte)
    then have "unat byt * 2 ^ m + unat v' mod 2 ^ m = unat v' mod 2 ^ (m + 8)"
      by (simp add: power_add mod_mult2_eq mult.commute)
    then have w: "unat byt * 2 ^ m + unat v' mod 2 ^ m = p * 32 + i" using v' m(1) by simp
    from Cons.IH [OF loop m(2)] obtain "is" where "is":
      "map (indexOf BASE32_ALPHABET) cs = map Some is"
      "length bs = Suc (length acc) + (m + 5 * length cs) div 8"
      "be_nat bs = (((be_nat acc * 256 + unat byt) * 2 ^ m + unat v' mod 2 ^ m) * 32 ^ length cs + horner 32 is)
        div 2 ^ ((m + 5 * length cs) mod 8)"
      by auto
    have "length is = length cs" using "is"(1) map_eq_imp_length_eq by force
    then have "(be_nat acc * 2 ^ bits + p) * 32 ^ length (c # cs) + horner 32 (i # is) =
      (be_nat acc * 2 ^ (m + 8) + (p * 32 + i)) * 32 ^ length cs + horner 32 is"
      unfolding m(1) [symmetric] by (simp add: horner_Cons power_add algebra_simps)
    also have "\<dots> = ((be_nat acc * 256 + unat byt) * 2 ^ m + unat v' mod 2 ^ m) * 32 ^ length cs + horner 32 is"
      unfolding w [symmetric] by (simp add: power_add algebra_simps)
    finally have "be_nat bs = ((be_nat acc * 2 ^ bits + p) * 32 ^ length (c # cs) + horner 32 (i # is))
        div 2 ^ ((m + 5 * length cs) mod 8)"
      using "is"(3) by simp
    moreover have "bits + 5 * length (c # cs) = m + 5 * length cs + 8" using m(1) by simp
    ultimately show ?thesis using "is"(1,2) i by (intro exI [of _ "i # is"]) (simp add: p_def)
  qed
qed

lemma b32_loop_total:
  "map (indexOf BASE32_ALPHABET) cs = map Some is \<Longrightarrow> \<exists>bs. b32_loop cs bits v acc = Inr bs"
  by (induction cs arbitrary: "is" bits v acc) (auto simp: Let_def)

definition b32_digits :: "string \<Rightarrow> nat list \<Rightarrow> bool" where
  "b32_digits s is = (map (indexOf BASE32_ALPHABET) s = map Some is)"

lemma b32_digits_length: "b32_digits s is \<Longrightarrow> length is = length s"
  unfolding b32_digits_def using map_eq_imp_length_eq by force

lemma b32_digits_less: "b32_digits s is \<Longrightarrow> \<forall>i \<in> set is. i < 32"
  unfolding b32_digits_def
  by (induction s arbitrary: "is") (auto simp: indexOf_alphabet map_eq_Cons_conv)

lemma b32_digits_chars: "b32_digits s is \<Longrightarrow> s = map (\<lambda>i. BASE32_ALPHABET ! i) is"
  unfolding b32_digits_def
  by (induction s arbitrary: "is") (auto simp: indexOf_alphabet map_eq_Cons_conv)

lemma b32_digits_of_chars:
  "\<forall>i \<in> set is. i < 32 \<Longrightarrow> b32_digits (map (\<lambda>i. BASE32_ALPHABET ! i) is) is"
  unfolding b32_digits_def by (induction "is") (auto simp: indexOf_alphabet)

text \<open>The decoder succeeds exactly on base-32 strings, with the leading whole bytes as result.\<close>

lemma decodeBase32_iff:
  "decodeBase32 s = Inr bs \<longleftrightarrow> (\<exists>is. b32_digits s is \<and> length bs = 5 * length s div 8 \<and>
     be_nat bs = horner 32 is div 2 ^ (5 * length s mod 8))" (is "_ \<longleftrightarrow> (\<exists>is. ?R is bs)")
proof
  assume "decodeBase32 s = Inr bs"
  then show "\<exists>is. ?R is bs"
    using b32_loop_correct [of s 0 0 "[]" bs] by (simp add: decodeBase32_def b32_digits_def)
next
  assume "\<exists>is. ?R is bs"
  then obtain "is" where R: "?R is bs" by blast
  then obtain bs' where bs': "decodeBase32 s = Inr bs'"
    using b32_loop_total unfolding b32_digits_def decodeBase32_def by blast
  then obtain is' where R': "?R is' bs'"
    using b32_loop_correct [of s 0 0 "[]" bs'] by (auto simp: decodeBase32_def b32_digits_def)
  have "is' = is" using R R' unfolding b32_digits_def
    by (metis inj_map_eq_map injI option.inject)
  then have "bs' = bs" using R R' by (intro be_nat_inj) simp_all
  with bs' show "decodeBase32 s = Inr bs" by simp
qed

section \<open>Reference encoder\<close>

text \<open>
  The encoding that the address format prescribes: version byte, key, checksum in
  little-endian order, in base 32. The program only decodes; the encoder states what
  it has to accept.
\<close>

definition b32_encode :: "bytes \<Rightarrow> string" where
  "b32_encode bs = map (\<lambda>d. BASE32_ALPHABET ! d) (to_digits 32 (8 * length bs div 5) (be_nat bs))"

definition account_bytes :: "bytes \<Rightarrow> bytes" where
  "account_bytes key =
     (let payload = ACCOUNT_ID_VERSION_BYTE # key; crc = crc16Xmodem payload
      in payload @ [ucast crc, ucast (drop_bit 8 crc)])"

definition account_id :: "bytes \<Rightarrow> string" where
  "account_id key = b32_encode (account_bytes key)"

lemma decode_b32_encode:
  assumes "length bs mod 5 = 0"
  shows "decodeBase32 (b32_encode bs) = Inr bs"
proof -
  define k where "k = 8 * length bs div 5"
  define ds where "ds = to_digits 32 k (be_nat bs)"
  have k: "5 * k = 8 * length bs" using assms unfolding k_def by presburger
  have "b32_digits (b32_encode bs) ds"
    unfolding b32_encode_def ds_def k_def by (rule b32_digits_of_chars) (auto dest: to_digits_less [rotated])
  moreover have "(256 :: nat) ^ length bs = 32 ^ k"
  proof -
    have "(256 :: nat) ^ length bs = 2 ^ (8 * length bs)" by (simp add: power_mult)
    also have "\<dots> = 2 ^ (5 * k)" by (simp only: k)
    also have "\<dots> = (32 :: nat) ^ k" by (simp add: power_mult)
    finally show ?thesis .
  qed
  then have "horner 32 ds = be_nat bs"
    using be_nat_less [of bs] by (simp add: ds_def horner_to_digits)
  moreover have "length (b32_encode bs) = k" by (simp add: b32_encode_def k_def)
  ultimately show ?thesis unfolding decodeBase32_iff
    by (intro exI [of _ ds]) (simp add: k)
qed

lemma crc16_16_bit:
  assumes "bs \<noteq> []"
  shows "\<not> bit (crc16Xmodem bs) (n + 16)"
proof -
  have s: "\<not> bit (crc_shift c) (n + 16)" for c
  proof -
    have m: "(0xffff :: 32 word) = mask 16" by (simp add: mask_eq_exp_minus_1)
    show ?thesis unfolding crc_shift_def m by (simp add: bit_simps)
  qed
  obtain xs x where "bs = xs @ [x]" using assms rev_exhaust by blast
  then have "crc16Xmodem bs = crc_byte (crc16Xmodem xs) x" by (simp add: crc16Xmodem_def)
  also have "\<dots> = crc_shift ((crc_shift ^^ 7) (crc16Xmodem xs XOR push_bit 8 (ucast x)))"
    by (simp add: crc_byte_def eval_nat_numeral)
  finally show ?thesis using s by simp
qed

lemma crc_reassemble:
  assumes "\<And>n. \<not> bit (c :: 32 word) (n + 16)"
  shows "ucast (ucast c :: byte) OR push_bit 8 (ucast (ucast (drop_bit 8 c) :: byte)) = c" (is "?L = c")
proof (rule bit_eqI)
  fix n assume "possible_bit TYPE(32 word) n"
  have "\<not> bit c n" if "16 \<le> n" using assms [of "n - 16"] that by simp
  moreover have "n - 8 < 8 \<longleftrightarrow> n < 16" and "8 \<le> n \<Longrightarrow> 8 + (n - 8) = n" by auto
  moreover have "n < 32" if "bit c n" using bit_imp_le_length [OF that] by simp
  ultimately show "bit ?L n = bit c n"
    by (cases "n < 8") (auto simp: bit_simps)
qed

lemma account_bytes_props:
  assumes "length key = 32"
  shows "length (account_bytes key) = 35" "account_bytes key ! 0 = ACCOUNT_ID_VERSION_BYTE"
    "js_slice (account_bytes key) 0 33 = ACCOUNT_ID_VERSION_BYTE # key"
    "js_slice (account_bytes key) 1 33 = key"
    "ucast (account_bytes key ! 33) OR push_bit 8 (ucast (account_bytes key ! 34))
       = crc16Xmodem (ACCOUNT_ID_VERSION_BYTE # key)"
proof -
  define v where "v = ACCOUNT_ID_VERSION_BYTE"
  define c where "c = crc16Xmodem (v # key)"
  have ab: "account_bytes key = v # key @ [ucast c, ucast (drop_bit 8 c)]"
    by (simp add: account_bytes_def v_def c_def Let_def)
  have n: "(v # key @ [ucast c, ucast (drop_bit 8 c)]) ! 33 = ucast c"
    "(v # key @ [ucast c, ucast (drop_bit 8 c)]) ! 34 = (ucast (drop_bit 8 c) :: byte)"
    using assms by (simp_all add: nth_append nth_Cons')
  show "ucast (account_bytes key ! 33) OR push_bit 8 (ucast (account_bytes key ! 34))
       = crc16Xmodem (ACCOUNT_ID_VERSION_BYTE # key)"
    unfolding ab n v_def [symmetric] c_def [symmetric]
    by (rule crc_reassemble) (simp add: c_def crc16_16_bit)
qed (use assms in \<open>simp_all add: account_bytes_def js_slice_def Let_def\<close>)

lemma account_bytes_unique:
  assumes len: "length d = 35" and v: "d ! 0 = ACCOUNT_ID_VERSION_BYTE"
    and c: "ucast (d ! 33) OR push_bit 8 (ucast (d ! 34)) = crc16Xmodem (js_slice d 0 33)"
  shows "d = account_bytes (js_slice d 1 33)"
proof -
  obtain k a b where d: "d = ACCOUNT_ID_VERSION_BYTE # k @ [a, b]" and k: "length k = 32"
  proof -
    have "d = take 1 d @ js_slice d 1 33 @ drop 33 d"
      by (simp add: js_slice_def) (metis append_take_drop_id One_nat_def add.commute numeral_eq_Suc
          drop_drop plus_1_eq_Suc pred_numeral_simps(3) append.assoc take_add)
    moreover have "take 1 d = [ACCOUNT_ID_VERSION_BYTE]" using len v by (cases d) simp_all
    moreover have "drop 33 d = [d ! 33, d ! 34]"
      using len by (simp add: Cons_nth_drop_Suc [symmetric, of 33] Cons_nth_drop_Suc [symmetric, of 34])
    ultimately show ?thesis using that [of "js_slice d 1 33" "d ! 33" "d ! 34"] len by simp
  qed
  have s: "js_slice d 0 33 = ACCOUNT_ID_VERSION_BYTE # k" "js_slice d 1 33 = k" "d ! 33 = a" "d ! 34 = b"
    using k by (simp_all add: d js_slice_def nth_append nth_Cons')
  define crc where "crc = crc16Xmodem (ACCOUNT_ID_VERSION_BYTE # k)"
  have e: "ucast a OR push_bit 8 (ucast b) = crc" using c by (simp add: s crc_def)
  have "ucast crc = a" unfolding e [symmetric]
    by (rule bit_eqI) (simp add: bit_simps)
  moreover have "ucast (drop_bit 8 crc) = b" unfolding e [symmetric]
    by (rule bit_eqI) (auto simp: bit_simps dest: bit_imp_le_length)
  ultimately show ?thesis unfolding s(2) using d by (simp add: account_bytes_def crc_def Let_def)
qed

text \<open>The account id check in terms of the reference encoding.\<close>

lemma decodeStellarPublicKey_iff:
  "decodeStellarPublicKey s = Inr key \<longleftrightarrow>
     length key = 32 \<and> decodeBase32 s = Inr (account_bytes key)"
proof
  assume "decodeStellarPublicKey s = Inr key"
  then obtain d where d: "decodeBase32 s = Inr d" "length d = 35" "d ! 0 = ACCOUNT_ID_VERSION_BYTE"
    "ucast (d ! 33) OR push_bit 8 (ucast (d ! 34)) = crc16Xmodem (js_slice d 0 33)"
    "key = js_slice d 1 33"
    by (auto simp: decodeStellarPublicKey_def Let_def rbind_Inr_iff split: if_splits)
  with account_bytes_unique [OF d(2,3,4)] show "length key = 32 \<and> decodeBase32 s = Inr (account_bytes key)"
    by simp
next
  assume "length key = 32 \<and> decodeBase32 s = Inr (account_bytes key)"
  then show "decodeStellarPublicKey s = Inr key"
    using account_bytes_props [of key] by (simp add: decodeStellarPublicKey_def Let_def)
qed

section \<open>Properties\<close>

lemma length_account_id: "length key = 32 \<Longrightarrow> length (account_id key) = 56"
  using account_bytes_props(1) [of key] by (simp add: account_id_def b32_encode_def)

lemma account_id_decodes:
  assumes "length key = 32"
  shows "decodeBase32 (account_id key) = Inr (account_bytes key)"
  unfolding account_id_def using account_bytes_props(1) [OF assms] by (intro decode_b32_encode) simp

lemma account_id_valid: "length key = 32 \<Longrightarrow> isValidStellarPublicKey (account_id key)"
  using decodeStellarPublicKey_iff [of "account_id key" key] account_id_decodes [of key]
  by (simp add: isValidStellarPublicKey_def)

lemma account_id_digits:
  assumes "b32_digits s is" and "length s = 56" and "length key = 32"
    and "horner 32 is = be_nat (account_bytes key)"
  shows "s = account_id key"
proof -
  have "to_digits 32 (length is) (horner 32 is) = is"
    using b32_digits_less [OF assms(1)] by (rule to_digits_horner)
  then have "to_digits 32 56 (be_nat (account_bytes key)) = is"
    using assms(2,4) b32_digits_length [OF assms(1)] by simp
  then show ?thesis
    using b32_digits_chars [OF assms(1)] account_bytes_props(1) [OF assms(3)]
    by (simp add: account_id_def b32_encode_def)
qed

lemma account_id_alias:
  assumes key: "length key = 32" and c: "c \<in> set BASE32_ALPHABET"
  shows "decodeBase32 (account_id key @ [c]) = Inr (account_bytes key)"
proof -
  from c obtain i where i: "i < 32" "BASE32_ALPHABET ! i = c"
    by (auto simp: in_set_conv_nth alphabet_length)
  from account_id_decodes [OF key] obtain "is" where "is": "b32_digits (account_id key) is"
    "be_nat (account_bytes key) = horner 32 is"
    unfolding decodeBase32_iff length_account_id [OF key] by auto
  from "is"(1) i have "b32_digits (account_id key @ [c]) (is @ [i])"
    by (simp add: b32_digits_def indexOf_alphabet)
  then show ?thesis unfolding decodeBase32_iff
    using "is"(2) i length_account_id [OF key] account_bytes_props(1) [OF key]
    by (intro exI [of _ "is @ [i]"]) simp
qed

text \<open>
  The account id check accepts exactly the canonical address of a 32-byte key and,
  besides it, that address followed by one more base-32 character: every key has a
  56-character address that decodes to it and no other string of 56 characters does,
  but 32 strings of 57 characters are accepted as aliases of the same account.
\<close>

theorem decodeStellarPublicKey_accepts:
  "decodeStellarPublicKey s = Inr key \<longleftrightarrow>
     length key = 32 \<and>
     (s = account_id key \<or> (\<exists>c \<in> set BASE32_ALPHABET. s = account_id key @ [c]))"
proof
  assume "decodeStellarPublicKey s = Inr key"
  then have key: "length key = 32" and dec: "decodeBase32 s = Inr (account_bytes key)"
    by (simp_all add: decodeStellarPublicKey_iff)
  from dec obtain "is" where d: "b32_digits s is" and len: "35 = 5 * length s div 8"
    and n: "be_nat (account_bytes key) = horner 32 is div 2 ^ (5 * length s mod 8)"
    unfolding decodeBase32_iff account_bytes_props(1) [OF key] by blast
  from len consider "length s = 56" | "length s = 57" by linarith
  then have "s = account_id key \<or> (\<exists>c \<in> set BASE32_ALPHABET. s = account_id key @ [c])"
  proof cases
    case 1
    then have "horner 32 is = be_nat (account_bytes key)" using n by simp
    then have "s = account_id key" by (rule account_id_digits [OF d 1 key])
    then show ?thesis by (rule disjI1)
  next
    case 2
    then obtain t c where s: "s = t @ [c]" by (metis length_0_conv rev_exhaust zero_neq_numeral)
    then have "is \<noteq> []" using b32_digits_length [OF d] by auto
    then obtain js i where "is = js @ [i]" by (metis rev_exhaust)
    with d s have js: "is = js @ [i]" "b32_digits t js" "b32_digits [c] [i]"
      by (simp_all add: b32_digits_def)
    then have i: "i < 32" and "BASE32_ALPHABET ! i = c"
      by (simp_all add: b32_digits_def indexOf_alphabet)
    then have c: "c \<in> set BASE32_ALPHABET" using nth_mem [of i BASE32_ALPHABET] by (simp add: alphabet_length)
    have "horner 32 js = be_nat (account_bytes key)" using n i by (simp add: 2 js(1))
    then have "t = account_id key" using 2 s by (intro account_id_digits [OF js(2) _ key]) simp_all
    then have "s = account_id key @ [c]" using s by simp
    with c show ?thesis by blast
  qed
  with key show "length key = 32 \<and>
     (s = account_id key \<or> (\<exists>c \<in> set BASE32_ALPHABET. s = account_id key @ [c]))" by blast
next
  assume a: "length key = 32 \<and>
     (s = account_id key \<or> (\<exists>c \<in> set BASE32_ALPHABET. s = account_id key @ [c]))"
  then have key: "length key = 32" by blast
  from account_id_decodes [OF key] account_id_alias [OF key]
  show "decodeStellarPublicKey s = Inr key"
    using a by (auto simp: decodeStellarPublicKey_iff)
qed

end
