(* ===== verification/Wallet_Units.thy ===== *)
theory Wallet_Units
  imports Stellar_Strkey
begin

text \<open>
  Wallet addresses (\<open>backend/src/common/normalize-wallet.ts\<close>) and token amounts
  (\<open>backend/src/common/amount-units.ts\<close>): every service normalises the wallet it is
  given before it touches the database, and converts human amounts to on-chain units
  with \<open>toUnits\<close>.
\<close>

section \<open>Wallets\<close>

definition EVM_WALLET_ADDRESS_PATTERN :: "string \<Rightarrow> bool" where
  "EVM_WALLET_ADDRESS_PATTERN w =
     (length w = 42 \<and> take 2 w = ''0x'' \<and> list_all is_hex_char (drop 2 w))"

definition normalizeWallet :: "string \<Rightarrow> (http_error, string) result" where
  "normalizeWallet addr =
     (let w = js_trim addr in
      if EVM_WALLET_ADDRESS_PATTERN w then Inr (to_lower w)
      else if isValidStellarPublicKey w then Inr w
      else Inl (BadRequest ''Invalid wallet address''))"

definition normalizeWalletOrNull :: "string option \<Rightarrow> string option" where
  "normalizeWalletOrNull addr =
     (case addr of
        None \<Rightarrow> None
      | Some a \<Rightarrow>
          (let trimmed = js_trim a in
           if trimmed = [] then None
           else case normalizeWallet trimmed of Inl _ \<Rightarrow> None | Inr w \<Rightarrow> Some w))"

definition walletAddressTransformer :: "string option \<Rightarrow> (http_error, string option) result" where
  "walletAddressTransformer v =
     (case v of None \<Rightarrow> Inr None | Some a \<Rightarrow> rbind (normalizeWallet a) (\<lambda>w. Inr (Some w)))"

definition assertValidWalletAddress :: "string \<Rightarrow> (http_error, unit) result" where
  "assertValidWalletAddress addr =
     (case normalizeWallet addr of
        Inl _ \<Rightarrow> Inl (BadRequest ''Invalid wallet address'')
      | Inr _ \<Rightarrow> Inr ())"

lemma evm_pattern_no_ws: "EVM_WALLET_ADDRESS_PATTERN w \<Longrightarrow> \<forall>c \<in> set w. \<not> is_ws c"
proof -
  assume p: "EVM_WALLET_ADDRESS_PATTERN w"
  have "set w = set (take 2 w) \<union> set (drop 2 w)" by (metis append_take_drop_id set_append)
  then show ?thesis using p hex_not_ws
    by (auto simp: EVM_WALLET_ADDRESS_PATTERN_def list_all_iff is_ws_def)
qed

lemma evm_pattern_lower [simp]: "EVM_WALLET_ADDRESS_PATTERN w \<Longrightarrow> EVM_WALLET_ADDRESS_PATTERN (to_lower w)"
proof -
  have "char_lower (CHR ''0'') = CHR ''0''" "char_lower (CHR ''x'') = CHR ''x''" by code_simp+
  then show "EVM_WALLET_ADDRESS_PATTERN w \<Longrightarrow> EVM_WALLET_ADDRESS_PATTERN (to_lower w)"
    by (simp add: EVM_WALLET_ADDRESS_PATTERN_def to_lower_def list_all_iff take_map drop_map)
qed

lemma js_trim_evm_lower: "EVM_WALLET_ADDRESS_PATTERN w \<Longrightarrow> js_trim (to_lower w) = to_lower w"
  by (intro js_trim_no_ws evm_pattern_no_ws evm_pattern_lower)

lemma normalizeWallet_cases:
  assumes "normalizeWallet a = Inr w"
  obtains (evm) "EVM_WALLET_ADDRESS_PATTERN w" "to_lower w = w" "js_trim w = w"
    | (stellar) "isValidStellarPublicKey w" "js_trim w = w" "w = js_trim a"
      "\<not> EVM_WALLET_ADDRESS_PATTERN w"
  using assms by (auto simp: normalizeWallet_def Let_def js_trim_evm_lower split: if_splits)

lemma normalizeWallet_fixed: "normalizeWallet a = Inr w \<Longrightarrow> normalizeWallet w = Inr w"
  by (elim normalizeWallet_cases) (auto simp: normalizeWallet_def)

lemma account_id_norm:
  assumes "length key = 32"
  shows "normalizeWallet (account_id key) = Inr (account_id key)"
proof -
  have "set (account_id key) \<subseteq> set BASE32_ALPHABET"
    using to_digits_less [of 32] by (auto simp: account_id_def b32_encode_def alphabet_length)
  moreover have "\<forall>c \<in> set BASE32_ALPHABET. \<not> is_ws c" by code_simp
  ultimately have "js_trim (account_id key) = account_id key" by (intro js_trim_no_ws) blast
  then show ?thesis
    using length_account_id [OF assms] account_id_valid [OF assms]
    by (simp add: normalizeWallet_def EVM_WALLET_ADDRESS_PATTERN_def)
qed

text \<open>
  Normalisation is a projection onto canonical wallets: a normalised wallet is
  accepted again and unchanged, and it is either a lower-case 0x address or a string
  that the Stellar check accepts. The nullable variant agrees with it and turns every
  rejected address into null.
\<close>

theorem normalizeWallet_idem:
  assumes "normalizeWallet a = Inr w"
  shows "normalizeWallet w = Inr w \<and>
    (EVM_WALLET_ADDRESS_PATTERN w \<and> to_lower w = w \<or> isValidStellarPublicKey w) \<and>
    normalizeWalletOrNull (Some a) = Some w"
proof -
  have e: "\<not> EVM_WALLET_ADDRESS_PATTERN []" "\<not> isValidStellarPublicKey []"
    by (simp_all add: EVM_WALLET_ADDRESS_PATTERN_def isValidStellarPublicKey_def
        decodeStellarPublicKey_def decodeBase32_def)
  then have "js_trim a \<noteq> []" using assms by (auto simp: normalizeWallet_def)
  then have "normalizeWalletOrNull (Some a) = Some w"
    using assms by (simp add: normalizeWalletOrNull_def normalizeWallet_def)
  with assms show ?thesis
    by (elim normalizeWallet_cases) (auto simp: normalizeWallet_def)
qed

theorem normalizeWallet_idem_witness:
  "normalizeWallet (''0x'' @ replicate 40 (CHR ''a'')) = Inr (''0x'' @ replicate 40 (CHR ''a''))"
proof -
  have "normalizeWallet ('' 0x'' @ replicate 40 (CHR ''A'')) = Inr (''0x'' @ replicate 40 (CHR ''a''))"
    by code_simp
  then show ?thesis using normalizeWallet_idem by blast
qed

section \<open>Amounts\<close>

definition EVM_USDC_DECIMALS :: nat where "EVM_USDC_DECIMALS = 6"
definition STELLAR_TOKEN_DECIMALS :: nat where "STELLAR_TOKEN_DECIMALS = 7"

text \<open>The argument is the environment variable \<open>BLOCKCHAIN_GATEWAY\<close>.\<close>

definition TOKEN_DECIMALS :: "string option \<Rightarrow> nat" where
  "TOKEN_DECIMALS gateway =
     (if to_lower (js_trim (nullish gateway [])) = ''soroban''
      then STELLAR_TOKEN_DECIMALS else EVM_USDC_DECIMALS)"

definition TOKEN_UNIT :: "string option \<Rightarrow> int" where
  "TOKEN_UNIT gateway = 10 ^ TOKEN_DECIMALS gateway"

text \<open>
  \<open>BigInt(string)\<close>: surrounding white space is ignored, the empty string is 0, an
  optional sign may precede decimal digits, and \<open>0x\<close>, \<open>0o\<close>, \<open>0b\<close> introduce an unsigned
  literal of another base; anything else is a \<open>SyntaxError\<close>.
\<close>

definition hex_value :: "char \<Rightarrow> nat" where
  "hex_value c = (let n = of_char c :: nat in
     if n \<le> 57 then n - 48 else if n \<le> 70 then n - 55 else n - 87)"

definition radix_literal :: "nat \<Rightarrow> string \<Rightarrow> (http_error, int) result" where
  "radix_literal b ds =
     (if ds \<noteq> [] \<and> list_all (\<lambda>c. is_hex_char c \<and> hex_value c < b) ds
      then Inr (int (horner b (map hex_value ds)))
      else Inl (RuntimeError ''SyntaxError''))"

definition js_BigInt :: "string \<Rightarrow> (http_error, int) result" where
  "js_BigInt s =
     (let t = js_trim s; p = to_lower (take 2 t) in
      if t = [] then Inr 0
      else if p = ''0x'' then radix_literal 16 (drop 2 t)
      else if p = ''0o'' then radix_literal 8 (drop 2 t)
      else if p = ''0b'' then radix_literal 2 (drop 2 t)
      else if hd t = CHR ''-'' then rbind (radix_literal 10 (tl t)) (\<lambda>n. Inr (- n))
      else if hd t = CHR ''+'' then radix_literal 10 (tl t)
      else radix_literal 10 t)"

text \<open>\<open>String.prototype.split\<close> on one character, and \<open>padEnd\<close>.\<close>

fun split_on :: "char \<Rightarrow> string \<Rightarrow> string list" where
  "split_on d [] = [[]]"
| "split_on d (c # cs) =
     (if c = d then [] # split_on d cs
      else case split_on d cs of [] \<Rightarrow> [[c]] | p # ps \<Rightarrow> (c # p) # ps)"

definition padEnd :: "nat \<Rightarrow> char \<Rightarrow> string \<Rightarrow> string" where
  "padEnd n c s = s @ replicate (n - length s) c"

text \<open>The argument of \<open>toUnits\<close>: a string, an integral \<open>number\<close> or a \<open>bigint\<close>.\<close>

datatype amount_in = Str string | Num int | Big int

fun nat_str :: "nat \<Rightarrow> string" where
  "nat_str n = (if n < 10 then [char_of (48 + n)] else nat_str (n div 10) @ [char_of (48 + n mod 10)])"

declare nat_str.simps [simp del]

definition int_str :: "int \<Rightarrow> string" where
  "int_str i = (if i < 0 then ''-'' @ nat_str (nat (- i)) else nat_str (nat i))"

definition amount_str :: "amount_in \<Rightarrow> string" where
  "amount_str v = (case v of Str s \<Rightarrow> s | Num i \<Rightarrow> int_str i | Big i \<Rightarrow> int_str i)"

definition toUnits :: "amount_in \<Rightarrow> nat \<Rightarrow> (http_error, int) result" where
  "toUnits v decimals =
     (case v of
        Big n \<Rightarrow> Inr n
      | _ \<Rightarrow>
          (let raw = js_trim (amount_str v);
               negative = starts_with raw ''-'';
               unsigned' = (if negative then tl raw else raw);
               parts = split_on (CHR ''.'') unsigned';
               wholeRaw = hd parts;
               fracRaw = (case tl parts of [] \<Rightarrow> [] | f # _ \<Rightarrow> f);
               whole = (if wholeRaw = [] then ''0'' else wholeRaw);
               frac = take decimals (padEnd decimals (CHR ''0'') fracRaw)
           in rbind (js_BigInt whole) (\<lambda>w.
              rbind (js_BigInt (if frac = [] then ''0'' else frac)) (\<lambda>f.
                let units = w * 10 ^ decimals + f
                in Inr (if negative then - units else units)))))"

definition DEFAULT_CREDIT_LIMIT_USDC :: "string option \<Rightarrow> (http_error, int) result" where
  "DEFAULT_CREDIT_LIMIT_USDC gateway = toUnits (Num 1) (TOKEN_DECIMALS gateway)"

section \<open>Lemmas on amounts\<close>

definition dec_value :: "string \<Rightarrow> nat" where
  "dec_value ds = horner 10 (map hex_value ds)"

lemma digit_props:
  assumes "is_digit_char c"
  shows "is_hex_char c" "hex_value c < 10" "\<not> is_ws c" "c \<noteq> CHR ''-''" "c \<noteq> CHR ''+''" "c \<noteq> CHR ''.''"
    "char_lower c \<noteq> CHR ''x''" "char_lower c \<noteq> CHR ''o''" "char_lower c \<noteq> CHR ''b''"
proof -
  let ?n = "of_char c :: nat"
  have n: "48 \<le> ?n" "?n \<le> 57" using assms by (simp_all add: is_digit_char_def Let_def)
  then show "is_hex_char c" "hex_value c < 10" by (simp_all add: is_hex_char_def hex_value_def Let_def)
  show "\<not> is_ws c" using assms by (rule digit_not_ws)
  have l: "char_lower c = c" using n by (simp add: char_lower_def Let_def)
  show "c \<noteq> CHR ''-''" "c \<noteq> CHR ''+''" "c \<noteq> CHR ''.''"
    "char_lower c \<noteq> CHR ''x''" "char_lower c \<noteq> CHR ''o''" "char_lower c \<noteq> CHR ''b''"
    unfolding l using n by auto
qed

lemma js_BigInt_digits:
  assumes "ds \<noteq> []" and "list_all is_digit_char ds"
  shows "js_BigInt ds = Inr (int (dec_value ds))"
proof -
  have d: "is_digit_char c" if "c \<in> set ds" for c using assms(2) that by (simp add: list_all_iff)
  have "js_trim ds = ds" using d digit_props(3) by (intro js_trim_no_ws) blast
  moreover have "is_digit_char (hd ds)" using d assms(1) by simp
  moreover have "to_lower (take 2 ds) \<noteq> [CHR ''0'', x]" if "x \<in> {CHR ''x'', CHR ''o'', CHR ''b''}" for x
  proof
    assume "to_lower (take 2 ds) = [CHR ''0'', x]"
    moreover from this have "2 \<le> length ds" by (auto simp: to_lower_def dest!: arg_cong [where f = length])
    then obtain a b es where "ds = a # b # es" by (cases ds; cases "tl ds") auto
    ultimately have "char_lower b = x" "b \<in> set ds" by (simp_all add: to_lower_def)
    with d digit_props(7,8,9) that show False by auto
  qed
  moreover have "radix_literal 10 ds = Inr (int (dec_value ds))"
    using assms d digit_props(1,2) by (auto simp: radix_literal_def dec_value_def list_all_iff)
  ultimately show ?thesis using assms(1) digit_props(4,5) [of "hd ds"]
    by (simp add: js_BigInt_def Let_def)
qed

lemma split_on_none: "d \<notin> set s \<Longrightarrow> split_on d s = [s]"
  by (induction s) auto

lemma split_on_one: "d \<notin> set a \<Longrightarrow> d \<notin> set b \<Longrightarrow> split_on d (a @ d # b) = [a, b]"
  by (induction a) (auto simp: split_on_none)

lemma dec_value_append: "dec_value (a @ b) = dec_value a * 10 ^ length b + dec_value b"
  by (simp add: dec_value_def horner_append)

lemma dec_value_zeros: "dec_value (replicate k (CHR ''0'')) = 0"
proof -
  have "hex_value (CHR ''0'') = 0" by code_simp
  then show ?thesis by (induction k) (simp_all add: dec_value_def horner_Cons)
qed

lemma dec_value_less: "list_all is_digit_char s \<Longrightarrow> dec_value s < 10 ^ length s"
  using horner_less [of "map hex_value s" 10] digit_props(2) by (auto simp: dec_value_def list_all_iff)

text \<open>Padding or cutting the fraction is the truncating division.\<close>

lemma frac_value:
  assumes "list_all is_digit_char f"
  shows "dec_value (take d (padEnd d (CHR ''0'') f)) = dec_value f * 10 ^ d div 10 ^ length f"
proof (cases "length f \<le> d")
  case True
  then have "10 ^ d = (10 :: nat) ^ (d - length f) * 10 ^ length f" by (simp flip: power_add)
  with True show ?thesis by (simp add: padEnd_def dec_value_append dec_value_zeros)
next
  case False
  then have l: "10 ^ length f = (10 :: nat) ^ (length f - d) * 10 ^ d" by (simp flip: power_add)
  have "dec_value f = dec_value (take d f) * 10 ^ (length f - d) + dec_value (drop d f)"
    using dec_value_append [of "take d f" "drop d f"] by simp
  moreover have "dec_value (drop d f) < 10 ^ (length f - d)"
    using dec_value_less [of "drop d f"] assms by (simp add: list_all_iff) (metis in_set_dropD)
  ultimately have "dec_value f div 10 ^ (length f - d) = dec_value (take d f)" by simp
  then show ?thesis using False l by (simp add: padEnd_def)
qed

text \<open>An integral number of tokens is scaled exactly.\<close>

lemma digit_char:
  assumes "n < 10"
  shows "is_digit_char (char_of (48 + n))" "hex_value (char_of (48 + n)) = n"
proof -
  have "of_char (char_of (48 + n) :: char) = (48 + n :: nat)" using assms by (simp add: take_bit_nat_eq_self)
  then show "is_digit_char (char_of (48 + n))" "hex_value (char_of (48 + n)) = n"
    using assms by (simp_all add: is_digit_char_def hex_value_def)
qed

lemma nat_str_digits: "list_all is_digit_char (nat_str n) \<and> nat_str n \<noteq> [] \<and> dec_value (nat_str n) = n"
proof (induction n rule: nat_str.induct)
  case (1 n)
  have s: "dec_value [char_of (48 + k)] = k" if "k < 10" for k
    using digit_char [OF that] by (simp add: dec_value_def horner_Cons)
  show ?case
  proof (cases "n < 10")
    case True
    then show ?thesis using digit_char [OF True] s by (simp add: nat_str.simps [of n])
  next
    case False
    then show ?thesis
      using 1 digit_char [of "n mod 10"] s [of "n mod 10"]
      by (simp add: nat_str.simps [of n] dec_value_append)
  qed
qed

lemma toUnits_Num: "0 \<le> n \<Longrightarrow> toUnits (Num n) d = Inr (n * 10 ^ d)"
proof -
  assume n: "0 \<le> n"
  define w where "w = nat_str (nat n)"
  have w: "list_all is_digit_char w" "w \<noteq> []" "dec_value w = nat n" using nat_str_digits by (auto simp: w_def)
  then have wf: "is_digit_char c" if "c \<in> set w" for c using that by (simp add: list_all_iff)
  have t: "js_trim w = w" using wf digit_props(3) by (intro js_trim_no_ws) blast
  have neg: "\<not> starts_with w ''-''" using w(2) wf digit_props(4) [of "hd w"] by (cases w) auto
  have sp: "split_on (CHR ''.'') w = [w]" using wf digit_props(6) by (intro split_on_none) blast
  define fr where "fr = take d (padEnd d (CHR ''0'') [])"
  have fr0: "fr = replicate d (CHR ''0'')" by (simp add: fr_def padEnd_def)
  have "js_BigInt (if fr = [] then ''0'' else fr) = Inr 0"
  proof (cases "fr = []")
    case True
    have "js_BigInt ''0'' = Inr 0" by code_simp
    with True show ?thesis by simp
  next
    case False
    then show ?thesis using js_BigInt_digits [of fr] by (simp add: fr0 dec_value_zeros list_all_iff is_digit_char_def)
  qed
  moreover have "js_BigInt w = Inr n" using js_BigInt_digits [OF w(2,1)] w(3) n by simp
  moreover have "amount_str (Num n) = w" using n by (simp add: amount_str_def int_str_def w_def)
  ultimately show "toUnits (Num n) d = Inr (n * 10 ^ d)"
    using w(2) by (cases "fr = []") (simp_all add: toUnits_def t neg sp Let_def del: take_eq_Nil flip: fr_def)
qed

lemma js_BigInt_or_zero:
  assumes "list_all is_digit_char ds"
  shows "js_BigInt (if ds = [] then ''0'' else ds) = Inr (int (dec_value ds))"
proof (cases "ds = []")
  case True
  have "js_BigInt ''0'' = Inr 0" by code_simp
  with True show ?thesis by (simp add: dec_value_def)
qed (use assms js_BigInt_digits in auto)

lemma dec_value_scaled:
  assumes "list_all is_digit_char f"
  shows "dec_value (w @ f) * 10 ^ d div 10 ^ length f = dec_value w * 10 ^ d + dec_value (take d (padEnd d (CHR ''0'') f))"
proof -
  have "dec_value (w @ f) * 10 ^ d = dec_value f * 10 ^ d + dec_value w * 10 ^ d * 10 ^ length f"
    by (simp add: dec_value_append algebra_simps)
  then show ?thesis by (simp only: frac_value [OF assms] div_mult_self1) simp
qed

text \<open>
  \<open>toUnits\<close> on a decimal numeral with whole part \<open>w\<close> and fraction \<open>f\<close> is the exact
  truncation towards zero of the number times \<open>10 ^ d\<close>, with its sign: no fraction is
  rounded up, and a minus sign negates the whole amount, also when the whole part is 0.
\<close>

theorem toUnits_numeral:
  assumes w: "w \<noteq> []" "list_all is_digit_char w" and f: "list_all is_digit_char f"
    and sign: "sg \<in> {[], ''-''}"
  shows "toUnits (Str (sg @ w @ ''.'' @ f)) d =
     Inr ((if sg = [] then 1 else - 1) *
          int (dec_value (w @ f) * 10 ^ d div 10 ^ length f))"
proof -
  define m where "m = w @ ''.'' @ f"
  have wf: "is_digit_char c" if "c \<in> set w \<union> set f" for c
    using w(2) f that by (auto simp: list_all_iff)
  have "\<forall>c \<in> set (sg @ m). \<not> is_ws c"
    using wf digit_props(3) sign by (auto simp: m_def is_ws_def)
  then have t: "js_trim (sg @ m) = sg @ m" by (rule js_trim_no_ws)
  have hm: "m = hd w # tl m" "hd w \<noteq> CHR ''-''"
    using w wf digit_props(4) [of "hd w"] by (auto simp: m_def)
  have neg: "starts_with (sg @ m) ''-'' \<longleftrightarrow> sg \<noteq> []"
    using sign hm by (metis append.left_neutral append_Cons insertE singletonD starts_with.simps)
  have sp: "split_on (CHR ''.'') m = [w, f]"
  proof -
    have "CHR ''.'' \<notin> set w" "CHR ''.'' \<notin> set f" using wf digit_props(6) by blast+
    then show ?thesis by (simp add: m_def split_on_one)
  qed
  define fr where "fr = take d (padEnd d (CHR ''0'') f)"
  have fr: "list_all is_digit_char fr"
    using f by (auto simp: fr_def padEnd_def list_all_iff is_digit_char_def dest!: in_set_takeD)
  have "js_BigInt (if fr = [] then ''0'' else fr) = Inr (int (dec_value fr))" using fr by (rule js_BigInt_or_zero)
  moreover have "js_BigInt w = Inr (int (dec_value w))" using w by (rule js_BigInt_digits)
  ultimately have "toUnits (Str (sg @ m)) d =
      Inr (let units = int (dec_value w) * 10 ^ d + int (dec_value fr) in if sg \<noteq> [] then - units else units)"
  proof -
    have u: "(if sg \<noteq> [] then tl (sg @ m) else sg @ m) = m" using sign by auto
    have "(if w = [] then ''0'' else w) = w" using w(1) by simp
    then have "toUnits (Str (sg @ m)) d =
        rbind (js_BigInt w) (\<lambda>w. rbind (js_BigInt (if fr = [] then ''0'' else fr)) (\<lambda>f.
          Inr (if sg \<noteq> [] then - (w * 10 ^ d + f) else w * 10 ^ d + f)))"
      by (simp only: toUnits_def amount_str_def amount_in.case Let_def t neg u sp list.sel list.case fr_def)
    with \<open>js_BigInt w = _\<close> \<open>js_BigInt (if fr = [] then _ else fr) = _\<close> show ?thesis
      by (simp only: rbind_simps Let_def)
  qed
  moreover have "dec_value (w @ f) * 10 ^ d div 10 ^ length f = dec_value w * 10 ^ d + dec_value fr"
    unfolding fr_def by (rule dec_value_scaled [OF f])
  ultimately show ?thesis by (simp add: m_def Let_def)
qed

theorem toUnits_numeral_witness:
  "toUnits (Str ''-0.5'') 7 = Inr (- 5000000)"
proof -
  have "toUnits (Str (''-'' @ ''0'' @ ''.'' @ ''5'')) 7 =
      Inr ((if ''-'' = [] then 1 else - 1) * int (dec_value (''0'' @ ''5'') * 10 ^ 7 div 10 ^ length ''5''))"
    by (rule toUnits_numeral) code_simp+
  moreover have "dec_value (''0'' @ ''5'') = 5" by code_simp
  ultimately show ?thesis by simp
qed

end
