(* ===== verification/Cctp_Message.thy ===== *)
theory Cctp_Message
  imports Wallet_Units
begin

text \<open>
  CCTP V2 messages (\<open>backend/src/cctp/cctp-message.ts\<close>): hexadecimal transport, the
  148-byte header and the 228-byte burn body, the hook data of the CctpForwarder, and
  the guard against stranded funds. The \<open>StrKey\<close> functions of the Stellar SDK are
  parameters (record \<open>StrKey\<close>). Characters above 127 stand for text that is not ASCII,
  which no Stellar address contains.
\<close>

section \<open>Errors and parameters\<close>

datatype cctp_error =
    NotValidHex
  | BodyTooShort nat
  | MessageTooShort nat
  | NotStellarAddress string
  | HookTooShort nat
  | HookLengthExceedsData
  | NotContractAddress string
  | MintRecipientNotForwarder string
  | DestinationCallerNotForwarder string
  | WrongDestinationDomain nat nat
  | ZeroBurnAmount
  | EmptyAttestation
  | NegativeAmount int
  | BurnAmountNotPositive int

record StrKey =
  isValidEd25519PublicKey :: "string \<Rightarrow> bool"
  isValidContract :: "string \<Rightarrow> bool"
  isValidMed25519PublicKey :: "string \<Rightarrow> bool"
  decodeContract :: "string \<Rightarrow> bytes"

section \<open>Integers and hexadecimal\<close>

definition HEADER_BYTES :: nat where "HEADER_BYTES = 148"
definition BODY_FIXED_BYTES :: nat where "BODY_FIXED_BYTES = 228"

text \<open>\<open>bytes[i] ?? 0\<close>.\<close>

definition byte_at :: "bytes \<Rightarrow> nat \<Rightarrow> byte" where
  "byte_at bs i = (if i < length bs then bs ! i else 0)"

definition u32 :: "bytes \<Rightarrow> nat \<Rightarrow> nat" where
  "u32 bs offset =
     unat (push_bit 24 (ucast (byte_at bs offset)) OR push_bit 16 (ucast (byte_at bs (offset + 1)))
        OR push_bit 8 (ucast (byte_at bs (offset + 2))) OR ucast (byte_at bs (offset + 3)) :: 32 word)"

definition u256 :: "bytes \<Rightarrow> nat \<Rightarrow> nat" where
  "u256 bs offset =
     foldl (\<lambda>value i. push_bit 8 value OR unat (byte_at bs (offset + i))) 0 [0..<32]"

fun hex_pairs :: "string \<Rightarrow> bytes" where
  "hex_pairs (a # b # cs) = word_of_nat (hex_value a * 16 + hex_value b) # hex_pairs cs"
| "hex_pairs _ = []"

definition hexToBytes :: "string \<Rightarrow> (cctp_error, bytes) result" where
  "hexToBytes hex =
     (let clean = (if starts_with hex ''0x'' then drop 2 hex else hex) in
      if length clean mod 2 \<noteq> 0 \<or> \<not> list_all is_hex_char clean then Inl NotValidHex
      else Inr (hex_pairs clean))"

definition hex_digit :: "nat \<Rightarrow> char" where
  "hex_digit n = ''0123456789abcdef'' ! n"

definition bytesToHex :: "bytes \<Rightarrow> string" where
  "bytesToHex bs =
     ''0x'' @ concat (map (\<lambda>b. [hex_digit (unat b div 16), hex_digit (unat b mod 16)]) bs)"

section \<open>Header and body\<close>

record CctpMessageHeader =
  hd_version :: nat
  hd_sourceDomain :: nat
  hd_destinationDomain :: nat
  hd_nonce :: string
  hd_sender :: bytes
  hd_recipient :: bytes
  hd_destinationCaller :: bytes
  hd_minFinalityThreshold :: nat
  hd_finalityThresholdExecuted :: nat

record CctpBurnBody =
  bd_version :: nat
  bd_burnToken :: bytes
  bd_mintRecipient :: bytes
  bd_amount :: nat
  bd_messageSender :: bytes
  bd_maxFee :: nat
  bd_feeExecuted :: nat
  bd_expirationBlock :: nat
  bd_hookData :: bytes

definition parseCctpBurnBody :: "bytes \<Rightarrow> (cctp_error, CctpBurnBody) result" where
  "parseCctpBurnBody body =
     (if length body < BODY_FIXED_BYTES then Inl (BodyTooShort (length body))
      else Inr \<lparr>bd_version = u32 body 0,
                bd_burnToken = js_slice body 4 36,
                bd_mintRecipient = js_slice body 36 68,
                bd_amount = u256 body 68,
                bd_messageSender = js_slice body 100 132,
                bd_maxFee = u256 body 132,
                bd_feeExecuted = u256 body 164,
                bd_expirationBlock = u256 body 196,
                bd_hookData = drop BODY_FIXED_BYTES body\<rparr>)"

definition parseCctpMessage ::
    "string \<Rightarrow> (cctp_error, CctpMessageHeader \<times> CctpBurnBody) result" where
  "parseCctpMessage messageHex =
     rbind (hexToBytes messageHex) (\<lambda>bs.
       if length bs < HEADER_BYTES then Inl (MessageTooShort (length bs))
       else rbind (parseCctpBurnBody (drop HEADER_BYTES bs)) (\<lambda>body.
         Inr (\<lparr>hd_version = u32 bs 0,
               hd_sourceDomain = u32 bs 4,
               hd_destinationDomain = u32 bs 8,
               hd_nonce = bytesToHex (js_slice bs 12 44),
               hd_sender = js_slice bs 44 76,
               hd_recipient = js_slice bs 76 108,
               hd_destinationCaller = js_slice bs 108 140,
               hd_minFinalityThreshold = u32 bs 140,
               hd_finalityThresholdExecuted = u32 bs 144\<rparr>, body)))"

section \<open>Hook data of the forwarder\<close>

definition HOOK_MAGIC_BYTES :: nat where "HOOK_MAGIC_BYTES = 24"
definition HOOK_VERSION :: nat where "HOOK_VERSION = 0"
definition HOOK_HEADER_BYTES :: nat where "HOOK_HEADER_BYTES = 32"

definition assertStellarAddress :: "StrKey \<Rightarrow> string \<Rightarrow> (cctp_error, unit) result" where
  "assertStellarAddress sk addr =
     (if \<not> isValidEd25519PublicKey sk addr \<and> \<not> isValidContract sk addr \<and> \<not> isValidMed25519PublicKey sk addr
      then Inl (NotStellarAddress addr) else Inr ())"

definition text_encode :: "string \<Rightarrow> bytes" where
  "text_encode s = map (\<lambda>c. word_of_nat (of_char c)) s"

definition text_decode :: "bytes \<Rightarrow> string" where
  "text_decode bs = map (\<lambda>b. char_of (unat b)) bs"

text \<open>\<open>out.set(xs, off)\<close> and \<open>view.setUint32(off, n)\<close> on a fresh array of zeros.\<close>

definition set_bytes :: "bytes \<Rightarrow> nat \<Rightarrow> bytes \<Rightarrow> bytes" where
  "set_bytes out off xs = take off out @ xs @ drop (off + length xs) out"

definition buildForwarderHookData :: "StrKey \<Rightarrow> string \<Rightarrow> bytes \<Rightarrow> (cctp_error, bytes) result" where
  "buildForwarderHookData sk forwardRecipient payload =
     rbind (assertStellarAddress sk forwardRecipient) (\<lambda>_.
       let recipientBytes = text_encode forwardRecipient;
           out = replicate (HOOK_HEADER_BYTES + length recipientBytes + length payload) 0;
           out = set_bytes out HOOK_MAGIC_BYTES (be_bytes 4 HOOK_VERSION);
           out = set_bytes out (HOOK_MAGIC_BYTES + 4) (be_bytes 4 (length recipientBytes));
           out = set_bytes out HOOK_HEADER_BYTES recipientBytes;
           out = set_bytes out (HOOK_HEADER_BYTES + length recipientBytes) payload
       in Inr out)"

record ForwarderHookData =
  hk_version :: nat
  hk_forwardRecipient :: string
  hk_payload :: bytes

definition parseForwarderHookData :: "StrKey \<Rightarrow> bytes \<Rightarrow> (cctp_error, ForwarderHookData) result" where
  "parseForwarderHookData sk hookData =
     (if length hookData < HOOK_HEADER_BYTES then Inl (HookTooShort (length hookData))
      else
        let version = be_nat (js_slice hookData HOOK_MAGIC_BYTES (HOOK_MAGIC_BYTES + 4));
            len = be_nat (js_slice hookData (HOOK_MAGIC_BYTES + 4) (HOOK_MAGIC_BYTES + 8))
        in if HOOK_HEADER_BYTES + len > length hookData then Inl HookLengthExceedsData
           else
             let forwardRecipient = text_decode (js_slice hookData HOOK_HEADER_BYTES (HOOK_HEADER_BYTES + len))
             in rbind (assertStellarAddress sk forwardRecipient) (\<lambda>_.
                  Inr \<lparr>hk_version = version, hk_forwardRecipient = forwardRecipient,
                       hk_payload = drop (HOOK_HEADER_BYTES + len) hookData\<rparr>))"

section \<open>The forwarder guard\<close>

fun equalBytes :: "bytes \<Rightarrow> bytes \<Rightarrow> bool" where
  "equalBytes a b = (length a = length b \<and> list_all (\<lambda>i. a ! i = b ! i) [0..<length a])"

definition contractAddressToBytes32 :: "StrKey \<Rightarrow> string \<Rightarrow> (cctp_error, bytes) result" where
  "contractAddressToBytes32 sk contractId =
     (if \<not> isValidContract sk contractId then Inl (NotContractAddress contractId)
      else Inr (decodeContract sk contractId))"

definition assertForwarderFields ::
    "StrKey \<Rightarrow> bytes \<Rightarrow> bytes \<Rightarrow> string \<Rightarrow> (cctp_error, unit) result" where
  "assertForwarderFields sk mintRecipient destinationCaller forwarderContractId =
     rbind (contractAddressToBytes32 sk forwarderContractId) (\<lambda>forwarder.
       if \<not> equalBytes mintRecipient forwarder then Inl (MintRecipientNotForwarder forwarderContractId)
       else if \<not> equalBytes destinationCaller forwarder
         then Inl (DestinationCallerNotForwarder forwarderContractId)
       else Inr ())"

declare equalBytes.simps [simp del]

section \<open>Lemmas\<close>

lemma equalBytes_iff [simp]: "equalBytes a b \<longleftrightarrow> a = b"
  unfolding equalBytes.simps list_all_iff using list_eq_iff_nth_eq [of a b] by auto

lemma assertForwarderFields_Inr_iff:
  "assertForwarderFields sk m d f = Inr u \<longleftrightarrow>
     isValidContract sk f \<and> m = decodeContract sk f \<and> d = decodeContract sk f"
  by (auto simp: assertForwarderFields_def contractAddressToBytes32_def rbind_Inr_iff)

lemma assertStellarAddress_Inr_iff:
  "assertStellarAddress sk a = Inr u \<longleftrightarrow>
     isValidEd25519PublicKey sk a \<or> isValidContract sk a \<or> isValidMed25519PublicKey sk a"
  by (auto simp: assertStellarAddress_def)

lemma text_decode_encode [simp]: "text_decode (text_encode s) = s"
proof -
  have "char_of (unat (word_of_nat (of_char c) :: byte)) = c" for c :: char
    using char_less_256 [of c] by (simp add: unat_of_nat take_bit_eq_mod)
  then show ?thesis by (simp add: text_decode_def text_encode_def comp_def)
qed

lemma length_text_encode [simp]: "length (text_encode s) = length s"
  by (simp add: text_encode_def)

subsection \<open>Hexadecimal\<close>

lemma hex_digit_props:
  assumes "n < 16"
  shows "is_hex_char (hex_digit n)" "hex_value (hex_digit n) = n"
proof -
  have "list_all (\<lambda>n. is_hex_char (hex_digit n) \<and> hex_value (hex_digit n) = n) [0..<16]" by code_simp
  then show "is_hex_char (hex_digit n)" "hex_value (hex_digit n) = n"
    using assms by (simp_all add: list_all_iff)
qed

definition hex_body :: "bytes \<Rightarrow> string" where
  "hex_body bs = concat (map (\<lambda>b. [hex_digit (unat b div 16), hex_digit (unat b mod 16)]) bs)"

lemma nibble_less: "unat (b :: byte) div 16 < 16"
  using unat_byte_less [of b] by (simp add: less_mult_imp_div_less)

lemma hex_body_props:
  "hex_pairs (hex_body bs) = bs" "list_all is_hex_char (hex_body bs)" "length (hex_body bs) = 2 * length bs"
proof (induction bs)
  case (Cons b bs)
  note n = hex_digit_props [OF nibble_less [of b]] hex_digit_props [of "unat b mod 16"]
  case 1 show ?case using Cons(1) n by (simp add: hex_body_def)
  case 2 show ?case using Cons(2) n by (simp add: hex_body_def)
  case 3 show ?case using Cons(3) by (simp add: hex_body_def)
qed (simp_all add: hex_body_def)

lemma hexToBytes_bytesToHex: "hexToBytes (bytesToHex bs) = Inr bs"
  using hex_body_props [of bs] by (simp add: hexToBytes_def bytesToHex_def hex_body_def)

lemma bytesToHex_inj: "bytesToHex a = bytesToHex b \<longleftrightarrow> a = b"
  by (metis hexToBytes_bytesToHex sum.inject(2))

subsection \<open>Big-endian integers\<close>

lemma nat_shift_or:
  assumes "(y :: nat) < 2 ^ k"
  shows "push_bit k x OR y = x * 2 ^ k + y"
proof -
  have "push_bit k x AND y = 0"
  proof (rule bit_eqI)
    fix n
    have "\<not> bit y n" if "k \<le> n"
    proof -
      have "y < 2 ^ n" by (rule less_le_trans [OF assms power_increasing [OF that]]) simp
      then show ?thesis by (simp add: bit_iff_odd)
    qed
    then show "bit (push_bit k x AND y) n = bit (0 :: nat) n" by (auto simp: bit_simps)
  qed
  then show ?thesis using disjunctive_add_eq_or [of "push_bit k x" y] by (simp add: push_bit_eq_mult)
qed

lemma byte_at_slice:
  assumes "off + n \<le> length bs"
  shows "map (\<lambda>i. byte_at bs (off + i)) [0..<n] = js_slice bs off (off + n)"
  using assms by (intro nth_equalityI) (simp_all add: js_slice_def byte_at_def)

lemma unat_push_byte:
  "k \<le> 24 \<Longrightarrow> unat (push_bit k (ucast (b :: byte)) :: 32 word) = push_bit k (unat b)"
proof -
  assume k: "k \<le> 24"
  have "push_bit k (unat b) < 2 ^ 32"
  proof -
    have "unat b * 2 ^ k < 256 * 2 ^ k" by simp
    also have "\<dots> \<le> 256 * 2 ^ 24" using k by (intro mult_left_mono power_increasing) simp_all
    finally show ?thesis by (simp add: push_bit_eq_mult)
  qed
  moreover have "unat (ucast b :: 32 word) = unat b"
    by (simp add: unsigned_ucast_eq take_bit_eq_mod less_trans [OF unat_byte_less])
  ultimately show ?thesis by (simp add: unsigned_push_bit_eq take_bit_eq_mod)
qed

lemma u32_be_nat:
  assumes "off + 4 \<le> length bs"
  shows "u32 bs off = be_nat (js_slice bs off (off + 4))"
proof -
  define a b c d where "a = byte_at bs off" and "b = byte_at bs (off + 1)"
    and "c = byte_at bs (off + 2)" and "d = byte_at bs (off + 3)"
  have cd: "push_bit 8 (unat c) OR unat d = unat c * 256 + unat d" by (simp add: nat_shift_or)
  have lt: "unat b < 256" "unat c < 256" "unat d < 256" by (rule unat_byte_less)+
  then have "unat c * 256 + unat d < 65536" by linarith
  then have bcd: "push_bit 16 (unat b) OR (unat c * 256 + unat d) = unat b * 65536 + (unat c * 256 + unat d)"
    by (simp add: nat_shift_or)
  have "unat b * 65536 + (unat c * 256 + unat d) < 16777216" using lt by linarith
  then have abcd: "push_bit 24 (unat a) OR (unat b * 65536 + (unat c * 256 + unat d)) =
      unat a * 2 ^ 24 + (unat b * 65536 + (unat c * 256 + unat d))"
    by (simp add: nat_shift_or)
  have ud: "unat (ucast d :: 32 word) = unat d" using unat_push_byte [of 0 d] by simp
  have "u32 bs off = push_bit 24 (unat a) OR (push_bit 16 (unat b) OR (push_bit 8 (unat c) OR unat d))"
    unfolding u32_def a_def [symmetric] b_def [symmetric] c_def [symmetric] d_def [symmetric]
    by (simp add: unsigned_or_eq unat_push_byte ud or.assoc)
  also have "\<dots> = be_nat [a, b, c, d]"
    unfolding cd bcd abcd by (simp add: be_nat_def horner_def)
  also have "[a, b, c, d] = js_slice bs off (off + 4)"
    using byte_at_slice [OF assms] by (simp add: a_def b_def c_def d_def upt_rec numeral_3_eq_3)
  finally show ?thesis .
qed

lemma u256_fold:
  "foldl (\<lambda>value b. push_bit 8 value OR unat b) v (bs :: bytes) = v * 256 ^ length bs + be_nat bs"
proof (induction bs arbitrary: v)
  case (Cons b bs)
  have "be_nat (b # bs) = unat b * 256 ^ length bs + be_nat bs"
    using be_nat_append [of "[b]" bs] by (simp add: be_nat_def horner_def)
  moreover have "push_bit 8 v OR unat b = v * 256 + unat b" by (simp add: nat_shift_or)
  ultimately show ?case by (simp only: foldl.simps Cons) (simp add: algebra_simps)
qed simp

lemma u256_be_nat:
  assumes "off + 32 \<le> length bs"
  shows "u256 bs off = be_nat (js_slice bs off (off + 32))"
proof -
  have "u256 bs off = foldl (\<lambda>value b. push_bit 8 value OR unat b) 0 (map (\<lambda>i. byte_at bs (off + i)) [0..<32])"
    by (simp only: u256_def foldl_map)
  then show ?thesis by (simp only: byte_at_slice [OF assms] u256_fold mult_0 add_0)
qed

section \<open>Reference encoder of messages\<close>

text \<open>
  The layout of the technical guide that the parser implements, as an encoder: the
  nonce travels as 32 raw bytes.
\<close>

definition encodeHeader :: "CctpMessageHeader \<Rightarrow> bytes \<Rightarrow> bytes" where
  "encodeHeader h nonce =
     be_bytes 4 (hd_version h) @ be_bytes 4 (hd_sourceDomain h) @ be_bytes 4 (hd_destinationDomain h) @
     nonce @ hd_sender h @ hd_recipient h @ hd_destinationCaller h @
     be_bytes 4 (hd_minFinalityThreshold h) @ be_bytes 4 (hd_finalityThresholdExecuted h)"

definition encodeBody :: "CctpBurnBody \<Rightarrow> bytes" where
  "encodeBody b =
     be_bytes 4 (bd_version b) @ bd_burnToken b @ bd_mintRecipient b @ be_bytes 32 (bd_amount b) @
     bd_messageSender b @ be_bytes 32 (bd_maxFee b) @ be_bytes 32 (bd_feeExecuted b) @
     be_bytes 32 (bd_expirationBlock b) @ bd_hookData b"

definition wf_header :: "CctpMessageHeader \<Rightarrow> bytes \<Rightarrow> bool" where
  "wf_header h nonce \<longleftrightarrow>
     hd_version h < 2 ^ 32 \<and> hd_sourceDomain h < 2 ^ 32 \<and> hd_destinationDomain h < 2 ^ 32 \<and>
     hd_minFinalityThreshold h < 2 ^ 32 \<and> hd_finalityThresholdExecuted h < 2 ^ 32 \<and>
     length nonce = 32 \<and> hd_nonce h = bytesToHex nonce \<and> length (hd_sender h) = 32 \<and>
     length (hd_recipient h) = 32 \<and> length (hd_destinationCaller h) = 32"

definition wf_body :: "CctpBurnBody \<Rightarrow> bool" where
  "wf_body b \<longleftrightarrow>
     bd_version b < 2 ^ 32 \<and> bd_amount b < 2 ^ 256 \<and> bd_maxFee b < 2 ^ 256 \<and>
     bd_feeExecuted b < 2 ^ 256 \<and> bd_expirationBlock b < 2 ^ 256 \<and> length (bd_burnToken b) = 32 \<and>
     length (bd_mintRecipient b) = 32 \<and> length (bd_messageSender b) = 32"

lemma be_nat_be_bytes_4: "n < 2 ^ 32 \<Longrightarrow> be_nat (be_bytes 4 n) = n"
  and be_nat_be_bytes_32: "n < 2 ^ 256 \<Longrightarrow> be_nat (be_bytes 32 n) = n"
proof -
  have "(256 :: nat) ^ 4 = 2 ^ 32" "(256 :: nat) ^ 32 = 2 ^ 256" by simp_all
  then show "n < 2 ^ 32 \<Longrightarrow> be_nat (be_bytes 4 n) = n" "n < 2 ^ 256 \<Longrightarrow> be_nat (be_bytes 32 n) = n"
    by (simp_all only: be_nat_be_bytes mod_less)
qed

lemma length_encode:
  "wf_header h nonce \<Longrightarrow> length (encodeHeader h nonce) = 148"
  "wf_body b \<Longrightarrow> length (encodeBody b) = 228 + length (bd_hookData b)"
  by (simp_all add: wf_header_def wf_body_def encodeHeader_def encodeBody_def)

lemma parse_encodeBody:
  assumes "wf_body b"
  shows "parseCctpBurnBody (encodeBody b) = Inr b"
proof -
  note w = assms [unfolded wf_body_def]
  have len: "length (encodeBody b) = 228 + length (bd_hookData b)" using assms by (rule length_encode)
  note s = encodeBody_def js_slice_def
  have "u32 (encodeBody b) 0 = bd_version b" "u256 (encodeBody b) 68 = bd_amount b"
    "u256 (encodeBody b) 132 = bd_maxFee b" "u256 (encodeBody b) 164 = bd_feeExecuted b"
    "u256 (encodeBody b) 196 = bd_expirationBlock b"
    using w len by (simp_all add: u32_be_nat u256_be_nat s be_nat_be_bytes_4 be_nat_be_bytes_32)
  moreover have "js_slice (encodeBody b) 4 36 = bd_burnToken b"
    "js_slice (encodeBody b) 36 68 = bd_mintRecipient b"
    "js_slice (encodeBody b) 100 132 = bd_messageSender b" "drop 228 (encodeBody b) = bd_hookData b"
    using w by (simp_all add: s)
  ultimately show ?thesis using len by (simp add: parseCctpBurnBody_def BODY_FIXED_BYTES_def)
qed

lemma parse_encodeHeader:
  fixes h nonce body
  defines "m \<equiv> encodeHeader h nonce @ body"
  assumes "wf_header h nonce"
  shows "\<lparr>hd_version = u32 m 0, hd_sourceDomain = u32 m 4, hd_destinationDomain = u32 m 8,
      hd_nonce = bytesToHex (js_slice m 12 44), hd_sender = js_slice m 44 76,
      hd_recipient = js_slice m 76 108, hd_destinationCaller = js_slice m 108 140,
      hd_minFinalityThreshold = u32 m 140, hd_finalityThresholdExecuted = u32 m 144\<rparr> = h"
proof -
  note w = assms(2) [unfolded wf_header_def]
  have len: "length m = 148 + length body" using assms length_encode(1) by simp
  note s = m_def encodeHeader_def js_slice_def
  have "u32 m 0 = hd_version h" "u32 m 4 = hd_sourceDomain h" "u32 m 8 = hd_destinationDomain h"
    "u32 m 140 = hd_minFinalityThreshold h" "u32 m 144 = hd_finalityThresholdExecuted h"
    using w len by (simp_all add: u32_be_nat) (simp_all add: s be_nat_be_bytes_4)
  moreover have "js_slice m 12 44 = nonce" "js_slice m 44 76 = hd_sender h"
    "js_slice m 76 108 = hd_recipient h" "js_slice m 108 140 = hd_destinationCaller h"
    using w by (simp_all add: s)
  ultimately show ?thesis using w by simp
qed

lemma parse_message:
  assumes "wf_header h nonce" and "wf_body b"
  shows "parseCctpMessage (bytesToHex (encodeHeader h nonce @ encodeBody b)) = Inr (h, b)"
proof -
  have "drop HEADER_BYTES (encodeHeader h nonce @ encodeBody b) = encodeBody b"
    using length_encode(1) [OF assms(1)] by (simp add: HEADER_BYTES_def)
  then show ?thesis
    using length_encode(1) [OF assms(1)] parse_encodeHeader [OF assms(1), of "encodeBody b"]
      parse_encodeBody [OF assms(2)]
    by (simp add: parseCctpMessage_def hexToBytes_bytesToHex HEADER_BYTES_def)
qed

lemma hook_parse:
  assumes "assertStellarAddress sk r = Inr ()" and "length r < 2 ^ 32"
  shows "\<exists>out. buildForwarderHookData sk r p = Inr out \<and> take 24 out = replicate 24 0 \<and>
    parseForwarderHookData sk out =
      Inr \<lparr>hk_version = 0, hk_forwardRecipient = r, hk_payload = p\<rparr>"
proof -
  define out where "out = replicate 24 0 @ be_bytes 4 0 @ be_bytes 4 (length r) @ text_encode r @ p"
  have "buildForwarderHookData sk r p = Inr out"
    using assms(1)
    by (simp add: buildForwarderHookData_def Let_def set_bytes_def out_def HOOK_HEADER_BYTES_def
        HOOK_MAGIC_BYTES_def HOOK_VERSION_def)
  moreover have "be_nat (be_bytes 4 (length r)) = length r" using assms(2) by (rule be_nat_be_bytes_4)
  then have "parseForwarderHookData sk out =
      Inr \<lparr>hk_version = 0, hk_forwardRecipient = r, hk_payload = p\<rparr>"
    using assms(1)
    by (simp add: parseForwarderHookData_def out_def js_slice_def HOOK_HEADER_BYTES_def
        HOOK_MAGIC_BYTES_def Let_def be_nat_be_bytes)
  ultimately show ?thesis by (simp add: out_def)
qed

section \<open>Properties\<close>

text \<open>
  C33. Parsing inverts the message layout: every well-formed header and burn body,
  encoded in the 148 + 228 byte layout and sent as hexadecimal text, is parsed back
  field by field, the nonce as its hexadecimal text. In particular no 32-bit field
  comes out negative and no 256-bit amount loses precision.
\<close>

theorem parseCctpMessage_roundtrip:
  assumes "wf_header h nonce" and "wf_body b"
  shows "parseCctpMessage (bytesToHex (encodeHeader h nonce @ encodeBody b)) = Inr (h, b)"
  using assms by (rule parse_message)

definition example_body :: CctpBurnBody where
  "example_body = \<lparr>bd_version = 1, bd_burnToken = replicate 32 1, bd_mintRecipient = replicate 32 2,
     bd_amount = 5000000, bd_messageSender = replicate 32 3, bd_maxFee = 0, bd_feeExecuted = 0,
     bd_expirationBlock = 0, bd_hookData = []\<rparr>"

definition example_header :: CctpMessageHeader where
  "example_header = \<lparr>hd_version = 1, hd_sourceDomain = 6, hd_destinationDomain = 27,
     hd_nonce = bytesToHex (replicate 32 7), hd_sender = replicate 32 4,
     hd_recipient = replicate 32 5, hd_destinationCaller = replicate 32 2,
     hd_minFinalityThreshold = 2000, hd_finalityThresholdExecuted = 4294967295\<rparr>"

theorem parseCctpMessage_roundtrip_witness:
  "parseCctpMessage (bytesToHex (encodeHeader example_header (replicate 32 7) @ encodeBody example_body))
     = Inr (example_header, example_body)"
  by (rule parseCctpMessage_roundtrip)
    (simp_all add: wf_header_def wf_body_def example_header_def example_body_def)

text \<open>
  Hook data round trip: for a recipient that the SDK accepts, the built hook data
  has 32 bytes of header with 24 zero bytes in front, and parsing it returns the same
  recipient and payload.
\<close>

theorem forwarderHookData_roundtrip:
  assumes "assertStellarAddress sk r = Inr ()" and "length r < 2 ^ 32"
  shows "\<exists>out. buildForwarderHookData sk r p = Inr out \<and> take 24 out = replicate 24 0 \<and>
    parseForwarderHookData sk out =
      Inr \<lparr>hk_version = 0, hk_forwardRecipient = r, hk_payload = p\<rparr>"
  using assms by (rule hook_parse)

definition example_strkey :: StrKey where
  "example_strkey = \<lparr>isValidEd25519PublicKey = isValidStellarPublicKey,
     isValidContract = (\<lambda>s. s \<in> {''CFORWARDER'', ''CRELAYER''}), isValidMed25519PublicKey = (\<lambda>_. False),
     decodeContract = (\<lambda>_. replicate 32 2)\<rparr>"

theorem forwarderHookData_roundtrip_witness:
  "\<exists>out. buildForwarderHookData example_strkey ''CFORWARDER'' [1, 2] = Inr out \<and>
    take 24 out = replicate 24 0 \<and>
    parseForwarderHookData example_strkey out =
      Inr \<lparr>hk_version = 0, hk_forwardRecipient = ''CFORWARDER'', hk_payload = [1, 2]\<rparr>"
  by (rule forwarderHookData_roundtrip) (simp_all add: assertStellarAddress_def example_strkey_def)

end
