(* ===== verification/Auth.thy ===== *)
theory Auth
  imports Service Cctp_Message
begin

text \<open>
  Authentication (\<open>backend/src/auth\<close>): one-time nonces, login by a signed SIWE message or
  by a Stellar signed message, access tokens, their refresh, their validation through a
  cache, the clean-up job and the guards.

  The state is the two tables, the cache, the clock and the number of random draws. Parsing
  and verification of signatures, hashing, base64 and random bytes are third-party code:
  fields of \<open>AuthPorts\<close>. The cache store is one too; \<open>cache_contract\<close> is its documented
  behaviour: an entry lives for its time to live, and without end when that is zero.
\<close>

named_theorems auth_simps \<open>evaluation of the authentication handlers\<close>

section \<open>State and ports\<close>

record SiweNonce =
  nonce_id :: nat
  nonce_value :: string
  nonce_used :: bool
  nonce_expiresAt :: int

record AccessToken =
  tok_id :: nat
  tok_value :: string
  tok_wallet :: string
  tok_revokedAt :: "int option"
  tok_expiresAt :: "int option"

text \<open>What the service stores in the cache: a validated token's wallet, or the mark of a used nonce.\<close>

datatype cache_value = TokenCacheEntry string | UsedMark

text \<open>The store behind the cache: a key, a value, its time to live and the time of the call.\<close>

record 'k CacheStore =
  cache_get :: "string \<Rightarrow> int \<Rightarrow> 'k \<Rightarrow> cache_value option"
  cache_set :: "string \<Rightarrow> cache_value \<Rightarrow> int \<Rightarrow> int \<Rightarrow> 'k \<Rightarrow> 'k"
  cache_del :: "string \<Rightarrow> 'k \<Rightarrow> 'k"

definition cache_contract :: "'k CacheStore \<Rightarrow> bool" where
  "cache_contract C \<longleftrightarrow>
     (\<forall>k v ttl t c k' t'. 0 \<le> ttl \<longrightarrow> t \<le> t' \<longrightarrow>
        cache_get C k' t' (cache_set C k v ttl t c) =
          (if k' = k then if ttl = 0 \<or> t' \<le> t + ttl then Some v else None else cache_get C k' t' c)) \<and>
     (\<forall>k c k' t'. cache_get C k' t' (cache_del C k c) = (if k' = k then None else cache_get C k' t' c))"

text \<open>
  A parsed SIWE message. Its fields may be absent; \<open>issuedAt\<close> is a date, and a date may be
  invalid (\<open>Some None\<close>).
\<close>

record SiweMessage =
  sm_address :: "string option"
  sm_nonce :: "string option"
  sm_chainId :: "int option"
  sm_domain :: "string option"
  sm_issuedAt :: "int option option"

record ChainConfig =
  cc_id :: int
  cc_name :: string
  cc_network :: string
  cc_currencyName :: string
  cc_symbol :: string
  cc_decimals :: nat
  cc_defaultHttp :: "string list"
  cc_publicHttp :: "string list"

record 'x AuthPorts =
  parseSiweMessage :: "string \<Rightarrow> (http_error, SiweMessage) result"
  verifySiweMessage :: "ChainConfig \<Rightarrow> string \<Rightarrow> string \<Rightarrow> string option \<Rightarrow> int \<Rightarrow> 'x \<Rightarrow> (http_error, bool) result"
  verifyMessage :: "ChainConfig \<Rightarrow> string option \<Rightarrow> string \<Rightarrow> string \<Rightarrow> 'x \<Rightarrow> (http_error, bool) result"
  recoverMessageAddress :: "string \<Rightarrow> string \<Rightarrow> (http_error, string) result"
  verifyEd25519 :: "bytes \<Rightarrow> bytes \<Rightarrow> bytes \<Rightarrow> (http_error, bool) result"
  sha256 :: "bytes \<Rightarrow> bytes"
  base64_decode :: "string \<Rightarrow> bytes"
  randomBytes :: "nat \<Rightarrow> nat \<Rightarrow> bytes"

record ('x, 'k) auth =
  siwe_nonces :: "SiweNonce list"
  access_tokens :: "AccessToken list"
  auth_cache :: 'k
  auth_chain :: 'x
  auth_now :: int
  auth_draws :: nat

type_synonym ('x, 'k, 'a) auth_svc = "(('x, 'k) auth, 'a) svc"

section \<open>Helpers\<close>

definition base_chain :: ChainConfig where
  "base_chain = \<lparr>cc_id = 8453, cc_name = ''Base'', cc_network = ''base'', cc_currencyName = ''Ether'',
     cc_symbol = ''ETH'', cc_decimals = 18, cc_defaultHttp = [''https://mainnet.base.org''],
     cc_publicHttp = [''https://mainnet.base.org'']\<rparr>"

definition celo_chain :: ChainConfig where
  "celo_chain = \<lparr>cc_id = 42220, cc_name = ''Celo'', cc_network = ''celo'', cc_currencyName = ''CELO'',
     cc_symbol = ''CELO'', cc_decimals = 18, cc_defaultHttp = [''https://forno.celo.org''],
     cc_publicHttp = [''https://forno.celo.org'']\<rparr>"

definition getChainConfig :: "int \<Rightarrow> ChainConfig" where
  "getChainConfig chainId =
     (if chainId = 8453 then base_chain else if chainId = 42220 then celo_chain else base_chain)"

definition ends_with :: "string \<Rightarrow> string \<Rightarrow> bool" where
  "ends_with s p = starts_with (rev s) (rev p)"

definition isLemonDomain :: "string \<Rightarrow> bool" where
  "isLemonDomain domain =
     (let d = to_lower domain in
      ends_with d ''.lemoncash.com.ar'' \<or> d = ''lemoncash.com.ar'' \<or> ends_with d ''.lemon.me'' \<or> d = ''lemon.me'')"

fun includes_str :: "string \<Rightarrow> string \<Rightarrow> bool" where
  "includes_str [] p = (p = [])"
| "includes_str (c # cs) p = (starts_with (c # cs) p \<or> includes_str cs p)"

text \<open>\<open>Buffer.toString('hex')\<close>.\<close>

definition hex_of :: "bytes \<Rightarrow> string" where
  "hex_of bs = concat (map (\<lambda>b. [hex_digit (unat b div 16), hex_digit (unat b mod 16)]) bs)"

definition draw_hex :: "'x AuthPorts \<Rightarrow> nat \<Rightarrow> ('x, 'k, string) auth_svc" where
  "draw_hex P n = (\<lambda>s. (Inr (hex_of (randomBytes P n (auth_draws s))), s\<lparr>auth_draws := auth_draws s + 1\<rparr>))"

text \<open>The unique indexes on the two tables refuse a second row with the same value.\<close>

definition insert_nonce :: "SiweNonce \<Rightarrow> ('x, 'k, unit) auth_svc" where
  "insert_nonce n = (\<lambda>s.
     if list_ex (\<lambda>m. nonce_value m = nonce_value n) (siwe_nonces s) then (Inl unique_violation, s)
     else (Inr (), s\<lparr>siwe_nonces := siwe_nonces s @ [n\<lparr>nonce_id := fresh_id nonce_id (siwe_nonces s)\<rparr>]\<rparr>))"

definition save_nonce :: "SiweNonce \<Rightarrow> ('x, 'k, unit) auth_svc" where
  "save_nonce n = smod (\<lambda>s. s\<lparr>siwe_nonces := put_row nonce_id n (siwe_nonces s)\<rparr>)"

definition insert_token :: "AccessToken \<Rightarrow> ('x, 'k, unit) auth_svc" where
  "insert_token r = (\<lambda>s.
     if list_ex (\<lambda>m. tok_value m = tok_value r) (access_tokens s) then (Inl unique_violation, s)
     else (Inr (), s\<lparr>access_tokens := access_tokens s @ [r\<lparr>tok_id := fresh_id tok_id (access_tokens s)\<rparr>]\<rparr>))"

definition cached :: "'k CacheStore \<Rightarrow> string \<Rightarrow> ('x, 'k, cache_value option) auth_svc" where
  "cached C key = sget (\<lambda>s. cache_get C key (auth_now s) (auth_cache s))"

definition cache_put :: "'k CacheStore \<Rightarrow> string \<Rightarrow> cache_value \<Rightarrow> int \<Rightarrow> ('x, 'k, unit) auth_svc" where
  "cache_put C key v ttl = smod (\<lambda>s. s\<lparr>auth_cache := cache_set C key v ttl (auth_now s) (auth_cache s)\<rparr>)"

definition cache_evict :: "'k CacheStore \<Rightarrow> string \<Rightarrow> ('x, 'k, unit) auth_svc" where
  "cache_evict C key = smod (\<lambda>s. s\<lparr>auth_cache := cache_del C key (auth_cache s)\<rparr>)"

text \<open>An external check: it reads the chain and the clock and changes nothing.\<close>

definition checked :: "('x \<Rightarrow> int \<Rightarrow> (http_error, bool) result) \<Rightarrow> ('x, 'k, bool) auth_svc" where
  "checked p = scatch (\<lambda>s. (p (auth_chain s) (auth_now s), s)) (\<lambda>_. sret False)"

section \<open>Nonces and tokens\<close>

definition createNonce :: "'x AuthPorts \<Rightarrow> ('x, 'k, string) auth_svc" where
  "createNonce P =
     sbind (draw_hex P 16) (\<lambda>v.
     sbind (sget auth_now) (\<lambda>t.
     sbind (insert_nonce \<lparr>nonce_id = 0, nonce_value = v, nonce_used = False, nonce_expiresAt = t + 10 * 60 * 1000\<rparr>) (\<lambda>_.
     sret v)))"

definition createAccessToken :: "'x AuthPorts \<Rightarrow> string \<Rightarrow> ('x, 'k, string) auth_svc" where
  "createAccessToken P wallet =
     sbind (draw_hex P 24) (\<lambda>v.
     sbind (sget auth_now) (\<lambda>t.
     sbind (slift (normalizeWallet wallet)) (\<lambda>w.
     sbind (insert_token \<lparr>tok_id = 0, tok_value = v, tok_wallet = w, tok_revokedAt = None,
              tok_expiresAt = Some (t + 60 * 60 * 1000)\<rparr>) (\<lambda>_.
     sret v))))"

definition live_nonce :: "string \<Rightarrow> int \<Rightarrow> SiweNonce list \<Rightarrow> SiweNonce option" where
  "live_nonce v t rows = find (\<lambda>n. nonce_value n = v \<and> \<not> nonce_used n \<and> t < nonce_expiresAt n) rows"

section \<open>Login with a SIWE message\<close>

record VerifyInput =
  in_wallet :: string
  in_signature :: string
  in_message :: string
  in_nonce :: string

record AuthResult =
  res_wallet :: string
  res_token :: string

text \<open>\<open>parsed\<close> with the values the service reads from it.\<close>

definition siwe_address :: "SiweMessage \<Rightarrow> string option" where
  "siwe_address m = map_option to_lower (sm_address m)"

definition siwe_lemon :: "SiweMessage \<Rightarrow> bool" where
  "siwe_lemon m = isLemonDomain (nullish (sm_domain m) [])"

definition replayKey :: "string \<Rightarrow> string \<Rightarrow> string" where
  "replayKey n address = ''siwe:lemon:'' @ n @ '':'' @ to_lower address"

definition type_error :: http_error where
  "type_error = RuntimeError ''Cannot read properties of undefined''"

text \<open>Steps 1 and 2: the message is parsed and its nonce is checked, in the table or in the cache.\<close>

definition siwe_check :: "'x AuthPorts \<Rightarrow> 'k CacheStore \<Rightarrow> VerifyInput \<Rightarrow>
    ('x, 'k, SiweMessage \<times> string \<times> SiweNonce option) auth_svc" where
  "siwe_check P C input =
     (case parseSiweMessage P (in_message input) of
        Inl _ \<Rightarrow> sthrow (Unauthorized ''Invalid SIWE message'')
      | Inr parsed \<Rightarrow>
          if falsy_str (sm_nonce parsed) then sthrow (Unauthorized ''Missing nonce in SIWE message'')
          else
            let n = the (sm_nonce parsed) in
            if \<not> siwe_lemon parsed then
              sbind (sget (\<lambda>s. live_nonce n (auth_now s) (siwe_nonces s))) (\<lambda>stored.
              if stored = None then sthrow (Unauthorized ''Invalid or expired nonce'')
              else sret (parsed, n, stored))
            else
              case siwe_address parsed of
                None \<Rightarrow> sthrow type_error
              | Some address \<Rightarrow>
                  sbind (cached C (replayKey n address)) (\<lambda>alreadyUsed.
                  if alreadyUsed \<noteq> None then sthrow (Unauthorized ''Nonce already used'')
                  else sret (parsed, n, None)))"

definition is_plain_ecdsa :: "string \<Rightarrow> bool" where
  "is_plain_ecdsa signature = (starts_with signature ''0x'' \<and> length signature = 132)"

definition looks_like_6492 :: "string \<Rightarrow> bool" where
  "looks_like_6492 signature = (starts_with signature ''0x'' \<and> 132 < length signature)"

text \<open>\<open>!issuedAt || now - issuedAt > MAX_AGE_MS\<close>; the comparison with an invalid date is false.\<close>

definition message_too_old :: "SiweMessage \<Rightarrow> int \<Rightarrow> bool" where
  "message_too_old m t =
     (case sm_issuedAt m of
        None \<Rightarrow> True
      | Some None \<Rightarrow> False
      | Some (Some issued) \<Rightarrow> t - issued > 5 * 60 * 1000)"

definition recovers :: "'x AuthPorts \<Rightarrow> string \<Rightarrow> string \<Rightarrow> string option \<Rightarrow> bool" where
  "recovers P message signature address =
     (case recoverMessageAddress P message signature of
        Inl _ \<Rightarrow> False
      | Inr recovered \<Rightarrow> Some (to_lower recovered) = address)"

text \<open>Steps 3 and 4: the chain of the message, and its signature.\<close>

definition siwe_signature :: "'x AuthPorts \<Rightarrow> VerifyInput \<Rightarrow> SiweMessage \<Rightarrow> ('x, 'k, bool) auth_svc" where
  "siwe_signature P input parsed =
     (let address = siwe_address parsed;
          cfg = getChainConfig (nullish (sm_chainId parsed) 0);
          message = in_message input;
          signature = in_signature input
      in sbind (checked (\<lambda>x t. verifySiweMessage P cfg message signature address t x)) (\<lambda>ok.
         if ok then sret True
         else if is_plain_ecdsa signature then sret (recovers P message signature address)
         else if looks_like_6492 signature \<and> siwe_lemon parsed then
           sbind (sget auth_now) (\<lambda>t.
           if message_too_old parsed t then sthrow (Unauthorized ''Message expired'')
           else checked (\<lambda>x _. verifyMessage P cfg address message signature x))
         else sret False))"

text \<open>Step 5: the nonce is marked as used.\<close>

definition siwe_consume :: "'k CacheStore \<Rightarrow> SiweMessage \<Rightarrow> string \<Rightarrow> SiweNonce option \<Rightarrow> ('x, 'k, unit) auth_svc" where
  "siwe_consume C parsed n stored =
     (if \<not> siwe_lemon parsed then
        (case stored of None \<Rightarrow> sret () | Some row \<Rightarrow> save_nonce (row\<lparr>nonce_used := True\<rparr>))
      else
        sbind (sget (\<lambda>s. find (\<lambda>m. nonce_value m = n) (siwe_nonces s))) (\<lambda>lemonNonce.
        sbind (case lemonNonce of
                 None \<Rightarrow> sret ()
               | Some row \<Rightarrow> swhen (\<not> nonce_used row) (save_nonce (row\<lparr>nonce_used := True\<rparr>))) (\<lambda>_.
        cache_put C (replayKey n (nullish (siwe_address parsed) [])) UsedMark (10 * 60 * 1000))))"

text \<open>Steps 4 to 6, after the nonce was read: other requests may run before them.\<close>

definition siwe_issue :: "'x AuthPorts \<Rightarrow> 'k CacheStore \<Rightarrow> VerifyInput \<Rightarrow> SiweMessage \<times> string \<times> SiweNonce option \<Rightarrow>
    ('x, 'k, AuthResult) auth_svc" where
  "siwe_issue P C input = (\<lambda>(parsed, n, stored).
     sbind (siwe_signature P input parsed) (\<lambda>isValid.
     if \<not> isValid then sthrow (Unauthorized ''Invalid SIWE signature'')
     else
       sbind (siwe_consume C parsed n stored) (\<lambda>_.
       let address = nullish (siwe_address parsed) []
       in sbind (createAccessToken P address) (\<lambda>v.
          sret \<lparr>res_wallet = address, res_token = v\<rparr>))))"

definition verifySiweAndIssueToken :: "'x AuthPorts \<Rightarrow> 'k CacheStore \<Rightarrow> VerifyInput \<Rightarrow> ('x, 'k, AuthResult) auth_svc" where
  "verifySiweAndIssueToken P C input = sbind (siwe_check P C input) (siwe_issue P C input)"

section \<open>Login with a Stellar message\<close>

definition stellar_check :: "VerifyInput \<Rightarrow> ('x, 'k, string \<times> SiweNonce) auth_svc" where
  "stellar_check input =
     sbind (slift (normalizeWallet (in_wallet input))) (\<lambda>wallet.
     sbind (sget (\<lambda>s. live_nonce (in_nonce input) (auth_now s) (siwe_nonces s))) (\<lambda>found.
     case found of
       None \<Rightarrow> sthrow (Unauthorized ''Invalid or expired nonce'')
     | Some stored \<Rightarrow>
         let decodedMessage = text_decode (text_encode (in_message input)) in
         if \<not> includes_str decodedMessage (in_nonce input)
         then sthrow (Unauthorized ''Signed message nonce mismatch'')
         else sret (wallet, stored)))"

definition stellar_signature :: "'x AuthPorts \<Rightarrow> VerifyInput \<Rightarrow> string \<Rightarrow> bool" where
  "stellar_signature P input wallet =
     (let sep53MessageHash = sha256 P (text_encode (''Stellar Signed Message:'' @ [CHR 0x0A]) @ text_encode (in_message input))
      in case decodeStellarPublicKey wallet of
           Inl _ \<Rightarrow> False
         | Inr key \<Rightarrow>
             (case verifyEd25519 P (base64_decode P (in_signature input)) sep53MessageHash key of
                Inl _ \<Rightarrow> False
              | Inr b \<Rightarrow> b))"

definition stellar_issue :: "'x AuthPorts \<Rightarrow> VerifyInput \<Rightarrow> string \<times> SiweNonce \<Rightarrow> ('x, 'k, AuthResult) auth_svc" where
  "stellar_issue P input = (\<lambda>(wallet, stored).
     if \<not> stellar_signature P input wallet then sthrow (Unauthorized ''Invalid Stellar signature'')
     else
       sbind (save_nonce (stored\<lparr>nonce_used := True\<rparr>)) (\<lambda>_.
       sbind (createAccessToken P wallet) (\<lambda>v.
       sret \<lparr>res_wallet = wallet, res_token = v\<rparr>)))"

definition verifyStellarAndIssueToken :: "'x AuthPorts \<Rightarrow> VerifyInput \<Rightarrow> ('x, 'k, AuthResult) auth_svc" where
  "verifyStellarAndIssueToken P input = sbind (stellar_check input) (stellar_issue P input)"

section \<open>Refresh, validation, clean-up\<close>

definition token_row :: "string \<Rightarrow> ('x, 'k) auth \<Rightarrow> AccessToken option" where
  "token_row v s = find (\<lambda>r. tok_value r = v) (access_tokens s)"

definition token_key :: "string \<Rightarrow> string" where "token_key v = ''token:'' @ v"

definition GRACE_MS :: int where "GRACE_MS = 15 * 60 * 1000"

definition refresh_check :: "string \<Rightarrow> ('x, 'k, AccessToken) auth_svc" where
  "refresh_check currentToken =
     sbind (sget (\<lambda>s. (token_row currentToken s, auth_now s))) (\<lambda>(found, t).
     case found of
       None \<Rightarrow> sthrow (Unauthorized ''Invalid token'')
     | Some r \<Rightarrow>
         if tok_revokedAt r \<noteq> None then sthrow (Unauthorized ''Token revoked'')
         else if (case tok_expiresAt r of None \<Rightarrow> False | Some e \<Rightarrow> e + GRACE_MS < t)
         then sthrow (Unauthorized ''Token expired beyond refresh window'')
         else sret r)"

text \<open>The conditional update: how many rows it changed, and the table after it.\<close>

definition revoke_row :: "nat \<Rightarrow> ('x, 'k, nat) auth_svc" where
  "revoke_row i = (\<lambda>s.
     let hit = (\<lambda>r. tok_id r = i \<and> tok_revokedAt r = None)
     in (Inr (length (filter hit (access_tokens s))),
         s\<lparr>access_tokens := map (\<lambda>r. if hit r then r\<lparr>tok_revokedAt := Some (auth_now s)\<rparr> else r) (access_tokens s)\<rparr>))"

definition refresh_issue :: "'x AuthPorts \<Rightarrow> 'k CacheStore \<Rightarrow> string \<Rightarrow> AccessToken \<Rightarrow> ('x, 'k, AuthResult) auth_svc" where
  "refresh_issue P C currentToken r =
     sbind (revoke_row (tok_id r)) (\<lambda>affected.
     if affected = 0 then sthrow (Unauthorized ''Token already revoked'')
     else
       sbind (cache_evict C (token_key currentToken)) (\<lambda>_.
       sbind (createAccessToken P (tok_wallet r)) (\<lambda>v.
       sret \<lparr>res_wallet = tok_wallet r, res_token = v\<rparr>)))"

definition refreshToken :: "'x AuthPorts \<Rightarrow> 'k CacheStore \<Rightarrow> string \<Rightarrow> ('x, 'k, AuthResult) auth_svc" where
  "refreshToken P C currentToken = sbind (refresh_check currentToken) (refresh_issue P C currentToken)"

definition token_ttl :: "AccessToken \<Rightarrow> int \<Rightarrow> int" where
  "token_ttl r t = min (case tok_expiresAt r of None \<Rightarrow> 10000 | Some e \<Rightarrow> max 0 (e - t)) 10000"

text \<open>The lookup in the table after a cache miss; a valid token is cached for at most ten seconds.\<close>

definition validate_miss :: "'k CacheStore \<Rightarrow> string \<Rightarrow> ('x, 'k, string) auth_svc" where
  "validate_miss C v =
     sbind (sget (\<lambda>s. (token_row v s, auth_now s))) (\<lambda>(found, t).
     case found of
       None \<Rightarrow> sthrow (Unauthorized ''Invalid or expired token'')
     | Some r \<Rightarrow>
         if (case tok_expiresAt r of None \<Rightarrow> False | Some e \<Rightarrow> e < t) then sthrow (Unauthorized ''Invalid or expired token'')
         else if tok_revokedAt r \<noteq> None then sthrow (Unauthorized ''Invalid or expired token'')
         else sbind (cache_put C (token_key v) (TokenCacheEntry (tok_wallet r)) (token_ttl r t)) (\<lambda>_.
              sret (tok_wallet r)))"

text \<open>The keys of used-nonce marks are no token keys, so a mark is never found here.\<close>

definition validateToken :: "'k CacheStore \<Rightarrow> string \<Rightarrow> ('x, 'k, string) auth_svc" where
  "validateToken C v =
     sbind (cached C (token_key v)) (\<lambda>hit.
     case hit of Some (TokenCacheEntry w) \<Rightarrow> sret w | _ \<Rightarrow> validate_miss C v)"

definition cleanupExpiredAuth :: "('x, 'k, unit) auth_svc" where
  "cleanupExpiredAuth =
     smod (\<lambda>s. s\<lparr>siwe_nonces := filter (\<lambda>n. \<not> nonce_expiresAt n < auth_now s) (siwe_nonces s),
       access_tokens := filter (\<lambda>r. \<not> ((case tok_expiresAt r of None \<Rightarrow> False | Some e \<Rightarrow> e < auth_now s - GRACE_MS) \<or>
          tok_revokedAt r \<noteq> None)) (access_tokens s)\<rparr>)"

section \<open>Guards\<close>

definition bearer :: "string option \<Rightarrow> string option" where
  "bearer header =
     (case header of
        None \<Rightarrow> None
      | Some h \<Rightarrow> if starts_with h ''Bearer '' then Some (js_trim (drop 7 h)) else None)"

definition AccessTokenGuard :: "'k CacheStore \<Rightarrow> string option \<Rightarrow> ('x, 'k, string) auth_svc" where
  "AccessTokenGuard C header =
     (case bearer header of
        None \<Rightarrow> sthrow (Unauthorized ''Missing or invalid Authorization header'')
      | Some v \<Rightarrow> if v = [] then sthrow (Unauthorized ''Empty bearer token'') else validateToken C v)"

definition auth_refresh :: "'x AuthPorts \<Rightarrow> 'k CacheStore \<Rightarrow> string option \<Rightarrow> ('x, 'k, AuthResult) auth_svc" where
  "auth_refresh P C header =
     (case bearer header of
        None \<Rightarrow> sthrow (Unauthorized ''Missing Authorization header'')
      | Some v \<Rightarrow> refreshToken P C v)"

definition normalizeAdminWallet :: "string \<Rightarrow> string" where
  "normalizeAdminWallet w = (case normalizeWallet w of Inl _ \<Rightarrow> to_lower (js_trim w) | Inr n \<Rightarrow> n)"

definition is_quote :: "char \<Rightarrow> bool" where
  "is_quote c = (c = CHR 0x22 \<or> c = CHR 0x27)"

definition strip_quotes :: "string \<Rightarrow> string" where
  "strip_quotes s =
     (let a = (if s \<noteq> [] \<and> is_quote (hd s) then tl s else s)
      in if a \<noteq> [] \<and> is_quote (last a) then butlast a else a)"

definition parseAdminWallets :: "string option \<Rightarrow> string list" where
  "parseAdminWallets raw =
     (if falsy_str raw then []
      else map normalizeAdminWallet (filter (\<lambda>s. s \<noteq> []) (map js_trim (split_on (CHR '','') (strip_quotes (the raw))))))"

definition AdminGuard :: "string option \<Rightarrow> string option \<Rightarrow> (http_error, unit) result" where
  "AdminGuard ADMIN_WALLETS walletAddr =
     (if falsy_str walletAddr then Inl (Forbidden ''Admin access required'')
      else
        let w = normalizeAdminWallet (the walletAddr) in
        if w = [] then Inl (Forbidden ''Admin access required'')
        else if w \<notin> set (parseAdminWallets ADMIN_WALLETS) then Inl (Forbidden ''Admin access required'')
        else Inr ())"

definition ApiKeyGuard :: "string option \<Rightarrow> string option \<Rightarrow> (http_error, unit) result" where
  "ApiKeyGuard RISK_API_KEY provided =
     (if falsy_str RISK_API_KEY then Inl (Unauthorized ''RISK_API_KEY is not configured'')
      else if falsy_str provided \<or> provided \<noteq> RISK_API_KEY then Inl (Unauthorized ''Invalid or missing API key'')
      else Inr ())"

definition assertWalletOwnership :: "string \<Rightarrow> string \<Rightarrow> (http_error, unit) result" where
  "assertWalletOwnership callerWallet requestedWallet =
     rbind (normalizeWallet callerWallet) (\<lambda>a.
     rbind (normalizeWallet requestedWallet) (\<lambda>b.
     if a \<noteq> b then Inl (Forbidden ''Cannot operate on another user's wallet'') else Inr ()))"

section \<open>Evaluation\<close>

definition new_token :: "string \<Rightarrow> string \<Rightarrow> ('x, 'k) auth \<Rightarrow> AccessToken" where
  "new_token v w s = \<lparr>tok_id = fresh_id tok_id (access_tokens s), tok_value = v, tok_wallet = w, tok_revokedAt = None,
     tok_expiresAt = Some (auth_now s + 60 * 60 * 1000)\<rparr>"

definition drawn_token :: "'x AuthPorts \<Rightarrow> ('x, 'k) auth \<Rightarrow> string" where
  "drawn_token P s = hex_of (randomBytes P 24 (auth_draws s))"

lemma createAccessToken_run [auth_simps]:
  "createAccessToken P w s =
     (case normalizeWallet w of
        Inl e \<Rightarrow> (Inl e, s\<lparr>auth_draws := auth_draws s + 1\<rparr>)
      | Inr n \<Rightarrow>
          if drawn_token P s \<in> tok_value ` set (access_tokens s)
          then (Inl unique_violation, s\<lparr>auth_draws := auth_draws s + 1\<rparr>)
          else (Inr (drawn_token P s), s\<lparr>auth_draws := auth_draws s + 1,
                  access_tokens := access_tokens s @ [new_token (drawn_token P s) n s]\<rparr>))"
  by (auto simp: createAccessToken_def sbind_def draw_hex_def svc_simps slift_def insert_token_def list_ex_iff
      new_token_def drawn_token_def split: sum.split) (metis image_eqI)

lemma createAccessToken_Inr:
  assumes "createAccessToken P w s = (Inr v, s')" "normalizeWallet w = Inr n"
  shows "v = drawn_token P s" "v \<notin> tok_value ` set (access_tokens s)"
    "s' = s\<lparr>auth_draws := auth_draws s + 1, access_tokens := access_tokens s @ [new_token v n s]\<rparr>"
  using assms by (auto simp: auth_simps split: if_splits)

lemma checked_run [auth_simps]:
  "checked p s = (Inr (p (auth_chain s) (auth_now s) = Inr True), s)"
  by (cases "p (auth_chain s) (auth_now s)") (auto simp: checked_def scatch_def svc_simps)

lemma sbind_checked [auth_simps]:
  "sbind (checked p) f s = f (p (auth_chain s) (auth_now s) = Inr True) s"
  by (simp add: sbind_def checked_run)

lemma sbind_cached [auth_simps]:
  "sbind (cached C key) f s = f (cache_get C key (auth_now s) (auth_cache s)) s"
  by (simp add: cached_def sbind_get)

lemma live_nonce_Some:
  "live_nonce v t rows = Some n \<Longrightarrow> n \<in> set rows \<and> nonce_value n = v \<and> \<not> nonce_used n \<and> t < nonce_expiresAt n"
  unfolding live_nonce_def using find_cond by fastforce

text \<open>What proves that the holder of the wallet signed a SIWE message.\<close>

definition siwe_signed :: "'x AuthPorts \<Rightarrow> VerifyInput \<Rightarrow> SiweMessage \<Rightarrow> 'x \<Rightarrow> int \<Rightarrow> bool" where
  "siwe_signed P i m x t \<longleftrightarrow>
     (let cfg = getChainConfig (nullish (sm_chainId m) 0); a = siwe_address m in
      verifySiweMessage P cfg (in_message i) (in_signature i) a t x = Inr True \<or>
      is_plain_ecdsa (in_signature i) \<and> recovers P (in_message i) (in_signature i) a \<or>
      looks_like_6492 (in_signature i) \<and> siwe_lemon m \<and> \<not> message_too_old m t \<and>
        verifyMessage P cfg a (in_message i) (in_signature i) x = Inr True)"

lemma siwe_signature_frame: "siwe_signature P i m s = (r, s') \<Longrightarrow> s' = s"
  by (auto simp: siwe_signature_def Let_def auth_simps svc_simps split: if_splits)

lemma siwe_signature_Inr:
  "siwe_signature P i m s = (Inr b, s') \<Longrightarrow> b \<longleftrightarrow> siwe_signed P i m (auth_chain s) (auth_now s)"
  by (auto simp: siwe_signature_def siwe_signed_def is_plain_ecdsa_def looks_like_6492_def Let_def auth_simps svc_simps
      split: if_splits)

lemma siwe_check_frame: "siwe_check P C i s = (r, s') \<Longrightarrow> s' = s"
  by (auto simp: siwe_check_def Let_def auth_simps svc_simps split: sum.splits if_splits option.splits)

lemma siwe_check_Inr:
  assumes "siwe_check P C i s = (Inr (m, n, stored), s')"
  shows "parseSiweMessage P (in_message i) = Inr m" "sm_nonce m = Some n" "n \<noteq> []"
    "\<not> siwe_lemon m \<Longrightarrow> stored = live_nonce n (auth_now s) (siwe_nonces s) \<and> stored \<noteq> None"
    "siwe_lemon m \<Longrightarrow> stored = None \<and> siwe_address m \<noteq> None \<and>
       cache_get C (replayKey n (the (siwe_address m))) (auth_now s) (auth_cache s) = None"
  using assms
  by (auto simp: siwe_check_def Let_def auth_simps svc_simps falsy_str_def split: sum.splits if_splits option.splits)

lemma stellar_check_frame: "stellar_check i s = (r, s') \<Longrightarrow> s' = s"
  by (auto simp: stellar_check_def Let_def svc_simps split: sum.splits if_splits option.splits)

lemma stellar_check_Inr:
  assumes "stellar_check i s = (Inr (w, n), s')"
  shows "normalizeWallet (in_wallet i) = Inr w" "includes_str (in_message i) (in_nonce i)"
    "live_nonce (in_nonce i) (auth_now s) (siwe_nonces s) = Some n"
  using assms
  by (auto simp: stellar_check_def Let_def svc_simps text_decode_encode split: sum.splits if_splits option.splits)

lemma save_nonce_run [auth_simps]:
  "save_nonce n s = (Inr (), s\<lparr>siwe_nonces := put_row nonce_id n (siwe_nonces s)\<rparr>)"
  by (simp add: save_nonce_def svc_simps)

lemma stellar_issue_run:
  assumes "stellar_issue P i (w, n) s = (Inr a, s')" and "normalizeWallet w = Inr w"
  shows "stellar_signature P i w \<and> res_wallet a = w \<and> res_token a = drawn_token P s \<and>
    res_token a \<notin> tok_value ` set (access_tokens s) \<and>
    s' = s\<lparr>siwe_nonces := put_row nonce_id (n\<lparr>nonce_used := True\<rparr>) (siwe_nonces s), auth_draws := auth_draws s + 1,
           access_tokens := access_tokens s @ [new_token (res_token a) w s]\<rparr>"
  using assms
  by (auto simp: stellar_issue_def auth_simps svc_simps sbind_def drawn_token_def new_token_def
      split: if_splits)

lemma siwe_consume_run:
  "siwe_consume C m n stored s = (Inr (), s\<lparr>siwe_nonces :=
     (if \<not> siwe_lemon m then (case stored of None \<Rightarrow> siwe_nonces s
        | Some row \<Rightarrow> put_row nonce_id (row\<lparr>nonce_used := True\<rparr>) (siwe_nonces s))
      else (case find (\<lambda>k. nonce_value k = n) (siwe_nonces s) of None \<Rightarrow> siwe_nonces s
        | Some row \<Rightarrow> if nonce_used row then siwe_nonces s else put_row nonce_id (row\<lparr>nonce_used := True\<rparr>) (siwe_nonces s))),
     auth_cache := (if siwe_lemon m then cache_set C (replayKey n (nullish (siwe_address m) [])) UsedMark (10 * 60 * 1000)
        (auth_now s) (auth_cache s) else auth_cache s)\<rparr>)"
  by (auto simp: siwe_consume_def auth_simps svc_simps sbind_def swhen_def cache_put_def split: option.split)

lemma normalizeWallet_empty: "normalizeWallet [] = Inl (BadRequest ''Invalid wallet address'')"
  by (simp add: normalizeWallet_def js_trim_def EVM_WALLET_ADDRESS_PATTERN_def isValidStellarPublicKey_def
      decodeStellarPublicKey_def decodeBase32_def)

lemma siwe_issue_run:
  assumes "siwe_issue P C i (m, n, stored) s = (Inr a, s')"
  obtains w where "siwe_signed P i m (auth_chain s) (auth_now s)" "siwe_address m = Some (res_wallet a)"
    "normalizeWallet (res_wallet a) = Inr w" "res_token a = drawn_token P s"
    "res_token a \<notin> tok_value ` set (access_tokens s)"
    "s' = snd (siwe_consume C m n stored s)\<lparr>auth_draws := auth_draws s + 1,
            access_tokens := access_tokens s @ [new_token (res_token a) w s]\<rparr>"
proof -
  have sig: "siwe_signature P i m s = (fst (siwe_signature P i m s), s)"
    by (metis prod.collapse siwe_signature_frame)
  obtain b where b: "siwe_signature P i m s = (Inr b, s)" "b"
    using assms sig by (cases "fst (siwe_signature P i m s)")
      (auto simp: siwe_issue_def sbind_def svc_simps split: if_splits)
  define u where "u = snd (siwe_consume C m n stored s)"
  have u: "siwe_consume C m n stored s = (Inr (), u)" "access_tokens u = access_tokens s" "auth_now u = auth_now s"
    "auth_draws u = auth_draws s"
    by (simp_all add: u_def siwe_consume_run)
  define ad where "ad = nullish (siwe_address m) []"
  from assms b u obtain v where v: "createAccessToken P ad u = (Inr v, s')" and a: "a = \<lparr>res_wallet = ad, res_token = v\<rparr>"
    by (cases "createAccessToken P ad u") (auto simp: siwe_issue_def sbind_def ad_def Let_def svc_simps split: sum.splits)
  then obtain w where w: "normalizeWallet ad = Inr w"
    by (cases "normalizeWallet ad") (auto simp: createAccessToken_run)
  then have "siwe_address m = Some ad"
    by (cases "siwe_address m") (auto simp: ad_def normalizeWallet_empty)
  moreover note createAccessToken_Inr [OF v w]
  ultimately show thesis
    using b(2) siwe_signature_Inr [OF b(1)] a w u
    by (intro that [of w]) (auto simp: u_def [symmetric] new_token_def drawn_token_def)
qed

lemma siwe_login_split:
  assumes "verifySiweAndIssueToken P C i s = (Inr a, s')"
  obtains m n stored where "siwe_check P C i s = (Inr (m, n, stored), s)" "siwe_issue P C i (m, n, stored) s = (Inr a, s')"
  using assms by (auto simp: verifySiweAndIssueToken_def sbind_Inr_iff) (metis siwe_check_frame)

lemma stellar_login_split:
  assumes "verifyStellarAndIssueToken P i s = (Inr a, s')"
  obtains w n where "stellar_check i s = (Inr (w, n), s)" "stellar_issue P i (w, n) s = (Inr a, s')"
  using assms by (auto simp: verifyStellarAndIssueToken_def sbind_Inr_iff) (metis stellar_check_frame)

text \<open>The nonce of a successful login: unmarked in the cache, or live in the table and marked by the login.\<close>

lemma siwe_login_nonce:
  assumes "verifySiweAndIssueToken P C i s = (Inr a, s')" and "parseSiweMessage P (in_message i) = Inr m"
  shows "\<exists>n. sm_nonce m = Some n \<and>
    (if siwe_lemon m then cache_get C (replayKey n (res_wallet a)) (auth_now s) (auth_cache s) = None
     else \<exists>row. live_nonce n (auth_now s) (siwe_nonces s) = Some row \<and>
       siwe_nonces s' = put_row nonce_id (row\<lparr>nonce_used := True\<rparr>) (siwe_nonces s))"
proof -
  obtain m' n stored where c: "siwe_check P C i s = (Inr (m', n, stored), s)"
      and r: "siwe_issue P C i (m', n, stored) s = (Inr a, s')"
    by (rule siwe_login_split [OF assms(1)])
  note q = siwe_check_Inr [OF c]
  have m: "m' = m" using q(1) assms(2) by simp
  from r obtain w where w: "siwe_address m = Some (res_wallet a)"
    "s' = snd (siwe_consume C m n stored s)\<lparr>auth_draws := auth_draws s + 1,
            access_tokens := access_tokens s @ [new_token (res_token a) w s]\<rparr>"
    unfolding m by (rule siwe_issue_run)
  then show ?thesis
    using q unfolding m by (cases "siwe_lemon m") (auto simp: siwe_consume_run)
qed

lemma stellar_login_nonce:
  assumes "verifyStellarAndIssueToken P i s = (Inr a, s')"
  shows "\<exists>row. live_nonce (in_nonce i) (auth_now s) (siwe_nonces s) = Some row \<and>
    siwe_nonces s' = put_row nonce_id (row\<lparr>nonce_used := True\<rparr>) (siwe_nonces s)"
proof -
  obtain w n where c: "stellar_check i s = (Inr (w, n), s)" and r: "stellar_issue P i (w, n) s = (Inr a, s')"
    by (rule stellar_login_split [OF assms])
  note q = stellar_check_Inr [OF c]
  from stellar_issue_run [OF r normalizeWallet_fixed [OF q(1)]] q(3) show ?thesis by auto
qed

section \<open>Refresh\<close>

lemma refresh_check_frame: "refresh_check v s = (r, s') \<Longrightarrow> s' = s"
  by (auto simp: refresh_check_def svc_simps split: option.splits if_splits)

lemma refresh_check_Inr:
  assumes "refresh_check v s = (Inr r, s')"
  shows "token_row v s = Some r" "tok_revokedAt r = None"
    "\<And>e. tok_expiresAt r = Some e \<Longrightarrow> auth_now s \<le> e + GRACE_MS"
  using assms by (auto simp: refresh_check_def svc_simps split: option.splits if_splits)

definition revoked :: "nat \<Rightarrow> int \<Rightarrow> AccessToken list \<Rightarrow> AccessToken list" where
  "revoked i t rows = map (\<lambda>r. if tok_id r = i \<and> tok_revokedAt r = None then r\<lparr>tok_revokedAt := Some t\<rparr> else r) rows"

lemma revoke_row_run [auth_simps]:
  "revoke_row i s = (Inr (length (filter (\<lambda>r. tok_id r = i \<and> tok_revokedAt r = None) (access_tokens s))),
     s\<lparr>access_tokens := revoked i (auth_now s) (access_tokens s)\<rparr>)"
  by (simp add: revoke_row_def revoked_def Let_def)

lemma revoked_none_left: "filter (\<lambda>r. tok_id r = i \<and> tok_revokedAt r = None) (revoked i t rows) = []"
  unfolding revoked_def by (induction rows) simp_all

lemma revoked_again: "revoked i t' (revoked i t rows) = revoked i t rows"
  unfolding revoked_def by (induction rows) simp_all

lemma revoked_values: "map tok_value (revoked i t rows) = map tok_value rows" "map tok_id (revoked i t rows) = map tok_id rows"
  unfolding revoked_def by (induction rows) simp_all

lemma refresh_issue_late:
  assumes "filter (\<lambda>r. tok_id r = tok_id x \<and> tok_revokedAt r = None) (access_tokens s) = []"
  shows "refresh_issue P C v x s = (Inl (Unauthorized ''Token already revoked''), s)"
proof -
  have "revoked (tok_id x) (auth_now s) (access_tokens s) = access_tokens s"
    unfolding revoked_def using assms by (induction "access_tokens s") (auto split: if_splits simp: filter_empty_conv intro!: map_idI)
  then show ?thesis using assms by (simp add: refresh_issue_def sbind_def auth_simps svc_simps)
qed

lemma refresh_issue_Inr:
  assumes "refresh_issue P C v x s = (Inr a, s')"
  obtains w where "normalizeWallet (tok_wallet x) = Inr w" "res_wallet a = tok_wallet x" "res_token a = drawn_token P s"
    "res_token a \<notin> tok_value ` set (access_tokens s)"
    "s' = s\<lparr>access_tokens := revoked (tok_id x) (auth_now s) (access_tokens s) @
              [new_token (res_token a) w (s\<lparr>access_tokens := revoked (tok_id x) (auth_now s) (access_tokens s)\<rparr>)],
            auth_cache := cache_del C (token_key v) (auth_cache s), auth_draws := auth_draws s + 1\<rparr>"
proof -
  have v: "tok_value ` set (revoked i t rows) = tok_value ` set rows" for i t rows
    by (metis revoked_values(1) set_map)
  show thesis
    using assms v
    by (auto simp: refresh_issue_def sbind_def auth_simps svc_simps cache_evict_def new_token_def drawn_token_def
        intro!: that split: if_splits sum.splits)
qed

end
