(* ===== verification/Auth_Sessions.thy ===== *)
theory Auth_Sessions
  imports Auth
begin

text \<open>
  Properties of authentication over runs: the cache in front of the token table is
  transparent, a nonce serves one login, a refresh works once; and four ways in which
  logins promise less than they seem to (concurrent use of a nonce, replay of a Lemon
  login, several wallets for one Stellar key, a token validated at the instant of its expiry).
\<close>

section \<open>Logins\<close>

text \<open>
  C18. A SIWE login that returns a token: the message names the wallet the token is for, its
  signature was verified for that wallet (by the SIWE check, by recovery of a plain
  signature, or, for a Lemon domain and a message that is not too old, by the smart-wallet
  check), and its nonce was live in the table and is now marked as used, or, for a Lemon
  domain, was not marked in the cache. Exactly one row is added: a fresh token for the
  normalised wallet that expires in one hour.
\<close>

theorem siwe_login_sound:
  assumes "verifySiweAndIssueToken P C i s = (Inr a, s')"
  shows "\<exists>m n w. parseSiweMessage P (in_message i) = Inr m \<and> sm_nonce m = Some n \<and>
    siwe_address m = Some (res_wallet a) \<and> siwe_signed P i m (auth_chain s) (auth_now s) \<and>
    (if siwe_lemon m then cache_get C (replayKey n (res_wallet a)) (auth_now s) (auth_cache s) = None
     else \<exists>row. live_nonce n (auth_now s) (siwe_nonces s) = Some row \<and>
       siwe_nonces s' = put_row nonce_id (row\<lparr>nonce_used := True\<rparr>) (siwe_nonces s)) \<and>
    normalizeWallet (res_wallet a) = Inr w \<and> res_token a \<notin> tok_value ` set (access_tokens s) \<and>
    access_tokens s' = access_tokens s @ [new_token (res_token a) w s]"
proof -
  obtain m n stored where c: "siwe_check P C i s = (Inr (m, n, stored), s)"
      and r: "siwe_issue P C i (m, n, stored) s = (Inr a, s')"
    by (rule siwe_login_split [OF assms])
  note q = siwe_check_Inr [OF c]
  from r obtain w where w: "siwe_signed P i m (auth_chain s) (auth_now s)" "siwe_address m = Some (res_wallet a)"
    "normalizeWallet (res_wallet a) = Inr w" "res_token a \<notin> tok_value ` set (access_tokens s)"
    "s' = snd (siwe_consume C m n stored s)\<lparr>auth_draws := auth_draws s + 1,
            access_tokens := access_tokens s @ [new_token (res_token a) w s]\<rparr>"
    by (rule siwe_issue_run)
  from siwe_login_nonce [OF assms q(1)] q(2) w q(1) show ?thesis
    by (intro exI [of _ m] exI [of _ n] exI [of _ w]) simp
qed

text \<open>
  A Stellar login that returns a token: the signature of the SEP-53 digest of the
  message was verified with the key of the wallet, the message contains the nonce, the
  nonce was live and is now used, and exactly one token row is added, for that wallet.
\<close>

theorem stellar_login_sound:
  assumes "verifyStellarAndIssueToken P i s = (Inr a, s')"
  shows "normalizeWallet (in_wallet i) = Inr (res_wallet a) \<and> stellar_signature P i (res_wallet a) \<and>
    includes_str (in_message i) (in_nonce i) \<and>
    (\<exists>row. live_nonce (in_nonce i) (auth_now s) (siwe_nonces s) = Some row \<and>
       siwe_nonces s' = put_row nonce_id (row\<lparr>nonce_used := True\<rparr>) (siwe_nonces s)) \<and>
    res_token a \<notin> tok_value ` set (access_tokens s) \<and>
    access_tokens s' = access_tokens s @ [new_token (res_token a) (res_wallet a) s] \<and> auth_cache s' = auth_cache s"
proof -
  obtain w n where c: "stellar_check i s = (Inr (w, n), s)" and r: "stellar_issue P i (w, n) s = (Inr a, s')"
    by (rule stellar_login_split [OF assms])
  note q = stellar_check_Inr [OF c]
  from stellar_issue_run [OF r normalizeWallet_fixed [OF q(1)]] q show ?thesis by auto
qed

text \<open>
  Two requests that carry the same nonce and both passed the nonce check before either
  marked it both get a token: the mark is a plain save, not a conditional update.
\<close>

theorem nonce_race:
  assumes "stellar_check i s = (Inr p, s)" and "stellar_check j s = (Inr q, s)" and "in_nonce j = in_nonce i"
    and "stellar_signature P i (fst p)" and "stellar_signature P j (fst q)"
    and "hex_of (randomBytes P 24 (auth_draws s + 1)) \<noteq> hex_of (randomBytes P 24 (auth_draws s))"
    and "hex_of (randomBytes P 24 (auth_draws s)) \<notin> tok_value ` set (access_tokens s)"
    and "hex_of (randomBytes P 24 (auth_draws s + 1)) \<notin> tok_value ` set (access_tokens s)"
  shows "\<exists>a s1 b s2. stellar_issue P i p s = (Inr a, s1) \<and> stellar_issue P j q s1 = (Inr b, s2) \<and>
    res_token a \<noteq> res_token b \<and> length (access_tokens s2) = length (access_tokens s) + 2"
proof -
  obtain w n where p: "p = (w, n)" by (cases p)
  obtain w' n' where q: "q = (w', n')" by (cases q)
  have w: "normalizeWallet w = Inr w" "normalizeWallet w' = Inr w'"
    using stellar_check_Inr [OF assms(1) [unfolded p]] stellar_check_Inr [OF assms(2) [unfolded q]]
    by (simp_all add: normalizeWallet_fixed)
  show ?thesis
    using assms(4-8) w
    by (auto simp: p q stellar_issue_def auth_simps svc_simps sbind_def drawn_token_def new_token_def)
qed

section \<open>The token tables and the cache\<close>

definition valid_row :: "string \<Rightarrow> string \<Rightarrow> int \<Rightarrow> AccessToken \<Rightarrow> bool" where
  "valid_row v w t r \<longleftrightarrow> tok_value r = v \<and> tok_wallet r = w \<and> tok_revokedAt r = None \<and>
     (\<exists>e. tok_expiresAt r = Some e \<and> t \<le> e)"

definition wf_tokens :: "AccessToken list \<Rightarrow> bool" where
  "wf_tokens rows \<longleftrightarrow> distinct (map tok_id rows) \<and> distinct (map tok_value rows) \<and>
     (\<forall>r \<in> set rows. tok_expiresAt r \<noteq> None \<and> normalizeWallet (tok_wallet r) = Inr (tok_wallet r))"

text \<open>
  Every cached token has a row that is valid for as long as the entry is served, but for an
  exempt set of tokens: an entry that was made in the very millisecond of the expiry of its
  token has no time to live and is served without end.
\<close>

definition cache_sound :: "string set \<Rightarrow> 'k CacheStore \<Rightarrow> ('x, 'k) auth \<Rightarrow> bool" where
  "cache_sound X C s \<longleftrightarrow> (\<forall>v t c. v \<notin> X \<longrightarrow> auth_now s \<le> t \<longrightarrow> cache_get C (token_key v) t (auth_cache s) = Some c \<longrightarrow>
     (\<exists>w r. c = TokenCacheEntry w \<and> r \<in> set (access_tokens s) \<and> valid_row v w t r))"

definition tokens_but :: "string set \<Rightarrow> 'k CacheStore \<Rightarrow> ('x, 'k) auth \<Rightarrow> bool" where
  "tokens_but X C s \<longleftrightarrow> wf_tokens (access_tokens s) \<and> cache_sound X C s"

definition tokens_ok :: "'k CacheStore \<Rightarrow> ('x, 'k) auth \<Rightarrow> bool" where
  "tokens_ok C s \<longleftrightarrow> wf_tokens (access_tokens s) \<and> cache_sound {} C s"

lemma tokens_ok_but: "tokens_ok C s \<longleftrightarrow> tokens_but {} C s"
  by (simp add: tokens_ok_def tokens_but_def)

lemma tokens_but_exempt: "tokens_but X C s \<Longrightarrow> X \<subseteq> Y \<Longrightarrow> tokens_but Y C s"
  unfolding tokens_but_def cache_sound_def by blast

text \<open>The reference for \<open>validateToken\<close>: the table alone decides.\<close>

definition checkToken :: "string \<Rightarrow> ('x, 'k) auth \<Rightarrow> (http_error, string) result" where
  "checkToken v s =
     (case token_row v s of
        None \<Rightarrow> Inl (Unauthorized ''Invalid or expired token'')
      | Some r \<Rightarrow> if tok_revokedAt r \<noteq> None \<or> (\<exists>e. tok_expiresAt r = Some e \<and> e < auth_now s)
          then Inl (Unauthorized ''Invalid or expired token'') else Inr (tok_wallet r))"

lemma token_row_iff:
  assumes "wf_tokens (access_tokens s)"
  shows "token_row v s = Some r \<longleftrightarrow> r \<in> set (access_tokens s) \<and> tok_value r = v"
proof
  assume "token_row v s = Some r"
  then show "r \<in> set (access_tokens s) \<and> tok_value r = v" unfolding token_row_def using find_cond by fastforce
next
  assume r: "r \<in> set (access_tokens s) \<and> tok_value r = v"
  then obtain q where q: "token_row v s = Some q"
    unfolding token_row_def by (metis (mono_tags, lifting) find_none option.exhaust_sel)
  then have "q \<in> set (access_tokens s) \<and> tok_value q = v" unfolding token_row_def using find_cond by fastforce
  with r assms have "q = r" by (auto simp: wf_tokens_def dest: eq_key_imp_eq_value [of _ "[]"] inj_onD simp: distinct_map)
  with q show "token_row v s = Some r" by simp
qed

lemma checkToken_iff:
  assumes "wf_tokens (access_tokens s)"
  shows "checkToken v s = Inr w \<longleftrightarrow> (\<exists>r \<in> set (access_tokens s). valid_row v w (auth_now s) r)"
proof (cases "token_row v s")
  case None
  then show ?thesis using token_row_iff [OF assms, of v] by (auto simp: checkToken_def valid_row_def)
next
  case (Some q)
  then have q: "q \<in> set (access_tokens s)" "tok_value q = v" using token_row_iff [OF assms, of v q] by auto
  then obtain e where e: "tok_expiresAt q = Some e" using assms by (auto simp: wf_tokens_def)
  have "r = q" if "r \<in> set (access_tokens s)" "tok_value r = v" for r
    using that Some token_row_iff [OF assms, of v] by (metis option.inject)
  then have "(\<exists>r \<in> set (access_tokens s). valid_row v w (auth_now s) r) \<longleftrightarrow> valid_row v w (auth_now s) q"
    using q(1) unfolding valid_row_def by blast
  then show ?thesis using Some q e by (auto simp: checkToken_def valid_row_def)
qed

lemma token_key_inj [simp]: "token_key v = token_key v' \<longleftrightarrow> v = v'"
  by (simp add: token_key_def)

lemma token_key_replay [simp]: "token_key v \<noteq> replayKey n a"
  by (simp add: token_key_def replayKey_def)

lemma validateToken_agrees_but:
  assumes "tokens_but X C s" and "v \<notin> X"
  shows "fst (validateToken C v s) = checkToken v s"
proof (cases "cache_get C (token_key v) (auth_now s) (auth_cache s)")
  case None
  then show ?thesis
    by (auto simp: validateToken_def validate_miss_def auth_simps svc_simps sbind_get checkToken_def cache_put_def sbind_mod
        split: option.splits if_splits)
next
  case (Some c)
  then obtain w r where c: "c = TokenCacheEntry w" "r \<in> set (access_tokens s)" "valid_row v w (auth_now s) r"
    using assms by (force simp: tokens_but_def cache_sound_def)
  then have "checkToken v s = Inr w" using checkToken_iff assms(1) by (metis tokens_but_def)
  then show ?thesis using Some c by (simp add: validateToken_def auth_simps svc_simps)
qed

lemma validateToken_agrees: "tokens_ok C s \<Longrightarrow> fst (validateToken C v s) = checkToken v s"
  using validateToken_agrees_but [of "{}"] by (simp add: tokens_ok_but)

text \<open>The state after a validation: unchanged, or with one more cache entry.\<close>

lemma validate_miss_state:
  assumes "validate_miss C v s = (x, s')" and "s' \<noteq> s"
  obtains r where "token_row v s = Some r" "tok_revokedAt r = None" "\<And>e. tok_expiresAt r = Some e \<Longrightarrow> auth_now s \<le> e"
    "s' = s\<lparr>auth_cache := cache_set C (token_key v) (TokenCacheEntry (tok_wallet r)) (token_ttl r (auth_now s)) (auth_now s) (auth_cache s)\<rparr>"
proof (cases "token_row v s")
  case (Some r)
  with assms show thesis
    by (cases "case tok_expiresAt r of None \<Rightarrow> False | Some e \<Rightarrow> e < auth_now s"; cases "tok_revokedAt r")
      (auto simp: validate_miss_def svc_simps cache_put_def not_less intro: that)
qed (use assms in \<open>auto simp: validate_miss_def svc_simps\<close>)

lemma validateToken_state:
  assumes "validateToken C v s = (x, s')" and "s' \<noteq> s"
  shows "validate_miss C v s = (x, s')"
  using assms by (auto simp: validateToken_def auth_simps svc_simps split: option.splits cache_value.splits)

lemma cache_setD:
  assumes "cache_contract C" "0 \<le> ttl" "t \<le> t'"
  shows "cache_get C k' t' (cache_set C k v ttl t c) =
    (if k' = k then if ttl = 0 \<or> t' \<le> t + ttl then Some v else None else cache_get C k' t' c)"
  using assms unfolding cache_contract_def by blast

lemma cache_delD:
  assumes "cache_contract C"
  shows "cache_get C k' t' (cache_del C k c) = (if k' = k then None else cache_get C k' t' c)"
  using assms unfolding cache_contract_def by blast

definition at_expiry :: "string \<Rightarrow> ('x, 'k) auth \<Rightarrow> bool" where
  "at_expiry v s = list_ex (\<lambda>r. tok_value r = v \<and> tok_expiresAt r = Some (auth_now s)) (access_tokens s)"

lemma tokens_but_validate:
  assumes C: "cache_contract C" and ok: "tokens_but X C s" and v: "validateToken C v s = (x, s')"
    and ms: "at_expiry v s \<Longrightarrow> v \<in> X"
  shows "tokens_but X C s'"
proof (cases "s' = s")
  case False
  from validate_miss_state [OF validateToken_state [OF v False] False] obtain r where
    2: "token_row v s = Some r" "tok_revokedAt r = None" "\<And>e. tok_expiresAt r = Some e \<Longrightarrow> auth_now s \<le> e"
    "s' = s\<lparr>auth_cache := cache_set C (token_key v) (TokenCacheEntry (tok_wallet r)) (token_ttl r (auth_now s)) (auth_now s) (auth_cache s)\<rparr>"
    by blast
  have wf: "wf_tokens (access_tokens s)" using ok by (simp add: tokens_but_def)
  have r: "r \<in> set (access_tokens s)" "tok_value r = v" using 2(1) token_row_iff [OF wf] by auto
  then obtain e where e: "tok_expiresAt r = Some e" using wf by (auto simp: wf_tokens_def)
  have ttl: "0 \<le> token_ttl r (auth_now s)" "token_ttl r (auth_now s) \<le> e - auth_now s"
    using e 2(3) [OF e] by (auto simp: token_ttl_def)
  have pos: "token_ttl r (auth_now s) \<noteq> 0" if "v \<notin> X"
  proof -
    have "e \<noteq> auth_now s" using that ms r e by (auto simp: at_expiry_def list_ex_iff)
    then show ?thesis using e 2(3) [OF e] by (auto simp: token_ttl_def)
  qed
  have "\<exists>w q. c = TokenCacheEntry w \<and> q \<in> set (access_tokens s) \<and> valid_row u w t q"
    if u: "u \<notin> X" and t: "auth_now s \<le> t" and g: "cache_get C (token_key u) t (auth_cache s') = Some c" for u t c
  proof (cases "u = v")
    case True
    then have "c = TokenCacheEntry (tok_wallet r) \<and> t \<le> e"
      using g cache_setD [OF C ttl(1) t] ttl(2) pos u 2(4) by (auto split: if_splits)
    with True r e 2(2) show ?thesis by (auto simp: valid_row_def)
  next
    case False
    then have "cache_get C (token_key u) t (auth_cache s) = Some c"
      using g cache_setD [OF C ttl(1) t] 2(4) by simp
    with ok t u show ?thesis unfolding tokens_but_def cache_sound_def by blast
  qed
  with wf 2(4) show ?thesis by (auto simp: tokens_but_def cache_sound_def)
qed (use ok in simp)

lemma tokens_ok_validate:
  assumes "cache_contract C" and "tokens_ok C s" and "validateToken C v s = (x, s')"
    and "\<forall>r \<in> set (access_tokens s). tok_value r = v \<longrightarrow> tok_expiresAt r \<noteq> Some (auth_now s)"
  shows "tokens_ok C s'"
  using assms tokens_but_validate [of C "{}" s v x s'] by (auto simp: tokens_ok_but at_expiry_def list_ex_iff)

lemma wf_tokens_snoc:
  assumes "wf_tokens (access_tokens s)" "v \<notin> tok_value ` set (access_tokens s)" "normalizeWallet w = Inr w"
  shows "wf_tokens (access_tokens s @ [new_token v w s])"
  using assms fresh_id_notin [of tok_id "access_tokens s"] by (auto simp: wf_tokens_def new_token_def)

lemma tokens_but_mono:
  assumes "tokens_but X C s" "wf_tokens (access_tokens s')" "auth_now s \<le> auth_now s'"
    "\<And>v t. auth_now s' \<le> t \<Longrightarrow> cache_get C (token_key v) t (auth_cache s') = cache_get C (token_key v) t (auth_cache s)"
    "\<And>r v w t. r \<in> set (access_tokens s) \<Longrightarrow> auth_now s' \<le> t \<Longrightarrow> valid_row v w t r \<Longrightarrow> r \<in> set (access_tokens s')"
  shows "tokens_but X C s'"
proof -
  have "\<exists>w q. c = TokenCacheEntry w \<and> q \<in> set (access_tokens s') \<and> valid_row u w t q"
    if v: "u \<notin> X" and t: "auth_now s' \<le> t" and g: "cache_get C (token_key u) t (auth_cache s') = Some c" for u t c
  proof -
    have "auth_now s \<le> t" "cache_get C (token_key u) t (auth_cache s) = Some c"
      using t g assms(3) assms(4) [OF t] by auto
    then obtain w q where "c = TokenCacheEntry w" "q \<in> set (access_tokens s)" "valid_row u w t q"
      using assms(1) v unfolding tokens_but_def cache_sound_def by blast
    with assms(5) [OF _ t] show ?thesis by blast
  qed
  then show ?thesis using assms(2) by (auto simp: tokens_but_def cache_sound_def)
qed

section \<open>Every handler keeps the tokens sound\<close>

definition tokens_kept :: "string set \<Rightarrow> 'k CacheStore \<Rightarrow> ('x, 'k) auth \<Rightarrow> ('x, 'k) auth \<Rightarrow> bool" where
  "tokens_kept X C s t \<longleftrightarrow> (tokens_but X C s \<longrightarrow> tokens_but X C t)"

interpretation tok: world_frame "tokens_kept X C" for X C
  by unfold_locales (auto simp: tokens_kept_def)

lemma tok_keepsI: "(\<And>s. tokens_but X C s \<Longrightarrow> tokens_but X C (snd (m s))) \<Longrightarrow> tok.keeps X C m"
  by (simp add: tok.keeps_def tokens_kept_def)

lemma tok_unchanged:
  assumes "\<And>s. access_tokens (snd (m s)) = access_tokens s \<and> auth_cache (snd (m s)) = auth_cache s \<and> auth_now (snd (m s)) = auth_now s"
  shows "tok.keeps X C m"
  using assms by (auto simp: tok.keeps_def tokens_kept_def tokens_but_def cache_sound_def)

lemma tok_create:
  fixes P :: "'x AuthPorts" and C :: "'k CacheStore"
  shows "tok.keeps X C (createAccessToken P w)"
proof (rule tok_keepsI)
  fix s :: "('x, 'k) auth" assume ok: "tokens_but X C s"
  show "tokens_but X C (snd (createAccessToken P w s))"
  proof (cases "normalizeWallet w")
    case (Inr n)
    have "tokens_but X C (s\<lparr>auth_draws := auth_draws s + 1, access_tokens := access_tokens s @ [new_token (drawn_token P s) n s]\<rparr>)"
      if "drawn_token P s \<notin> tok_value ` set (access_tokens s)"
      using ok wf_tokens_snoc [OF _ that normalizeWallet_fixed [OF Inr]]
      by (intro tokens_but_mono [OF ok]) (auto simp: tokens_but_def)
    with Inr ok show ?thesis by (auto simp: createAccessToken_run tokens_but_def cache_sound_def)
  qed (use ok in \<open>auto simp: createAccessToken_run tokens_but_def cache_sound_def\<close>)
qed

lemma tok_consume:
  assumes C: "cache_contract C"
  shows "tok.keeps X C (siwe_consume C m n stored)"
proof (rule tok_keepsI)
  fix s assume ok: "tokens_but X C s"
  then show "tokens_but X C (snd (siwe_consume C m n stored s))"
    using cache_setD [OF C] by (intro tokens_but_mono [OF ok]) (auto simp: siwe_consume_run tokens_but_def)
qed

lemma tok_frames:
  "tok.keeps X C (siwe_check P D i)" "tok.keeps X C (siwe_signature P i m)" "tok.keeps X C (stellar_check i)"
  "tok.keeps X C (save_nonce n)" "tok.keeps X C (createNonce P)"
proof -
  show "tok.keeps X C (siwe_check P D i)" by (rule tok_unchanged) (metis prod.collapse siwe_check_frame)
  show "tok.keeps X C (siwe_signature P i m)" by (rule tok_unchanged) (metis prod.collapse siwe_signature_frame)
  show "tok.keeps X C (stellar_check i)" by (rule tok_unchanged) (metis prod.collapse stellar_check_frame)
  show "tok.keeps X C (save_nonce n)" by (rule tok_unchanged) (simp add: save_nonce_run)
  show "tok.keeps X C (createNonce P)"
    by (rule tok_unchanged) (auto simp: createNonce_def sbind_def draw_hex_def svc_simps insert_nonce_def)
qed

lemma tok_siwe: "cache_contract C \<Longrightarrow> tok.keeps X C (verifySiweAndIssueToken P C i)"
  unfolding verifySiweAndIssueToken_def siwe_issue_def Let_def
  by (auto intro!: tok.keeps_bind tok.keeps_if tok_frames tok_consume tok_create)

lemma tok_stellar: "tok.keeps X C (verifyStellarAndIssueToken P i)"
  unfolding verifyStellarAndIssueToken_def stellar_issue_def Let_def
  by (auto intro!: tok.keeps_bind tok.keeps_if tok_frames tok_create)

lemma wf_tokens_revoked: "wf_tokens rows \<Longrightarrow> wf_tokens (revoked i t rows)"
  unfolding wf_tokens_def by (simp add: revoked_values) (auto simp: revoked_def)

lemma revoked_other: "r \<in> set rows \<Longrightarrow> tok_id r \<noteq> i \<Longrightarrow> r \<in> set (revoked i t rows)"
  by (force simp: revoked_def)

text \<open>Revocation followed by the eviction of the token's cache entry.\<close>

lemma tokens_but_revoked:
  assumes C: "cache_contract C" and ok: "tokens_but X C s" and r: "token_row v s = Some r"
  shows "tokens_but X C (s\<lparr>access_tokens := revoked (tok_id r) t (access_tokens s),
    auth_cache := cache_del C (token_key v) (auth_cache s)\<rparr>)"
proof -
  have wf: "wf_tokens (access_tokens s)" using ok by (simp add: tokens_but_def)
  have r': "r \<in> set (access_tokens s)" "tok_value r = v" using r token_row_iff [OF wf] by auto
  have "\<exists>w q. c = TokenCacheEntry w \<and> q \<in> set (revoked (tok_id r) t (access_tokens s)) \<and> valid_row u w t' q"
    if x: "u \<notin> X" and t: "auth_now s \<le> t'" and g: "cache_get C (token_key u) t' (cache_del C (token_key v) (auth_cache s)) = Some c" for u t' c
  proof -
    have u: "u \<noteq> v" "cache_get C (token_key u) t' (auth_cache s) = Some c"
      using g cache_delD [OF C] by (auto split: if_splits)
    then obtain w q where q: "c = TokenCacheEntry w" "q \<in> set (access_tokens s)" "valid_row u w t' q"
      using ok t x unfolding tokens_but_def cache_sound_def by blast
    have "tok_id q \<noteq> tok_id r"
      using q r' u(1) wf by (auto simp: valid_row_def wf_tokens_def distinct_map dest: inj_onD)
    with q show ?thesis using revoked_other by blast
  qed
  with wf wf_tokens_revoked show ?thesis by (auto simp: tokens_but_def cache_sound_def)
qed

lemma tok_refresh:
  fixes P :: "'x AuthPorts" and C :: "'k CacheStore"
  assumes C: "cache_contract C"
  shows "tok.keeps X C (refreshToken P C v)"
proof (rule tok_keepsI)
  fix s :: "('x, 'k) auth" assume ok: "tokens_but X C s"
  show "tokens_but X C (snd (refreshToken P C v s))"
  proof (cases "refresh_check v s")
    case (Pair x s')
    then have s': "s' = s" by (rule refresh_check_frame)
    show ?thesis
    proof (cases x)
      case (Inr r)
      have r: "token_row v s = Some r" "tok_revokedAt r = None"
        using refresh_check_Inr [of v s r s'] Pair Inr by auto
      then have "r \<in> set (access_tokens s)" unfolding token_row_def using find_cond by fastforce
      with r have ne: "filter (\<lambda>q. tok_id q = tok_id r \<and> tok_revokedAt q = None) (access_tokens s) \<noteq> []"
        by (auto simp: filter_empty_conv)
      define u where "u = s\<lparr>access_tokens := revoked (tok_id r) (auth_now s) (access_tokens s),
        auth_cache := cache_del C (token_key v) (auth_cache s)\<rparr>"
      have "tokens_but X C u" unfolding u_def by (rule tokens_but_revoked [OF C ok r(1)])
      then have "tokens_but X C (snd (createAccessToken P (tok_wallet r) u))"
        using tok_create [of X C P "tok_wallet r"] by (simp add: tok.keeps_def tokens_kept_def)
      moreover have "snd (refreshToken P C v s) = snd (createAccessToken P (tok_wallet r) u)"
        using Pair Inr s' ne
        by (auto simp: refreshToken_def refresh_issue_def sbind_def auth_simps svc_simps cache_evict_def u_def
            split: prod.splits sum.splits)
      ultimately show ?thesis by simp
    qed (use Pair s' ok in \<open>simp add: refreshToken_def sbind_def\<close>)
  qed
qed

lemma tok_cleanup: "tok.keeps X C cleanupExpiredAuth"
proof (rule tok_keepsI)
  fix s assume ok: "tokens_but X C s"
  then show "tokens_but X C (snd (cleanupExpiredAuth s))"
    by (intro tokens_but_mono [OF ok])
      (auto simp: cleanupExpiredAuth_def svc_simps tokens_but_def wf_tokens_def valid_row_def GRACE_MS_def distinct_map_filter)
qed

section \<open>Runs\<close>

text \<open>
  Requests, the clean-up job and the passage of time, in any order. The second component
  lists what happened, the last event first: a nonce of the table with which a login succeeded, and
  a token that was validated in the very millisecond of its expiry.
\<close>

datatype auth_event = Spent string | AtExpiry string

definition spent :: "auth_event list \<Rightarrow> string list" where
  "spent L = List.map_filter (\<lambda>e. case e of Spent n \<Rightarrow> Some n | AtExpiry _ \<Rightarrow> None) L"

definition at_expiries :: "auth_event list \<Rightarrow> string set" where
  "at_expiries L = {v. AtExpiry v \<in> set L}"

lemma events_simps [simp]:
  "spent [] = []" "spent (Spent n # L) = n # spent L" "spent (AtExpiry v # L) = spent L"
  "at_expiries [] = {}" "at_expiries (Spent n # L) = at_expiries L" "at_expiries (AtExpiry v # L) = insert v (at_expiries L)"
  by (auto simp: spent_def at_expiries_def map_filter_simps)

inductive auth_step :: "'x AuthPorts \<Rightarrow> 'k CacheStore \<Rightarrow> ('x, 'k) auth \<times> auth_event list \<Rightarrow> ('x, 'k) auth \<times> auth_event list \<Rightarrow> bool"
  for P C where
  nonce: "createNonce P s = (r, s') \<Longrightarrow> auth_step P C (s, L) (s', L)"
| siwe: "verifySiweAndIssueToken P C i s = (Inr a, s') \<Longrightarrow> parseSiweMessage P (in_message i) = Inr m \<Longrightarrow>
    auth_step P C (s, L) (s', if siwe_lemon m then L else Spent (the (sm_nonce m)) # L)"
| siwe_refused: "verifySiweAndIssueToken P C i s = (Inl e, s') \<Longrightarrow> auth_step P C (s, L) (s', L)"
| stellar: "verifyStellarAndIssueToken P i s = (Inr a, s') \<Longrightarrow> auth_step P C (s, L) (s', Spent (in_nonce i) # L)"
| stellar_refused: "verifyStellarAndIssueToken P i s = (Inl e, s') \<Longrightarrow> auth_step P C (s, L) (s', L)"
| refresh: "refreshToken P C v s = (x, s') \<Longrightarrow> auth_step P C (s, L) (s', L)"
| validate: "validateToken C v s = (y, s') \<Longrightarrow> auth_step P C (s, L) (s', if at_expiry v s then AtExpiry v # L else L)"
| cleanup: "cleanupExpiredAuth s = (z, s') \<Longrightarrow> auth_step P C (s, L) (s', L)"
| time: "auth_now s \<le> t \<Longrightarrow> auth_step P C (s, L) (s\<lparr>auth_now := t, auth_chain := x\<rparr>, L)"

text \<open>Before the first request: no rows and an empty cache.\<close>

definition auth_init :: "'k CacheStore \<Rightarrow> ('x, 'k) auth \<Rightarrow> bool" where
  "auth_init C s \<longleftrightarrow> siwe_nonces s = [] \<and> access_tokens s = [] \<and> (\<forall>k t. cache_get C k t (auth_cache s) = None)"

lemma tokens_but_init: "auth_init C s \<Longrightarrow> tokens_but X C s"
  by (simp add: auth_init_def tokens_but_def wf_tokens_def cache_sound_def)

lemma tokens_but_time: "tokens_but X C s \<Longrightarrow> auth_now s \<le> t \<Longrightarrow> tokens_but X C (s\<lparr>auth_now := t, auth_chain := x\<rparr>)"
  by (rule tokens_but_mono) (auto simp: tokens_but_def)

lemma tok_run: "tok.keeps X C m \<Longrightarrow> m s = (y, u) \<Longrightarrow> tokens_but X C s \<Longrightarrow> tokens_but X C u"
  using tok.keeps_run [of X C m s y u] by (simp add: tokens_kept_def)

abbreviation run_tokens :: "'k CacheStore \<Rightarrow> ('x, 'k) auth \<times> auth_event list \<Rightarrow> bool" where
  "run_tokens C p \<equiv> tokens_but (at_expiries (snd p)) C (fst p)"

lemma tokens_but_step:
  assumes C: "cache_contract C" and ok: "run_tokens C p" and "auth_step P C p q"
  shows "run_tokens C q"
  using assms(3)
proof cases
  case (nonce s r s' L)
  then show ?thesis using tok_run [OF tok_frames(5)] ok by fastforce
next
  case (siwe i s a s' m L)
  then show ?thesis using tok_run [OF tok_siwe [OF C] siwe(3)] ok by simp
next
  case (siwe_refused i s e s' L)
  then show ?thesis using tok_run [OF tok_siwe [OF C]] ok by fastforce
next
  case (stellar i s a s' L)
  then show ?thesis using tok_run [OF tok_stellar stellar(3)] ok by simp
next
  case (stellar_refused i s e s' L)
  then show ?thesis using tok_run [OF tok_stellar] ok by fastforce
next
  case (refresh v s x s' L)
  then show ?thesis using tok_run [OF tok_refresh [OF C]] ok by fastforce
next
  case (validate v s y s' L)
  define M where "M = (if at_expiry v s then AtExpiry v # L else L)"
  have M: "at_expiries L \<subseteq> at_expiries M" "at_expiry v s \<Longrightarrow> v \<in> at_expiries M" by (auto simp: M_def)
  have "tokens_but (at_expiries L) C s" using ok validate(1) by simp
  from tokens_but_validate [OF C tokens_but_exempt [OF this M(1)] validate(3) M(2)] show ?thesis
    using validate(2) by (simp add: M_def)
next
  case (cleanup s z s' L)
  then show ?thesis using tok_run [OF tok_cleanup] ok by fastforce
next
  case (time s t L x)
  then show ?thesis using tokens_but_time [of "at_expiries L" C s t x] ok by simp
qed

interpretation sessions: invariant_system "auth_step P C" "\<lambda>p. cache_contract C \<longrightarrow> run_tokens C p" for P C
  by unfold_locales (auto intro: tokens_but_step)

section \<open>Single use of nonces\<close>

definition drawn_nonce :: "'x AuthPorts \<Rightarrow> nat \<Rightarrow> string" where
  "drawn_nonce P k = hex_of (randomBytes P 16 k)"

text \<open>
  A used nonce was drawn before and has no unused row, so it is never accepted again unless
  the random source repeats it.
\<close>

definition nonces_ok :: "'x AuthPorts \<Rightarrow> ('x, 'k) auth \<times> string list \<Rightarrow> bool" where
  "nonces_ok P = (\<lambda>(s, L).
     distinct (map nonce_id (siwe_nonces s)) \<and> distinct (map nonce_value (siwe_nonces s)) \<and>
     nonce_value ` set (siwe_nonces s) \<union> set L \<subseteq> drawn_nonce P ` {..<auth_draws s} \<and> distinct L \<and>
     (\<forall>n \<in> set (siwe_nonces s). nonce_value n \<in> set L \<longrightarrow> nonce_used n))"

lemma nonces_ok_same:
  "nonces_ok P (s, L) \<Longrightarrow> siwe_nonces s' = siwe_nonces s \<Longrightarrow> auth_draws s \<le> auth_draws s' \<Longrightarrow> nonces_ok P (s', L)"
  unfolding nonces_ok_def by (fastforce simp: image_iff)

definition marked :: "SiweNonce list \<Rightarrow> SiweNonce list \<Rightarrow> bool" where
  "marked rows rows' \<longleftrightarrow> rows' = rows \<or> (\<exists>row \<in> set rows. rows' = put_row nonce_id (row\<lparr>nonce_used := True\<rparr>) rows)"

lemma put_used:
  assumes "distinct (map nonce_id rows)" "row \<in> set rows"
  shows "put_row nonce_id (row\<lparr>nonce_used := True\<rparr>) rows = map (\<lambda>n. if n = row then n\<lparr>nonce_used := True\<rparr> else n) rows"
  using assms unfolding put_row_def
  by (auto simp: distinct_map dest: inj_onD intro!: map_cong)

lemma nonces_ok_mark:
  assumes ok: "nonces_ok P (s, L)" and row: "row \<in> set (siwe_nonces s)"
    and s': "siwe_nonces s' = put_row nonce_id (row\<lparr>nonce_used := True\<rparr>) (siwe_nonces s)" "auth_draws s \<le> auth_draws s'"
  shows "nonces_ok P (s', L)" and "\<not> nonce_used row \<Longrightarrow> nonces_ok P (s', nonce_value row # L)"
proof -
  have d: "distinct (map nonce_id (siwe_nonces s))" "distinct (map nonce_value (siwe_nonces s))"
    using ok by (simp_all add: nonces_ok_def)
  define g where "g = (\<lambda>n. if n = row then n\<lparr>nonce_used := True\<rparr> else n)"
  have rows: "siwe_nonces s' = map g (siwe_nonces s)" using put_used [OF d(1) row] s'(1) by (simp add: g_def)
  have g: "nonce_id (g n) = nonce_id n" "nonce_value (g n) = nonce_value n" "nonce_used n \<Longrightarrow> nonce_used (g n)"
    "nonce_used (g row)" for n
    by (simp_all add: g_def)
  have maps: "map nonce_id (siwe_nonces s') = map nonce_id (siwe_nonces s)"
    "map nonce_value (siwe_nonces s') = map nonce_value (siwe_nonces s)"
    by (simp_all add: rows g)
  have vals: "nonce_value ` set (siwe_nonces s') = nonce_value ` set (siwe_nonces s)"
    using maps(2) by (metis set_map)
  have sub: "drawn_nonce P ` {..<auth_draws s} \<subseteq> drawn_nonce P ` {..<auth_draws s'}"
    using s'(2) by (intro image_mono) auto
  have used: "nonce_used (g n)" if "n \<in> set (siwe_nonces s)" "nonce_value n \<in> set L \<or> nonce_value n = nonce_value row" for n
  proof (cases "nonce_value n = nonce_value row")
    case True
    then have "n = row" using d(2) that(1) row by (auto simp: distinct_map dest: inj_onD)
    then show ?thesis using g(4) by simp
  qed (use ok that g(3) in \<open>auto simp: nonces_ok_def\<close>)
  have u: "\<forall>n \<in> set (siwe_nonces s'). nonce_value n \<in> insert (nonce_value row) (set L) \<longrightarrow> nonce_used n"
    using used by (auto simp: rows g)
  have "nonce_value ` set (siwe_nonces s) \<union> set L \<subseteq> drawn_nonce P ` {..<auth_draws s}" and L: "distinct L"
    using ok by (simp_all add: nonces_ok_def)
  with sub have b: "nonce_value ` set (siwe_nonces s') \<subseteq> drawn_nonce P ` {..<auth_draws s'}"
      "set L \<subseteq> drawn_nonce P ` {..<auth_draws s'}"
    unfolding vals by blast+
  with u d L show "nonces_ok P (s', L)" unfolding nonces_ok_def by (simp add: maps)
  assume "\<not> nonce_used row"
  then have "nonce_value row \<notin> set L" using ok row by (auto simp: nonces_ok_def)
  moreover have "nonce_value row \<in> nonce_value ` set (siwe_nonces s')" using row by (simp add: vals)
  ultimately show "nonces_ok P (s', nonce_value row # L)"
    using u d L b unfolding nonces_ok_def by (auto simp: maps)
qed

text \<open>What a login does to the nonces, whether it succeeds or not.\<close>

lemma createAccessToken_nonces:
  "siwe_nonces (snd (createAccessToken P w s)) = siwe_nonces s" "auth_draws (snd (createAccessToken P w s)) = auth_draws s + 1"
  by (simp_all add: createAccessToken_run split: sum.split)

lemma siwe_nonces_effect:
  assumes "verifySiweAndIssueToken P C i s = (r, s')"
  shows "marked (siwe_nonces s) (siwe_nonces s')" "auth_draws s \<le> auth_draws s'"
proof -
  have "marked (siwe_nonces s) (siwe_nonces s') \<and> auth_draws s \<le> auth_draws s'"
  proof (cases "siwe_check P C i s")
    case (Pair x u)
    then have u: "u = s" by (rule siwe_check_frame)
    show ?thesis
    proof (cases x)
      case (Inr y)
      obtain m n stored where y: "y = (m, n, stored)" by (cases y)
      define v where "v = snd (siwe_consume C m n stored s)"
      note q = siwe_check_Inr [OF Pair [unfolded Inr y]]
      have row: "stored = None \<or> (\<exists>row \<in> set (siwe_nonces s). stored = Some row)"
        using q(4,5) live_nonce_Some by (cases "siwe_lemon m") fastforce+
      have v: "siwe_consume C m n stored s = (Inr (), v)" "marked (siwe_nonces s) (siwe_nonces v)" "auth_draws v = auth_draws s"
        using row find_cond by (fastforce simp: v_def siwe_consume_run marked_def split: option.split)+
      obtain z w where z: "siwe_signature P i m s = (z, w)" by (cases "siwe_signature P i m s")
      then have w: "w = s" by (rule siwe_signature_frame)
      have "s' = s \<or> s' = snd (createAccessToken P (nullish (siwe_address m) []) v)"
        using assms Pair Inr y u z w v(1)
        by (cases z) (auto simp: verifySiweAndIssueToken_def siwe_issue_def sbind_def Let_def svc_simps
            split: if_splits prod.splits sum.splits)
      then show ?thesis using v(2,3) by (auto simp: createAccessToken_nonces marked_def)
    qed (use assms Pair u in \<open>simp add: verifySiweAndIssueToken_def sbind_def marked_def\<close>)
  qed
  then show "marked (siwe_nonces s) (siwe_nonces s')" "auth_draws s \<le> auth_draws s'" by simp_all
qed

lemma stellar_nonces_effect:
  assumes "verifyStellarAndIssueToken P i s = (r, s')"
  shows "marked (siwe_nonces s) (siwe_nonces s')" "auth_draws s \<le> auth_draws s'"
proof -
  have "marked (siwe_nonces s) (siwe_nonces s') \<and> auth_draws s \<le> auth_draws s'"
  proof (cases "stellar_check i s")
    case (Pair x u)
    then have u: "u = s" by (rule stellar_check_frame)
    show ?thesis
    proof (cases x)
      case (Inr y)
      obtain w n where y: "y = (w, n)" by (cases y)
      have n: "n \<in> set (siwe_nonces s)"
        using live_nonce_Some [OF stellar_check_Inr(3) [OF Pair [unfolded Inr y]]] by simp
      have "s' = s \<or> s' = snd (createAccessToken P w (s\<lparr>siwe_nonces := put_row nonce_id (n\<lparr>nonce_used := True\<rparr>) (siwe_nonces s)\<rparr>))"
        using assms Pair Inr y u
        by (auto simp: verifyStellarAndIssueToken_def stellar_issue_def sbind_def svc_simps save_nonce_run
            split: if_splits prod.splits sum.splits)
      then show ?thesis using n by (auto simp: createAccessToken_nonces marked_def)
    qed (use assms Pair u in \<open>simp add: verifyStellarAndIssueToken_def sbind_def marked_def\<close>)
  qed
  then show "marked (siwe_nonces s) (siwe_nonces s')" "auth_draws s \<le> auth_draws s'" by simp_all
qed

lemma refresh_nonces:
  assumes "refreshToken P C v s = (x, s')"
  shows "siwe_nonces s' = siwe_nonces s" "auth_draws s \<le> auth_draws s'"
proof -
  have k: "siwe_nonces s' = siwe_nonces s \<and> auth_draws s \<le> auth_draws s'"
  proof (cases "refresh_check v s")
    case (Pair y u)
    then have u: "u = s" by (rule refresh_check_frame)
    show ?thesis
    proof (cases y)
      case (Inr r)
      define w where "w = s\<lparr>access_tokens := revoked (tok_id r) (auth_now s) (access_tokens s),
        auth_cache := cache_del C (token_key v) (auth_cache s)\<rparr>"
      have "s' = s\<lparr>access_tokens := revoked (tok_id r) (auth_now s) (access_tokens s)\<rparr> \<or>
          s' = snd (createAccessToken P (tok_wallet r) w)"
        using assms Pair Inr u
        by (auto simp: refreshToken_def refresh_issue_def sbind_def revoke_row_run svc_simps cache_evict_def w_def
            split: prod.splits sum.splits if_splits)
      then show ?thesis by (auto simp: createAccessToken_nonces w_def)
    qed (use assms Pair u in \<open>simp add: refreshToken_def sbind_def\<close>)
  qed
  then show "siwe_nonces s' = siwe_nonces s" "auth_draws s \<le> auth_draws s'" by simp_all
qed

lemma validate_nonces:
  assumes "validateToken C v s = (x, s')"
  shows "siwe_nonces s' = siwe_nonces s" "auth_draws s' = auth_draws s"
proof -
  have "siwe_nonces s' = siwe_nonces s \<and> auth_draws s' = auth_draws s"
  proof (cases "s' = s")
    case False
    from validate_miss_state [OF validateToken_state [OF assms False] False] show ?thesis by (rule; simp)
  qed simp
  then show "siwe_nonces s' = siwe_nonces s" "auth_draws s' = auth_draws s" by simp_all
qed

lemma createNonce_run:
  "createNonce P s =
     (if drawn_nonce P (auth_draws s) \<in> nonce_value ` set (siwe_nonces s)
      then (Inl unique_violation, s\<lparr>auth_draws := auth_draws s + 1\<rparr>)
      else (Inr (drawn_nonce P (auth_draws s)), s\<lparr>auth_draws := auth_draws s + 1,
        siwe_nonces := siwe_nonces s @ [\<lparr>nonce_id = fresh_id nonce_id (siwe_nonces s),
          nonce_value = drawn_nonce P (auth_draws s), nonce_used = False, nonce_expiresAt = auth_now s + 10 * 60 * 1000\<rparr>]\<rparr>))"
  by (auto simp: createNonce_def sbind_def draw_hex_def svc_simps insert_nonce_def list_ex_iff drawn_nonce_def)
    (metis image_eqI)

lemma nonces_ok_new:
  assumes ok: "nonces_ok P (s, L)" and r: "createNonce P s = (r, s')"
    and inj: "inj_on (drawn_nonce P) {..<auth_draws s'}"
  shows "nonces_ok P (s', L)"
proof (cases "drawn_nonce P (auth_draws s) \<in> nonce_value ` set (siwe_nonces s)")
  case True
  then have "s' = s\<lparr>auth_draws := auth_draws s + 1\<rparr>" using r by (simp add: createNonce_run)
  then show ?thesis using nonces_ok_same [OF ok, of s'] by simp
next
  case False
  define n where "n = \<lparr>nonce_id = fresh_id nonce_id (siwe_nonces s), nonce_value = drawn_nonce P (auth_draws s),
    nonce_used = False, nonce_expiresAt = auth_now s + 10 * 60 * 1000\<rparr>"
  have s': "siwe_nonces s' = siwe_nonces s @ [n]" "auth_draws s' = auth_draws s + 1"
    using r False by (auto simp: createNonce_run n_def)
  have n: "nonce_id n \<notin> nonce_id ` set (siwe_nonces s)" "nonce_value n = drawn_nonce P (auth_draws s)"
    using fresh_id_notin [of nonce_id "siwe_nonces s"] by (simp_all add: n_def)
  have "set L \<subseteq> drawn_nonce P ` {..<auth_draws s}" using ok by (simp add: nonces_ok_def)
  moreover have "drawn_nonce P (auth_draws s) \<notin> drawn_nonce P ` {..<auth_draws s}"
    using inj by (auto simp: s'(2) inj_on_def lessThan_Suc)
  ultimately have L: "nonce_value n \<notin> set L" using n by auto
  have "drawn_nonce P ` {..<auth_draws s'} = insert (nonce_value n) (drawn_nonce P ` {..<auth_draws s})"
    by (simp add: s'(2) n(2) lessThan_Suc)
  then show ?thesis
    using ok n L False unfolding nonces_ok_def by (auto simp: s'(1))
qed

lemma nonces_ok_cleanup:
  assumes "nonces_ok P (s, L)" "cleanupExpiredAuth s = (z, s')"
  shows "nonces_ok P (s', L)"
proof -
  have s': "siwe_nonces s' = filter (\<lambda>n. \<not> nonce_expiresAt n < auth_now s) (siwe_nonces s)" "auth_draws s' = auth_draws s"
    using assms(2) by (auto simp: cleanupExpiredAuth_def svc_simps)
  show ?thesis using assms(1) unfolding nonces_ok_def by (auto simp: s' distinct_map_filter)
qed

lemma auth_step_draws: "auth_step P C p q \<Longrightarrow> auth_draws (fst p) \<le> auth_draws (fst q)"
proof (induction rule: auth_step.cases)
  case (nonce s r s' L)
  then show ?case by (auto simp: createNonce_run split: if_splits)
next
  case (cleanup s z s' L)
  then show ?case by (auto simp: cleanupExpiredAuth_def svc_simps)
qed (auto dest: siwe_nonces_effect(2) stellar_nonces_effect(2) refresh_nonces(2) validate_nonces(2))

lemma nonces_ok_marked:
  assumes "nonces_ok P (s, L)" "marked (siwe_nonces s) (siwe_nonces s')" "auth_draws s \<le> auth_draws s'"
  shows "nonces_ok P (s', L)"
  using assms nonces_ok_same [of P s L s'] nonces_ok_mark(1) [of P s L _ s'] unfolding marked_def by blast

lemma nonces_ok_spent:
  assumes ok: "nonces_ok P (s, L)" and row: "live_nonce v t (siwe_nonces s) = Some row"
    and "siwe_nonces s' = put_row nonce_id (row\<lparr>nonce_used := True\<rparr>) (siwe_nonces s)" "auth_draws s \<le> auth_draws s'"
  shows "nonces_ok P (s', v # L)"
  using nonces_ok_mark(2) [OF ok, of row s'] live_nonce_Some [OF row] assms(3,4) by simp

abbreviation run_nonces :: "'x AuthPorts \<Rightarrow> ('x, 'k) auth \<times> auth_event list \<Rightarrow> bool" where
  "run_nonces P p \<equiv> nonces_ok P (fst p, spent (snd p))"

lemma nonces_ok_step:
  assumes inv: "inj_on (drawn_nonce P) {..<auth_draws (fst p)} \<longrightarrow> run_nonces P p" and step: "auth_step P C p q"
    and inj: "inj_on (drawn_nonce P) {..<auth_draws (fst q)}"
  shows "run_nonces P q"
proof -
  have "inj_on (drawn_nonce P) {..<auth_draws (fst p)}"
    using inj_on_subset [OF inj] auth_step_draws [OF step] by auto
  with inv have ok: "run_nonces P p" by blast
  from step show ?thesis
  proof cases
    case (nonce s r s' L)
    then show ?thesis using nonces_ok_new [of P s "spent L" r s'] ok inj by simp
  next
    case (siwe i s a s' m L)
    note e = siwe_nonces_effect [OF siwe(3)]
    show ?thesis
    proof (cases "siwe_lemon m")
      case True
      then show ?thesis using nonces_ok_marked [OF _ e] ok siwe by simp
    next
      case False
      with siwe_login_nonce [OF siwe(3,4)] obtain n row where n: "sm_nonce m = Some n"
        and "live_nonce n (auth_now s) (siwe_nonces s) = Some row"
          "siwe_nonces s' = put_row nonce_id (row\<lparr>nonce_used := True\<rparr>) (siwe_nonces s)" by auto
      then show ?thesis using nonces_ok_spent [OF _ _ _ e(2)] ok siwe n False by simp
    qed
  next
    case (siwe_refused i s e s' L)
    then show ?thesis using nonces_ok_marked [OF _ siwe_nonces_effect [OF siwe_refused(3)]] ok by simp
  next
    case (stellar i s a s' L)
    obtain row where "live_nonce (in_nonce i) (auth_now s) (siwe_nonces s) = Some row"
        "siwe_nonces s' = put_row nonce_id (row\<lparr>nonce_used := True\<rparr>) (siwe_nonces s)"
      using stellar_login_nonce [OF stellar(3)] by blast
    then show ?thesis using nonces_ok_spent [OF _ _ _ stellar_nonces_effect(2) [OF stellar(3)]] ok stellar by simp
  next
    case (stellar_refused i s e s' L)
    then show ?thesis using nonces_ok_marked [OF _ stellar_nonces_effect [OF stellar_refused(3)]] ok by simp
  next
    case (refresh v s x s' L)
    then show ?thesis using nonces_ok_same [OF _ refresh_nonces [OF refresh(3)]] ok by simp
  next
    case (validate v s y s' L)
    then show ?thesis using nonces_ok_same [OF _ validate_nonces(1) [OF validate(3)]] validate_nonces(2) [OF validate(3)] ok by simp
  next
    case (cleanup s z s' L)
    then show ?thesis using nonces_ok_cleanup ok by fastforce
  next
    case (time s t L x)
    then show ?thesis using nonces_ok_same [of P s "spent L" "s\<lparr>auth_now := t, auth_chain := x\<rparr>"] ok by simp
  qed
qed

interpretation nonces: invariant_system "auth_step P C"
    "\<lambda>p. inj_on (drawn_nonce P) {..<auth_draws (fst p)} \<longrightarrow> run_nonces P p" for P C
  by unfold_locales (auto intro: nonces_ok_step)

text \<open>
  A nonce of which every row is used is refused by both logins, but for a message of a Lemon domain.
\<close>

lemma live_nonce_used: "(\<And>n. n \<in> set rows \<Longrightarrow> nonce_value n = v \<Longrightarrow> nonce_used n) \<Longrightarrow> live_nonce v t rows = None"
  by (auto simp: live_nonce_def find_None_iff)

lemma spent_refused:
  assumes "live_nonce v (auth_now s) (siwe_nonces s) = None"
  shows "in_nonce i = v \<Longrightarrow> \<exists>e. verifyStellarAndIssueToken P i s = (Inl e, s)"
    and "parseSiweMessage P (in_message i) = Inr m \<Longrightarrow> \<not> siwe_lemon m \<Longrightarrow> sm_nonce m = Some v \<Longrightarrow>
      \<exists>e. verifySiweAndIssueToken P C i s = (Inl e, s)"
  using assms
  by (auto simp: verifyStellarAndIssueToken_def stellar_check_def verifySiweAndIssueToken_def siwe_check_def sbind_def svc_simps slift_def
      Let_def split: sum.split)

text \<open>
  C35. Requests that run one after the other use a nonce once. Over every run of requests, logins,
  refreshes, validations, clean-ups and passing time from empty tables, as long as the random source has
  not drawn the same nonce twice: no nonce of the table served two successful logins, and in the
  state reached every further login with a nonce that was spent is refused and changes nothing, by
  the Stellar route and, but for the messages of a Lemon domain, by the SIWE route. (Two requests
  whose checks are interleaved can both succeed, see \<open>nonce_race\<close>.)
\<close>

theorem nonce_single_use:
  assumes "(auth_step P C)\<^sup>*\<^sup>* (s, []) (s', L)" and "auth_init C s"
    and "inj_on (drawn_nonce P) {..<auth_draws s'}"
  shows "distinct (spent L) \<and>
    (\<forall>i. in_nonce i \<in> set (spent L) \<longrightarrow> (\<exists>e. verifyStellarAndIssueToken P i s' = (Inl e, s'))) \<and>
    (\<forall>i m n. parseSiweMessage P (in_message i) = Inr m \<longrightarrow> \<not> siwe_lemon m \<longrightarrow> sm_nonce m = Some n \<longrightarrow> n \<in> set (spent L) \<longrightarrow>
      (\<exists>e. verifySiweAndIssueToken P C i s' = (Inl e, s')))"
proof -
  have "nonces_ok P (s, [])" using assms(2) by (simp add: nonces_ok_def auth_init_def)
  with nonces.inv_run [OF assms(1)] assms(3) have ok: "nonces_ok P (s', spent L)" by simp
  then have "live_nonce v (auth_now s') (siwe_nonces s') = None" if "v \<in> set (spent L)" for v
    using that by (intro live_nonce_used) (auto simp: nonces_ok_def)
  note refused = spent_refused [OF this]
  from ok have "distinct (spent L)" by (simp add: nonces_ok_def)
  then show ?thesis using refused(1) [OF _ refl] refused(2) by blast
qed

text \<open>
  C13. Caching is transparent. In every state that a run reaches from empty tables,
  \<open>validateToken\<close> accepts and refuses a token exactly as the table alone says, with
  the same wallet, so a token is accepted when its row exists, is not revoked and has not
  expired, and never otherwise; but for a token that was validated in the very millisecond of its
  expiry (see \<open>expired_token_served\<close>).
\<close>

theorem validate_transparent:
  assumes "(auth_step P C)\<^sup>*\<^sup>* (s, []) (s', L)" and "auth_init C s" and "cache_contract C" and "AtExpiry v \<notin> set L"
  shows "fst (validateToken C v s') = checkToken v s' \<and>
    (fst (validateToken C v s') = Inr w \<longleftrightarrow> (\<exists>r \<in> set (access_tokens s'). valid_row v w (auth_now s') r))"
proof -
  have "tokens_but (at_expiries L) C s'"
    using sessions.inv_run [OF assms(1)] tokens_but_init [OF assms(2)] assms(3) by simp
  then show ?thesis
    using validateToken_agrees_but [of "at_expiries L" C s' v] checkToken_iff [of s' v w] assms(4) by (simp add: tokens_but_def at_expiries_def)
qed

text \<open>
  C21. A token that is validated in the very millisecond of its expiry never ends. The validation
  stores it with a time to live of zero, which the cache keeps without end, so at every later time
  it is accepted for its wallet although the table says that it has expired, also after the
  clean-up job has deleted its row and when it can no longer be refreshed.
\<close>

theorem expired_token_served:
  assumes C: "cache_contract C" and row: "token_row v s = Some r" "tok_revokedAt r = None" "tok_expiresAt r = Some (auth_now s)"
    and run: "validateToken C v s = (x, s1)" and miss: "cache_get C (token_key v) (auth_now s) (auth_cache s) = None"
    and later: "auth_now s < t" and s2: "s2 = s1\<lparr>auth_now := t\<rparr>"
  shows "x = Inr (tok_wallet r) \<and> at_expiry v s \<and>
    validateToken C v s2 = (Inr (tok_wallet r), s2) \<and> checkToken v s2 = Inl (Unauthorized ''Invalid or expired token'') \<and>
    (auth_now s + GRACE_MS < t \<longrightarrow> (\<exists>e. refreshToken P C v s2 = (Inl e, s2)) \<and>
       (\<exists>s3. cleanupExpiredAuth s2 = (Inr (), s3) \<and> r \<notin> set (access_tokens s3) \<and> validateToken C v s3 = (Inr (tok_wallet r), s3)))"
proof -
  have s1: "x = Inr (tok_wallet r)"
      "s1 = s\<lparr>auth_cache := cache_set C (token_key v) (TokenCacheEntry (tok_wallet r)) 0 (auth_now s) (auth_cache s)\<rparr>"
    using run miss row by (auto simp: validateToken_def validate_miss_def auth_simps svc_simps cache_put_def token_ttl_def)
  have hit: "cache_get C (token_key v) t (auth_cache s1) = Some (TokenCacheEntry (tok_wallet r))"
    using cache_setD [OF C, of 0 "auth_now s" t] later s1(2) by simp
  have served: "validateToken C v u = (Inr (tok_wallet r), u)" if "auth_cache u = auth_cache s1" "auth_now u = t" for u
    using hit that by (simp add: validateToken_def auth_simps svc_simps)
  have found: "token_row v s2 = Some r" using row(1) by (simp add: s2 s1(2) token_row_def)
  have "r \<in> set (access_tokens s)" "tok_value r = v" using row(1) find_cond unfolding token_row_def by fastforce+
  then have "at_expiry v s" using row(3) by (auto simp: at_expiry_def list_ex_iff)
  moreover have "checkToken v s2 = Inl (Unauthorized ''Invalid or expired token'')"
    using found row later by (simp add: checkToken_def s2)
  moreover have "\<exists>e. refreshToken P C v s2 = (Inl e, s2)" if "auth_now s + GRACE_MS < t"
    using found row that by (simp add: refreshToken_def refresh_check_def sbind_def svc_simps s2)
  moreover have "\<exists>s3. cleanupExpiredAuth s2 = (Inr (), s3) \<and> r \<notin> set (access_tokens s3) \<and> validateToken C v s3 = (Inr (tok_wallet r), s3)"
    if grace: "auth_now s + GRACE_MS < t"
  proof -
    obtain s3 where "cleanupExpiredAuth s2 = (Inr (), s3)" "r \<notin> set (access_tokens s3)" "auth_cache s3 = auth_cache s1" "auth_now s3 = t"
      using grace row(3) by (simp add: cleanupExpiredAuth_def svc_simps s2 less_diff_eq)
    then show ?thesis using served [of s3] by blast
  qed
  ultimately show ?thesis using s1(1) served [of s2] by (simp add: s2)
qed

lemma refresh_issue_rows:
  assumes issue: "refresh_issue P C v r s = (Inr a, s')" and w: "normalizeWallet (tok_wallet r) = Inr (tok_wallet r)"
    and r: "r \<in> set (access_tokens s)"
  obtains q where "access_tokens s' = revoked (tok_id r) (auth_now s) (access_tokens s) @ [q]" "auth_now s' = auth_now s"
    "tok_id q \<noteq> tok_id r" "valid_row (res_token a) (tok_wallet r) (auth_now s) q" "res_wallet a = tok_wallet r"
proof -
  obtain w' where n: "normalizeWallet (tok_wallet r) = Inr w'" and a: "res_wallet a = tok_wallet r"
      and s': "s' = s\<lparr>access_tokens := revoked (tok_id r) (auth_now s) (access_tokens s) @
              [new_token (res_token a) w' (s\<lparr>access_tokens := revoked (tok_id r) (auth_now s) (access_tokens s)\<rparr>)],
            auth_cache := cache_del C (token_key v) (auth_cache s), auth_draws := auth_draws s + 1\<rparr>"
    by (rule refresh_issue_Inr [OF issue])
  have w': "w' = tok_wallet r" using n w by simp
  define q where "q = new_token (res_token a) w' (s\<lparr>access_tokens := revoked (tok_id r) (auth_now s) (access_tokens s)\<rparr>)"
  have "tok_id r \<in> set (map tok_id (revoked (tok_id r) (auth_now s) (access_tokens s)))"
    using r by (simp add: revoked_values del: set_map) simp
  then have "tok_id q \<noteq> tok_id r"
    using fresh_id_notin [of tok_id "revoked (tok_id r) (auth_now s) (access_tokens s)"] by (auto simp: q_def new_token_def)
  moreover have "valid_row (res_token a) (tok_wallet r) (auth_now s) q" by (simp add: valid_row_def q_def new_token_def w')
  ultimately show thesis using s' a by (intro that [of q]) (simp_all add: q_def)
qed

text \<open>
  A refresh works once. After it the old token is refused by validation and by another
  refresh, the new token is valid for the same wallet, and a second refresh that had read
  the row before the first one revoked it issues nothing and changes nothing.
\<close>

theorem refresh_once:
  assumes "refresh_check v s = (Inr r, s)" and "refresh_issue P C v r s = (Inr a, s')"
    and "tokens_ok C s" and "cache_contract C"
  shows "fst (validateToken C v s') = Inl (Unauthorized ''Invalid or expired token'') \<and>
    fst (refreshToken P C v s') = Inl (Unauthorized ''Token revoked'') \<and>
    fst (validateToken C (res_token a) s') = Inr (tok_wallet r) \<and> res_wallet a = tok_wallet r \<and>
    refresh_issue P C v r s' = (Inl (Unauthorized ''Token already revoked''), s')"
proof -
  have wf: "wf_tokens (access_tokens s)" using assms(3) by (simp add: tokens_ok_def)
  have r: "r \<in> set (access_tokens s)" "tok_value r = v" "tok_revokedAt r = None"
    using refresh_check_Inr [OF assms(1)] token_row_iff [OF wf] by auto
  have w: "normalizeWallet (tok_wallet r) = Inr (tok_wallet r)" using wf r(1) by (simp add: wf_tokens_def)
  obtain q where rows: "access_tokens s' = revoked (tok_id r) (auth_now s) (access_tokens s) @ [q]" "auth_now s' = auth_now s"
    and q: "tok_id q \<noteq> tok_id r" "valid_row (res_token a) (tok_wallet r) (auth_now s) q" "res_wallet a = tok_wallet r"
    by (rule refresh_issue_rows [OF assms(2) w r(1)])
  have ok: "tokens_ok C s'"
    using tok_run [OF tok_refresh [OF assms(4)], of P v s _ s' "{}"] assms by (simp add: refreshToken_def sbind_def tokens_ok_but)
  then have wf': "wf_tokens (access_tokens s')" by (simp add: tokens_ok_def)
  define old where "old = r\<lparr>tok_revokedAt := Some (auth_now s)\<rparr>"
  have "old \<in> set (access_tokens s')" using r by (force simp: rows revoked_def old_def)
  then have t: "token_row v s' = Some old" using token_row_iff [OF wf'] r by (simp add: old_def)
  have "checkToken (res_token a) s' = Inr (tok_wallet r)" using checkToken_iff [OF wf'] rows q(2) by auto
  moreover have "checkToken v s' = Inl (Unauthorized ''Invalid or expired token'')"
    using t by (simp add: checkToken_def old_def)
  moreover have "fst (refreshToken P C v s') = Inl (Unauthorized ''Token revoked'')"
    using t by (simp add: refreshToken_def sbind_def refresh_check_def svc_simps old_def)
  moreover have "refresh_issue P C v r s' = (Inl (Unauthorized ''Token already revoked''), s')"
    using q(1) by (intro refresh_issue_late) (simp add: rows revoked_none_left)
  ultimately show ?thesis using q(3) validateToken_agrees [OF ok] by simp
qed

section \<open>Replay of a Lemon login\<close>

lemma siwe_check_lemon:
  assumes "parseSiweMessage P (in_message i) = Inr m" "siwe_lemon m" "sm_nonce m = Some n" "n \<noteq> []" "siwe_address m = Some w"
  shows "siwe_check P C i s =
    (if cache_get C (replayKey n w) (auth_now s) (auth_cache s) \<noteq> None then (Inl (Unauthorized ''Nonce already used''), s)
     else (Inr (m, n, None), s))"
  using assms by (simp add: siwe_check_def Let_def auth_simps svc_simps)

lemma siwe_signature_plain:
  assumes "is_plain_ecdsa (in_signature i)" "recovers P (in_message i) (in_signature i) (siwe_address m)"
  shows "siwe_signature P i m s = (Inr True, s)"
  using assms by (simp add: siwe_signature_def Let_def auth_simps svc_simps)

text \<open>
  C36. A login through a Lemon domain with a plain signature can be replayed: the same request
  is refused for ten minutes, while the mark of its nonce is in the cache, and afterwards it
  logs the same wallet in again, however old the message is.
\<close>

theorem lemon_replay:
  assumes "verifySiweAndIssueToken P C i s = (Inr a, s')" and "parseSiweMessage P (in_message i) = Inr m" and "siwe_lemon m"
    and "is_plain_ecdsa (in_signature i)" and "recovers P (in_message i) (in_signature i) (siwe_address m)"
    and "cache_contract C" and "auth_now s \<le> t" and "drawn_token P s' \<notin> tok_value ` set (access_tokens s')"
  shows "if t \<le> auth_now s + 10 * 60 * 1000
    then fst (verifySiweAndIssueToken P C i (s'\<lparr>auth_now := t\<rparr>)) = Inl (Unauthorized ''Nonce already used'')
    else \<exists>b u. verifySiweAndIssueToken P C i (s'\<lparr>auth_now := t\<rparr>) = (Inr b, u) \<and> res_wallet b = res_wallet a"
proof -
  obtain m' n stored where c: "siwe_check P C i s = (Inr (m', n, stored), s)"
      and r: "siwe_issue P C i (m', n, stored) s = (Inr a, s')"
    by (rule siwe_login_split [OF assms(1)])
  note q = siwe_check_Inr [OF c]
  have m: "m' = m" using q(1) assms(2) by simp
  from r obtain w where w: "siwe_address m = Some (res_wallet a)" "normalizeWallet (res_wallet a) = Inr w"
    "s' = snd (siwe_consume C m n stored s)\<lparr>auth_draws := auth_draws s + 1,
            access_tokens := access_tokens s @ [new_token (res_token a) w s]\<rparr>"
    unfolding m by (rule siwe_issue_run)
  have get: "cache_get C (replayKey n (res_wallet a)) t (auth_cache s') = (if t \<le> auth_now s + 10 * 60 * 1000 then Some UsedMark else None)"
    using w assms(3) cache_setD [OF assms(6) _ assms(7)] by (simp add: siwe_consume_run)
  define u where "u = s'\<lparr>auth_now := t\<rparr>"
  have chk: "siwe_check P C i u = (if t \<le> auth_now s + 10 * 60 * 1000 then (Inl (Unauthorized ''Nonce already used''), u)
      else (Inr (m, n, None), u))"
    using siwe_check_lemon [OF assms(2,3) q(2) [unfolded m] q(3) w(1), of C u] get by (simp add: u_def)
  define v where "v = snd (siwe_consume C m n None u)"
  have v: "siwe_consume C m n None u = (Inr (), v)" "drawn_token P v = drawn_token P s'" "access_tokens v = access_tokens s'"
    by (simp_all add: v_def siwe_consume_run u_def drawn_token_def)
  then have "\<exists>x y. createAccessToken P (res_wallet a) v = (Inr x, y)"
    using w(2) assms(8) by (simp add: createAccessToken_run)
  then have "\<exists>b y. siwe_issue P C i (m, n, None) u = (Inr b, y) \<and> res_wallet b = res_wallet a"
    using v(1) w(1) siwe_signature_plain [OF assms(4,5), of u]
    by (auto simp: siwe_issue_def sbind_def Let_def svc_simps)
  then show ?thesis using chk by (auto simp: verifySiweAndIssueToken_def sbind_def u_def [symmetric])
qed

section \<open>Examples\<close>

text \<open>A store that keeps each value with the time it expires at, and does not expire those with no time to live.\<close>

type_synonym map_cache = "string \<rightharpoonup> cache_value \<times> int option"

definition map_store :: "map_cache CacheStore" where
  "map_store = \<lparr>cache_get = (\<lambda>k t c. case c k of None \<Rightarrow> None
      | Some (v, e) \<Rightarrow> (case e of None \<Rightarrow> Some v | Some x \<Rightarrow> if t \<le> x then Some v else None)),
    cache_set = (\<lambda>k v ttl t c. c(k \<mapsto> (v, if ttl = 0 then None else Some (t + ttl)))),
    cache_del = (\<lambda>k c. c(k := None))\<rparr>"

lemma map_store_contract: "cache_contract map_store"
  by (simp add: cache_contract_def map_store_def)

definition example_evm :: string where "example_evm = ''0x'' @ replicate 40 (CHR ''a'')"

definition lemon_message :: SiweMessage where
  "lemon_message = \<lparr>sm_address = Some example_evm, sm_nonce = Some ''n1'', sm_chainId = Some 8453,
     sm_domain = Some ''lemon.me'', sm_issuedAt = None\<rparr>"

definition web_message :: SiweMessage where
  "web_message = lemon_message\<lparr>sm_domain := Some ''lendoor.xyz''\<rparr>"

text \<open>Ports that accept one signature, for messages that the parser reads as the examples.\<close>

definition example_ports :: "unit AuthPorts" where
  "example_ports = \<lparr>
     parseSiweMessage = (\<lambda>s. if s = ''lemon'' then Inr lemon_message else Inr web_message),
     verifySiweMessage = (\<lambda>_ _ _ _ _ _. Inr False),
     verifyMessage = (\<lambda>_ _ _ _ _. Inr False),
     recoverMessageAddress = (\<lambda>_ _. Inr example_evm),
     verifyEd25519 = (\<lambda>sig digest key. Inr (sig = [1])),
     sha256 = (\<lambda>bs. replicate 32 0),
     base64_decode = (\<lambda>s. [1]),
     randomBytes = (\<lambda>n k. word_of_nat k # replicate (n - 1) 0)\<rparr>"

definition plain_signature :: string where "plain_signature = ''0x'' @ replicate 130 (CHR ''1'')"

definition empty_auth :: "(unit, map_cache) auth" where
  "empty_auth = \<lparr>siwe_nonces = [], access_tokens = [], auth_cache = Map.empty, auth_chain = (), auth_now = 0, auth_draws = 0\<rparr>"

definition lemon_input :: VerifyInput where
  "lemon_input = \<lparr>in_wallet = [], in_signature = plain_signature, in_message = ''lemon'', in_nonce = []\<rparr>"

lemma account_alias_norm:
  assumes "length key = 32" and "c \<in> set BASE32_ALPHABET"
  shows "normalizeWallet (account_id key @ [c]) = Inr (account_id key @ [c])"
proof -
  have "set (account_id key) \<subseteq> set BASE32_ALPHABET"
    using to_digits_less [of 32] by (auto simp: account_id_def b32_encode_def alphabet_length)
  moreover have "\<forall>c \<in> set BASE32_ALPHABET. \<not> is_ws c" by code_simp
  ultimately have "js_trim (account_id key @ [c]) = account_id key @ [c]" using assms(2) by (intro js_trim_no_ws) auto
  moreover have "isValidStellarPublicKey (account_id key @ [c])"
    using decodeStellarPublicKey_iff [of "account_id key @ [c]" key] account_id_alias [OF assms] assms(1)
    by (simp add: isValidStellarPublicKey_def)
  ultimately show ?thesis
    using length_account_id [OF assms(1)] by (simp add: normalizeWallet_def EVM_WALLET_ADDRESS_PATTERN_def)
qed

definition auth_account :: string where "auth_account = account_id (replicate 32 0)"

lemma auth_account_facts:
  "normalizeWallet auth_account = Inr auth_account"
  "decodeStellarPublicKey auth_account = Inr (replicate 32 0)"
  by (simp_all add: auth_account_def account_id_norm account_id_decodes decodeStellarPublicKey_iff)

lemma example_evm_facts: "normalizeWallet example_evm = Inr example_evm" "to_lower example_evm = example_evm"
proof -
  have p: "EVM_WALLET_ADDRESS_PATTERN example_evm" "to_lower example_evm = example_evm"
    unfolding example_evm_def by code_simp+
  then have "js_trim example_evm = example_evm" by (intro js_trim_no_ws evm_pattern_no_ws)
  with p show "normalizeWallet example_evm = Inr example_evm" "to_lower example_evm = example_evm"
    by (simp_all add: normalizeWallet_def)
qed

lemma hex_of_Cons: "hex_of (b # bs) = [hex_digit (unat b div 16), hex_digit (unat b mod 16)] @ hex_of bs"
  by (simp add: hex_of_def)

lemma example_draws:
  "drawn_nonce example_ports 0 \<noteq> []" "hex_of (randomBytes example_ports 24 1) \<noteq> hex_of (randomBytes example_ports 24 2)"
  "hex_of (randomBytes example_ports 24 0) \<noteq> hex_of (randomBytes example_ports 24 1)"
  by (simp_all add: drawn_nonce_def example_ports_def hex_of_Cons hex_digit_def)

definition nonce0 :: string where "nonce0 = drawn_nonce example_ports 0"

definition nonce_auth :: "(unit, map_cache) auth" where
  "nonce_auth = empty_auth\<lparr>auth_draws := 1, siwe_nonces :=
     [\<lparr>nonce_id = 1, nonce_value = nonce0, nonce_used = False, nonce_expiresAt = 600000\<rparr>]\<rparr>"

definition account_input :: VerifyInput where
  "account_input = \<lparr>in_wallet = auth_account, in_signature = [], in_message = nonce0, in_nonce = nonce0\<rparr>"

lemma example_nonce: "createNonce example_ports empty_auth = (Inr nonce0, nonce_auth)"
  by (simp add: createNonce_run empty_auth_def nonce_auth_def nonce0_def fresh_id_def)

lemma includes_self: "includes_str s s"
  using starts_with_append [of s "[]"] by (cases s) simp_all

lemma example_signature: "stellar_signature example_ports account_input auth_account"
  by (simp add: stellar_signature_def auth_account_facts example_ports_def)

lemma example_check:
  "stellar_check account_input nonce_auth = (Inr (auth_account, hd (siwe_nonces nonce_auth)), nonce_auth)"
  by (simp add: stellar_check_def svc_simps account_input_def auth_account_facts live_nonce_def nonce_auth_def
      empty_auth_def text_decode_encode includes_self)

definition token1 :: string where "token1 = hex_of (randomBytes example_ports 24 1)"

definition login_auth :: "(unit, map_cache) auth" where
  "login_auth = nonce_auth\<lparr>siwe_nonces := [\<lparr>nonce_id = 1, nonce_value = nonce0, nonce_used = True, nonce_expiresAt = 600000\<rparr>],
     auth_draws := 2, access_tokens := [new_token token1 auth_account nonce_auth]\<rparr>"

lemma example_login:
  "verifyStellarAndIssueToken example_ports account_input nonce_auth =
     (Inr \<lparr>res_wallet = auth_account, res_token = token1\<rparr>, login_auth)"
  by (simp add: verifyStellarAndIssueToken_def sbind_def example_check stellar_issue_def example_signature
      save_nonce_run createAccessToken_run auth_account_facts svc_simps)
    (simp add: nonce_auth_def login_auth_def empty_auth_def put_row_def drawn_token_def token1_def new_token_def)

lemma example_init: "auth_init map_store empty_auth"
  by (simp add: auth_init_def empty_auth_def map_store_def)

lemma auth_run: "(auth_step example_ports map_store)\<^sup>*\<^sup>* (empty_auth, []) (login_auth, [Spent nonce0])"
proof -
  have "auth_step example_ports map_store (empty_auth, []) (nonce_auth, [])" by (rule auth_step.nonce [OF example_nonce])
  moreover have "auth_step example_ports map_store (nonce_auth, []) (login_auth, [Spent (in_nonce account_input)])"
    by (rule auth_step.stellar [OF example_login])
  ultimately show ?thesis by (simp add: account_input_def)
qed

lemma login_auth_sel [simp]: "access_tokens login_auth = [new_token token1 auth_account nonce_auth]" "auth_draws login_auth = 2"
    "auth_now login_auth = 0" "auth_now nonce_auth = 0"
  by (simp_all add: login_auth_def nonce_auth_def empty_auth_def)

theorem stellar_login_sound_witness:
  "verifyStellarAndIssueToken example_ports account_input nonce_auth =
     (Inr \<lparr>res_wallet = auth_account, res_token = token1\<rparr>, login_auth) \<and>
   stellar_signature example_ports account_input auth_account \<and> access_tokens login_auth \<noteq> []"
  using stellar_login_sound [OF example_login] example_login by simp

theorem nonce_race_witness:
  "\<exists>a s1 b s2. stellar_issue example_ports account_input (auth_account, hd (siwe_nonces nonce_auth)) nonce_auth = (Inr a, s1) \<and>
     stellar_issue example_ports account_input (auth_account, hd (siwe_nonces nonce_auth)) s1 = (Inr b, s2) \<and>
     res_token a \<noteq> res_token b \<and> length (access_tokens s2) = 2"
proof -
  have "auth_draws nonce_auth = 1" "access_tokens nonce_auth = []" by (simp_all add: nonce_auth_def empty_auth_def)
  then show ?thesis
    using nonce_race [OF example_check example_check refl, of example_ports] example_signature example_draws
    by (simp add: numeral_2_eq_2 eq_commute)
qed

theorem nonce_single_use_witness:
  "\<exists>e. verifyStellarAndIssueToken example_ports account_input nonce_auth = (Inr \<lparr>res_wallet = auth_account, res_token = token1\<rparr>, login_auth) \<and>
     verifyStellarAndIssueToken example_ports account_input login_auth = (Inl e, login_auth)"
proof -
  have "inj_on (drawn_nonce example_ports) {..<auth_draws login_auth}"
    by (auto simp: inj_on_def lessThan_Suc numeral_2_eq_2 drawn_nonce_def example_ports_def hex_of_Cons hex_digit_def)
  from nonce_single_use [OF auth_run example_init this] example_login show ?thesis by (simp add: account_input_def)
qed

text \<open>A run in which the token of the login is validated, and so cached, and then expires.\<close>

lemma expiry_run:
  "\<exists>s. (auth_step example_ports map_store)\<^sup>*\<^sup>* (empty_auth, []) (s\<lparr>auth_now := 3600001\<rparr>, [Spent nonce0]) \<and>
     validateToken map_store token1 login_auth = (Inr auth_account, s) \<and> access_tokens s = access_tokens login_auth"
proof -
  have miss: "cache_get map_store (token_key token1) (auth_now login_auth) (auth_cache login_auth) = None"
    by (simp add: login_auth_def nonce_auth_def empty_auth_def map_store_def)
  have row: "token_row token1 login_auth = Some (new_token token1 auth_account nonce_auth)"
    by (simp add: token_row_def) (simp add: new_token_def)
  obtain s where v: "validateToken map_store token1 login_auth = (Inr auth_account, s)"
      and s: "access_tokens s = access_tokens login_auth" "auth_now s = 0"
    using miss row by (auto simp: validateToken_def validate_miss_def auth_simps svc_simps cache_put_def new_token_def)
  have "\<not> at_expiry token1 login_auth" by (simp add: at_expiry_def new_token_def)
  then have "auth_step example_ports map_store (login_auth, [Spent nonce0]) (s, [Spent nonce0])"
    using auth_step.validate [OF v, of example_ports "[Spent nonce0]"] by simp
  moreover have "auth_step example_ports map_store (s, [Spent nonce0]) (s\<lparr>auth_now := 3600001\<rparr>, [Spent nonce0])"
    using auth_step.time [of s 3600001 example_ports map_store "[Spent nonce0]" "auth_chain s"] s(2) by (cases s) simp
  ultimately show ?thesis using auth_run v s(1) by (intro exI [of _ s]) (auto intro: rtranclp.rtrancl_into_rtrancl)
qed

theorem validate_transparent_witness:
  "\<exists>s. validateToken map_store token1 login_auth = (Inr auth_account, s) \<and> fst (validateToken map_store token1 (s\<lparr>auth_now := 3600001\<rparr>)) \<noteq> Inr auth_account"
proof -
  obtain s where s: "(auth_step example_ports map_store)\<^sup>*\<^sup>* (empty_auth, []) (s\<lparr>auth_now := 3600001\<rparr>, [Spent nonce0])"
    "validateToken map_store token1 login_auth = (Inr auth_account, s)" "access_tokens s = access_tokens login_auth"
    using expiry_run by blast
  from validate_transparent [OF s(1) example_init map_store_contract, of token1 auth_account] s(2,3) show ?thesis
    by (intro exI [of _ s]) (auto simp: valid_row_def new_token_def)
qed

theorem expired_token_served_witness:
  "\<exists>s1. validateToken map_store token1 (login_auth\<lparr>auth_now := 3600000\<rparr>) = (Inr auth_account, s1) \<and>
     fst (validateToken map_store token1 (s1\<lparr>auth_now := 99999999999\<rparr>)) = Inr auth_account \<and>
     checkToken token1 (s1\<lparr>auth_now := 99999999999\<rparr>) = Inl (Unauthorized ''Invalid or expired token'')"
proof -
  let ?s = "login_auth\<lparr>auth_now := 3600000\<rparr>"
  obtain x s1 where run: "validateToken map_store token1 ?s = (x, s1)" by fastforce
  have row: "token_row token1 ?s = Some (new_token token1 auth_account nonce_auth)"
    by (simp add: token_row_def) (simp add: new_token_def)
  have miss: "cache_get map_store (token_key token1) (auth_now ?s) (auth_cache ?s) = None"
    by (simp add: login_auth_def nonce_auth_def empty_auth_def map_store_def)
  have r: "tok_revokedAt (new_token token1 auth_account nonce_auth) = None" "tok_wallet (new_token token1 auth_account nonce_auth) = auth_account"
    "tok_expiresAt (new_token token1 auth_account nonce_auth) = Some (auth_now ?s)"
    by (simp_all add: new_token_def)
  from expired_token_served [OF map_store_contract row r(1,3) run miss _ refl, of 99999999999] run r(2) show ?thesis by simp
qed

lemma example_tokens_ok: "tokens_ok map_store login_auth"
  using sessions.inv_run [OF auth_run] tokens_but_init [OF example_init] map_store_contract by (simp add: tokens_ok_but)

theorem refresh_once_witness:
  "\<exists>a s'. refreshToken example_ports map_store token1 login_auth = (Inr a, s') \<and>
     fst (validateToken map_store token1 s') = Inl (Unauthorized ''Invalid or expired token'')"
proof -
  define r where "r = new_token token1 auth_account nonce_auth"
  have c: "refresh_check token1 login_auth = (Inr r, login_auth)"
    by (simp add: refresh_check_def svc_simps token_row_def r_def new_token_def GRACE_MS_def)
  have "\<exists>a s'. refresh_issue example_ports map_store token1 r login_auth = (Inr a, s')"
    using example_draws
    by (simp add: refresh_issue_def sbind_def revoke_row_run svc_simps cache_evict_def createAccessToken_run r_def
        new_token_def auth_account_facts drawn_token_def revoked_def token1_def)
  then obtain a s' where i: "refresh_issue example_ports map_store token1 r login_auth = (Inr a, s')" by blast
  from refresh_once [OF c i example_tokens_ok map_store_contract] c i show ?thesis
    by (auto simp: refreshToken_def sbind_def)
qed

lemma lemon_parse: "parseSiweMessage example_ports (in_message lemon_input) = Inr lemon_message" "siwe_lemon lemon_message"
    "siwe_address lemon_message = Some example_evm"
proof -
  show "siwe_lemon lemon_message" by code_simp
  show "siwe_address lemon_message = Some example_evm" by (simp add: siwe_address_def lemon_message_def example_evm_facts)
qed (simp add: example_ports_def lemon_input_def)

lemma lemon_signature: "is_plain_ecdsa (in_signature lemon_input)"
    "recovers example_ports (in_message lemon_input) (in_signature lemon_input) (siwe_address lemon_message)"
proof -
  show "is_plain_ecdsa (in_signature lemon_input)" by code_simp
  show "recovers example_ports (in_message lemon_input) (in_signature lemon_input) (siwe_address lemon_message)"
    by (simp add: recovers_def lemon_parse example_ports_def example_evm_facts)
qed

lemma lemon_login:
  "\<exists>a s'. verifySiweAndIssueToken example_ports map_store lemon_input empty_auth = (Inr a, s') \<and> auth_draws s' = 1 \<and>
     access_tokens s' = [new_token (hex_of (randomBytes example_ports 24 0)) example_evm empty_auth]"
proof -
  have n: "sm_nonce lemon_message = Some ''n1''" by (simp add: lemon_message_def)
  have c: "siwe_check example_ports map_store lemon_input empty_auth = (Inr (lemon_message, ''n1'', None), empty_auth)"
    using siwe_check_lemon [OF lemon_parse(1,2) n _ lemon_parse(3), of map_store empty_auth]
    by (simp add: map_store_def empty_auth_def)
  show ?thesis
    using siwe_signature_plain [OF lemon_signature, of empty_auth]
    by (simp add: verifySiweAndIssueToken_def sbind_def c siwe_issue_def siwe_consume_run createAccessToken_run
        lemon_parse example_evm_facts svc_simps Let_def)
      (simp add: empty_auth_def drawn_token_def new_token_def)
qed

theorem siwe_login_sound_witness:
  "\<exists>a s'. verifySiweAndIssueToken example_ports map_store lemon_input empty_auth = (Inr a, s') \<and> res_wallet a = example_evm \<and>
     siwe_signed example_ports lemon_input lemon_message () 0"
proof -
  obtain a s' where l: "verifySiweAndIssueToken example_ports map_store lemon_input empty_auth = (Inr a, s')"
    using lemon_login by blast
  from siwe_login_sound [OF l] lemon_parse l show ?thesis by (auto simp: empty_auth_def)
qed

theorem lemon_replay_witness:
  "\<exists>a s' b u. verifySiweAndIssueToken example_ports map_store lemon_input empty_auth = (Inr a, s') \<and>
     verifySiweAndIssueToken example_ports map_store lemon_input (s'\<lparr>auth_now := 700000\<rparr>) = (Inr b, u) \<and> res_wallet b = res_wallet a"
proof -
  obtain a s' where l: "verifySiweAndIssueToken example_ports map_store lemon_input empty_auth = (Inr a, s')"
      and s': "auth_draws s' = 1" "access_tokens s' = [new_token (hex_of (randomBytes example_ports 24 0)) example_evm empty_auth]"
    using lemon_login by blast
  have "drawn_token example_ports s' \<notin> tok_value ` set (access_tokens s')"
    using example_draws(3) s' by (simp add: drawn_token_def new_token_def eq_commute)
  from lemon_replay [OF l lemon_parse(1,2) lemon_signature map_store_contract _ this, of 700000] l show ?thesis
    by (auto simp: empty_auth_def)
qed

section \<open>Aliases of a Stellar account\<close>

text \<open>
  The holder of one Stellar key can log in as several wallets: whatever message and
  signature are accepted for the canonical address of the key are accepted for that address
  followed by any base-32 character, and the token is then for this other wallet.
\<close>

theorem alias_login:
  assumes "length key = 32" and "c \<in> set BASE32_ALPHABET" and "in_wallet i = account_id key"
    and "verifyStellarAndIssueToken P i s = (Inr a, s')"
  shows "\<exists>b u. verifyStellarAndIssueToken P (i\<lparr>in_wallet := account_id key @ [c]\<rparr>) s = (Inr b, u) \<and>
    res_wallet b = account_id key @ [c] \<and> res_wallet b \<noteq> res_wallet a"
proof -
  define j where "j = i\<lparr>in_wallet := account_id key @ [c]\<rparr>"
  have j: "in_wallet j = account_id key @ [c]" "in_message j = in_message i" "in_signature j = in_signature i" "in_nonce j = in_nonce i"
    by (simp_all add: j_def)
  have w: "normalizeWallet (account_id key) = Inr (account_id key)" by (rule account_id_norm [OF assms(1)])
  have w': "normalizeWallet (account_id key @ [c]) = Inr (account_id key @ [c])" by (rule account_alias_norm [OF assms(1,2)])
  obtain v n where c: "stellar_check i s = (Inr (v, n), s)" and r: "stellar_issue P i (v, n) s = (Inr a, s')"
    by (rule stellar_login_split [OF assms(4)])
  note q = stellar_check_Inr [OF c]
  have v: "v = account_id key" using q(1) w assms(3) by simp
  have g: "stellar_signature P i v" "drawn_token P s \<notin> tok_value ` set (access_tokens s)" "res_wallet a = v"
    using stellar_issue_run [OF r] w v by auto
  have "stellar_check j s = (Inr (account_id key @ [c], n), s)"
    using q w' by (simp add: stellar_check_def svc_simps j text_decode_encode)
  moreover have "stellar_signature P j (account_id key @ [c])"
    using g(1) v account_id_decodes [OF assms(1)] account_id_alias [OF assms(1,2)] assms(1)
    by (simp add: stellar_signature_def j decodeStellarPublicKey_iff [of _ key, THEN iffD2])
  ultimately show ?thesis
    using g w' v unfolding j_def [symmetric]
    by (simp add: verifyStellarAndIssueToken_def sbind_def stellar_issue_def save_nonce_run createAccessToken_run svc_simps
        drawn_token_def)
qed

theorem alias_login_witness:
  "\<exists>b u. verifyStellarAndIssueToken example_ports (account_input\<lparr>in_wallet := auth_account @ ''A''\<rparr>) nonce_auth = (Inr b, u) \<and>
     res_wallet b = auth_account @ ''A''"
proof -
  have "CHR ''A'' \<in> set BASE32_ALPHABET" "length (replicate 32 (0 :: byte)) = 32" by code_simp+
  from alias_login [OF this(2,1) _ example_login] show ?thesis
    by (auto simp: account_input_def auth_account_def)
qed

end
