(* ===== verification/Cctp_Transfer.thy ===== *)
theory Cctp_Transfer
  imports Wallet_Units
begin

text \<open>
  The CCTP transfer state machine (\<open>backend/src/cctp/cctp-transfer.ts\<close>) and the Iris
  attestation client (\<open>backend/src/cctp/iris-client.ts\<close>): the transition table, the
  single function that writes a row's state, the mapping from HTTP answers to
  attestation statuses, and one reconciliation step. A field that the code may leave
  undefined is an option; a patch also distinguishes an absent key (\<open>None\<close>) from a key
  whose value is undefined (\<open>Some None\<close>), because the spread operator does.
\<close>

section \<open>Rows and transitions\<close>

definition CCTP_DOMAIN_STELLAR :: nat where "CCTP_DOMAIN_STELLAR = 27"
definition CCTP_DOMAIN_BASE_SEPOLIA :: nat where "CCTP_DOMAIN_BASE_SEPOLIA = 6"

datatype CctpTransferState = Pending | Attested | Submitting | Delivered | Failed

fun LEGAL_TRANSITIONS :: "CctpTransferState \<Rightarrow> CctpTransferState list" where
  "LEGAL_TRANSITIONS Pending = [Attested, Failed]"
| "LEGAL_TRANSITIONS Attested = [Submitting, Failed]"
| "LEGAL_TRANSITIONS Submitting = [Delivered, Submitting, Attested, Failed]"
| "LEGAL_TRANSITIONS Delivered = []"
| "LEGAL_TRANSITIONS Failed = [Delivered]"

datatype transfer_error = IllegalCctpTransition CctpTransferState CctpTransferState string

record CctpTransfer =
  tr_nonce :: string
  tr_sourceDomain :: nat
  tr_destinationDomain :: nat
  tr_burnTxHash :: string
  tr_amountUsdc6 :: int
  tr_beneficiary :: string
  tr_state :: CctpTransferState
  tr_attestation :: "string option"
  tr_message :: "string option"
  tr_mintTxHash :: "string option"
  tr_depositTxHash :: "string option"
  tr_lastError :: "string option"
  tr_attempts :: nat

record transfer_patch =
  p_attestation :: "string option option"
  p_message :: "string option option"
  p_mintTxHash :: "string option option"
  p_depositTxHash :: "string option option"
  p_lastError :: "string option option"

definition no_patch :: transfer_patch where
  "no_patch = \<lparr>p_attestation = None, p_message = None, p_mintTxHash = None,
     p_depositTxHash = None, p_lastError = None\<rparr>"

text \<open>\<open>{ ...t, ...patch }\<close>.\<close>

definition spread :: "CctpTransfer \<Rightarrow> transfer_patch \<Rightarrow> CctpTransfer" where
  "spread t p = t\<lparr>tr_attestation := nullish (p_attestation p) (tr_attestation t),
     tr_message := nullish (p_message p) (tr_message t),
     tr_mintTxHash := nullish (p_mintTxHash p) (tr_mintTxHash t),
     tr_depositTxHash := nullish (p_depositTxHash p) (tr_depositTxHash t),
     tr_lastError := nullish (p_lastError p) (tr_lastError t)\<rparr>"

definition transition ::
    "CctpTransfer \<Rightarrow> CctpTransferState \<Rightarrow> transfer_patch \<Rightarrow> (transfer_error, CctpTransfer) result" where
  "transition t to patch =
     (if tr_state t = to \<and> patch = no_patch then Inr t
      else if tr_state t = to \<and> to \<notin> set (LEGAL_TRANSITIONS (tr_state t)) then Inr (spread t patch)
      else if to \<notin> set (LEGAL_TRANSITIONS (tr_state t))
        then Inl (IllegalCctpTransition (tr_state t) to (tr_nonce t))
      else
        let cleared = (if to \<noteq> Failed \<and> p_lastError patch = None then t\<lparr>tr_lastError := None\<rparr> else t)
        in Inr ((spread cleared patch)\<lparr>tr_state := to\<rparr>))"

section \<open>Attestation statuses\<close>

datatype IrisAttestationStatus =
    IrisPending
  | IrisComplete string "string option"
  | IrisBackoff int
  | IrisError string

record iris_body =
  ib_attestation :: "string option"
  ib_status :: "string option"
  ib_error :: "string option"
  ib_message :: "string option"

definition attestation_ready :: "string option \<Rightarrow> bool" where
  "attestation_ready att =
     (case att of None \<Rightarrow> False | Some a \<Rightarrow> length a > 0 \<and> to_upper a \<noteq> ''PENDING'')"

definition irisStatusFromHttp :: "nat \<Rightarrow> iris_body option \<Rightarrow> int option \<Rightarrow> IrisAttestationStatus" where
  "irisStatusFromHttp httpStatus body retryAfterSeconds =
     (let att = Option.bind body ib_attestation;
          status = Option.bind body ib_status;
          err = Option.bind body ib_error;
          message = Option.bind body ib_message
      in if httpStatus = 200 then
           (if (status = None \<or> status = Some ''complete'') \<and> attestation_ready att
            then IrisComplete (the att) message else IrisPending)
         else if httpStatus = 404 then IrisPending
         else if httpStatus = 429 then IrisBackoff (nullish retryAfterSeconds 5 * 1000)
         else if httpStatus = 401 \<or> httpStatus = 403 then IrisBackoff 60000
         else if httpStatus \<ge> 500 then IrisPending
         else if httpStatus = 400 \<and> \<not> falsy_str err then IrisError (the err)
         else IrisBackoff 30000)"

section \<open>Reconciliation\<close>

definition att_patch :: "IrisAttestationStatus \<Rightarrow> transfer_patch" where
  "att_patch iris =
     (case iris of
        IrisComplete a m \<Rightarrow> no_patch\<lparr>p_attestation := Some (Some a), p_message := Some m\<rparr>
      | _ \<Rightarrow> no_patch)"

definition is_complete :: "IrisAttestationStatus \<Rightarrow> bool" where
  "is_complete iris = (case iris of IrisComplete _ _ \<Rightarrow> True | _ \<Rightarrow> False)"

definition reconcile ::
    "CctpTransfer \<Rightarrow> IrisAttestationStatus \<Rightarrow> bool \<Rightarrow> (transfer_error, CctpTransfer) result" where
  "reconcile t iris nonceUsedOnChain =
     (if nonceUsedOnChain \<and> tr_state t \<noteq> Delivered then
        let att = att_patch iris in
        if tr_state t = Failed then transition t Delivered att
        else
          rbind (if tr_state t = Pending then transition t Attested att else Inr t) (\<lambda>cur.
          let cur = (if tr_state cur = Attested \<and> is_complete iris \<and> falsy_str (tr_attestation cur)
                     then spread cur att else cur)
          in rbind (if tr_state cur = Attested then transition cur Submitting no_patch else Inr cur) (\<lambda>cur.
          let finalAtt = (if falsy_str (tr_attestation cur) \<and> is_complete iris then att else no_patch)
          in transition cur Delivered finalAtt))
      else
        case tr_state t of
          Pending \<Rightarrow>
            (case iris of
               IrisComplete a m \<Rightarrow>
                 transition t Attested (no_patch\<lparr>p_attestation := Some (Some a), p_message := Some m\<rparr>)
             | IrisError msg \<Rightarrow> transition t Failed (no_patch\<lparr>p_lastError := Some (Some msg)\<rparr>)
             | _ \<Rightarrow> Inr (t\<lparr>tr_attempts := tr_attempts t + 1\<rparr>))
        | _ \<Rightarrow> Inr t)"

section \<open>The HTTP client of Iris\<close>

text \<open>
  The transport is a parameter: what \<open>fetch\<close> and \<open>res.json()\<close> gave. A body that is not
  JSON is \<open>None\<close>.
\<close>

record iris_json =
  ij_messages :: "iris_body list option"
  ij_error :: "string option"

datatype fetch_outcome = FetchFailed | Response nat "string option" "iris_json option"

text \<open>\<open>Number.parseInt(s, 10)\<close>, \<open>None\<close> for \<open>NaN\<close>.\<close>

definition js_parseInt :: "string \<Rightarrow> int option" where
  "js_parseInt s =
     (let t = dropWhile is_ws s;
          neg = starts_with t ''-'';
          u = (if neg \<or> starts_with t ''+'' then tl t else t);
          ds = takeWhile is_digit_char u
      in if ds = [] then None
         else Some ((if neg then - 1 else 1) * int (horner 10 (map hex_value ds))))"

definition getAttestation :: "(string \<Rightarrow> fetch_outcome) \<Rightarrow> string \<Rightarrow> nat \<Rightarrow> string \<Rightarrow> IrisAttestationStatus" where
  "getAttestation fetchImpl baseUrl sourceDomain burnTxHash =
     (let url = baseUrl @ ''/v2/messages/'' @ nat_str sourceDomain @ ''?transactionHash='' @ burnTxHash in
      case fetchImpl url of
        FetchFailed \<Rightarrow> IrisBackoff 15000
      | Response status retryAfterHeader body \<Rightarrow>
          (let retryAfterSeconds =
                 (case retryAfterHeader of
                    None \<Rightarrow> None
                  | Some h \<Rightarrow> if h = [] then None
                      else (case js_parseInt h of None \<Rightarrow> None | Some n \<Rightarrow> if n = 0 then None else Some n));
               messages = nullish (Option.bind body ij_messages) [];
               ready = find (\<lambda>m. ib_status m = Some ''complete'' \<and> attestation_ready (ib_attestation m)) messages;
               flat = orelse ready (case messages of [] \<Rightarrow> None | m # _ \<Rightarrow> Some m);
               err = Option.bind body ij_error
           in irisStatusFromHttp status
                (Some (case flat of
                   Some m \<Rightarrow> \<lparr>ib_attestation = ib_attestation m, ib_status = ib_status m,
                             ib_error = err, ib_message = ib_message m\<rparr>
                 | None \<Rightarrow> \<lparr>ib_attestation = None, ib_status = None, ib_error = err, ib_message = None\<rparr>))
                retryAfterSeconds))"

section \<open>Lemmas\<close>

definition same_transfer :: "CctpTransfer \<Rightarrow> CctpTransfer \<Rightarrow> bool" where
  "same_transfer t u \<longleftrightarrow>
     tr_nonce u = tr_nonce t \<and> tr_sourceDomain u = tr_sourceDomain t \<and>
     tr_destinationDomain u = tr_destinationDomain t \<and> tr_burnTxHash u = tr_burnTxHash t \<and>
     tr_amountUsdc6 u = tr_amountUsdc6 t \<and> tr_beneficiary u = tr_beneficiary t \<and>
     tr_attempts t \<le> tr_attempts u"

lemma same_transfer_refl [simp]: "same_transfer t t"
  by (simp add: same_transfer_def)

lemma same_transfer_trans: "same_transfer s t \<Longrightarrow> same_transfer t u \<Longrightarrow> same_transfer s u"
  by (simp add: same_transfer_def)

lemma spread_frame [simp]: "same_transfer t (spread t p)" "tr_state (spread t p) = tr_state t"
  by (simp_all add: same_transfer_def spread_def)

lemma spread_no_patch [simp]: "spread t no_patch = t"
  by (simp add: spread_def no_patch_def)

lemma transition_frame: "transition t to p = Inr u \<Longrightarrow> same_transfer t u \<and> tr_state u = to"
  by (auto simp: transition_def Let_def same_transfer_def spread_def split: if_splits)

lemma transition_Inr_iff:
  "(\<exists>u. transition t to p = Inr u) \<longleftrightarrow> to = tr_state t \<or> to \<in> set (LEGAL_TRANSITIONS (tr_state t))"
  by (auto simp: transition_def Let_def)

lemma transition_legal:
  "to \<in> set (LEGAL_TRANSITIONS (tr_state t)) \<Longrightarrow> tr_state t \<noteq> to \<Longrightarrow>
   transition t to p = Inr ((spread (if to \<noteq> Failed \<and> p_lastError p = None
      then t\<lparr>tr_lastError := None\<rparr> else t) p)\<lparr>tr_state := to\<rparr>)"
  by (simp add: transition_def Let_def)

lemma att_patch_lastError [simp]: "p_lastError (att_patch iris) = None" "p_lastError no_patch = None"
  by (simp_all add: att_patch_def no_patch_def split: IrisAttestationStatus.split)

lemma spread_att:
  "tr_lastError (spread t (att_patch iris)) = tr_lastError t"
  "iris = IrisComplete a m \<Longrightarrow> tr_attestation (spread t (att_patch iris)) = Some a"
  by (simp_all add: spread_def att_patch_def no_patch_def split: IrisAttestationStatus.split)

text \<open>A consumed nonce ends in a delivered row without an error, whatever the row said before.\<close>

lemma reconcile_used:
  assumes "tr_state t \<noteq> Delivered"
  shows "\<exists>u. reconcile t iris True = Inr u \<and> tr_state u = Delivered \<and> tr_lastError u = None \<and>
     same_transfer t u \<and> (\<forall>a m. iris = IrisComplete a m \<and> a \<noteq> [] \<longrightarrow> \<not> falsy_str (tr_attestation u)) \<and>
     (\<not> falsy_str (tr_attestation t) \<and> tr_state t \<in> {Attested, Submitting} \<longrightarrow>
        tr_attestation u = tr_attestation t \<and> tr_message u = tr_message t)"
  using assms
  by (cases "tr_state t"; cases iris)
    (auto simp: reconcile_def transition_legal Let_def is_complete_def att_patch_def no_patch_def
      spread_def same_transfer_def)

lemma reconcile_unused:
  "\<exists>u. reconcile t iris False = Inr u \<and> same_transfer t u \<and>
     (tr_state u = Delivered \<longleftrightarrow> tr_state t = Delivered) \<and>
     (tr_state u = Failed \<longleftrightarrow> tr_state t = Failed \<or> tr_state t = Pending \<and> (\<exists>m. iris = IrisError m)) \<and>
     (tr_state u = Attested \<longleftrightarrow> tr_state t = Attested \<or> tr_state t = Pending \<and> is_complete iris)"
  by (cases "tr_state t"; cases iris)
    (auto simp: reconcile_def transition_legal is_complete_def no_patch_def spread_def same_transfer_def)

lemma reconcile_delivered: "tr_state t = Delivered \<Longrightarrow> reconcile t iris used = Inr t"
  by (simp add: reconcile_def)

text \<open>The steps a stored row can take: a validated state change or a reconciliation.\<close>

inductive row_step :: "CctpTransfer \<Rightarrow> CctpTransfer \<Rightarrow> bool" where
  by_transition: "transition t to p = Inr u \<Longrightarrow> row_step t u"
| by_reconcile: "reconcile t iris used = Inr u \<Longrightarrow> row_step t u"

inductive_cases row_stepE: "row_step t u"

lemma reconcile_frame: "reconcile t iris used = Inr u \<Longrightarrow> same_transfer t u"
  using reconcile_used [of t iris] reconcile_unused [of t iris] reconcile_delivered [of t iris used]
  by (cases used; cases "tr_state t = Delivered") auto

lemma reconcile_settled:
  "reconcile t iris used = Inr u \<Longrightarrow> tr_state t \<in> {Delivered, Failed} \<Longrightarrow>
     tr_state u = Delivered \<or> tr_state u = tr_state t"
  using reconcile_used [of t iris] reconcile_unused [of t iris] reconcile_delivered [of t iris used]
  by (cases used; cases "tr_state t = Delivered") auto

interpretation row_frame: frame_system row_step same_transfer
  by unfold_locales
    (auto elim!: row_stepE intro: same_transfer_trans dest!: transition_frame reconcile_frame)

interpretation row_delivered: invariant_system row_step "\<lambda>t. tr_state t = Delivered"
  by unfold_locales
    (auto elim!: row_stepE dest: reconcile_settled transition_frame
      intro: transition_frame [THEN conjunct2] simp: transition_def split: if_splits)

interpretation row_settled: invariant_system row_step "\<lambda>t. tr_state t \<in> {Delivered, Failed}"
  by unfold_locales
    (auto elim!: row_stepE dest: reconcile_settled simp: transition_def Let_def split: if_splits)

section \<open>Properties\<close>

text \<open>
  Life of a stored row: whatever sequence of validated state changes and
  reconciliations it goes through, its nonce, domains, burn transaction, amount and
  beneficiary never change and its attempts never fall; a delivered row stays
  delivered, and a failed row can only stay failed or become delivered.
\<close>

theorem transfer_run_safe:
  assumes "row_step\<^sup>*\<^sup>* t u"
  shows "same_transfer t u \<and> (tr_state t = Delivered \<longrightarrow> tr_state u = Delivered) \<and>
    (tr_state t = Failed \<longrightarrow> tr_state u \<in> {Failed, Delivered})"
  using row_frame.frame_run [OF assms] row_delivered.inv_run [OF assms] row_settled.inv_run [OF assms]
  by auto

definition example_row :: CctpTransfer where
  "example_row = \<lparr>tr_nonce = ''0x07'', tr_sourceDomain = 6, tr_destinationDomain = 27,
     tr_burnTxHash = ''0xbb'', tr_amountUsdc6 = 5000000, tr_beneficiary = ''GUSER'', tr_state = Failed,
     tr_attestation = None, tr_message = None, tr_mintTxHash = None, tr_depositTxHash = None,
     tr_lastError = Some ''timeout'', tr_attempts = 2\<rparr>"

theorem transfer_run_safe_witness:
  "same_transfer example_row (example_row\<lparr>tr_state := Delivered, tr_lastError := None\<rparr>)"
proof -
  have "reconcile example_row IrisPending True = Inr (example_row\<lparr>tr_state := Delivered, tr_lastError := None\<rparr>)"
    by code_simp
  then have "row_step\<^sup>*\<^sup>* example_row (example_row\<lparr>tr_state := Delivered, tr_lastError := None\<rparr>)"
    by (intro r_into_rtranclp by_reconcile)
  then show ?thesis using transfer_run_safe by blast
qed

text \<open>
  Reconciliation never throws, and the chain decides delivery: with the nonce
  consumed on chain every row ends delivered and without a stale error, and an
  attestation that Iris returned in the same poll is not lost; with the nonce unused
  no row becomes delivered, and only a pending row that Iris proves invalid fails.
\<close>

theorem reconcile_ground_truth:
  "\<exists>u. reconcile t iris used = Inr u \<and> same_transfer t u \<and>
     (if used then tr_state u = Delivered \<and> (tr_state t \<noteq> Delivered \<longrightarrow> tr_lastError u = None \<and>
          (\<forall>a m. iris = IrisComplete a m \<and> a \<noteq> [] \<longrightarrow> \<not> falsy_str (tr_attestation u)))
      else (tr_state u = Delivered \<longleftrightarrow> tr_state t = Delivered) \<and>
           (tr_state u = Failed \<longleftrightarrow> tr_state t = Failed \<or> tr_state t = Pending \<and> (\<exists>m. iris = IrisError m)))"
  using reconcile_used [of t iris] reconcile_unused [of t iris] reconcile_delivered [of t iris used]
  by (cases used; cases "tr_state t = Delivered") auto

theorem reconcile_ground_truth_witness:
  "\<exists>u. reconcile example_row (IrisComplete ''aa'' None) True = Inr u \<and>
     tr_state u = Delivered \<and> \<not> falsy_str (tr_attestation u)"
proof -
  have "tr_state example_row \<noteq> Delivered" by (simp add: example_row_def)
  then show ?thesis using reconcile_ground_truth [of example_row "IrisComplete ''aa'' None" True] by auto
qed

text \<open>
  The single writer of states enforces the table: a change succeeds exactly when
  the target is the row's own state or a legal edge, the row then has that state, and
  every other change is the error that names both states and the nonce.
\<close>

theorem transition_choke_point:
  "(if to = tr_state t \<or> to \<in> set (LEGAL_TRANSITIONS (tr_state t))
    then \<exists>u. transition t to p = Inr u \<and> tr_state u = to \<and> same_transfer t u
    else transition t to p = Inl (IllegalCctpTransition (tr_state t) to (tr_nonce t)))"
proof (cases "to = tr_state t \<or> to \<in> set (LEGAL_TRANSITIONS (tr_state t))")
  case True
  then obtain u where "transition t to p = Inr u" using transition_Inr_iff by blast
  with True transition_frame [OF this] show ?thesis by simp
next
  case False
  then show ?thesis by (auto simp: transition_def)
qed

text \<open>
  Only a proof of invalidity is terminal: the client reports an error exactly for
  an HTTP 400 whose body carries a non-empty error text, and reports completion only
  for an HTTP 200 with a message that is complete and has a real attestation. Network
  failures, 404, 429, 5xx, credentials and unreadable bodies are never terminal.
\<close>

theorem getAttestation_terminal:
  "(getAttestation f base d tx = IrisError e \<longrightarrow>
      (\<exists>url ra j. f url = Response 400 ra (Some j) \<and> ij_error j = Some e \<and> e \<noteq> [])) \<and>
   (getAttestation f base d tx = IrisComplete a m \<longrightarrow>
      (\<exists>url ra j ms b. f url = Response 200 ra (Some j) \<and> ij_messages j = Some ms \<and> b \<in> set ms \<and>
         ib_attestation b = Some a \<and> a \<noteq> [] \<and> to_upper a \<noteq> ''PENDING'' \<and> ib_message b = m))"
proof -
  define url where "url = base @ ''/v2/messages/'' @ nat_str d @ ''?transactionHash='' @ tx"
  show ?thesis
  proof (cases "f url")
    case FetchFailed
    then show ?thesis by (simp add: getAttestation_def url_def)
  next
    case (Response st ra body)
    define ms where "ms = nullish (Option.bind body ij_messages) []"
    define flat where "flat = orelse (find (\<lambda>m. ib_status m = Some ''complete'' \<and>
       attestation_ready (ib_attestation m)) ms) (case ms of [] \<Rightarrow> None | m # _ \<Rightarrow> Some m)"
    have flat: "b \<in> set ms" if "flat = Some b" for b
      using that by (auto simp: flat_def orelse_def find_Some_iff split: option.splits list.splits)
    obtain r where g: "getAttestation f base d tx = irisStatusFromHttp st
       (Some (case flat of
          Some m \<Rightarrow> \<lparr>ib_attestation = ib_attestation m, ib_status = ib_status m,
             ib_error = Option.bind body ij_error, ib_message = ib_message m\<rparr>
        | None \<Rightarrow> \<lparr>ib_attestation = None, ib_status = None, ib_error = Option.bind body ij_error, ib_message = None\<rparr>)) r"
      using Response by (simp add: getAttestation_def url_def ms_def flat_def Let_def)
    have "(getAttestation f base d tx = IrisError e \<longrightarrow> st = 400 \<and> Option.bind body ij_error = Some e \<and> e \<noteq> []) \<and>
       (getAttestation f base d tx = IrisComplete a m \<longrightarrow> st = 200 \<and> (\<exists>b. flat = Some b \<and>
         ib_attestation b = Some a \<and> a \<noteq> [] \<and> to_upper a \<noteq> ''PENDING'' \<and> ib_message b = m))"
      unfolding g by (cases flat)
        (auto simp: irisStatusFromHttp_def Let_def attestation_ready_def falsy_str_def split: option.splits if_splits)
    moreover have "\<exists>j. body = Some j \<and> ij_messages j = Some ms" if "flat = Some b" for b
      using flat [OF that] by (auto simp: ms_def nullish_def bind_eq_Some_conv split: option.splits)
    ultimately show ?thesis using Response flat by (fastforce simp: bind_eq_Some_conv)
  qed
qed

theorem getAttestation_terminal_witness:
  "getAttestation (\<lambda>_. Response 400 None (Some \<lparr>ij_messages = None, ij_error = Some ''bad''\<rparr>)) ''u'' 6 ''0xbb''
     = IrisError ''bad'' \<and> (\<exists>ra j. Response 400 None (Some \<lparr>ij_messages = None, ij_error = Some ''bad''\<rparr>)
        = Response 400 ra (Some j) \<and> ij_error j = Some ''bad'')"
proof -
  define f where "f = (\<lambda>_ :: string. Response 400 None (Some \<lparr>ij_messages = None, ij_error = Some ''bad''\<rparr>))"
  have e: "getAttestation f ''u'' 6 ''0xbb'' = IrisError ''bad''" unfolding f_def by code_simp
  moreover have "\<exists>url ra j. f url = Response 400 ra (Some j) \<and> ij_error j = Some ''bad'' \<and> ''bad'' \<noteq> []"
    using getAttestation_terminal [of f "''u''" 6 "''0xbb''" "''bad''"] e by blast
  ultimately show ?thesis by (auto simp: f_def)
qed

end
