(* ===== verification/Cctp_Delivery.thy ===== *)
theory Cctp_Delivery
  imports Cctp_Message Cctp_Transfer
begin

text \<open>
  Delivery of an attested transfer: the plan (\<open>backend/src/cctp/stellar-mint.ts\<close>), the
  burn encoder (\<open>backend/src/cctp/evm-burn.ts\<close>), the addresses
  (\<open>backend/src/cctp/cctp-chains.ts\<close>) and the executor
  (\<open>backend/src/cctp/cctp-executor.ts\<close>). The network ports of the executor (Iris, the
  Soroban submitter, the nonce oracle) are parameters: functions of a world of
  arbitrary type, which a submission changes. A rejected promise of a port is \<open>Inl\<close>.
\<close>

section \<open>Addresses\<close>

record StellarCctpConfig =
  cfg_domain :: nat
  tokenMessengerMinter :: string
  messageTransmitter :: string
  cctpForwarder :: string
  usdcSac :: string
  usdcIssuer :: string
  irisBaseUrl :: string
  networkPassphrase :: string
  sorobanRpcUrl :: string

definition STELLAR_TESTNET :: StellarCctpConfig where
  "STELLAR_TESTNET =
     \<lparr>cfg_domain = CCTP_DOMAIN_STELLAR,
      tokenMessengerMinter = ''CDNG7HXAPBWICI2E3AUBP3YZWZELJLYSB6F5CC7WLDTLTHVM74SLRTHP'',
      messageTransmitter = ''CBJ6MTCKKZG73PMDZCJMSFRD7DQEMI4FKDH7CGDSV4W6FHCRBCQAVVJY'',
      cctpForwarder = ''CA66Q2WFBND6V4UEB7RD4SAXSVIWMD6RA4X3U32ELVFGXV5PJK4T4VSZ'',
      usdcSac = ''CBIELTK6YBZJU5UP2WWQEUCYKLPU6AUNZ2BQ4WWFEIE3USCIHMXQDAMA'',
      usdcIssuer = ''GBBD47IF6LWK7P7MDEVSCWR7DPUWV3NY3DTQEVFL4NAT4AQH3ZLLFLA5'',
      irisBaseUrl = ''https://iris-api-sandbox.circle.com'',
      networkPassphrase = ''Test SDF Network ; September 2015'',
      sorobanRpcUrl = ''https://soroban-testnet.stellar.org''\<rparr>"

record EvmCctpConfig =
  evm_chainId :: nat
  evm_domain :: nat
  tokenMessengerV2 :: string
  messageTransmitterV2 :: string
  evm_usdc :: string
  evm_decimals :: nat

definition BASE_SEPOLIA :: EvmCctpConfig where
  "BASE_SEPOLIA =
     \<lparr>evm_chainId = 84532, evm_domain = CCTP_DOMAIN_BASE_SEPOLIA,
      tokenMessengerV2 = ''0x8FE6B999Dc680CcFDD5Bf7EB0974218be2542DAA'',
      messageTransmitterV2 = ''0xE737e5cEBEEBa77EFE34D4aa090756590b1CE275'',
      evm_usdc = ''0x036CbD53842c5426634e7929541eC2318f3dCF7e'', evm_decimals = 6\<rparr>"

definition FINALITY_FAST :: nat where "FINALITY_FAST = 1000"
definition FINALITY_STANDARD :: nat where "FINALITY_STANDARD = 2000"

section \<open>The delivery plan\<close>

datatype ScVal = ScBytes bytes | ScAddress string | ScI128 int

definition mintAndForwardScVals :: "bytes \<Rightarrow> bytes \<Rightarrow> ScVal list" where
  "mintAndForwardScVals message attestation = [ScBytes message, ScBytes attestation]"

definition usdc6ToStellar7 :: "int \<Rightarrow> (cctp_error, int) result" where
  "usdc6ToStellar7 amountUsdc6 =
     (if amountUsdc6 < 0 then Inl (NegativeAmount amountUsdc6) else Inr (amountUsdc6 * 10))"

definition depositFromScVals :: "string \<Rightarrow> string \<Rightarrow> int \<Rightarrow> ScVal list" where
  "depositFromScVals payer beneficiary assets7 = [ScAddress payer, ScAddress beneficiary, ScI128 assets7]"

record DeliveryPlan =
  pl_nonce :: string
  pl_sourceDomain :: nat
  pl_amountUsdc6 :: int
  pl_amount7 :: int
  pl_forwardRecipient :: string
  pl_mintArgs :: "ScVal list"

definition planDelivery ::
    "StrKey \<Rightarrow> string \<Rightarrow> string \<Rightarrow> StellarCctpConfig \<Rightarrow> (cctp_error, DeliveryPlan) result" where
  "planDelivery sk messageHex attestationHex config =
     rbind (parseCctpMessage messageHex) (\<lambda>(header, body).
     if hd_destinationDomain header \<noteq> cfg_domain config
       then Inl (WrongDestinationDomain (hd_destinationDomain header) (cfg_domain config))
     else
     rbind (assertForwarderFields sk (bd_mintRecipient body) (hd_destinationCaller header)
              (cctpForwarder config)) (\<lambda>_.
     if bd_amount body \<le> 0 then Inl ZeroBurnAmount
     else
     rbind (parseForwarderHookData sk (bd_hookData body)) (\<lambda>hook.
     rbind (hexToBytes messageHex) (\<lambda>message.
     rbind (hexToBytes attestationHex) (\<lambda>attestation.
     if length attestation = 0 then Inl EmptyAttestation
     else
     rbind (usdc6ToStellar7 (int (bd_amount body))) (\<lambda>amount7.
       Inr \<lparr>pl_nonce = hd_nonce header, pl_sourceDomain = hd_sourceDomain header,
            pl_amountUsdc6 = int (bd_amount body), pl_amount7 = amount7,
            pl_forwardRecipient = hk_forwardRecipient hook,
            pl_mintArgs = mintAndForwardScVals message attestation\<rparr>))))))"

section \<open>The burn\<close>

text \<open>
  The ABI encoder of ethers is a parameter, applied to the function name and its
  arguments in order.
\<close>

datatype AbiVal = AbiUint int | AbiHex string

record BurnToStellarPlan =
  bp_approveData :: string
  bp_burnData :: string
  bp_tokenMessengerV2 :: string
  bp_usdc :: string
  bp_amountUsdc6 :: int

definition burn_args :: "EvmCctpConfig \<Rightarrow> nat \<Rightarrow> bytes \<Rightarrow> int \<Rightarrow> int option \<Rightarrow> nat option \<Rightarrow> bytes \<Rightarrow> AbiVal list" where
  "burn_args config stellarDomain forwarder32 amountUsdc6 maxFee minFinalityThreshold hookData =
     [AbiUint amountUsdc6, AbiUint (int stellarDomain), AbiHex (bytesToHex forwarder32),
      AbiHex (evm_usdc config), AbiHex (bytesToHex forwarder32), AbiUint (nullish maxFee 0),
      AbiUint (int (nullish minFinalityThreshold FINALITY_STANDARD)), AbiHex (bytesToHex hookData)]"

definition buildBurnToStellar ::
    "StrKey \<Rightarrow> (string \<Rightarrow> AbiVal list \<Rightarrow> string) \<Rightarrow> EvmCctpConfig \<Rightarrow> nat \<Rightarrow> string \<Rightarrow> string \<Rightarrow> int
      \<Rightarrow> int option \<Rightarrow> nat option \<Rightarrow> (cctp_error, BurnToStellarPlan) result" where
  "buildBurnToStellar sk encodeFunctionData config stellarDomain forwarderContractId forwardRecipient
       amountUsdc6 maxFee minFinalityThreshold =
     (if amountUsdc6 \<le> 0 then Inl (BurnAmountNotPositive amountUsdc6)
      else
      rbind (contractAddressToBytes32 sk forwarderContractId) (\<lambda>forwarder32.
      rbind (assertForwarderFields sk forwarder32 forwarder32 forwarderContractId) (\<lambda>_.
      rbind (buildForwarderHookData sk forwardRecipient []) (\<lambda>hookData.
      Inr \<lparr>bp_approveData = encodeFunctionData ''approve''
              [AbiHex (tokenMessengerV2 config), AbiUint amountUsdc6],
           bp_burnData = encodeFunctionData ''depositForBurnWithHook''
              (burn_args config stellarDomain forwarder32 amountUsdc6 maxFee minFinalityThreshold hookData),
           bp_tokenMessengerV2 = tokenMessengerV2 config,
           bp_usdc = evm_usdc config,
           bp_amountUsdc6 = amountUsdc6\<rparr>))))"

section \<open>The executor\<close>

type_synonym soroban_call = "string \<times> string \<times> ScVal list"

record 'w CctpExecutorDeps =
  dep_iris :: "'w \<Rightarrow> nat \<Rightarrow> string \<Rightarrow> (string, IrisAttestationStatus) result"
  dep_submit :: "'w \<Rightarrow> soroban_call \<Rightarrow> (string, string) result \<times> 'w"
  dep_isNonceUsed :: "'w \<Rightarrow> string \<Rightarrow> (string, bool) result"
  dep_config :: StellarCctpConfig
  dep_relayerAddress :: string
  dep_vaultContractId :: string
  dep_strkey :: StrKey

datatype executor_error =
    WantsAttestedRow CctpTransferState
  | NoMessageStored string
  | PortFailed string
  | TransferError transfer_error

datatype nonce_error = NonceCctpError cctp_error | NonceNot32Bytes nat

definition nonceScVal :: "string \<Rightarrow> (nonce_error, ScVal) result" where
  "nonceScVal nonce =
     (case hexToBytes nonce of
        Inl e \<Rightarrow> Inl (NonceCctpError e)
      | Inr bs \<Rightarrow> if length bs \<noteq> 32 then Inl (NonceNot32Bytes (length bs)) else Inr (ScBytes bs))"

definition lift_transfer :: "(transfer_error, 'a) result \<Rightarrow> (executor_error, 'a) result" where
  "lift_transfer r = (case r of Inl e \<Rightarrow> Inl (TransferError e) | Inr a \<Rightarrow> Inr a)"

definition lift_port :: "(string, 'a) result \<Rightarrow> (executor_error, 'a) result" where
  "lift_port r = (case r of Inl e \<Rightarrow> Inl (PortFailed e) | Inr a \<Rightarrow> Inr a)"

definition poll :: "'w CctpExecutorDeps \<Rightarrow> 'w \<Rightarrow> CctpTransfer \<Rightarrow> (executor_error, CctpTransfer) result" where
  "poll deps w t =
     rbind (lift_port (dep_iris deps w (tr_sourceDomain t) (tr_burnTxHash t))) (\<lambda>iris.
     rbind (lift_port (dep_isNonceUsed deps w (tr_nonce t))) (\<lambda>used.
       lift_transfer (reconcile t iris used)))"

text \<open>
  The text of an error, which a failed row stores. The two parameters that the source
  interpolates into other messages are kept.
\<close>

definition error_message :: "cctp_error \<Rightarrow> string" where
  "error_message e =
     (case e of
        NotValidHex \<Rightarrow> ''message is not valid hex''
      | BodyTooShort n \<Rightarrow> ''burn message body is '' @ nat_str n @ '' bytes, expected at least 228''
      | MessageTooShort n \<Rightarrow> ''message is '' @ nat_str n @ '' bytes, expected at least 148''
      | NotStellarAddress a \<Rightarrow> ''not a valid Stellar address (G/C/M): '' @ a
      | HookTooShort n \<Rightarrow> ''hook data is '' @ nat_str n @ '' bytes, expected at least 32''
      | HookLengthExceedsData \<Rightarrow> ''hook data length prefix exceeds the data''
      | NotContractAddress a \<Rightarrow> ''not a valid contract address: '' @ a
      | MintRecipientNotForwarder f \<Rightarrow> ''mintRecipient must be the CctpForwarder contract id '' @ f @
          ''; refusing to build a burn that would strand funds''
      | DestinationCallerNotForwarder f \<Rightarrow> ''destinationCaller must be the CctpForwarder contract id '' @ f @
          ''; refusing to build a burn that would strand funds''
      | WrongDestinationDomain d c \<Rightarrow> ''message destination domain is '' @ nat_str d @
          '', expected Stellar ('' @ nat_str c @ '')''
      | ZeroBurnAmount \<Rightarrow> ''burn amount is zero; refusing to submit a mint for it''
      | EmptyAttestation \<Rightarrow> ''empty attestation; Iris sentinel leaked past the client''
      | NegativeAmount n \<Rightarrow> ''negative amount: '' @ int_str n
      | BurnAmountNotPositive n \<Rightarrow> ''burn amount must be positive, got '' @ int_str n)"

definition depositToVault ::
    "'w CctpExecutorDeps \<Rightarrow> 'w \<Rightarrow> CctpTransfer \<Rightarrow> DeliveryPlan \<Rightarrow> (executor_error, string) result \<times> 'w" where
  "depositToVault deps w t plan =
     (let (r, w') = dep_submit deps w (dep_vaultContractId deps, ''deposit_from'',
            depositFromScVals (dep_relayerAddress deps) (tr_beneficiary t) (pl_amount7 plan))
      in (lift_port r, w'))"

text \<open>
  \<open>after r f\<close> continues a step of the executor that may have thrown after it changed the
  world.
\<close>

definition after :: "('e, 'a) result \<times> 'w \<Rightarrow> ('a \<Rightarrow> 'w \<Rightarrow> ('e, 'b) result \<times> 'w) \<Rightarrow> ('e, 'b) result \<times> 'w" where
  "after rw f = (case fst rw of Inl e \<Rightarrow> (Inl e, snd rw) | Inr a \<Rightarrow> f a (snd rw))"

text \<open>The branch of \<open>deliver\<close> for a nonce that is already consumed.\<close>

definition deliver_used ::
    "'w CctpExecutorDeps \<Rightarrow> 'w \<Rightarrow> CctpTransfer \<Rightarrow> DeliveryPlan \<Rightarrow> bool
      \<Rightarrow> (executor_error, CctpTransfer) result \<times> 'w" where
  "deliver_used deps w t plan direct =
     after (if \<not> direct \<and> falsy_str (tr_depositTxHash t)
            then after (depositToVault deps w t plan) (\<lambda>h w'.
                   (lift_transfer (transition t (tr_state t) (no_patch\<lparr>p_depositTxHash := Some (Some h)\<rparr>)), w'))
            else (Inr t, w))
       (\<lambda>cur w'.
          (lift_transfer (reconcile cur (IrisComplete (the (tr_attestation t)) None) True), w'))"

text \<open>The branch of \<open>deliver\<close> that mints.\<close>

definition deliver_mint ::
    "'w CctpExecutorDeps \<Rightarrow> 'w \<Rightarrow> CctpTransfer \<Rightarrow> DeliveryPlan \<Rightarrow> bool
      \<Rightarrow> (executor_error, CctpTransfer) result \<times> 'w" where
  "deliver_mint deps w t plan direct =
     after (lift_transfer (transition t Submitting no_patch), w) (\<lambda>cur w.
     after (let (r, w') = dep_submit deps w (cctpForwarder (dep_config deps), ''mint_and_forward'', pl_mintArgs plan)
            in (lift_port r, w')) (\<lambda>mintHash w.
     after (lift_transfer (transition cur Submitting (no_patch\<lparr>p_mintTxHash := Some (Some mintHash)\<rparr>)), w) (\<lambda>cur w.
     after (if \<not> direct
            then after (depositToVault deps w t plan) (\<lambda>h w'.
                   (lift_transfer (transition cur Submitting (no_patch\<lparr>p_depositTxHash := Some (Some h)\<rparr>)), w'))
            else (Inr cur, w)) (\<lambda>cur w.
     (lift_transfer (transition cur Delivered no_patch), w)))))"

definition deliver ::
    "'w CctpExecutorDeps \<Rightarrow> 'w \<Rightarrow> CctpTransfer \<Rightarrow> (executor_error, CctpTransfer) result \<times> 'w" where
  "deliver deps w t =
     (if tr_state t \<noteq> Attested \<or> falsy_str (tr_attestation t) then (Inl (WantsAttestedRow (tr_state t)), w)
      else if falsy_str (tr_message t) then (Inl (NoMessageStored (tr_nonce t)), w)
      else
        case planDelivery (dep_strkey deps) (the (tr_message t)) (the (tr_attestation t)) (dep_config deps) of
          Inl e \<Rightarrow>
            (lift_transfer (transition t Failed (no_patch\<lparr>p_lastError := Some (Some (error_message e))\<rparr>)), w)
        | Inr plan \<Rightarrow>
            if pl_nonce plan \<noteq> tr_nonce t then
              (lift_transfer (transition t Failed (no_patch\<lparr>p_lastError := Some (Some
                 (''message nonce '' @ pl_nonce plan @ '' does not match transfer nonce '' @ tr_nonce t))\<rparr>)), w)
            else
              let direct = (pl_forwardRecipient plan = tr_beneficiary t) in
              if \<not> direct \<and> pl_forwardRecipient plan \<noteq> dep_relayerAddress deps then
                (lift_transfer (transition t Failed (no_patch\<lparr>p_lastError := Some (Some
                   (''forwardRecipient '' @ pl_forwardRecipient plan @
                    '' is neither the beneficiary nor the relayer''))\<rparr>)), w)
              else
                case dep_isNonceUsed deps w (pl_nonce plan) of
                  Inl e \<Rightarrow> (Inl (PortFailed e), w)
                | Inr True \<Rightarrow> deliver_used deps w t plan direct
                | Inr False \<Rightarrow> deliver_mint deps w t plan direct)"

section \<open>Lemmas\<close>

lemma after_simps [simp]:
  "after (Inl e, w) f = (Inl e, w)" "after (Inr a, w) f = f a w"
  by (simp_all add: after_def)

lemma lift_simps [simp]:
  "lift_transfer (Inr a) = Inr a" "lift_transfer (Inl e) = Inl (TransferError e)"
  "lift_port (Inr b) = Inr b" "lift_port (Inl m) = Inl (PortFailed m)"
  by (simp_all add: lift_transfer_def lift_port_def)

lemma planDelivery_Inr:
  assumes "planDelivery sk m a cfg = Inr plan"
  obtains h b hook msg att where
    "parseCctpMessage m = Inr (h, b)" "hd_destinationDomain h = cfg_domain cfg"
    "isValidContract sk (cctpForwarder cfg)" "bd_mintRecipient b = decodeContract sk (cctpForwarder cfg)"
    "hd_destinationCaller h = decodeContract sk (cctpForwarder cfg)" "0 < bd_amount b"
    "parseForwarderHookData sk (bd_hookData b) = Inr hook" "hexToBytes m = Inr msg"
    "hexToBytes a = Inr att" "att \<noteq> []"
    "plan = \<lparr>pl_nonce = hd_nonce h, pl_sourceDomain = hd_sourceDomain h,
       pl_amountUsdc6 = int (bd_amount b), pl_amount7 = 10 * int (bd_amount b),
       pl_forwardRecipient = hk_forwardRecipient hook, pl_mintArgs = [ScBytes msg, ScBytes att]\<rparr>"
  using assms
  by (auto simp: planDelivery_def rbind_Inr_iff assertForwarderFields_Inr_iff usdc6ToStellar7_def
      mintAndForwardScVals_def split: if_splits)

lemma parseForwarderHookData_valid:
  "parseForwarderHookData sk d = Inr hook \<Longrightarrow> assertStellarAddress sk (hk_forwardRecipient hook) = Inr ()"
  by (auto simp: parseForwarderHookData_def Let_def rbind_Inr_iff split: if_splits)

lemma transition_attested:
  assumes "tr_state t = Attested"
  shows "transition t Submitting p = Inr ((spread (if p_lastError p = None
            then t\<lparr>tr_lastError := None\<rparr> else t) p)\<lparr>tr_state := Submitting\<rparr>)"
    and "transition t Failed p = Inr ((spread t p)\<lparr>tr_state := Failed\<rparr>)"
    and "p \<noteq> no_patch \<Longrightarrow> transition t Attested p = Inr (spread t p)"
  using assms by (simp_all add: transition_def)

lemma transition_submitting:
  assumes "tr_state t = Submitting" and "p_lastError p = None"
  shows "p \<noteq> no_patch \<Longrightarrow> transition t Submitting p =
      Inr ((spread (t\<lparr>tr_lastError := None\<rparr>) p)\<lparr>tr_state := Submitting\<rparr>)"
    and "transition t Delivered p = Inr ((spread (t\<lparr>tr_lastError := None\<rparr>) p)\<lparr>tr_state := Delivered\<rparr>)"
  using assms by (simp_all add: transition_def)

lemmas patch_simps = transition_attested transition_submitting spread_def no_patch_def

section \<open>Lemmas on the executor\<close>

definition mint_call :: "'w CctpExecutorDeps \<Rightarrow> DeliveryPlan \<Rightarrow> soroban_call" where
  "mint_call deps plan = (cctpForwarder (dep_config deps), ''mint_and_forward'', pl_mintArgs plan)"

definition deposit_call :: "'w CctpExecutorDeps \<Rightarrow> CctpTransfer \<Rightarrow> DeliveryPlan \<Rightarrow> soroban_call" where
  "deposit_call deps t plan = (dep_vaultContractId deps, ''deposit_from'',
     depositFromScVals (dep_relayerAddress deps) (tr_beneficiary t) (pl_amount7 plan))"

text \<open>A row that \<open>deliver\<close> accepts, with its plan.\<close>

definition deliverable :: "'w CctpExecutorDeps \<Rightarrow> CctpTransfer \<Rightarrow> DeliveryPlan \<Rightarrow> bool" where
  "deliverable deps t plan \<longleftrightarrow> tr_state t = Attested \<and> \<not> falsy_str (tr_attestation t) \<and>
     \<not> falsy_str (tr_message t) \<and>
     planDelivery (dep_strkey deps) (the (tr_message t)) (the (tr_attestation t)) (dep_config deps) = Inr plan \<and>
     pl_nonce plan = tr_nonce t \<and> pl_forwardRecipient plan \<in> {tr_beneficiary t, dep_relayerAddress deps}"

lemma depositToVault_submit:
  "depositToVault deps w t plan =
     (lift_port (fst (dep_submit deps w (deposit_call deps t plan))), snd (dep_submit deps w (deposit_call deps t plan)))"
  by (simp add: depositToVault_def deposit_call_def split_beta)

lemma deliver_deliverable:
  assumes "deliverable deps t plan"
  shows "deliver deps w t =
    (case dep_isNonceUsed deps w (tr_nonce t) of
       Inl e \<Rightarrow> (Inl (PortFailed e), w)
     | Inr True \<Rightarrow> deliver_used deps w t plan (pl_forwardRecipient plan = tr_beneficiary t)
     | Inr False \<Rightarrow> deliver_mint deps w t plan (pl_forwardRecipient plan = tr_beneficiary t))"
  using assms by (auto simp: deliverable_def deliver_def Let_def)

lemma deliver_not_deliverable:
  assumes "\<And>plan. \<not> deliverable deps t plan"
  shows "snd (deliver deps w t) = w \<and>
    (\<forall>u. fst (deliver deps w t) = Inr u \<longrightarrow> tr_state u = Failed)"
  using assms
  by (auto simp: deliverable_def deliver_def Let_def transition_attested split: sum.splits)

lemma deliver_mint_direct:
  assumes "tr_state t = Attested"
  shows "deliver_mint deps w t plan True =
    (case dep_submit deps w (mint_call deps plan) of
       (Inl e, w1) \<Rightarrow> (Inl (PortFailed e), w1)
     | (Inr h, w1) \<Rightarrow> (Inr (t\<lparr>tr_state := Delivered, tr_mintTxHash := Some h, tr_lastError := None\<rparr>), w1))"
  using assms
  by (auto simp: deliver_mint_def mint_call_def patch_simps split: prod.splits sum.splits)

lemma deliver_mint_vault:
  assumes "tr_state t = Attested"
  shows "deliver_mint deps w t plan False =
    (case dep_submit deps w (mint_call deps plan) of
       (Inl e, w1) \<Rightarrow> (Inl (PortFailed e), w1)
     | (Inr h, w1) \<Rightarrow>
         (case dep_submit deps w1 (deposit_call deps t plan) of
            (Inl e, w2) \<Rightarrow> (Inl (PortFailed e), w2)
          | (Inr d, w2) \<Rightarrow> (Inr (t\<lparr>tr_state := Delivered, tr_mintTxHash := Some h,
               tr_depositTxHash := Some d, tr_lastError := None\<rparr>), w2)))"
  using assms
  by (auto simp: deliver_mint_def mint_call_def depositToVault_submit patch_simps split: prod.splits sum.splits)

lemma deliver_used_settled:
  assumes "tr_state t = Attested" "\<not> falsy_str (tr_attestation t)"
    and "direct \<or> \<not> falsy_str (tr_depositTxHash t)"
  shows "deliver_used deps w t plan direct = (Inr (t\<lparr>tr_state := Delivered, tr_lastError := None\<rparr>), w)"
  using assms by (auto simp: deliver_used_def reconcile_def is_complete_def patch_simps)

lemma deliver_used_pending:
  assumes "tr_state t = Attested" "\<not> falsy_str (tr_attestation t)" "falsy_str (tr_depositTxHash t)"
  shows "deliver_used deps w t plan False =
    (case dep_submit deps w (deposit_call deps t plan) of
       (Inl e, w1) \<Rightarrow> (Inl (PortFailed e), w1)
     | (Inr d, w1) \<Rightarrow> (Inr (t\<lparr>tr_state := Delivered, tr_depositTxHash := Some d, tr_lastError := None\<rparr>), w1))"
  using assms
  by (auto simp: deliver_used_def reconcile_def is_complete_def depositToVault_submit patch_simps
      split: prod.splits sum.splits)

lemmas deliver_branches = deliver_mint_direct deliver_mint_vault deliver_used_settled deliver_used_pending

lemma deliverableD:
  "deliverable deps t plan \<Longrightarrow> tr_state t = Attested"
  "deliverable deps t plan \<Longrightarrow> \<not> falsy_str (tr_attestation t)"
  by (simp_all add: deliverable_def)

lemma deliver_used_history:
  assumes log: "\<And>w c. history (snd (dep_submit deps w c)) = history w @ [c]"
    and d: "deliverable deps t plan"
  shows "history (snd (deliver_used deps w t plan direct)) =
    history w @ (if \<not> direct \<and> falsy_str (tr_depositTxHash t) then [deposit_call deps t plan] else [])"
proof (cases "\<not> direct \<and> falsy_str (tr_depositTxHash t)")
  case True
  then show ?thesis
    using log [of w "deposit_call deps t plan"] deliverableD [OF d]
    by (auto simp: deliver_used_pending split: prod.splits sum.splits)
qed (auto simp: deliver_used_settled deliverableD [OF d])

lemma deliver_mint_history:
  assumes log: "\<And>w c. history (snd (dep_submit deps w c)) = history w @ [c]"
    and d: "deliverable deps t plan"
  shows "history (snd (deliver_mint deps w t plan direct)) = history w @ [mint_call deps plan] \<or>
    \<not> direct \<and> history (snd (deliver_mint deps w t plan direct)) =
       history w @ [mint_call deps plan, deposit_call deps t plan]"
proof -
  obtain r w1 where m: "dep_submit deps w (mint_call deps plan) = (r, w1)" by fastforce
  obtain r2 w2 where dp: "dep_submit deps w1 (deposit_call deps t plan) = (r2, w2)" by fastforce
  have "history w1 = history w @ [mint_call deps plan]" "history w2 = history w1 @ [deposit_call deps t plan]"
    using log [of w "mint_call deps plan"] log [of w1 "deposit_call deps t plan"] m dp by simp_all
  then show ?thesis
    using m dp deliverableD(1) [OF d]
    by (cases direct) (auto simp: deliver_mint_direct deliver_mint_vault split: sum.splits)
qed

lemma plan_of_message:
  assumes fwd: "isValidContract sk (cctpForwarder cfg)" and addr: "assertStellarAddress sk r = Inr ()"
    and r: "length r < 2 ^ 32" and hook: "buildForwarderHookData sk r [] = Inr (bd_hookData b)"
    and h: "wf_header h nonce" "hd_destinationDomain h = cfg_domain cfg"
      "hd_destinationCaller h = decodeContract sk (cctpForwarder cfg)"
    and b: "wf_body b" "bd_mintRecipient b = decodeContract sk (cctpForwarder cfg)" "0 < bd_amount b"
    and att: "att \<noteq> []"
  shows "planDelivery sk (bytesToHex (encodeHeader h nonce @ encodeBody b)) (bytesToHex att) cfg =
    Inr \<lparr>pl_nonce = bytesToHex nonce, pl_sourceDomain = hd_sourceDomain h,
      pl_amountUsdc6 = int (bd_amount b), pl_amount7 = int (bd_amount b) * 10, pl_forwardRecipient = r,
      pl_mintArgs = [ScBytes (encodeHeader h nonce @ encodeBody b), ScBytes att]\<rparr>"
proof -
  have "parseForwarderHookData sk (bd_hookData b) = Inr \<lparr>hk_version = 0, hk_forwardRecipient = r, hk_payload = []\<rparr>"
    using hook_parse [OF addr r, of "[]"] hook by auto
  moreover have "assertForwarderFields sk (bd_mintRecipient b) (hd_destinationCaller h) (cctpForwarder cfg) = Inr ()"
    using fwd b(2) h(3) by (simp add: assertForwarderFields_Inr_iff)
  ultimately show ?thesis
    using parse_message [OF h(1) b(1)] h b att
    by (auto simp: planDelivery_def hexToBytes_bytesToHex usdc6ToStellar7_def wf_header_def mintAndForwardScVals_def)
qed

section \<open>A concrete transfer\<close>

text \<open>
  A transfer in vault mode for the witnesses: the forwarder is \<open>CFORWARDER\<close>, the relayer
  \<open>CRELAYER\<close>. The world is the list of submitted calls; the second submission, the
  deposit, times out once.
\<close>

definition example_cfg :: StellarCctpConfig where
  "example_cfg = STELLAR_TESTNET\<lparr>cctpForwarder := ''CFORWARDER''\<rparr>"

definition example_hook :: bytes where
  "example_hook = (case buildForwarderHookData example_strkey ''CRELAYER'' [] of Inr d \<Rightarrow> d | Inl _ \<Rightarrow> [])"

definition vault_body :: CctpBurnBody where
  "vault_body = example_body\<lparr>bd_hookData := example_hook\<rparr>"

definition vault_message :: bytes where
  "vault_message = encodeHeader example_header (replicate 32 7) @ encodeBody vault_body"

definition vault_row :: CctpTransfer where
  "vault_row = example_row\<lparr>tr_nonce := bytesToHex (replicate 32 7), tr_state := Attested,
     tr_beneficiary := ''CUSER'', tr_attestation := Some (bytesToHex [1]),
     tr_message := Some (bytesToHex vault_message), tr_depositTxHash := None\<rparr>"

definition vault_plan :: DeliveryPlan where
  "vault_plan = \<lparr>pl_nonce = bytesToHex (replicate 32 7), pl_sourceDomain = 6, pl_amountUsdc6 = 5000000,
     pl_amount7 = 50000000, pl_forwardRecipient = ''CRELAYER'', pl_mintArgs = [ScBytes vault_message, ScBytes [1]]\<rparr>"

definition example_deps :: "soroban_call list CctpExecutorDeps" where
  "example_deps = \<lparr>dep_iris = (\<lambda>w d h. Inr (IrisComplete ''0x01'' None)),
     dep_submit = (\<lambda>w c. (if length w = 1 then Inl ''timeout'' else Inr ''hash'', w @ [c])),
     dep_isNonceUsed = (\<lambda>w n. Inr (w \<noteq> [])), dep_config = example_cfg,
     dep_relayerAddress = ''CRELAYER'', dep_vaultContractId = ''CVAULT'', dep_strkey = example_strkey\<rparr>"

definition lucky_deps :: "soroban_call list CctpExecutorDeps" where
  "lucky_deps = example_deps\<lparr>dep_submit := (\<lambda>w c. (Inr ''hash'', w @ [c]))\<rparr>"

lemma example_addr: "assertStellarAddress example_strkey ''CRELAYER'' = Inr ()"
  by (simp add: assertStellarAddress_def example_strkey_def)

lemma example_hook: "buildForwarderHookData example_strkey ''CRELAYER'' [] = Inr example_hook"
  using hook_parse [OF example_addr, of "[]"] by (auto simp: example_hook_def)

lemma vault_wf: "wf_header example_header (replicate 32 7)" "wf_body vault_body"
  by (simp_all add: wf_header_def wf_body_def example_header_def example_body_def vault_body_def)

lemma example_forwarder [simp]:
  "isValidContract example_strkey ''CFORWARDER''" "decodeContract example_strkey ''CFORWARDER'' = replicate 32 2"
  by (simp_all add: example_strkey_def)

lemma vault_planDelivery:
  "planDelivery example_strkey (bytesToHex vault_message) (bytesToHex [1]) example_cfg = Inr vault_plan"
  unfolding vault_message_def
  by (subst plan_of_message [OF _ example_addr _ _ vault_wf(1) _ _ vault_wf(2)])
    (simp_all add: example_cfg_def STELLAR_TESTNET_def example_hook vault_body_def
      example_header_def example_body_def CCTP_DOMAIN_STELLAR_def vault_plan_def vault_message_def)

lemma vault_deliverable: "deliverable example_deps vault_row vault_plan" "deliverable lucky_deps vault_row vault_plan"
  using vault_planDelivery
  by (simp_all add: deliverable_def vault_row_def example_deps_def lucky_deps_def vault_plan_def bytesToHex_def
      vault_message_def)

section \<open>Properties of the plan\<close>

text \<open>
  No plan strands or misdelivers funds: a plan exists only for a message whose
  destination is the configured Stellar domain, whose mint recipient and destination
  caller are both the forwarder contract, whose amount is positive and whose hook names
  a valid Stellar address, with a non-empty attestation; the plan mints exactly that
  message, keys on its nonce and deposits ten times the 6-decimal amount.
\<close>

theorem planDelivery_safe:
  assumes "planDelivery sk m a cfg = Inr plan"
  shows "\<exists>h b msg att. parseCctpMessage m = Inr (h, b) \<and> hd_destinationDomain h = cfg_domain cfg \<and>
    bd_mintRecipient b = decodeContract sk (cctpForwarder cfg) \<and>
    hd_destinationCaller h = decodeContract sk (cctpForwarder cfg) \<and>
    0 < bd_amount b \<and> pl_amountUsdc6 plan = int (bd_amount b) \<and> pl_amount7 plan = 10 * int (bd_amount b) \<and>
    assertStellarAddress sk (pl_forwardRecipient plan) = Inr () \<and> pl_nonce plan = hd_nonce h \<and>
    hexToBytes m = Inr msg \<and> hexToBytes a = Inr att \<and> att \<noteq> [] \<and>
    pl_mintArgs plan = [ScBytes msg, ScBytes att]"
  using planDelivery_Inr [OF assms] parseForwarderHookData_valid
  by (metis DeliveryPlan.select_convs)

theorem planDelivery_safe_witness:
  "\<exists>h b msg att. parseCctpMessage (bytesToHex vault_message) = Inr (h, b) \<and>
    hd_destinationDomain h = cfg_domain example_cfg \<and>
    bd_mintRecipient b = decodeContract example_strkey (cctpForwarder example_cfg) \<and>
    hd_destinationCaller h = decodeContract example_strkey (cctpForwarder example_cfg) \<and>
    0 < bd_amount b \<and> pl_amountUsdc6 vault_plan = int (bd_amount b) \<and>
    pl_amount7 vault_plan = 10 * int (bd_amount b) \<and>
    assertStellarAddress example_strkey (pl_forwardRecipient vault_plan) = Inr () \<and>
    pl_nonce vault_plan = hd_nonce h \<and> hexToBytes (bytesToHex vault_message) = Inr msg \<and>
    hexToBytes (bytesToHex [1]) = Inr att \<and> att \<noteq> [] \<and> pl_mintArgs vault_plan = [ScBytes msg, ScBytes att]"
  by (rule planDelivery_safe [OF vault_planDelivery])

text \<open>
  End to end: when the burn that the encoder builds is emitted by the source chain
  (its arguments become the fields of the message), the plan of that message exists,
  forwards to the recipient that the burn was built for, and deposits the burnt amount
  rescaled to 7 decimals.
\<close>

theorem burn_then_plan:
  assumes burn: "buildBurnToStellar sk enc ec (cfg_domain cfg) (cctpForwarder cfg) r amt fee fin = Inr bp"
    and hook: "buildForwarderHookData sk r [] = Inr hookData"
    and h: "wf_header h nonce" "hd_destinationDomain h = cfg_domain cfg"
      "hd_destinationCaller h = decodeContract sk (cctpForwarder cfg)"
    and b: "wf_body b" "bd_mintRecipient b = decodeContract sk (cctpForwarder cfg)"
      "int (bd_amount b) = amt" "bd_hookData b = hookData"
    and att: "att \<noteq> []" and r: "length r < 2 ^ 32"
  shows "bp_burnData bp = enc ''depositForBurnWithHook'' (burn_args ec (cfg_domain cfg)
      (decodeContract sk (cctpForwarder cfg)) amt fee fin hookData) \<and>
    (\<exists>plan. planDelivery sk (bytesToHex (encodeHeader h nonce @ encodeBody b)) (bytesToHex att) cfg = Inr plan \<and>
      pl_forwardRecipient plan = r \<and> pl_nonce plan = bytesToHex nonce \<and> pl_amount7 plan = 10 * amt)"
proof -
  from burn hook have amt: "0 < amt" and fwd: "isValidContract sk (cctpForwarder cfg)"
    and data: "bp_burnData bp = enc ''depositForBurnWithHook'' (burn_args ec (cfg_domain cfg)
      (decodeContract sk (cctpForwarder cfg)) amt fee fin hookData)"
    by (auto simp: buildBurnToStellar_def rbind_Inr_iff contractAddressToBytes32_def split: if_splits)
  from hook have addr: "assertStellarAddress sk r = Inr ()"
    by (auto simp: buildForwarderHookData_def rbind_Inr_iff)
  show ?thesis
    using plan_of_message [OF fwd addr r _ h b(1,2) _ att] hook b(3,4) amt data by auto
qed

theorem burn_then_plan_witness:
  "\<exists>bp. buildBurnToStellar example_strkey (\<lambda>f _. f) BASE_SEPOLIA 27 ''CFORWARDER'' ''CRELAYER'' 5000000 None None = Inr bp \<and>
    bp_burnData bp = ''depositForBurnWithHook'' \<and>
    (\<exists>plan. planDelivery example_strkey (bytesToHex vault_message) (bytesToHex [1]) example_cfg = Inr plan \<and>
      pl_forwardRecipient plan = ''CRELAYER'' \<and> pl_nonce plan = bytesToHex (replicate 32 7) \<and>
      pl_amount7 plan = 10 * 5000000)"
proof -
  have cfg: "cfg_domain example_cfg = 27" "cctpForwarder example_cfg = ''CFORWARDER''"
    by (simp_all add: example_cfg_def STELLAR_TESTNET_def CCTP_DOMAIN_STELLAR_def)
  obtain bp where bp: "buildBurnToStellar example_strkey (\<lambda>f _. f) BASE_SEPOLIA (cfg_domain example_cfg)
      (cctpForwarder example_cfg) ''CRELAYER'' 5000000 None None = Inr bp"
    using example_hook by (auto simp: cfg buildBurnToStellar_def contractAddressToBytes32_def
        rbind_Inr_iff assertForwarderFields_Inr_iff)
  show ?thesis
    using burn_then_plan [OF bp example_hook vault_wf(1) _ _ vault_wf(2), of "[1]"] bp
    by (simp add: cfg vault_message_def)
      (simp add: example_header_def vault_body_def example_body_def)
qed

section \<open>Properties of the executor\<close>

text \<open>
  C5. What one delivery may submit to Stellar. Under a submitter that records each call
  once, a delivery submits nothing, or, for a row whose plan it accepted: with the nonce
  unused, the mint alone or the mint followed by the deposit for the beneficiary; with
  the nonce used, the deposit alone, and only in vault mode with no deposit recorded.
  In particular it never mints a used nonce and never deposits twice in one delivery.
\<close>

theorem deliver_submissions:
  assumes log: "\<And>w c. history (snd (dep_submit deps w c)) = history w @ [c]"
    and dlv: "deliver deps w t = (r, w')"
  shows "history w' = history w \<or>
    (\<exists>plan. deliverable deps t plan \<and>
       ((dep_isNonceUsed deps w (tr_nonce t) = Inr False \<and>
          (history w' = history w @ [mint_call deps plan] \<or>
           pl_forwardRecipient plan \<noteq> tr_beneficiary t \<and>
           history w' = history w @ [mint_call deps plan, deposit_call deps t plan])) \<or>
        (dep_isNonceUsed deps w (tr_nonce t) = Inr True \<and> falsy_str (tr_depositTxHash t) \<and>
           pl_forwardRecipient plan \<noteq> tr_beneficiary t \<and> history w' = history w @ [deposit_call deps t plan])))"
proof (cases "\<exists>plan. deliverable deps t plan")
  case True
  then obtain plan where d: "deliverable deps t plan" by blast
  define direct where "direct = (pl_forwardRecipient plan = tr_beneficiary t)"
  have w': "w' = snd (deliver deps w t)" using dlv by simp
  show ?thesis
  proof (cases "dep_isNonceUsed deps w (tr_nonce t)")
    case (Inr used)
    show ?thesis
    proof (cases used)
      case True
      then show ?thesis
        using deliver_used_history [where history = history, OF log d, of w direct] Inr d
        by (auto simp: w' deliver_deliverable [OF d] direct_def split: if_splits)
    next
      case False
      then show ?thesis
        using deliver_mint_history [where history = history, OF log d, of w direct] Inr d
        by (auto simp: w' deliver_deliverable [OF d] direct_def)
    qed
  qed (simp add: w' deliver_deliverable [OF d])
next
  case False
  then show ?thesis using deliver_not_deliverable [of deps t w] dlv by auto
qed

theorem deliver_submissions_witness:
  "\<exists>plan. deliverable lucky_deps vault_row plan \<and>
     snd (deliver lucky_deps [] vault_row) = [mint_call lucky_deps plan, deposit_call lucky_deps vault_row plan]"
proof -
  have d: "snd (deliver lucky_deps [] vault_row) =
      [mint_call lucky_deps vault_plan, deposit_call lucky_deps vault_row vault_plan]"
    using vault_deliverable(2)
    by (simp add: deliver_deliverable deliver_branches deliverableD)
      (simp add: lucky_deps_def example_deps_def vault_plan_def vault_row_def deliver_mint_vault)
  show ?thesis
    using deliver_submissions [of id lucky_deps "[]" vault_row, OF _ prod.collapse [symmetric]] d
    by (auto simp: lucky_deps_def)
qed

text \<open>
  A delivery whose submissions succeed returns the delivered row with the hashes of
  its transactions: the mint in direct mode, the mint and the deposit in vault mode.
\<close>

theorem deliver_success:
  assumes d: "deliverable deps t plan" and unused: "dep_isNonceUsed deps w (tr_nonce t) = Inr False"
    and mint: "dep_submit deps w (mint_call deps plan) = (Inr mh, w1)"
    and dep: "dep_submit deps w1 (deposit_call deps t plan) = (Inr dh, w2)"
  shows "deliver deps w t =
    (if pl_forwardRecipient plan = tr_beneficiary t
     then (Inr (t\<lparr>tr_state := Delivered, tr_mintTxHash := Some mh, tr_lastError := None\<rparr>), w1)
     else (Inr (t\<lparr>tr_state := Delivered, tr_mintTxHash := Some mh, tr_depositTxHash := Some dh,
                  tr_lastError := None\<rparr>), w2))"
  using assms by (simp add: deliver_deliverable deliver_branches deliverableD)

theorem deliver_success_witness:
  "\<exists>u w. deliver lucky_deps [] vault_row = (Inr u, w) \<and> tr_state u = Delivered \<and>
     tr_mintTxHash u = Some ''hash'' \<and> tr_depositTxHash u = Some ''hash''"
  using deliver_success [OF vault_deliverable(2), of "[]" "''hash''" _ "''hash''"]
  by (simp add: lucky_deps_def example_deps_def vault_plan_def vault_row_def)

text \<open>
  C31. Recovery: when the mint succeeds and the deposit fails, the delivery throws and the
  stored row stays attested; delivering that row again finds the nonce used, submits the
  deposit alone and returns the delivered row with the deposit's hash.
\<close>

theorem vault_crash_recovery:
  assumes d: "deliverable deps t plan" and vault: "pl_forwardRecipient plan \<noteq> tr_beneficiary t"
    and nodep: "tr_depositTxHash t = None"
    and unused: "dep_isNonceUsed deps w (tr_nonce t) = Inr False"
    and mint: "dep_submit deps w (mint_call deps plan) = (Inr mh, w1)"
    and fails: "dep_submit deps w1 (deposit_call deps t plan) = (Inl e, w2)"
    and used: "dep_isNonceUsed deps w2 (tr_nonce t) = Inr True"
    and dep: "dep_submit deps w2 (deposit_call deps t plan) = (Inr dh, w3)"
  shows "deliver deps w t = (Inl (PortFailed e), w2) \<and>
    deliver deps w2 t = (Inr (t\<lparr>tr_state := Delivered, tr_depositTxHash := Some dh, tr_lastError := None\<rparr>), w3)"
  using assms by (simp add: deliver_deliverable deliver_branches deliverableD)

theorem vault_crash_recovery_witness:
  "\<exists>w u w'. deliver example_deps [] vault_row = (Inl (PortFailed ''timeout''), w) \<and>
     deliver example_deps w vault_row = (Inr u, w') \<and> tr_state u = Delivered \<and>
     tr_depositTxHash u = Some ''hash'' \<and> length w' = 3"
  using vault_crash_recovery [OF vault_deliverable(1), of "[]" "''hash''" _ "''timeout''" _ "''hash''"]
  by (simp add: example_deps_def vault_plan_def vault_row_def)

text \<open>
  The recovery depends on the order of calls: when the row of a failed vault deposit
  is polled before it is delivered again, \<open>poll\<close> marks it delivered with no deposit
  recorded, and every later delivery refuses the row, so the beneficiary's shares are
  never bought. The comment at \<open>deliver\<close> says that a used nonce does not settle a transfer
  in vault mode.
\<close>

theorem poll_skips_deposit:
  assumes d: "deliverable deps t plan" and vault: "pl_forwardRecipient plan \<noteq> tr_beneficiary t"
    and nodep: "tr_depositTxHash t = None"
    and unused: "dep_isNonceUsed deps w (tr_nonce t) = Inr False"
    and mint: "dep_submit deps w (mint_call deps plan) = (Inr mh, w1)"
    and fails: "dep_submit deps w1 (deposit_call deps t plan) = (Inl e, w2)"
    and used: "dep_isNonceUsed deps w2 (tr_nonce t) = Inr True"
    and iris: "dep_iris deps w2 (tr_sourceDomain t) (tr_burnTxHash t) = Inr i"
  shows "deliver deps w t = (Inl (PortFailed e), w2) \<and>
    (\<exists>u. poll deps w2 t = Inr u \<and> tr_state u = Delivered \<and> tr_depositTxHash u = None \<and>
      (\<forall>w'. fst (deliver deps w' u) = Inl (WantsAttestedRow Delivered) \<and> snd (deliver deps w' u) = w'))"
proof -
  have "reconcile t i True = Inr (t\<lparr>tr_state := Delivered, tr_lastError := None\<rparr>)"
    using deliverableD [OF d] by (auto simp: reconcile_def is_complete_def Let_def patch_simps)
  then show ?thesis
    using assms by (simp add: deliver_deliverable deliver_branches deliverableD poll_def)
      (simp add: deliver_def)
qed

theorem poll_skips_deposit_witness:
  "\<exists>w u. deliver example_deps [] vault_row = (Inl (PortFailed ''timeout''), w) \<and>
     poll example_deps w vault_row = Inr u \<and> tr_state u = Delivered \<and> tr_depositTxHash u = None"
  using poll_skips_deposit [OF vault_deliverable(1), of "[]" "''hash''" _ "''timeout''" _ "IrisComplete ''0x01'' None"]
  by (fastforce simp: example_deps_def vault_plan_def vault_row_def)

end
