(* ===== verification/Credit_Policy.thy ===== *)
theory Credit_Policy
  imports Js_Number
begin

text \<open>
  The credit policy (\<open>backend/src/domain/services/credit-policy.service.ts\<close>): the
  eleven-step reputation ladder, the base and risk-adjusted rates, the wallet
  classification and the five-tier pricing. Monthly rates of the legacy path are
  \<open>Decimal\<close> values, those of the tiered path are \<open>number\<close> values.
\<close>

section \<open>The ladder\<close>

definition LATE_RATE_PER_SEC_WAD :: int where
  "LATE_RATE_PER_SEC_WAD = 19290123457"

record CreditLadderStep =
  minOnTimeLoans :: int
  step_score :: int
  limitUsdc :: int
  xpBase :: int

definition CREDIT_LADDER :: "CreditLadderStep list" where
  "CREDIT_LADDER =
    [\<lparr>minOnTimeLoans = 0, step_score = 1, limitUsdc = 1, xpBase = 1\<rparr>,
     \<lparr>minOnTimeLoans = 1, step_score = 2, limitUsdc = 3, xpBase = 11\<rparr>,
     \<lparr>minOnTimeLoans = 2, step_score = 3, limitUsdc = 4, xpBase = 21\<rparr>,
     \<lparr>minOnTimeLoans = 3, step_score = 4, limitUsdc = 6, xpBase = 31\<rparr>,
     \<lparr>minOnTimeLoans = 4, step_score = 5, limitUsdc = 8, xpBase = 41\<rparr>,
     \<lparr>minOnTimeLoans = 5, step_score = 6, limitUsdc = 10, xpBase = 51\<rparr>,
     \<lparr>minOnTimeLoans = 6, step_score = 7, limitUsdc = 12, xpBase = 61\<rparr>,
     \<lparr>minOnTimeLoans = 7, step_score = 8, limitUsdc = 15, xpBase = 71\<rparr>,
     \<lparr>minOnTimeLoans = 8, step_score = 9, limitUsdc = 18, xpBase = 81\<rparr>,
     \<lparr>minOnTimeLoans = 9, step_score = 10, limitUsdc = 22, xpBase = 91\<rparr>,
     \<lparr>minOnTimeLoans = 10, step_score = 11, limitUsdc = 25, xpBase = 101\<rparr>]"

text \<open>The loop of both lookups: keep the last step that is reached, stop at the first that is not.\<close>

fun climb :: "('s \<Rightarrow> bool) \<Rightarrow> 's \<Rightarrow> 's list \<Rightarrow> 's" where
  "climb ok best [] = best"
| "climb ok best (s # ss) = (if ok s then climb ok s ss else best)"

definition getStepForOnTimeLoans :: "int \<Rightarrow> CreditLadderStep" where
  "getStepForOnTimeLoans onTimeLoans =
     climb (\<lambda>s. onTimeLoans \<ge> minOnTimeLoans s) (CREDIT_LADDER ! 0) CREDIT_LADDER"

definition getStepForScore :: "int \<Rightarrow> CreditLadderStep" where
  "getStepForScore score =
     climb (\<lambda>s. score \<ge> step_score s) (CREDIT_LADDER ! 0) CREDIT_LADDER"

section \<open>Rates by score\<close>

definition getBaseMonthlyRateForScore :: "int option \<Rightarrow> rat" where
  "getBaseMonthlyRateForScore score =
     (let s = nullish score 1 in
      if s \<le> 3 then 25 / 100
      else if s \<le> 5 then 24 / 100
      else if s \<le> 10 then 23 / 100
      else if s \<le> 15 then 22 / 100
      else 21 / 100)"

definition getRiskAdjustedMonthlyRate :: "int option \<Rightarrow> jsnum option \<Rightarrow> rat" where
  "getRiskAdjustedMonthlyRate score pDefault =
     (let baseRate = getBaseMonthlyRateForScore score in
      case pDefault of
        Some (Fin pd) \<Rightarrow>
          if pd < 0 \<or> pd > 1 then baseRate
          else
            (let adjustment =
                   (if pd < lit 10 2 then - (5 / 100)
                    else if pd < lit 20 2 then 0
                    else if pd < lit 30 2 then 5 / 100
                    else 8 / 100);
                 adjusted = dadd baseRate adjustment
             in max (15 / 100) (min (3 / 10) adjusted))
      | _ \<Rightarrow> baseRate)"

section \<open>Wallet quality and tiered pricing\<close>

datatype WalletQuality = Buena | Media | Fea

datatype PricingTierName = PrimePlus | Prime | Standard | NearPrime | Developing

record PricingTierResult =
  tier :: PricingTierName
  monthlyRate :: rat

record WalletSignals =
  stablecoinVolume :: rat
  walletAgeDays :: rat
  totalTxCount :: rat
  chainsActive :: "rat option"
  gasSpentUsd :: "rat option"

definition classifyWalletQuality :: "WalletSignals \<Rightarrow> WalletQuality" where
  "classifyWalletQuality p =
     (let chains = nullish (chainsActive p) 0;
          gas = nullish (gasSpentUsd p) 0
      in if stablecoinVolume p > 1000 \<or>
            (stablecoinVolume p > 200 \<and> chains \<ge> 3 \<and> walletAgeDays p > 200)
         then Buena
         else if stablecoinVolume p > 20 \<or> chains \<ge> 2 \<or>
                 (gas \<ge> 1 / 2 \<and> walletAgeDays p > 150)
         then Media
         else Fea)"

definition effective_pd :: "jsnum option \<Rightarrow> rat" where
  "effective_pd pDefault =
     (case pDefault of Some (Fin p) \<Rightarrow> if p \<ge> 0 \<and> p \<le> 1 then p else 1 | _ \<Rightarrow> 1)"

text \<open>\<open>Math.max(-0.02, Math.min(0.02, (pd / band - 0.5) * 0.04))\<close>.\<close>

definition granular_adj :: "rat \<Rightarrow> rat \<Rightarrow> rat" where
  "granular_adj pd band =
     max (- lit 2 2)
       (min (lit 2 2) (fmul (fsub (fdiv pd band) (1 / 2)) (lit 4 2)))"

definition getTieredMonthlyRate ::
    "jsnum option \<Rightarrow> int \<Rightarrow> WalletQuality \<Rightarrow> rat \<Rightarrow> int \<Rightarrow> PricingTierResult" where
  "getTieredMonthlyRate pDefault onTimeLoans walletQuality totalRepaidUsd lateLoans =
     (let pd = effective_pd pDefault;
          buenaOverride = (onTimeLoans \<ge> 30 \<and> totalRepaidUsd \<ge> 200 \<and> lateLoans = 0);
          mediaOverride = (onTimeLoans \<ge> 20 \<and> totalRepaidUsd \<ge> 50 \<and> lateLoans < 3)
      in if buenaOverride then \<lparr>tier = PrimePlus, monthlyRate = lit 14 2\<rparr>
         else if mediaOverride then \<lparr>tier = Prime, monthlyRate = lit 18 2\<rparr>
         else if pd < lit 5 2 \<and> onTimeLoans \<ge> 7 \<and> lateLoans \<le> 1
           then \<lparr>tier = PrimePlus, monthlyRate = lit 14 2\<rparr>
         else if pd < lit 10 2 \<and> onTimeLoans \<ge> 5 \<and> lateLoans \<le> 2
           then \<lparr>tier = Prime, monthlyRate = lit 18 2\<rparr>
         else if onTimeLoans \<ge> 3 \<or> pd < lit 15 2
           then \<lparr>tier = Standard, monthlyRate = fadd (lit 22 2) (granular_adj pd (lit 15 2))\<rparr>
         else if onTimeLoans \<ge> 1 \<or> pd < lit 25 2
           then \<lparr>tier = NearPrime, monthlyRate = fadd (lit 26 2) (granular_adj pd (lit 25 2))\<rparr>
         else \<lparr>tier = Developing, monthlyRate = lit 28 2\<rparr>)"

record CreditTier =
  level :: int
  tier_minOnTimeLoans :: int
  tier_limitUsdc :: int
  baseRateMonthly :: rat

definition getLadder :: "CreditTier list" where
  "getLadder =
     map (\<lambda>s. \<lparr>level = step_score s, tier_minOnTimeLoans = minOnTimeLoans s,
              tier_limitUsdc = limitUsdc s,
              baseRateMonthly = fl (getBaseMonthlyRateForScore (Some (step_score s)))\<rparr>)
       CREDIT_LADDER"

section \<open>Lemmas on the ladder\<close>

lemmas ladder_defs = getStepForOnTimeLoans_def getStepForScore_def CREDIT_LADDER_def

lemma climb_mem: "climb ok best ss \<in> insert best (set ss)"
  by (induction ok best ss rule: climb.induct) auto

lemma getStepForOnTimeLoans_mem: "getStepForOnTimeLoans n \<in> set CREDIT_LADDER"
  using climb_mem [of "\<lambda>s. n \<ge> minOnTimeLoans s" "CREDIT_LADDER ! 0" CREDIT_LADDER]
  by (auto simp: getStepForOnTimeLoans_def CREDIT_LADDER_def)

lemma getStepForScore_mem: "getStepForScore n \<in> set CREDIT_LADDER"
  using climb_mem [of "\<lambda>s. n \<ge> step_score s" "CREDIT_LADDER ! 0" CREDIT_LADDER]
  by (auto simp: getStepForScore_def CREDIT_LADDER_def)

lemma step_score_on_time: "step_score (getStepForOnTimeLoans n) = max 1 (min 11 (n + 1))"
  by (simp add: ladder_defs)

lemma step_score_score: "step_score (getStepForScore n) = max 1 (min 11 n)"
  by (simp add: ladder_defs)

lemma step_inj:
  "s \<in> set CREDIT_LADDER \<Longrightarrow> t \<in> set CREDIT_LADDER \<Longrightarrow> step_score s = step_score t \<Longrightarrow> s = t"
  by (auto simp: CREDIT_LADDER_def)

lemma step_mono:
  "s \<in> set CREDIT_LADDER \<Longrightarrow> t \<in> set CREDIT_LADDER \<Longrightarrow> step_score s \<le> step_score t
     \<Longrightarrow> limitUsdc s \<le> limitUsdc t \<and> xpBase s \<le> xpBase t \<and> minOnTimeLoans s \<le> minOnTimeLoans t"
  by (auto simp: CREDIT_LADDER_def)

lemma step_range:
  "s \<in> set CREDIT_LADDER \<Longrightarrow> 1 \<le> step_score s \<and> step_score s \<le> 11 \<and> 1 \<le> limitUsdc s \<and> limitUsdc s \<le> 25"
  by (auto simp: CREDIT_LADDER_def)

section \<open>Lemmas on the tiered rates\<close>

text \<open>The rounded constants of the table are ordered as the literals are.\<close>

lemma granular_adj_range: "- lit 2 2 \<le> granular_adj pd band" "granular_adj pd band \<le> lit 2 2"
  using lit_nonneg [of 2 2] by (auto simp: granular_adj_def)

lemma granular_adj_mono:
  assumes "0 \<le> band" and "p \<le> q"
  shows "granular_adj p band \<le> granular_adj q band"
proof -
  have "fdiv p band \<le> fdiv q band"
    using assms by (auto simp: fdiv_def intro!: fl_mono divide_right_mono)
  then have "fsub (fdiv p band) (1 / 2) \<le> fsub (fdiv q band) (1 / 2)"
    by (simp add: fsub_def fl_mono)
  then have "fmul (fsub (fdiv p band) (1 / 2)) (lit 4 2) \<le> fmul (fsub (fdiv q band) (1 / 2)) (lit 4 2)"
    by (simp add: fmul_def fl_mono mult_right_mono lit_nonneg)
  then show ?thesis unfolding granular_adj_def by (intro max.mono min.mono order_refl)
qed

lemma fadd_mono: "y \<le> z \<Longrightarrow> fadd x y \<le> fadd x z"
  by (simp add: fadd_def fl_mono)

lemma tier_const_order:
  "lit 14 2 \<le> lit 18 2" "lit 18 2 \<le> lit 24 2" "lit 24 2 \<le> lit 28 2"
  "lit 5 2 \<le> lit 10 2" "lit 10 2 \<le> lit 15 2" "lit 15 2 \<le> lit 25 2"
  by (simp_all add: lit_mono)

lemma standard_rate_range:
  "lit 20 2 \<le> fadd (lit 22 2) (granular_adj pd band)"
  "fadd (lit 22 2) (granular_adj pd band) \<le> lit 24 2"
proof -
  have "lit 20 2 \<le> fadd (lit 22 2) (- lit 2 2)" by code_simp
  also have "\<dots> \<le> fadd (lit 22 2) (granular_adj pd band)"
    by (intro fadd_mono granular_adj_range)
  finally show "lit 20 2 \<le> fadd (lit 22 2) (granular_adj pd band)" .
  have "fadd (lit 22 2) (granular_adj pd band) \<le> fadd (lit 22 2) (lit 2 2)"
    by (intro fadd_mono granular_adj_range)
  also have "\<dots> \<le> lit 24 2" by code_simp
  finally show "fadd (lit 22 2) (granular_adj pd band) \<le> lit 24 2" .
qed

lemma near_prime_rate_low:
  assumes "lit 15 2 \<le> pd"
  shows "lit 24 2 \<le> fadd (lit 26 2) (granular_adj pd (lit 25 2))"
proof -
  have c: "lit 25 2 = 1 / 4" "1 / 8 \<le> lit 15 2" "fl (1 / 2) = 1 / 2" "0 \<le> lit 2 2" "0 \<le> lit 4 2"
    by (simp_all add: lit_nonneg) code_simp+
  have "1 / 2 \<le> pd / lit 25 2" using assms c(1,2) by simp
  then have "1 / 2 \<le> fdiv pd (lit 25 2)" unfolding fdiv_def using fl_mono c(3) by metis
  then have "0 \<le> fmul (fsub (fdiv pd (lit 25 2)) (1 / 2)) (lit 4 2)"
    using c(5) by (simp add: fmul_def fsub_def fl_nonneg)
  then have "0 \<le> granular_adj pd (lit 25 2)" using c(4) by (simp add: granular_adj_def)
  then have "fadd (lit 26 2) 0 \<le> fadd (lit 26 2) (granular_adj pd (lit 25 2))" by (rule fadd_mono)
  moreover have "lit 24 2 \<le> fadd (lit 26 2) 0" by code_simp
  ultimately show ?thesis by simp
qed

lemma near_prime_rate_high: "fadd (lit 26 2) (granular_adj pd band) \<le> lit 28 2"
proof -
  have "fadd (lit 26 2) (granular_adj pd band) \<le> fadd (lit 26 2) (lit 2 2)"
    by (intro fadd_mono granular_adj_range)
  also have "\<dots> \<le> lit 28 2" by code_simp
  finally show ?thesis .
qed

text \<open>The rate is a function of the tier and the default probability; tiers are ranked.\<close>

fun tier_rank :: "PricingTierName \<Rightarrow> nat" where
  "tier_rank PrimePlus = 0"
| "tier_rank Prime = 1"
| "tier_rank Standard = 2"
| "tier_rank NearPrime = 3"
| "tier_rank Developing = 4"

fun tier_rate :: "rat \<Rightarrow> PricingTierName \<Rightarrow> rat" where
  "tier_rate pd PrimePlus = lit 14 2"
| "tier_rate pd Prime = lit 18 2"
| "tier_rate pd Standard = fadd (lit 22 2) (granular_adj pd (lit 15 2))"
| "tier_rate pd NearPrime = fadd (lit 26 2) (granular_adj pd (lit 25 2))"
| "tier_rate pd Developing = lit 28 2"

lemma monthlyRate_eq:
  "monthlyRate (getTieredMonthlyRate p on w rep late) =
     tier_rate (effective_pd p) (tier (getTieredMonthlyRate p on w rep late))"
  by (simp add: getTieredMonthlyRate_def Let_def)

lemma near_prime_pd:
  "tier (getTieredMonthlyRate p on w rep late) = NearPrime \<Longrightarrow> lit 15 2 \<le> effective_pd p"
  by (auto simp: getTieredMonthlyRate_def Let_def split: if_splits)

lemma tier_rate_chain:
  "tier_rate p PrimePlus \<le> tier_rate q Prime" "tier_rate p Prime \<le> tier_rate q Standard"
  "tier_rate p Standard \<le> lit 24 2" "tier_rate p NearPrime \<le> tier_rate q Developing"
  "lit 15 2 \<le> q \<Longrightarrow> lit 24 2 \<le> tier_rate q NearPrime" "lit 24 2 \<le> tier_rate q Developing"
proof -
  have "lit 18 2 \<le> lit 20 2" by (simp add: lit_mono)
  also have "\<dots> \<le> tier_rate q Standard" by (simp add: standard_rate_range)
  finally show "tier_rate p Prime \<le> tier_rate q Standard" by simp
qed (simp_all add: tier_const_order standard_rate_range near_prime_rate_low near_prime_rate_high)

lemma tier_rate_mono:
  assumes rank: "tier_rank s \<le> tier_rank t" and pd: "p \<le> q" and t: "t = NearPrime \<Longrightarrow> lit 15 2 \<le> q"
  shows "tier_rate p s \<le> tier_rate q t"
proof (cases "s = t")
  case True
  then show ?thesis
    using pd by (cases t) (simp_all add: fadd_mono granular_adj_mono lit_nonneg)
next
  case False
  with rank t show ?thesis
    using tier_rate_chain(1,2,4) [of p q] tier_rate_chain(2) [of q q] tier_rate_chain(3) [of p]
      tier_rate_chain(3) [of q] tier_rate_chain(5,6) [of q]
    by (cases s; cases t) (auto intro: order_trans simp del: tier_rate.simps)
qed

lemma tier_rank_le:
  fixes p on w rep late
  defines "R \<equiv> tier_rank (tier (getTieredMonthlyRate p on w rep late))"
    and "pd \<equiv> effective_pd p"
    and "B \<equiv> on \<ge> 30 \<and> rep \<ge> 200 \<and> late = 0" and "M \<equiv> on \<ge> 20 \<and> rep \<ge> 50 \<and> late < 3"
    and "A \<equiv> effective_pd p < lit 5 2 \<and> on \<ge> 7 \<and> late \<le> 1"
    and "C \<equiv> effective_pd p < lit 10 2 \<and> on \<ge> 5 \<and> late \<le> 2"
  shows "R \<le> 0 \<longleftrightarrow> B \<or> \<not> M \<and> A" "R \<le> 1 \<longleftrightarrow> B \<or> M \<or> A \<or> C"
    "R \<le> 2 \<longleftrightarrow> B \<or> M \<or> A \<or> C \<or> on \<ge> 3 \<or> pd < lit 15 2"
    "R \<le> 3 \<longleftrightarrow> B \<or> M \<or> A \<or> C \<or> on \<ge> 3 \<or> pd < lit 15 2 \<or> on \<ge> 1 \<or> pd < lit 25 2"
    "R \<le> 4"
  unfolding assms getTieredMonthlyRate_def Let_def by simp_all

lemma tier_rank_mono:
  assumes "effective_pd p1 \<le> effective_pd p2"
    and "on2 \<le> on1" and "rep2 \<le> rep1" and "0 \<le> late1" "late1 \<le> late2"
    and "lit 5 2 \<le> effective_pd p2 \<or> on1 < 20 \<or> rep1 < 50 \<or> (on1 \<ge> 30 \<and> rep1 \<ge> 200 \<and> late1 = 0)"
  shows "tier_rank (tier (getTieredMonthlyRate p1 on1 w1 rep1 late1))
       \<le> tier_rank (tier (getTieredMonthlyRate p2 on2 w2 rep2 late2))" (is "?R1 \<le> ?R2")
proof -
  have "?R2 \<le> 0 \<Longrightarrow> ?R1 \<le> 0" and "?R2 \<le> 1 \<Longrightarrow> ?R1 \<le> 1" and "?R2 \<le> 2 \<Longrightarrow> ?R1 \<le> 2"
    and "?R2 \<le> 3 \<Longrightarrow> ?R1 \<le> 3"
    using assms unfolding tier_rank_le by linarith+
  then show ?thesis using tier_rank_le(5) [of p1 on1 w1 rep1 late1] by linarith
qed

section \<open>Properties\<close>

lemma tiered_rate_range:
  "lit 14 2 \<le> monthlyRate (getTieredMonthlyRate p on w rep late) \<and>
   monthlyRate (getTieredMonthlyRate p on w rep late) \<le> lit 28 2 \<and>
   (tier (getTieredMonthlyRate p on w rep late) = PrimePlus \<longleftrightarrow>
      monthlyRate (getTieredMonthlyRate p on w rep late) = lit 14 2)"
proof -
  define t where "t = tier (getTieredMonthlyRate p on w rep late)"
  define pd where "pd = effective_pd p"
  have "t = NearPrime \<Longrightarrow> lit 15 2 \<le> pd" using near_prime_pd by (simp add: t_def pd_def)
  moreover have "lit 14 2 < lit 18 2" "lit 14 2 < lit 24 2" "lit 14 2 < lit 28 2" by code_simp+
  ultimately have "lit 14 2 \<le> tier_rate pd t \<and> tier_rate pd t \<le> lit 28 2 \<and>
      (t = PrimePlus \<longleftrightarrow> tier_rate pd t = lit 14 2)"
    using tier_rate_chain(2) [of pd pd] tier_rate_chain(3,4,5) [of pd] tier_const_order
      near_prime_rate_high [of pd "lit 25 2"]
    by (cases t) fastforce+
  then show ?thesis by (simp add: monthlyRate_eq t_def pd_def)
qed

text \<open>
  Five-tier pricing is monotone in the risk and the behaviour of the borrower: a
  borrower with a default probability no higher, at least as many on-time loans, at
  least as much repaid and no more late loans never pays a higher monthly rate,
  binary64 rounding included, unless the media loyalty override catches the better
  borrower while the other one has a default probability below 5%.
\<close>

theorem getTieredMonthlyRate_mono:
  assumes pd: "effective_pd p1 \<le> effective_pd p2"
    and on_time: "on2 \<le> on1" and repaid: "rep2 \<le> rep1" and late: "0 \<le> late1" "late1 \<le> late2"
    and no_demotion: "lit 5 2 \<le> effective_pd p2 \<or> on1 < 20 \<or> rep1 < 50
          \<or> (on1 \<ge> 30 \<and> rep1 \<ge> 200 \<and> late1 = 0)"
  shows "monthlyRate (getTieredMonthlyRate p1 on1 w1 rep1 late1)
       \<le> monthlyRate (getTieredMonthlyRate p2 on2 w2 rep2 late2)"
  unfolding monthlyRate_eq using tier_rank_mono [OF assms] pd near_prime_pd by (intro tier_rate_mono) auto

theorem getTieredMonthlyRate_mono_witness:
  "monthlyRate (getTieredMonthlyRate (Some (Fin (1 / 10))) 8 Fea 40 0)
     \<le> monthlyRate (getTieredMonthlyRate None 2 Buena 10 1)"
  by (rule getTieredMonthlyRate_mono) (simp_all add: effective_pd_def)

text \<open>
  Every tiered rate lies between 14% and 28%, whatever the inputs, and the two
  extremes are reached exactly by the Prime+ and the Developing tier.
\<close>

theorem getTieredMonthlyRate_range:
  "lit 14 2 \<le> monthlyRate (getTieredMonthlyRate p on w rep late) \<and>
   monthlyRate (getTieredMonthlyRate p on w rep late) \<le> lit 28 2 \<and>
   (tier (getTieredMonthlyRate p on w rep late) = PrimePlus \<longleftrightarrow>
      monthlyRate (getTieredMonthlyRate p on w rep late) = lit 14 2)"
  by (rule tiered_rate_range)

text \<open>
  The media loyalty override is checked before the Prime+ rule, so it can raise
  the price: any borrower with a default probability below 5%, at most one late loan
  and between 20 and 29 on-time loans pays 18% once 50 dollars are repaid, although the
  same borrower with 19 on-time loans pays 14%.
\<close>

theorem media_override_demotes:
  assumes "effective_pd p < lit 5 2" and "20 \<le> on" "on < 30" and "50 \<le> rep" and "late \<le> 1"
  shows "monthlyRate (getTieredMonthlyRate p on w rep late) = lit 18 2 \<and>
    monthlyRate (getTieredMonthlyRate p 19 w rep late) = lit 14 2"
  using assms by (simp add: getTieredMonthlyRate_def)

theorem media_override_demotes_witness:
  "monthlyRate (getTieredMonthlyRate (Some (Fin (1 / 100))) 20 Buena 60 0) = lit 18 2 \<and>
   monthlyRate (getTieredMonthlyRate (Some (Fin (1 / 100))) 19 Buena 60 0) = lit 14 2"
proof -
  have "effective_pd (Some (Fin (1 / 100))) < lit 5 2" by code_simp
  then show ?thesis
    using media_override_demotes [of "Some (Fin (1 / 100))" 20 60 0 Buena] by simp
qed

text \<open>
  A missing or invalid default probability is priced as probability 1: the tier then
  depends on the repayment history only, and it is the Developing tier exactly for a
  borrower with no on-time loan.
\<close>

theorem missing_pDefault_tier:
  assumes "effective_pd p = 1" and "on < 20 \<or> rep < 50"
  shows "tier (getTieredMonthlyRate p on w rep late) =
     (if 3 \<le> on then Standard else if 1 \<le> on then NearPrime else Developing)"
proof -
  have "\<not> 1 < lit 5 2" "\<not> 1 < lit 10 2" "\<not> 1 < lit 15 2" "\<not> 1 < lit 25 2" by code_simp+
  then show ?thesis using assms by (auto simp: getTieredMonthlyRate_def Let_def)
qed

theorem missing_pDefault_tier_witness:
  "tier (getTieredMonthlyRate None 3 Fea 0 0) = Standard \<and>
   tier (getTieredMonthlyRate (Some NaN) 0 Fea 0 0) = Developing"
  using missing_pDefault_tier [of None 3 0 Fea 0] missing_pDefault_tier [of "Some NaN" 0 0 Fea 0]
  by (simp add: effective_pd_def)

text \<open>
  The ladder: the step for a number of on-time loans is the step of the score that
  the number gives (one more than the number, between 1 and 11), limits and scores
  never fall as the number grows, and no step lends more than 25.
\<close>

theorem getStepForOnTimeLoans_ladder:
  assumes "n \<le> m"
  shows "getStepForOnTimeLoans n = getStepForScore (n + 1) \<and>
   step_score (getStepForOnTimeLoans n) = max 1 (min 11 (n + 1)) \<and>
   limitUsdc (getStepForOnTimeLoans n) \<le> limitUsdc (getStepForOnTimeLoans m) \<and>
   1 \<le> limitUsdc (getStepForOnTimeLoans n) \<and> limitUsdc (getStepForOnTimeLoans m) \<le> 25"
proof -
  have "getStepForOnTimeLoans n = getStepForScore (n + 1)"
    by (rule step_inj) (simp_all add: getStepForOnTimeLoans_mem getStepForScore_mem
        step_score_on_time step_score_score)
  moreover have "step_score (getStepForOnTimeLoans n) \<le> step_score (getStepForOnTimeLoans m)"
    using assms by (simp add: step_score_on_time)
  then have "limitUsdc (getStepForOnTimeLoans n) \<le> limitUsdc (getStepForOnTimeLoans m)"
    using step_mono [OF getStepForOnTimeLoans_mem getStepForOnTimeLoans_mem] by blast
  ultimately show ?thesis
    using step_range [OF getStepForOnTimeLoans_mem] step_score_on_time [of n] by blast
qed

theorem getStepForOnTimeLoans_ladder_witness:
  "limitUsdc (getStepForOnTimeLoans 2) \<le> limitUsdc (getStepForOnTimeLoans 40)"
  using getStepForOnTimeLoans_ladder [of 2 40] by linarith

text \<open>
  The legacy risk-adjusted rate stays between 15% and 30% for every score and every
  default probability, is neutral (the base rate) when the probability is missing, and
  never falls when a valid probability grows.
\<close>

theorem getRiskAdjustedMonthlyRate_range:
  assumes "0 \<le> p" "p \<le> q" "q \<le> 1"
  shows "15 / 100 \<le> getRiskAdjustedMonthlyRate s pd \<and> getRiskAdjustedMonthlyRate s pd \<le> 3 / 10 \<and>
    getRiskAdjustedMonthlyRate s None = getBaseMonthlyRateForScore s \<and>
    getRiskAdjustedMonthlyRate s (Some (Fin p)) \<le> getRiskAdjustedMonthlyRate s (Some (Fin q))"
proof -
  define adj :: "rat \<Rightarrow> rat" where "adj x = (if x < lit 10 2 then - (5 / 100) else if x < lit 20 2 then 0
     else if x < lit 30 2 then 5 / 100 else 8 / 100)" for x
  have eq: "getRiskAdjustedMonthlyRate s (Some (Fin x)) =
      max (15 / 100) (min (3 / 10) (dadd (getBaseMonthlyRateForScore s) (adj x)))"
    if "0 \<le> x" "x \<le> 1" for x
    using that by (simp add: getRiskAdjustedMonthlyRate_def adj_def Let_def)
  have "adj p \<le> adj q" using \<open>p \<le> q\<close> by (simp add: adj_def)
  then have "dadd b (adj p) \<le> dadd b (adj q)" for b by (simp add: dadd_def dl_mono)
  then have "getRiskAdjustedMonthlyRate s (Some (Fin p)) \<le> getRiskAdjustedMonthlyRate s (Some (Fin q))"
    using assms by (simp only: eq order_trans [OF assms(1,2)] order_trans [OF assms(2,3)])
      (intro max.mono min.mono order_refl)
  moreover have "15 / 100 \<le> getRiskAdjustedMonthlyRate s pd \<and> getRiskAdjustedMonthlyRate s pd \<le> 3 / 10"
    by (auto simp: getRiskAdjustedMonthlyRate_def getBaseMonthlyRateForScore_def Let_def
        split: option.split jsnum.split)
  ultimately show ?thesis by (simp add: getRiskAdjustedMonthlyRate_def)
qed

theorem getRiskAdjustedMonthlyRate_range_witness:
  "getRiskAdjustedMonthlyRate (Some 4) (Some (Fin (1 / 20)))
     \<le> getRiskAdjustedMonthlyRate (Some 4) (Some (Fin (1 / 2)))"
  using getRiskAdjustedMonthlyRate_range [of "1 / 20" "1 / 2" "Some 4" None] by simp

end
