(* ===== verification/Loan_Repayment.thy ===== *)
theory Loan_Repayment
  imports Service Credit_Policy Wallet_Units
begin

text \<open>
  Repayments: \<open>backend/src/loan/loan-repayment.service.ts\<close>, the offline late-fee calculator
  (\<open>loan-calculations.service.ts\<close>) and the shared helpers it uses
  (\<open>shared/reputationScore.ts\<close>, \<open>shared/tierHelpers.ts\<close>).

  The environment holds the settings and the library functions that the code calls: the
  two environment variables, the parser of \<open>decimal.js\<close> (\<open>None\<close> when the constructor
  throws) and \<open>Math.log10\<close>, whose result the language leaves to the implementation.
  The on-chain amount due that \<open>processRepayment\<close> reads is used in a log line only; it is
  read and its failure is caught in the code, so it has no part in the model.
\<close>

record env =
  BLOCKCHAIN_GATEWAY :: "string option"
  KYC_GATE_ENABLED :: "string option"
  new_Decimal :: "string \<Rightarrow> rat option"
  Math_log10 :: "rat \<Rightarrow> rat"

text \<open>\<open>BigInt\<close> of a number and \<open>Math.round\<close>.\<close>

definition big_of_num :: "rat \<Rightarrow> (http_error, int) result" where
  "big_of_num x = (if of_int \<lfloor>x\<rfloor> = x then Inr \<lfloor>x\<rfloor> else Inl (RuntimeError ''RangeError''))"

definition js_round :: "rat \<Rightarrow> int" where "js_round x = \<lfloor>x + 1 / 2\<rfloor>"

section \<open>Late fees offline\<close>

record LateFeesInput =
  lf_amountDueAtOpenUsd :: rat
  lf_dueAtUnixSec :: int
  lf_ratePerSecWad :: int
  lf_gracePeriodSec :: int
  lf_nowUnixSec :: "int option"

record LateFeesResult =
  lateFeesUsd :: rat
  amountDueRealUsd :: rat
  lfr_daysLate :: rat
  inGracePeriod :: bool
  perDayDeltaUsd :: rat
  lateStartUnixSec :: int

text \<open>The clock is in milliseconds.\<close>

definition computeLateFees :: "int \<Rightarrow> LateFeesInput \<Rightarrow> LateFeesResult" where
  "computeLateFees clock input =
     (let nowUnix = nullish (lf_nowUnixSec input) (clock div 1000);
          lateStart = lf_dueAtUnixSec input + lf_gracePeriodSec input;
          inGrace = nowUnix < lateStart;
          moraDisabled = lf_ratePerSecWad input = 0
      in if inGrace \<or> moraDisabled then
           \<lparr>lateFeesUsd = 0, amountDueRealUsd = lf_amountDueAtOpenUsd input, lfr_daysLate = 0,
            inGracePeriod = inGrace, perDayDeltaUsd = 0, lateStartUnixSec = lateStart\<rparr>
         else
           (let secondsPastLate = of_int (nowUnix - lateStart);
                ratePerSecNum = fdiv (num_of_big (lf_ratePerSecWad input)) (10 ^ 18);
                lateFees = fmul (fmul (lf_amountDueAtOpenUsd input) ratePerSecNum) secondsPastLate;
                perDayDelta = fmul (fmul (lf_amountDueAtOpenUsd input) ratePerSecNum) 86400;
                daysLate = fdiv secondsPastLate 86400
            in \<lparr>lateFeesUsd = lateFees, amountDueRealUsd = fadd (lf_amountDueAtOpenUsd input) lateFees,
                lfr_daysLate = daysLate, inGracePeriod = False, perDayDeltaUsd = perDayDelta,
                lateStartUnixSec = lateStart\<rparr>))"

definition daysOverdue :: "int \<Rightarrow> int \<Rightarrow> int option \<Rightarrow> int" where
  "daysOverdue clock dueAtUnixSec nowUnixSec =
     (let nowUnix = nullish nowUnixSec (clock div 1000); diff = nowUnix - dueAtUnixSec
      in max 0 \<lceil>fdiv (of_int diff) 86400\<rceil>)"

definition formatAmountForVoice :: "rat \<Rightarrow> int \<times> int" where
  "formatAmountForVoice amountUsd =
     (let whole = \<lfloor>amountUsd\<rfloor> in (whole, js_round (fmul (fsub amountUsd (of_int whole)) 100)))"

section \<open>Reputation\<close>

definition reputationScore :: "env \<Rightarrow> int \<Rightarrow> int" where
  "reputationScore env onTimeLoans =
     (if onTimeLoans \<le> 0 then 0
      else min 1000 (js_round (fmul 250 (Math_log10 env (of_int (1 + onTimeLoans))))))"

definition MAX_CREDIT_LEVEL :: int where "MAX_CREDIT_LEVEL = 11"

definition GROUP_BY_SCORE :: "(int \<times> string) list" where
  "GROUP_BY_SCORE =
     [(1, ''Novato''), (2, ''Novato''), (3, ''Activo''), (4, ''Activo''), (5, ''Estable''), (6, ''Estable''),
      (7, ''Confiable''), (8, ''Confiable''), (9, ''Referente''), (10, ''Referente''), (11, ''Leyenda'')]"

definition getGroupLabelForScore :: "int option \<Rightarrow> string" where
  "getGroupLabelForScore sc =
     (let n = nullish sc 1; clamped = max 1 (min MAX_CREDIT_LEVEL n)
      in nullish (map_of GROUP_BY_SCORE clamped) ''Novato'')"

record ReputationGainPayload =
  rg_delta :: int
  rg_scoreChanged :: bool
  rg_groupChanged :: bool
  rg_newGroupLabel :: "string option"
  rg_newScore :: int

section \<open>Amounts\<close>

definition DEFAULT_SCORE :: int where "DEFAULT_SCORE = 1"

definition REPAID_ON_TIME_GRACE_MS :: int where "REPAID_ON_TIME_GRACE_MS = 24 * 60 * 60 * 1000"

definition parseAmountHuman :: "env \<Rightarrow> string \<Rightarrow> (http_error, rat) result" where
  "parseAmountHuman env amount =
     (let cleaned = js_trim (filter (\<lambda>c. c \<noteq> CHR '','') amount) in
      if cleaned = [] then Inl (BadRequest ''Amount is required'')
      else
        case new_Decimal env cleaned of
          None \<Rightarrow> Inl (BadRequest ''Invalid amount'')
        | Some dec \<Rightarrow> if dec \<le> 0 then Inl (BadRequest ''Amount must be greater than 0'') else Inr dec)"

definition formatAmount :: "rat \<Rightarrow> rat" where "formatAmount d = toFixed 2 d"

section \<open>Preflight\<close>

record PreflightPayload =
  pf_wallet :: string
  pf_principal :: int
  storedAmountDueBefore :: int
  accruedAmountDue :: int
  lastAccruedTs :: rat
  pf_ratePerSecWad :: int
  baseFeeBps :: int
  pf_dueAt :: int
  pf_gracePeriod :: int
  lateStart :: int
  serverNowUnix :: int
  chainNowUnix :: int
  perDayDelta :: rat
  daysLate :: rat
  daysToDefault :: rat
  isDefaulted :: bool
  accrueLateCalled :: bool
  accrueLateSkippedReason :: "string option"

text \<open>Whether to materialise the late fee, with the reason when not.\<close>

definition accrue_skip :: "bool \<Rightarrow> bool \<Rightarrow> int \<Rightarrow> string option" where
  "accrue_skip force isPastGrace rate =
     (if \<not> force then Some ''lazy_skip''
      else if \<not> isPastGrace then Some ''pre_grace''
      else if rate = 0 then Some ''rate_zero''
      else None)"

definition last_accrued :: "bool \<Rightarrow> bool \<Rightarrow> int \<Rightarrow> int option \<Rightarrow> int \<Rightarrow> int \<Rightarrow> int \<Rightarrow> rat" where
  "last_accrued called isPastGrace rate previewLate accrued nowChain start =
     (if called then of_int nowChain
      else if rate = 0 \<or> previewLate = None \<or> accrued = 0 \<or> \<not> isPastGrace then of_int nowChain
      else
        (let delta = the previewLate - accrued in
         if delta \<le> 0 then of_int nowChain
         else
           (let tLateImpliedSec = num_of_big (big_div (delta * 10 ^ 18) (rate * accrued));
                derived = fsub (of_int nowChain) tLateImpliedSec
            in max derived (of_int start))))"

text \<open>The payload, from what was read.\<close>

definition preflight_payload ::
    "env \<Rightarrow> string \<Rightarrow> ChainLoan \<Rightarrow> int \<Rightarrow> int \<Rightarrow> int option \<Rightarrow> bool option \<Rightarrow> int \<Rightarrow> int \<Rightarrow> string option \<Rightarrow> PreflightPayload" where
  "preflight_payload env wallet loan accrued rate previewLate defaulted nowChain clock skipped =
     (let due = cl_due loan; grace = cl_gracePeriod loan; start = due + grace;
          isPastGrace = nowChain > start; called = (skipped = None);
          amtDueNum = fdiv (num_of_big accrued) (of_int (TOKEN_UNIT (BLOCKCHAIN_GATEWAY env)));
          ratePerSecNum = fdiv (num_of_big rate) (10 ^ 18)
      in \<lparr>pf_wallet = wallet, pf_principal = cl_principal loan, storedAmountDueBefore = cl_amountDue loan,
          accruedAmountDue = accrued,
          lastAccruedTs = last_accrued called isPastGrace rate previewLate accrued nowChain start,
          pf_ratePerSecWad = rate, baseFeeBps = cl_feeBps loan, pf_dueAt = due, pf_gracePeriod = grace,
          lateStart = start, serverNowUnix = clock div 1000, chainNowUnix = nowChain,
          perDayDelta = (if isPastGrace then fmul (fmul amtDueNum ratePerSecNum) 86400 else 0),
          daysLate = (if isPastGrace then fdiv (of_int (nowChain - start)) 86400 else 0),
          daysToDefault = max 0 (fdiv (of_int (start + 15 * 86400 - nowChain)) 86400),
          isDefaulted = nullish defaulted False, accrueLateCalled = called,
          accrueLateSkippedReason = skipped\<rparr>)"

text \<open>Materialising the late fee, when it is not skipped, and the amount due after it.\<close>

definition accrue_now ::
    "'c BlockchainGatewayPort \<Rightarrow> string \<Rightarrow> ChainLoan \<Rightarrow> string option \<Rightarrow> ('c world, int) svc" where
  "accrue_now gw wallet loan skipped =
     (if skipped = None then
        sbind (scatch (chain_write (accrueLate gw wallet))
                 (\<lambda>e. sthrow (ServiceUnavailable (''accrueLate failed: '' @ err_msg e)))) (\<lambda>_.
        sbind (chain_read (readLoanFull gw wallet)) (\<lambda>loanAfter.
        sret (case loanAfter of None \<Rightarrow> cl_amountDue loan | Some l \<Rightarrow> cl_amountDue l)))
      else sret (cl_amountDue loan))"

definition preflight_finish ::
    "env \<Rightarrow> 'c BlockchainGatewayPort \<Rightarrow> bool \<Rightarrow> string \<Rightarrow> ChainLoan \<Rightarrow> int \<Rightarrow> int option \<Rightarrow> bool option \<Rightarrow> int
      \<Rightarrow> ('c world, PreflightPayload) svc" where
  "preflight_finish env gw force wallet loan rate previewLate defaulted nowChain =
     (let isPastGrace = nowChain > cl_due loan + cl_gracePeriod loan;
          skipped = accrue_skip force isPastGrace rate
      in sbind (accrue_now gw wallet loan skipped) (\<lambda>accrued.
         sbind (sget now) (\<lambda>clock.
         sret (preflight_payload env wallet loan accrued rate previewLate defaulted nowChain clock skipped))))"

definition preflightRepayment ::
    "env \<Rightarrow> 'c BlockchainGatewayPort \<Rightarrow> string \<Rightarrow> bool \<Rightarrow> ('c world, PreflightPayload) svc" where
  "preflightRepayment env gw address force =
     sbind (slift (normalizeWallet address)) (\<lambda>wallet.
     sbind (chain_read (readLoanFull gw wallet)) (\<lambda>loan.
     sbind (chain_read (readPremium gw wallet)) (\<lambda>premium.
     sbind (chain_read (previewLoanWithLate gw wallet)) (\<lambda>previewLate.
     sbind (chain_read (readIsDefaulted gw wallet)) (\<lambda>defaulted.
     sbind (chain_read (getChainBlockTimestamp gw)) (\<lambda>nowChain.
     case loan of
       None \<Rightarrow> sthrow (ServiceUnavailable ''Could not read loan state from chain'')
     | Some loan \<Rightarrow>
         if \<not> cl_active loan then sthrow (NotFound (''No active loan for '' @ wallet))
         else
           (case nowChain of
             None \<Rightarrow> sthrow (ServiceUnavailable ''Could not read chain block timestamp'')
           | Some nowChain \<Rightarrow>
               preflight_finish env gw force wallet loan (case premium of None \<Rightarrow> 0 | Some p \<Rightarrow> lateRatePerSecWad p)
                 previewLate defaulted nowChain)))))))"

section \<open>Recording a repayment\<close>

record InformRepaymentDto =
  ir_walletAddress :: string
  ir_amountPaidHuman :: string
  ir_txHash :: "string option"

record RepaymentResponse =
  rr_walletAddress :: string
  rr_loanId :: nat
  rr_score :: "int option"
  rr_creditLimit :: "rat option"
  rr_xp :: int
  rr_repaidOnTime :: bool
  rr_reputationGain :: "ReputationGainPayload option"

datatype repayment_outcome = AlreadyProcessed Loan bool rat | Repaid RepaymentResponse

text \<open>
  Verification by transaction: whether it is verified, with the paid units of the event.
\<close>

definition verify_by_txHash ::
    "'c BlockchainGatewayPort \<Rightarrow> string option \<Rightarrow> string \<Rightarrow> ('c world, bool \<times> int option) svc" where
  "verify_by_txHash gw txHash wallet =
     (if falsy_str txHash then sret (False, None)
      else
        sbind (chain_read (verifyRepayByTxHash gw (the txHash) wallet)) (\<lambda>r.
        case r of
          Verified paidUnits \<Rightarrow> sret (True, paidUnits)
        | Unverified Reverted \<Rightarrow> sthrow (BadRequest ''Repay transaction reverted on-chain.'')
        | Unverified NoMatch \<Rightarrow> sthrow (BadRequest ''txHash does not match a repay for this wallet.'')
        | Unverified _ \<Rightarrow> sret (False, None)))"

definition assert_closed_on_chain :: "'c BlockchainGatewayPort \<Rightarrow> string \<Rightarrow> ('c world, unit) svc" where
  "assert_closed_on_chain gw wallet =
     sbind (scatch (chain_read (readLoanOnChain gw wallet))
              (\<lambda>_. sthrow (ServiceUnavailable ''Could not verify on-chain loan state. Please try again.''))) (\<lambda>onChainLoan.
     let loanStillActive = (case onChainLoan of None \<Rightarrow> True | Some l \<Rightarrow> cl_active l)
     in srequire (\<not> loanStillActive)
          (ServiceUnavailable ''Your repayment transaction has not been confirmed on-chain yet. Please wait a moment and try again.''))"

definition payable :: "nat \<Rightarrow> Loan \<Rightarrow> bool" where
  "payable userId l \<longleftrightarrow> loan_userId l = userId \<and> status l \<in> {OPEN, DEFAULTED, DEFAULTED_IN_GRACE} \<and>
     closeTxHash l = None"

definition DEFAULT_LATE_PERIOD_MS :: int where
  "DEFAULT_LATE_PERIOD_MS = REPAID_ON_TIME_GRACE_MS + 15 * 24 * 60 * 60 * 1000"

definition closed_loan :: "Loan \<Rightarrow> rat \<Rightarrow> int \<Rightarrow> string option \<Rightarrow> Loan" where
  "closed_loan loan paid clock txHash =
     (let onTime = clock - dueAt loan \<le> REPAID_ON_TIME_GRACE_MS
      in loan\<lparr>amountPaid := paid, closedAt := Some clock,
           status := (if onTime then REPAID_ON_TIME else REPAID_LATE),
           repaidOnTime := onTime, closeTxHash := txHash\<rparr>)"

text \<open>
  The transaction that closes the loan. It returns the closed loan, whether the loan was
  paid after its default window, and the user as updated in memory.
\<close>

definition close_transaction ::
    "env \<Rightarrow> InformRepaymentDto \<Rightarrow> User \<Rightarrow> int option \<Rightarrow> ('c world, Loan \<times> bool \<times> User) svc" where
  "close_transaction env dto user chainPaidUnits =
     transaction (
       sbind (sget (\<lambda>s. newest startAt (payable (user_id user)) (loans s))) (\<lambda>found.
       case found of
         None \<Rightarrow> sthrow (NotFound ''No active loan found to repay'')
       | Some loan \<Rightarrow>
           sbind (slift (parseAmountHuman env (ir_amountPaidHuman dto))) (\<lambda>amountPaidDec.
           let fromChain = map_option (\<lambda>u. toFixed 6 (ddiv (of_int u) (of_int (TOKEN_UNIT (BLOCKCHAIN_GATEWAY env))))) chainPaidUnits;
               amountPaidNum = nullish fromChain (formatAmount amountPaidDec)
           in sbind (sget now) (\<lambda>clock.
              let loan' = closed_loan loan amountPaidNum clock (ir_txHash dto);
                  isPostDefault = clock - dueAt loan > DEFAULT_LATE_PERIOD_MS
              in sbind (save_loan loan') (\<lambda>_.
                 if isPostDefault \<and> \<not> hadDefaultEver user
                 then sbind (save_user (user\<lparr>hadDefaultEver := True\<rparr>))
                        (\<lambda>_. sret (loan', isPostDefault, user\<lparr>hadDefaultEver := True\<rparr>))
                 else sret (loan', isPostDefault, user))))))"

section \<open>Score and limit\<close>

definition current_limit :: "env \<Rightarrow> User \<Rightarrow> (http_error, rat) result" where
  "current_limit env user =
     (case creditLimit user of
        Some l \<Rightarrow> Inr l
      | None \<Rightarrow> rbind (DEFAULT_CREDIT_LIMIT_USDC (BLOCKCHAIN_GATEWAY env)) (\<lambda>n. Inr (num_of_big n)))"

definition ladder_units :: "env \<Rightarrow> int \<Rightarrow> (http_error, rat) result" where
  "ladder_units env sc =
     rbind (toUnits (Num (limitUsdc (getStepForScore sc))) (TOKEN_DECIMALS (BLOCKCHAIN_GATEWAY env)))
       (\<lambda>n. Inr (num_of_big n))"

definition on_time_score :: "int \<Rightarrow> User \<Rightarrow> int" where
  "on_time_score onTimeLoanCount user =
     (let newScore = step_score (getStepForOnTimeLoans onTimeLoanCount);
          currentScore = nullish (score user) 1
      in if newScore > currentScore + 1 then currentScore + 1 else newScore)"

text \<open>
  Publishing the new score and limit, then storing them when the gateway answers 200. Any
  error is logged and leaves the user as stored; the result is the user in memory.
\<close>

definition publish_credit ::
    "'c BlockchainGatewayPort \<Rightarrow> string \<Rightarrow> User \<Rightarrow> int \<Rightarrow> rat \<Rightarrow> ('c world, User) svc" where
  "publish_credit gw wallet user newScore newLimit =
     scatch
       (sbind (slift (big_of_num newLimit)) (\<lambda>units.
        sbind (chain_write (giveCreditScoreAndLimit gw wallet newScore units)) (\<lambda>result.
        if result = 200
        then let user' = user\<lparr>score := Some newScore, creditLimit := Some newLimit\<rparr>
             in sbind (save_user user') (\<lambda>_. sret user')
        else sret user)))
       (\<lambda>_. sret user)"

definition reward_on_time ::
    "env \<Rightarrow> 'c BlockchainGatewayPort \<Rightarrow> string \<Rightarrow> User \<Rightarrow> int \<Rightarrow> ('c world, User) svc" where
  "reward_on_time env gw wallet user onTimeLoanCount =
     sbind (slift (current_limit env user)) (\<lambda>limit.
     let newScore = on_time_score onTimeLoanCount user
     in sbind (slift (ladder_units env newScore)) (\<lambda>ladder.
        let ladderStep = getStepForOnTimeLoans onTimeLoanCount;
            user' = (if xpBase ladderStep > xp user then user\<lparr>xp := xpBase ladderStep\<rparr> else user)
        in publish_credit gw wallet user' newScore (max limit ladder)))"

definition penalize_post_default ::
    "env \<Rightarrow> 'c BlockchainGatewayPort \<Rightarrow> string \<Rightarrow> User \<Rightarrow> ('c world, User) svc" where
  "penalize_post_default env gw wallet user =
     (let newScore = max 1 (nullish (score user) DEFAULT_SCORE - 2)
      in sbind (slift (ladder_units env newScore)) (\<lambda>ladder.
         publish_credit gw wallet user newScore ladder))"

definition renew_late ::
    "env \<Rightarrow> 'c BlockchainGatewayPort \<Rightarrow> string \<Rightarrow> User \<Rightarrow> ('c world, User) svc" where
  "renew_late env gw wallet user =
     sbind (slift (current_limit env user)) (\<lambda>limit.
     let newScore = nullish (score user) DEFAULT_SCORE
     in sbind (slift (ladder_units env newScore)) (\<lambda>ladder.
        sbind (scatch (sbind (slift (big_of_num (max limit ladder))) (\<lambda>units.
                       chain_write (giveCreditScoreAndLimit gw wallet newScore units)))
                 (\<lambda>_. sret 0)) (\<lambda>_. sret user)))"

definition reputation_gain :: "env \<Rightarrow> bool \<Rightarrow> int \<Rightarrow> int \<Rightarrow> int option \<Rightarrow> ReputationGainPayload option" where
  "reputation_gain env onTime onTimeLoanCount initialScore freshScore =
     (if onTime \<and> onTimeLoanCount > 0 then
        (let repAfter = reputationScore env onTimeLoanCount;
             repBefore = reputationScore env (max 0 (onTimeLoanCount - 1));
             delta = max 0 (repAfter - repBefore)
         in if delta > 0 then
              (let finalScore = nullish freshScore initialScore;
                   oldGroup = getGroupLabelForScore (Some initialScore);
                   newGroup = getGroupLabelForScore (Some finalScore)
               in Some \<lparr>rg_delta = delta, rg_scoreChanged = (finalScore \<noteq> initialScore),
                        rg_groupChanged = (newGroup \<noteq> oldGroup),
                        rg_newGroupLabel = (if newGroup \<noteq> oldGroup then Some newGroup else None),
                        rg_newScore = finalScore\<rparr>)
            else None)
      else None)"

text \<open>After the loan is closed: score, limit and the response.\<close>

definition settle_user ::
    "env \<Rightarrow> 'c BlockchainGatewayPort \<Rightarrow> string \<Rightarrow> int \<Rightarrow> Loan \<times> bool \<times> User \<Rightarrow> ('c world, repayment_outcome) svc" where
  "settle_user env gw wallet initialScore result =
     (let (loan, isPostDefault, user) = result; onTime = repaidOnTime loan
      in sbind (sget (count_loans (\<lambda>l. loan_userId l = user_id user \<and> repaidOnTime l))) (\<lambda>onTimeLoanCount.
         sbind (if onTime then reward_on_time env gw wallet user onTimeLoanCount
                else if isPostDefault then penalize_post_default env gw wallet user
                else renew_late env gw wallet user) (\<lambda>user.
         sbind (sget (user_by_id (user_id user))) (\<lambda>freshUser.
         sret (Repaid
           \<lparr>rr_walletAddress = wallet, rr_loanId = loan_id loan,
            rr_score = orelse (Option.bind freshUser score) (score user),
            rr_creditLimit = orelse (Option.bind freshUser creditLimit) (creditLimit user),
            rr_xp = (case freshUser of None \<Rightarrow> xp user | Some u \<Rightarrow> xp u),
            rr_repaidOnTime = onTime,
            rr_reputationGain = reputation_gain env onTime onTimeLoanCount initialScore
              (Option.bind freshUser score)\<rparr>)))))"

text \<open>The part of \<open>processRepayment\<close> that asks the chain, and the part that writes.\<close>

definition confirm_repay ::
    "'c BlockchainGatewayPort \<Rightarrow> string option \<Rightarrow> string \<Rightarrow> ('c world, int option) svc" where
  "confirm_repay gw txHash wallet =
     sbind (verify_by_txHash gw txHash wallet) (\<lambda>(verified, chainPaidUnits).
     sbind (if verified then sret () else assert_closed_on_chain gw wallet) (\<lambda>_.
     sret chainPaidUnits))"

definition record_repayment ::
    "env \<Rightarrow> 'c BlockchainGatewayPort \<Rightarrow> InformRepaymentDto \<Rightarrow> string \<Rightarrow> User \<Rightarrow> int option
      \<Rightarrow> ('c world, repayment_outcome) svc" where
  "record_repayment env gw dto wallet user chainPaidUnits =
     sbind (sget (\<lambda>s. if falsy_str (ir_txHash dto) then None
                      else find (\<lambda>l. closeTxHash l = ir_txHash dto) (loans s))) (\<lambda>existing.
     case existing of
       Some l \<Rightarrow> sret (AlreadyProcessed l (repaidOnTime l) (amountPaid l))
     | None \<Rightarrow>
         sbind (close_transaction env dto user chainPaidUnits)
           (settle_user env gw wallet (nullish (score user) DEFAULT_SCORE)))"

definition processRepayment ::
    "env \<Rightarrow> 'c BlockchainGatewayPort \<Rightarrow> InformRepaymentDto \<Rightarrow> ('c world, repayment_outcome) svc" where
  "processRepayment env gw dto =
     sbind (slift (normalizeWallet (ir_walletAddress dto))) (\<lambda>wallet.
     sbind (sget (user_by_wallet wallet)) (\<lambda>found.
     case found of
       None \<Rightarrow> sthrow (NotFound ''User not found'')
     | Some user \<Rightarrow>
         sbind (confirm_repay gw (ir_txHash dto) wallet) (record_repayment env gw dto wallet user)))"

section \<open>Lemmas\<close>

definition chain_confirms :: "'c BlockchainGatewayPort \<Rightarrow> string option \<Rightarrow> string \<Rightarrow> 'c \<Rightarrow> int option \<Rightarrow> bool" where
  "chain_confirms gw txHash wallet c paid \<longleftrightarrow>
     (\<not> falsy_str txHash \<and> verifyRepayByTxHash gw (the txHash) wallet c = Inr (Verified paid)) \<or>
     (paid = None \<and> (\<exists>l. readLoanOnChain gw wallet c = Inr (Some l) \<and> \<not> cl_active l))"

lemma verify_by_txHash_run:
  "verify_by_txHash gw txHash wallet s =
     (if falsy_str txHash then (Inr (False, None), s)
      else case verifyRepayByTxHash gw (the txHash) wallet (chain s) of
        Inl e \<Rightarrow> (Inl e, s)
      | Inr (Verified p) \<Rightarrow> (Inr (True, p), s)
      | Inr (Unverified Reverted) \<Rightarrow> (Inl (BadRequest ''Repay transaction reverted on-chain.''), s)
      | Inr (Unverified NoMatch) \<Rightarrow> (Inl (BadRequest ''txHash does not match a repay for this wallet.''), s)
      | Inr (Unverified _) \<Rightarrow> (Inr (False, None), s))"
  by (auto simp: verify_by_txHash_def svc_simps split: sum.splits repay_check.splits repay_reason.splits)

lemma assert_closed_run:
  "assert_closed_on_chain gw wallet s = (r, s') \<Longrightarrow> s' = s \<and>
     (r = Inr () \<longrightarrow> (\<exists>l. readLoanOnChain gw wallet (chain s) = Inr (Some l) \<and> \<not> cl_active l))"
  by (auto simp: assert_closed_on_chain_def sbind_def scatch_def chain_read_def srequire_def svc_simps Let_def
      split: sum.splits option.splits if_splits)

lemma close_transaction_Inr:
  assumes "close_transaction env dto user cp s = (Inr (l', pd, u'), s')"
  obtains loan dec paid where
    "newest startAt (payable (user_id user)) (loans s) = Some loan"
    "parseAmountHuman env (ir_amountPaidHuman dto) = Inr dec"
    "paid = nullish (map_option (\<lambda>u. toFixed 6 (ddiv (of_int u) (of_int (TOKEN_UNIT (BLOCKCHAIN_GATEWAY env))))) cp) (formatAmount dec)"
    "l' = closed_loan loan paid (now s) (ir_txHash dto)" "\<not> hash_clash l' (loans s)"
    "pd = (now s - dueAt loan > DEFAULT_LATE_PERIOD_MS)"
    "u' = (if pd \<and> \<not> hadDefaultEver user then user\<lparr>hadDefaultEver := True\<rparr> else user)"
    "loans s' = put_row loan_id (store_loan l') (loans s)"
    "users s' = (if pd \<and> \<not> hadDefaultEver user then put_row user_id (store_user u') (users s) else users s)"
    "chain s' = chain s" "now s' = now s"
proof -
  from assms obtain loan where l: "newest startAt (payable (user_id user)) (loans s) = Some loan"
    by (auto simp: close_transaction_def transaction_Inr_iff svc_simps split: option.splits)
  from assms obtain dec where d: "parseAmountHuman env (ir_amountPaidHuman dto) = Inr dec"
    by (auto simp: close_transaction_def transaction_Inr_iff svc_simps l split: sum.splits)
  show ?thesis
    using assms
    by (intro that [OF l d refl])
      (auto simp: close_transaction_def transaction_Inr_iff l d svc_simps Let_def split: if_splits)
qed

lemma close_transaction_Inl:
  "close_transaction env dto user cp s = (Inl e, s') \<Longrightarrow> s' = s"
  by (auto simp: close_transaction_def transaction_def svc_simps Let_def slift_def
      split: option.splits sum.splits if_splits prod.splits)

lemma confirm_repay_run:
  assumes "confirm_repay gw txHash wallet s = (r, s')"
  shows "s' = s" "r = Inr cp \<Longrightarrow> chain_confirms gw txHash wallet (chain s) cp"
proof -
  obtain a s2 where a: "assert_closed_on_chain gw wallet s = (a, s2)" by fastforce
  show "s' = s" "r = Inr cp \<Longrightarrow> chain_confirms gw txHash wallet (chain s) cp"
    using assms assert_closed_run [OF a] a
    by (auto simp: confirm_repay_def sbind_def sret_def verify_by_txHash_run chain_confirms_def
        split: if_splits sum.splits repay_check.splits repay_reason.splits prod.splits)
qed

lemma record_repayment_run:
  assumes "record_repayment env gw dto wallet user cp s = (r, s')"
  shows "(s' = s \<and> (\<forall>x. r \<noteq> Inr (Repaid x))) \<or>
    (falsy_str (ir_txHash dto) \<or> (\<forall>l \<in> set (loans s). closeTxHash l \<noteq> ir_txHash dto)) \<and>
    (\<exists>result s1. close_transaction env dto user cp s = (Inr result, s1) \<and>
       settle_user env gw wallet (nullish (score user) DEFAULT_SCORE) result s1 = (r, s'))"
proof -
  obtain x s1 where c: "close_transaction env dto user cp s = (x, s1)" by fastforce
  show ?thesis
    using assms close_transaction_Inl [of env dto user cp s _ s1] c
    by (auto simp: record_repayment_def svc_simps sbind_def find_None_iff
        split: option.splits if_splits sum.splits)
qed

lemma processRepayment_run:
  assumes run: "processRepayment env gw dto s = (r, s')"
  shows "(s' = s \<and> (\<forall>x. r \<noteq> Inr (Repaid x))) \<or>
    (\<exists>wallet user cp result s1.
      normalizeWallet (ir_walletAddress dto) = Inr wallet \<and> user_by_wallet wallet s = Some user \<and>
      chain_confirms gw (ir_txHash dto) wallet (chain s) cp \<and>
      (falsy_str (ir_txHash dto) \<or> (\<forall>l \<in> set (loans s). closeTxHash l \<noteq> ir_txHash dto)) \<and>
      close_transaction env dto user cp s = (Inr result, s1) \<and>
      settle_user env gw wallet (nullish (score user) DEFAULT_SCORE) result s1 = (r, s'))"
proof (cases "\<exists>wallet user. normalizeWallet (ir_walletAddress dto) = Inr wallet \<and> user_by_wallet wallet s = Some user")
  case False
  then show ?thesis
    using run by (auto simp: processRepayment_def svc_simps split: sum.splits option.splits)
next
  case True
  then obtain wallet user where wu: "normalizeWallet (ir_walletAddress dto) = Inr wallet"
    "user_by_wallet wallet s = Some user" by blast
  obtain x s0 where x: "confirm_repay gw (ir_txHash dto) wallet s = (x, s0)" by fastforce
  then have step: "(case x of Inl e \<Rightarrow> (Inl e, s) | Inr cp \<Rightarrow> record_repayment env gw dto wallet user cp s) = (r, s')"
    using run x confirm_repay_run(1) [OF x]
    by (simp add: processRepayment_def svc_simps wu sbind_def [of "confirm_repay _ _ _"] split: sum.splits)
  show ?thesis
  proof (cases x)
    case (Inr cp)
    then show ?thesis
      using step confirm_repay_run(2) [OF x Inr] record_repayment_run [of env gw dto wallet user cp s r s'] wu by auto
  qed (use step in auto)
qed

lemma publish_credit_run:
  "publish_credit gw wallet user ns nl s =
     (case big_of_num nl of
        Inl e \<Rightarrow> (Inr user, s)
      | Inr units \<Rightarrow>
          (case giveCreditScoreAndLimit gw wallet ns units (chain s) of
             (Inl e, c) \<Rightarrow> (Inr user, s\<lparr>chain := c\<rparr>)
           | (Inr code, c) \<Rightarrow>
               if code = 200
               then (Inr (user\<lparr>score := Some ns, creditLimit := Some nl\<rparr>),
                     s\<lparr>chain := c, users := put_row user_id
                        (store_user (user\<lparr>score := Some ns, creditLimit := Some nl\<rparr>)) (users s)\<rparr>)
               else (Inr user, s\<lparr>chain := c\<rparr>)))"
  by (auto simp: publish_credit_def svc_simps Let_def split: sum.splits prod.splits)

lemma big_of_num_Inr: "big_of_num x = Inr n \<longleftrightarrow> x = of_int n"
  by (auto simp: big_of_num_def)

lemma toFixed_of_int [simp]: "toFixed k (of_int n) = of_int n"
proof -
  have r: "round_half_up (of_int m) = m" for m
    unfolding round_half_up_def by (intro floor_unique) simp_all
  then have "toFixed k (of_int n) = sgn (of_int n) * \<bar>of_int n\<bar>"
    by (simp add: toFixed_def r [of "\<bar>n\<bar> * 10 ^ k", simplified])
  then show ?thesis by (simp add: sgn_mult_abs)
qed

text \<open>
  What settling does to the tables: nothing, or it stores a new score and an integral
  limit for the user.
\<close>

definition new_credit :: "env \<Rightarrow> User \<Rightarrow> bool \<Rightarrow> bool \<Rightarrow> int \<Rightarrow> int \<Rightarrow> rat \<Rightarrow> bool" where
  "new_credit env user onTime postDefault n sc l \<longleftrightarrow>
     (\<exists>cur ladder. current_limit env user = Inr cur \<and> ladder_units env sc = Inr ladder \<and>
       (onTime \<and> sc = on_time_score n user \<and> l = max cur ladder \<or>
        \<not> onTime \<and> postDefault \<and> sc = max 1 (nullish (score user) DEFAULT_SCORE - 2) \<and> l = ladder))"

lemma current_limit_Inr: "\<exists>l. current_limit env user = Inr l"
  by (auto simp: current_limit_def DEFAULT_CREDIT_LIMIT_USDC_def toUnits_Num split: option.split)

lemma TOKEN_UNIT_range: "0 < TOKEN_UNIT g" "TOKEN_UNIT g \<le> 10 ^ 7"
  by (simp_all add: TOKEN_UNIT_def TOKEN_DECIMALS_def EVM_USDC_DECIMALS_def STELLAR_TOKEN_DECIMALS_def)

lemma ladder_units_Inr:
  "ladder_units env sc = Inr (of_int (limitUsdc (getStepForScore sc) * TOKEN_UNIT (BLOCKCHAIN_GATEWAY env)))"
proof -
  let ?l = "limitUsdc (getStepForScore sc)" and ?u = "TOKEN_UNIT (BLOCKCHAIN_GATEWAY env)"
  have l: "1 \<le> ?l" "?l \<le> 25" using step_range [OF getStepForScore_mem] by blast+
  have "?l * ?u \<le> 25 * 10 ^ 7" using l TOKEN_UNIT_range [of "BLOCKCHAIN_GATEWAY env"] by (intro mult_mono) simp_all
  moreover have "0 \<le> ?l * ?u" using l TOKEN_UNIT_range(1) [of "BLOCKCHAIN_GATEWAY env"] by simp
  ultimately have "num_of_big (?l * ?u) = of_int (?l * ?u)" unfolding num_of_big_def by (intro fl_of_int) simp
  then show ?thesis using l by (simp add: ladder_units_def toUnits_Num TOKEN_UNIT_def)
qed

definition credit_effect ::
    "env \<Rightarrow> User \<Rightarrow> bool \<Rightarrow> bool \<Rightarrow> int \<Rightarrow> 'c world \<Rightarrow> (http_error, User) result \<Rightarrow> 'c world \<Rightarrow> bool" where
  "credit_effect env user onTime postDefault n s x t \<longleftrightarrow>
     (\<exists>u. x = Inr u) \<and> loans t = loans s \<and> now t = now s \<and>
     (users t = users s \<or>
      (\<exists>sc l k. new_credit env user onTime postDefault n sc (of_int l) \<and> xp user \<le> k \<and>
         users t = put_row user_id (store_user (user\<lparr>xp := k, score := Some sc, creditLimit := Some (of_int l)\<rparr>)) (users s)))"

lemma publish_effect:
  assumes "new_credit env user onTime pd n sc l" and "xp user \<le> k"
    and "publish_credit gw wallet (user\<lparr>xp := k\<rparr>) sc l s = (x, t)"
  shows "credit_effect env user onTime pd n s x t"
  using assms
  by (auto simp: credit_effect_def publish_credit_run big_of_num_Inr split: sum.splits prod.splits if_splits) blast

lemma reward_effect:
  assumes "reward_on_time env gw wallet user n s = (x, t)"
  shows "credit_effect env user True pd n s x t"
proof -
  obtain cur where cur: "current_limit env user = Inr cur" using current_limit_Inr by blast
  define k where "k = max (xp user) (xpBase (getStepForOnTimeLoans n))"
  define sc where "sc = on_time_score n user"
  obtain ladder where ladder: "ladder_units env sc = Inr ladder" using ladder_units_Inr by blast
  have "(if xpBase (getStepForOnTimeLoans n) > xp user then user\<lparr>xp := xpBase (getStepForOnTimeLoans n)\<rparr> else user)
      = user\<lparr>xp := k\<rparr>"
    by (simp add: k_def max_def)
  then have "reward_on_time env gw wallet user n s = publish_credit gw wallet (user\<lparr>xp := k\<rparr>) sc (max cur ladder) s"
    using cur ladder by (simp add: reward_on_time_def svc_simps sc_def Let_def)
  moreover have "new_credit env user True pd n sc (max cur ladder)"
    using cur ladder by (simp add: new_credit_def sc_def)
  moreover have "xp user \<le> k" by (simp add: k_def)
  ultimately show ?thesis using assms by (metis publish_effect)
qed

lemma penalize_effect:
  assumes "penalize_post_default env gw wallet user s = (x, t)"
  shows "credit_effect env user False True n s x t"
proof -
  obtain cur where cur: "current_limit env user = Inr cur" using current_limit_Inr by blast
  define sc where "sc = max 1 (nullish (score user) DEFAULT_SCORE - 2)"
  obtain ladder where ladder: "ladder_units env sc = Inr ladder" using ladder_units_Inr by blast
  have "penalize_post_default env gw wallet user s = publish_credit gw wallet (user\<lparr>xp := xp user\<rparr>) sc ladder s"
    using ladder by (simp add: penalize_post_default_def svc_simps sc_def Let_def)
  moreover have "new_credit env user False True n sc ladder"
    using cur ladder by (simp add: new_credit_def sc_def)
  ultimately show ?thesis using assms by (metis publish_effect order_refl)
qed

lemma renew_effect:
  assumes "renew_late env gw wallet user s = (x, t)"
  shows "credit_effect env user False pd n s x t"
proof -
  obtain cur where cur: "current_limit env user = Inr cur" using current_limit_Inr by blast
  show ?thesis
    using assms cur ladder_units_Inr [of env "nullish (score user) DEFAULT_SCORE"]
    by (auto simp: credit_effect_def renew_late_def svc_simps Let_def sbind_def [of "scatch _ _"] chain_write_def
        split: sum.splits prod.splits)
qed

lemma settle_user_run:
  assumes run: "settle_user env gw wallet sc0 (loan, pd, user) s = (r, s')"
  shows "\<exists>x u. r = Inr (Repaid x) \<and> rr_loanId x = loan_id loan \<and> rr_repaidOnTime x = repaidOnTime loan \<and>
    credit_effect env user (repaidOnTime loan) pd
      (count_loans (\<lambda>l. loan_userId l = user_id user \<and> repaidOnTime l) s) s (Inr u) s'"
proof -
  define n where "n = count_loans (\<lambda>l. loan_userId l = user_id user \<and> repaidOnTime l) s"
  define m where "m = (if repaidOnTime loan then reward_on_time env gw wallet user n
    else if pd then penalize_post_default env gw wallet user else renew_late env gw wallet user)"
  obtain x t where m: "m s = (x, t)" by fastforce
  then have eff: "credit_effect env user (repaidOnTime loan) pd n s x t"
    using reward_effect penalize_effect renew_effect by (fastforce simp: m_def split: if_splits)
  then obtain u where u: "x = Inr u" by (auto simp: credit_effect_def)
  have "settle_user env gw wallet sc0 (loan, pd, user) s = (r, s') \<longleftrightarrow>
    sbind m (\<lambda>user. sbind (sget (user_by_id (user_id user))) (\<lambda>freshUser.
         sret (Repaid
           \<lparr>rr_walletAddress = wallet, rr_loanId = loan_id loan,
            rr_score = orelse (Option.bind freshUser score) (score user),
            rr_creditLimit = orelse (Option.bind freshUser creditLimit) (creditLimit user),
            rr_xp = (case freshUser of None \<Rightarrow> xp user | Some u \<Rightarrow> xp u),
            rr_repaidOnTime = repaidOnTime loan,
            rr_reputationGain = reputation_gain env (repaidOnTime loan) n sc0
              (Option.bind freshUser score)\<rparr>))) s = (r, s')"
    by (simp add: settle_user_def svc_simps m_def n_def)
  then show ?thesis
    using run m u eff by (auto simp: sbind_def [of m] svc_simps simp flip: n_def)
qed

lemma put_row_twice [simp]: "key r' = key r \<Longrightarrow> put_row key r (put_row key r' rows) = put_row key r rows"
  by (auto simp: put_row_def)

lemma put_row_id: "distinct (map key rows) \<Longrightarrow> r \<in> set rows \<Longrightarrow> put_row key r rows = rows"
  unfolding put_row_def by (intro map_idI) (auto dest: inj_onD simp: distinct_map)

lemma user_id_store [simp]: "user_id (store_user u) = user_id u"
  by (simp add: store_user_def)

lemma loan_id_store [simp]: "loan_id (store_loan l) = loan_id l" "closeTxHash (store_loan l) = closeTxHash l"
    "status (store_loan l) = status l"
  by (simp_all add: store_loan_def)

lemma closed_loan_sel [simp]:
  "loan_id (closed_loan l p t h) = loan_id l" "closeTxHash (closed_loan l p t h) = h"
  "openTxHash (closed_loan l p t h) = openTxHash l"
  "repaidOnTime (closed_loan l p t h) \<longleftrightarrow> t \<le> dueAt l + REPAID_ON_TIME_GRACE_MS"
  "status (closed_loan l p t h) = (if t \<le> dueAt l + REPAID_ON_TIME_GRACE_MS then REPAID_ON_TIME else REPAID_LATE)"
  by (auto simp: closed_loan_def Let_def)

lemma user_by_walletD: "user_by_wallet w s = Some u \<Longrightarrow> u \<in> set (users s) \<and> walletAddress u = w"
  unfolding user_by_wallet_def using find_cond by fastforce

text \<open>All that is known of a run that recorded a repayment.\<close>

definition repaid_by ::
    "env \<Rightarrow> 'c BlockchainGatewayPort \<Rightarrow> InformRepaymentDto \<Rightarrow> 'c world \<Rightarrow> RepaymentResponse \<Rightarrow> 'c world
      \<Rightarrow> string \<Rightarrow> User \<Rightarrow> int option \<Rightarrow> Loan \<Rightarrow> rat \<Rightarrow> bool" where
  "repaid_by env gw dto s x s' wallet user cp loan paid \<longleftrightarrow>
     normalizeWallet (ir_walletAddress dto) = Inr wallet \<and> user_by_wallet wallet s = Some user \<and>
     chain_confirms gw (ir_txHash dto) wallet (chain s) cp \<and>
     newest startAt (payable (user_id user)) (loans s) = Some loan \<and>
     loans s' = put_row loan_id (store_loan (closed_loan loan paid (now s) (ir_txHash dto))) (loans s) \<and>
     rr_loanId x = loan_id loan \<and> rr_repaidOnTime x = (now s \<le> dueAt loan + REPAID_ON_TIME_GRACE_MS) \<and>
     (let pd = now s - dueAt loan > DEFAULT_LATE_PERIOD_MS;
          u' = (if pd \<and> \<not> hadDefaultEver user then user\<lparr>hadDefaultEver := True\<rparr> else user)
      in \<exists>s1 n u. users s1 = (if pd \<and> \<not> hadDefaultEver user then put_row user_id (store_user u') (users s) else users s) \<and>
           credit_effect env u' (rr_repaidOnTime x) pd n s1 (Inr u) s')"

lemma Repaid_run:
  assumes "processRepayment env gw dto s = (Inr (Repaid x), s')"
  shows "\<exists>wallet user cp loan paid. repaid_by env gw dto s x s' wallet user cp loan paid"
proof -
  from processRepayment_run [OF assms] obtain wallet user cp l' pd u' s1 where run:
    "normalizeWallet (ir_walletAddress dto) = Inr wallet" "user_by_wallet wallet s = Some user"
    "chain_confirms gw (ir_txHash dto) wallet (chain s) cp"
    "close_transaction env dto user cp s = (Inr (l', pd, u'), s1)"
    "settle_user env gw wallet (nullish (score user) DEFAULT_SCORE) (l', pd, u') s1 = (Inr (Repaid x), s')"
    by auto
  from run(4) obtain loan paid where c:
    "newest startAt (payable (user_id user)) (loans s) = Some loan"
    "l' = closed_loan loan paid (now s) (ir_txHash dto)" "pd = (now s - dueAt loan > DEFAULT_LATE_PERIOD_MS)"
    "u' = (if pd \<and> \<not> hadDefaultEver user then user\<lparr>hadDefaultEver := True\<rparr> else user)"
    "loans s1 = put_row loan_id (store_loan l') (loans s)"
    "users s1 = (if pd \<and> \<not> hadDefaultEver user then put_row user_id (store_user u') (users s) else users s)"
    by (rule close_transaction_Inr)
  from settle_user_run [OF run(5)] obtain u n where e: "rr_loanId x = loan_id l'" "rr_repaidOnTime x = repaidOnTime l'"
    "credit_effect env u' (repaidOnTime l') pd n s1 (Inr u) s'" by auto
  then have "loans s' = loans s1" by (simp add: credit_effect_def)
  moreover have "credit_effect env u' (rr_repaidOnTime x) pd n s1 (Inr u) s'" using e by simp
  ultimately have "repaid_by env gw dto s x s' wallet user cp loan paid"
    unfolding repaid_by_def Let_def c(3) [symmetric] c(4) [symmetric]
    using run(1-3) c(1,2,5,6) e(1,2) by (intro conjI exI [of _ s1] exI [of _ n] exI [of _ u]) simp_all
  then show ?thesis by blast
qed

lemma new_credit_score:
  assumes "new_credit env user onTime pd n sc l"
  shows "0 \<le> nullish (score user) 1 \<Longrightarrow> sc \<le> nullish (score user) 1 + 1" "\<not> onTime \<Longrightarrow> pd \<and> sc = max 1 (nullish (score user) 1 - 2)"
    "onTime \<Longrightarrow> creditLimit user = Some a \<Longrightarrow> a \<le> l"
  using assms by (auto simp: new_credit_def on_time_score_def Let_def DEFAULT_SCORE_def current_limit_def)

lemma store_user_set:
  "store_user u = u \<Longrightarrow> store_user (u\<lparr>xp := k, score := sc, creditLimit := Some (of_int l)\<rparr>) =
     u\<lparr>xp := k, score := sc, creditLimit := Some (of_int l)\<rparr>"
  "store_user u = u \<Longrightarrow> store_user (u\<lparr>hadDefaultEver := b\<rparr>) = u\<lparr>hadDefaultEver := b\<rparr>"
  by (cases u, simp add: store_user_def)+

lemma close_transaction_ok:
  assumes "newest startAt (payable (user_id user)) (loans s) = Some loan"
    and "parseAmountHuman env (ir_amountPaidHuman dto) = Inr a"
    and "\<And>p. \<not> hash_clash (closed_loan loan p (now s) (ir_txHash dto)) (loans s)"
  shows "\<exists>result s1. close_transaction env dto user cp s = (Inr result, s1)"
  using assms
  by (cases "now s - dueAt loan > DEFAULT_LATE_PERIOD_MS"; cases "hadDefaultEver user")
    (auto simp: close_transaction_def transaction_def svc_simps Let_def)

lemma processRepayment_ok:
  assumes "normalizeWallet (ir_walletAddress dto) = Inr wallet" and "user_by_wallet wallet s = Some user"
    and confirm: "confirm_repay gw (ir_txHash dto) wallet s = (Inr cp, s)"
    and unrecorded: "falsy_str (ir_txHash dto) \<or> (\<forall>l \<in> set (loans s). closeTxHash l \<noteq> ir_txHash dto)"
    and loan: "newest startAt (payable (user_id user)) (loans s) = Some loan"
    and index: "\<And>p. \<not> hash_clash (closed_loan loan p (now s) (ir_txHash dto)) (loans s)"
    and amount: "parseAmountHuman env (ir_amountPaidHuman dto) = Inr a"
  shows "\<exists>x s' paid. processRepayment env gw dto s = (Inr (Repaid x), s') \<and> rr_loanId x = loan_id loan \<and>
    loans s' = put_row loan_id (store_loan (closed_loan loan paid (now s) (ir_txHash dto))) (loans s)"
proof -
  obtain l' pd u' s1 where c: "close_transaction env dto user cp s = (Inr (l', pd, u'), s1)"
    using close_transaction_ok [OF loan amount index] by (metis prod_cases3)
  obtain r0 s' where e: "settle_user env gw wallet (nullish (score user) DEFAULT_SCORE) (l', pd, u') s1 = (r0, s')"
    by fastforce
  from settle_user_run [OF e] obtain x where x: "r0 = Inr (Repaid x)" by blast
  have "(if falsy_str (ir_txHash dto) then None else find (\<lambda>l. closeTxHash l = ir_txHash dto) (loans s)) = None"
    using unrecorded by (auto simp: find_None_iff)
  then have run: "processRepayment env gw dto s = (Inr (Repaid x), s')"
    using assms(1,2) confirm c e x
    by (simp add: processRepayment_def record_repayment_def svc_simps sbind_def [of "confirm_repay _ _ _"]
        sbind_def [of "close_transaction _ _ _ _"])
  from Repaid_run [OF this] obtain wallet' user' cp' loan' paid where
    r: "repaid_by env gw dto s x s' wallet' user' cp' loan' paid" by blast
  then have "loan' = loan" using assms(1,2) loan by (auto simp: repaid_by_def)
  then show ?thesis using r run by (auto simp: repaid_by_def)
qed

lemma num_of_big_nonneg: "0 \<le> n \<Longrightarrow> 0 \<le> num_of_big n"
  unfolding num_of_big_def by (intro fl_nonneg) simp

lemma big_div_nonneg: "0 \<le> a \<Longrightarrow> 0 \<le> b \<Longrightarrow> 0 \<le> big_div a b"
  by (auto simp: big_div_def sgn_if pos_imp_zdiv_nonneg_iff)

lemma fmul_mono: "0 \<le> c \<Longrightarrow> x \<le> y \<Longrightarrow> fmul c x \<le> fmul c y"
  unfolding fmul_def by (intro fl_mono mult_left_mono)

lemma fmul_nonneg: "0 \<le> x \<Longrightarrow> 0 \<le> y \<Longrightarrow> 0 \<le> fmul x y"
  unfolding fmul_def by (intro fl_nonneg mult_nonneg_nonneg)

lemma fdiv_nonneg: "0 \<le> x \<Longrightarrow> 0 \<le> y \<Longrightarrow> 0 \<le> fdiv x y"
  unfolding fdiv_def by (intro fl_nonneg divide_nonneg_nonneg)

lemma last_accrued_range:
  assumes "0 \<le> rate" "0 \<le> accrued" "\<bar>nowChain\<bar> < 2 ^ 53"
  shows "isPastGrace \<longrightarrow> start \<le> nowChain \<Longrightarrow>
      last_accrued called isPastGrace rate preview accrued nowChain start \<le> of_int nowChain"
    and "start \<le> nowChain \<Longrightarrow> of_int start \<le> last_accrued called isPastGrace rate preview accrued nowChain start"
proof -
  let ?t = "num_of_big (big_div ((the preview - accrued) * 10 ^ 18) (rate * accrued))"
  have "0 \<le> ?t" if "0 < the preview - accrued"
    using that assms(1,2) by (intro num_of_big_nonneg big_div_nonneg) simp_all
  then have "fsub (of_int nowChain) ?t \<le> fl (of_int nowChain)" if "0 < the preview - accrued"
    unfolding fsub_def using that by (intro fl_mono) simp
  then have "fsub (of_int nowChain) ?t \<le> of_int nowChain" if "0 < the preview - accrued"
    using that fl_of_int [OF assms(3)] by simp
  then show "isPastGrace \<longrightarrow> start \<le> nowChain \<Longrightarrow>
      last_accrued called isPastGrace rate preview accrued nowChain start \<le> of_int nowChain"
    by (auto simp: last_accrued_def Let_def)
  show "start \<le> nowChain \<Longrightarrow> of_int start \<le> last_accrued called isPastGrace rate preview accrued nowChain start"
    by (auto simp: last_accrued_def Let_def)
qed

lemma accrue_now_run:
  assumes "accrue_now gw wallet loan skipped s = (r, t)"
  shows "users t = users s \<and> loans t = loans s \<and> (skipped \<noteq> None \<longrightarrow> t = s)"
  using assms
  by (auto simp: accrue_now_def svc_simps sbind_def [of "scatch _ _"] chain_write_def
      split: sum.splits option.splits if_splits prod.splits)

lemma preflight_run:
  assumes "preflightRepayment env gw address force s = (Inr p, s')"
  shows "\<exists>wallet loan accrued rate preview defaulted nowChain.
    let skipped = accrue_skip force (nowChain > cl_due loan + cl_gracePeriod loan) rate in
    p = preflight_payload env wallet loan accrued rate preview defaulted nowChain (now s') skipped \<and>
    accrue_now gw wallet loan skipped s = (Inr accrued, s')"
proof -
  have "\<exists>wallet loan nowChain rate preview defaulted.
      preflight_finish env gw force wallet loan rate preview defaulted nowChain s = (Inr p, s')"
    using assms
    by (auto simp: preflightRepayment_def svc_simps split: sum.splits option.splits if_splits) blast+
  then show ?thesis
    unfolding preflight_finish_def sbind_Inr_iff Let_def by (auto simp: svc_simps) blast
qed

section \<open>A concrete borrower\<close>

text \<open>
  For the witnesses: one user with one open loan. The chain is a flag that says whether the
  loan is active; the transaction \<open>h1\<close> is a repayment of one token.
\<close>

definition example_wallet :: string where
  "example_wallet = ''0x0000000000000000000000000000000000000001''"

definition example_user :: User where
  "example_user = \<lparr>user_id = 1, walletAddress = example_wallet, platform = None, firstName = None, lastName = None,
     birthdate = None, nationality = None, documentType = None, documentNumber = None, creditLimit = None,
     score = Some 1, email = None, waitlistJoinedAt = None, earlyAccessNotifiedAt = None, user_createdAt = 0,
     xp = 1, waitlistPriority = 0, riskDecision = None, riskPDefault = None, riskClass = None, riskScoredAt = None,
     walletQuality = None, workType = None, termsAcceptedAt = None, phone = None, phoneVerifiedAt = None,
     lastPhoneOtpSentAt = None, phoneOtpCode = None, phoneOtpExpiresAt = None, phoneOtpAttemptCount = 0,
     hadDefaultEver = False, defaultsCount = 0, lemonTag = None, pep = None, lemonCountry = None,
     lemonAuthenticatedAt = None, identityCrossCheckedAt = None, kycStatus = ''none'', kycSessionId = None,
     kycProvider = None, kycApprovedAt = None, identityMatchScore = None, lemonEmail = None, emailMatchesLemon = None\<rparr>"

definition example_loan :: Loan where
  "example_loan = \<lparr>loan_id = 1, loan_userId = 1, borrowerAddress = example_wallet, principal = 1,
     amountDueAtOpen = 1, amountPaid = 0, tenorDays = 7, feeBps = 653, startAt = 0, dueAt = 604800000,
     closedAt = None, status = OPEN, repaidOnTime = False, openTxHash = Some ''h0'', closeTxHash = None,
     syncedByChain = False, loan_lateRatePerSecWad = None, gracePeriodSec = None, lateFeesCurrentUsd = None,
     lateFeesSnapshotAt = None, lateFeesCollectedUsd = None, loan_createdAt = 0\<rparr>"

definition example_chain_loan :: "bool \<Rightarrow> ChainLoan" where
  "example_chain_loan a = \<lparr>cl_principal = 10000000, cl_amountDue = 10653000, cl_start = 0, cl_due = 604800,
     cl_feeBps = 653, cl_gracePeriod = 86400, cl_active = a\<rparr>"

definition example_gw :: "bool BlockchainGatewayPort" where
  "example_gw = \<lparr>readCreditLimitOnChain = (\<lambda>w c. Inr 10000000), readNextBorrowTime = None,
     giveCreditScoreAndLimit = (\<lambda>w sc l c. (Inr 200, c)),
     createLoanOfferBackend = (\<lambda>a w t f c. (Inr \<lparr>of_ok = True, of_feeBps = f, of_tenorDays = t,
        of_maxAmountBase = a, of_minedBlock = 1\<rparr>, c)),
     setPremiumConfig = (\<lambda>w r c. (Inr (), c)), previewLoanWithLate = (\<lambda>w c. Inr None),
     readLoanFull = (\<lambda>w c. Inr (Some (example_chain_loan c))),
     readLoanOnChain = (\<lambda>w c. Inr (Some (example_chain_loan c))),
     readPremium = (\<lambda>w c. Inr None), readIsDefaulted = (\<lambda>w c. Inr None),
     getChainBlockTimestamp = (\<lambda>c. Inr (Some 700000)), getLatestLedger = (\<lambda>c. Inr 1),
     readUserRisk = (\<lambda>w c. Inr None), getLoanOpenedEvents = (\<lambda>a b c. Inr []),
     findLoanClosedEvent = (\<lambda>w a b c. Inr None), verifyLoanOpenedByTxHash = (\<lambda>h w c. Inr True),
     accrueLate = (\<lambda>w c. (Inr (), c)),
     verifyRepayByTxHash = (\<lambda>h w c. Inr (if h = ''h1'' then Verified (Some 10000000) else Unverified NoMatch))\<rparr>"

lemma example_gw_sel [simp]:
  "readLoanFull example_gw w c = Inr (Some (example_chain_loan c))"
  "readLoanOnChain example_gw w c = Inr (Some (example_chain_loan c))"
  "readPremium example_gw w c = Inr None" "readIsDefaulted example_gw w c = Inr None"
  "previewLoanWithLate example_gw w c = Inr None" "getChainBlockTimestamp example_gw c = Inr (Some 700000)"
  "verifyRepayByTxHash example_gw ''h1'' w c = Inr (Verified (Some 10000000))"
  "cl_active (example_chain_loan c) = c"
  by (simp_all add: example_gw_def example_chain_loan_def)

definition example_env :: env where
  "example_env = \<lparr>BLOCKCHAIN_GATEWAY = Some ''soroban'', KYC_GATE_ENABLED = None,
     new_Decimal = (\<lambda>t. if t = ''1'' then Some 1 else None), Math_log10 = (\<lambda>x. 0)\<rparr>"

definition example_dto :: InformRepaymentDto where
  "example_dto = \<lparr>ir_walletAddress = example_wallet, ir_amountPaidHuman = ''1'', ir_txHash = Some ''h1''\<rparr>"

definition example_world :: "bool \<Rightarrow> int \<Rightarrow> bool world" where
  "example_world active t = \<lparr>users = [example_user], loans = [example_loan], chain = active, now = t\<rparr>"

lemma example_wallet_norm: "normalizeWallet example_wallet = Inr example_wallet"
  unfolding example_wallet_def by code_simp

lemma example_facts:
  "user_by_wallet example_wallet (example_world a t) = Some example_user"
  "newest startAt (payable 1) [example_loan] = Some example_loan"
  "parseAmountHuman example_env ''1'' = Inr 1"
  "wf_users (example_world a t)"
  by (simp_all add: user_by_wallet_def example_world_def example_user_def newest_def payable_def example_loan_def
      parseAmountHuman_def example_env_def js_trim_def is_ws_def wf_users_def store_user_def)

lemma example_run:
  "\<exists>x s' paid. processRepayment example_env example_gw example_dto (example_world a t) = (Inr (Repaid x), s') \<and>
     rr_loanId x = 1 \<and> loans s' = [store_loan (closed_loan example_loan paid t (Some ''h1''))]"
proof -
  let ?s = "example_world a t"
  have "confirm_repay example_gw (Some ''h1'') example_wallet ?s = (Inr (Some 10000000), ?s)"
    by (simp add: confirm_repay_def sbind_def verify_by_txHash_run sret_def)
  moreover have "\<not> hash_clash (closed_loan example_loan p t (Some ''h1'')) [example_loan]" for p
    by (simp add: hash_clash_def)
  moreover have "closeTxHash example_loan = None" "loan_id example_loan = 1" "user_id example_user = 1"
    by (simp_all add: example_loan_def example_user_def)
  ultimately show ?thesis
    using processRepayment_ok [of example_dto example_wallet ?s example_user example_gw "Some 10000000"
        example_loan example_env 1] example_wallet_norm example_facts
    by (simp add: example_dto_def put_row_def) (simp add: example_world_def)
qed

section \<open>Properties\<close>

text \<open>
  C25. No unconfirmed repayment is recorded: whenever \<open>processRepayment\<close> changes the tables,
  the gateway had verified the given transaction for the caller's wallet, or had read the
  wallet's loan as inactive.
\<close>

theorem repay_confirmed:
  assumes "processRepayment env gw dto s = (r, s')" and "loans s' \<noteq> loans s \<or> users s' \<noteq> users s"
  shows "\<exists>wallet paid. normalizeWallet (ir_walletAddress dto) = Inr wallet \<and>
    (\<not> falsy_str (ir_txHash dto) \<and> verifyRepayByTxHash gw (the (ir_txHash dto)) wallet (chain s) = Inr (Verified paid) \<or>
     (\<exists>l. readLoanOnChain gw wallet (chain s) = Inr (Some l) \<and> \<not> cl_active l))"
  using processRepayment_run [OF assms(1)] assms(2) by (auto simp: chain_confirms_def)

theorem repay_confirmed_witness:
  "\<exists>r s' wallet paid. processRepayment example_env example_gw example_dto (example_world True 0) = (r, s') \<and>
     loans s' \<noteq> [example_loan] \<and> normalizeWallet example_wallet = Inr wallet \<and>
     verifyRepayByTxHash example_gw ''h1'' wallet True = Inr (Verified paid)"
proof -
  from example_run [of True 0] obtain x s' paid where
    r: "processRepayment example_env example_gw example_dto (example_world True 0) = (Inr (Repaid x), s')"
    "loans s' = [store_loan (closed_loan example_loan paid 0 (Some ''h1''))]" by blast
  then have "map status (loans s') \<noteq> map status [example_loan]"
    by (simp add: example_loan_def REPAID_ON_TIME_GRACE_MS_def)
  then have d: "loans s' \<noteq> [example_loan]" by auto
  then show ?thesis
    using repay_confirmed [OF r(1)] r(1)
    by (fastforce simp: example_world_def example_dto_def)
qed

text \<open>
  A recorded repayment closes exactly one loan: the newest loan of the caller's user
  that is open or defaulted and has no closing transaction. Every other row of the table
  is untouched, and the loan counts as on time exactly within 24 hours of its due date.
\<close>

theorem repay_closes_one:
  assumes "processRepayment env gw dto s = (Inr (Repaid x), s')"
  shows "\<exists>wallet user loan paid. normalizeWallet (ir_walletAddress dto) = Inr wallet \<and>
    user_by_wallet wallet s = Some user \<and> loan \<in> set (loans s) \<and> payable (user_id user) loan \<and>
    (\<forall>l \<in> set (loans s). payable (user_id user) l \<longrightarrow> startAt l \<le> startAt loan) \<and>
    loans s' = put_row loan_id (store_loan (closed_loan loan paid (now s) (ir_txHash dto))) (loans s) \<and>
    rr_loanId x = loan_id loan \<and> (rr_repaidOnTime x \<longleftrightarrow> now s \<le> dueAt loan + 24 * 60 * 60 * 1000)"
proof -
  from Repaid_run [OF assms] obtain wallet user cp loan paid where
    r: "repaid_by env gw dto s x s' wallet user cp loan paid" by blast
  then have n: "newest startAt (payable (user_id user)) (loans s) = Some loan" by (simp add: repaid_by_def)
  have "\<forall>l \<in> set (loans s). payable (user_id user) l \<longrightarrow> startAt l \<le> startAt loan"
    using newest_max [OF n] by blast
  then show ?thesis
    using r newest_Some [OF n]
    by (intro exI [of _ wallet] exI [of _ user] exI [of _ loan] exI [of _ paid])
      (simp add: repaid_by_def REPAID_ON_TIME_GRACE_MS_def)
qed

theorem repay_closes_one_witness:
  "\<exists>x s'. processRepayment example_env example_gw example_dto (example_world False 0) = (Inr (Repaid x), s') \<and>
     rr_loanId x = loan_id example_loan \<and> rr_repaidOnTime x"
proof -
  from example_run [of False 0] obtain x s' where
    r: "processRepayment example_env example_gw example_dto (example_world False 0) = (Inr (Repaid x), s')" by blast
  from repay_closes_one [OF this] obtain loan where
    "loan \<in> set (loans (example_world False 0))" "rr_loanId x = loan_id loan"
    "rr_repaidOnTime x \<longleftrightarrow> now (example_world False 0) \<le> dueAt loan + 24 * 60 * 60 * 1000" by blast
  then show ?thesis using r by (auto simp: example_world_def example_loan_def)
qed

text \<open>
  A transaction repays once: after a repayment was recorded for a transaction hash,
  every later call with that hash, by any wallet, leaves the whole world as it is and does
  not report a new repayment.
\<close>

theorem repay_idempotent:
  assumes "processRepayment env gw dto s = (Inr (Repaid x), s1)" and "\<not> falsy_str (ir_txHash dto)"
    and "ir_txHash dto' = ir_txHash dto" and "loans s2 = loans s1"
    and "processRepayment env gw' dto' s2 = (r, s3)"
  shows "s3 = s2 \<and> (\<forall>y. r \<noteq> Inr (Repaid y))"
proof -
  from Repaid_run [OF assms(1)] obtain wallet user cp loan paid where
    r: "repaid_by env gw dto s x s1 wallet user cp loan paid" by blast
  define c where "c = store_loan (closed_loan loan paid (now s) (ir_txHash dto))"
  have "loan \<in> set (loans s)" using r newest_Some by (fastforce simp: repaid_by_def)
  then have "c \<in> set (loans s2)"
    using r assms(4) put_row_same [of loan "loans s" loan_id c] by (simp add: repaid_by_def c_def)
  moreover have "closeTxHash c = ir_txHash dto" by (simp add: c_def)
  ultimately show ?thesis using processRepayment_run [OF assms(5)] assms(2,3) by auto
qed

theorem repay_idempotent_witness:
  "\<exists>x s1 r. processRepayment example_env example_gw example_dto (example_world False 0) = (Inr (Repaid x), s1) \<and>
     processRepayment example_env example_gw example_dto s1 = (r, s1) \<and> (\<forall>y. r \<noteq> Inr (Repaid y))"
proof -
  from example_run [of False 0] obtain x s1 where
    r: "processRepayment example_env example_gw example_dto (example_world False 0) = (Inr (Repaid x), s1)" by blast
  obtain r2 s3 where r2: "processRepayment example_env example_gw example_dto s1 = (r2, s3)" by fastforce
  from repay_idempotent [OF r _ refl refl r2] r r2 show ?thesis by (auto simp: example_dto_def)
qed

text \<open>
  C29. Effect on the borrower. At most the caller's row changes; the score never rises by
  more than one; an on-time repayment never lowers the limit; a late one leaves the score
  or, after the default window of 16 days, lowers it by two down to at least one and marks
  the user as having defaulted; a late one within the window changes nothing.
\<close>

theorem repay_score_rule:
  assumes run: "processRepayment env gw dto s = (Inr (Repaid x), s')"
    and wf: "wf_users s"
  shows "\<exists>user v loan. user \<in> set (users s) \<and> loan \<in> set (loans s) \<and> loan_id loan = rr_loanId x \<and>
    users s' = put_row user_id v (users s) \<and>
    nullish (score v) 1 \<le> nullish (score user) 1 + 1 \<and>
    (rr_repaidOnTime x \<longrightarrow> (\<forall>a. creditLimit user = Some a \<longrightarrow> (\<exists>b. creditLimit v = Some b \<and> a \<le> b))) \<and>
    (\<not> rr_repaidOnTime x \<longrightarrow> score v = score user \<or> score v = Some (max 1 (nullish (score user) 1 - 2))) \<and>
    (if now s - dueAt loan > 16 * 24 * 60 * 60 * 1000 then hadDefaultEver v
     else rr_repaidOnTime x \<or> v = user)"
proof -
  from Repaid_run [OF run] obtain wallet user cp loan paid where
    r: "repaid_by env gw dto s x s' wallet user cp loan paid" by blast
  define pd where "pd = (now s - dueAt loan > DEFAULT_LATE_PERIOD_MS)"
  define u' where "u' = (if pd \<and> \<not> hadDefaultEver user then user\<lparr>hadDefaultEver := True\<rparr> else user)"
  from r obtain s1 n u where s1: "users s1 = (if pd \<and> \<not> hadDefaultEver user then put_row user_id (store_user u') (users s) else users s)"
    and eff: "credit_effect env u' (rr_repaidOnTime x) pd n s1 (Inr u) s'"
    unfolding repaid_by_def Let_def pd_def [symmetric] u'_def [symmetric] by blast
  have user: "user \<in> set (users s)" using r user_by_walletD by (fastforce simp: repaid_by_def)
  then have st: "store_user user = user" and sc: "0 \<le> nullish (score user) 1"
    using wf by (auto simp: wf_users_def nullish_def split: option.splits)
  then have st': "store_user u' = u'" by (simp add: u'_def store_user_set)
  have u'_sel: "user_id u' = user_id user" "score u' = score user" "creditLimit u' = creditLimit user"
    "pd \<Longrightarrow> hadDefaultEver u'" "\<not> pd \<Longrightarrow> u' = user" by (auto simp: u'_def)
  have users1: "users s1 = put_row user_id u' (users s)"
    using s1 st' put_row_id [OF _ user] wf by (auto simp: u'_def wf_users_def)
  have loan: "loan \<in> set (loans s)" "loan_id loan = rr_loanId x"
    using r newest_Some by (fastforce simp: repaid_by_def)+
  have pd: "pd \<longleftrightarrow> now s - dueAt loan > 16 * 24 * 60 * 60 * 1000"
    by (simp add: pd_def DEFAULT_LATE_PERIOD_MS_def REPAID_ON_TIME_GRACE_MS_def)
  from eff consider "users s' = users s1"
    | sc l k where "new_credit env u' (rr_repaidOnTime x) pd n sc (of_int l)"
        "users s' = put_row user_id (store_user (u'\<lparr>xp := k, score := Some sc, creditLimit := Some (of_int l)\<rparr>)) (users s1)"
    unfolding credit_effect_def by blast
  then show ?thesis
  proof cases
    case 1
    then show ?thesis
      using user loan users1 u'_sel pd sc by (intro exI [of _ user] exI [of _ u'] exI [of _ loan]) auto
  next
    case 2
    let ?v = "u'\<lparr>xp := k, score := Some sc, creditLimit := Some (of_int l)\<rparr>"
    have "users s' = put_row user_id ?v (users s)" using 2(2) users1 st' by (simp add: store_user_set)
    then show ?thesis
      using user loan u'_sel pd sc new_credit_score [OF 2(1)]
      by (intro exI [of _ user] exI [of _ ?v] exI [of _ loan]) auto
  qed
qed

theorem repay_score_rule_witness:
  "\<exists>x s' v. processRepayment example_env example_gw example_dto (example_world False 604800000) = (Inr (Repaid x), s') \<and>
     users s' = [v] \<and> nullish (score v) 1 \<le> 2"
proof -
  from example_run [of False 604800000] obtain x s' where
    r: "processRepayment example_env example_gw example_dto (example_world False 604800000) = (Inr (Repaid x), s')" by blast
  from repay_score_rule [OF r example_facts(4)] obtain user v where
    "user \<in> set (users (example_world False 604800000))"
    "users s' = put_row user_id v (users (example_world False 604800000))"
    "nullish (score v) 1 \<le> nullish (score user) 1 + 1" by blast
  then have "length (users s') = 1 \<and> (\<forall>w \<in> set (users s'). nullish (score w) 1 \<le> 2)"
    by (auto simp: example_world_def set_put_row) (auto simp: example_user_def)
  then show ?thesis using r by (auto simp: length_Suc_conv)
qed

lemma newest_last:
  assumes "rows = old @ [r]" "P r" "\<And>l. l \<in> set old \<Longrightarrow> P l \<Longrightarrow> k l < k r"
  shows "newest k P rows = Some r"
proof -
  have "newest k P rows \<noteq> None" using assms(1,2) by (auto simp: newest_None)
  then obtain q where q: "newest k P rows = Some q" by blast
  have "k r \<le> k q" using newest_max [OF q, of r] assms(1,2) by simp
  moreover have "q \<in> set old \<or> q = r" "P q" using newest_Some [OF q] assms(1) by auto
  ultimately show ?thesis using q assms(3) [of q] by force
qed

text \<open>
  C34. The idempotence key is the stored closing hash only. When a repayment is recorded without its
  transaction hash, no row holds that hash; after the wallet has opened a second loan, which is active on
  chain, the same report with the hash of the old transaction closes the second loan as repaid, while
  the report without a hash is refused because the loan is active.
\<close>

theorem repay_replay:
  assumes first: "processRepayment env gw dto s = (Inr (Repaid x), s1)" "ir_txHash dto = None"
    and fresh_hash: "\<forall>l \<in> set (loans s). closeTxHash l \<noteq> Some h" "h \<noteq> []"
    and paid: "verifyRepayByTxHash gw h wallet (chain s) = Inr (Verified units)"
    and final: "verifyRepayByTxHash gw h wallet (chain t) = verifyRepayByTxHash gw h wallet (chain s)"
    and second: "loans t = loans s1 @ [loan]" "payable (user_id user) loan" "loan_id loan \<notin> loan_id ` set (loans s1)"
      "\<forall>l \<in> set (loans s1). (openTxHash loan = None \<or> openTxHash l \<noteq> openTxHash loan) \<and> (payable (user_id user) l \<longrightarrow> startAt l < startAt loan)"
    and active: "readLoanOnChain gw wallet (chain t) = Inr (Some c)" "cl_active c"
    and again: "normalizeWallet (ir_walletAddress dto) = Inr wallet" "user_by_wallet wallet t = Some user"
      "parseAmountHuman env (ir_amountPaidHuman dto) = Inr a"
  shows "(\<exists>e. processRepayment env gw dto t = (Inl e, t)) \<and>
    (\<exists>y t' l'. processRepayment env gw (dto\<lparr>ir_txHash := Some h\<rparr>) t = (Inr (Repaid y), t') \<and> rr_loanId y = loan_id loan \<and> rr_loanId y \<noteq> rr_loanId x \<and>
       l' \<in> set (loans t') \<and> loan_id l' = loan_id loan \<and> closedAt l' = Some (now t) \<and>
       status l' = (if now t \<le> dueAt loan + 24 * 60 * 60 * 1000 then REPAID_ON_TIME else REPAID_LATE))"
proof -
  from Repaid_run [OF first(1)] obtain w u cp old amt where r: "repaid_by env gw dto s x s1 w u cp old amt" by blast
  define closed where "closed = store_loan (closed_loan old amt (now s) None)"
  have old: "old \<in> set (loans s)" using r newest_Some by (fastforce simp: repaid_by_def)
  have s1: "loans s1 = put_row loan_id closed (loans s)" "rr_loanId x = loan_id old" "closeTxHash closed = None" "loan_id closed = loan_id old"
    using r first(2) by (simp_all add: repaid_by_def closed_def)
  have "closed \<in> set (loans s1)" unfolding s1(1) using old s1(4) by (intro put_row_same) simp_all
  then have other: "loan_id loan \<noteq> rr_loanId x" using second(3) s1(2,4) by (metis imageI)
  have unused: "closeTxHash l \<noteq> Some h" if "l \<in> set (loans t)" for l
    using that second(1,2) fresh_hash(1) s1(1,3) by (auto simp: set_put_row payable_def split: if_splits)
  have loan: "newest startAt (payable (user_id user)) (loans t) = Some loan"
    using second by (intro newest_last) auto
  have seen: "confirm_repay gw (Some h) wallet t = (Inr units, t)"
    using fresh_hash(2) paid final by (simp add: confirm_repay_def sbind_def verify_by_txHash_run sret_def)
  have index: "\<not> hash_clash (closed_loan loan p (now t) (Some h)) (loans t)" for p
    using unused second(1,4) by (auto simp: hash_clash_def list_ex_iff)
  let ?d = "dto\<lparr>ir_txHash := Some h\<rparr>"
  have d: "normalizeWallet (ir_walletAddress ?d) = Inr wallet" "parseAmountHuman env (ir_amountPaidHuman ?d) = Inr a"
    "confirm_repay gw (ir_txHash ?d) wallet t = (Inr units, t)" "\<And>p. \<not> hash_clash (closed_loan loan p (now t) (ir_txHash ?d)) (loans t)"
    using again(1,3) seen index by simp_all
  from processRepayment_ok [OF d(1) again(2) d(3) _ loan d(4) d(2)] unused obtain y t' paid' where
    run: "processRepayment env gw (dto\<lparr>ir_txHash := Some h\<rparr>) t = (Inr (Repaid y), t')" "rr_loanId y = loan_id loan"
      "loans t' = put_row loan_id (store_loan (closed_loan loan paid' (now t) (Some h))) (loans t)" by auto
  define l where "l = store_loan (closed_loan loan paid' (now t) (Some h))"
  have "l \<in> set (loans t')" unfolding run(3) l_def using second(1) by (intro put_row_same [of loan]) simp_all
  moreover have "status l = (if now t \<le> dueAt loan + 24 * 60 * 60 * 1000 then REPAID_ON_TIME else REPAID_LATE)"
    "closedAt l = Some (now t)" "loan_id l = loan_id loan"
    by (auto simp: l_def store_loan_def closed_loan_def REPAID_ON_TIME_GRACE_MS_def Let_def)
  moreover have "\<exists>e. processRepayment env gw dto t = (Inl e, t)"
  proof -
    have "\<exists>e. confirm_repay gw None wallet t = (Inl e, t)" using active
      by (simp add: confirm_repay_def verify_by_txHash_run assert_closed_on_chain_def sbind_def sret_def srequire_def sthrow_def
          chain_read_def scatch_def)
    then show ?thesis using again(1,2) first(2) by (auto simp: processRepayment_def svc_simps sbind_def [of "confirm_repay _ _ _"])
  qed
  ultimately show ?thesis using run(1,2) other by (intro conjI exI [of _ y] exI [of _ t'] exI [of _ l]) simp_all
qed

definition second_loan :: Loan where
  "second_loan = example_loan\<lparr>loan_id := 2, openTxHash := Some ''h2'', startAt := 1\<rparr>"

lemma example_first_repayment:
  "\<exists>x s1 v paid. processRepayment example_env example_gw (example_dto\<lparr>ir_txHash := None\<rparr>) (example_world False 0) = (Inr (Repaid x), s1) \<and>
     loans s1 = [store_loan (closed_loan example_loan paid 0 None)] \<and>
     user_by_wallet example_wallet s1 = Some v \<and> user_id v = 1"
proof -
  let ?s = "example_world False 0" and ?d = "example_dto\<lparr>ir_txHash := None\<rparr>"
  have "confirm_repay example_gw (ir_txHash ?d) example_wallet ?s = (Inr None, ?s)"
    by (simp add: confirm_repay_def verify_by_txHash_run assert_closed_on_chain_def sbind_def sret_def srequire_def
        chain_read_def scatch_def example_world_def example_gw_sel example_chain_loan_def)
  moreover have "normalizeWallet (ir_walletAddress ?d) = Inr example_wallet" "parseAmountHuman example_env (ir_amountPaidHuman ?d) = Inr 1"
    "newest startAt (payable (user_id example_user)) (loans ?s) = Some example_loan"
    "\<And>p. \<not> hash_clash (closed_loan example_loan p (now ?s) (ir_txHash ?d)) (loans ?s)"
    using example_wallet_norm example_facts(2,3)
    by (simp_all add: example_dto_def example_world_def example_user_def hash_clash_def closed_loan_def Let_def)
  ultimately obtain x s1 paid where run: "processRepayment example_env example_gw ?d ?s = (Inr (Repaid x), s1)"
      "loans s1 = put_row loan_id (store_loan (closed_loan example_loan paid (now ?s) (ir_txHash ?d))) (loans ?s)"
    using processRepayment_ok [of ?d example_wallet ?s example_user example_gw None example_loan example_env 1] example_facts(1) by auto
  then have "loans s1 = [store_loan (closed_loan example_loan paid 0 None)]" by (simp add: example_world_def put_row_def)
  moreover have "\<exists>v. user_by_wallet example_wallet s1 = Some v \<and> user_id v = 1"
  proof -
    from Repaid_run [OF run(1)] obtain w u cp l p where r: "repaid_by example_env example_gw ?d ?s x s1 w u cp l p" by blast
    have u: "u = example_user" using r example_wallet_norm example_facts(1) by (auto simp: repaid_by_def example_dto_def)
    have nd: "\<not> now ?s - dueAt l > DEFAULT_LATE_PERIOD_MS"
      using r u example_facts(2) by (simp add: repaid_by_def example_world_def example_user_def example_loan_def DEFAULT_LATE_PERIOD_MS_def REPAID_ON_TIME_GRACE_MS_def)
    from r nd obtain s2 n v where s2: "users s2 = users ?s" "credit_effect example_env u (rr_repaidOnTime x) False n s2 (Inr v) s1"
      by (auto simp: repaid_by_def Let_def)
    then show ?thesis
      by (auto simp: credit_effect_def u example_world_def put_row_def user_by_wallet_def example_user_def store_user_def)
  qed
  ultimately show ?thesis using run(1) by blast
qed

theorem repay_replay_witness:
  "\<exists>x s1 t y t' l'. processRepayment example_env example_gw (example_dto\<lparr>ir_txHash := None\<rparr>) (example_world False 0) = (Inr (Repaid x), s1) \<and>
     loans t = loans s1 @ [second_loan] \<and> cl_active (example_chain_loan (chain t)) \<and>
     processRepayment example_env example_gw example_dto t = (Inr (Repaid y), t') \<and> rr_loanId y = 2 \<and> rr_loanId y \<noteq> rr_loanId x \<and>
     l' \<in> set (loans t') \<and> loan_id l' = 2 \<and> status l' = REPAID_ON_TIME"
proof -
  from example_first_repayment obtain x s1 v p where
    f: "processRepayment example_env example_gw (example_dto\<lparr>ir_txHash := None\<rparr>) (example_world False 0) = (Inr (Repaid x), s1)"
    "loans s1 = [store_loan (closed_loan example_loan p 0 None)]" "user_by_wallet example_wallet s1 = Some v" "user_id v = 1" by blast
  let ?t = "s1\<lparr>loans := loans s1 @ [second_loan], chain := True, now := 0\<rparr>"
  have u: "user_by_wallet example_wallet ?t = Some v" using f(3) by (simp add: user_by_wallet_def)
  have one: "loan_id (store_loan (closed_loan example_loan p 0 None)) = 1"
    "openTxHash (store_loan (closed_loan example_loan p 0 None)) = Some ''h0''"
    "\<not> payable 1 (store_loan (closed_loan example_loan p 0 None))"
    by (simp_all add: store_loan_def closed_loan_def example_loan_def payable_def Let_def)
  have two: "payable 1 second_loan" "loan_id second_loan = 2" "openTxHash second_loan = Some ''h2''" "dueAt second_loan = 604800000"
    by (simp_all add: second_loan_def example_loan_def payable_def)
  have d: "normalizeWallet (ir_walletAddress (example_dto\<lparr>ir_txHash := None\<rparr>)) = Inr example_wallet"
    "parseAmountHuman example_env (ir_amountPaidHuman (example_dto\<lparr>ir_txHash := None\<rparr>)) = Inr 1"
    "example_dto\<lparr>ir_txHash := Some ''h1''\<rparr> = example_dto"
    using example_wallet_norm example_facts(3) by (simp_all add: example_dto_def)
  have none: "\<forall>l \<in> set (loans (example_world False 0)). closeTxHash l \<noteq> Some ''h1''"
    by (simp add: example_world_def example_loan_def)
  from repay_replay [OF f(1) _ none _ _ _ _ _ _ _ _ _ d(1) u d(2), of "Some 10000000" second_loan "example_chain_loan True"]
  obtain y t' l' where "processRepayment example_env example_gw example_dto ?t = (Inr (Repaid y), t')"
    "rr_loanId y = loan_id second_loan" "rr_loanId y \<noteq> rr_loanId x"
    "l' \<in> set (loans t')" "loan_id l' = loan_id second_loan"
    "status l' = (if now ?t \<le> dueAt second_loan + 24 * 60 * 60 * 1000 then REPAID_ON_TIME else REPAID_LATE)"
    using f(2,4) one two d(3) by auto
  then show ?thesis using f(1) two by (intro exI [of _ x] exI [of _ s1] exI [of _ ?t] exI [of _ y] exI [of _ t'] exI [of _ l']) simp
qed

text \<open>
  The preflight writes no table; it touches the chain exactly when it is forced, past
  the grace period and with a late rate; and its payload is consistent: the last accrual
  lies between the start of lateness and the chain time, and the day counts and the daily
  fee are not negative, with no day left once the default window is over.
\<close>

theorem preflight_payload_sound:
  assumes run: "preflightRepayment env gw address force s = (Inr p, s')"
    and rate: "0 \<le> pf_ratePerSecWad p" and due: "0 \<le> accruedAmountDue p" and t: "\<bar>chainNowUnix p\<bar> < 2 ^ 53"
  shows "users s' = users s \<and> loans s' = loans s \<and>
    (accrueLateCalled p \<longleftrightarrow> force \<and> lateStart p < chainNowUnix p \<and> pf_ratePerSecWad p \<noteq> 0) \<and>
    (\<not> accrueLateCalled p \<longrightarrow> s' = s) \<and>
    lastAccruedTs p \<le> of_int (chainNowUnix p) \<and>
    (lateStart p \<le> chainNowUnix p \<longrightarrow> of_int (lateStart p) \<le> lastAccruedTs p) \<and>
    0 \<le> perDayDelta p \<and> 0 \<le> daysLate p \<and> 0 \<le> daysToDefault p \<and>
    (lateStart p + 15 * 86400 \<le> chainNowUnix p \<longrightarrow> daysToDefault p = 0)"
proof -
  from preflight_run [OF run] obtain wallet loan accrued rate' preview defaulted nowChain skipped where
    sk: "skipped = accrue_skip force (nowChain > cl_due loan + cl_gracePeriod loan) rate'"
    and p: "p = preflight_payload env wallet loan accrued rate' preview defaulted nowChain (now s') skipped"
    and acc: "accrue_now gw wallet loan skipped s = (Inr accrued, s')" unfolding Let_def by blast
  note frame = accrue_now_run [OF acc]
  define start where "start = cl_due loan + cl_gracePeriod loan"
  have sel: "lateStart p = start" "chainNowUnix p = nowChain" "pf_ratePerSecWad p = rate'"
    "accruedAmountDue p = accrued" "accrueLateCalled p \<longleftrightarrow> skipped = None"
    "lastAccruedTs p = last_accrued (skipped = None) (nowChain > start) rate' preview accrued nowChain start"
    by (simp_all add: p preflight_payload_def Let_def start_def)
  have "0 \<le> perDayDelta p" "0 \<le> daysLate p" "0 \<le> daysToDefault p"
    using rate due sel TOKEN_UNIT_range(1) [of "BLOCKCHAIN_GATEWAY env"]
    by (auto simp: p preflight_payload_def Let_def intro!: fmul_nonneg fdiv_nonneg num_of_big_nonneg)
  moreover have "daysToDefault p = 0" if "start + 15 * 86400 \<le> nowChain"
  proof -
    have "fdiv (of_int (start + 15 * 86400 - nowChain)) 86400 \<le> fl 0"
      unfolding fdiv_def using that by (intro fl_mono divide_nonpos_pos) (simp_all add: of_int_diff)
    then show ?thesis by (simp add: p preflight_payload_def Let_def start_def)
  qed
  ultimately show ?thesis
    using frame sk [folded start_def] sel rate due t
      last_accrued_range [where rate = rate' and accrued = accrued and nowChain = nowChain and
        isPastGrace = "start < nowChain" and start = start and called = "skipped = None" and preview = preview]
    by (auto simp: accrue_skip_def)
qed

theorem preflight_payload_sound_witness:
  "\<exists>p s'. preflightRepayment example_env example_gw example_wallet True (example_world True 0) = (Inr p, s') \<and>
     \<not> accrueLateCalled p \<and> 0 \<le> daysLate p \<and> of_int (lateStart p) \<le> lastAccruedTs p"
proof -
  let ?p = "preflight_payload example_env example_wallet (example_chain_loan True) 10653000 0 None None 700000 0 (Some ''rate_zero'')"
  have run: "preflightRepayment example_env example_gw example_wallet True (example_world True 0) = (Inr ?p, example_world True 0)"
    by (simp add: preflightRepayment_def svc_simps example_wallet_norm)
      (simp add: preflight_finish_def accrue_now_def svc_simps Let_def accrue_skip_def example_world_def example_chain_loan_def)
  have sel: "pf_ratePerSecWad ?p = 0" "accruedAmountDue ?p = 10653000" "chainNowUnix ?p = 700000" "lateStart ?p = 691200"
    by (simp_all add: preflight_payload_def Let_def example_chain_loan_def)
  show ?thesis using preflight_payload_sound [OF run] run sel by auto
qed

text \<open>
  The offline late fee is zero until the grace period ends, never negative, and never
  falls with time, binary64 rounding included; the total due is never below the amount
  due at opening and grows with the fee.
\<close>

theorem computeLateFees_mono:
  assumes "0 \<le> lf_amountDueAtOpenUsd i" and fp: "fl (lf_amountDueAtOpenUsd i) = lf_amountDueAtOpenUsd i"
    and "0 \<le> lf_ratePerSecWad i" and "t1 \<le> t2"
  shows "let r1 = computeLateFees clock (i\<lparr>lf_nowUnixSec := Some t1\<rparr>);
      r2 = computeLateFees clock (i\<lparr>lf_nowUnixSec := Some t2\<rparr>) in
    0 \<le> lateFeesUsd r1 \<and> lateFeesUsd r1 \<le> lateFeesUsd r2 \<and>
    lf_amountDueAtOpenUsd i \<le> amountDueRealUsd r1 \<and> amountDueRealUsd r1 \<le> amountDueRealUsd r2 \<and>
    0 \<le> lfr_daysLate r1 \<and> lfr_daysLate r1 \<le> lfr_daysLate r2 \<and>
    (t1 \<le> lf_dueAtUnixSec i + lf_gracePeriodSec i \<longrightarrow> lateFeesUsd r1 = 0)"
proof -
  define c where "c = fmul (lf_amountDueAtOpenUsd i) (fdiv (num_of_big (lf_ratePerSecWad i)) (10 ^ 18))"
  define late where "late = lf_dueAtUnixSec i + lf_gracePeriodSec i"
  define fee :: "int \<Rightarrow> rat" where "fee t = (if t < late \<or> lf_ratePerSecWad i = 0 then 0 else fmul c (of_int (t - late)))" for t
  define days :: "int \<Rightarrow> rat" where "days t = (if t < late \<or> lf_ratePerSecWad i = 0 then 0 else fdiv (of_int (t - late)) 86400)" for t
  have c: "0 \<le> c" unfolding c_def using assms(1,3) by (intro fmul_nonneg fdiv_nonneg num_of_big_nonneg) simp_all
  have fee: "0 \<le> fee t" "0 \<le> days t" for t
    using c by (auto simp: fee_def days_def intro!: fmul_nonneg fdiv_nonneg)
  have mono: "fee t1 \<le> fee t2" "days t1 \<le> days t2"
    using c assms(4) fee by (auto simp: fee_def days_def fdiv_def intro!: fmul_mono fmul_nonneg fl_mono divide_right_mono fl_nonneg)
  have r: "lateFeesUsd r = fee t" "lfr_daysLate r = days t"
     "amountDueRealUsd r = fadd (lf_amountDueAtOpenUsd i) (fee t)"
    if "r = computeLateFees clock (i\<lparr>lf_nowUnixSec := Some t\<rparr>)" for r t
    using that fp by (simp_all add: computeLateFees_def Let_def fee_def days_def c_def late_def fadd_def nullish_def)
  have add: "fadd a x \<le> fadd a y" if "x \<le> y" for a x y unfolding fadd_def using that by (intro fl_mono) simp
  have "lf_amountDueAtOpenUsd i \<le> fadd (lf_amountDueAtOpenUsd i) (fee t1)"
    using add [OF fee(1), of "lf_amountDueAtOpenUsd i" t1] fp by (simp add: fadd_def)
  moreover have "t1 \<le> late \<Longrightarrow> fee t1 = 0" by (auto simp: fee_def fmul_def)
  ultimately show ?thesis
    unfolding Let_def r [OF refl] using fee mono add [OF mono(1)] by (auto simp: late_def)
qed

theorem computeLateFees_mono_witness:
  "let i = \<lparr>lf_amountDueAtOpenUsd = 10, lf_dueAtUnixSec = 1000, lf_ratePerSecWad = LATE_RATE_PER_SEC_WAD,
       lf_gracePeriodSec = 86400, lf_nowUnixSec = None\<rparr>
   in lateFeesUsd (computeLateFees 0 (i\<lparr>lf_nowUnixSec := Some 87400\<rparr>)) = 0 \<and>
      lateFeesUsd (computeLateFees 0 (i\<lparr>lf_nowUnixSec := Some 87400\<rparr>))
        \<le> lateFeesUsd (computeLateFees 0 (i\<lparr>lf_nowUnixSec := Some 200000\<rparr>))"
proof -
  have "fl 10 = 10" using fl_of_int [of 10] by simp
  then show ?thesis
    using computeLateFees_mono [of "\<lparr>lf_amountDueAtOpenUsd = 10, lf_dueAtUnixSec = 1000,
      lf_ratePerSecWad = LATE_RATE_PER_SEC_WAD, lf_gracePeriodSec = 86400, lf_nowUnixSec = None\<rparr>" 87400 200000 0]
    by (simp add: Let_def LATE_RATE_PER_SEC_WAD_def)
qed

end
