(* ===== verification/Loan_Service.thy ===== *)
theory Loan_Service
  imports Loan_Repayment
begin

text \<open>
  Loans: \<open>backend/src/loan/loan.service.ts\<close> with the cooldown (\<open>borrow-cooldown.ts\<close>) and the
  KYC gate (\<open>kyc/kyc-gate.ts\<close>). The pricing context comes from the tables, the rate from the
  credit policy, and the term scaling is computed with \<open>Decimal\<close>. The offer is written on chain
  by the gateway; \<open>setPremiumConfig\<close> follows it without being awaited, and its failure is
  only logged.
\<close>

section \<open>Gates\<close>

definition kycGateEnabled :: "env \<Rightarrow> bool" where
  "kycGateEnabled env = (to_lower (nullish (KYC_GATE_ENABLED env) []) = ''true'')"

definition assertKycGate :: "env \<Rightarrow> User \<Rightarrow> (http_error, unit) result" where
  "assertKycGate env user =
     (if \<not> kycGateEnabled env then Inr ()
      else if kycStatus user = ''approved'' then Inr ()
      else Inl (Forbidden ''KYC required''))"

text \<open>The message carries the date in local format, which is left out.\<close>

definition borrowCooldownError :: "int \<Rightarrow> int \<Rightarrow> http_error option" where
  "borrowCooldownError nextAt t =
     (if nextAt = 0 \<or> t \<ge> nextAt then None else Some (BadRequest ''BORROW_COOLDOWN''))"

definition assertNoBorrowCooldown :: "'c BlockchainGatewayPort \<Rightarrow> string \<Rightarrow> ('c world, unit) svc" where
  "assertNoBorrowCooldown gw borrower =
     (case readNextBorrowTime gw of
        None \<Rightarrow> sret ()
      | Some rd \<Rightarrow>
          sbind (scatch (sbind (chain_read (rd borrower)) (\<lambda>n. sret (Some n))) (\<lambda>_. sret None)) (\<lambda>nextAt.
          case nextAt of
            None \<Rightarrow> sret ()
          | Some nextAt \<Rightarrow>
              if nextAt = 0 then sret ()
              else
                sbind (chain_read (getChainBlockTimestamp gw)) (\<lambda>t.
                sbind (sget now) (\<lambda>clock.
                case borrowCooldownError nextAt (nullish t (clock div 1000)) of
                  None \<Rightarrow> sret ()
                | Some e \<Rightarrow> sthrow e))))"

section \<open>Pricing\<close>

record TieredContext =
  tc_onTimeLoans :: int
  tc_walletQuality :: WalletQuality
  tc_totalRepaidUsd :: rat
  tc_lateLoans :: int

text \<open>The column holds one of the three names; any other text has no effect on the price.\<close>

definition quality_of :: "string option \<Rightarrow> WalletQuality" where
  "quality_of q = (if q = Some ''buena'' then Buena else if q = Some ''media'' then Media else Fea)"

definition getTieredPricingContext :: "nat \<Rightarrow> 'c world \<Rightarrow> TieredContext" where
  "getTieredPricingContext userId s =
     (let onTimeLoans = count_loans (\<lambda>l. loan_userId l = userId \<and> repaidOnTime l) s;
          rawLateLoans = count_loans (\<lambda>l. loan_userId l = userId \<and> status l = REPAID_LATE) s;
          totalRepaidUsd = fl (sum_list (map amountPaid (filter (\<lambda>l. loan_userId l = userId) (loans s))));
          userRow = user_by_id userId s;
          hadDefault = (case userRow of None \<Rightarrow> False | Some u \<Rightarrow> hadDefaultEver u)
      in \<lparr>tc_onTimeLoans = onTimeLoans,
          tc_walletQuality = quality_of (Option.bind userRow walletQuality),
          tc_totalRepaidUsd = totalRepaidUsd,
          tc_lateLoans = (if hadDefault then rawLateLoans else 0)\<rparr>)"

definition toBps :: "rat \<Rightarrow> int" where
  "toBps d = \<lfloor>toFixed 0 (dmul d 10000)\<rfloor>"

definition toNumber2 :: "rat \<Rightarrow> rat" where "toNumber2 d = toFixed 2 d"

text \<open>Monthly and period rate of a term, with the tier when the tiered pricing is used.\<close>

definition getRatesForTerm ::
    "int \<Rightarrow> int option \<Rightarrow> rat option \<Rightarrow> TieredContext option
      \<Rightarrow> (http_error, rat \<times> rat \<times> PricingTierName option) result" where
  "getRatesForTerm days sc pDefault tieredParams =
     (if days \<le> 0 then Inl (BadRequest ''Invalid tenorDays'')
      else
        let d = of_int days;
            (baseMonthlyRate, tierName) =
              (case tieredParams of
                 Some tp \<Rightarrow>
                   (let r = getTieredMonthlyRate (map_option Fin pDefault) (tc_onTimeLoans tp) (tc_walletQuality tp)
                              (tc_totalRepaidUsd tp) (tc_lateLoans tp)
                    in (shortest_decimal (monthlyRate r), Some (tier r)))
               | None \<Rightarrow> (getRiskAdjustedMonthlyRate sc (map_option Fin pDefault), None));
            relative = ddiv (dsub d 14) 14;
            monthlyRateForTerm = dmul baseMonthlyRate (dadd 1 (dmul relative (4 / 10)));
            monthly = max monthlyRateForTerm 0;
            periodRate = ddiv (dmul monthly d) 30
        in Inr (monthly, periodRate, tierName))"

definition getFeeBpsForTerm ::
    "int \<Rightarrow> int option \<Rightarrow> rat option \<Rightarrow> TieredContext option \<Rightarrow> (http_error, int) result" where
  "getFeeBpsForTerm days sc pDefault tieredParams =
     rbind (getRatesForTerm days sc pDefault tieredParams) (\<lambda>(_, periodRate, _). Inr (toBps periodRate))"

section \<open>Terms\<close>

record LoanTerm =
  lt_days :: int
  periodRatePercent :: rat
  monthlyRatePercent :: rat
  baseMonthlyRatePercent :: int
  lt_feeBps :: int
  principalAmount :: rat
  interestAmount :: rat
  finalAmount :: rat
  lt_tier :: PricingTierName

record LoanTerms =
  ts_walletAddress :: string
  ts_score :: "int option"
  baseAmount :: rat
  ts_terms :: "LoanTerm list"
  isPreferentialRate :: bool
  adjustedLimitUsdc :: int
  pricingTier :: PricingTierName

definition loan_term :: "rat \<Rightarrow> int option \<Rightarrow> rat option \<Rightarrow> TieredContext \<Rightarrow> PricingTierName \<Rightarrow> int
    \<Rightarrow> (http_error, LoanTerm) result" where
  "loan_term amount sc pDefault ctx tierName days =
     rbind (getRatesForTerm days sc pDefault (Some ctx)) (\<lambda>(monthly, periodRate, _).
     let interest = dmul amount periodRate; total = dadd amount interest
     in Inr \<lparr>lt_days = days, periodRatePercent = toNumber2 (dmul periodRate 100),
             monthlyRatePercent = toNumber2 (dmul monthly 100), baseMonthlyRatePercent = 28, lt_feeBps = toBps periodRate,
             principalAmount = formatAmount amount, interestAmount = formatAmount interest,
             finalAmount = formatAmount total, lt_tier = tierName\<rparr>)"

definition TERM_OPTIONS :: "int list" where "TERM_OPTIONS = [7, 14, 21]"

fun rmapM :: "('a \<Rightarrow> ('e, 'b) result) \<Rightarrow> 'a list \<Rightarrow> ('e, 'b list) result" where
  "rmapM f [] = Inr []"
| "rmapM f (x # xs) = rbind (f x) (\<lambda>y. rbind (rmapM f xs) (\<lambda>ys. Inr (y # ys)))"

definition getLoanTerms :: "env \<Rightarrow> string \<Rightarrow> string \<Rightarrow> ('c world, LoanTerms) svc" where
  "getLoanTerms env address amountHuman =
     sbind (slift (normalizeWallet address)) (\<lambda>wallet.
     sbind (sget (user_by_wallet wallet)) (\<lambda>found.
     case found of
       None \<Rightarrow> sthrow (NotFound ''User not found'')
     | Some user \<Rightarrow>
         sbind (slift (parseAmountHuman env amountHuman)) (\<lambda>amount.
         sbind (sget (getTieredPricingContext (user_id user))) (\<lambda>ctx0.
         let ctx = ctx0\<lparr>tc_walletQuality := quality_of (walletQuality user)\<rparr>;
             r = getTieredMonthlyRate (map_option Fin (riskPDefault user)) (tc_onTimeLoans ctx) (tc_walletQuality ctx)
                   (tc_totalRepaidUsd ctx) (tc_lateLoans ctx)
         in sbind (slift (rmapM (loan_term amount (score user) (riskPDefault user) ctx (tier r)) TERM_OPTIONS)) (\<lambda>terms.
            sret \<lparr>ts_walletAddress = wallet, ts_score = score user, baseAmount = formatAmount amount,
                  ts_terms = terms, isPreferentialRate = (monthlyRate r < lit 28 2),
                  adjustedLimitUsdc = limitUsdc (getStepForScore (nullish (score user) 1)),
                  pricingTier = tier r\<rparr>)))))"

section \<open>Borrowing\<close>

record BorrowLoanDto =
  bo_amountHuman :: string
  bo_receiver :: string
  bo_tenorDays :: int

text \<open>The limit in dollars: the ladder, or the smaller positive limit read from the chain.\<close>

definition effective_limit :: "env \<Rightarrow> 'c BlockchainGatewayPort \<Rightarrow> string \<Rightarrow> User \<Rightarrow> ('c world, rat) svc" where
  "effective_limit env gw borrower user =
     (let ladderLimitUsdc = of_int (limitUsdc (getStepForScore (nullish (score user) 1)))
      in scatch
           (sbind (chain_read (readCreditLimitOnChain gw borrower)) (\<lambda>units.
            let onChainLimitUsdc = fdiv (num_of_big units) (of_int (TOKEN_UNIT (BLOCKCHAIN_GATEWAY env)))
            in sret (if onChainLimitUsdc > 0 \<and> onChainLimitUsdc < ladderLimitUsdc
                     then onChainLimitUsdc else ladderLimitUsdc)))
           (\<lambda>_. sret ladderLimitUsdc))"

definition priced_fee :: "User \<Rightarrow> int \<Rightarrow> ('c world, int) svc" where
  "priced_fee user tenor =
     sbind (sget (getTieredPricingContext (user_id user))) (\<lambda>ctx.
     slift (getFeeBpsForTerm tenor (score user) (riskPDefault user)
       (Some (ctx\<lparr>tc_walletQuality := quality_of (walletQuality user)\<rparr>))))"

definition check_tenor :: "int \<Rightarrow> (http_error, unit) result" where
  "check_tenor tenor =
     (if tenor \<le> 0 then Inl (BadRequest ''Invalid tenorDays'')
      else if tenor \<notin> {7, 14, 21} then Inl (BadRequest (''Invalid tenorDays: '' @ int_str tenor @ ''. Allowed values: 7, 14, 21''))
      else Inr ())"

text \<open>The offer step: the offer of the gateway, then the late rate.\<close>

definition make_offer :: "'c BlockchainGatewayPort \<Rightarrow> string \<Rightarrow> string \<Rightarrow> int \<Rightarrow> int \<Rightarrow> ('c world, LoanOffer) svc" where
  "make_offer gw amount borrower tenor fee =
     sbind (scatch (chain_write (createLoanOfferBackend gw amount borrower tenor fee))
              (\<lambda>_. sthrow (BadRequest ''Creating loan offer failed''))) (\<lambda>offer.
     sbind (scatch (chain_write (setPremiumConfig gw borrower LATE_RATE_PER_SEC_WAD)) (\<lambda>_. sret ())) (\<lambda>_.
     sret offer))"

definition borrow :: "env \<Rightarrow> 'c BlockchainGatewayPort \<Rightarrow> BorrowLoanDto \<Rightarrow> ('c world, LoanOffer) svc" where
  "borrow env gw dto =
     (if bo_amountHuman dto = [] \<or> bo_receiver dto = []
      then sthrow (BadRequest ''Missing amountHuman, receiver or tenorDays'')
      else
        sbind (slift (normalizeWallet (bo_receiver dto))) (\<lambda>borrower.
        sbind (slift (check_tenor (bo_tenorDays dto))) (\<lambda>_.
        sbind (sget (user_by_wallet borrower)) (\<lambda>found.
        case found of
          None \<Rightarrow> sthrow (NotFound ''User not found'')
        | Some user \<Rightarrow>
            sbind (srequire (\<not> falsy_str (phone user) \<and> phoneVerifiedAt user \<noteq> None)
                     (BadRequest ''PHONE_VERIFICATION_REQUIRED'')) (\<lambda>_.
            sbind (slift (assertKycGate env user)) (\<lambda>_.
            sbind (assertNoBorrowCooldown gw borrower) (\<lambda>_.
            sbind (effective_limit env gw borrower user) (\<lambda>limit.
            sbind (slift (parseAmountHuman env (bo_amountHuman dto))) (\<lambda>requested.
            sbind (srequire (\<not> requested > shortest_decimal limit) (BadRequest ''Amount exceeds your credit limit'')) (\<lambda>_.
            sbind (priced_fee user (bo_tenorDays dto)) (\<lambda>fee.
            make_offer gw (bo_amountHuman dto) borrower (bo_tenorDays dto) fee)))))))))))"

section \<open>Recording an opened loan\<close>

record InformLoanDto =
  il_walletAddress :: string
  il_amountHuman :: string
  il_tenorDays :: int
  il_txHash :: string

definition assertLoanOpenedTxValid :: "'c BlockchainGatewayPort \<Rightarrow> string \<Rightarrow> string \<Rightarrow> ('c world, unit) svc" where
  "assertLoanOpenedTxValid gw txHash wallet =
     sbind (chain_read (verifyLoanOpenedByTxHash gw txHash wallet)) (\<lambda>matched.
     srequire matched (BadRequest ''txHash is not a LoanOpened event for this wallet''))"

definition orphan :: "nat \<Rightarrow> Loan \<Rightarrow> bool" where
  "orphan userId l \<longleftrightarrow> loan_userId l = userId \<and> status l \<in> {DEFAULTED, DEFAULTED_IN_GRACE} \<and>
     closedAt l = None \<and> closeTxHash l = None"

definition close_orphan :: "int \<Rightarrow> Loan \<Rightarrow> Loan" where
  "close_orphan clock l = l\<lparr>status := REPAID_LATE, repaidOnTime := False, closedAt := Some clock,
     closeTxHash := Some (''SYNTHETIC_ORPHAN_AUTOCLOSE_'' @ nat_str (loan_id l))\<rparr>"

definition new_loan :: "User \<Rightarrow> string \<Rightarrow> rat \<Rightarrow> rat \<Rightarrow> int \<Rightarrow> int \<Rightarrow> int \<Rightarrow> string \<Rightarrow> Loan" where
  "new_loan user wallet principalNum amountDue tenor fee clock txHash =
     \<lparr>loan_id = 0, loan_userId = user_id user, borrowerAddress = wallet, principal = principalNum,
      amountDueAtOpen = amountDue, amountPaid = 0, tenorDays = tenor, feeBps = fee, startAt = clock,
      dueAt = clock + tenor * 24 * 60 * 60 * 1000, closedAt = None, status = OPEN, repaidOnTime = False,
      openTxHash = Some txHash, closeTxHash = None, syncedByChain = False, loan_lateRatePerSecWad = None,
      gracePeriodSec = None, lateFeesCurrentUsd = None, lateFeesSnapshotAt = None, lateFeesCollectedUsd = None,
      loan_createdAt = clock\<rparr>"

definition open_transaction :: "User \<Rightarrow> (int \<Rightarrow> Loan) \<Rightarrow> string \<Rightarrow> ('c world, nat) svc" where
  "open_transaction user mk txHash =
     transaction (
       sbind (sget (\<lambda>s. find (\<lambda>l. loan_userId l = user_id user \<and> status l = OPEN \<and> closedAt l = None) (loans s))) (\<lambda>existingOpen.
       case existingOpen of
         Some l \<Rightarrow> sret (loan_id l)
       | None \<Rightarrow>
       sbind (sget (\<lambda>s. find (\<lambda>l. openTxHash l = Some txHash) (loans s))) (\<lambda>existingByTx.
       case existingByTx of
         Some l \<Rightarrow> sret (loan_id l)
       | None \<Rightarrow>
       sbind (sget (\<lambda>s. filter (orphan (user_id user)) (loans s))) (\<lambda>orphans.
       sbind (sget now) (\<lambda>clock.
       sbind (smapM (\<lambda>l. save_loan (close_orphan clock l)) orphans) (\<lambda>_.
       scatch (sbind (insert_loan (mk clock)) (\<lambda>l. sret (loan_id l)))
         (\<lambda>e. if e = unique_violation
              then sbind (sget (\<lambda>s. find (\<lambda>l. openTxHash l = Some txHash) (loans s))) (\<lambda>x.
                   case x of Some l \<Rightarrow> sret (loan_id l) | None \<Rightarrow> sthrow e)
              else sthrow e)))))))"

definition informLoanOpened :: "env \<Rightarrow> 'c BlockchainGatewayPort \<Rightarrow> InformLoanDto \<Rightarrow> ('c world, nat) svc" where
  "informLoanOpened env gw dto =
     sbind (slift (normalizeWallet (il_walletAddress dto))) (\<lambda>wallet.
     sbind (sget (user_by_wallet wallet)) (\<lambda>found.
     case found of
       None \<Rightarrow> sthrow (NotFound ''User not found'')
     | Some user \<Rightarrow>
     sbind (slift (check_tenor (il_tenorDays dto))) (\<lambda>_.
     sbind (sget (\<lambda>s. find (\<lambda>l. openTxHash l = Some (il_txHash dto)) (loans s))) (\<lambda>existing.
     case existing of
       Some l \<Rightarrow> sret (loan_id l)
     | None \<Rightarrow>
     sbind (assertLoanOpenedTxValid gw (il_txHash dto) wallet) (\<lambda>_.
     sbind (slift (parseAmountHuman env (il_amountHuman dto))) (\<lambda>principalDec.
     sbind (priced_fee user (il_tenorDays dto)) (\<lambda>fee.
     let totalDec = dadd principalDec (ddiv (dmul principalDec (of_int fee)) 10000)
     in open_transaction user
          (\<lambda>clock. new_loan user wallet (formatAmount principalDec) (formatAmount totalDec) (il_tenorDays dto) fee
             clock (il_txHash dto))
          (il_txHash dto))))))))"

section \<open>History\<close>

record HistoryRow =
  hr_id :: nat
  hr_principal :: rat
  hr_amountPaid :: rat
  hr_status :: LoanStatus
  hr_createdAt :: int
  hr_closedAt :: "int option"

definition getHistory :: "string \<Rightarrow> 'c world \<Rightarrow> HistoryRow list" where
  "getHistory wallet s =
     map (\<lambda>l. \<lparr>hr_id = loan_id l, hr_principal = principal l, hr_amountPaid = amountPaid l, hr_status = status l,
               hr_createdAt = loan_createdAt l, hr_closedAt = closedAt l\<rparr>)
       (take 50 (sort_key (\<lambda>l. - loan_createdAt l) (filter (\<lambda>l. borrowerAddress l = wallet) (loans s))))"

section \<open>Lemmas on pricing\<close>

lemma monthlyRate_float: "fl (monthlyRate (getTieredMonthlyRate p on w rep late)) = monthlyRate (getTieredMonthlyRate p on w rep late)"
  by (simp add: getTieredMonthlyRate_def Let_def lit_def fadd_def)

lemma shortest_rates: "shortest_decimal (lit 14 2) = 14 / 100" "shortest_decimal (lit 28 2) = 28 / 100"
  by code_simp+

lemma lit_float: "fl (lit m k) = lit m k"
  by (simp add: lit_def)

definition term_bps :: "int \<Rightarrow> rat \<Rightarrow> int" where
  "term_bps days r = toBps (ddiv (dmul (max (dmul r (dadd 1 (dmul (ddiv (dsub (of_int days) 14) 14) (4 / 10)))) 0) (of_int days)) 30)"

lemma getFeeBpsForTerm_eq:
  assumes "0 < days"
  shows "getFeeBpsForTerm days sc pd (Some tp) = Inr (term_bps days (shortest_decimal (monthlyRate
    (getTieredMonthlyRate (map_option Fin pd) (tc_onTimeLoans tp) (tc_walletQuality tp) (tc_totalRepaidUsd tp) (tc_lateLoans tp)))))"
  using assms by (simp add: getFeeBpsForTerm_def getRatesForTerm_def term_bps_def Let_def)

lemma term_factor:
  "dadd 1 (dmul (ddiv (dsub 7 14) 14) (4 / 10)) = 8 / 10"
  "dadd 1 (dmul (ddiv (dsub 14 14) 14) (4 / 10)) = 1"
  "dadd 1 (dmul (ddiv (dsub 21 14) 14) (4 / 10)) = 12 / 10"
  by code_simp+

lemma term_bps_mono:
  assumes "0 \<le> x" "x \<le> y" "days \<in> {7, 14, 21}"
  shows "term_bps days x \<le> term_bps days y"
proof -
  define f :: rat where "f = dadd 1 (dmul (ddiv (dsub (of_int days) 14) 14) (4 / 10))"
  have f: "0 \<le> f" using assms(3) term_factor by (auto simp: f_def)
  have d: "(0 :: rat) \<le> of_int days" using assms(3) by auto
  have m: "dmul a c \<le> dmul b c" if "a \<le> b" "0 \<le> c" for a b c :: rat
    unfolding dmul_def using that by (intro dl_mono mult_right_mono)
  have q: "ddiv a 30 \<le> ddiv b 30" if "a \<le> b" for a b :: rat
    unfolding ddiv_def using that by (intro dl_mono divide_right_mono) simp_all
  have n: "0 \<le> dmul a b" if "0 \<le> a" "0 \<le> b" for a b :: rat
    unfolding dmul_def using that by (intro dl_nonneg mult_nonneg_nonneg)
  define p where "p r = ddiv (dmul (max (dmul r f) 0) (of_int days)) 30" for r
  have "p x \<le> p y" unfolding p_def using m [OF assms(2) f] d by (intro q m) auto
  moreover have "0 \<le> p x" unfolding p_def ddiv_def using d n assms(1) f
    by (intro dl_nonneg divide_nonneg_nonneg n) simp_all
  ultimately have "toFixed 0 (dmul (p x) 10000) \<le> toFixed 0 (dmul (p y) 10000)"
    by (intro toFixed_mono_nonneg m n) simp_all
  then show ?thesis unfolding term_bps_def toBps_def p_def f_def by (rule floor_mono)
qed

lemma toBps_mono: "0 \<le> x \<Longrightarrow> x \<le> y \<Longrightarrow> toBps x \<le> toBps y"
  unfolding toBps_def dmul_def
  by (intro floor_mono toFixed_mono_nonneg dl_nonneg dl_mono mult_right_mono mult_nonneg_nonneg) simp_all

lemma toBps_decimal:
  assumes "0 \<le> m" "m < 10 ^ 40"
  shows "toBps (of_int m / 10 ^ 5) = (m + 5) div 10"
proof -
  have "dmul (of_int m / 10 ^ 5) 10000 = of_int m / 10 ^ 1"
    using dl_exact [of m 1] assms by (simp add: dmul_def)
  moreover have "toFixed 0 (of_int m / 10 ^ 1) = of_int ((m + 5) div 10)"
  proof -
    have "(m + 5) div 10 = \<lfloor>of_int (m + 5) / (of_int 10 :: rat)\<rfloor>" by (rule floor_divide_of_int_eq [symmetric])
    also have "of_int (m + 5) / (of_int 10 :: rat) = of_int m / 10 + 1 / 2" by (simp add: add_divide_distrib)
    finally show ?thesis using assms(1) by (cases "m = 0") (simp_all add: toFixed_def round_half_up_def)
  qed
  ultimately show ?thesis by (simp only: toBps_def floor_of_int)
qed

lemma toBps_third:
  assumes "0 \<le> m" "m + 1 < 10 ^ 40" "of_int m / 10 ^ 5 \<le> x / 30" "x / 30 \<le> of_int (m + 1) / 10 ^ 5"
    and "(m + 5) div 10 = (m + 6) div 10"
  shows "toBps (ddiv x 30) = (m + 5) div 10"
proof -
  have "dl (of_int m / 10 ^ 5) \<le> ddiv x 30" "ddiv x 30 \<le> dl (of_int (m + 1) / 10 ^ 5)"
    unfolding ddiv_def using assms(3,4) by (simp_all only: dl_mono)
  then have "of_int m / 10 ^ 5 \<le> ddiv x 30" "ddiv x 30 \<le> of_int (m + 1) / 10 ^ 5"
    using dl_exact [of m 5] dl_exact [of "m + 1" 5] assms(1,2) by simp_all
  moreover have "(0 :: rat) \<le> of_int m / 10 ^ 5" using assms(1) by simp
  ultimately have "toBps (of_int m / 10 ^ 5) \<le> toBps (ddiv x 30)" "toBps (ddiv x 30) \<le> toBps (of_int (m + 1) / 10 ^ 5)"
    by (auto intro: toBps_mono order_trans)
  moreover have "m + 1 + 5 = m + 6" by simp
  ultimately show ?thesis using toBps_decimal [of m] toBps_decimal [of "m + 1"] assms by auto
qed

lemma dmul_exact: "\<bar>m\<bar> < 10 ^ 40 \<Longrightarrow> x * y = of_int m / 10 ^ k \<Longrightarrow> dmul x y = of_int m / 10 ^ k"
  by (simp add: dmul_def dl_exact)

lemma term_bps_ends:
  "term_bps 7 (14 / 100) = 261" "term_bps 7 (28 / 100) = 523"
  "term_bps 14 (14 / 100) = 653" "term_bps 14 (28 / 100) = 1307"
  "term_bps 21 (14 / 100) = 1176" "term_bps 21 (28 / 100) = 2352"
proof -
  have "dmul (14 / 100) (8 / 10) = of_int 112 / 10 ^ 3" "dmul (28 / 100) (8 / 10) = of_int 224 / 10 ^ 3"
    "dmul (14 / 100) 1 = of_int 14 / 10 ^ 2" "dmul (28 / 100) 1 = of_int 28 / 10 ^ 2"
    "dmul (14 / 100) (12 / 10) = of_int 168 / 10 ^ 3" "dmul (28 / 100) (12 / 10) = of_int 336 / 10 ^ 3"
    by (rule dmul_exact; simp)+
  moreover have "dmul (of_int 112 / 10 ^ 3) 7 = of_int 784 / 10 ^ 3" "dmul (of_int 224 / 10 ^ 3) 7 = of_int 1568 / 10 ^ 3"
    "dmul (of_int 14 / 10 ^ 2) 14 = of_int 196 / 10 ^ 2" "dmul (of_int 28 / 10 ^ 2) 14 = of_int 392 / 10 ^ 2"
    "dmul (of_int 168 / 10 ^ 3) 21 = of_int 3528 / 10 ^ 3" "dmul (of_int 336 / 10 ^ 3) 21 = of_int 7056 / 10 ^ 3"
    by (rule dmul_exact; simp)+
  moreover have "max (of_int 112 / 10 ^ 3) 0 = (of_int 112 / 10 ^ 3 :: rat)" "max (of_int 224 / 10 ^ 3) 0 = (of_int 224 / 10 ^ 3 :: rat)"
    "max (of_int 14 / 10 ^ 2) 0 = (of_int 14 / 10 ^ 2 :: rat)" "max (of_int 28 / 10 ^ 2) 0 = (of_int 28 / 10 ^ 2 :: rat)"
    "max (of_int 168 / 10 ^ 3) 0 = (of_int 168 / 10 ^ 3 :: rat)" "max (of_int 336 / 10 ^ 3) 0 = (of_int 336 / 10 ^ 3 :: rat)"
    by simp_all
  moreover have "toBps (ddiv (of_int 784 / 10 ^ 3) 30) = 261" using toBps_third [of 2613 "of_int 784 / 10 ^ 3"] by simp
  moreover have "toBps (ddiv (of_int 1568 / 10 ^ 3) 30) = 523" using toBps_third [of 5226 "of_int 1568 / 10 ^ 3"] by simp
  moreover have "toBps (ddiv (of_int 196 / 10 ^ 2) 30) = 653" using toBps_third [of 6533 "of_int 196 / 10 ^ 2"] by simp
  moreover have "toBps (ddiv (of_int 392 / 10 ^ 2) 30) = 1307" using toBps_third [of 13066 "of_int 392 / 10 ^ 2"] by simp
  moreover have "toBps (ddiv (of_int 3528 / 10 ^ 3) 30) = 1176" using toBps_third [of 11760 "of_int 3528 / 10 ^ 3"] by simp
  moreover have "toBps (ddiv (of_int 7056 / 10 ^ 3) 30) = 2352" using toBps_third [of 23520 "of_int 7056 / 10 ^ 3"] by simp
  ultimately show "term_bps 7 (14 / 100) = 261" "term_bps 7 (28 / 100) = 523"
    "term_bps 14 (14 / 100) = 653" "term_bps 14 (28 / 100) = 1307"
    "term_bps 21 (14 / 100) = 1176" "term_bps 21 (28 / 100) = 2352"
    by (simp_all only: term_bps_def term_factor of_int_numeral of_int_1)
qed

lemma ladder_shortest: "list_all (\<lambda>st. shortest_decimal (of_int (limitUsdc st)) = of_int (limitUsdc st)) CREDIT_LADDER"
  by code_simp

lemma effective_limit_run:
  assumes "effective_limit env gw borrower user s = (r, s')"
  shows "s' = s" "\<exists>l. r = Inr l \<and> shortest_decimal l \<le> of_int (limitUsdc (getStepForScore (nullish (score user) 1)))"
proof -
  define ladder :: rat where "ladder = of_int (limitUsdc (getStepForScore (nullish (score user) 1)))"
  have lad: "shortest_decimal ladder = ladder"
    using ladder_shortest getStepForScore_mem by (auto simp: list_all_iff ladder_def)
  have "fl ladder = ladder"
    using step_range [OF getStepForScore_mem, of "nullish (score user) 1"] by (simp add: ladder_def fl_of_int)
  then have "shortest_decimal (fdiv x y) \<le> ladder" if "fdiv x y < ladder" for x y
    using shortest_mono [of "fdiv x y" ladder] that lad by (simp add: fdiv_def)
  then show "s' = s" "\<exists>l. r = Inr l \<and> shortest_decimal l \<le> of_int (limitUsdc (getStepForScore (nullish (score user) 1)))"
    using assms lad
    by (auto simp: effective_limit_def svc_simps Let_def ladder_def [symmetric] split: sum.splits if_splits)
qed

lemma cooldown_run:
  assumes "assertNoBorrowCooldown gw borrower s = (r, s')"
  shows "s' = s" "r = Inr () \<Longrightarrow> readNextBorrowTime gw = Some rd \<Longrightarrow> rd borrower (chain s) = Inr nextAt \<Longrightarrow> nextAt \<noteq> 0 \<Longrightarrow>
    \<exists>t. getChainBlockTimestamp gw (chain s) = Inr t \<and> nextAt \<le> nullish t (now s div 1000)"
  using assms
  by (auto simp: assertNoBorrowCooldown_def svc_simps sbind_def [of "scatch _ _"] borrowCooldownError_def
      split: option.splits sum.splits if_splits)

lemma fee_range:
  assumes "days \<in> {7, 14, 21}"
  shows "\<exists>fee. getFeeBpsForTerm days sc pd (Some tp) = Inr fee \<and>
    term_bps days (14 / 100) \<le> fee \<and> fee \<le> term_bps days (28 / 100)"
proof -
  let ?r = "monthlyRate (getTieredMonthlyRate (map_option Fin pd) (tc_onTimeLoans tp) (tc_walletQuality tp)
     (tc_totalRepaidUsd tp) (tc_lateLoans tp))"
  have r: "lit 14 2 \<le> ?r" "?r \<le> lit 28 2" using tiered_rate_range by blast+
  have "14 / 100 \<le> shortest_decimal ?r" "shortest_decimal ?r \<le> 28 / 100"
    using shortest_mono [OF lit_float monthlyRate_float r(1)] shortest_mono [OF monthlyRate_float lit_float r(2)]
    by (simp_all add: shortest_rates)
  then have "term_bps days (14 / 100) \<le> term_bps days (shortest_decimal ?r)"
    "term_bps days (shortest_decimal ?r) \<le> term_bps days (28 / 100)"
    using assms by (auto intro!: term_bps_mono)
  then show ?thesis using getFeeBpsForTerm_eq [of days sc pd tp] assms by auto
qed

lemma priced_fee_run:
  assumes "tenor \<in> {7, 14, 21}"
  shows "\<exists>fee. priced_fee user tenor s = (Inr fee, s) \<and> term_bps tenor (14 / 100) \<le> fee \<and> fee \<le> term_bps tenor (28 / 100)"
  using fee_range [OF assms] by (auto simp: priced_fee_def svc_simps slift_def)

lemma check_tenor_Inr: "check_tenor t = Inr u \<longleftrightarrow> t \<in> {7, 14, 21}"
  by (auto simp: check_tenor_def)

lemma parseAmountHuman_pos: "parseAmountHuman env a = Inr x \<Longrightarrow> 0 < x"
  by (auto simp: parseAmountHuman_def Let_def split: if_splits option.splits)

lemma make_offer_Inr:
  assumes "make_offer gw amount borrower tenor fee s = (Inr offer, s')"
  shows "\<exists>c. createLoanOfferBackend gw amount borrower tenor fee (chain s) = (Inr offer, c)" "users s' = users s" "loans s' = loans s"
  using assms
  by (auto simp: make_offer_def sbind_def scatch_def chain_write_def svc_simps split: sum.splits prod.splits)

section \<open>Lemmas on borrowing\<close>

lemmas term_bps_vals = term_bps_ends [simplified]

lemma borrow_eq:
  assumes "bo_amountHuman dto \<noteq> []" "bo_receiver dto \<noteq> []" "normalizeWallet (bo_receiver dto) = Inr borrower"
    and t: "bo_tenorDays dto \<in> {7, 14, 21}" and "user_by_wallet borrower s = Some user"
    and "\<not> falsy_str (phone user)" "phoneVerifiedAt user \<noteq> None" "assertKycGate env user = Inr ()"
  shows "\<exists>r1 limit fee. assertNoBorrowCooldown gw borrower s = (r1, s) \<and>
    effective_limit env gw borrower user s = (Inr limit, s) \<and> priced_fee user (bo_tenorDays dto) s = (Inr fee, s) \<and>
    borrow env gw dto s = (case r1 of Inl e \<Rightarrow> (Inl e, s) | Inr _ \<Rightarrow>
      (case parseAmountHuman env (bo_amountHuman dto) of Inl e \<Rightarrow> (Inl e, s) | Inr a \<Rightarrow>
         if \<not> a > shortest_decimal limit then make_offer gw (bo_amountHuman dto) borrower (bo_tenorDays dto) fee s
         else (Inl (BadRequest ''Amount exceeds your credit limit''), s)))"
proof -
  obtain r1 s1 where c: "assertNoBorrowCooldown gw borrower s = (r1, s1)" by fastforce
  then have s1: "s1 = s" by (rule cooldown_run)
  obtain r2 s2 where l: "effective_limit env gw borrower user s = (r2, s2)" by fastforce
  obtain limit where s2: "s2 = s" "r2 = Inr limit" using effective_limit_run [OF l] by blast
  have tt: "check_tenor (bo_tenorDays dto) = Inr ()" using t by (simp only: check_tenor_Inr)
  obtain fee where f: "priced_fee user (bo_tenorDays dto) s = (Inr fee, s)" using priced_fee_run [OF t] by blast
  show ?thesis
    using assms c l s1 s2 f tt
    by (simp add: borrow_def svc_simps sbind_def [of "assertNoBorrowCooldown _ _"] sbind_def [of "effective_limit _ _ _ _"]
        sbind_def [of "priced_fee _ _"] split: sum.split)
qed

lemma borrow_run:
  assumes run: "borrow env gw dto s = (Inr offer, s')"
  obtains borrower user amount limit fee where
    "normalizeWallet (bo_receiver dto) = Inr borrower" "bo_tenorDays dto \<in> {7, 14, 21}"
    "user_by_wallet borrower s = Some user" "\<not> falsy_str (phone user)" "phoneVerifiedAt user \<noteq> None"
    "assertKycGate env user = Inr ()" "assertNoBorrowCooldown gw borrower s = (Inr (), s)"
    "parseAmountHuman env (bo_amountHuman dto) = Inr amount"
    "effective_limit env gw borrower user s = (Inr limit, s)" "amount \<le> shortest_decimal limit"
    "priced_fee user (bo_tenorDays dto) s = (Inr fee, s)"
    "make_offer gw (bo_amountHuman dto) borrower (bo_tenorDays dto) fee s = (Inr offer, s')"
proof -
  have g: "bo_amountHuman dto \<noteq> [] \<and> bo_receiver dto \<noteq> []"
    using run by (auto simp: borrow_def svc_simps split: if_splits)
  with run obtain borrower where b: "normalizeWallet (bo_receiver dto) = Inr borrower"
    by (auto simp: borrow_def svc_simps split: sum.splits)
  with run g have t: "check_tenor (bo_tenorDays dto) = Inr ()"
    by (auto simp: borrow_def svc_simps split: sum.splits)
  with run g b obtain user where u: "user_by_wallet borrower s = Some user"
    by (auto simp: borrow_def svc_simps split: option.splits)
  with run g b t have p: "\<not> falsy_str (phone user)" "phoneVerifiedAt user \<noteq> None"
    by (auto simp: borrow_def svc_simps split: if_splits)
  with run g b t u have k: "assertKycGate env user = Inr ()"
    by (auto simp: borrow_def svc_simps split: sum.splits)
  have tt: "bo_tenorDays dto \<in> {7, 14, 21}" using t by (simp only: check_tenor_Inr)
  from borrow_eq [of dto borrower s user env gw] g b tt u p k obtain r1 limit fee where e:
    "assertNoBorrowCooldown gw borrower s = (r1, s)" "effective_limit env gw borrower user s = (Inr limit, s)"
    "priced_fee user (bo_tenorDays dto) s = (Inr fee, s)"
    "borrow env gw dto s = (case r1 of Inl e \<Rightarrow> (Inl e, s) | Inr _ \<Rightarrow>
      (case parseAmountHuman env (bo_amountHuman dto) of Inl e \<Rightarrow> (Inl e, s) | Inr a \<Rightarrow>
         if \<not> a > shortest_decimal limit then make_offer gw (bo_amountHuman dto) borrower (bo_tenorDays dto) fee s
         else (Inl (BadRequest ''Amount exceeds your credit limit''), s)))" by blast
  then show thesis
    using run that b tt u p k by (auto split: sum.splits if_splits)
qed

lemma rmapM_set:
  "rmapM f xs = Inr ys \<Longrightarrow> y \<in> set ys \<Longrightarrow> \<exists>x \<in> set xs. f x = Inr y"
  by (induction xs arbitrary: ys) (auto simp: rbind_def split: sum.splits)

lemma rmapM_map: "rmapM f xs = Inr ys \<Longrightarrow> (\<And>x y. f x = Inr y \<Longrightarrow> g y = h x) \<Longrightarrow> map g ys = map h xs"
  by (induction xs arbitrary: ys) (auto simp: rbind_def split: sum.splits)

lemma loan_term_Inr:
  assumes "loan_term a sc pd ctx tn days = Inr t"
  shows "lt_days t = days" "getFeeBpsForTerm days sc pd (Some ctx) = Inr (lt_feeBps t)"
  using assms by (auto simp: loan_term_def getFeeBpsForTerm_def rbind_def Let_def split: sum.splits prod.splits)

lemma getLoanTerms_user:
  assumes "normalizeWallet w = Inr wallet" "user_by_wallet wallet s = Some user" "parseAmountHuman env a = Inr amount"
    and ctx: "ctx = (getTieredPricingContext (user_id user) s)\<lparr>tc_walletQuality := quality_of (walletQuality user)\<rparr>"
  shows "getLoanTerms env w a s =
    (let r = getTieredMonthlyRate (map_option Fin (riskPDefault user)) (tc_onTimeLoans ctx) (tc_walletQuality ctx)
               (tc_totalRepaidUsd ctx) (tc_lateLoans ctx)
     in case rmapM (loan_term amount (score user) (riskPDefault user) ctx (tier r)) TERM_OPTIONS of
       Inl e \<Rightarrow> (Inl e, s)
     | Inr terms \<Rightarrow> (Inr \<lparr>ts_walletAddress = wallet, ts_score = score user, baseAmount = formatAmount amount,
                  ts_terms = terms, isPreferentialRate = (monthlyRate r < lit 28 2),
                  adjustedLimitUsdc = limitUsdc (getStepForScore (nullish (score user) 1)),
                  pricingTier = tier r\<rparr>, s))"
  unfolding ctx using assms(1-3) by (simp add: getLoanTerms_def svc_simps Let_def split: sum.split)

lemma getLoanTerms_Inr:
  assumes "getLoanTerms env w a s = (Inr ts, s')"
  shows "\<exists>wallet user. normalizeWallet w = Inr wallet \<and> user_by_wallet wallet s = Some user \<and> s' = s \<and>
    map lt_days (ts_terms ts) = [7, 14, 21] \<and>
    (\<forall>t \<in> set (ts_terms ts). priced_fee user (lt_days t) s = (Inr (lt_feeBps t), s))"
proof -
  obtain wallet where w: "normalizeWallet w = Inr wallet"
    using assms by (auto simp: getLoanTerms_def svc_simps split: sum.splits)
  obtain user where u: "user_by_wallet wallet s = Some user"
    using assms w by (auto simp: getLoanTerms_def svc_simps split: option.splits)
  obtain amount where a: "parseAmountHuman env a = Inr amount"
    using assms w u by (auto simp: getLoanTerms_def svc_simps split: sum.splits)
  define ctx where "ctx = (getTieredPricingContext (user_id user) s)\<lparr>tc_walletQuality := quality_of (walletQuality user)\<rparr>"
  note run = getLoanTerms_user [OF w u a, of ctx, OF ctx_def]
  obtain tn where m: "rmapM (loan_term amount (score user) (riskPDefault user) ctx tn) TERM_OPTIONS = Inr (ts_terms ts)" and s: "s' = s"
    using assms run [unfolded Let_def] by (cases "rmapM (loan_term amount (score user) (riskPDefault user) ctx
        (tier (getTieredMonthlyRate (map_option Fin (riskPDefault user)) (tc_onTimeLoans ctx) (tc_walletQuality ctx)
          (tc_totalRepaidUsd ctx) (tc_lateLoans ctx)))) TERM_OPTIONS") auto
  have "map lt_days (ts_terms ts) = [7, 14, 21]"
    using rmapM_map [OF m, of lt_days id] loan_term_Inr(1) by (auto simp: TERM_OPTIONS_def)
  moreover have "priced_fee user (lt_days t) s = (Inr (lt_feeBps t), s)" if t: "t \<in> set (ts_terms ts)" for t
  proof -
    obtain d where "loan_term amount (score user) (riskPDefault user) ctx tn d = Inr t" using rmapM_set [OF m t] by blast
    from loan_term_Inr [OF this] show ?thesis by (simp add: priced_fee_def svc_simps slift_def ctx_def)
  qed
  ultimately show ?thesis using w u s by (intro exI [of _ wallet] exI [of _ user] conjI ballI) assumption+
qed

section \<open>Examples\<close>

definition example_borrower :: User where
  "example_borrower = example_user\<lparr>phone := Some ''+1'', phoneVerifiedAt := Some 0\<rparr>"

definition example_borrow_world :: "bool world" where
  "example_borrow_world = \<lparr>users = [example_borrower], loans = [], chain = True, now = 0\<rparr>"

lemma example_borrow_facts:
  "user_by_wallet example_wallet example_borrow_world = Some example_borrower"
  "parseAmountHuman example_env ''1'' = Inr 1" "kycGateEnabled example_env = False"
  "nullish (score example_borrower) 1 = 1" "loans example_borrow_world = []"
  "\<not> falsy_str (phone example_borrower)" "phoneVerifiedAt example_borrower = Some 0"
  "readNextBorrowTime example_gw = None"
  using example_facts(3)
  by (simp_all add: user_by_wallet_def example_borrow_world_def example_borrower_def example_user_def
      example_env_def kycGateEnabled_def falsy_str_def example_gw_def nullish_def to_lower_def)

lemma example_effective_limit:
  "effective_limit example_env example_gw example_wallet example_borrower example_borrow_world = (Inr 1, example_borrow_world)"
proof -
  have "fdiv (num_of_big 10000000) (of_int (TOKEN_UNIT (BLOCKCHAIN_GATEWAY example_env))) = 1"
    "limitUsdc (getStepForScore 1) = 1"
    unfolding example_env_def by code_simp+
  then show ?thesis
    by (simp add: effective_limit_def svc_simps example_borrow_facts(4) example_gw_def Let_def)
qed

lemma example_offer:
  "\<exists>offer s'. borrow example_env example_gw \<lparr>bo_amountHuman = ''1'', bo_receiver = example_wallet, bo_tenorDays = 7\<rparr>
     example_borrow_world = (Inr offer, s')"
proof -
  let ?dto = "\<lparr>bo_amountHuman = ''1'', bo_receiver = example_wallet, bo_tenorDays = 7\<rparr>"
  have one: "shortest_decimal 1 = 1" by code_simp
  have "assertNoBorrowCooldown example_gw example_wallet example_borrow_world = (Inr (), example_borrow_world)"
    by (simp add: assertNoBorrowCooldown_def example_borrow_facts svc_simps)
  moreover have "example_wallet \<noteq> []" by (simp add: example_wallet_def)
  ultimately obtain fee where "borrow example_env example_gw ?dto example_borrow_world =
      make_offer example_gw ''1'' example_wallet 7 fee example_borrow_world"
    using borrow_eq [of ?dto example_wallet example_borrow_world example_borrower example_env example_gw]
    by (auto simp: example_wallet_norm example_borrow_facts assertKycGate_def example_effective_limit one)
  then show ?thesis
    by (simp add: svc_simps make_offer_def sbind_def scatch_def chain_write_def example_gw_def)
qed

lemma example_terms:
  "\<exists>ts. getLoanTerms example_env example_wallet ''1'' example_borrow_world = (Inr ts, example_borrow_world)"
proof -
  have "\<exists>ts. rmapM (loan_term 1 (score example_borrower) (riskPDefault example_borrower) ctx tn) TERM_OPTIONS = Inr ts" for ctx tn
    by (simp add: TERM_OPTIONS_def rbind_def loan_term_def getRatesForTerm_def Let_def)
  then show ?thesis
    using getLoanTerms_user [OF example_wallet_norm example_borrow_facts(1,2) refl]
    by (simp add: Let_def) (metis sum.case(2))
qed

section \<open>Properties\<close>

text \<open>
  C22. An offer is returned only to a known wallet with a verified phone (and an approved KYC when
  the gate is on), for a term of 7, 14 or 21 days and a positive amount within the limit of the
  borrower's ladder step, out of any cooldown read from the chain, with a fee between 2.61% and
  23.52%; the offer is the one the gateway wrote, and no table changes.
\<close>

theorem borrow_gates:
  assumes run: "borrow env gw dto s = (Inr offer, s')"
  shows "\<exists>borrower user amount fee c. normalizeWallet (bo_receiver dto) = Inr borrower \<and>
    user_by_wallet borrower s = Some user \<and> \<not> falsy_str (phone user) \<and> phoneVerifiedAt user \<noteq> None \<and>
    (kycGateEnabled env \<longrightarrow> kycStatus user = ''approved'') \<and> bo_tenorDays dto \<in> {7, 14, 21} \<and>
    parseAmountHuman env (bo_amountHuman dto) = Inr amount \<and> 0 < amount \<and>
    amount \<le> of_int (limitUsdc (getStepForScore (nullish (score user) 1))) \<and> 261 \<le> fee \<and> fee \<le> 2352 \<and>
    createLoanOfferBackend gw (bo_amountHuman dto) borrower (bo_tenorDays dto) fee (chain s) = (Inr offer, c) \<and>
    (\<forall>rd nextAt. readNextBorrowTime gw = Some rd \<and> rd borrower (chain s) = Inr nextAt \<and> nextAt \<noteq> 0 \<longrightarrow>
      (\<exists>t. getChainBlockTimestamp gw (chain s) = Inr t \<and> nextAt \<le> nullish t (now s div 1000))) \<and>
    users s' = users s \<and> loans s' = loans s"
proof -
  from run obtain borrower user amount limit fee where b:
    "normalizeWallet (bo_receiver dto) = Inr borrower" "bo_tenorDays dto \<in> {7, 14, 21}"
    "user_by_wallet borrower s = Some user" "\<not> falsy_str (phone user)" "phoneVerifiedAt user \<noteq> None"
    "assertKycGate env user = Inr ()" "parseAmountHuman env (bo_amountHuman dto) = Inr amount"
    "effective_limit env gw borrower user s = (Inr limit, s)" "amount \<le> shortest_decimal limit"
    "priced_fee user (bo_tenorDays dto) s = (Inr fee, s)"
    "make_offer gw (bo_amountHuman dto) borrower (bo_tenorDays dto) fee s = (Inr offer, s')"
    "assertNoBorrowCooldown gw borrower s = (Inr (), s)"
    by (rule borrow_run)
  have "amount \<le> of_int (limitUsdc (getStepForScore (nullish (score user) 1)))"
    using effective_limit_run(2) [OF b(8)] b(9) by auto
  moreover have "261 \<le> fee" "fee \<le> 2352"
    using priced_fee_run [OF b(2), of user s] b(2,10) by (auto simp: term_bps_vals)
  moreover have "kycGateEnabled env \<longrightarrow> kycStatus user = ''approved''"
    using b(6) by (auto simp: assertKycGate_def split: if_splits)
  moreover have "\<exists>t. getChainBlockTimestamp gw (chain s) = Inr t \<and> nextAt \<le> nullish t (now s div 1000)"
    if "readNextBorrowTime gw = Some rd" "rd borrower (chain s) = Inr nextAt" "nextAt \<noteq> 0" for rd nextAt
    using cooldown_run(2) [OF b(12) refl that] .
  ultimately show ?thesis
    using b parseAmountHuman_pos [OF b(7)] make_offer_Inr [OF b(11)] by blast
qed

theorem borrow_gates_witness:
  "\<exists>offer s'. borrow example_env example_gw \<lparr>bo_amountHuman = ''1'', bo_receiver = example_wallet, bo_tenorDays = 7\<rparr>
     example_borrow_world = (Inr offer, s') \<and> users s' = [example_borrower] \<and> loans s' = [] \<and>
     (\<exists>fee c. 261 \<le> fee \<and> fee \<le> 2352 \<and> createLoanOfferBackend example_gw ''1'' example_wallet 7 fee True = (Inr offer, c))"
proof -
  obtain offer s' where run: "borrow example_env example_gw
      \<lparr>bo_amountHuman = ''1'', bo_receiver = example_wallet, bo_tenorDays = 7\<rparr> example_borrow_world = (Inr offer, s')"
    using example_offer by blast
  from borrow_gates [OF run] show ?thesis
    using run by (auto simp: example_wallet_norm example_borrow_world_def)
qed

text \<open>
  The fee of every allowed term is defined for every pricing context and lies in the band
  of its term: 261 to 523 basis points for 7 days, 653 to 1307 for 14, 1176 to 2352 for 21.
\<close>

theorem fee_bounds:
  assumes "days \<in> {7, 14, 21}"
  shows "\<exists>fee. getFeeBpsForTerm days sc pd (Some tp) = Inr fee \<and>
    (if days = 7 then 261 \<le> fee \<and> fee \<le> 523 else if days = 14 then 653 \<le> fee \<and> fee \<le> 1307
     else 1176 \<le> fee \<and> fee \<le> 2352)"
  using fee_range [OF assms, of sc pd tp] assms by (auto simp: term_bps_vals)

theorem fee_bounds_witness:
  "\<exists>fee. getFeeBpsForTerm 7 (Some 1) None (Some (getTieredPricingContext 1 example_borrow_world)) = Inr fee \<and> 261 \<le> fee \<and> fee \<le> 523"
  using fee_bounds [of 7 "Some 1" None "getTieredPricingContext 1 example_borrow_world"] by simp

text \<open>
  The terms quoted for a wallet are those of 7, 14 and 21 days, and an offer made in the
  same state for one of them is written with exactly the quoted fee.
\<close>

theorem quoted_fee:
  assumes "getLoanTerms env w a s = (Inr ts, s')" and "t \<in> set (ts_terms ts)"
    and "borrow env gw \<lparr>bo_amountHuman = b, bo_receiver = w, bo_tenorDays = lt_days t\<rparr> s = (Inr offer, s'')"
  shows "map lt_days (ts_terms ts) = [7, 14, 21] \<and>
    (\<exists>wallet c. normalizeWallet w = Inr wallet \<and>
       createLoanOfferBackend gw b wallet (lt_days t) (lt_feeBps t) (chain s) = (Inr offer, c))"
proof -
  from getLoanTerms_Inr [OF assms(1)] obtain wallet user where q: "normalizeWallet w = Inr wallet"
    "user_by_wallet wallet s = Some user" "map lt_days (ts_terms ts) = [7, 14, 21]"
    "priced_fee user (lt_days t) s = (Inr (lt_feeBps t), s)" using assms(2) by metis
  from assms(3) show ?thesis
    by (rule borrow_run) (use q make_offer_Inr in auto)
qed

theorem quoted_fee_witness:
  "\<exists>ts t offer s'. getLoanTerms example_env example_wallet ''1'' example_borrow_world = (Inr ts, example_borrow_world) \<and>
     t \<in> set (ts_terms ts) \<and> lt_days t = 7 \<and>
     borrow example_env example_gw \<lparr>bo_amountHuman = ''1'', bo_receiver = example_wallet, bo_tenorDays = 7\<rparr>
       example_borrow_world = (Inr offer, s') \<and>
     (\<exists>c. createLoanOfferBackend example_gw ''1'' example_wallet 7 (lt_feeBps t) True = (Inr offer, c))"
proof -
  obtain ts where q: "getLoanTerms example_env example_wallet ''1'' example_borrow_world = (Inr ts, example_borrow_world)"
    using example_terms by blast
  obtain offer s' where b: "borrow example_env example_gw
      \<lparr>bo_amountHuman = ''1'', bo_receiver = example_wallet, bo_tenorDays = 7\<rparr> example_borrow_world = (Inr offer, s')"
    using example_offer by blast
  from getLoanTerms_Inr [OF q] have "map lt_days (ts_terms ts) = [7, 14, 21]" by blast
  then obtain t where t: "t \<in> set (ts_terms ts)" "lt_days t = 7"
    by (cases "ts_terms ts") auto
  have "borrow example_env example_gw \<lparr>bo_amountHuman = ''1'', bo_receiver = example_wallet, bo_tenorDays = lt_days t\<rparr>
      example_borrow_world = (Inr offer, s')" using b t by simp
  from quoted_fee [OF q t(1) this] show ?thesis
    using q b t by (auto simp: example_wallet_norm example_borrow_world_def)
qed

end
