(* ===== verification/Loan_Book.thy ===== *)
theory Loan_Book
  imports Loan_Service
begin

text \<open>
  The loan table over time: what recording an opened loan does to it
  (\<open>informLoanOpened\<close> of \<open>backend/src/loan/loan.service.ts\<close>), the invariant of the table, and
  the step relation of the three handlers that use it (offers, openings, repayments),
  interleaved with any change of the chain and the clock.
\<close>

section \<open>Lemmas on opening\<close>

lemma save_all_run:
  assumes "smapM (\<lambda>l. save_loan (f l)) os s = (r, s')" and "\<And>l. loan_id (f l) = loan_id l"
  shows "map loan_id (loans s') = map loan_id (loans s) \<and>
    (\<forall>l \<in> set (loans s'). l \<in> set (loans s) \<or> (\<exists>k \<in> set os. l = store_loan (f k))) \<and>
    users s' = users s \<and> chain s' = chain s \<and> now s' = now s"
  using assms(1)
proof (induction os arbitrary: s r)
  case Nil
  then show ?case by (simp add: svc_simps)
next
  case (Cons o1 os)
  show ?case
  proof (cases "hash_clash (f o1) (loans s)")
    case True
    then show ?thesis using Cons.prems by (simp add: svc_simps)
  next
    case False
    define s1 where "s1 = s\<lparr>loans := put_row loan_id (store_loan (f o1)) (loans s)\<rparr>"
    obtain r1 where "smapM (\<lambda>l. save_loan (f l)) os s1 = (r1, s')"
      using Cons.prems False by (auto simp: svc_simps s1_def sbind_def [of "smapM _ _"] split: sum.splits prod.splits)
    from Cons.IH [OF this] show ?thesis
      by (auto simp: s1_def set_put_row split: if_splits)
  qed
qed

definition is_open :: "Loan \<Rightarrow> bool" where
  "is_open l \<longleftrightarrow> status l = OPEN \<and> closedAt l = None"

lemma loan_sel_store [simp]:
  "loan_userId (store_loan l) = loan_userId l" "openTxHash (store_loan l) = openTxHash l"
  "is_open (store_loan l) = is_open l" "startAt (store_loan l) = startAt l" "dueAt (store_loan l) = dueAt l"
  by (simp_all add: store_loan_def is_open_def)

lemma close_orphan_sel [simp]:
  "loan_id (close_orphan c l) = loan_id l" "loan_userId (close_orphan c l) = loan_userId l"
  "openTxHash (close_orphan c l) = openTxHash l" "\<not> is_open (close_orphan c l)"
  by (simp_all add: close_orphan_def is_open_def)

text \<open>What the transaction did when it inserted a loan.\<close>

definition opened :: "User \<Rightarrow> Loan \<Rightarrow> string \<Rightarrow> 'c world \<Rightarrow> Loan \<Rightarrow> 'c world \<Rightarrow> bool" where
  "opened user l0 txHash s new s' \<longleftrightarrow>
     (\<forall>l \<in> set (loans s). \<not> (loan_userId l = user_id user \<and> is_open l)) \<and>
     (\<forall>l \<in> set (loans s). openTxHash l \<noteq> Some txHash) \<and>
     new = l0\<lparr>loan_id := fresh_id loan_id (loans s), loan_createdAt := now s\<rparr> \<and>
     (\<exists>rows. loans s' = rows @ [store_loan new] \<and> map loan_id rows = map loan_id (loans s) \<and>
        (\<forall>l \<in> set rows. l \<in> set (loans s) \<or>
           (\<exists>k \<in> set (loans s). orphan (user_id user) k \<and> l = store_loan (close_orphan (now s) k)))) \<and>
     users s' = users s \<and> chain s' = chain s \<and> now s' = now s"

lemma fresh_id_cong: "map key xs = map key ys \<Longrightarrow> fresh_id key xs = fresh_id key ys"
proof -
  have "fold (\<lambda>r n. max (key r + 1) n) xs m = fold (\<lambda>k n. max (k + 1) n) (map key xs) m" for xs m
    by (induction xs arbitrary: m) simp_all
  then show "map key xs = map key ys \<Longrightarrow> fresh_id key xs = fresh_id key ys" by (simp add: fresh_id_def)
qed

lemma open_transaction_run:
  assumes run: "open_transaction user mk txHash s = (r, s')"
    and mk: "\<And>c. openTxHash (mk c) = Some txHash" "\<And>c. closeTxHash (mk c) = None"
  shows "(s' = s \<and> (\<forall>i. r = Inr i \<longrightarrow> (\<exists>l \<in> set (loans s). loan_id l = i \<and>
      (openTxHash l = Some txHash \<or> loan_userId l = user_id user \<and> is_open l)))) \<or>
    (\<exists>new. r = Inr (loan_id new) \<and> opened user (mk (now s)) txHash s new s')"
proof -
  define P where "P l \<longleftrightarrow> loan_userId l = user_id user \<and> status l = OPEN \<and> closedAt l = None" for l :: Loan
  define Q where "Q l \<longleftrightarrow> openTxHash l = Some txHash" for l :: Loan
  consider (A) l where "find P (loans s) = Some l" | (B) l where "find P (loans s) = None" "find Q (loans s) = Some l"
    | (C) "find P (loans s) = None" "find Q (loans s) = None" by (cases "find P (loans s)"; cases "find Q (loans s)") auto
  then show ?thesis
  proof cases
    case (A l)
    then have "s' = s" "r = Inr (loan_id l)"
      using run by (auto simp: open_transaction_def transaction_def svc_simps P_def [abs_def])
    then show ?thesis using find_cond [OF A] by (auto simp: P_def is_open_def)
  next
    case (B l)
    then have "s' = s" "r = Inr (loan_id l)"
      using run by (auto simp: open_transaction_def transaction_def svc_simps P_def [abs_def] Q_def [abs_def])
    then show ?thesis using find_cond [OF B(2)] by (auto simp: Q_def)
  next
    case C
    define os where "os = filter (orphan (user_id user)) (loans s)"
    obtain r1 s1 where m: "smapM (\<lambda>l. save_loan (close_orphan (now s) l)) os s = (r1, s1)" by fastforce
    note sv = save_all_run [OF m close_orphan_sel(1)]
    show ?thesis
    proof (cases r1)
      case (Inl e)
      then have "r = Inl e \<and> s' = s1\<lparr>users := users s, loans := loans s\<rparr>"
        using run C m by (simp add: open_transaction_def transaction_def svc_simps P_def [abs_def] Q_def [abs_def]
            os_def sbind_def [of "smapM _ _"])
      then show ?thesis using sv by (cases s; cases s1) auto
    next
      case (Inr u)
      define new where "new = (mk (now s))\<lparr>loan_id := fresh_id loan_id (loans s1), loan_createdAt := now s1\<rparr>"
      have "openTxHash l \<noteq> Some txHash" if "l \<in> set (loans s1)" for l
        using that sv C(2) by (fastforce simp: find_none Q_def os_def)
      then have "\<not> hash_clash new (loans s1)" by (auto simp: hash_clash_def list_ex_iff new_def mk)
      then have "insert_loan (mk (now s)) s1 = (Inr new, s1\<lparr>loans := loans s1 @ [store_loan new]\<rparr>)"
        by (simp add: insert_loan_def Let_def new_def)
      then have "r = Inr (loan_id new) \<and> s' = s1\<lparr>loans := loans s1 @ [store_loan new]\<rparr>"
        using run C m Inr by (simp add: open_transaction_def transaction_def svc_simps P_def [abs_def] Q_def [abs_def]
            os_def sbind_def [of "smapM _ _"] sbind_def [of "insert_loan _"])
      moreover have "opened user (mk (now s)) txHash s new (s1\<lparr>loans := loans s1 @ [store_loan new]\<rparr>)"
        using sv C fresh_id_cong [of loan_id "loans s1" "loans s"]
        by (auto simp: opened_def new_def find_none P_def Q_def is_open_def os_def)
      ultimately show ?thesis by blast
    qed
  qed
qed

lemma new_loan_sel [simp]:
  "openTxHash (new_loan u w p a t f c h) = Some h" "closeTxHash (new_loan u w p a t f c h) = None"
  "loan_userId (new_loan u w p a t f c h) = user_id u" "is_open (new_loan u w p a t f c h)"
  by (simp_all add: new_loan_def is_open_def)

lemma sbind_open_valid [svc_simps]:
  "sbind (assertLoanOpenedTxValid gw h w) g s =
     (case verifyLoanOpenedByTxHash gw h w (chain s) of
        Inl e \<Rightarrow> (Inl e, s)
      | Inr m \<Rightarrow> if m then g () s else (Inl (BadRequest ''txHash is not a LoanOpened event for this wallet''), s))"
  by (simp add: assertLoanOpenedTxValid_def sbind_assoc svc_simps split: sum.split)

lemma borrow_tables: "tables.keeps (borrow env gw dto)"
  unfolding borrow_def make_offer_def effective_limit_def assertNoBorrowCooldown_def priced_fee_def Let_def
  by (auto intro!: tables.keeps_bind tables.keeps_if tables.keeps_catch split: option.split)

definition recorded :: "env \<Rightarrow> 'c BlockchainGatewayPort \<Rightarrow> InformLoanDto \<Rightarrow> 'c world \<Rightarrow> Loan \<Rightarrow> 'c world \<Rightarrow> bool" where
  "recorded env gw dto s new s' \<longleftrightarrow>
     (\<exists>wallet user amount fee. normalizeWallet (il_walletAddress dto) = Inr wallet \<and>
       user_by_wallet wallet s = Some user \<and> il_tenorDays dto \<in> {7, 14, 21} \<and>
       verifyLoanOpenedByTxHash gw (il_txHash dto) wallet (chain s) = Inr True \<and>
       parseAmountHuman env (il_amountHuman dto) = Inr amount \<and> priced_fee user (il_tenorDays dto) s = (Inr fee, s) \<and>
       opened user (new_loan user wallet (formatAmount amount)
           (formatAmount (dadd amount (ddiv (dmul amount (of_int fee)) 10000))) (il_tenorDays dto) fee (now s) (il_txHash dto))
         (il_txHash dto) s new s')"

lemma informLoanOpened_run:
  assumes run: "informLoanOpened env gw dto s = (r, s')"
  shows "s' = s \<or> (\<exists>new. r = Inr (loan_id new) \<and> recorded env gw dto s new s')"
proof (cases "\<exists>wallet user amount. normalizeWallet (il_walletAddress dto) = Inr wallet \<and>
    user_by_wallet wallet s = Some user \<and> check_tenor (il_tenorDays dto) = Inr () \<and>
    find (\<lambda>l. openTxHash l = Some (il_txHash dto)) (loans s) = None \<and>
    verifyLoanOpenedByTxHash gw (il_txHash dto) wallet (chain s) = Inr True \<and>
    parseAmountHuman env (il_amountHuman dto) = Inr amount")
  case False
  have "s' = s"
  proof (rule ccontr)
    assume n: "s' \<noteq> s"
    obtain wallet where w: "normalizeWallet (il_walletAddress dto) = Inr wallet"
      using run n by (auto simp: informLoanOpened_def svc_simps split: sum.splits)
    obtain user where u: "user_by_wallet wallet s = Some user"
      using run n w by (auto simp: informLoanOpened_def svc_simps split: option.splits)
    have t: "check_tenor (il_tenorDays dto) = Inr ()"
      using run n w u by (auto simp: informLoanOpened_def svc_simps split: sum.splits)
    have f: "find (\<lambda>l. openTxHash l = Some (il_txHash dto)) (loans s) = None"
      using run n w u t by (auto simp: informLoanOpened_def svc_simps split: option.splits)
    have v: "verifyLoanOpenedByTxHash gw (il_txHash dto) wallet (chain s) = Inr True"
      using run n w u t f
      by (auto simp: informLoanOpened_def svc_simps split: sum.splits if_splits)
    show False
      using run n w u t f v False
      by (auto simp: informLoanOpened_def svc_simps split: sum.splits)
  qed
  then show ?thesis by simp
next
  case True
  then obtain wallet user amount where k: "normalizeWallet (il_walletAddress dto) = Inr wallet"
    "user_by_wallet wallet s = Some user" "check_tenor (il_tenorDays dto) = Inr ()"
    "find (\<lambda>l. openTxHash l = Some (il_txHash dto)) (loans s) = None"
    "verifyLoanOpenedByTxHash gw (il_txHash dto) wallet (chain s) = Inr True"
    "parseAmountHuman env (il_amountHuman dto) = Inr amount" by blast
  have t: "il_tenorDays dto \<in> {7, 14, 21}" using k(3) by (simp only: check_tenor_Inr)
  then obtain fee where fee: "priced_fee user (il_tenorDays dto) s = (Inr fee, s)" using priced_fee_run by blast
  define mk where "mk c = new_loan user wallet (formatAmount amount)
           (formatAmount (dadd amount (ddiv (dmul amount (of_int fee)) 10000))) (il_tenorDays dto) fee c (il_txHash dto)" for c
  have "open_transaction user mk (il_txHash dto) s = (r, s')"
    using run k fee
    by (simp add: informLoanOpened_def svc_simps Let_def mk_def [abs_def]
        sbind_def [of "priced_fee _ _"])
  then show ?thesis
    using open_transaction_run [of user mk "il_txHash dto" s r s'] k t fee
    by (auto simp: mk_def recorded_def)
qed

definition wf_loans :: "'c world \<Rightarrow> bool" where
  "wf_loans s \<longleftrightarrow> distinct (map loan_id (loans s)) \<and>
     (\<forall>l \<in> set (loans s). \<forall>k \<in> set (loans s). loan_id l \<noteq> loan_id k \<longrightarrow>
        \<not> (is_open l \<and> is_open k \<and> loan_userId l = loan_userId k) \<and>
        (openTxHash l = None \<or> openTxHash l \<noteq> openTxHash k))"

lemma wf_loans_opened:
  assumes wf: "wf_loans s" and op: "opened user l0 txHash s new s'"
    and l0: "loan_userId l0 = user_id user" "openTxHash l0 = Some txHash"
  shows "wf_loans s'"
proof -
  from op obtain rows where rows: "loans s' = rows @ [store_loan new]" "map loan_id rows = map loan_id (loans s)"
    "\<forall>l \<in> set rows. l \<in> set (loans s) \<or> (\<exists>k \<in> set (loans s). orphan (user_id user) k \<and> l = store_loan (close_orphan (now s) k))"
    unfolding opened_def by blast
  have new: "loan_userId new = user_id user" "openTxHash new = Some txHash" "loan_id new \<notin> loan_id ` set (loans s)"
    using op l0 fresh_id_notin [of loan_id "loans s"] by (auto simp: opened_def)
  have orig: "\<exists>k \<in> set (loans s). loan_id l = loan_id k \<and> loan_userId l = loan_userId k \<and> openTxHash l = openTxHash k \<and>
      (is_open l \<longrightarrow> is_open k)" if "l \<in> set rows" for l
    using rows(3) that by (force simp del: )
  have none: "\<forall>l \<in> set rows. \<not> (loan_userId l = user_id user \<and> is_open l) \<and> openTxHash l \<noteq> Some txHash"
    using orig op by (fastforce simp: opened_def)
  have "distinct (map loan_id (loans s'))"
  proof -
    have "set (map loan_id rows) = loan_id ` set (loans s)" using rows(2) by (metis set_map)
    then show ?thesis using wf rows new by (simp add: wf_loans_def)
  qed
  moreover have "\<not> (is_open l \<and> is_open k \<and> loan_userId l = loan_userId k) \<and> (openTxHash l = None \<or> openTxHash l \<noteq> openTxHash k)"
    if "l \<in> set rows" "k \<in> set rows" "loan_id l \<noteq> loan_id k" for l k
    using orig [OF that(1)] orig [OF that(2)] wf that(3) unfolding wf_loans_def by metis
  ultimately show ?thesis
    unfolding wf_loans_def using rows(1) none new by auto
qed

lemma wf_loans_closed:
  assumes wf: "wf_loans s" and l: "loan \<in> set (loans s)" and c: "loan_id c = loan_id loan" "\<not> is_open c"
    "openTxHash c = openTxHash loan" and rows: "loans s' = put_row loan_id c (loans s)"
  shows "wf_loans s'"
proof -
  have orig: "\<exists>k \<in> set (loans s). loan_id x = loan_id k \<and> openTxHash x = openTxHash k \<and>
      (is_open x \<longrightarrow> x = k)" if "x \<in> set (loans s')" for x
    using that l c unfolding rows set_put_row by (auto split: if_splits)
  have "distinct (map loan_id (loans s'))" using wf rows by (simp add: wf_loans_def)
  moreover have "\<not> (is_open x \<and> is_open y \<and> loan_userId x = loan_userId y) \<and> (openTxHash x = None \<or> openTxHash x \<noteq> openTxHash y)"
    if "x \<in> set (loans s')" "y \<in> set (loans s')" "loan_id x \<noteq> loan_id y" for x y
    using orig [OF that(1)] orig [OF that(2)] wf that(3) unfolding wf_loans_def by metis
  ultimately show ?thesis unfolding wf_loans_def by blast
qed

inductive loan_step :: "env \<Rightarrow> 'c BlockchainGatewayPort \<Rightarrow> 'c world \<Rightarrow> 'c world \<Rightarrow> bool" for env gw where
  step_open: "informLoanOpened env gw dto s = (r, s') \<Longrightarrow> loan_step env gw s s'"
| step_repay: "processRepayment env gw dto' s = (r', s') \<Longrightarrow> loan_step env gw s s'"
| step_borrow: "borrow env gw dto'' s = (r'', s') \<Longrightarrow> loan_step env gw s s'"
| step_outside: "loan_step env gw s (s\<lparr>chain := c, now := t\<rparr>)"

inductive_cases loan_stepE: "loan_step env gw s s'"

lemma processRepayment_same_or_repaid:
  assumes "processRepayment env gw dto s = (r, s')"
  shows "s' = s \<or> (\<exists>x wallet user cp loan paid. repaid_by env gw dto s x s' wallet user cp loan paid)"
proof (cases "\<exists>x. r = Inr (Repaid x)")
  case False
  have "s' = s" using processRepayment_run [OF assms] settle_user_run False by (metis prod_cases3)
  then show ?thesis by simp
next
  case True
  then obtain x where "processRepayment env gw dto s = (Inr (Repaid x), s')" using assms by blast
  from Repaid_run [OF this] show ?thesis by blast
qed

lemma processRepayment_loans:
  assumes "processRepayment env gw dto s = (r, s')"
  shows "loans s' = loans s \<or> (\<exists>loan \<in> set (loans s). \<exists>paid.
    loans s' = put_row loan_id (store_loan (closed_loan loan paid (now s) (ir_txHash dto))) (loans s))"
  using processRepayment_same_or_repaid [OF assms] newest_Some by (fastforce simp: repaid_by_def)

lemma closed_loan_not_open: "\<not> is_open (closed_loan l p t h)"
  by (simp add: is_open_def)

interpretation loan_tables: invariant_system "loan_step env gw" wf_loans for env gw
proof
  fix s s' :: "'a world"
  assume st: "loan_step env gw s s'" and wf: "wf_loans s"
  from st show "wf_loans s'"
  proof (cases rule: loan_step.cases)
    case (step_open dto r)
    from informLoanOpened_run [OF this] show ?thesis
      using wf wf_loans_opened [OF wf] by (fastforce simp: recorded_def)
  next
    case (step_repay dto r)
    from processRepayment_loans [OF this] show ?thesis
    proof
      assume "loans s' = loans s"
      then show ?thesis using wf by (simp add: wf_loans_def)
    next
      assume "\<exists>loan \<in> set (loans s). \<exists>paid. loans s' = put_row loan_id (store_loan (closed_loan loan paid (now s) (ir_txHash dto))) (loans s)"
      then obtain loan paid where l: "loan \<in> set (loans s)"
        "loans s' = put_row loan_id (store_loan (closed_loan loan paid (now s) (ir_txHash dto))) (loans s)" by blast
      from wf_loans_closed [OF wf l(1) _ _ _ l(2)] show ?thesis by (simp add: closed_loan_not_open)
    qed
  next
    case (step_borrow dto r)
    then show ?thesis using tables.keeps_run [OF borrow_tables] wf by (fastforce simp: wf_loans_def same_tables_def)
  next
    case step_outside
    then show ?thesis using wf by (simp add: wf_loans_def)
  qed
qed

text \<open>
  The life of a loan row. Without a closing date it is open or defaulted, unpaid and without a closing
  transaction; with one it is repaid, on time exactly when it was closed within a day after the due date,
  or it is an orphaned default that an opening closed late.
\<close>

definition autoclosed :: "Loan \<Rightarrow> bool" where
  "autoclosed l \<longleftrightarrow> \<not> repaidOnTime l \<and> closeTxHash l = Some (''SYNTHETIC_ORPHAN_AUTOCLOSE_'' @ nat_str (loan_id l))"

definition loan_life :: "Loan \<Rightarrow> bool" where
  "loan_life l \<longleftrightarrow>
     (case closedAt l of
        None \<Rightarrow> status l \<in> {OPEN, DEFAULTED_IN_GRACE, DEFAULTED} \<and> \<not> repaidOnTime l \<and> closeTxHash l = None \<and> amountPaid l = 0
      | Some c \<Rightarrow> status l = (if repaidOnTime l then REPAID_ON_TIME else REPAID_LATE) \<and>
          ((repaidOnTime l \<longleftrightarrow> c \<le> dueAt l + 24 * 60 * 60 * 1000) \<or> autoclosed l))"

lemma toFixed_zero [simp]: "toFixed k 0 = 0"
  using toFixed_of_int [of k 0] by simp

lemma store_loan_life: "loan_life l \<Longrightarrow> loan_life (store_loan l)"
  by (auto simp: loan_life_def autoclosed_def store_loan_def split: option.splits)

lemma loan_life_closed [simp]:
  "loan_life (closed_loan l p c h)" "loan_life (close_orphan c l)"
  by (auto simp: loan_life_def autoclosed_def closed_loan_def close_orphan_def REPAID_ON_TIME_GRACE_MS_def Let_def)

lemma loan_life_new [simp]: "loan_life (new_loan u w p a t f c h)"
  by (simp add: loan_life_def new_loan_def)

text \<open>Every row is as its columns store it, and every loan is its owner's, with the due date of its term.\<close>

definition typed_loan :: "User list \<Rightarrow> Loan \<Rightarrow> bool" where
  "typed_loan us l \<longleftrightarrow> store_loan l = l \<and> loan_life l \<and> (loan_userId l, borrowerAddress l) \<in> set (map (\<lambda>u. (user_id u, walletAddress u)) us) \<and>
     tenorDays l \<in> {7, 14, 21} \<and> dueAt l = startAt l + tenorDays l * 24 * 60 * 60 * 1000"

definition typed_tables :: "'c world \<Rightarrow> bool" where
  "typed_tables s \<longleftrightarrow> distinct (map user_id (users s)) \<and> (\<forall>u \<in> set (users s). store_user u = u) \<and>
     (\<forall>l \<in> set (loans s). typed_loan (users s) l)"

lemma put_row_wallets:
  assumes "distinct (map user_id us)" "user \<in> set us" "user_id v = user_id user" "walletAddress v = walletAddress user"
  shows "map (\<lambda>u. (user_id u, walletAddress u)) (put_row user_id v us) = map (\<lambda>u. (user_id u, walletAddress u)) us"
proof -
  have "walletAddress u = walletAddress v" if "u \<in> set us" "user_id u = user_id v" for u
    using that assms by (metis distinct_map inj_onD)
  then show ?thesis using assms(3) by (auto simp: put_row_def)
qed

lemma repaid_users:
  assumes "repaid_by env gw dto s x s' wallet user cp loan paid" "distinct (map user_id (users s))"
  shows "map (\<lambda>u. (user_id u, walletAddress u)) (users s') = map (\<lambda>u. (user_id u, walletAddress u)) (users s) \<and>
    (\<forall>u \<in> set (users s'). u \<in> set (users s) \<or> (\<exists>v. u = store_user v))"
proof -
  define pd where "pd = (now s - dueAt loan > DEFAULT_LATE_PERIOD_MS)"
  define u' where "u' = (if pd \<and> \<not> hadDefaultEver user then user\<lparr>hadDefaultEver := True\<rparr> else user)"
  from assms(1) obtain s1 n u where "users s1 = (if pd \<and> \<not> hadDefaultEver user then put_row user_id (store_user u') (users s) else users s)"
    "credit_effect env u' (rr_repaidOnTime x) pd n s1 (Inr u) s'"
    unfolding repaid_by_def Let_def pd_def [symmetric] u'_def [symmetric] by blast
  then have s1: "users s1 = put_row user_id (store_user u') (users s) \<or> users s1 = users s"
    and s2: "users s' = users s1 \<or> (\<exists>k sc l. users s' = put_row user_id (store_user (u'\<lparr>xp := k, score := sc, creditLimit := l\<rparr>)) (users s1))"
    unfolding credit_effect_def by (simp split: if_splits, blast)
  have user: "user \<in> set (users s)" using assms(1) user_by_walletD by (fastforce simp: repaid_by_def)
  have u': "user_id u' = user_id user" "walletAddress u' = walletAddress user" by (simp_all add: u'_def)
  have sw: "walletAddress (store_user v) = walletAddress v" "user_id (store_user v) = user_id v" for v by (simp_all add: store_user_def)
  let ?k = "\<lambda>u. (user_id u, walletAddress u)"
  have k1: "map ?k (users s1) = map ?k (users s)"
    using s1 put_row_wallets [OF assms(2) user, of "store_user u'"] u' sw by auto
  then have "map user_id (users s1) = map user_id (users s)" by (metis (mono_tags, lifting) fst_conv list.map_comp map_eq_conv o_apply)
  then have d1: "distinct (map user_id (users s1))" using assms(2) by simp
  have "?k user \<in> set (map ?k (users s1))" using user k1 by simp
  then obtain w where w: "w \<in> set (users s1)" "?k w = ?k user" by auto
  have "map ?k (users s') = map ?k (users s1)"
    using s2 put_row_wallets [OF d1 w(1)] w(2) u' sw by auto
  moreover have "\<forall>u \<in> set (users s'). u \<in> set (users s) \<or> (\<exists>v. u = store_user v)"
    using s1 s2 by (auto simp: set_put_row split: if_splits)
  ultimately show ?thesis using k1 by simp
qed

lemma typed_loan_cong: "map (\<lambda>u. (user_id u, walletAddress u)) us = map (\<lambda>u. (user_id u, walletAddress u)) vs \<Longrightarrow> typed_loan us l = typed_loan vs l"
  unfolding typed_loan_def by simp

lemma typed_store:
  assumes "typed_loan us k" "loan_life l" "loan_userId l = loan_userId k" "borrowerAddress l = borrowerAddress k"
    "tenorDays l = tenorDays k" "dueAt l = dueAt k" "startAt l = startAt k"
  shows "typed_loan us (store_loan l)"
proof -
  have "borrowerAddress (store_loan l) = borrowerAddress l" "tenorDays (store_loan l) = tenorDays l" by (simp_all add: store_loan_def)
  then show ?thesis using assms store_loan_life [OF assms(2)] by (simp add: typed_loan_def)
qed

lemma typed_repaid:
  assumes wf: "typed_tables s" and r: "repaid_by env gw dto s x s' wallet user cp loan paid"
  shows "typed_tables s'"
proof -
  have us: "distinct (map user_id (users s))" using wf by (simp add: typed_tables_def)
  note k = repaid_users [OF r us]
  have "loan \<in> set (loans s)" using r newest_Some by (fastforce simp: repaid_by_def)
  then have "typed_loan (users s) loan" using wf by (simp add: typed_tables_def)
  then have "typed_loan (users s) (store_loan (closed_loan loan paid (now s) (ir_txHash dto)))"
    by (rule typed_store [OF _ loan_life_closed(1)]) (simp_all add: closed_loan_def Let_def)
  moreover have "loans s' = put_row loan_id (store_loan (closed_loan loan paid (now s) (ir_txHash dto))) (loans s)"
    using r by (simp add: repaid_by_def)
  ultimately have "typed_loan (users s) l" if "l \<in> set (loans s')" for l
    using that wf by (auto simp: typed_tables_def set_put_row split: if_splits)
  moreover have "store_user u = u" if "u \<in> set (users s')" for u
    using k that wf by (auto simp: typed_tables_def)
  moreover have "map user_id (users s') = map user_id (users s)"
    using k by (metis (mono_tags, lifting) fst_conv list.map_comp map_eq_conv o_apply)
  moreover have "typed_loan (users s') l = typed_loan (users s) l" for l using k by (intro typed_loan_cong) simp
  ultimately show ?thesis using us by (simp add: typed_tables_def)
qed

lemma typed_opened:
  assumes wf: "typed_tables s" and op: "opened user l0 txHash s new s'" and user: "user \<in> set (users s)"
    and l0: "l0 = new_loan user (walletAddress user) p a t f c h" "t \<in> {7, 14, 21}"
  shows "typed_tables s'"
proof -
  from op obtain rows where rows: "loans s' = rows @ [store_loan new]" "users s' = users s" "new = l0\<lparr>loan_id := fresh_id loan_id (loans s), loan_createdAt := now s\<rparr>"
    "\<forall>l \<in> set rows. l \<in> set (loans s) \<or> (\<exists>k \<in> set (loans s). orphan (user_id user) k \<and> l = store_loan (close_orphan (now s) k))"
    unfolding opened_def by (elim conjE exE) simp
  have "typed_loan (users s) (store_loan new)"
    using l0 user by (auto simp: rows(3) typed_loan_def new_loan_def store_loan_def loan_life_def)
  moreover have "typed_loan (users s) (store_loan (close_orphan (now s) k))" if "k \<in> set (loans s)" for k
    using that wf by (intro typed_store [OF _ loan_life_closed(2), of _ k]) (simp_all add: typed_tables_def close_orphan_def)
  ultimately show ?thesis using wf rows by (fastforce simp: typed_tables_def)
qed

interpretation typed_rows: invariant_system "loan_step env gw" typed_tables for env gw
proof
  fix s s' :: "'a world"
  assume st: "loan_step env gw s s'" and wf: "typed_tables s"
  from st show "typed_tables s'"
  proof (cases rule: loan_step.cases)
    case (step_open dto r)
    from informLoanOpened_run [OF this] show ?thesis
    proof
      assume "\<exists>new. r = Inr (loan_id new) \<and> recorded env gw dto s new s'"
      then obtain new where "recorded env gw dto s new s'" by blast
      then obtain wallet user p a t f where u: "user_by_wallet wallet s = Some user" "t \<in> {7, 14, 21}"
        "opened user (new_loan user wallet p a t f (now s) (il_txHash dto)) (il_txHash dto) s new s'"
        unfolding recorded_def by blast
      from user_by_walletD [OF u(1)] typed_opened [OF wf u(3) _ _ u(2)] show ?thesis by blast
    qed (use wf in simp)
  next
    case (step_repay dto r)
    from processRepayment_same_or_repaid [OF this] typed_repaid [OF wf] wf show ?thesis by blast
  next
    case (step_borrow dto r)
    then show ?thesis using tables.keeps_run [OF borrow_tables] wf by (fastforce simp: typed_tables_def same_tables_def)
  next
    case step_outside
    then show ?thesis using wf by (simp add: typed_tables_def)
  qed
qed

section \<open>Examples\<close>

lemma open_first:
  assumes "normalizeWallet (il_walletAddress dto) = Inr wallet" "user_by_wallet wallet s = Some user"
    "il_tenorDays dto \<in> {7, 14, 21}" and l: "loans s = []"
    and "verifyLoanOpenedByTxHash gw (il_txHash dto) wallet (chain s) = Inr True"
    "parseAmountHuman env (il_amountHuman dto) = Inr amount"
  shows "\<exists>s'. informLoanOpened env gw dto s = (Inr 1, s') \<and> s' \<noteq> s"
proof -
  obtain fee where fee: "priced_fee user (il_tenorDays dto) s = (Inr fee, s)"
    using priced_fee_run assms(3) by blast
  have ins: "insert_loan k s = (Inr (k\<lparr>loan_id := 1, loan_createdAt := now s\<rparr>),
       s\<lparr>loans := [store_loan (k\<lparr>loan_id := 1, loan_createdAt := now s\<rparr>)]\<rparr>)" for k
    by (simp add: insert_loan_def hash_clash_def fresh_id_def Let_def l)
  have op: "open_transaction u mk h s = (Inr 1, s\<lparr>loans := [store_loan ((mk (now s))\<lparr>loan_id := 1, loan_createdAt := now s\<rparr>)]\<rparr>)"
    for u mk h
    using ins [of "mk (now s)"]
    by (simp add: open_transaction_def transaction_def svc_simps l sbind_def [of "insert_loan _"] scatch_def)
  have "check_tenor (il_tenorDays dto) = Inr ()" using assms(3) by (simp only: check_tenor_Inr)
  then have "\<exists>k. informLoanOpened env gw dto s = (Inr 1, s\<lparr>loans := [k]\<rparr>)"
    using assms fee by (simp add: informLoanOpened_def svc_simps sbind_def [of "priced_fee _ _"] Let_def op) (rule exI, rule refl)
  then obtain k where "informLoanOpened env gw dto s = (Inr 1, s\<lparr>loans := [k]\<rparr>)" by blast
  moreover have "s\<lparr>loans := [k]\<rparr> \<noteq> s" using l by (metis list.simps(3) world.select_convs(2) world.surjective world.update_convs(2))
  ultimately show ?thesis by blast
qed

lemma example_open:
  "\<exists>s'. informLoanOpened example_env example_gw \<lparr>il_walletAddress = example_wallet, il_amountHuman = ''1'', il_tenorDays = 7,
      il_txHash = ''h0''\<rparr> example_borrow_world = (Inr 1, s') \<and> s' \<noteq> example_borrow_world"
  by (rule open_first [where wallet = example_wallet and user = example_borrower and amount = 1])
    (simp_all add: example_wallet_norm example_borrow_facts, simp add: example_gw_def)

section \<open>Properties\<close>

text \<open>
  C4. Over any run of offers, openings and repayments, with any changes of the chain and the
  clock in between, the ids of the loans stay unique, no user has two open loans and no two
  loans share an opening transaction.
\<close>

theorem loan_tables_invariant:
  assumes "(loan_step env gw)\<^sup>*\<^sup>* s s'" and "wf_loans s"
  shows "distinct (map loan_id (loans s')) \<and>
    (\<forall>l \<in> set (loans s'). \<forall>k \<in> set (loans s'). loan_id l \<noteq> loan_id k \<longrightarrow>
       \<not> (is_open l \<and> is_open k \<and> loan_userId l = loan_userId k) \<and>
       (openTxHash l = None \<or> openTxHash l \<noteq> openTxHash k))"
  using loan_tables.inv_run [OF assms] by (simp add: wf_loans_def)

theorem loan_tables_invariant_witness:
  "\<exists>s'. (loan_step example_env example_gw)\<^sup>*\<^sup>* example_borrow_world s' \<and> s' \<noteq> example_borrow_world \<and> distinct (map loan_id (loans s'))"
proof -
  obtain s' where s': "informLoanOpened example_env example_gw \<lparr>il_walletAddress = example_wallet, il_amountHuman = ''1'',
      il_tenorDays = 7, il_txHash = ''h0''\<rparr> example_borrow_world = (Inr 1, s')" "s' \<noteq> example_borrow_world"
    using example_open by blast
  then have "(loan_step example_env example_gw)\<^sup>*\<^sup>* example_borrow_world s'" by (intro r_into_rtranclp step_open)
  moreover have "wf_loans example_borrow_world" by (simp add: wf_loans_def example_borrow_world_def)
  ultimately show ?thesis using loan_tables_invariant s'(2) by blast
qed

text \<open>
  When recording an opened loan changes anything, the gateway verified the transaction for
  the wallet and the user had no open loan; the new row is appended open, with a fresh id, the
  amount of the request (not the principal on chain) rounded to two decimals, and the due date
  of its term; every other row is kept or is an orphaned default of the same user, now closed late.
\<close>

theorem open_records:
  assumes "informLoanOpened env gw dto s = (r, s')" and "s' \<noteq> s"
  shows "\<exists>new wallet user amount. r = Inr (loan_id new) \<and> normalizeWallet (il_walletAddress dto) = Inr wallet \<and>
    user_by_wallet wallet s = Some user \<and> verifyLoanOpenedByTxHash gw (il_txHash dto) wallet (chain s) = Inr True \<and>
    parseAmountHuman env (il_amountHuman dto) = Inr amount \<and> last (loans s') = store_loan new \<and>
    loan_id new \<notin> loan_id ` set (loans s) \<and> loan_userId new = user_id user \<and> is_open new \<and>
    openTxHash new = Some (il_txHash dto) \<and> principal new = toFixed 2 amount \<and> startAt new = now s \<and>
    dueAt new = now s + il_tenorDays dto * 24 * 60 * 60 * 1000 \<and> il_tenorDays dto \<in> {7, 14, 21} \<and>
    (\<forall>l \<in> set (loans s). \<not> (loan_userId l = user_id user \<and> is_open l)) \<and>
    (\<forall>l \<in> set (butlast (loans s')). l \<in> set (loans s) \<or>
       loan_userId l = user_id user \<and> status l = REPAID_LATE \<and> closedAt l = Some (now s))"
proof -
  from informLoanOpened_run [OF assms(1)] assms(2) obtain new wallet user amount fee where
    n: "r = Inr (loan_id new)" "normalizeWallet (il_walletAddress dto) = Inr wallet"
      "user_by_wallet wallet s = Some user" "il_tenorDays dto \<in> {7, 14, 21}"
      "verifyLoanOpenedByTxHash gw (il_txHash dto) wallet (chain s) = Inr True"
      "parseAmountHuman env (il_amountHuman dto) = Inr amount"
    and op: "opened user (new_loan user wallet (formatAmount amount)
         (formatAmount (dadd amount (ddiv (dmul amount (of_int fee)) 10000))) (il_tenorDays dto) fee (now s) (il_txHash dto))
       (il_txHash dto) s new s'"
    by (auto simp: recorded_def)
  from op obtain rows where rows: "loans s' = rows @ [store_loan new]"
    "\<forall>l \<in> set rows. l \<in> set (loans s) \<or> (\<exists>k \<in> set (loans s). orphan (user_id user) k \<and> l = store_loan (close_orphan (now s) k))"
    unfolding opened_def by blast
  have "\<forall>l \<in> set rows. l \<in> set (loans s) \<or>
       loan_userId l = user_id user \<and> status l = REPAID_LATE \<and> closedAt l = Some (now s)"
    using rows(2) by (fastforce simp: orphan_def close_orphan_def store_loan_def)
  moreover have "loan_id new \<notin> loan_id ` set (loans s)" "loan_userId new = user_id user" "is_open new"
    "openTxHash new = Some (il_txHash dto)" "principal new = toFixed 2 amount" "startAt new = now s"
    "dueAt new = now s + il_tenorDays dto * 24 * 60 * 60 * 1000"
    "\<forall>l \<in> set (loans s). \<not> (loan_userId l = user_id user \<and> is_open l)"
    using op fresh_id_notin [of loan_id "loans s"]
    by (auto simp: opened_def new_loan_def is_open_def formatAmount_def)
  ultimately show ?thesis
    using n rows(1) by (intro exI [of _ new] exI [of _ wallet] exI [of _ user] exI [of _ amount]) simp
qed

theorem open_records_witness:
  "\<exists>s' new. informLoanOpened example_env example_gw \<lparr>il_walletAddress = example_wallet, il_amountHuman = ''1'', il_tenorDays = 7,
      il_txHash = ''h0''\<rparr> example_borrow_world = (Inr 1, s') \<and> last (loans s') = store_loan new \<and> is_open new \<and>
      dueAt new = 604800000"
proof -
  obtain s' where run: "informLoanOpened example_env example_gw \<lparr>il_walletAddress = example_wallet, il_amountHuman = ''1'',
      il_tenorDays = 7, il_txHash = ''h0''\<rparr> example_borrow_world = (Inr 1, s')" "s' \<noteq> example_borrow_world"
    using example_open by blast
  from open_records [OF run] run(1) show ?thesis by (auto simp: example_borrow_world_def)
qed

text \<open>
  Recording the same opening again returns the same loan and changes nothing.
\<close>

theorem open_idempotent:
  assumes run: "informLoanOpened env gw dto s = (Inr i, s1)"
  shows "informLoanOpened env gw dto s1 = (Inr i, s1)"
proof (cases "s1 = s")
  case False
  with informLoanOpened_run [OF run] obtain new wallet user amount fee where
    n: "i = loan_id new" "normalizeWallet (il_walletAddress dto) = Inr wallet" "user_by_wallet wallet s = Some user"
      "il_tenorDays dto \<in> {7, 14, 21}"
    and op0: "opened user (new_loan user wallet (formatAmount amount)
         (formatAmount (dadd amount (ddiv (dmul amount (of_int fee)) 10000))) (il_tenorDays dto) fee (now s) (il_txHash dto))
       (il_txHash dto) s new s1"
    by (auto simp: recorded_def)
  then obtain l0 where op: "opened user l0 (il_txHash dto) s new s1" and l0: "openTxHash l0 = Some (il_txHash dto)"
    by (auto simp: new_loan_def)
  from op obtain rows where rows: "loans s1 = rows @ [store_loan new]"
    "\<forall>l \<in> set rows. l \<in> set (loans s) \<or> (\<exists>k \<in> set (loans s). l = store_loan (close_orphan (now s) k))"
    unfolding opened_def by blast
  have "find (\<lambda>l. openTxHash l = Some (il_txHash dto)) rows = None"
    unfolding find_none using rows(2) op by (fastforce simp: opened_def)
  moreover have "openTxHash new = Some (il_txHash dto)" using op l0 by (simp add: opened_def)
  ultimately have "find (\<lambda>l. openTxHash l = Some (il_txHash dto)) (loans s1) = Some (store_loan new)"
    unfolding rows(1) by (induction rows) auto
  moreover have "user_by_wallet wallet s1 = Some user" using n(3) op by (simp add: user_by_wallet_def opened_def)
  moreover have "check_tenor (il_tenorDays dto) = Inr ()" using n(4) by (simp only: check_tenor_Inr)
  ultimately show ?thesis
    using n by (simp add: informLoanOpened_def svc_simps)
qed (use run in simp)

theorem open_idempotent_witness:
  "\<exists>s'. informLoanOpened example_env example_gw \<lparr>il_walletAddress = example_wallet, il_amountHuman = ''1'', il_tenorDays = 7,
      il_txHash = ''h0''\<rparr> s' = (Inr 1, s') \<and> s' \<noteq> example_borrow_world"
  using example_open open_idempotent by fast



end
