(* ===== verification/Identity.thy ===== *)
theory Identity
  imports Loan_Repayment
begin

text \<open>
  Identity checks of a user: the KYC service with its vendor port and the fake vendor
  (\<open>backend/src/kyc\<close>), and the verification of the phone by a code sent over WhatsApp
  (\<open>backend/src/user/phone-otp.service.ts\<close>, \<open>phone-verification.service.ts\<close>).

  The state of the vendor and of the messaging service is the external component of the
  world; their calls change it and no table. The number drawn by \<open>Math.random\<close> is an argument.
\<close>

section \<open>KYC\<close>

datatype KycDecision = Kyc_pending | Kyc_approved | Kyc_rejected

record KycSession =
  sessionId :: string
  verificationUrl :: string

record 'c KycProviderPort =
  kyc_name :: string
  createSession :: "string \<Rightarrow> 'c \<Rightarrow> (http_error, KycSession) result \<times> 'c"
  getDecision :: "string \<Rightarrow> 'c \<Rightarrow> (http_error, KycDecision) result \<times> 'c"

definition findUserOrThrow :: "string \<Rightarrow> string \<Rightarrow> ('c world, User) svc" where
  "findUserOrThrow message addr =
     sbind (slift (normalizeWallet addr)) (\<lambda>wallet.
     sbind (sget (user_by_wallet wallet)) (\<lambda>found.
     case found of None \<Rightarrow> sthrow (NotFound message) | Some user \<Rightarrow> sret user))"

record KycStart =
  st_status :: string
  st_sessionId :: "string option"
  st_verificationUrl :: "string option"

definition kyc_start :: "'c KycProviderPort \<Rightarrow> string \<Rightarrow> ('c world, KycStart) svc" where
  "kyc_start provider addr =
     sbind (findUserOrThrow ''User not found'' addr) (\<lambda>user.
     if kycStatus user = ''approved''
     then sret \<lparr>st_status = ''approved'', st_sessionId = None, st_verificationUrl = None\<rparr>
     else if kycStatus user = ''pending'' \<and> \<not> falsy_str (kycSessionId user)
     then sret \<lparr>st_status = ''pending'', st_sessionId = kycSessionId user, st_verificationUrl = None\<rparr>
     else
       sbind (chain_write (createSession provider (walletAddress user))) (\<lambda>session.
       sbind (update_user (user_id user) (\<lambda>u. u\<lparr>kycStatus := ''pending'', kycSessionId := Some (sessionId session),
                kycProvider := Some (kyc_name provider)\<rparr>)) (\<lambda>_.
       sret \<lparr>st_status = ''pending'', st_sessionId = Some (sessionId session),
             st_verificationUrl = Some (verificationUrl session)\<rparr>)))"

definition kyc_status :: "'c KycProviderPort \<Rightarrow> string \<Rightarrow> ('c world, string) svc" where
  "kyc_status provider addr =
     sbind (findUserOrThrow ''User not found'' addr) (\<lambda>user.
     if kycStatus user \<noteq> ''pending'' \<or> falsy_str (kycSessionId user) then sret (kycStatus user)
     else
       sbind (chain_write (getDecision provider (the (kycSessionId user)))) (\<lambda>decision.
       case decision of
         Kyc_approved \<Rightarrow>
           sbind (sget now) (\<lambda>t.
           sbind (update_user (user_id user) (\<lambda>u. u\<lparr>kycStatus := ''approved'', kycApprovedAt := Some t\<rparr>)) (\<lambda>_.
           sret ''approved''))
       | Kyc_rejected \<Rightarrow>
           sbind (update_user (user_id user) (\<lambda>u. u\<lparr>kycStatus := ''rejected'', kycSessionId := None\<rparr>)) (\<lambda>_.
           sret ''rejected'')
       | Kyc_pending \<Rightarrow> sret ''pending''))"

text \<open>The fake vendor: its sessions, and how many identifiers have been drawn.\<close>

record fake_kyc =
  sessions :: "string \<rightharpoonup> KycDecision"
  drawn :: nat

definition fake_createSession :: "(nat \<Rightarrow> string) \<Rightarrow> string \<Rightarrow> fake_kyc \<Rightarrow> (http_error, KycSession) result \<times> fake_kyc" where
  "fake_createSession randomUUID wallet f =
     (let sid = ''fake-'' @ randomUUID (drawn f)
      in (Inr \<lparr>sessionId = sid, verificationUrl = ''https://kyc.invalid/fake/'' @ sid @ ''?wallet='' @ wallet\<rparr>,
          f\<lparr>sessions := (sessions f)(sid \<mapsto> Kyc_pending), drawn := drawn f + 1\<rparr>))"

definition fake_getDecision :: "string option \<Rightarrow> string \<Rightarrow> fake_kyc \<Rightarrow> (http_error, KycDecision) result \<times> fake_kyc" where
  "fake_getDecision KYC_FAKE_AUTO_APPROVE sid f =
     (if to_lower (nullish KYC_FAKE_AUTO_APPROVE []) = ''true'' then (Inr Kyc_approved, f)
      else (Inr (nullish (sessions f sid) Kyc_pending), f))"

definition fake_resolve :: "string \<Rightarrow> KycDecision \<Rightarrow> fake_kyc \<Rightarrow> fake_kyc" where
  "fake_resolve sid decision f = f\<lparr>sessions := (sessions f)(sid \<mapsto> decision)\<rparr>"

definition FakeKycProvider :: "(nat \<Rightarrow> string) \<Rightarrow> string option \<Rightarrow> fake_kyc KycProviderPort" where
  "FakeKycProvider randomUUID auto =
     \<lparr>kyc_name = ''fake'', createSession = fake_createSession randomUUID, getDecision = fake_getDecision auto\<rparr>"

section \<open>Phone codes\<close>

text \<open>The messaging client, when it is configured: a template message, and a plain text.\<close>

record 'c KapsoClient =
  sendTemplate :: "string \<Rightarrow> string \<Rightarrow> 'c \<Rightarrow> (http_error, unit) result \<times> 'c"
  sendText :: "string \<Rightarrow> string \<Rightarrow> 'c \<Rightarrow> (http_error, unit) result \<times> 'c"

definition otp_code :: "rat \<Rightarrow> string" where
  "otp_code random = int_str \<lfloor>100000 + random * 900000\<rfloor>"

definition update_by_wallet :: "string \<Rightarrow> (User \<Rightarrow> User) \<Rightarrow> ('c world, unit) svc" where
  "update_by_wallet wallet f =
     smod (\<lambda>s. s\<lparr>users := map (\<lambda>u. if walletAddress u = wallet then store_user (f u) else u) (users s)\<rparr>)"

definition sendVerification :: "'c KapsoClient option \<Rightarrow> rat \<Rightarrow> string \<Rightarrow> string \<Rightarrow> ('c world, unit) svc" where
  "sendVerification kapso random to addr =
     sbind (slift (normalizeWallet addr)) (\<lambda>wallet.
     let code = otp_code random
     in sbind (sget now) (\<lambda>t.
        sbind (update_by_wallet wallet (\<lambda>u. u\<lparr>phoneOtpCode := Some code, phoneOtpExpiresAt := Some (t + 10 * 60000)\<rparr>)) (\<lambda>_.
        case kapso of
          None \<Rightarrow> sret ()
        | Some k \<Rightarrow>
            scatch (chain_write (sendTemplate k to code)) (\<lambda>_.
            scatch (chain_write (sendText k to code)) (\<lambda>_. sret ())))))"

definition checkVerification :: "string \<Rightarrow> string \<Rightarrow> ('c world, bool) svc" where
  "checkVerification code addr =
     sbind (slift (normalizeWallet addr)) (\<lambda>wallet.
     sbind (sget (user_by_wallet wallet)) (\<lambda>found.
     sbind (sget now) (\<lambda>t.
     case found of
       None \<Rightarrow> sret False
     | Some user \<Rightarrow>
         (case (phoneOtpCode user, phoneOtpExpiresAt user) of
            (Some stored, Some expires) \<Rightarrow>
              if stored = [] \<or> expires < t then sret False
              else if stored = code
              then sbind (update_by_wallet wallet (\<lambda>u. u\<lparr>phoneOtpCode := None, phoneOtpExpiresAt := None\<rparr>)) (\<lambda>_. sret True)
              else sret False
          | _ \<Rightarrow> sret False))))"

section \<open>Phone verification\<close>

definition ensurePhoneIsFreeForWallet :: "string \<Rightarrow> string \<Rightarrow> ('c world, unit) svc" where
  "ensurePhoneIsFreeForWallet number wallet =
     sbind (sget (\<lambda>s. find (\<lambda>u. phone u = Some number) (users s))) (\<lambda>existing.
     srequire (case existing of None \<Rightarrow> True | Some u \<Rightarrow> walletAddress u = wallet)
       (Conflict ''Este numero ya esta registrado con otra cuenta''))"

definition assertPhoneOtpThrottle :: "User \<Rightarrow> ('c world, unit) svc" where
  "assertPhoneOtpThrottle user =
     sbind (sget now) (\<lambda>t.
     srequire (case lastPhoneOtpSentAt user of None \<Rightarrow> True | Some sent \<Rightarrow> \<not> t - sent < 60000)
       (BadRequest ''Espera al menos 1 minuto antes de pedir otro codigo''))"

definition verifyPhone :: "'c KapsoClient option \<Rightarrow> rat \<Rightarrow> string \<Rightarrow> string \<Rightarrow> ('c world, unit) svc" where
  "verifyPhone kapso random addr number =
     sbind (findUserOrThrow ''User not found'' addr) (\<lambda>user.
     sbind (slift (normalizeWallet addr)) (\<lambda>wallet.
     sbind (ensurePhoneIsFreeForWallet number wallet) (\<lambda>_.
     sbind (assertPhoneOtpThrottle user) (\<lambda>_.
     sbind (sendVerification kapso random number wallet) (\<lambda>_.
     sbind (sget now) (\<lambda>t.
     update_user (user_id user) (\<lambda>u. u\<lparr>lastPhoneOtpSentAt := Some t\<rparr>)))))))"

text \<open>The update of the phone column, with its unique index.\<close>

definition update_phone :: "nat \<Rightarrow> string \<Rightarrow> ('c world, unit) svc" where
  "update_phone i number = (\<lambda>s.
     if list_ex (\<lambda>u. user_id u \<noteq> i \<and> phone u = Some number) (users s) then (Inl unique_violation, s)
     else update_user i (\<lambda>u. u\<lparr>phone := Some number, phoneVerifiedAt := Some (now s)\<rparr>) s)"

definition verifyPhoneOtp :: "string \<Rightarrow> string \<Rightarrow> string \<Rightarrow> ('c world, unit) svc" where
  "verifyPhoneOtp addr number code =
     sbind (findUserOrThrow ''User not found'' addr) (\<lambda>user.
     sbind (slift (normalizeWallet addr)) (\<lambda>wallet.
     sbind (ensurePhoneIsFreeForWallet number wallet) (\<lambda>_.
     sbind (checkVerification code wallet) (\<lambda>approved.
     sbind (srequire approved (BadRequest ''Codigo invalido o expirado'')) (\<lambda>_.
     scatch (update_phone (user_id user) number) (\<lambda>e.
       if e = unique_violation then sthrow (Conflict ''Este telefono ya fue verificado por otro usuario'') else sthrow e))))))"

definition resendPhoneOtp :: "'c KapsoClient option \<Rightarrow> rat \<Rightarrow> string \<Rightarrow> string \<Rightarrow> ('c world, unit) svc" where
  "resendPhoneOtp kapso random addr number = verifyPhone kapso random addr number"

definition updatePhone :: "'c KapsoClient option \<Rightarrow> rat \<Rightarrow> string \<Rightarrow> string \<Rightarrow> ('c world, unit) svc" where
  "updatePhone kapso random addr number =
     sbind (findUserOrThrow ''User not found'' addr) (\<lambda>user.
     sbind (slift (normalizeWallet addr)) (\<lambda>wallet.
     sbind (ensurePhoneIsFreeForWallet number wallet) (\<lambda>_.
     sbind (assertPhoneOtpThrottle user) (\<lambda>_.
     sbind (sendVerification kapso random number wallet) (\<lambda>_.
     sbind (sget now) (\<lambda>t.
     update_user (user_id user) (\<lambda>u. u\<lparr>lastPhoneOtpSentAt := Some t\<rparr>)))))))"

section \<open>Lemmas\<close>

lemma sbind_findUser [svc_simps]:
  "sbind (findUserOrThrow m a) g s =
     (case normalizeWallet a of
        Inl e \<Rightarrow> (Inl e, s)
      | Inr w \<Rightarrow> (case user_by_wallet w s of None \<Rightarrow> (Inl (NotFound m), s) | Some u \<Rightarrow> g u s))"
  by (simp add: findUserOrThrow_def sbind_assoc svc_simps split: sum.split option.split)

lemma sbind_update_wallet [svc_simps]:
  "sbind (update_by_wallet w f) g s =
     g () (s\<lparr>users := map (\<lambda>u. if walletAddress u = w then store_user (f u) else u) (users s)\<rparr>)"
  by (simp add: update_by_wallet_def sbind_mod)

lemma update_user_eval [svc_simps]:
  "update_user i f s = (Inr (), s\<lparr>users := map (\<lambda>u. if user_id u = i then store_user (f u) else u) (users s)\<rparr>)"
  by (simp add: update_user_def smod_def)

lemma user_by_wallet_map:
  assumes "\<And>u. walletAddress (g u) = walletAddress u"
  shows "user_by_wallet w (s\<lparr>users := map g (users s)\<rparr>) = map_option g (user_by_wallet w s)"
proof -
  have "find (\<lambda>u. walletAddress u = w) (map g us) = map_option g (find (\<lambda>u. walletAddress u = w) us)" for us
    using assms by (induction us) auto
  then show ?thesis by (simp add: user_by_wallet_def)
qed

lemma store_user_sel [simp]:
  "user_id (store_user u) = user_id u" "walletAddress (store_user u) = walletAddress u" "phone (store_user u) = phone u"
  "phoneVerifiedAt (store_user u) = phoneVerifiedAt u" "phoneOtpCode (store_user u) = phoneOtpCode u"
  "phoneOtpExpiresAt (store_user u) = phoneOtpExpiresAt u" "lastPhoneOtpSentAt (store_user u) = lastPhoneOtpSentAt u"
  "kycStatus (store_user u) = kycStatus u" "kycSessionId (store_user u) = kycSessionId u"
  by (simp_all add: store_user_def)

subsection \<open>KYC\<close>

text \<open>How one call may change the KYC status of a row.\<close>

definition approves :: "'c KycProviderPort \<Rightarrow> 'c world \<Rightarrow> User \<Rightarrow> bool" where
  "approves p s u \<longleftrightarrow> kycStatus u = ''pending'' \<and>
     (\<exists>sid. kycSessionId u = Some sid \<and> fst (getDecision p sid (chain s)) = Inr Kyc_approved)"

definition kyc_edge :: "'c KycProviderPort \<Rightarrow> bool \<Rightarrow> 'c world \<Rightarrow> User \<Rightarrow> User \<Rightarrow> bool" where
  "kyc_edge p answered s u v \<longleftrightarrow> kycStatus v = kycStatus u \<or> kycStatus u \<noteq> ''approved'' \<and> kycStatus v = ''pending'' \<or>
     kycStatus u = ''pending'' \<and> kycStatus v = ''rejected'' \<or> answered \<and> kycStatus v = ''approved'' \<and> approves p s u"

definition kyc_rows :: "'c KycProviderPort \<Rightarrow> bool \<Rightarrow> 'c world \<Rightarrow> 'c world \<Rightarrow> bool" where
  "kyc_rows p answered s s' \<longleftrightarrow> list_all2 (\<lambda>u v. user_id v = user_id u \<and> kyc_edge p answered s u v) (users s) (users s')"

lemma kyc_rows_update:
  assumes "distinct (map user_id (users s))" "user \<in> set (users s)"
    and "user_id (f user) = user_id user" "kyc_edge p b s user (f user)"
    and "users s' = map (\<lambda>u. if user_id u = user_id user then store_user (f u) else u) (users s)"
  shows "kyc_rows p b s s'"
proof -
  have "u = user" if "u \<in> set (users s)" "user_id u = user_id user" for u
    using assms(1,2) that by (metis distinct_map inj_onD)
  then show ?thesis
    using assms(3-5) by (auto simp: kyc_rows_def list_all2_map2 list_all2_same kyc_edge_def)
qed

lemma kyc_rows_same: "users s' = users s \<Longrightarrow> kyc_rows p b s s'"
  by (simp add: kyc_rows_def list_all2_same kyc_edge_def)

lemma findUser_none:
  assumes "\<nexists>w user. normalizeWallet a = Inr w \<and> user_by_wallet w s = Some user"
  shows "snd (sbind (findUserOrThrow m a) g s) = s"
  using assms by (auto simp: svc_simps split: sum.split option.split)

lemma kyc_start_rows:
  assumes "distinct (map user_id (users s))"
  shows "kyc_rows p False s (snd (kyc_start p a s))"
proof (cases "\<exists>w user. normalizeWallet a = Inr w \<and> user_by_wallet w s = Some user")
  case False
  then show ?thesis unfolding kyc_start_def by (intro kyc_rows_same) (simp add: findUser_none)
next
  case True
  then obtain w user where u: "normalizeWallet a = Inr w" "user_by_wallet w s = Some user" by blast
  have user: "user \<in> set (users s)" using u(2) user_by_walletD by blast
  show ?thesis
  proof (cases "kycStatus user = ''approved'' \<or> kycStatus user = ''pending'' \<and> \<not> falsy_str (kycSessionId user)")
    case True
    then show ?thesis using u by (intro kyc_rows_same) (auto simp: kyc_start_def svc_simps)
  next
    case False
    obtain r c where c: "createSession p (walletAddress user) (chain s) = (r, c)" by fastforce
    show ?thesis
    proof (cases r)
      case (Inl e)
      then show ?thesis using u False c by (intro kyc_rows_same) (auto simp: kyc_start_def svc_simps)
    next
      case (Inr session)
      have "users (snd (kyc_start p a s)) = map (\<lambda>u. if user_id u = user_id user then store_user (u\<lparr>kycStatus := ''pending'',
          kycSessionId := Some (sessionId session), kycProvider := Some (kyc_name p)\<rparr>) else u) (users s)"
        using u False c Inr by (auto simp: kyc_start_def svc_simps)
      from kyc_rows_update [OF assms user _ _ this] False show ?thesis by (simp add: kyc_edge_def)
    qed
  qed
qed

lemma kyc_status_rows:
  assumes "distinct (map user_id (users s))"
  shows "kyc_rows p True s (snd (kyc_status p a s))"
proof (cases "\<exists>w user. normalizeWallet a = Inr w \<and> user_by_wallet w s = Some user")
  case False
  then show ?thesis unfolding kyc_status_def by (intro kyc_rows_same) (simp add: findUser_none)
next
  case True
  then obtain w user where u: "normalizeWallet a = Inr w" "user_by_wallet w s = Some user" by blast
  have user: "user \<in> set (users s)" using u(2) user_by_walletD by blast
  show ?thesis
  proof (cases "kycStatus user \<noteq> ''pending'' \<or> falsy_str (kycSessionId user)")
    case True
    then show ?thesis using u by (intro kyc_rows_same) (auto simp: kyc_status_def svc_simps)
  next
    case False
    obtain r c where c: "getDecision p (the (kycSessionId user)) (chain s) = (r, c)" by fastforce
    consider (same) "users (snd (kyc_status p a s)) = users s"
      | (approved) "r = Inr Kyc_approved" "users (snd (kyc_status p a s)) =
          map (\<lambda>u. if user_id u = user_id user then store_user (u\<lparr>kycStatus := ''approved'', kycApprovedAt := Some (now s)\<rparr>) else u) (users s)"
      | (rejected) "users (snd (kyc_status p a s)) =
          map (\<lambda>u. if user_id u = user_id user then store_user (u\<lparr>kycStatus := ''rejected'', kycSessionId := None\<rparr>) else u) (users s)"
      using u False c by (cases r; cases "projr r") (simp_all add: kyc_status_def svc_simps)
    then show ?thesis
    proof cases
      case approved
      then have "fst (getDecision p (the (kycSessionId user)) (chain s)) = Inr Kyc_approved" using c by simp
      then have "approves p s user" using False by (auto simp: approves_def falsy_str_def split: option.splits)
      with kyc_rows_update [OF assms user _ _ approved(2)] show ?thesis by (simp add: kyc_edge_def)
    next
      case rejected
      from kyc_rows_update [OF assms user _ _ rejected] False show ?thesis by (simp add: kyc_edge_def)
    qed (rule kyc_rows_same)
  qed
qed

text \<open>The calls of the service for any wallets, and anything that happens outside of the tables.\<close>

inductive kyc_step :: "'c KycProviderPort \<Rightarrow> 'c world \<Rightarrow> 'c world \<Rightarrow> bool" for p where
  kyc_call_start: "kyc_start p a s = (r, s') \<Longrightarrow> kyc_step p s s'"
| kyc_call_status: "kyc_status p a s = (r', s') \<Longrightarrow> kyc_step p s s'"
| kyc_outside: "kyc_step p s (s\<lparr>chain := c, now := t\<rparr>)"

lemma kyc_step_rows:
  assumes "kyc_step p s s'" "distinct (map user_id (users s))"
  shows "\<exists>answered. kyc_rows p answered s s' \<and> (answered \<longrightarrow> (\<exists>a r. kyc_status p a s = (r, s')))"
  using assms(1)
proof (cases rule: kyc_step.cases)
  case (kyc_call_start a r)
  then show ?thesis using kyc_start_rows [OF assms(2), of p a] by auto
next
  case (kyc_call_status a r)
  then show ?thesis using kyc_status_rows [OF assms(2), of p a] by auto
next
  case kyc_outside
  then have "kyc_rows p False s s'" by (intro kyc_rows_same) simp
  then show ?thesis by blast
qed

text \<open>
  A user whose approval has been earned on the way from a state to another one: the run passes the step
  at which the row became approved, and the vendor answered so in that step.
\<close>

definition earned :: "'c KycProviderPort \<Rightarrow> 'c world \<Rightarrow> 'c world \<Rightarrow> nat \<Rightarrow> bool" where
  "earned p s s' i \<longleftrightarrow> (\<exists>t t' a r w w'. (kyc_step p)\<^sup>*\<^sup>* s t \<and> kyc_status p a t = (r, t') \<and> (kyc_step p)\<^sup>*\<^sup>* t' s' \<and>
     w \<in> set (users t) \<and> user_id w = i \<and> approves p t w \<and>
     w' \<in> set (users t') \<and> user_id w' = i \<and> kycStatus w' = ''approved'')"

definition kyc_kept :: "'c KycProviderPort \<Rightarrow> 'c world \<Rightarrow> 'c world \<Rightarrow> User \<Rightarrow> User \<Rightarrow> bool" where
  "kyc_kept p s s' u v \<longleftrightarrow> user_id v = user_id u \<and> (kycStatus u = ''approved'' \<longrightarrow> kycStatus v = ''approved'') \<and>
     (kycStatus v = ''approved'' \<longrightarrow> kycStatus u = ''approved'' \<or> earned p s s' (user_id u))"

definition kyc_run_ok :: "'c KycProviderPort \<Rightarrow> 'c world \<Rightarrow> 'c world \<Rightarrow> bool" where
  "kyc_run_ok p s s' \<longleftrightarrow> (kyc_step p)\<^sup>*\<^sup>* s s' \<and>
     (distinct (map user_id (users s)) \<longrightarrow> list_all2 (kyc_kept p s s') (users s) (users s'))"

lemma list_all2_ids: "list_all2 R us vs \<Longrightarrow> (\<And>u v. R u v \<Longrightarrow> f v = f u) \<Longrightarrow> map f vs = map f us"
  by (induction rule: list_all2_induct) auto

lemma earned_later: "earned p s t i \<Longrightarrow> kyc_step p t u \<Longrightarrow> earned p s u i"
  unfolding earned_def by (elim exE conjE) (drule (1) rtranclp.rtrancl_into_rtrancl, blast)

lemma kyc_kept_step:
  assumes run: "(kyc_step p)\<^sup>*\<^sup>* s t" and step: "kyc_step p t u"
    and answered: "answered \<longrightarrow> (\<exists>a r. kyc_status p a t = (r, u))"
    and kept: "kyc_kept p s t k v" and edge: "user_id w = user_id v" "kyc_edge p answered t v w"
    and rows: "v \<in> set (users t)" "w \<in> set (users u)"
  shows "kyc_kept p s u k w"
proof -
  have "kycStatus w = ''approved''" if "kycStatus v = ''approved''"
    using that edge(2) by (auto simp: kyc_edge_def)
  moreover have "kycStatus k = ''approved'' \<or> earned p s u (user_id k)" if "kycStatus w = ''approved''"
  proof (cases "kycStatus v = ''approved''")
    case True
    then show ?thesis using kept earned_later [OF _ step] by (auto simp: kyc_kept_def)
  next
    case False
    then have "answered" "approves p t v" using edge(2) that by (auto simp: kyc_edge_def)
    with answered obtain a r where "kyc_status p a t = (r, u)" by blast
    moreover have "user_id v = user_id k" "user_id w = user_id k" using kept edge(1) by (simp_all add: kyc_kept_def)
    ultimately have "earned p s u (user_id k)"
      using run rows that \<open>approves p t v\<close> unfolding earned_def by blast
    then show ?thesis ..
  qed
  ultimately show ?thesis using kept edge(1) by (auto simp: kyc_kept_def)
qed

interpretation kyc_frame: frame_system "kyc_step p" "kyc_run_ok p" for p
proof
  fix s :: "'a world"
  show "kyc_run_ok p s s" by (simp add: kyc_run_ok_def list_all2_same kyc_kept_def)
next
  fix s t u :: "'a world"
  assume st: "kyc_run_ok p s t" and step: "kyc_step p t u"
  have run: "(kyc_step p)\<^sup>*\<^sup>* s t" using st by (simp add: kyc_run_ok_def)
  have "list_all2 (kyc_kept p s u) (users s) (users u)" if d: "distinct (map user_id (users s))"
  proof -
    have 1: "list_all2 (kyc_kept p s t) (users s) (users t)" using st d by (simp add: kyc_run_ok_def)
    from list_all2_ids [OF this, of user_id] d have "distinct (map user_id (users t))" by (simp add: kyc_kept_def)
    from kyc_step_rows [OF step this] obtain b where
      2: "list_all2 (\<lambda>v w. user_id w = user_id v \<and> kyc_edge p b t v w) (users t) (users u)"
      and "b \<longrightarrow> (\<exists>a r. kyc_status p a t = (r, u))" unfolding kyc_rows_def by blast
    note next_row = kyc_kept_step [OF run step this(2)]
    show ?thesis
      unfolding list_all2_conv_all_nth
    proof (intro conjI allI impI)
      show len: "length (users s) = length (users u)" using 1 2 by (simp add: list_all2_conv_all_nth)
      fix i assume i: "i < length (users s)"
      show "kyc_kept p s u (users s ! i) (users u ! i)"
        using 1 2 i len by (intro next_row [of _ "users t ! i"]) (simp_all add: list_all2_conv_all_nth)
    qed
  qed
  with run step show "kyc_run_ok p s u" by (auto simp: kyc_run_ok_def)
qed

subsection \<open>Phone\<close>

lemma sbind_free [svc_simps]:
  "sbind (ensurePhoneIsFreeForWallet n w) g s =
     (if (case find (\<lambda>u. phone u = Some n) (users s) of None \<Rightarrow> True | Some u \<Rightarrow> walletAddress u = w) then g () s
      else (Inl (Conflict ''Este numero ya esta registrado con otra cuenta''), s))"
  by (simp add: ensurePhoneIsFreeForWallet_def sbind_assoc svc_simps)

lemma sbind_throttle [svc_simps]:
  "sbind (assertPhoneOtpThrottle u) g s =
     (if (case lastPhoneOtpSentAt u of None \<Rightarrow> True | Some sent \<Rightarrow> \<not> now s - sent < 60000) then g () s
      else (Inl (BadRequest ''Espera al menos 1 minuto antes de pedir otro codigo''), s))"
  by (simp add: assertPhoneOtpThrottle_def sbind_assoc svc_simps)

lemma checkVerification_run:
  assumes "normalizeWallet w = Inr w" "user_by_wallet w s = Some user"
  shows "checkVerification code w s =
    (if (\<exists>stored expires. phoneOtpCode user = Some stored \<and> phoneOtpExpiresAt user = Some expires \<and> stored \<noteq> [] \<and>
          now s \<le> expires \<and> stored = code)
     then (Inr True, s\<lparr>users := map (\<lambda>u. if walletAddress u = w then store_user (u\<lparr>phoneOtpCode := None, phoneOtpExpiresAt := None\<rparr>) else u) (users s)\<rparr>)
     else (Inr False, s))"
  using assms by (auto simp: checkVerification_def svc_simps split: option.splits)

lemma verifyPhoneOtp_user:
  assumes w: "normalizeWallet a = Inr w" and u: "user_by_wallet w s = Some user"
    and free: "\<forall>v \<in> set (users s). phone v = Some n \<longrightarrow> walletAddress v = w"
    and index: "\<forall>v \<in> set (users s). phone v = Some n \<longrightarrow> user_id v = user_id user"
    and code: "phoneOtpCode user = Some code" "code \<noteq> []" "phoneOtpExpiresAt user = Some expires" "now s \<le> expires"
  shows "\<exists>s' v. verifyPhoneOtp a n code s = (Inr (), s') \<and> user_by_wallet w s' = Some v \<and> user_id v = user_id user \<and>
    phone v = Some n \<and> phoneVerifiedAt v = Some (now s) \<and> phoneOtpCode v = None"
proof -
  define g where "g v = (if walletAddress v = w then store_user (v\<lparr>phoneOtpCode := None, phoneOtpExpiresAt := None\<rparr>) else v)" for v :: User
  define h where "h v = (if user_id v = user_id user then store_user (v\<lparr>phone := Some n, phoneVerifiedAt := Some (now s)\<rparr>) else v)" for v :: User
  define s1 where "s1 = s\<lparr>users := map g (users s)\<rparr>"
  have sel: "walletAddress (g v) = walletAddress v" "walletAddress (h v) = walletAddress v" "user_id (g v) = user_id v" "phone (g v) = phone v" for v
    by (simp_all add: g_def h_def)
  have f: "case find (\<lambda>u. phone u = Some n) (users s) of None \<Rightarrow> True | Some v \<Rightarrow> walletAddress v = w"
    using free find_cond by (fastforce split: option.split)
  have c: "checkVerification code w s = (Inr True, s1)"
    using checkVerification_run [OF normalizeWallet_fixed [OF w] u] code by (simp add: s1_def g_def [abs_def])
  have "\<not> list_ex (\<lambda>v. user_id v \<noteq> user_id user \<and> phone v = Some n) (users s1)"
    using index by (auto simp: s1_def list_ex_iff sel)
  then have p: "update_phone (user_id user) n s1 = (Inr (), s1\<lparr>users := map h (users s1)\<rparr>)"
    by (simp add: update_phone_def svc_simps h_def [abs_def] s1_def)
  have run: "verifyPhoneOtp a n code s = (Inr (), s1\<lparr>users := map h (users s1)\<rparr>)"
    using w u f c p by (simp add: verifyPhoneOtp_def svc_simps sbind_def [of "checkVerification _ _"])
  have "user_by_wallet w s1 = Some (g user)" using u user_by_wallet_map [of g w s] sel by (simp add: s1_def)
  then have v: "user_by_wallet w (s1\<lparr>users := map h (users s1)\<rparr>) = Some (h (g user))"
    using user_by_wallet_map [of h w s1] sel by simp
  have "walletAddress user = w" using u user_by_walletD by blast
  then have "user_id (h (g user)) = user_id user" "phone (h (g user)) = Some n" "phoneVerifiedAt (h (g user)) = Some (now s)"
    "phoneOtpCode (h (g user)) = None" by (simp_all add: h_def g_def)
  with run v show ?thesis by blast
qed

lemma verifyPhoneOtp_run:
  assumes run: "verifyPhoneOtp a n code s = (Inr (), s')"
  shows "\<exists>w user expires. normalizeWallet a = Inr w \<and> user_by_wallet w s = Some user \<and> phoneOtpCode user = Some code \<and>
    code \<noteq> [] \<and> phoneOtpExpiresAt user = Some expires \<and> now s \<le> expires \<and>
    (\<forall>v \<in> set (users s). phone v = Some n \<longrightarrow> user_id v = user_id user)"
proof -
  obtain w where w: "normalizeWallet a = Inr w" using run by (auto simp: verifyPhoneOtp_def svc_simps split: sum.splits)
  obtain user where u: "user_by_wallet w s = Some user"
    using run w by (auto simp: verifyPhoneOtp_def svc_simps split: option.splits)
  obtain t where c: "checkVerification code w s = (Inr True, t)" and p: "update_phone (user_id user) n t = (Inr (), s')"
  proof -
    have "\<exists>b t. checkVerification code w s = (Inr b, t)"
      by (simp add: checkVerification_run [OF normalizeWallet_fixed [OF w] u]) blast
    then obtain b t where b: "checkVerification code w s = (Inr b, t)" by blast
    show thesis
      using run w u b that
      by (simp add: verifyPhoneOtp_def svc_simps sbind_def [of "checkVerification _ _"] split: if_splits sum.splits prod.splits)
  qed
  from c checkVerification_run [OF normalizeWallet_fixed [OF w] u, of code] obtain expires where e:
    "phoneOtpCode user = Some code" "code \<noteq> []" "phoneOtpExpiresAt user = Some expires" "now s \<le> expires"
    and t: "users t = map (\<lambda>u. if walletAddress u = w then store_user (u\<lparr>phoneOtpCode := None, phoneOtpExpiresAt := None\<rparr>) else u) (users s)"
    by (auto split: if_splits)
  have "\<forall>v \<in> set (users t). phone v = Some n \<longrightarrow> user_id v = user_id user"
    using p by (auto simp: update_phone_def list_ex_iff split: if_splits)
  moreover define g where "g v = (if walletAddress v = w then store_user (v\<lparr>phoneOtpCode := None, phoneOtpExpiresAt := None\<rparr>) else v)" for v :: User
  have "users t = map g (users s)" "\<And>v. phone (g v) = phone v" "\<And>v. user_id (g v) = user_id v" by (simp_all add: t g_def)
  ultimately have "\<forall>v \<in> set (users s). phone v = Some n \<longrightarrow> user_id v = user_id user" by simp
  with w u e show ?thesis by blast
qed

lemma sendVerification_run:
  assumes w: "normalizeWallet w = Inr w"
  shows "\<exists>c. sendVerification kapso r n w s = (Inr (), s\<lparr>users := map (\<lambda>u. if walletAddress u = w
      then store_user (u\<lparr>phoneOtpCode := Some (otp_code r), phoneOtpExpiresAt := Some (now s + 600000)\<rparr>) else u) (users s), chain := c\<rparr>)"
proof (cases kapso)
  case None
  then show ?thesis using w by (auto simp: sendVerification_def svc_simps Let_def intro!: exI [of _ "chain s"])
next
  case (Some k)
  then show ?thesis
    using w by (auto simp: sendVerification_def svc_simps Let_def chain_write_def split: prod.splits sum.splits)
qed

lemma verifyPhone_run:
  assumes run: "verifyPhone kapso r a n s = (Inr (), s')"
  shows "\<exists>w user v. normalizeWallet a = Inr w \<and> user_by_wallet w s = Some user \<and> user_by_wallet w s' = Some v \<and>
    user_id v = user_id user \<and> phoneOtpCode v = Some (otp_code r) \<and> phoneOtpExpiresAt v = Some (now s + 600000) \<and>
    now s' = now s \<and> map (\<lambda>u. (user_id u, walletAddress u, phone u)) (users s') = map (\<lambda>u. (user_id u, walletAddress u, phone u)) (users s)"
proof -
  obtain w where w: "normalizeWallet a = Inr w" using run by (auto simp: verifyPhone_def svc_simps split: sum.splits)
  obtain user where u: "user_by_wallet w s = Some user"
    using run w by (auto simp: verifyPhone_def svc_simps split: option.splits)
  define g where "g v = (if walletAddress v = w then store_user (v\<lparr>phoneOtpCode := Some (otp_code r),
    phoneOtpExpiresAt := Some (now s + 600000)\<rparr>) else v)" for v :: User
  define h where "h v = (if user_id v = user_id user then store_user (v\<lparr>lastPhoneOtpSentAt := Some (now s)\<rparr>) else v)" for v :: User
  from sendVerification_run [OF normalizeWallet_fixed [OF w], of kapso r n s]
  obtain c where c: "sendVerification kapso r n w s = (Inr (), s\<lparr>users := map g (users s), chain := c\<rparr>)"
    unfolding g_def [abs_def] by (elim exE)
  have s': "s' = s\<lparr>chain := c, users := map h (map g (users s))\<rparr>"
    using run w u c by (simp add: verifyPhone_def svc_simps sbind_def [of "sendVerification _ _ _ _"] h_def [abs_def] split: if_splits cong: if_cong)
  have sel: "walletAddress (h (g v)) = walletAddress v" "user_id (h (g v)) = user_id v" "phone (h (g v)) = phone v" for v
    by (simp_all add: g_def h_def)
  have "user_by_wallet w s' = Some (h (g user))"
    using user_by_wallet_map [of "h \<circ> g" w s] u sel by (simp add: s' user_by_wallet_def)
  moreover have "phoneOtpCode (h (g user)) = Some (otp_code r)" "phoneOtpExpiresAt (h (g user)) = Some (now s + 600000)"
    using user_by_walletD [OF u] by (simp_all add: g_def h_def)
  ultimately show ?thesis using w u sel by (auto simp: s')
qed

lemma otp_code_nonempty: "otp_code r \<noteq> []"
proof -
  have "nat_str n \<noteq> []" for n by (subst nat_str.simps) simp
  then show ?thesis by (simp add: otp_code_def int_str_def)
qed

section \<open>Example\<close>

definition fake_world :: "fake_kyc world" where
  "fake_world = \<lparr>users = [example_user], loans = [], chain = \<lparr>sessions = Map.empty, drawn = 0\<rparr>, now = 0\<rparr>"

definition fake_provider :: "fake_kyc KycProviderPort" where
  "fake_provider = FakeKycProvider nat_str (Some ''true'')"

lemma fake_world_user: "user_by_wallet example_wallet fake_world = Some example_user"
  by (simp add: user_by_wallet_def fake_world_def example_user_def)

section \<open>Properties\<close>

text \<open>
  C23. Over any sequence of calls of the KYC service, for any wallets and any vendor, an approved
  user stays approved, and a user becomes approved only by a status call of this run in which the
  vendor answered that the session stored for that user, then pending, is approved.
\<close>

theorem kyc_approval:
  assumes "(kyc_step p)\<^sup>*\<^sup>* s s'" and "distinct (map user_id (users s))"
  shows "list_all2 (\<lambda>u v. user_id v = user_id u \<and> (kycStatus u = ''approved'' \<longrightarrow> kycStatus v = ''approved'') \<and>
       (kycStatus v = ''approved'' \<and> kycStatus u \<noteq> ''approved'' \<longrightarrow>
         (\<exists>t t' a r w w' sid. (kyc_step p)\<^sup>*\<^sup>* s t \<and> kyc_status p a t = (r, t') \<and> (kyc_step p)\<^sup>*\<^sup>* t' s' \<and>
            w \<in> set (users t) \<and> user_id w = user_id u \<and> kycStatus w = ''pending'' \<and>
            kycSessionId w = Some sid \<and> fst (getDecision p sid (chain t)) = Inr Kyc_approved \<and>
            w' \<in> set (users t') \<and> user_id w' = user_id u \<and> kycStatus w' = ''approved'')))
     (users s) (users s')"
proof -
  have "list_all2 (kyc_kept p s s') (users s) (users s')"
    using kyc_frame.frame_run [OF assms(1)] assms(2) by (simp add: kyc_run_ok_def)
  then show ?thesis
  proof (rule list_all2_mono)
    fix u v
    assume kept: "kyc_kept p s s' u v"
    show "user_id v = user_id u \<and> (kycStatus u = ''approved'' \<longrightarrow> kycStatus v = ''approved'') \<and>
       (kycStatus v = ''approved'' \<and> kycStatus u \<noteq> ''approved'' \<longrightarrow>
         (\<exists>t t' a r w w' sid. (kyc_step p)\<^sup>*\<^sup>* s t \<and> kyc_status p a t = (r, t') \<and> (kyc_step p)\<^sup>*\<^sup>* t' s' \<and>
            w \<in> set (users t) \<and> user_id w = user_id u \<and> kycStatus w = ''pending'' \<and>
            kycSessionId w = Some sid \<and> fst (getDecision p sid (chain t)) = Inr Kyc_approved \<and>
            w' \<in> set (users t') \<and> user_id w' = user_id u \<and> kycStatus w' = ''approved''))"
    proof (intro conjI impI)
      assume "kycStatus v = ''approved'' \<and> kycStatus u \<noteq> ''approved''"
      then have "earned p s s' (user_id u)" using kept by (simp add: kyc_kept_def)
      then show "\<exists>t t' a r w w' sid. (kyc_step p)\<^sup>*\<^sup>* s t \<and> kyc_status p a t = (r, t') \<and> (kyc_step p)\<^sup>*\<^sup>* t' s' \<and>
            w \<in> set (users t) \<and> user_id w = user_id u \<and> kycStatus w = ''pending'' \<and>
            kycSessionId w = Some sid \<and> fst (getDecision p sid (chain t)) = Inr Kyc_approved \<and>
            w' \<in> set (users t') \<and> user_id w' = user_id u \<and> kycStatus w' = ''approved''"
        unfolding earned_def approves_def by blast
    qed (use kept in \<open>simp_all add: kyc_kept_def\<close>)
  qed
qed

theorem kyc_approval_witness:
  "\<exists>s' v. (kyc_step fake_provider)\<^sup>*\<^sup>* fake_world s' \<and> users s' = [v] \<and> kycStatus v = ''approved'' \<and>
     (\<exists>t t' a r w sid. kyc_status fake_provider a t = (r, t') \<and> (kyc_step fake_provider)\<^sup>*\<^sup>* t' s' \<and> w \<in> set (users t) \<and>
        kycSessionId w = Some sid \<and> fst (getDecision fake_provider sid (chain t)) = Inr Kyc_approved)"
proof -
  let ?f = "\<lambda>u. store_user (u\<lparr>kycStatus := ''pending'', kycSessionId := Some (''fake-'' @ nat_str 0), kycProvider := Some ''fake''\<rparr>)"
  have st: "kycStatus example_user = ''none''" "kycSessionId example_user = None" "walletAddress example_user = example_wallet"
    by (simp_all add: example_user_def)
  obtain s1 where s1: "snd (kyc_start fake_provider example_wallet fake_world) = s1" by simp
  have u1: "users s1 = [?f example_user]"
    unfolding s1 [symmetric] using st
    by (simp add: kyc_start_def svc_simps example_wallet_norm fake_world_user fake_provider_def FakeKycProvider_def
        fake_createSession_def Let_def falsy_str_def) (simp add: fake_world_def)
  have f1: "user_by_wallet example_wallet s1 = Some (?f example_user)" using st by (simp add: user_by_wallet_def u1)
  obtain s2 where s2: "snd (kyc_status fake_provider example_wallet s1) = s2" by simp
  have auto: "to_lower ''true'' = ''true''" by code_simp
  have "users s2 = [store_user ((?f example_user)\<lparr>kycStatus := ''approved'', kycApprovedAt := Some (now s1)\<rparr>)]"
    unfolding s2 [symmetric]
    by (simp add: kyc_status_def svc_simps example_wallet_norm f1 fake_provider_def FakeKycProvider_def
        fake_getDecision_def falsy_str_def auto) (simp add: u1)
  then have u2: "users s2 = [store_user ((?f example_user)\<lparr>kycStatus := ''approved'', kycApprovedAt := Some (now s1)\<rparr>)]" .
  have "kyc_step fake_provider fake_world s1" "kyc_step fake_provider s1 s2"
    using s1 s2 by (metis kyc_call_start prod.collapse, metis kyc_call_status prod.collapse)
  then have run: "(kyc_step fake_provider)\<^sup>*\<^sup>* fake_world s2" by (rule converse_rtranclp_into_rtranclp [OF _ r_into_rtranclp])
  have "distinct (map user_id (users fake_world))" by (simp add: fake_world_def)
  from kyc_approval [OF run this] have "list_all2 (\<lambda>u v. kycStatus v = ''approved'' \<and> kycStatus u \<noteq> ''approved'' \<longrightarrow>
      (\<exists>t t' a r w sid. kyc_status fake_provider a t = (r, t') \<and> (kyc_step fake_provider)\<^sup>*\<^sup>* t' s2 \<and> w \<in> set (users t) \<and>
        kycSessionId w = Some sid \<and> fst (getDecision fake_provider sid (chain t)) = Inr Kyc_approved)) (users fake_world) (users s2)"
    by (rule list_all2_mono) blast
  moreover have "users fake_world = [example_user]" "kycStatus (store_user ((?f example_user)\<lparr>kycStatus := ''approved'', kycApprovedAt := Some (now s1)\<rparr>)) = ''approved''"
    by (simp_all add: fake_world_def)
  ultimately show ?thesis using u2 st run by (intro exI [of _ s2]) auto
qed

text \<open>
  A number is verified only with the code stored for the wallet before it expires, only when
  no other user has the number, and the code is used up: the same request fails the next time
  and changes nothing.
\<close>

theorem phone_code_sound:
  assumes run: "verifyPhoneOtp a n code s = (Inr (), s')"
    and free: "\<forall>v \<in> set (users s). phone v = Some n \<longrightarrow> normalizeWallet a = Inr (walletAddress v)"
  shows "\<exists>w user expires v e. normalizeWallet a = Inr w \<and> user_by_wallet w s = Some user \<and> phoneOtpCode user = Some code \<and>
    phoneOtpExpiresAt user = Some expires \<and> now s \<le> expires \<and>
    (\<forall>k \<in> set (users s). phone k = Some n \<longrightarrow> user_id k = user_id user) \<and>
    user_by_wallet w s' = Some v \<and> phone v = Some n \<and> phoneVerifiedAt v = Some (now s) \<and>
    verifyPhoneOtp a n code s' = (Inl e, s')"
proof -
  from verifyPhoneOtp_run [OF run] obtain w user expires where u: "normalizeWallet a = Inr w" "user_by_wallet w s = Some user"
    "phoneOtpCode user = Some code" "code \<noteq> []" "phoneOtpExpiresAt user = Some expires" "now s \<le> expires"
    "\<forall>v \<in> set (users s). phone v = Some n \<longrightarrow> user_id v = user_id user" by blast
  have "\<forall>v \<in> set (users s). phone v = Some n \<longrightarrow> walletAddress v = w" using free u(1) by auto
  from verifyPhoneOtp_user [OF u(1,2) this u(7,3,4,5,6)] run obtain v where v: "user_by_wallet w s' = Some v"
    "phone v = Some n" "phoneVerifiedAt v = Some (now s)" "phoneOtpCode v = None" by auto
  have "checkVerification code w s' = (Inr False, s')"
    using checkVerification_run [OF normalizeWallet_fixed [OF u(1)] v(1)] v(4) by simp
  then have "\<exists>e. verifyPhoneOtp a n code s' = (Inl e, s')"
    using u(1) v(1) by (simp add: verifyPhoneOtp_def svc_simps sbind_def [of "checkVerification _ _"])
  with u v show ?thesis by blast
qed

theorem phone_code_sound_witness:
  "\<exists>s s' e. verifyPhoneOtp example_wallet ''+1'' ''550000'' s = (Inr (), s') \<and>
     verifyPhoneOtp example_wallet ''+1'' ''550000'' s' = (Inl e, (s' :: fake_kyc world))"
proof -
  define u where "u = example_user\<lparr>phoneOtpCode := Some ''550000'', phoneOtpExpiresAt := Some 600000\<rparr>"
  define s where "s = fake_world\<lparr>users := [u]\<rparr>"
  have u: "user_by_wallet example_wallet s = Some u" by (simp add: user_by_wallet_def s_def u_def example_user_def)
  have p: "phone u = None" "users s = [u]" "now s \<le> 600000" by (simp_all add: s_def u_def example_user_def fake_world_def)
  have "\<forall>v \<in> set (users s). phone v = Some ''+1'' \<longrightarrow> walletAddress v = example_wallet"
    "\<forall>v \<in> set (users s). phone v = Some ''+1'' \<longrightarrow> user_id v = user_id u" by (simp_all add: p)
  from verifyPhoneOtp_user [OF example_wallet_norm u this _ _ _ p(3), of "''550000''"]
  obtain s' where run: "verifyPhoneOtp example_wallet ''+1'' ''550000'' s = (Inr (), s')" by (auto simp: u_def)
  have "\<forall>v \<in> set (users s). phone v = Some ''+1'' \<longrightarrow> normalizeWallet example_wallet = Inr (walletAddress v)"
    by (simp add: p)
  from phone_code_sound [OF run this] run show ?thesis by blast
qed

text \<open>
  C30. The code is bound to the wallet and not to the number it was sent to: after a code was
  sent to one number, the same wallet verifies any other number nobody has, with that code,
  within ten minutes.
\<close>

theorem phone_code_unbound:
  assumes "verifyPhone kapso r a n s = (Inr (), s1)" and "t \<le> now s + 600000"
    and free: "\<forall>v \<in> set (users s). phone v \<noteq> Some n'"
  shows "\<exists>w s2 v. verifyPhoneOtp a n' (otp_code r) (s1\<lparr>now := t\<rparr>) = (Inr (), s2) \<and> normalizeWallet a = Inr w \<and>
    user_by_wallet w s2 = Some v \<and> phone v = Some n' \<and> phoneVerifiedAt v = Some t"
proof -
  from verifyPhone_run [OF assms(1)] obtain w user v where v: "normalizeWallet a = Inr w" "user_by_wallet w s1 = Some v"
    "phoneOtpCode v = Some (otp_code r)" "phoneOtpExpiresAt v = Some (now s + 600000)"
    and m: "map (\<lambda>u. (user_id u, walletAddress u, phone u)) (users s1) = map (\<lambda>u. (user_id u, walletAddress u, phone u)) (users s)"
    by blast
  have "phone ` set (users s1) = phone ` set (users s)" using arg_cong [OF m, of "\<lambda>xs. (snd \<circ> snd) ` set xs"] by (simp add: image_comp)
  then have f: "\<forall>v \<in> set (users (s1\<lparr>now := t\<rparr>)). phone v \<noteq> Some n'" using free by (metis image_iff world.select_convs(1) world.surjective world.update_convs(4))
  have "user_by_wallet w (s1\<lparr>now := t\<rparr>) = Some v" using v(2) by (simp add: user_by_wallet_def)
  from verifyPhoneOtp_user [OF v(1) this, of n' "otp_code r" "now s + 600000"] f v(3,4) otp_code_nonempty assms(2)
  show ?thesis using v(1) by fastforce
qed

theorem phone_code_unbound_witness:
  "\<exists>s1 s2 v. verifyPhone None (1 / 2) example_wallet ''+1'' fake_world = (Inr (), s1) \<and>
     verifyPhoneOtp example_wallet ''+2'' (otp_code (1 / 2)) (s1\<lparr>now := 1000\<rparr>) = (Inr (), s2) \<and>
     user_by_wallet example_wallet s2 = Some v \<and> phone v = Some ''+2''"
proof -
  have u: "phone example_user = None" "lastPhoneOtpSentAt example_user = None" by (simp_all add: example_user_def)
  have f: "find (\<lambda>u. phone u = Some ''+1'') (users fake_world) = None" by (simp add: fake_world_def u)
  from sendVerification_run [OF example_wallet_norm, of None "1 / 2" "''+1''" fake_world]
  obtain s0 where c: "sendVerification None (1 / 2) ''+1'' example_wallet fake_world = (Inr (), s0)" by (elim exE)
  have "fst (verifyPhone None (1 / 2) example_wallet ''+1'' fake_world) = Inr ()"
    by (simp add: verifyPhone_def svc_simps example_wallet_norm fake_world_user f u c sbind_def [of "sendVerification _ _ _ _"])
  then obtain s1 where run: "verifyPhone None (1 / 2) example_wallet ''+1'' fake_world = (Inr (), s1)"
    by (metis prod.collapse)
  have "\<forall>v \<in> set (users fake_world). phone v \<noteq> Some ''+2''" "1000 \<le> now fake_world + 600000"
    by (simp_all add: fake_world_def example_user_def)
  from phone_code_unbound [OF run this(2,1)] run show ?thesis by (auto simp: example_wallet_norm)
qed

end
