(* ===== verification/Chain_Sync.thy ===== *)
theory Chain_Sync
  imports Loan_Book Identity
begin

text \<open>
  Synchronisation of the tables with the chain, \<open>backend/src/loan/chain-sync.service.ts\<close>, and the
  job processor that calls it (\<open>infrastructure/queue/chain-sync.processor.ts\<close>): the scan of opening
  events, the reconciliation of unsettled loans, the renewal of offers, the late-fee snapshot and
  the recalculation of limits.

  A batch of \<open>Promise.allSettled\<close> runs its tasks in the order of the batch; a task that throws does
  not stop the others. What a task does to the tables does not depend on that order for
  the properties here, which are stated for single tasks, or for tasks in any order. Counters
  that are only logged are left out.
\<close>

section \<open>Constants and helpers\<close>

definition BATCH_SIZE :: nat where "BATCH_SIZE = 5"
definition BATCH_DELAY_MS :: int where "BATCH_DELAY_MS = 200"
definition MAX_BLOCK_RANGE :: int where "MAX_BLOCK_RANGE = 10000"
definition LOAN_START_MATCH_TOLERANCE_SEC :: int where "LOAN_START_MATCH_TOLERANCE_SEC = 60"
definition MAX_RENEWALS :: nat where "MAX_RENEWALS = 25"
definition RATE_REFRESH_INTERVAL_MS :: int where "RATE_REFRESH_INTERVAL_MS = 24 * 60 * 60 * 1000"
definition KNOWN_TESTING_LOANS_COUNT :: int where "KNOWN_TESTING_LOANS_COUNT = 29"

definition sync_sleep :: "int \<Rightarrow> ('c world, unit) svc" where
  "sync_sleep ms = smod (\<lambda>s. s\<lparr>now := now s + ms\<rparr>)"

text \<open>A promise of which only its end is awaited.\<close>

definition settled_svc :: "('s, 'a) svc \<Rightarrow> ('s, unit) svc" where
  "settled_svc m = scatch (sbind m (\<lambda>_. sret ())) (\<lambda>_. sret ())"

text \<open>Batches of tasks, with a pause between two batches.\<close>

function in_batches :: "('a \<Rightarrow> ('c world, 'b) svc) \<Rightarrow> 'a list \<Rightarrow> ('c world, unit) svc" where
  "in_batches f xs =
     (if xs = [] then sret ()
      else
        sbind (smapM (\<lambda>x. settled_svc (f x)) (take BATCH_SIZE xs)) (\<lambda>_.
        if drop BATCH_SIZE xs = [] then sret ()
        else sbind (sync_sleep BATCH_DELAY_MS) (\<lambda>_. in_batches f (drop BATCH_SIZE xs))))"
  by pat_completeness auto
termination by (relation "measure (\<lambda>(f, xs). length xs)") (auto simp: BATCH_SIZE_def)

declare in_batches.simps [simp del]

text \<open>The keys of a \<open>Map\<close> in the order of their first insertion.\<close>

definition first_keys :: "'a list \<Rightarrow> 'a list" where "first_keys xs = rev (remdups (rev xs))"

text \<open>\<open>Repository.update\<close> of a loan by its id.\<close>

definition update_loan :: "nat \<Rightarrow> (Loan \<Rightarrow> Loan) \<Rightarrow> ('c world, unit) svc" where
  "update_loan i f = smod (\<lambda>s. s\<lparr>loans := map (\<lambda>l. if loan_id l = i then store_loan (f l) else l) (loans s)\<rparr>)"

text \<open>The stored limit when it is not zero, else the default.\<close>

definition limit_or_default :: "env \<Rightarrow> User \<Rightarrow> (http_error, rat) result" where
  "limit_or_default env user =
     (case creditLimit user of
        Some l \<Rightarrow> if l \<noteq> 0 then Inr l else rbind (DEFAULT_CREDIT_LIMIT_USDC (BLOCKCHAIN_GATEWAY env)) (\<lambda>n. Inr (num_of_big n))
      | None \<Rightarrow> rbind (DEFAULT_CREDIT_LIMIT_USDC (BLOCKCHAIN_GATEWAY env)) (\<lambda>n. Inr (num_of_big n)))"

text \<open>The limit of a ladder step in base units, as a number.\<close>

definition step_units :: "env \<Rightarrow> CreditLadderStep \<Rightarrow> (http_error, rat) result" where
  "step_units env ladder =
     rbind (toUnits (Num (limitUsdc ladder)) (TOKEN_DECIMALS (BLOCKCHAIN_GATEWAY env))) (\<lambda>n. Inr (num_of_big n))"

definition onTimeLoans_of :: "nat \<Rightarrow> 'c world \<Rightarrow> int" where
  "onTimeLoans_of userId = count_loans (\<lambda>l. loan_userId l = userId \<and> repaidOnTime l)"

section \<open>Reconciling one loan\<close>

definition updateCreditScore ::
    "env \<Rightarrow> 'c BlockchainGatewayPort \<Rightarrow> string \<Rightarrow> nat \<Rightarrow> bool \<Rightarrow> ('c world, unit) svc" where
  "updateCreditScore env gw wallet userId onTime =
     scatch
       (sbind (sget (user_by_id userId)) (\<lambda>found.
        case found of
          None \<Rightarrow> sret ()
        | Some user \<Rightarrow>
            sbind (slift (limit_or_default env user)) (\<lambda>limit.
            if onTime then
              sbind (sget (onTimeLoans_of userId)) (\<lambda>onTimeLoans.
              let ladder = getStepForOnTimeLoans onTimeLoans;
                  user' = (if xpBase ladder > xp user then user\<lparr>xp := xpBase ladder\<rparr> else user)
              in sbind (slift (step_units env ladder)) (\<lambda>target.
                 sbind (publish_credit gw wallet user' (step_score ladder) (max limit target)) (\<lambda>_. sret ())))
            else sbind (publish_credit gw wallet user (nullish (score user) 1) limit) (\<lambda>_. sret ()))))
       (\<lambda>_. sret ())"

text \<open>The loan as the closing event says it ended.\<close>

definition reconciled_loan :: "env \<Rightarrow> Loan \<Rightarrow> ChainLoanClosedEvent \<Rightarrow> Loan" where
  "reconciled_loan env loan e =
     (let paid = fdiv (num_of_big (ce_amountPaid e)) (10 ^ TOKEN_DECIMALS (BLOCKCHAIN_GATEWAY env));
          closed = ce_timestamp e * 1000;
          onTime = closed \<le> dueAt loan + REPAID_ON_TIME_GRACE_MS;
          closedAfter24hGrace = closed - dueAt loan > 24 * 60 * 60 * 1000;
          paidExtra = fsub paid (fl (amountDueAtOpen loan))
      in loan\<lparr>amountPaid := paid, closeTxHash := Some (ce_txHash e), closedAt := Some closed,
           repaidOnTime := onTime, status := (if onTime then REPAID_ON_TIME else REPAID_LATE), syncedByChain := True,
           lateFeesCollectedUsd := Some (if \<not> onTime \<and> closedAfter24hGrace \<and> paidExtra > 0 then paidExtra else 0)\<rparr>)"

text \<open>A loan of the borrower that started after this one and not after the event.\<close>

definition closer_to :: "Loan \<Rightarrow> ChainLoanClosedEvent \<Rightarrow> Loan \<Rightarrow> bool" where
  "closer_to loan e l \<longleftrightarrow> borrowerAddress l = borrowerAddress loan \<and> startAt loan + 1 \<le> startAt l \<and>
     startAt l \<le> ce_timestamp e * 1000"

definition other_row :: "Loan option \<Rightarrow> Loan \<Rightarrow> bool" where
  "other_row found loan = (case found of None \<Rightarrow> False | Some l \<Rightarrow> loan_id l \<noteq> loan_id loan)"

definition reconcile_transaction ::
    "env \<Rightarrow> nat \<Rightarrow> ChainLoanClosedEvent option \<Rightarrow> ('c world, Loan option) svc" where
  "reconcile_transaction env i eventData =
     transaction (
       sbind (sget (\<lambda>s. find (\<lambda>l. loan_id l = i) (loans s))) (\<lambda>fresh.
       case fresh of
         None \<Rightarrow> sret None
       | Some freshLoan \<Rightarrow>
           if \<not> falsy_str (closeTxHash freshLoan) then sret None
           else if status freshLoan \<notin> {OPEN, DEFAULTED, DEFAULTED_IN_GRACE, REPAID_ON_TIME, REPAID_LATE} then sret None
           else
             (case eventData of
                None \<Rightarrow> sret None
              | Some e \<Rightarrow>
                  sbind (sget (\<lambda>s. newest startAt (closer_to freshLoan e) (loans s))) (\<lambda>closerLoan.
                  if other_row closerLoan freshLoan then sret None
                  else
                    sbind (sget (\<lambda>s. find (\<lambda>l. closeTxHash l = Some (ce_txHash e)) (loans s))) (\<lambda>existingByCloseTx.
                    if other_row existingByCloseTx freshLoan then sret None
                    else
                      sbind (save_loan (reconciled_loan env freshLoan e)) (\<lambda>_.
                      sret (Some (reconciled_loan env freshLoan e))))))))"

definition reconcileLoan ::
    "env \<Rightarrow> 'c BlockchainGatewayPort \<Rightarrow> int \<Rightarrow> Loan \<Rightarrow> User \<Rightarrow> ('c world, bool) svc" where
  "reconcileLoan env gw currentBlock loan user =
     sbind (chain_read (findLoanClosedEvent gw (borrowerAddress loan) (startAt loan) currentBlock)) (\<lambda>eventData.
     sbind (reconcile_transaction env (loan_id loan) eventData) (\<lambda>result.
     case result of
       None \<Rightarrow> sret False
     | Some freshLoan \<Rightarrow>
         sbind (updateCreditScore env gw (borrowerAddress loan) (user_id user) (repaidOnTime freshLoan)) (\<lambda>_.
         sret True)))"

section \<open>Reconciling all loans\<close>

definition getOnChainLoan :: "'c BlockchainGatewayPort \<Rightarrow> string \<Rightarrow> ('c world, bool \<times> int) svc" where
  "getOnChainLoan gw borrower =
     sbind (chain_read (readLoanFull gw borrower)) (\<lambda>result.
     case result of
       None \<Rightarrow> sthrow (RuntimeError (''Could not read on-chain loan for '' @ borrower))
     | Some l \<Rightarrow> sret (cl_active l, cl_start l))"

text \<open>
  The loans of one address, newest first, each with its user. With \<open>tolerant\<close> an error on
  one loan does not stop the rest.
\<close>

fun reconcile_each ::
    "env \<Rightarrow> 'c BlockchainGatewayPort \<Rightarrow> int \<Rightarrow> bool \<Rightarrow> (Loan \<times> User option) list \<Rightarrow> bool \<Rightarrow> ('c world, bool) svc" where
  "reconcile_each env gw currentBlock tolerant [] anyReconciled = sret anyReconciled"
| "reconcile_each env gw currentBlock tolerant ((loan, owner) # rest) anyReconciled =
     (case owner of
        None \<Rightarrow> reconcile_each env gw currentBlock tolerant rest anyReconciled
      | Some user \<Rightarrow>
          sbind (if tolerant then scatch (reconcileLoan env gw currentBlock loan user) (\<lambda>_. sret False)
                 else reconcileLoan env gw currentBlock loan user) (\<lambda>did.
          reconcile_each env gw currentBlock tolerant rest (anyReconciled \<or> did)))"

definition sync_address ::
    "env \<Rightarrow> 'c BlockchainGatewayPort \<Rightarrow> int \<Rightarrow> (Loan \<times> User option) list \<Rightarrow> ('c world, bool) svc" where
  "sync_address env gw currentBlock rows =
     (let (representative, owner) = hd rows
      in if owner = None then sret False
         else
           sbind (getOnChainLoan gw (borrowerAddress representative)) (\<lambda>(active, start).
           if active then
             (let latestDbIsChainCurrent = \<bar>start - startAt representative div 1000\<bar> \<le> LOAN_START_MATCH_TOLERANCE_SEC;
                  ghosts = (if latestDbIsChainCurrent then tl rows else rows)
              in if ghosts = [] then sret False else reconcile_each env gw currentBlock True ghosts False)
           else reconcile_each env gw currentBlock False rows False))"

definition unsettled :: "Loan \<Rightarrow> bool" where
  "unsettled l \<longleftrightarrow> status l \<in> {OPEN, DEFAULTED, DEFAULTED_IN_GRACE} \<and> closeTxHash l = None \<or>
     status l \<in> {REPAID_ON_TIME, REPAID_LATE} \<and> closeTxHash l = None"

definition unsettledLoans :: "'c world \<Rightarrow> (Loan \<times> User option) list" where
  "unsettledLoans s =
     map (\<lambda>l. (l, user_by_id (loan_userId l) s)) (sort_key (\<lambda>l. - startAt l) (filter unsettled (loans s)))"

definition loansByAddress :: "(Loan \<times> User option) list \<Rightarrow> (Loan \<times> User option) list list" where
  "loansByAddress rows =
     map (\<lambda>addr. filter (\<lambda>(l, u). borrowerAddress l = addr) rows) (first_keys (map (\<lambda>(l, u). borrowerAddress l) rows))"

definition syncLoansWithChain :: "env \<Rightarrow> 'c BlockchainGatewayPort \<Rightarrow> ('c world, unit) svc" where
  "syncLoansWithChain env gw =
     scatch
       (sbind (sget unsettledLoans) (\<lambda>rows.
        if rows = [] then sret ()
        else
          sbind (chain_read (getLatestLedger gw)) (\<lambda>currentBlock.
          in_batches (sync_address env gw currentBlock) (loansByAddress rows))))
       (\<lambda>_. sret ())"

section \<open>The scan of opening events\<close>

text \<open>
  The scanner keeps the row \<open>loan_opened\<close> of \<open>chain_scan_cursor\<close> and the processor the table of
  metrics, beside the world of the services.
\<close>

record 'c sync =
  base :: "'c world"
  cursor :: "int option"
  metrics :: "string \<rightharpoonup> rat"

definition in_base :: "('c world, 'a) svc \<Rightarrow> ('c sync, 'a) svc" where
  "in_base m s = (case m (base s) of (r, b) \<Rightarrow> (r, s\<lparr>base := b\<rparr>))"

definition missing_loan :: "env \<Rightarrow> User \<Rightarrow> ChainLoanOpenedEvent \<Rightarrow> string \<Rightarrow> Loan" where
  "missing_loan env user event wallet =
     (let unit_size = 10 ^ TOKEN_DECIMALS (BLOCKCHAIN_GATEWAY env)
      in \<lparr>loan_id = 0, loan_userId = user_id user, borrowerAddress = wallet,
          principal = fdiv (num_of_big (oe_principal event)) unit_size,
          amountDueAtOpen = fdiv (num_of_big (oe_amountDue event)) unit_size, amountPaid = 0,
          tenorDays = js_round (fdiv (of_int (oe_due event - oe_timestamp event)) 86400), feeBps = oe_feeBps event,
          startAt = oe_timestamp event * 1000, dueAt = oe_due event * 1000, closedAt = None, status = OPEN,
          repaidOnTime = False, openTxHash = Some (oe_txHash event), closeTxHash = None, syncedByChain = True,
          loan_lateRatePerSecWad = None, gracePeriodSec = None, lateFeesCurrentUsd = None, lateFeesSnapshotAt = None,
          lateFeesCollectedUsd = None, loan_createdAt = 0\<rparr>)"

text \<open>The answer says whether a row was inserted; a clash with a unique index inserts nothing.\<close>

definition insertMissingLoan :: "env \<Rightarrow> ChainLoanOpenedEvent \<Rightarrow> string \<Rightarrow> ('c world, bool) svc" where
  "insertMissingLoan env event wallet =
     sbind (sget (\<lambda>s. find (\<lambda>l. openTxHash l = Some (oe_txHash event)) (loans s))) (\<lambda>existing.
     if existing \<noteq> None then sret False
     else
       sbind (sget (user_by_wallet wallet)) (\<lambda>found.
       case found of
         None \<Rightarrow> sret False
       | Some user \<Rightarrow>
           scatch (sbind (insert_loan (missing_loan env user event wallet)) (\<lambda>_. sret True))
             (\<lambda>e. if e = unique_violation then sret False else sthrow e)))"

record scan_result =
  sc_scanned :: nat
  sc_inserted :: nat
  sc_skipped :: nat
  sc_errors :: nat

fun insert_events :: "env \<Rightarrow> ChainLoanOpenedEvent list \<Rightarrow> scan_result \<Rightarrow> ('c world, scan_result) svc" where
  "insert_events env [] n = sret n"
| "insert_events env (event # events) n =
     sbind (scatch (sbind (insertMissingLoan env event (oe_borrower event)) (\<lambda>did.
                    sret (if did then n\<lparr>sc_inserted := sc_inserted n + 1\<rparr> else n\<lparr>sc_skipped := sc_skipped n + 1\<rparr>)))
              (\<lambda>_. sret (n\<lparr>sc_errors := sc_errors n + 1\<rparr>))) (\<lambda>n'.
     insert_events env events n')"

definition save_cursor :: "int \<Rightarrow> ('c sync, unit) svc" where
  "save_cursor block = smod (\<lambda>s. s\<lparr>cursor := Some block\<rparr>)"

text \<open>The block to start after; a cursor at genesis is moved close to the present.\<close>

definition scan_from :: "int \<Rightarrow> ('c sync, int) svc" where
  "scan_from currentBlock =
     sbind (sget cursor) (\<lambda>stored.
     if nullish stored 0 = 0
     then sbind (save_cursor (max 0 (currentBlock - 100000))) (\<lambda>_. sret (max 0 (currentBlock - 100000)))
     else sret (nullish stored 0))"

definition scanLoanOpenedEvents :: "env \<Rightarrow> 'c BlockchainGatewayPort \<Rightarrow> ('c sync, scan_result) svc" where
  "scanLoanOpenedEvents env gw =
     scatch
       (sbind (in_base (chain_read (getLatestLedger gw))) (\<lambda>currentBlock.
        sbind (scan_from currentBlock) (\<lambda>fromBlock.
        if fromBlock \<ge> currentBlock
        then sret \<lparr>sc_scanned = 0, sc_inserted = 0, sc_skipped = 0, sc_errors = 0\<rparr>
        else
          (let toBlock = min (fromBlock + MAX_BLOCK_RANGE) currentBlock
           in sbind (in_base (chain_read (getLoanOpenedEvents gw (fromBlock + 1) toBlock))) (\<lambda>events.
              sbind (in_base (insert_events env events
                       \<lparr>sc_scanned = length events, sc_inserted = 0, sc_skipped = 0, sc_errors = 0\<rparr>)) (\<lambda>counts.
              sbind (save_cursor toBlock) (\<lambda>_. sret counts)))))))
       (\<lambda>_. sret \<lparr>sc_scanned = 0, sc_inserted = 0, sc_skipped = 0, sc_errors = 1\<rparr>)"

text \<open>
  The parity metric. \<open>fetch_stat\<close> is the answer of the subgraph: an error, or whether its status is
  fine and the number of originated loans, \<open>None\<close> when it is not a finite number.
\<close>

definition save_metric :: "string \<Rightarrow> rat \<Rightarrow> ('c sync, unit) svc" where
  "save_metric name v = smod (\<lambda>s. s\<lparr>metrics := (metrics s)(name \<mapsto> v)\<rparr>)"

definition computeDbChainDiff ::
    "env \<Rightarrow> (http_error, bool \<times> rat option) result \<Rightarrow> ('c sync, rat option) svc" where
  "computeDbChainDiff env fetch_stat =
     (if to_lower (nullish (BLOCKCHAIN_GATEWAY env) []) = ''soroban'' then sret None
      else
        (case fetch_stat of
           Inl e \<Rightarrow> sret None
         | Inr (ok, stat) \<Rightarrow>
             if \<not> ok then sret None
             else
               (case stat of
                  None \<Rightarrow> sret None
                | Some subgraphCount \<Rightarrow>
                    sbind (sget (\<lambda>s. length (loans (base s)))) (\<lambda>dbCount.
                    let rawDiff = fsub subgraphCount (of_nat dbCount);
                        effectiveDiff = fsub rawDiff (of_int KNOWN_TESTING_LOANS_COUNT)
                    in sbind (save_metric ''db_chain_loan_diff'' effectiveDiff) (\<lambda>_.
                       sbind (save_metric ''db_chain_loan_diff_raw'' rawDiff) (\<lambda>_.
                       sret (Some effectiveDiff)))))))"

section \<open>Renewal of offers\<close>

definition renew_offer :: "env \<Rightarrow> 'c BlockchainGatewayPort \<Rightarrow> int \<Rightarrow> User \<Rightarrow> ('c world, nat) svc" where
  "renew_offer env gw renewThreshold user =
     (if walletAddress user = [] then sret 0
      else
        scatch
          (sbind (chain_read (readUserRisk gw (walletAddress user))) (\<lambda>onChain.
           let validUntil = (case onChain of None \<Rightarrow> 0 | Some r \<Rightarrow> ur_validUntil r)
           in if validUntil = 0 \<or> validUntil > renewThreshold then sret 0
              else
                sbind (slift (limit_or_default env user)) (\<lambda>limit.
                sbind (slift (big_of_num limit)) (\<lambda>units.
                sbind (chain_write (giveCreditScoreAndLimit gw (walletAddress user) (nullish (score user) 1) units)) (\<lambda>_.
                sret 1)))))
          (\<lambda>_. sret 0))"

text \<open>
  The tasks of a batch test the number of renewals before their first \<open>await\<close>, so all of them
  see its value at the start of the batch.
\<close>

function renew_batches ::
    "env \<Rightarrow> 'c BlockchainGatewayPort \<Rightarrow> int \<Rightarrow> User list \<Rightarrow> nat \<Rightarrow> ('c world, nat) svc" where
  "renew_batches env gw renewThreshold us renewed =
     (if us = [] \<or> renewed \<ge> MAX_RENEWALS then sret renewed
      else
        sbind (smapM (renew_offer env gw renewThreshold) (take BATCH_SIZE us)) (\<lambda>ns.
        if drop BATCH_SIZE us = [] then sret (renewed + sum_list ns)
        else
          sbind (sync_sleep BATCH_DELAY_MS) (\<lambda>_.
          renew_batches env gw renewThreshold (drop BATCH_SIZE us) (renewed + sum_list ns))))"
  by pat_completeness auto
termination by (relation "measure (\<lambda>(env, gw, t, us, n). length us)") (auto simp: BATCH_SIZE_def)

declare renew_batches.simps [simp del]

definition verifiedUsers :: "'c world \<Rightarrow> User list" where
  "verifiedUsers s = filter (\<lambda>u. score u \<noteq> None) (users s)"

definition renewExpiredOffers :: "env \<Rightarrow> 'c BlockchainGatewayPort \<Rightarrow> ('c world, nat) svc" where
  "renewExpiredOffers env gw =
     sbind (sget verifiedUsers) (\<lambda>us.
     sbind (sget now) (\<lambda>clock.
     renew_batches env gw (clock div 1000 + 3 * 24 * 60 * 60) us 0))"

section \<open>The late-fee snapshot\<close>

text \<open>The rate and the grace period: cached, or read again; \<open>None\<close> when a read has no answer.\<close>

definition late_terms :: "'c BlockchainGatewayPort \<Rightarrow> Loan \<Rightarrow> ('c world, (int \<times> int) option) svc" where
  "late_terms gw loan =
     sbind (sget now) (\<lambda>clock.
     let snapshotAt = nullish (lateFeesSnapshotAt loan) 0;
         isStale = (loan_lateRatePerSecWad loan = None \<or> gracePeriodSec loan = None \<or> clock - snapshotAt > RATE_REFRESH_INTERVAL_MS)
     in if isStale then
          sbind (chain_read (readPremium gw (borrowerAddress loan))) (\<lambda>premium.
          sbind (chain_read (readLoanFull gw (borrowerAddress loan))) (\<lambda>loanFull.
          case (premium, loanFull) of
            (Some p, Some l) \<Rightarrow> sret (Some (lateRatePerSecWad p, cl_gracePeriod l))
          | _ \<Rightarrow> sret None))
        else sret (Some (the (loan_lateRatePerSecWad loan), the (gracePeriodSec loan))))"

definition snapshot_loan :: "'c BlockchainGatewayPort \<Rightarrow> int \<Rightarrow> Loan \<Rightarrow> ('c world, unit) svc" where
  "snapshot_loan gw clock loan =
     sbind (late_terms gw loan) (\<lambda>terms.
     case terms of
       None \<Rightarrow> sret ()
     | Some (rate, grace) \<Rightarrow>
         (let result = computeLateFees clock
                \<lparr>lf_amountDueAtOpenUsd = fl (amountDueAtOpen loan), lf_dueAtUnixSec = dueAt loan div 1000,
                 lf_ratePerSecWad = rate, lf_gracePeriodSec = grace, lf_nowUnixSec = Some (clock div 1000)\<rparr>
          in update_loan (loan_id loan) (\<lambda>l. l\<lparr>loan_lateRatePerSecWad := Some rate, gracePeriodSec := Some grace,
               lateFeesCurrentUsd := Some (lateFeesUsd result), lateFeesSnapshotAt := Some clock\<rparr>)))"

definition overdueLoans :: "'c world \<Rightarrow> Loan list" where
  "overdueLoans s = filter (\<lambda>l. status l = OPEN \<and> dueAt l < now s) (loans s)"

definition syncLateFeesSnapshot :: "'c BlockchainGatewayPort \<Rightarrow> ('c world, unit) svc" where
  "syncLateFeesSnapshot gw =
     sbind (sget now) (\<lambda>clock.
     sbind (sget overdueLoans) (\<lambda>rows.
     in_batches (snapshot_loan gw clock) rows))"

section \<open>Recalculation of limits\<close>

datatype recalc = Recalc_chain | Recalc_db | Recalc_skip | Recalc_error

definition chain_score_limit :: "ChainRisk option \<Rightarrow> int \<times> rat" where
  "chain_score_limit r = (case r of None \<Rightarrow> (0, 0) | Some x \<Rightarrow> (ur_score x, num_of_big (ur_limit x)))"

definition store_step :: "User \<Rightarrow> CreditLadderStep \<Rightarrow> rat \<Rightarrow> ('c world, unit) svc" where
  "store_step user ladder units =
     update_user (user_id user) (\<lambda>u. u\<lparr>xp := (if xpBase ladder > xp user then xpBase ladder else xp u),
       score := Some (step_score ladder), creditLimit := Some units\<rparr>)"

definition recalcUser :: "env \<Rightarrow> 'c BlockchainGatewayPort \<Rightarrow> bool \<Rightarrow> User \<Rightarrow> ('c world, recalc) svc" where
  "recalcUser env gw checkChain user =
     (if walletAddress user = [] then sret Recalc_skip
      else
        scatch
          (sbind (sget (onTimeLoans_of (user_id user))) (\<lambda>onTimeLoans.
           let ladder = getStepForOnTimeLoans onTimeLoans
           in sbind (slift (step_units env ladder)) (\<lambda>correctLimitUnits.
              let dbInSync = (nullish (score user) 1 = step_score ladder \<and> nullish (creditLimit user) 0 = correctLimitUnits)
              in if checkChain then
                   sbind (chain_read (readUserRisk gw (walletAddress user))) (\<lambda>onChain.
                   let chainInSync = (chain_score_limit onChain = (step_score ladder, correctLimitUnits))
                   in if chainInSync \<and> dbInSync then sret Recalc_skip
                      else
                        sbind (if chainInSync then sret True
                               else
                                 sbind (slift (big_of_num correctLimitUnits)) (\<lambda>units.
                                 sbind (chain_write (giveCreditScoreAndLimit gw (walletAddress user) (step_score ladder) units)) (\<lambda>result.
                                 sret (result = 200)))) (\<lambda>ok.
                        if \<not> ok then sret Recalc_error
                        else
                          sbind (if dbInSync then sret () else store_step user ladder correctLimitUnits) (\<lambda>_.
                          sret (if chainInSync then Recalc_db else Recalc_chain))))
                 else if dbInSync then sret Recalc_skip
                 else sbind (store_step user ladder correctLimitUnits) (\<lambda>_. sret Recalc_db))))
          (\<lambda>_. sret Recalc_error))"

text \<open>One read of the chain per level decides whether the level is checked there.\<close>

definition levelNeedsChainUpdate :: "env \<Rightarrow> 'c BlockchainGatewayPort \<Rightarrow> User list \<Rightarrow> ('c world, bool) svc" where
  "levelNeedsChainUpdate env gw us =
     (let canary = nullish (find (\<lambda>u. walletAddress u \<noteq> []) us) (hd us)
      in if walletAddress canary = [] then sret False
         else
           scatch
             (sbind (sget (onTimeLoans_of (user_id canary))) (\<lambda>canaryOnTime.
              let canaryStep = getStepForOnTimeLoans canaryOnTime
              in sbind (slift (step_units env canaryStep)) (\<lambda>canaryLimitUnits.
                 sbind (chain_read (readUserRisk gw (walletAddress canary))) (\<lambda>onChain.
                 sret (chain_score_limit onChain \<noteq> (step_score canaryStep, canaryLimitUnits))))))
             (\<lambda>_. sret True))"

definition byScore :: "User list \<Rightarrow> User list list" where
  "byScore us = map (\<lambda>n. filter (\<lambda>u. nullish (score u) 1 = n) us) (first_keys (map (\<lambda>u. nullish (score u) 1) us))"

definition recalc_level :: "env \<Rightarrow> 'c BlockchainGatewayPort \<Rightarrow> User list \<Rightarrow> ('c world, recalc list) svc" where
  "recalc_level env gw us =
     sbind (levelNeedsChainUpdate env gw us) (\<lambda>checkChain.
     smapM (recalcUser env gw checkChain) us)"

definition recalculateAllLimits :: "env \<Rightarrow> 'c BlockchainGatewayPort \<Rightarrow> ('c world, recalc list list) svc" where
  "recalculateAllLimits env gw =
     sbind (sget verifiedUsers) (\<lambda>us. smapM (recalc_level env gw) (byScore us))"

section \<open>The job processor\<close>

datatype sync_job = Sync_loans | Renew_offers | Recalculate_limits | Sync_late_fees | Unknown_job string

definition process_sync_job ::
    "env \<Rightarrow> 'c BlockchainGatewayPort \<Rightarrow> (http_error, bool \<times> rat option) result \<Rightarrow> sync_job \<Rightarrow> ('c sync, unit) svc" where
  "process_sync_job env gw fetch_stat job =
     (case job of
        Sync_loans \<Rightarrow>
          sbind (scanLoanOpenedEvents env gw) (\<lambda>_.
          sbind (in_base (syncLoansWithChain env gw)) (\<lambda>_.
          sbind (scatch (computeDbChainDiff env fetch_stat) (\<lambda>_. sret None)) (\<lambda>_.
          sret ())))
      | Renew_offers \<Rightarrow> sbind (in_base (renewExpiredOffers env gw)) (\<lambda>_. sret ())
      | Recalculate_limits \<Rightarrow> sbind (in_base (recalculateAllLimits env gw)) (\<lambda>_. sret ())
      | Sync_late_fees \<Rightarrow> in_base (syncLateFeesSnapshot gw)
      | Unknown_job name \<Rightarrow> sret ())"

end
