(* ===== verification/Chain_Book.thy ===== *)
theory Chain_Book
  imports Chain_Sync
begin

text \<open>
  What the synchronisation of \<open>Chain_Sync\<close> does to the tables: the keys of the loan table and the life of its rows over any
  interleaving with the handlers, the reconciliation of a loan, the scan of opening events, the cap of
  the renewals, the recalculation of limits and the late-fee snapshot.
\<close>

section \<open>The keys of the loan table\<close>

definition no_clash :: "Loan \<Rightarrow> Loan \<Rightarrow> bool" where
  "no_clash l k \<longleftrightarrow> loan_id l = loan_id k \<or>
     (openTxHash l = None \<or> openTxHash l \<noteq> openTxHash k) \<and> (closeTxHash l = None \<or> closeTxHash l \<noteq> closeTxHash k)"

definition wf_keys :: "Loan list \<Rightarrow> bool" where
  "wf_keys rows \<longleftrightarrow> distinct (map loan_id rows) \<and> (\<forall>l \<in> set rows. \<forall>k \<in> set rows. no_clash l k)"

lemma no_clash_sym: "no_clash l k \<Longrightarrow> no_clash k l"
  by (auto simp: no_clash_def)

lemma store_loan_keys [simp]:
  "loan_id (store_loan l) = loan_id l" "openTxHash (store_loan l) = openTxHash l" "closeTxHash (store_loan l) = closeTxHash l"
  by (simp_all add: store_loan_def)

lemma no_clash_store [simp]: "no_clash (store_loan l) k = no_clash l k" "no_clash k (store_loan l) = no_clash k l" "no_clash l l"
  by (simp_all add: no_clash_def)

lemma not_hash_clash: "\<not> hash_clash l rows \<Longrightarrow> k \<in> set rows \<Longrightarrow> no_clash l k"
  by (auto simp: hash_clash_def list_ex_iff no_clash_def)

lemma wf_keys_put:
  assumes "wf_keys rows" "\<not> hash_clash l rows"
  shows "wf_keys (put_row loan_id (store_loan l) rows)"
  using assms not_hash_clash [OF assms(2)] no_clash_sym by (auto simp: wf_keys_def set_put_row)

lemma wf_keys_snoc:
  assumes "wf_keys rows" "\<not> hash_clash l rows" "loan_id l \<notin> loan_id ` set rows"
  shows "wf_keys (rows @ [store_loan l])"
  using assms not_hash_clash [OF assms(2)] no_clash_sym by (auto simp: wf_keys_def)

lemma wf_keys_map:
  assumes "wf_keys rows" "\<And>l. loan_id (f l) = loan_id l \<and> openTxHash (f l) = openTxHash l \<and> closeTxHash (f l) = closeTxHash l"
  shows "wf_keys (map f rows)"
proof -
  have "loan_id \<circ> f = loan_id" using assms(2) by (simp add: fun_eq_iff)
  then show ?thesis using assms by (simp add: wf_keys_def no_clash_def)
qed

text \<open>
  The invariant of the loan table under the handlers and the jobs: its keys, and the life of every row
  (\<open>loan_life\<close>), which each handler that writes a row has to respect.
\<close>

definition book_ok :: "Loan list \<Rightarrow> bool" where
  "book_ok rows \<longleftrightarrow> wf_keys rows \<and> (\<forall>l \<in> set rows. loan_life l)"

lemma loan_life_sync [simp]: "loan_life (reconciled_loan env l e)" "loan_life (missing_loan env user ev w)"
  by (auto simp: loan_life_def reconciled_loan_def missing_loan_def REPAID_ON_TIME_GRACE_MS_def Let_def)

lemma loan_life_id [simp]: "\<not> autoclosed l \<Longrightarrow> loan_life l \<Longrightarrow> loan_life (l\<lparr>loan_id := i, loan_createdAt := t\<rparr>)"
  by (auto simp: loan_life_def autoclosed_def split: option.splits)

lemma not_autoclosed [simp]: "\<not> autoclosed (new_loan u w p a t f c h)" "\<not> autoclosed (missing_loan env user ev w)"
  by (simp_all add: autoclosed_def new_loan_def missing_loan_def Let_def)

lemma loan_life_fees: "loan_life (l\<lparr>loan_lateRatePerSecWad := a, gracePeriodSec := b, lateFeesCurrentUsd := c, lateFeesSnapshotAt := d\<rparr>) = loan_life l"
  by (simp add: loan_life_def autoclosed_def split: option.split)

lemma book_ok_put:
  assumes "book_ok rows" "\<not> hash_clash l rows" "loan_life l"
  shows "book_ok (put_row loan_id (store_loan l) rows)"
  using assms wf_keys_put store_loan_life by (auto simp: book_ok_def set_put_row)

lemma book_ok_snoc:
  assumes "book_ok rows" "\<not> hash_clash l rows" "loan_id l \<notin> loan_id ` set rows" "loan_life l"
  shows "book_ok (rows @ [store_loan l])"
  using assms wf_keys_snoc store_loan_life by (auto simp: book_ok_def)

definition keys_kept :: "'c world \<Rightarrow> 'c world \<Rightarrow> bool" where
  "keys_kept s t \<longleftrightarrow> (book_ok (loans s) \<longrightarrow> book_ok (loans t))"

interpretation keys: world_frame keys_kept
  by unfold_locales (auto simp: keys_kept_def)

lemma keys_step [intro, simp]: "keys.keeps (chain_read p)" "keys.keeps (chain_write q)" "keys.keeps (save_user u)"
    "keys.keeps (update_user i f)" "keys.keeps (sync_sleep ms)"
  by (auto simp: keys.keeps_def keys_kept_def chain_read_def chain_write_def save_user_def update_user_def smod_def
      sync_sleep_def split: prod.split)

text \<open>A handler that writes a row has to write one with a consistent life.\<close>

lemma keys_save [intro!]: "loan_life l \<Longrightarrow> keys.keeps (save_loan l)"
  by (auto simp: keys.keeps_def keys_kept_def save_loan_def intro!: book_ok_put)

lemma keys_insert [intro!]: "loan_life l \<Longrightarrow> \<not> autoclosed l \<Longrightarrow> keys.keeps (insert_loan l)"
  by (auto simp: keys.keeps_def keys_kept_def insert_loan_def Let_def intro!: book_ok_snoc
      dest: fresh_id_bound [where key = loan_id])

lemma keys_transaction [intro]: "keys.keeps m \<Longrightarrow> keys.keeps (transaction m)"
  by (auto simp: keys.keeps_def keys_kept_def transaction_def split: sum.split prod.split)

lemma keys_update_loan [intro]:
  assumes "\<And>l. loan_id (f l) = loan_id l \<and> openTxHash (f l) = openTxHash l \<and> closeTxHash (f l) = closeTxHash l"
    and "\<And>l. loan_life l \<Longrightarrow> loan_life (f l)"
  shows "keys.keeps (update_loan i f)"
  using assms by (auto simp: keys.keeps_def keys_kept_def update_loan_def smod_def book_ok_def intro!: wf_keys_map store_loan_life)

lemma keys_publish [intro]: "keys.keeps (publish_credit gw w u n l)"
  unfolding publish_credit_def Let_def by (intro keys.keeps_catch keys.keeps_bind keys.keeps_if keys.keeps_ret keys_step)

lemma keys_borrow [intro]: "keys.keeps (borrow env gw dto)"
  using borrow_tables [of env gw dto] by (auto simp: tables.keeps_def keys.keeps_def same_tables_def keys_kept_def)

lemma keys_open [intro]: "keys.keeps (informLoanOpened env gw dto)"
  unfolding informLoanOpened_def open_transaction_def assertLoanOpenedTxValid_def priced_fee_def Let_def
  by (auto intro!: keys.keeps_bind keys.keeps_if keys.keeps_catch keys_transaction keys.keeps_mapM split: option.split)

lemma keys_repay [intro]: "keys.keeps (processRepayment env gw dto)"
  unfolding processRepayment_def record_repayment_def confirm_repay_def verify_by_txHash_def assert_closed_on_chain_def
    close_transaction_def settle_user_def reward_on_time_def penalize_post_default_def renew_late_def Let_def
  by (auto intro!: keys.keeps_bind keys.keeps_if keys.keeps_catch keys_transaction keys_publish
      split: option.split repay_check.split repay_reason.split prod.split)


lemma keys_sync_tasks [intro]:
  "keys.keeps (updateCreditScore env gw w i b)" "keys.keeps (reconcile_transaction env i e)" "keys.keeps (reconcileLoan env gw b' loan user)"
  "keys.keeps (insertMissingLoan env ev w)" "keys.keeps (snapshot_loan gw clock loan)" "keys.keeps (recalcUser env gw b user)"
  "keys.keeps (renew_offer env gw t user)"
proof -
  show c: "keys.keeps (updateCreditScore env gw w i b)" for w i b
    unfolding updateCreditScore_def Let_def
    by (auto intro!: keys.keeps_bind keys.keeps_if keys.keeps_catch keys_publish split: option.split)
  show t: "keys.keeps (reconcile_transaction env i e)" for i e
    unfolding reconcile_transaction_def
    by (auto intro!: keys.keeps_bind keys.keeps_if keys_transaction split: option.split)
  show "keys.keeps (reconcileLoan env gw b' loan user)"
    unfolding reconcileLoan_def by (auto intro!: keys.keeps_bind c t split: option.split)
  show "keys.keeps (insertMissingLoan env ev w)"
    unfolding insertMissingLoan_def by (auto intro!: keys.keeps_bind keys.keeps_if keys.keeps_catch split: option.split)
  show "keys.keeps (snapshot_loan gw clock loan)"
    unfolding snapshot_loan_def late_terms_def Let_def
    by (auto intro!: keys.keeps_bind keys.keeps_if keys_update_loan simp: loan_life_fees split: option.split prod.split)
  show "keys.keeps (recalcUser env gw b user)"
    unfolding recalcUser_def store_step_def Let_def by (auto intro!: keys.keeps_bind keys.keeps_if keys.keeps_catch)
  show "keys.keeps (renew_offer env gw t user)"
    unfolding renew_offer_def Let_def by (auto intro!: keys.keeps_bind keys.keeps_if keys.keeps_catch split: option.split)
qed

lemma keys_settled: "keys.keeps m \<Longrightarrow> keys.keeps (settled_svc m)"
  unfolding settled_svc_def by (auto intro!: keys.keeps_catch keys.keeps_bind)

lemma keys_batches:
  assumes "\<And>x. keys.keeps (f x)"
  shows "keys.keeps (in_batches f xs)"
  using assms
proof (induction f xs rule: in_batches.induct)
  case (1 f xs)
  then show ?case
    by (subst in_batches.simps) (auto intro!: keys.keeps_if keys.keeps_bind keys.keeps_mapM keys_settled)
qed

lemma keys_reconcile_each: "keys.keeps (reconcile_each env gw b tolerant rows any)"
  by (induction rows arbitrary: any)
    (auto intro!: keys.keeps_bind keys.keeps_if keys.keeps_catch keys_sync_tasks split: option.split)

lemma keys_sync_loans: "keys.keeps (syncLoansWithChain env gw)"
proof -
  have "keys.keeps (sync_address env gw b rows)" for b rows
    unfolding sync_address_def getOnChainLoan_def Let_def
    by (auto intro!: keys.keeps_bind keys.keeps_if keys_reconcile_each split: option.split prod.split)
  then show ?thesis
    unfolding syncLoansWithChain_def by (auto intro!: keys.keeps_bind keys.keeps_if keys.keeps_catch keys_batches)
qed

lemma keys_renew_batches: "keys.keeps (renew_batches env gw t us n)"
proof (induction env gw t us n rule: renew_batches.induct)
  case (1 env gw t us n)
  then show ?case
    by (subst renew_batches.simps) (auto intro!: keys.keeps_if keys.keeps_bind keys.keeps_mapM keys_sync_tasks)
qed

lemma keys_insert_events: "keys.keeps (insert_events env evs n)"
  by (induction evs arbitrary: n) (auto intro!: keys.keeps_bind keys.keeps_catch keys_sync_tasks)

definition sync_keys_kept :: "'c sync \<Rightarrow> 'c sync \<Rightarrow> bool" where
  "sync_keys_kept s t \<longleftrightarrow> keys_kept (base s) (base t)"

interpretation sync_keys: world_frame sync_keys_kept
  by unfold_locales (auto simp: sync_keys_kept_def keys_kept_def)

lemma sync_keys_base [intro]: "keys.keeps m \<Longrightarrow> sync_keys.keeps (in_base m)"
  by (auto simp: keys.keeps_def sync_keys.keeps_def sync_keys_kept_def in_base_def split: prod.split) (metis snd_conv)

lemma sync_keys_step [intro, simp]: "sync_keys.keeps (save_cursor b)" "sync_keys.keeps (save_metric k v)"
  by (simp_all add: sync_keys.keeps_def sync_keys_kept_def keys_kept_def save_cursor_def save_metric_def smod_def)

lemma sync_keys_job: "sync_keys.keeps (process_sync_job env gw f job)"
proof (cases job)
  case Sync_loans
  have "sync_keys.keeps (scanLoanOpenedEvents env gw)"
    unfolding scanLoanOpenedEvents_def scan_from_def Let_def
    by (auto intro!: sync_keys.keeps_bind sync_keys.keeps_if sync_keys.keeps_catch sync_keys_base keys_insert_events)
  moreover have "sync_keys.keeps (computeDbChainDiff env f)"
    unfolding computeDbChainDiff_def Let_def by (auto intro!: sync_keys.keeps_bind split: option.split sum.split)
  ultimately show ?thesis
    unfolding process_sync_job_def Sync_loans sync_job.case
    by (intro sync_keys.keeps_bind sync_keys.keeps_catch sync_keys.keeps_ret sync_keys_base keys_sync_loans)
next
  case Renew_offers
  show ?thesis unfolding process_sync_job_def Renew_offers sync_job.case renewExpiredOffers_def
    by (intro sync_keys.keeps_bind sync_keys.keeps_ret sync_keys_base keys.keeps_bind keys.keeps_ret keys_renew_batches)
next
  case Recalculate_limits
  have "keys.keeps (recalc_level env gw us)" for us
    unfolding recalc_level_def levelNeedsChainUpdate_def Let_def
    by (auto intro!: keys.keeps_bind keys.keeps_if keys.keeps_catch keys.keeps_mapM keys_sync_tasks)
  then show ?thesis unfolding process_sync_job_def Recalculate_limits sync_job.case recalculateAllLimits_def
    by (intro sync_keys.keeps_bind sync_keys.keeps_ret sync_keys_base keys.keeps_bind keys.keeps_ret keys.keeps_mapM)
next
  case Sync_late_fees
  show ?thesis unfolding process_sync_job_def Sync_late_fees sync_job.case syncLateFeesSnapshot_def
    by (intro sync_keys_base keys.keeps_bind keys.keeps_ret keys_batches keys_sync_tasks)
next
  case (Unknown_job x)
  show ?thesis unfolding process_sync_job_def Unknown_job sync_job.case by simp
qed

text \<open>
  The handlers, the jobs as a whole, and the tasks of the jobs in any order and for any row,
  with any change of the chain and the clock in between.
\<close>

inductive table_step :: "env \<Rightarrow> 'c BlockchainGatewayPort \<Rightarrow> 'c world \<Rightarrow> 'c world \<Rightarrow> bool" for env gw where
  ts_handler: "loan_step env gw s s' \<Longrightarrow> table_step env gw s s'"
| ts_job: "process_sync_job env gw f job \<lparr>base = s, cursor = c, metrics = m\<rparr> = (r, t) \<Longrightarrow> table_step env gw s (base t)"
| ts_reconcile: "reconcileLoan env gw b loan user s = (r1, s') \<Longrightarrow> table_step env gw s s'"
| ts_insert: "insertMissingLoan env ev w s = (r2, s') \<Longrightarrow> table_step env gw s s'"
| ts_snapshot: "snapshot_loan gw clock loan s = (r3, s') \<Longrightarrow> table_step env gw s s'"
| ts_recalc: "recalcUser env gw chk user s = (r4, s') \<Longrightarrow> table_step env gw s s'"

interpretation table_keys: invariant_system "table_step env gw" "\<lambda>s. book_ok (loans s)" for env gw
proof
  fix s s' :: "'a world"
  assume st: "table_step env gw s s'" and wf: "book_ok (loans s)"
  have k: "keys_kept s s' \<Longrightarrow> book_ok (loans s')" using wf by (simp add: keys_kept_def)
  from st show "book_ok (loans s')"
  proof (cases rule: table_step.cases)
    case ts_handler
    then show ?thesis
    proof (cases rule: loan_step.cases)
      case (step_open dto r)
      then show ?thesis by (rule k [OF keys.keeps_run [OF keys_open]])
    next
      case (step_repay dto r)
      then show ?thesis by (rule k [OF keys.keeps_run [OF keys_repay]])
    next
      case (step_borrow dto r)
      then show ?thesis by (rule k [OF keys.keeps_run [OF keys_borrow]])
    qed (use wf in simp)
  next
    case (ts_job f job c m r t)
    then have "sync_keys_kept \<lparr>base = s, cursor = c, metrics = m\<rparr> t" using sync_keys.keeps_run [OF sync_keys_job] by blast
    then show ?thesis using ts_job(1) k by (simp add: sync_keys_kept_def)
  next
    case (ts_reconcile b loan user r)
    then show ?thesis by (rule k [OF keys.keeps_run [OF keys_sync_tasks(3)]])
  next
    case (ts_insert ev w r)
    then show ?thesis by (rule k [OF keys.keeps_run [OF keys_sync_tasks(4)]])
  next
    case (ts_snapshot clock loan r)
    then show ?thesis by (rule k [OF keys.keeps_run [OF keys_sync_tasks(5)]])
  next
    case (ts_recalc chk user r)
    then show ?thesis by (rule k [OF keys.keeps_run [OF keys_sync_tasks(6)]])
  qed
qed

section \<open>Reconciliation\<close>

lemma reconciled_sel [simp]:
  "loan_id (reconciled_loan env l e) = loan_id l" "closeTxHash (reconciled_loan env l e) = Some (ce_txHash e)"
  "closedAt (reconciled_loan env l e) = Some (ce_timestamp e * 1000)" "openTxHash (reconciled_loan env l e) = openTxHash l"
  "repaidOnTime (reconciled_loan env l e) = (ce_timestamp e * 1000 \<le> dueAt l + REPAID_ON_TIME_GRACE_MS)"
  "status (reconciled_loan env l e) = (if ce_timestamp e * 1000 \<le> dueAt l + REPAID_ON_TIME_GRACE_MS then REPAID_ON_TIME else REPAID_LATE)"
  "amountPaid (reconciled_loan env l e) = fdiv (num_of_big (ce_amountPaid e)) (10 ^ TOKEN_DECIMALS (BLOCKCHAIN_GATEWAY env))"
  by (simp_all add: reconciled_loan_def Let_def)

definition may_reconcile :: "env \<Rightarrow> nat \<Rightarrow> ChainLoanClosedEvent \<Rightarrow> Loan list \<Rightarrow> Loan \<Rightarrow> bool" where
  "may_reconcile env i e rows fresh \<longleftrightarrow> find (\<lambda>l. loan_id l = i) rows = Some fresh \<and> falsy_str (closeTxHash fresh) \<and>
     \<not> other_row (newest startAt (closer_to fresh e) rows) fresh \<and> \<not> hash_clash (reconciled_loan env fresh e) rows"

lemma reconcile_transaction_run:
  assumes "reconcile_transaction env i eventData s = (r, s')"
  shows "s' = s \<and> (\<forall>l. r \<noteq> Inr (Some l)) \<or>
    (\<exists>e fresh. eventData = Some e \<and> may_reconcile env i e (loans s) fresh \<and> r = Inr (Some (reconciled_loan env fresh e)) \<and>
       s' = s\<lparr>loans := put_row loan_id (store_loan (reconciled_loan env fresh e)) (loans s)\<rparr>)"
proof (cases "\<exists>e fresh. eventData = Some e \<and> find (\<lambda>l. loan_id l = i) (loans s) = Some fresh \<and> falsy_str (closeTxHash fresh) \<and>
    \<not> other_row (newest startAt (closer_to fresh e) (loans s)) fresh \<and>
    \<not> other_row (find (\<lambda>l. closeTxHash l = Some (ce_txHash e)) (loans s)) fresh")
  case True
  then obtain e fresh where f: "eventData = Some e" "find (\<lambda>l. loan_id l = i) (loans s) = Some fresh" "falsy_str (closeTxHash fresh)"
    "\<not> other_row (newest startAt (closer_to fresh e) (loans s)) fresh"
    "\<not> other_row (find (\<lambda>l. closeTxHash l = Some (ce_txHash e)) (loans s)) fresh" by blast
  have st: "status fresh \<in> {OPEN, DEFAULTED, DEFAULTED_IN_GRACE, REPAID_ON_TIME, REPAID_LATE}" by (cases "status fresh") simp_all
  show ?thesis
    using assms f st by (cases "hash_clash (reconciled_loan env fresh e) (loans s)")
      (auto simp: reconcile_transaction_def transaction_def svc_simps may_reconcile_def)
next
  case False
  then have "\<exists>x. reconcile_transaction env i eventData s = (Inr None, s)"
    by (cases "find (\<lambda>l. loan_id l = i) (loans s)"; cases eventData)
      (auto simp: reconcile_transaction_def transaction_def svc_simps)
  then show ?thesis using assms by simp
qed

lemma updateCreditScore_loans: "loans_kept.keeps (updateCreditScore env gw w i b)"
  unfolding updateCreditScore_def publish_credit_def Let_def
  by (auto intro!: loans_kept.keeps_bind loans_kept.keeps_if loans_kept.keeps_catch split: option.split)

lemma updateCreditScore_total: "\<exists>t. updateCreditScore env gw w i b s = (Inr (), t)"
  unfolding updateCreditScore_def scatch_def by (auto simp: svc_simps split: sum.split prod.split)

lemma reconcileLoan_run:
  assumes "reconcileLoan env gw b loan user s = (r, s')"
  shows "loans s' = loans s \<and> users s' = users s \<and> r \<noteq> Inr True \<or>
    (\<exists>e fresh. findLoanClosedEvent gw (borrowerAddress loan) (startAt loan) b (chain s) = Inr (Some e) \<and>
       may_reconcile env (loan_id loan) e (loans s) fresh \<and> r = Inr True \<and>
       loans s' = put_row loan_id (store_loan (reconciled_loan env fresh e)) (loans s))"
proof (cases "findLoanClosedEvent gw (borrowerAddress loan) (startAt loan) b (chain s)")
  case (Inl e)
  then show ?thesis using assms by (auto simp: reconcileLoan_def svc_simps)
next
  case (Inr ev)
  obtain r1 s1 where t: "reconcile_transaction env (loan_id loan) ev s = (r1, s1)" by fastforce
  from reconcile_transaction_run [OF this] show ?thesis
  proof
    assume "s1 = s \<and> (\<forall>l. r1 \<noteq> Inr (Some l))"
    then show ?thesis
      using assms Inr t by (cases r1) (auto simp: reconcileLoan_def svc_simps sbind_def [of "reconcile_transaction _ _ _"] split: option.splits)
  next
    assume "\<exists>e fresh. ev = Some e \<and> may_reconcile env (loan_id loan) e (loans s) fresh \<and> r1 = Inr (Some (reconciled_loan env fresh e)) \<and>
       s1 = s\<lparr>loans := put_row loan_id (store_loan (reconciled_loan env fresh e)) (loans s)\<rparr>"
    then obtain e fresh where f: "ev = Some e" "may_reconcile env (loan_id loan) e (loans s) fresh"
      "r1 = Inr (Some (reconciled_loan env fresh e))"
      "s1 = s\<lparr>loans := put_row loan_id (store_loan (reconciled_loan env fresh e)) (loans s)\<rparr>" by blast
    let ?u = "updateCreditScore env gw (borrowerAddress loan) (user_id user) (repaidOnTime (reconciled_loan env fresh e))"
    obtain t' where u: "?u s1 = (Inr (), t')" using updateCreditScore_total by blast
    have "r = Inr True" "s' = t'"
      using assms Inr t f(1,3) u by (simp_all add: reconcileLoan_def svc_simps sbind_def [of "reconcile_transaction _ _ _"] sbind_def [of "updateCreditScore _ _ _ _ _"])
    moreover have "loans t' = loans s1" using loans_kept.keeps_run [OF updateCreditScore_loans u] by (simp add: same_loans_def)
    ultimately show ?thesis using Inr f by auto
  qed
qed

lemma may_reconcileD:
  assumes "may_reconcile env i e rows fresh" "wf_keys rows"
  shows "fresh \<in> set rows \<and> loan_id fresh = i \<and> (\<forall>l \<in> set rows. \<not> closer_to fresh e l) \<and>
    (\<forall>l \<in> set rows. loan_id l \<noteq> i \<longrightarrow> closeTxHash l \<noteq> Some (ce_txHash e))"
proof -
  have f: "fresh \<in> set rows" "loan_id fresh = i" using assms(1) find_cond unfolding may_reconcile_def by fastforce+
  have "newest startAt (closer_to fresh e) rows = None"
  proof (rule ccontr)
    assume "newest startAt (closer_to fresh e) rows \<noteq> None"
    then obtain l where l: "newest startAt (closer_to fresh e) rows = Some l" by blast
    then have "loan_id l = loan_id fresh" using assms(1) by (simp add: may_reconcile_def other_row_def)
    moreover have "l \<in> set rows" "closer_to fresh e l" using newest_Some [OF l] by auto
    ultimately have "l = fresh" using f(1) assms(2) by (metis wf_keys_def distinct_map inj_onD)
    then show False using \<open>closer_to fresh e l\<close> by (simp add: closer_to_def)
  qed
  moreover have "closeTxHash l \<noteq> Some (ce_txHash e)" if "l \<in> set rows" "loan_id l \<noteq> i" for l
    using assms(1) that f by (auto simp: may_reconcile_def hash_clash_def list_ex_iff)
  ultimately show ?thesis using f by (auto simp: newest_None)
qed

lemma put_row_unique:
  assumes "distinct (map key rows)" "fresh \<in> set rows" "key n = key fresh"
  shows "n \<in> set (put_row key n rows) \<and> (\<forall>k \<in> set rows. k \<noteq> fresh \<longrightarrow> key k \<noteq> key n \<and> k \<in> set (put_row key n rows)) \<and>
    (\<forall>k \<in> set (put_row key n rows). key k = key n \<longrightarrow> k = n)"
proof -
  have "key k \<noteq> key n" if "k \<in> set rows" "k \<noteq> fresh" for k using assms that by (metis distinct_map inj_onD)
  moreover have "n \<in> set (put_row key n rows)" by (rule put_row_same [OF assms(2)]) (use assms(3) in simp)
  ultimately show ?thesis using put_row_other [of _ rows key n] by (auto simp: set_put_row)
qed

lemma reconciled_again:
  assumes "\<And>k. k \<in> set (loans t) \<Longrightarrow> loan_id k = loan_id loan \<Longrightarrow> \<not> falsy_str (closeTxHash k)"
    and run: "reconcileLoan env gw b loan user t = (r, t')"
  shows "loans t' = loans t \<and> r \<noteq> Inr True"
proof (rule ccontr)
  assume "\<not> (loans t' = loans t \<and> r \<noteq> Inr True)"
  then obtain e f where "may_reconcile env (loan_id loan) e (loans t) f" using reconcileLoan_run [OF run] by auto
  then have "f \<in> set (loans t)" "loan_id f = loan_id loan" "falsy_str (closeTxHash f)"
    unfolding may_reconcile_def using find_cond by fastforce+
  then show False using assms(1) by blast
qed

text \<open>
  C8. A loan is reconciled only with a closing event that the gateway found for its borrower, when
  it has no closing transaction yet, no loan of the borrower started between it and the event, and
  no other loan has that transaction. Its row then carries the transaction, the time and the amount
  of the event and is on time exactly within 24 hours of the due date; all other rows are kept, and
  reconciling it again changes nothing.
\<close>

theorem reconcile_sound:
  assumes run: "reconcileLoan env gw b loan user s = (Inr True, s')" and wf: "wf_keys (loans s)"
  shows "\<exists>e fresh. findLoanClosedEvent gw (borrowerAddress loan) (startAt loan) b (chain s) = Inr (Some e) \<and>
    fresh \<in> set (loans s) \<and> loan_id fresh = loan_id loan \<and> falsy_str (closeTxHash fresh) \<and>
    (\<forall>l \<in> set (loans s). \<not> (borrowerAddress l = borrowerAddress fresh \<and> startAt fresh < startAt l \<and> startAt l \<le> ce_timestamp e * 1000)) \<and>
    (\<forall>l \<in> set (loans s). l \<noteq> fresh \<longrightarrow> closeTxHash l \<noteq> Some (ce_txHash e) \<and> l \<in> set (loans s')) \<and>
    (\<exists>new \<in> set (loans s'). loan_id new = loan_id loan \<and> closeTxHash new = Some (ce_txHash e) \<and>
       closedAt new = Some (ce_timestamp e * 1000) \<and>
       amountPaid new = toFixed 2 (fdiv (num_of_big (ce_amountPaid e)) (10 ^ TOKEN_DECIMALS (BLOCKCHAIN_GATEWAY env))) \<and>
       (status new = REPAID_ON_TIME \<longleftrightarrow> ce_timestamp e * 1000 \<le> dueAt fresh + 24 * 60 * 60 * 1000) \<and>
       (status new = REPAID_LATE \<longleftrightarrow> ce_timestamp e * 1000 > dueAt fresh + 24 * 60 * 60 * 1000)) \<and>
    (\<forall>b' loan' user' t r' t'. loan_id loan' = loan_id loan \<longrightarrow> ce_txHash e \<noteq> [] \<longrightarrow> loans t = loans s' \<longrightarrow>
       reconcileLoan env gw b' loan' user' t = (r', t') \<longrightarrow> loans t' = loans t \<and> r' \<noteq> Inr True)"
proof -
  from reconcileLoan_run [OF run] obtain e fresh where
    e: "findLoanClosedEvent gw (borrowerAddress loan) (startAt loan) b (chain s) = Inr (Some e)" and
    m: "may_reconcile env (loan_id loan) e (loans s) fresh" and
    l: "loans s' = put_row loan_id (store_loan (reconciled_loan env fresh e)) (loans s)" by blast
  let ?n = "store_loan (reconciled_loan env fresh e)"
  note d = may_reconcileD [OF m wf]
  have rows: "?n \<in> set (loans s')" "\<forall>k \<in> set (loans s). k \<noteq> fresh \<longrightarrow> loan_id k \<noteq> loan_id loan \<and> k \<in> set (loans s')"
    "\<forall>k \<in> set (loans s'). loan_id k = loan_id loan \<longrightarrow> k = ?n"
    using put_row_unique [of loan_id "loans s" fresh ?n] wf d unfolding l wf_keys_def by simp_all
  have "\<exists>new \<in> set (loans s'). loan_id new = loan_id loan \<and> closeTxHash new = Some (ce_txHash e) \<and>
       closedAt new = Some (ce_timestamp e * 1000) \<and>
       amountPaid new = toFixed 2 (fdiv (num_of_big (ce_amountPaid e)) (10 ^ TOKEN_DECIMALS (BLOCKCHAIN_GATEWAY env))) \<and>
       (status new = REPAID_ON_TIME \<longleftrightarrow> ce_timestamp e * 1000 \<le> dueAt fresh + 24 * 60 * 60 * 1000) \<and>
       (status new = REPAID_LATE \<longleftrightarrow> ce_timestamp e * 1000 > dueAt fresh + 24 * 60 * 60 * 1000)"
    using rows(1) d by (intro bexI [of _ ?n]) (simp_all add: REPAID_ON_TIME_GRACE_MS_def store_loan_def)
  moreover have "loans t' = loans t \<and> r' \<noteq> Inr True" if "loan_id loan' = loan_id loan" "ce_txHash e \<noteq> []" "loans t = loans s'"
    "reconcileLoan env gw b' loan' user' t = (r', t')" for b' loan' user' t r' t'
    by (rule reconciled_again [OF _ that(4)]) (use that rows(3) in auto)
  moreover have "falsy_str (closeTxHash fresh)" using m by (simp add: may_reconcile_def)
  moreover have "\<forall>k \<in> set (loans s). \<not> (borrowerAddress k = borrowerAddress fresh \<and> startAt fresh < startAt k \<and> startAt k \<le> ce_timestamp e * 1000)"
    using d by (simp add: closer_to_def)
  moreover have "\<forall>k \<in> set (loans s). k \<noteq> fresh \<longrightarrow> closeTxHash k \<noteq> Some (ce_txHash e) \<and> k \<in> set (loans s')"
    using rows(2) d by blast
  ultimately show ?thesis using e d by (intro exI [of _ e] exI [of _ fresh] conjI) (blast | assumption)+
qed

section \<open>The scan\<close>

lemma missing_loan_sel [simp]:
  "openTxHash (missing_loan env u ev w) = Some (oe_txHash ev)" "closeTxHash (missing_loan env u ev w) = None"
  "loan_userId (missing_loan env u ev w) = user_id u" "status (missing_loan env u ev w) = OPEN"
  "closedAt (missing_loan env u ev w) = None" "borrowerAddress (missing_loan env u ev w) = w"
  "startAt (missing_loan env u ev w) = oe_timestamp ev * 1000" "dueAt (missing_loan env u ev w) = oe_due ev * 1000"
  by (simp_all add: missing_loan_def Let_def)

lemma insertMissingLoan_run:
  "insertMissingLoan env ev w s =
     (case user_by_wallet w s of
        None \<Rightarrow> (Inr False, s)
      | Some u \<Rightarrow>
          if \<exists>l \<in> set (loans s). openTxHash l = Some (oe_txHash ev) then (Inr False, s)
          else (Inr True, s\<lparr>loans := loans s @
            [store_loan ((missing_loan env u ev w)\<lparr>loan_id := fresh_id loan_id (loans s), loan_createdAt := now s\<rparr>)]\<rparr>))"
proof (cases "find (\<lambda>l. openTxHash l = Some (oe_txHash ev)) (loans s)")
  case None
  then have n: "\<not> (\<exists>l \<in> set (loans s). openTxHash l = Some (oe_txHash ev))" by (simp add: find_none)
  have "\<not> hash_clash ((missing_loan env u ev w)\<lparr>loan_id := i, loan_createdAt := c\<rparr>) (loans s)" for u i c
    using n by (auto simp: hash_clash_def list_ex_iff)
  then show ?thesis
    using None n by (simp add: insertMissingLoan_def svc_simps insert_loan_def sbind_def [of "\<lambda>s. _ s"] Let_def split: option.split)
next
  case (Some l)
  then have "\<exists>l \<in> set (loans s). openTxHash l = Some (oe_txHash ev)" using find_cond by fastforce
  then show ?thesis using Some by (simp add: insertMissingLoan_def svc_simps split: option.split)
qed

definition from_event :: "env \<Rightarrow> ChainLoanOpenedEvent list \<Rightarrow> 'c world \<Rightarrow> Loan \<Rightarrow> bool" where
  "from_event env evs s l \<longleftrightarrow> (\<exists>ev \<in> set evs. \<exists>u i. user_by_wallet (oe_borrower ev) s = Some u \<and>
     l = store_loan ((missing_loan env u ev (oe_borrower ev))\<lparr>loan_id := i, loan_createdAt := now s\<rparr>))"

definition scanned :: "env \<Rightarrow> ChainLoanOpenedEvent list \<Rightarrow> scan_result \<Rightarrow> 'c world \<Rightarrow> scan_result \<Rightarrow> 'c world \<Rightarrow> bool" where
  "scanned env evs n s n' s' \<longleftrightarrow> (\<exists>new. s' = s\<lparr>loans := loans s @ new\<rparr> \<and> sc_errors n' = sc_errors n \<and> sc_scanned n' = sc_scanned n \<and>
     sc_inserted n' = sc_inserted n + length new \<and>
     sc_inserted n' + sc_skipped n' = sc_inserted n + sc_skipped n + length evs \<and>
     (\<forall>l \<in> set new. from_event env evs s l) \<and>
     (\<forall>ev \<in> set evs. user_by_wallet (oe_borrower ev) s \<noteq> None \<longrightarrow> (\<exists>l \<in> set (loans s'). openTxHash l = Some (oe_txHash ev))))"

lemma insert_events_run: "\<exists>n' s'. insert_events env evs n s = (Inr n', s') \<and> scanned env evs n s n' s'"
proof (induction evs arbitrary: n s)
  case Nil
  show ?case by (simp add: svc_simps scanned_def)
next
  case (Cons ev evs)
  define new where "new = (case user_by_wallet (oe_borrower ev) s of None \<Rightarrow> [] | Some u \<Rightarrow>
      if \<exists>l \<in> set (loans s). openTxHash l = Some (oe_txHash ev) then []
      else [store_loan ((missing_loan env u ev (oe_borrower ev))\<lparr>loan_id := fresh_id loan_id (loans s), loan_createdAt := now s\<rparr>)])"
  define m where "m = (if new \<noteq> [] then n\<lparr>sc_inserted := sc_inserted n + 1\<rparr> else n\<lparr>sc_skipped := sc_skipped n + 1\<rparr>)"
  define t where "t = s\<lparr>loans := loans s @ new\<rparr>"
  have "insertMissingLoan env ev (oe_borrower ev) s = (Inr (new \<noteq> []), t)"
    by (simp add: insertMissingLoan_run new_def t_def split: option.split)
  then have step: "insert_events env (ev # evs) n s = insert_events env evs m t"
    by (simp add: svc_simps sbind_def [of "insertMissingLoan _ _ _"] sbind_def [of "scatch _ _"] m_def)
  from Cons.IH [of m t] obtain n' s' where i: "insert_events env evs m t = (Inr n', s')" "scanned env evs m t n' s'" by blast
  from i(2) obtain more where more: "s' = t\<lparr>loans := loans t @ more\<rparr>" "sc_errors n' = sc_errors m" "sc_scanned n' = sc_scanned m"
     "sc_inserted n' = sc_inserted m + length more"
     "sc_inserted n' + sc_skipped n' = sc_inserted m + sc_skipped m + length evs"
     "\<forall>l \<in> set more. from_event env evs t l"
     "\<forall>ev \<in> set evs. user_by_wallet (oe_borrower ev) t \<noteq> None \<longrightarrow> (\<exists>l \<in> set (loans s'). openTxHash l = Some (oe_txHash ev))"
    unfolding scanned_def by blast
  have len: "length new \<le> 1" "new \<noteq> [] \<longrightarrow> length new = 1" by (auto simp: new_def split: option.splits if_splits)
  have ev: "user_by_wallet (oe_borrower ev) s \<noteq> None \<longrightarrow> (\<exists>l \<in> set (loans t). openTxHash l = Some (oe_txHash ev))"
    by (cases "\<exists>l \<in> set (loans s). openTxHash l = Some (oe_txHash ev)") (auto simp: t_def new_def split: option.splits)
  have new: "from_event env (ev # evs) s l" if ln: "l \<in> set new" for l
  proof -
    obtain u where u: "user_by_wallet (oe_borrower ev) s = Some u" using ln by (cases "user_by_wallet (oe_borrower ev) s") (simp_all add: new_def)
    then have "l = store_loan ((missing_loan env u ev (oe_borrower ev))\<lparr>loan_id := fresh_id loan_id (loans s), loan_createdAt := now s\<rparr>)"
      using ln by (simp add: new_def split: if_splits)
    then show ?thesis unfolding from_event_def using u by (metis list.set_intros(1))
  qed
  have ub: "user_by_wallet w t = user_by_wallet w s" "now t = now s" for w by (simp_all add: t_def user_by_wallet_def)
  have "scanned env (ev # evs) n s n' s'"
    unfolding scanned_def
  proof (intro exI [of _ "new @ more"] conjI)
    show "s' = s\<lparr>loans := loans s @ new @ more\<rparr>" using more(1) by (simp add: t_def)
    show "sc_errors n' = sc_errors n" "sc_scanned n' = sc_scanned n" using more(2,3) by (simp_all add: m_def)
    show "sc_inserted n' = sc_inserted n + length (new @ more)" using more(4) len by (auto simp: m_def)
    show "sc_inserted n' + sc_skipped n' = sc_inserted n + sc_skipped n + length (ev # evs)" using more(5) by (auto simp: m_def)
    show "\<forall>l \<in> set (new @ more). from_event env (ev # evs) s l" using more(6) new ub by (auto simp: from_event_def)
    show "\<forall>e \<in> set (ev # evs). user_by_wallet (oe_borrower e) s \<noteq> None \<longrightarrow> (\<exists>l \<in> set (loans s'). openTxHash l = Some (oe_txHash e))"
      using more(1,7) ev ub by auto
  qed
  with step i(1) show ?case by simp
qed

definition scan_start :: "'c sync \<Rightarrow> int \<Rightarrow> int" where
  "scan_start s cur = (if nullish (cursor s) 0 = 0 then max 0 (cur - 100000) else nullish (cursor s) 0)"

lemma sbind_in_read [svc_simps]:
  "sbind (in_base (chain_read p)) g s = (case p (chain (base s)) of Inl e \<Rightarrow> (Inl e, s) | Inr a \<Rightarrow> g a s)"
  by (simp add: sbind_def in_base_def chain_read_def split: sum.split)

lemma sbind_cursor [svc_simps]: "sbind (save_cursor b) g s = g () (s\<lparr>cursor := Some b\<rparr>)"
  by (simp add: save_cursor_def sbind_mod)

lemma scan_from_run: "\<exists>c. scan_from cur s = (Inr (scan_start s cur), s\<lparr>cursor := c\<rparr>)"
proof (cases "nullish (cursor s) 0 = 0")
  case True
  show ?thesis by (rule exI [of _ "Some (max 0 (cur - 100000))"]) (simp add: scan_from_def scan_start_def svc_simps True)
next
  case False
  show ?thesis by (rule exI [of _ "cursor s"]) (simp add: scan_from_def scan_start_def svc_simps False)
qed

lemma scan_run:
  assumes "getLatestLedger gw (chain (base s)) = Inr cur" and "scan_start s cur < cur"
    and "getLoanOpenedEvents gw (scan_start s cur + 1) (min (scan_start s cur + 10000) cur) (chain (base s)) = Inr evs"
  shows "\<exists>n b. scanLoanOpenedEvents env gw s =
      (Inr n, s\<lparr>base := b, cursor := Some (min (scan_start s cur + 10000) cur)\<rparr>) \<and>
    scanned env evs \<lparr>sc_scanned = length evs, sc_inserted = 0, sc_skipped = 0, sc_errors = 0\<rparr> (base s) n b"
proof -
  let ?n = "\<lparr>sc_scanned = length evs, sc_inserted = 0, sc_skipped = 0, sc_errors = 0\<rparr>"
  obtain n b where i: "insert_events env evs ?n (base s) = (Inr n, b)" "scanned env evs ?n (base s) n b"
    using insert_events_run [of env evs ?n "base s"] by blast
  obtain c where f: "scan_from cur s = (Inr (scan_start s cur), s\<lparr>cursor := c\<rparr>)" using scan_from_run by blast
  have r': "in_base (insert_events env evs ?n) (s\<lparr>cursor := c\<rparr>) = (Inr n, s\<lparr>cursor := c, base := b\<rparr>)"
    using i(1) by (simp add: in_base_def)
  have "scanLoanOpenedEvents env gw s = (Inr n, s\<lparr>base := b, cursor := Some (min (scan_start s cur + 10000) cur)\<rparr>)"
    using assms f r'
    by (simp add: scanLoanOpenedEvents_def svc_simps sbind_def [of "in_base (insert_events _ _ _)"] sbind_def [of "scan_from _"] Let_def
        MAX_BLOCK_RANGE_def)
  with i(2) show ?thesis by blast
qed


text \<open>
  A scan whose reads succeed moves the cursor to the end of its range and appends rows only:
  afterwards every event of the range whose borrower is a user has a row with its transaction, each
  new row is the open loan of such an event, and the counters add up.
\<close>

theorem scan_complete:
  assumes "getLatestLedger gw (chain (base s)) = Inr cur"
    and "start = (if nullish (cursor s) 0 = 0 then max 0 (cur - 100000) else nullish (cursor s) 0)" and "start < cur"
    and "getLoanOpenedEvents gw (start + 1) (min (start + 10000) cur) (chain (base s)) = Inr evs"
  shows "\<exists>n s' new. scanLoanOpenedEvents env gw s = (Inr n, s') \<and> cursor s' = Some (min (start + 10000) cur) \<and>
    loans (base s') = loans (base s) @ new \<and> users (base s') = users (base s) \<and> chain (base s') = chain (base s) \<and>
    sc_errors n = 0 \<and> sc_inserted n = length new \<and> sc_inserted n + sc_skipped n = length evs \<and>
    (\<forall>ev \<in> set evs. \<forall>u. user_by_wallet (oe_borrower ev) (base s) = Some u \<longrightarrow>
       (\<exists>l \<in> set (loans (base s')). openTxHash l = Some (oe_txHash ev))) \<and>
    (\<forall>l \<in> set new. \<exists>ev \<in> set evs. \<exists>u. user_by_wallet (oe_borrower ev) (base s) = Some u \<and> loan_userId l = user_id u \<and>
       openTxHash l = Some (oe_txHash ev) \<and> status l = OPEN \<and> startAt l = oe_timestamp ev * 1000 \<and> dueAt l = oe_due ev * 1000)"
proof -
  have start: "scan_start s cur = start" using assms(2) by (simp add: scan_start_def)
  from scan_run [of gw s cur evs env, unfolded start, OF assms(1,3,4)] obtain n b where
    r: "scanLoanOpenedEvents env gw s = (Inr n, s\<lparr>base := b, cursor := Some (min (start + 10000) cur)\<rparr>)" and
    sc: "scanned env evs \<lparr>sc_scanned = length evs, sc_inserted = 0, sc_skipped = 0, sc_errors = 0\<rparr> (base s) n b" by blast
  from sc obtain new where new: "b = (base s)\<lparr>loans := loans (base s) @ new\<rparr>" "sc_errors n = 0" "sc_inserted n = length new"
    "sc_inserted n + sc_skipped n = length evs" "\<forall>l \<in> set new. from_event env evs (base s) l"
    "\<forall>ev \<in> set evs. user_by_wallet (oe_borrower ev) (base s) \<noteq> None \<longrightarrow> (\<exists>l \<in> set (loans b). openTxHash l = Some (oe_txHash ev))"
    unfolding scanned_def by auto
  have "\<exists>ev \<in> set evs. \<exists>u. user_by_wallet (oe_borrower ev) (base s) = Some u \<and> loan_userId l = user_id u \<and>
       openTxHash l = Some (oe_txHash ev) \<and> status l = OPEN \<and> startAt l = oe_timestamp ev * 1000 \<and> dueAt l = oe_due ev * 1000"
    if "l \<in> set new" for l
    using new(5) that by (fastforce simp: from_event_def store_loan_def)
  then show ?thesis
    using r new(1-4,6)
    by (intro exI [of _ n] exI [of _ "s\<lparr>base := b, cursor := Some (min (start + 10000) cur)\<rparr>"] exI [of _ new]) auto
qed

lemma scan_rows:
  assumes "scanLoanOpenedEvents env gw s = (r, s')" and "l \<in> set (loans (base s'))" "l \<notin> set (loans (base s))"
  shows "\<exists>cur evs ev. getLatestLedger gw (chain (base s)) = Inr cur \<and>
    getLoanOpenedEvents gw (scan_start s cur + 1) (min (scan_start s cur + 10000) cur) (chain (base s)) = Inr evs \<and>
    ev \<in> set evs \<and> openTxHash l = Some (oe_txHash ev) \<and> (\<exists>u. user_by_wallet (oe_borrower ev) (base s) = Some u)"
proof -
  obtain cur where cur: "getLatestLedger gw (chain (base s)) = Inr cur"
    using assms by (auto simp: scanLoanOpenedEvents_def svc_simps split: sum.splits)
  obtain c where f: "scan_from cur s = (Inr (scan_start s cur), s\<lparr>cursor := c\<rparr>)"
    using scan_from_run by blast
  have lt: "scan_start s cur < cur"
    using assms cur f by (auto simp: scanLoanOpenedEvents_def svc_simps sbind_def [of "scan_from _"] split: if_splits)
  obtain evs where evs: "getLoanOpenedEvents gw (scan_start s cur + 1) (min (scan_start s cur + 10000) cur) (chain (base s)) = Inr evs"
    using assms cur f lt by (auto simp: scanLoanOpenedEvents_def svc_simps sbind_def [of "scan_from _"] Let_def MAX_BLOCK_RANGE_def split: sum.splits)
  from scan_run [OF cur lt evs, of env] assms(1) obtain n b where "base s' = b"
    "scanned env evs \<lparr>sc_scanned = length evs, sc_inserted = 0, sc_skipped = 0, sc_errors = 0\<rparr> (base s) n b" by auto
  then obtain new where "loans (base s') = loans (base s) @ new" "\<forall>l \<in> set new. from_event env evs (base s) l"
    unfolding scanned_def by auto
  then have "from_event env evs (base s) l" using assms(2,3) by auto
  then show ?thesis using cur evs by (fastforce simp: from_event_def)
qed

text \<open>
  An event whose borrower is not registered when the scan passes is lost: although the user
  registers before the next scan, that scan adds no row for it, because the cursor has moved on.
\<close>

theorem scan_loses_event:
  assumes "getLatestLedger gw (chain (base s)) = Inr cur"
    and "start = (if nullish (cursor s) 0 = 0 then max 0 (cur - 100000) else nullish (cursor s) 0)" and "0 \<le> start" "start < cur"
    and "getLoanOpenedEvents gw (start + 1) (min (start + 10000) cur) (chain (base s)) = Inr evs"
    and ev: "ev \<in> set evs" "user_by_wallet (oe_borrower ev) (base s) = None"
    and new: "\<forall>l \<in> set (loans (base s)). openTxHash l \<noteq> Some (oe_txHash ev)"
    and one: "\<forall>e \<in> set evs. oe_txHash e = oe_txHash ev \<longrightarrow> e = ev"
    and range: "\<And>a b c es e. getLoanOpenedEvents gw a b c = Inr es \<Longrightarrow> e \<in> set es \<Longrightarrow> a \<le> oe_ledger e \<and> oe_ledger e \<le> b"
    and hash: "\<And>a b c es e. getLoanOpenedEvents gw a b c = Inr es \<Longrightarrow> e \<in> set es \<Longrightarrow> oe_txHash e = oe_txHash ev \<Longrightarrow>
      oe_ledger e = oe_ledger ev"
    and later: "scanLoanOpenedEvents env gw s = (r, s')" "cursor t = cursor s'" "loans (base t) = loans (base s')"
      "scanLoanOpenedEvents env gw t = (r', t')"
  shows "\<forall>l \<in> set (loans (base t')). openTxHash l \<noteq> Some (oe_txHash ev)"
proof
  fix l
  assume l: "l \<in> set (loans (base t'))"
  have start: "scan_start s cur = start" using assms(2) by (simp add: scan_start_def)
  let ?to = "min (start + 10000) cur"
  have s': "cursor s' = Some ?to" using scan_run [of gw s cur evs env] assms(1,4,5) start later(1) by auto
  have old: "openTxHash k \<noteq> Some (oe_txHash ev)" if k: "k \<in> set (loans (base s'))" for k
  proof
    assume h: "openTxHash k = Some (oe_txHash ev)"
    then have "k \<notin> set (loans (base s))" using new by blast
    from scan_rows [OF later(1) k this] assms(1,5) start h one ev(2) show False by auto
  qed
  show "openTxHash l \<noteq> Some (oe_txHash ev)"
  proof
    assume h: "openTxHash l = Some (oe_txHash ev)"
    then have "l \<notin> set (loans (base t))" using old later(3) by auto
    from scan_rows [OF later(4) l this] obtain cur' es e where
      e: "getLoanOpenedEvents gw (scan_start t cur' + 1) (min (scan_start t cur' + 10000) cur') (chain (base t)) = Inr es"
      "e \<in> set es" "oe_txHash e = oe_txHash ev" using h by auto
    have "?to \<noteq> 0" using assms(3,4) by linarith
    then have "scan_start t cur' = ?to" using later(2) s' by (simp add: scan_start_def del: min_def)
    then have "?to < oe_ledger e" using range [OF e(1,2)] by simp
    moreover have "oe_ledger ev \<le> ?to" using range [OF assms(5) ev(1)] by simp
    ultimately show False using hash [OF e] by simp
  qed
qed

text \<open>
  The scan does not look for an open loan of the user: when the table still has one (the
  repayment was not reported), the scan of the next opening gives the user a second open loan, which the
  handler of openings never does.
\<close>

theorem scan_second_open:
  assumes "getLatestLedger gw (chain (base s)) = Inr cur"
    and "start = (if nullish (cursor s) 0 = 0 then max 0 (cur - 100000) else nullish (cursor s) 0)" and "start < cur"
    and "getLoanOpenedEvents gw (start + 1) (min (start + 10000) cur) (chain (base s)) = Inr evs"
    and "ev \<in> set evs" "user_by_wallet (oe_borrower ev) (base s) = Some u"
    and fresh: "\<forall>l \<in> set (loans (base s)). openTxHash l \<noteq> Some (oe_txHash ev)"
    and one: "\<forall>e \<in> set evs. oe_txHash e = oe_txHash ev \<longrightarrow> e = ev"
    and k: "k \<in> set (loans (base s))" "loan_userId k = user_id u" "status k = OPEN" "closedAt k = None"
    and run: "scanLoanOpenedEvents env gw s = (r, s')"
  shows "\<exists>l \<in> set (loans (base s')). k \<in> set (loans (base s')) \<and> l \<noteq> k \<and> loan_userId l = loan_userId k \<and>
    status l = OPEN \<and> status k = OPEN \<and> closedAt l = None"
proof -
  have start: "scan_start s cur = start" using assms(2) by (simp add: scan_start_def)
  from scan_run [of gw s cur evs env, unfolded start, OF assms(1,3,4)] run obtain n b where
    b: "base s' = b" "scanned env evs \<lparr>sc_scanned = length evs, sc_inserted = 0, sc_skipped = 0, sc_errors = 0\<rparr> (base s) n b" by auto
  then obtain new where new: "loans (base s') = loans (base s) @ new" "\<forall>l \<in> set new. from_event env evs (base s) l"
    "\<forall>ev \<in> set evs. user_by_wallet (oe_borrower ev) (base s) \<noteq> None \<longrightarrow> (\<exists>l \<in> set (loans b). openTxHash l = Some (oe_txHash ev))"
    unfolding scanned_def by auto
  then obtain l where l: "l \<in> set (loans (base s'))" "openTxHash l = Some (oe_txHash ev)" using assms(5,6) b(1) by auto
  then have "l \<in> set new" "l \<noteq> k" using fresh new(1) k(1) by auto
  then have "from_event env evs (base s) l" using new(2) by blast
  then obtain e v i where e: "e \<in> set evs" "user_by_wallet (oe_borrower e) (base s) = Some v"
    "l = store_loan ((missing_loan env v e (oe_borrower e))\<lparr>loan_id := i, loan_createdAt := now (base s)\<rparr>)" unfolding from_event_def by blast
  then have "oe_txHash e = oe_txHash ev" using l(2) by simp
  then have "e = ev" using one e(1) by blast
  then have "v = u" using e(2) assms(6) by simp
  then have "loan_userId l = user_id u" "status l = OPEN" "closedAt l = None" using e(3) by (simp_all add: store_loan_def)
  then show ?thesis using l(1) \<open>l \<noteq> k\<close> k new(1) by (intro bexI [of _ l]) simp_all
qed

section \<open>Renewals\<close>

lemma renew_offer_run: "\<exists>n s'. renew_offer env gw t u s = (Inr n, s') \<and> n \<le> 1"
proof (cases "walletAddress u = []")
  case False
  then show ?thesis
    by (auto simp: renew_offer_def svc_simps Let_def split: sum.splits prod.splits)
qed (simp add: renew_offer_def svc_simps)

lemma smapM_sum:
  assumes "\<And>x s. \<exists>n s'. f x s = (Inr n, s') \<and> n \<le> (1 :: nat)"
  shows "\<exists>ns s'. smapM f xs s = (Inr ns, s') \<and> sum_list ns \<le> length xs"
proof (induction xs arbitrary: s)
  case (Cons x xs)
  obtain n t where n: "f x s = (Inr n, t)" "n \<le> 1" using assms by blast
  obtain ns s' where "smapM f xs t = (Inr ns, s')" "sum_list ns \<le> length xs" using Cons.IH by blast
  then show ?case using n by (simp add: sbind_def [of "f _"] sbind_def [of "smapM _ _"] svc_simps)
qed (simp add: svc_simps)

lemma renew_batches_run:
  "renewed \<le> MAX_RENEWALS + 4 \<Longrightarrow> \<exists>n s'. renew_batches env gw t us renewed s = (Inr n, s') \<and> n \<le> MAX_RENEWALS + 4"
proof (induction env gw t us renewed arbitrary: s rule: renew_batches.induct)
  case (1 env gw t us renewed)
  show ?case
  proof (cases "us = [] \<or> renewed \<ge> MAX_RENEWALS")
    case True
    then show ?thesis using 1(2) by (subst renew_batches.simps) (simp add: svc_simps)
  next
    case False
    obtain ns s1 where ns: "smapM (renew_offer env gw t) (take BATCH_SIZE us) s = (Inr ns, s1)" "sum_list ns \<le> length (take BATCH_SIZE us)"
      using smapM_sum [of "renew_offer env gw t", OF renew_offer_run] by blast
    then have le: "renewed + sum_list ns \<le> MAX_RENEWALS + 4" using False by (simp add: BATCH_SIZE_def)
    show ?thesis
    proof (cases "drop BATCH_SIZE us = []")
      case True
      then show ?thesis using False ns le by (subst renew_batches.simps) (simp add: sbind_def [of "smapM _ _"] svc_simps)
    next
      case d: False
      from 1(1) [OF False d le] obtain n s' where
        "renew_batches env gw t (drop BATCH_SIZE us) (renewed + sum_list ns) (s1\<lparr>now := now s1 + BATCH_DELAY_MS\<rparr>) = (Inr n, s')"
        "n \<le> MAX_RENEWALS + 4" by blast
      then show ?thesis using False d ns
        by (subst renew_batches.simps) (simp add: sbind_def [of "smapM _ _"] svc_simps sync_sleep_def)
    qed
  qed
qed

section \<open>Recalculation\<close>

lemma step_units_Inr:
  assumes "ladder = getStepForOnTimeLoans n"
  shows "step_units env ladder = Inr (of_int (limitUsdc ladder * 10 ^ TOKEN_DECIMALS (BLOCKCHAIN_GATEWAY env)))"
    "limitUsdc ladder * 10 ^ TOKEN_DECIMALS (BLOCKCHAIN_GATEWAY env) > 0"
proof -
  let ?d = "TOKEN_DECIMALS (BLOCKCHAIN_GATEWAY env)"
  have r: "1 \<le> limitUsdc ladder" "limitUsdc ladder \<le> 25" using step_range [OF getStepForOnTimeLoans_mem, of n] assms by simp_all
  then show "limitUsdc ladder * 10 ^ ?d > 0" by simp
  have "limitUsdc ladder * 10 ^ ?d \<le> 25 * 10 ^ ?d" using r(2) by (intro mult_right_mono) simp_all
  also have "\<dots> < 2 ^ 53" by (simp add: TOKEN_DECIMALS_def STELLAR_TOKEN_DECIMALS_def EVM_USDC_DECIMALS_def)
  finally have "num_of_big (limitUsdc ladder * 10 ^ ?d) = of_int (limitUsdc ladder * 10 ^ ?d)"
    unfolding num_of_big_def using r by (intro fl_of_int) simp
  then show "step_units env ladder = Inr (of_int (limitUsdc ladder * 10 ^ ?d))"
    using toUnits_Num [of "limitUsdc ladder" ?d] r by (simp add: step_units_def)
qed

lemma store_step_run:
  "store_step user ladder units s = (Inr (), s\<lparr>users := map (\<lambda>u. if user_id u = user_id user then store_user
     (u\<lparr>xp := (if xpBase ladder > xp user then xpBase ladder else xp u), score := Some (step_score ladder), creditLimit := Some units\<rparr>)
     else u) (users s)\<rparr>)"
  by (simp add: store_step_def svc_simps)


definition chain_agrees :: "'c BlockchainGatewayPort \<Rightarrow> string \<Rightarrow> int \<Rightarrow> int \<Rightarrow> 'c \<Rightarrow> 'c \<Rightarrow> bool" where
  "chain_agrees gw wallet sc units c c' \<longleftrightarrow>
     (\<exists>risk. readUserRisk gw wallet c = Inr risk \<and> chain_score_limit risk = (sc, of_int units)) \<and> c' = c \<or>
     giveCreditScoreAndLimit gw wallet sc units c = (Inr 200, c')"

lemma recalcUser_run:
  assumes run: "recalcUser env gw chk user s = (r, s')" and w: "walletAddress user \<noteq> []" and ok: "r \<noteq> Inr Recalc_error"
    and L: "L = getStepForOnTimeLoans (onTimeLoans_of (user_id user) s)"
    and k: "k = limitUsdc L * 10 ^ TOKEN_DECIMALS (BLOCKCHAIN_GATEWAY env)"
  shows "\<exists>c. s' = (if nullish (score user) 1 = step_score L \<and> nullish (creditLimit user) 0 = of_int k then s\<lparr>chain := c\<rparr>
       else snd (store_step user L (of_int k) (s\<lparr>chain := c\<rparr>))) \<and>
     (chk \<longrightarrow> chain_agrees gw (walletAddress user) (step_score L) k (chain s) c)"
proof -
  define inDb where "inDb \<longleftrightarrow> nullish (score user) 1 = step_score L \<and> nullish (creditLimit user) 0 = (of_int k :: rat)"
  have u: "step_units env L = Inr (of_int k)" using step_units_Inr(1) [OF L] k by simp
  have b: "big_of_num (of_int k) = Inr k" by (simp add: big_of_num_def)
  have same: "s\<lparr>chain := chain s\<rparr> = s" by simp
  show ?thesis
  proof (cases chk)
    case False
    then show ?thesis
      using run w u by (cases inDb) (auto simp: recalcUser_def svc_simps L [symmetric] inDb_def store_step_run sbind_def [of "store_step _ _ _"]
          Let_def intro!: exI [of _ "chain s"])
  next
    case True
    obtain risk where risk: "readUserRisk gw (walletAddress user) (chain s) = Inr risk"
      using run w u True ok by (auto simp: recalcUser_def svc_simps L [symmetric] Let_def split: sum.splits)
    show ?thesis
    proof (cases "chain_score_limit risk = (step_score L, of_int k)")
      case sync: True
      then show ?thesis
        using run w u True risk
        by (cases inDb) (auto simp: recalcUser_def svc_simps L [symmetric] inDb_def store_step_run sbind_def [of "store_step _ _ _"]
            Let_def chain_agrees_def sbind_ret intro!: exI [of _ "chain s"])
    next
      case out: False
      obtain a c where g: "giveCreditScoreAndLimit gw (walletAddress user) (step_score L) k (chain s) = (a, c)" by fastforce
      have a: "a = Inr 200"
        using run w u True risk out g ok b
        by (cases a) (auto simp: recalcUser_def svc_simps L [symmetric] Let_def sbind_assoc split: if_splits)
      show ?thesis
        using run w u True risk out g b a
        by (cases inDb) (auto simp: recalcUser_def svc_simps L [symmetric] inDb_def store_step_run sbind_def [of "store_step _ _ _"]
            Let_def chain_agrees_def sbind_assoc intro!: exI [of _ c])
    qed
  qed
qed

text \<open>
  A recalculated user has the score and the limit of the ladder step of the loans paid on
  time, whatever the stored values were, also when these were lowered after a default; other users and
  all loans are kept, and with the chain check the chain has these values or was written with them.
\<close>

theorem recalc_ladder:
  assumes run: "recalcUser env gw chk user s = (r, s')" "r \<noteq> Inr Recalc_error"
    and u: "distinct (map user_id (users s))" "user \<in> set (users s)" "walletAddress user \<noteq> []" "score user \<noteq> None"
    and L: "L = getStepForOnTimeLoans (int (length (filter (\<lambda>l. loan_userId l = user_id user \<and> repaidOnTime l) (loans s))))"
    and k: "k = limitUsdc L * 10 ^ TOKEN_DECIMALS (BLOCKCHAIN_GATEWAY env)"
  shows "(\<exists>v \<in> set (users s'). user_id v = user_id user \<and> score v = Some (step_score L) \<and> creditLimit v = Some (of_int k)) \<and>
    (\<forall>v \<in> set (users s). v \<noteq> user \<longrightarrow> v \<in> set (users s')) \<and> loans s' = loans s \<and>
    (chk \<longrightarrow> (\<exists>risk. readUserRisk gw (walletAddress user) (chain s) = Inr (Some risk) \<and> ur_score risk = step_score L \<and>
        num_of_big (ur_limit risk) = of_int k) \<or>
      giveCreditScoreAndLimit gw (walletAddress user) (step_score L) k (chain s) = (Inr 200, chain s'))"
proof -
  have L': "L = getStepForOnTimeLoans (onTimeLoans_of (user_id user) s)" using L by (simp add: onTimeLoans_of_def count_loans_def)
  have pos: "k > 0" using step_units_Inr(2) [OF L'] k by simp
  have fixed: "toFixed 2 (of_int k) = of_int k" by (rule toFixed_of_int)
  obtain c where c: "s' = (if nullish (score user) 1 = step_score L \<and> nullish (creditLimit user) 0 = of_int k then s\<lparr>chain := c\<rparr>
       else snd (store_step user L (of_int k) (s\<lparr>chain := c\<rparr>)))"
     "chk \<longrightarrow> chain_agrees gw (walletAddress user) (step_score L) k (chain s) c"
    using recalcUser_run [OF run(1) u(3) run(2) L' k] by blast
  have uniq: "v = user" if "v \<in> set (users s)" "user_id v = user_id user" for v using that u(1,2) by (metis distinct_map inj_onD)
  have ch: "chain s' = c" "loans s' = loans s" using c(1) by (simp_all add: store_step_run split: if_splits)
  have "(\<exists>v \<in> set (users s'). user_id v = user_id user \<and> score v = Some (step_score L) \<and> creditLimit v = Some (of_int k)) \<and>
    (\<forall>v \<in> set (users s). v \<noteq> user \<longrightarrow> v \<in> set (users s'))"
  proof (cases "nullish (score user) 1 = step_score L \<and> nullish (creditLimit user) 0 = (of_int k :: rat)")
    case True
    then have "score user = Some (step_score L)" "creditLimit user = Some (of_int k)"
      using u(4) pos by (cases "score user"; cases "creditLimit user"; simp)+
    then show ?thesis using True c(1) u(2) by auto
  next
    case False
    define g where "g v = (if user_id v = user_id user then store_user (v\<lparr>xp := (if xpBase L > xp user then xpBase L else xp v),
        score := Some (step_score L), creditLimit := Some (of_int k)\<rparr>) else v)" for v
    have us: "users s' = map g (users s)" using c(1) [unfolded if_not_P [OF False]] by (simp add: store_step_run g_def [abs_def])
    have "score (g user) = Some (step_score L)" "creditLimit (g user) = Some (of_int k)" "user_id (g user) = user_id user"
      using fixed by (simp_all add: store_user_def g_def)
    moreover have mem: "g v \<in> set (users s')" if "v \<in> set (users s)" for v using that us by simp
    moreover have "v \<in> set (users s')" if "v \<in> set (users s)" "v \<noteq> user" for v
    proof -
      have "user_id v \<noteq> user_id user" using uniq [OF that(1)] that(2) by blast
      then have "g v = v" unfolding g_def by (rule if_not_P)
      then show ?thesis using mem [OF that(1)] by simp
    qed
    ultimately show ?thesis using u(2) by blast
  qed
  moreover have "(\<exists>risk. readUserRisk gw (walletAddress user) (chain s) = Inr (Some risk) \<and> ur_score risk = step_score L \<and>
        num_of_big (ur_limit risk) = of_int k) \<or>
      giveCreditScoreAndLimit gw (walletAddress user) (step_score L) k (chain s) = (Inr 200, chain s')" if chk
    using c(2) that ch(1) pos by (auto simp: chain_agrees_def chain_score_limit_def split: option.splits)
  ultimately show ?thesis using ch(2) by blast
qed

section \<open>The snapshot\<close>

definition late_columns :: "Loan \<Rightarrow> Loan \<Rightarrow> bool" where
  "late_columns l k \<longleftrightarrow> (\<exists>a b c d. k = l\<lparr>loan_lateRatePerSecWad := a, gracePeriodSec := b, lateFeesCurrentUsd := c, lateFeesSnapshotAt := d\<rparr>)"

definition late_row :: "nat set \<Rightarrow> Loan \<Rightarrow> Loan \<Rightarrow> bool" where
  "late_row I l k \<longleftrightarrow> late_columns l k \<and> (loan_id l \<in> I \<or> k = l)"

definition stored_loans :: "Loan list \<Rightarrow> bool" where
  "stored_loans rows \<longleftrightarrow> (\<forall>l \<in> set rows. store_loan l = l)"

definition late_frame :: "nat set \<Rightarrow> 'c world \<Rightarrow> 'c world \<Rightarrow> bool" where
  "late_frame I s t \<longleftrightarrow> (stored_loans (loans s) \<longrightarrow> stored_loans (loans t) \<and> users t = users s \<and> chain t = chain s \<and>
     list_all2 (late_row I) (loans s) (loans t))"

lemma late_columns_refl: "late_columns l l"
proof -
  have "l = l\<lparr>loan_lateRatePerSecWad := loan_lateRatePerSecWad l, gracePeriodSec := gracePeriodSec l,
    lateFeesCurrentUsd := lateFeesCurrentUsd l, lateFeesSnapshotAt := lateFeesSnapshotAt l\<rparr>" by simp
  then show ?thesis unfolding late_columns_def by blast
qed

lemma late_columns_trans: "late_columns l k \<Longrightarrow> late_columns k m \<Longrightarrow> late_columns l m \<and> loan_id k = loan_id l"
  unfolding late_columns_def by force

lemma late_row_refl [simp]: "late_row I l l"
  by (simp add: late_row_def late_columns_refl)

lemma late_row_trans: "late_row I l k \<Longrightarrow> late_row I k m \<Longrightarrow> late_row I l m"
  unfolding late_row_def using late_columns_trans by metis

interpretation late: world_frame "late_frame I" for I
proof
  fix s t u :: "'a world"
  show "late_frame I s s" by (simp add: late_frame_def list_all2_same)
  show "late_frame I s u" if a: "late_frame I s t" and b: "late_frame I t u"
    unfolding late_frame_def
  proof (intro impI)
    assume "stored_loans (loans s)"
    note st = a [unfolded late_frame_def, rule_format, OF this]
    note tu = b [unfolded late_frame_def, rule_format, OF conjunct1 [OF st]]
    have "list_all2 (late_row I) (loans s) (loans u)"
      by (rule list_all2_trans [of "late_row I" "late_row I" "late_row I" "loans s" "loans t" "loans u"])
        (rule late_row_trans, assumption, assumption, use st in simp, use tu in simp)
    then show "stored_loans (loans u) \<and> users u = users s \<and> chain u = chain s \<and> list_all2 (late_row I) (loans s) (loans u)"
      using st tu by simp
  qed
qed

lemma late_steps [intro, simp]: "late.keeps I (chain_read p)" "late.keeps I (sync_sleep ms)"
  by (auto simp: late.keeps_def late_frame_def chain_read_def sync_sleep_def smod_def list_all2_same)

lemma late_update:
  assumes "i \<in> I"
  shows "late.keeps I (update_loan i (\<lambda>l. l\<lparr>loan_lateRatePerSecWad := a, gracePeriodSec := b, lateFeesCurrentUsd := c, lateFeesSnapshotAt := d\<rparr>))"
proof -
  have st: "store_loan (l\<lparr>loan_lateRatePerSecWad := a, gracePeriodSec := b, lateFeesCurrentUsd := c, lateFeesSnapshotAt := d\<rparr>) =
      l\<lparr>loan_lateRatePerSecWad := a, gracePeriodSec := b, lateFeesCurrentUsd := map_option (toFixed 2) c, lateFeesSnapshotAt := d\<rparr>"
    if "store_loan l = l" for l
    using that by (cases l) (simp add: store_loan_def)
  have "late_row I l (store_loan (l\<lparr>loan_lateRatePerSecWad := a, gracePeriodSec := b, lateFeesCurrentUsd := c, lateFeesSnapshotAt := d\<rparr>))"
    if "store_loan l = l" "loan_id l = i" for l
    unfolding late_row_def late_columns_def st [OF that(1)] using that(2) assms by blast
  then show ?thesis
    unfolding late.keeps_def late_frame_def update_loan_def smod_def
    by (auto simp: list_all2_map2 list_all2_same stored_loans_def)
qed

lemma late_batches:
  assumes "\<And>x. x \<in> set xs \<Longrightarrow> late.keeps I (f x)"
  shows "late.keeps I (in_batches f xs)"
  using assms
proof (induction f xs rule: in_batches.induct)
  case (1 f xs)
  have "late.keeps I (settled_svc (f x))" if "x \<in> set xs" for x
    unfolding settled_svc_def using 1(2) that by (auto intro!: late.keeps_catch late.keeps_bind)
  moreover have "late.keeps I (in_batches f (drop BATCH_SIZE xs))" if "xs \<noteq> []" "drop BATCH_SIZE xs \<noteq> []"
    using 1(1) [OF that] 1(2) in_set_dropD by fastforce
  ultimately show ?case
    by (subst in_batches.simps) (auto intro!: late.keeps_if late.keeps_bind late.keeps_mapM dest: in_set_takeD)
qed

text \<open>
  The late-fee snapshot changes nothing but the four late-fee columns of open loans past
  their due date.
\<close>

theorem snapshot_frame:
  assumes run: "syncLateFeesSnapshot gw s = (r, s')" and ids: "distinct (map loan_id (loans s))"
    and st: "\<forall>l \<in> set (loans s). store_loan l = l"
  shows "users s' = users s \<and> chain s' = chain s \<and>
    list_all2 (\<lambda>l k. k = l \<or> status l = OPEN \<and> dueAt l < now s \<and>
       (\<exists>a b c d. k = l\<lparr>loan_lateRatePerSecWad := a, gracePeriodSec := b, lateFeesCurrentUsd := c, lateFeesSnapshotAt := d\<rparr>))
      (loans s) (loans s')"
proof -
  let ?I = "loan_id ` set (overdueLoans s)"
  have "late.keeps ?I (snapshot_loan gw clock l)" if "l \<in> set (overdueLoans s)" for clock l
    unfolding snapshot_loan_def late_terms_def Let_def using that
    by (auto intro!: late.keeps_bind late.keeps_if late_update split: option.split prod.split)
  then have "late.keeps ?I (in_batches (snapshot_loan gw (now s)) (overdueLoans s))" by (rule late_batches)
  moreover have "in_batches (snapshot_loan gw (now s)) (overdueLoans s) s = (r, s')"
    using run by (simp add: syncLateFeesSnapshot_def svc_simps)
  ultimately have fr: "late_frame ?I s s'" using late.keeps_run by blast
  have over: "l \<in> set (overdueLoans s)" if "l \<in> set (loans s)" "loan_id l \<in> ?I" for l
  proof -
    from that(2) obtain k where "k \<in> set (overdueLoans s)" "loan_id k = loan_id l" by auto
    moreover then have "k \<in> set (loans s)" by (simp add: overdueLoans_def)
    ultimately show ?thesis using that(1) ids by (metis distinct_map inj_onD)
  qed
  have weak: "k = l \<or> status l = OPEN \<and> dueAt l < now s \<and> late_columns l k" if "l \<in> set (loans s)" "late_row ?I l k" for l k
  proof (cases "k = l")
    case False
    then have "loan_id l \<in> ?I" "late_columns l k" using that(2) unfolding late_row_def by (blast, blast)
    then show ?thesis using over [OF that(1)] by (simp add: overdueLoans_def)
  qed simp
  have rows: "users s' = users s" "chain s' = chain s" "list_all2 (late_row ?I) (loans s) (loans s')"
    using fr st by (simp_all add: late_frame_def stored_loans_def)
  have "list_all2 (\<lambda>l k. k = l \<or> status l = OPEN \<and> dueAt l < now s \<and> late_columns l k) (loans s) (loans s')"
    by (rule list.rel_mono_strong [OF rows(3)]) (rule weak)
  then show ?thesis using rows(1,2) by (simp add: late_columns_def)
qed

section \<open>Examples\<close>

definition example_opened :: ChainLoanOpenedEvent where
  "example_opened = \<lparr>oe_borrower = example_wallet, oe_principal = 10000000, oe_amountDue = 10653000, oe_due = 604850,
     oe_feeBps = 653, oe_ledger = 5, oe_txHash = ''o1'', oe_timestamp = 50\<rparr>"

definition example_closed :: ChainLoanClosedEvent where
  "example_closed = \<lparr>ce_borrower = example_wallet, ce_amountPaid = 10000000, ce_txHash = ''c1'', ce_ledger = 6, ce_timestamp = 100\<rparr>"

definition sync_gw :: "bool BlockchainGatewayPort" where
  "sync_gw = example_gw\<lparr>findLoanClosedEvent := (\<lambda>w t b c. Inr (Some example_closed)), getLatestLedger := (\<lambda>c. Inr 20),
     getLoanOpenedEvents := (\<lambda>a b c. Inr (if a \<le> 5 \<and> 5 \<le> b then [example_opened] else [])),
     readUserRisk := (\<lambda>w c. Inr (Some \<lparr>ur_score = 1, ur_validUntil = 1, ur_limit = 0\<rparr>))\<rparr>"

definition example_sync :: "User list \<Rightarrow> Loan list \<Rightarrow> bool sync" where
  "example_sync us ls = \<lparr>base = \<lparr>users = us, loans = ls, chain = True, now = 0\<rparr>, cursor = Some 1, metrics = Map.empty\<rparr>"

lemma sync_gw_sel:
  "findLoanClosedEvent sync_gw w t b c = Inr (Some example_closed)" "getLatestLedger sync_gw c = Inr 20"
  "getLoanOpenedEvents sync_gw x y c = Inr (if x \<le> 5 \<and> 5 \<le> y then [example_opened] else [])"
  "readUserRisk sync_gw w c = Inr (Some \<lparr>ur_score = 1, ur_validUntil = 1, ur_limit = 0\<rparr>)"
  "giveCreditScoreAndLimit sync_gw w n l c = (Inr 200, c)"
  by (simp_all add: sync_gw_def example_gw_def)

lemma example_sel:
  "loan_id example_loan = 1" "loan_userId example_loan = 1" "status example_loan = OPEN" "closedAt example_loan = None"
  "openTxHash example_loan = Some ''h0''" "closeTxHash example_loan = None" "borrowerAddress example_loan = example_wallet"
  "user_id example_user = 1" "walletAddress example_user = example_wallet" "score example_user = Some 1"
  by (simp_all add: example_loan_def example_user_def)

lemma example_reconcile:
  "\<exists>s'. reconcileLoan example_env sync_gw 20 example_loan example_user (example_world True 0) = (Inr True, s')"
proof -
  have "reconcile_transaction example_env 1 (Some example_closed) (example_world True 0) =
      (Inr (Some (reconciled_loan example_env example_loan example_closed)), (example_world True 0)\<lparr>loans :=
        put_row loan_id (store_loan (reconciled_loan example_env example_loan example_closed)) [example_loan]\<rparr>)"
    by (simp add: reconcile_transaction_def transaction_def svc_simps example_world_def example_loan_def newest_def closer_to_def
        other_row_def hash_clash_def)
  moreover have "\<exists>t. sbind (updateCreditScore example_env sync_gw w i b) (\<lambda>_. sret True) s = (Inr True, t)" for w i b s
    using updateCreditScore_total [of example_env sync_gw w i b s] by (auto simp: sbind_def svc_simps)
  ultimately show ?thesis
    by (simp add: reconcileLoan_def svc_simps sync_gw_sel example_sel sbind_def [of "reconcile_transaction _ _ _"])
qed

lemma example_keys: "wf_keys [example_loan]"
  by (simp add: wf_keys_def)



theorem reconcile_sound_witness:
  "\<exists>s'. reconcileLoan example_env sync_gw 20 example_loan example_user (example_world True 0) = (Inr True, s') \<and>
     (\<exists>new \<in> set (loans s'). closeTxHash new = Some ''c1'' \<and> status new = REPAID_ON_TIME)"
proof -
  obtain t where run: "reconcileLoan example_env sync_gw 20 example_loan example_user (example_world True 0) = (Inr True, t)"
    using example_reconcile by blast
  have "wf_keys (loans (example_world True 0))" by (simp add: example_world_def example_keys)
  from reconcile_sound [OF run this] obtain e fresh new where
    e: "findLoanClosedEvent sync_gw (borrowerAddress example_loan) (startAt example_loan) 20 (chain (example_world True 0)) = Inr (Some e)"
    "fresh \<in> set (loans (example_world True 0))" and n: "new \<in> set (loans t)" "closeTxHash new = Some (ce_txHash e)"
    "status new = REPAID_ON_TIME \<longleftrightarrow> ce_timestamp e * 1000 \<le> dueAt fresh + 24 * 60 * 60 * 1000" by blast
  have "e = example_closed" "fresh = example_loan" using e by (simp_all add: sync_gw_sel example_world_def)
  then have "closeTxHash new = Some ''c1''" "status new = REPAID_ON_TIME" using n by (simp_all add: example_closed_def example_loan_def)
  then show ?thesis using run n(1) by blast
qed

lemma example_scan_start: "nullish (cursor (example_sync us ls)) 0 = 1" "chain (base (example_sync us ls)) = True"
    "loans (base (example_sync us ls)) = ls" "users (base (example_sync us ls)) = us"
    "user_by_wallet w (base (example_sync [] ls)) = None" "user_by_wallet example_wallet (base (example_sync [example_user] ls)) = Some example_user"
  by (simp_all add: example_sync_def user_by_wallet_def example_user_def)

theorem scan_complete_witness:
  "\<exists>n s'. scanLoanOpenedEvents example_env sync_gw (example_sync [example_user] []) = (Inr n, s') \<and> cursor s' = Some 20 \<and>
     (\<exists>l \<in> set (loans (base s')). openTxHash l = Some ''o1'')"
proof -
  have h: "getLatestLedger sync_gw (chain (base (example_sync [example_user] []))) = Inr 20"
    "getLoanOpenedEvents sync_gw (1 + 1) (min (1 + 10000) 20) (chain (base (example_sync [example_user] []))) = Inr [example_opened]"
    by (simp_all add: sync_gw_sel)
  have "user_by_wallet (oe_borrower example_opened) (base (example_sync [example_user] [])) = Some example_user"
    by (simp add: example_opened_def example_scan_start)
  with scan_complete [of sync_gw "example_sync [example_user] []" 20 1 "[example_opened]" example_env] h show ?thesis
    by (auto simp: example_scan_start example_opened_def)
qed

theorem scan_loses_event_witness:
  "\<exists>s'. snd (scanLoanOpenedEvents example_env sync_gw (example_sync [] [])) = s' \<and>
     (\<forall>l \<in> set (loans (base (snd (scanLoanOpenedEvents example_env sync_gw (s'\<lparr>base := (base s')\<lparr>users := [example_user]\<rparr>\<rparr>))))).
        openTxHash l \<noteq> Some ''o1'')"
proof -
  let ?s = "example_sync [] []"
  obtain r s' where s': "scanLoanOpenedEvents example_env sync_gw ?s = (r, s')" by fastforce
  let ?t = "s'\<lparr>base := (base s')\<lparr>users := [example_user]\<rparr>\<rparr>"
  obtain r' t' where t': "scanLoanOpenedEvents example_env sync_gw ?t = (r', t')" by fastforce
  have "\<forall>l \<in> set (loans (base t')). openTxHash l \<noteq> Some (oe_txHash example_opened)"
    by (rule scan_loses_event [of sync_gw ?s 20 1 "[example_opened]" example_opened example_env r s' ?t r' t'])
      (use s' t' in \<open>auto simp: sync_gw_sel example_scan_start example_opened_def split: if_splits\<close>)
  then show ?thesis using s' t' by (simp add: example_opened_def)
qed

theorem scan_second_open_witness:
  "\<exists>l \<in> set (loans (base (snd (scanLoanOpenedEvents example_env sync_gw (example_sync [example_user] [example_loan]))))).
     l \<noteq> example_loan \<and> loan_userId l = 1 \<and> status l = OPEN"
proof -
  let ?s = "example_sync [example_user] [example_loan]"
  obtain r s' where s': "scanLoanOpenedEvents example_env sync_gw ?s = (r, s')" by fastforce
  have "\<exists>l \<in> set (loans (base s')). example_loan \<in> set (loans (base s')) \<and> l \<noteq> example_loan \<and> loan_userId l = loan_userId example_loan \<and>
    status l = OPEN \<and> status example_loan = OPEN \<and> closedAt l = None"
    by (rule scan_second_open [of sync_gw ?s 20 1 "[example_opened]" example_opened example_user example_loan example_env r s'])
      (use s' in \<open>simp_all add: sync_gw_sel example_scan_start example_opened_def example_sel\<close>)
  then show ?thesis using s' by (auto simp: example_sel)
qed


text \<open>Six batches: a user without a wallet, then twenty-nine whose offers end soon.\<close>

definition renew_world :: "bool world" where
  "renew_world = \<lparr>users = example_user\<lparr>walletAddress := []\<rparr> # replicate 29 example_user, loans = [], chain = True, now = 0\<rparr>"

lemma renew_example:
  assumes "0 < t" "\<forall>u \<in> set us. creditLimit u = None"
  shows "smapM (renew_offer example_env sync_gw t) us = sret (map (\<lambda>u. if walletAddress u = [] then 0 else 1) us)"
  using assms(2)
proof (induction us)
  case (Cons u us)
  have "renew_offer example_env sync_gw t u = sret (if walletAddress u = [] then 0 else 1)"
  proof -
    have b: "big_of_num (num_of_big 10000000) = Inr (10000000 :: int)"
    proof -
      have "num_of_big 10000000 = (10000000 :: rat)" unfolding num_of_big_def using fl_of_int [of 10000000] by simp
      then show ?thesis by (simp add: big_of_num_def)
    qed
    have d: "DEFAULT_CREDIT_LIMIT_USDC (BLOCKCHAIN_GATEWAY example_env) = Inr 10000000"
      using toUnits_Num [of 1 "TOKEN_DECIMALS (BLOCKCHAIN_GATEWAY example_env)"]
      by (simp add: DEFAULT_CREDIT_LIMIT_USDC_def) (simp add: example_env_def, code_simp)
    have g: "giveCreditScoreAndLimit sync_gw w n l c = (Inr 200, c)" "readUserRisk sync_gw w c = Inr (Some \<lparr>ur_score = 1, ur_validUntil = 1, ur_limit = 0\<rparr>)"
      for w n l c by (simp_all add: sync_gw_sel)
    have "renew_offer example_env sync_gw t u s = sret (if walletAddress u = [] then 0 else 1) s" for s
      using Cons.prems assms(1) b d g by (simp add: renew_offer_def svc_simps limit_or_default_def)
    then show ?thesis by (rule ext)
  qed
  then show ?case using Cons by (simp add: sbind_ret)
qed simp

text \<open>
  A run of the renewal always ends and renews at most 29 offers, four more than its cap of 25,
  and there is a run that renews 29: the tasks of a batch all test the counter before any of them
  raises it.
\<close>

theorem renew_cap:
  "(\<exists>n s'. renewExpiredOffers env gw s = (Inr n, s') \<and> n \<le> 29) \<and>
   MAX_RENEWALS = 25 \<and> fst (renewExpiredOffers example_env sync_gw renew_world) = Inr 29"
proof (intro conjI)
  show "\<exists>n s'. renewExpiredOffers env gw s = (Inr n, s') \<and> n \<le> 29"
    using renew_batches_run [of 0 env gw "now s div 1000 + 3 * 24 * 60 * 60" "verifiedUsers s" s]
    by (simp add: renewExpiredOffers_def svc_simps MAX_RENEWALS_def)
  show "MAX_RENEWALS = 25" by (simp add: MAX_RENEWALS_def)
  let ?e = "example_user\<lparr>walletAddress := []\<rparr>"
  have c: "creditLimit example_user = None" "creditLimit ?e = None" "walletAddress example_user \<noteq> []" "walletAddress ?e = []"
    by (simp_all add: example_user_def example_wallet_def)
  have one: "renew_batches example_env sync_gw t (replicate (Suc k * 5) example_user) n s =
      (if n \<ge> 25 then sret n s
       else if k = 0 then sret (n + 5) s
       else renew_batches example_env sync_gw t (replicate (k * 5) example_user) (n + 5) (s\<lparr>now := now s + 200\<rparr>))"
    if "0 < t" for t k n s
    using renew_example [OF that, of "replicate 5 example_user"] c
    by (subst renew_batches.simps)
      (simp add: BATCH_SIZE_def MAX_RENEWALS_def BATCH_DELAY_MS_def svc_simps sync_sleep_def take_replicate drop_replicate sum_list_replicate)
  have first: "renew_batches example_env sync_gw t (?e # replicate 29 example_user) 0 s =
      renew_batches example_env sync_gw t (replicate (5 * 5) example_user) 4 (s\<lparr>now := now s + 200\<rparr>)" if "0 < t" for t s
    using renew_example [OF that, of "?e # replicate 4 example_user"] c
    by (subst renew_batches.simps)
      (simp add: BATCH_SIZE_def MAX_RENEWALS_def BATCH_DELAY_MS_def svc_simps sync_sleep_def take_Cons drop_Cons numeral_eq_Suc)
  have run: "fst (renew_batches example_env sync_gw t (replicate (5 * 5) example_user) 4 s) = Inr 29" if "0 < t" for t s
    using one [OF that, of 4] one [OF that, of 3] one [OF that, of 2] one [OF that, of 1] one [OF that, of 0] by (simp add: svc_simps)
  have "score example_user \<noteq> None" "score ?e \<noteq> None" by (simp_all add: example_user_def)
  then have "verifiedUsers renew_world = ?e # replicate 29 example_user" by (simp add: verifiedUsers_def renew_world_def)
  then show "fst (renewExpiredOffers example_env sync_gw renew_world) = Inr 29"
    using first run by (simp add: renewExpiredOffers_def svc_simps renew_world_def)
qed

definition recalc_world :: "bool world" where
  "recalc_world = \<lparr>users = [example_user], loans = [], chain = True, now = 0\<rparr>"

theorem recalc_ladder_witness:
  "\<exists>s'. recalcUser example_env sync_gw True example_user recalc_world = (Inr Recalc_chain, s') \<and>
     (\<exists>v \<in> set (users s'). score v = Some 1 \<and> creditLimit v = Some 10000000)"
proof -
  let ?L = "getStepForOnTimeLoans (int (length (filter (\<lambda>l. loan_userId l = user_id example_user \<and> repaidOnTime l) (loans recalc_world))))"
  define k where "k = limitUsdc ?L * 10 ^ TOKEN_DECIMALS (BLOCKCHAIN_GATEWAY example_env)"
  have L: "?L = getStepForOnTimeLoans (onTimeLoans_of (user_id example_user) recalc_world)" by (simp add: onTimeLoans_of_def count_loans_def)
  have v: "k = 10000000" "step_score ?L = 1"
    unfolding k_def by (simp_all add: recalc_world_def) (simp add: example_env_def, code_simp+)
  have u: "step_units example_env ?L = Inr (of_int k)" using step_units_Inr(1) [OF L] unfolding k_def .
  have w: "walletAddress example_user \<noteq> []" "creditLimit example_user = None" by (simp_all add: example_user_def example_wallet_def)
  obtain s' where run: "recalcUser example_env sync_gw True example_user recalc_world = (Inr Recalc_chain, s')"
  proof -
    have "big_of_num (of_int k) = Inr k" by (simp add: big_of_num_def)
    moreover have "chain_score_limit (Some \<lparr>ur_score = 1, ur_validUntil = 1, ur_limit = 0\<rparr>) \<noteq> (step_score ?L, of_int k)"
      using v by (simp add: chain_score_limit_def num_of_big_def)
    ultimately have "\<exists>s'. recalcUser example_env sync_gw True example_user recalc_world = (Inr Recalc_chain, s')"
      using w u v(1) unfolding recalcUser_def
      by (simp add: svc_simps L [symmetric] Let_def sync_gw_sel sbind_assoc sbind_def [of "store_step _ _ _"] store_step_run)
    then show ?thesis using that by blast
  qed
  have "\<exists>v \<in> set (users s'). user_id v = user_id example_user \<and> score v = Some (step_score ?L) \<and> creditLimit v = Some (of_int k)"
    using recalc_ladder [OF run _ _ _ w(1) _ refl k_def] by (simp add: recalc_world_def example_sel)
  then show ?thesis using run v by auto
qed

theorem snapshot_frame_witness:
  "users (snd (syncLateFeesSnapshot sync_gw (example_world True 700000000))) = [example_user]"
proof -
  obtain r s' where s': "syncLateFeesSnapshot sync_gw (example_world True 700000000) = (r, s')" by fastforce
  have "toFixed 2 1 = 1" "toFixed 2 0 = 0" using toFixed_of_int [of 2 1] toFixed_of_int [of 2 0] by simp_all
  then have "store_loan example_loan = example_loan" by (simp add: example_loan_def store_loan_def)
  moreover have w: "loans (example_world True 700000000) = [example_loan]" "users (example_world True 700000000) = [example_user]"
    by (simp_all add: example_world_def)
  ultimately have "users s' = [example_user]" using snapshot_frame [OF s'] unfolding w by simp
  then show ?thesis using s' by simp
qed

end
