(* ===== verification/Loan_Verification.thy ===== *)
theory Loan_Verification
  imports Loan_Service Identity
begin

text \<open>
  Opening the credit line: \<open>backend/src/loan/loan-verification.service.ts\<close> with the early-access
  ranking (\<open>user/early-access.service.ts\<close>), the waitlist limit (\<open>user/user-query.service.ts\<close>)
  and the Self check of Farcaster users (\<open>self/self.service.ts\<close>). The Self verifications are a
  list of user ids with their flag.
\<close>

section \<open>Platforms and early access\<close>

definition normalizePlatform :: "string option \<Rightarrow> string option" where
  "normalizePlatform p =
     (if falsy_str p then None
      else let v = to_lower (js_trim (the p)) in if v \<in> {''lemon'', ''farcaster'', ''webapp''} then Some v else None)"

definition EARLY_USER_BADGE_LIMIT :: int where "EARLY_USER_BADGE_LIMIT = 1000"

definition getRankWithinPlatform :: "User \<Rightarrow> string \<Rightarrow> 'c world \<Rightarrow> int" where
  "getRankWithinPlatform user pf s =
     int (length (filter (\<lambda>u. (platform u = Some pf \<or> platform u = None \<and> pf = ''lemon'') \<and>
       (waitlistPriority u < waitlistPriority user \<or>
        waitlistPriority u = waitlistPriority user \<and> user_createdAt u \<le> user_createdAt user)) (users s)))"

definition isEarlyUser :: "User \<Rightarrow> string option \<Rightarrow> 'c world \<Rightarrow> bool" where
  "isEarlyUser user override s =
     (let pf = nullish (orelse override (normalizePlatform (platform user))) ''lemon''
      in pf = ''lemon'' \<and> getRankWithinPlatform user pf s \<le> EARLY_USER_BADGE_LIMIT)"

definition findUsersToNotifyEarlyAccess :: "'c world \<Rightarrow> User list" where
  "findUsersToNotifyEarlyAccess s =
     (let candidates = take 100 (sort_key user_createdAt (filter (\<lambda>u. email u \<noteq> None \<and> waitlistJoinedAt u \<noteq> None \<and>
            earlyAccessNotifiedAt u = None \<and> riskDecision u = Some ''admit'') (users s)))
      in filter (\<lambda>u. \<not> count_loans (\<lambda>l. loan_userId l = user_id u) s > 0 \<and> isEarlyUser u None s) candidates)"

definition markEarlyAccessNotified :: "nat \<Rightarrow> ('c world, unit) svc" where
  "markEarlyAccessNotified userId =
     sbind (sget now) (\<lambda>t. update_user userId (\<lambda>u. u\<lparr>earlyAccessNotifiedAt := Some t\<rparr>))"

definition getUserUntilWaitlist :: "string \<Rightarrow> int" where "getUserUntilWaitlist pf = 0"

section \<open>The Self check\<close>

definition isUserSelfVerified :: "(nat \<times> bool) list \<Rightarrow> nat \<Rightarrow> bool" where
  "isUserSelfVerified selfRows userId =
     (userId \<noteq> 0 \<and> (case find (\<lambda>r. fst r = userId) selfRows of None \<Rightarrow> False | Some r \<Rightarrow> snd r))"

definition ensureSelfVerificationForPlatform :: "(nat \<times> bool) list \<Rightarrow> User \<Rightarrow> ('s, unit) svc" where
  "ensureSelfVerificationForPlatform selfRows user =
     (if to_lower (nullish (platform user) []) \<noteq> ''farcaster'' then sret ()
      else srequire (isUserSelfVerified selfRows (user_id user))
             (PreconditionRequired ''SELF_VERIFICATION_REQUIRED_FOR_FARCASTER''))"

section \<open>Verification\<close>

record VerifyUserDto =
  vu_walletAddress :: string
  vu_platform :: "string option"

record VerifyResult =
  vr_alreadyHadCredit :: bool
  vr_refreshedOnChain :: bool
  vr_userId :: nat
  vr_walletAddress :: string
  vr_score :: "int option"
  vr_creditLimit :: "rat option"

text \<open>The platform is stored when it was missing, and again when it was not one of the known ones.\<close>

definition set_platform :: "bool \<Rightarrow> string \<Rightarrow> User \<Rightarrow> ('c world, User) svc" where
  "set_platform b pf user =
     (if b then sbind (update_user (user_id user) (\<lambda>u. u\<lparr>platform := Some pf\<rparr>)) (\<lambda>_. sret (user\<lparr>platform := Some pf\<rparr>))
      else sret user)"

definition alreadyHasCredit :: "User \<Rightarrow> bool" where
  "alreadyHasCredit user =
     ((case creditLimit user of None \<Rightarrow> False | Some c \<Rightarrow> c > 0) \<and>
      (case score user of None \<Rightarrow> False | Some n \<Rightarrow> n \<ge> DEFAULT_SCORE))"

definition existing_credit :: "env \<Rightarrow> 'c BlockchainGatewayPort \<Rightarrow> string \<Rightarrow> User \<Rightarrow> ('c world, VerifyResult) svc" where
  "existing_credit env gw wallet user =
     sbind (chain_read (readCreditLimitOnChain gw wallet)) (\<lambda>onChainLimit.
     let answer = \<lparr>vr_alreadyHadCredit = True, vr_refreshedOnChain = False, vr_userId = user_id user,
           vr_walletAddress = walletAddress user, vr_score = score user, vr_creditLimit = creditLimit user\<rparr>
     in if onChainLimit > 0 then sret answer
        else
          sbind (slift (toUnits (Num (limitUsdc (getStepForScore (nullish (score user) 1))))
                   (TOKEN_DECIMALS (BLOCKCHAIN_GATEWAY env)))) (\<lambda>adjustedLimitUnits.
          sbind (scatch (chain_write (giveCreditScoreAndLimit gw wallet (the (score user)) adjustedLimitUnits))
                   (\<lambda>_. sthrow (BadRequest ''Failed to refresh on-chain credit line''))) (\<lambda>_.
          sret (answer\<lparr>vr_refreshedOnChain := True\<rparr>))))"

definition first_credit :: "env \<Rightarrow> 'c BlockchainGatewayPort \<Rightarrow> string \<Rightarrow> User \<Rightarrow> ('c world, VerifyResult) svc" where
  "first_credit env gw wallet user =
     sbind (slift (DEFAULT_CREDIT_LIMIT_USDC (BLOCKCHAIN_GATEWAY env))) (\<lambda>lim.
     sbind (scatch (chain_write (giveCreditScoreAndLimit gw wallet DEFAULT_SCORE lim))
              (\<lambda>_. sthrow (BadRequest ''Failed to set on-chain credit line''))) (\<lambda>result.
     sbind (srequire (result = 200) (BadRequest ''Setting credit line failed'')) (\<lambda>_.
     sbind (update_user (user_id user) (\<lambda>u. u\<lparr>score := Some DEFAULT_SCORE, creditLimit := Some (num_of_big lim)\<rparr>)) (\<lambda>_.
     sbind (sget (user_by_wallet wallet)) (\<lambda>fresh.
     case fresh of
       None \<Rightarrow> sthrow (BadRequest ''Identity verification failed'')
     | Some f \<Rightarrow>
         sret \<lparr>vr_alreadyHadCredit = False, vr_refreshedOnChain = False, vr_userId = user_id f,
               vr_walletAddress = walletAddress f, vr_score = score f, vr_creditLimit = creditLimit f\<rparr>)))))"

text \<open>
  The source compares the platform a second time after the Self check; the user's platform is the
  effective one by then, so that branch is never taken and has no step here.
\<close>

definition verify :: "env \<Rightarrow> 'c BlockchainGatewayPort \<Rightarrow> (nat \<times> bool) list \<Rightarrow> VerifyUserDto \<Rightarrow> ('c world, VerifyResult) svc" where
  "verify env gw selfRows dto =
     sbind (slift (normalizeWallet (vu_walletAddress dto))) (\<lambda>wallet.
     let platformNorm = normalizePlatform (vu_platform dto)
     in sbind (sget (user_by_wallet wallet)) (\<lambda>found.
     case found of
       None \<Rightarrow> sthrow (NotFound ''User not found'')
     | Some user0 \<Rightarrow>
         sbind (srequire (\<not> falsy_str (email user0)) (Forbidden ''email'')) (\<lambda>_.
         sbind (srequire (\<not> falsy_str (workType user0)) (Forbidden ''workType'')) (\<lambda>_.
         sbind (set_platform (falsy_str (platform user0) \<and> platformNorm \<noteq> None) (nullish platformNorm []) user0) (\<lambda>user1.
         let effectivePlatform = nullish (orelse (normalizePlatform (platform user1)) platformNorm) ''lemon''
         in sbind (set_platform (platform user1 \<noteq> Some effectivePlatform) effectivePlatform user1) (\<lambda>user.
         sbind (srequire (\<not> (termsAcceptedAt user = None \<and> effectivePlatform \<noteq> ''farcaster'')) (Forbidden ''terms'')) (\<lambda>_.
         sbind (ensureSelfVerificationForPlatform selfRows user) (\<lambda>_.
         let waitlistLimit = getUserUntilWaitlist effectivePlatform
         in sbind (sget (isEarlyUser user (Some effectivePlatform))) (\<lambda>early.
         sbind (srequire (waitlistLimit \<le> 0 \<or> early) (Forbidden ''Early access cupo completo'')) (\<lambda>_.
         if alreadyHasCredit user then existing_credit env gw wallet user
         else first_credit env gw wallet user))))))))))"

section \<open>Lemmas\<close>

text \<open>The users of a world after a change of one row; the other rows are the ones before.\<close>

definition with_row :: "User list \<Rightarrow> User \<Rightarrow> User \<Rightarrow> User list" where
  "with_row us user v = map (\<lambda>u. if u = user then v else u) us"

definition wf_rows :: "User list \<Rightarrow> bool" where
  "wf_rows us \<longleftrightarrow> distinct (map user_id us) \<and> (\<forall>u \<in> set us. store_user u = u)"

lemma with_row_same [simp]: "with_row us user user = us"
  by (simp add: with_row_def map_idI)

lemma store_platform: "store_user u = u \<Longrightarrow> store_user (u\<lparr>platform := p\<rparr>) = u\<lparr>platform := p\<rparr>"
  by (cases u) (simp add: store_user_def)

lemma with_row_update:
  assumes "wf_rows us" "user \<in> set us" "user_id v = user_id user" "store_user (f v) = f v"
  shows "map (\<lambda>u. if user_id u = user_id v then store_user (f u) else u) (with_row us user v) = with_row us user (f v)"
proof -
  have "u = user" if "u \<in> set us" "user_id u = user_id user" for u
    using that assms(1,2) by (metis wf_rows_def distinct_map inj_onD)
  then show ?thesis using assms(3,4) by (auto simp: with_row_def)
qed

lemma set_platform_run:
  assumes wf: "wf_rows us" and user: "user0 \<in> set us" and s: "users s = with_row us user0 (user0\<lparr>platform := p\<rparr>)"
  shows "set_platform b pf (user0\<lparr>platform := p\<rparr>) s =
    (Inr (user0\<lparr>platform := if b then Some pf else p\<rparr>), s\<lparr>users := with_row us user0 (user0\<lparr>platform := if b then Some pf else p\<rparr>)\<rparr>)"
proof (cases b)
  case True
  have "store_user (user0\<lparr>platform := Some pf\<rparr>) = user0\<lparr>platform := Some pf\<rparr>"
    using wf user by (intro store_platform) (simp add: wf_rows_def)
  then show ?thesis
    using True with_row_update [OF wf user, of "user0\<lparr>platform := p\<rparr>" "\<lambda>u. u\<lparr>platform := Some pf\<rparr>"]
    by (simp add: set_platform_def svc_simps s)
next
  case False
  then show ?thesis using s by (cases s) (simp add: set_platform_def svc_simps)
qed

lemma with_row_wallet:
  assumes "user_by_wallet w s = Some user" "walletAddress v = walletAddress user" "users t = with_row (users s) user v"
  shows "user_by_wallet w t = Some v"
proof -
  have "find (\<lambda>u. walletAddress u = w) us = Some user \<Longrightarrow> find (\<lambda>u. walletAddress u = w) (with_row us user v) = Some v" for us
    using assms(2) by (induction us) (auto simp: with_row_def split: if_splits)
  then show ?thesis using assms(1,3) by (simp add: user_by_wallet_def)
qed

text \<open>The platform of a verified user: the stored one when it is known, else the one of the request, else Lemon.\<close>

definition effective_platform :: "VerifyUserDto \<Rightarrow> User \<Rightarrow> string" where
  "effective_platform dto user = nullish (orelse (normalizePlatform (platform user)) (normalizePlatform (vu_platform dto))) ''lemon''"

lemma normalizePlatform_idem: "normalizePlatform p = Some v \<Longrightarrow> normalizePlatform (Some v) = Some v"
proof -
  assume "normalizePlatform p = Some v"
  then have "v \<in> {''lemon'', ''farcaster'', ''webapp''}" by (auto simp: normalizePlatform_def Let_def split: if_splits)
  moreover have "normalizePlatform (Some ''lemon'') = Some ''lemon''" "normalizePlatform (Some ''farcaster'') = Some ''farcaster''"
    "normalizePlatform (Some ''webapp'') = Some ''webapp''" by code_simp+
  ultimately show ?thesis by auto
qed

lemma effective_platform_step:
  assumes "pn = normalizePlatform (vu_platform dto)"
  shows "nullish (orelse (normalizePlatform (if falsy_str (platform user) \<and> (\<exists>y. pn = Some y) then Some (nullish pn []) else platform user)) pn) ''lemon'' =
    effective_platform dto user"
  using assms normalizePlatform_idem [of "vu_platform dto"]
  by (cases pn) (auto simp: effective_platform_def orelse_def nullish_def normalizePlatform_def [of "platform user"])

text \<open>What is known when the checks of a verification have passed.\<close>

lemma verify_run:
  assumes run: "verify env gw selfRows dto s = (Inr x, s')" and wf: "wf_rows (users s)"
  shows "\<exists>wallet user0 user t. normalizeWallet (vu_walletAddress dto) = Inr wallet \<and> user_by_wallet wallet s = Some user0 \<and>
    \<not> falsy_str (email user0) \<and> \<not> falsy_str (workType user0) \<and> user = user0\<lparr>platform := Some (effective_platform dto user0)\<rparr> \<and>
    (termsAcceptedAt user0 \<noteq> None \<or> effective_platform dto user0 = ''farcaster'') \<and>
    (effective_platform dto user0 = ''farcaster'' \<longrightarrow> isUserSelfVerified selfRows (user_id user0)) \<and>
    t = s\<lparr>users := with_row (users s) user0 user\<rparr> \<and>
    (if alreadyHasCredit user then existing_credit env gw wallet user else first_credit env gw wallet user) t = (Inr x, s')"
proof -
  obtain wallet where w: "normalizeWallet (vu_walletAddress dto) = Inr wallet"
    using run by (auto simp: verify_def svc_simps split: sum.splits)
  obtain user0 where u: "user_by_wallet wallet s = Some user0"
    using run w by (auto simp: verify_def svc_simps Let_def split: option.splits)
  have mem: "user0 \<in> set (users s)" using user_by_walletD [OF u] by simp
  define pn where "pn = normalizePlatform (vu_platform dto)"
  define b1 where "b1 \<longleftrightarrow> falsy_str (platform user0) \<and> (\<exists>y. pn = Some y)"
  define p1 where "p1 = (if b1 then Some (nullish pn []) else platform user0)"
  define t1 where "t1 = s\<lparr>users := with_row (users s) user0 (user0\<lparr>platform := p1\<rparr>)\<rparr>"
  have t1: "set_platform b1 (nullish pn []) user0 s = (Inr (user0\<lparr>platform := p1\<rparr>), t1)"
    using set_platform_run [OF wf mem, of s "platform user0" b1 "nullish pn []"] by (simp add: t1_def p1_def)
  define eff where "eff = nullish (orelse (normalizePlatform p1) pn) ''lemon''"
  have eff: "eff = effective_platform dto user0"
    using effective_platform_step [OF pn_def, of user0] by (simp add: eff_def p1_def b1_def)
  define b2 where "b2 \<longleftrightarrow> p1 \<noteq> Some eff"
  define u2 where "u2 = user0\<lparr>platform := Some eff\<rparr>"
  define t2 where "t2 = s\<lparr>users := with_row (users s) user0 u2\<rparr>"
  have "users t1 = with_row (users s) user0 (user0\<lparr>platform := p1\<rparr>)" by (simp add: t1_def)
  from set_platform_run [OF wf mem this, of b2 eff]
  have t2: "set_platform b2 eff (user0\<lparr>platform := p1\<rparr>) t1 = (Inr u2, t2)"
    by (cases b2) (simp_all add: b2_def u2_def t1_def t2_def)
  have p2: "platform u2 = Some eff" by (simp add: u2_def)
  have em: "\<not> falsy_str (email user0)" using run w u by (auto simp: verify_def svc_simps Let_def split: if_splits)
  have wt: "\<not> falsy_str (workType user0)" using run w u em by (auto simp: verify_def svc_simps Let_def split: if_splits)
  define k where "k = (sbind (srequire (\<not> (termsAcceptedAt u2 = None \<and> eff \<noteq> ''farcaster'')) (Forbidden ''terms'')) (\<lambda>_.
     sbind (ensureSelfVerificationForPlatform selfRows u2) (\<lambda>_.
     if alreadyHasCredit u2 then existing_credit env gw wallet u2 else first_credit env gw wallet u2)))"
  have skip: "sbind (sget f) (\<lambda>_. sbind (srequire True e) (\<lambda>_. m)) = m"
    for f :: "'a world \<Rightarrow> bool" and e and m :: "('a world, VerifyResult) svc"
    by (simp add: fun_eq_iff svc_simps)
  have "verify env gw selfRows dto s = k t2"
    using w u em wt t1 t2
    by (simp add: verify_def svc_simps Let_def pn_def [symmetric] b1_def [symmetric] eff_def [symmetric] b2_def [symmetric]
        sbind_def [of "set_platform _ _ _"] getUserUntilWaitlist_def k_def skip)
  with run have k: "k t2 = (Inr x, s')" by simp
  then have te: "\<not> (termsAcceptedAt u2 = None \<and> eff \<noteq> ''farcaster'')" by (auto simp: k_def svc_simps split: if_splits)
  have far: "to_lower ''farcaster'' = ''farcaster''" by code_simp
  have sv: "eff \<noteq> ''farcaster'' \<or> isUserSelfVerified selfRows (user_id u2)"
    using k te far p2 by (auto simp: k_def svc_simps ensureSelfVerificationForPlatform_def nullish_def split: if_splits)
  have "ensureSelfVerificationForPlatform selfRows u2 t2 = (Inr (), t2)"
    using k te by (auto simp: k_def svc_simps ensureSelfVerificationForPlatform_def srequire_def sbind_def [of "if _ then _ else _"]
        split: if_splits)
  then have "(if alreadyHasCredit u2 then existing_credit env gw wallet u2 else first_credit env gw wallet u2) t2 = (Inr x, s')"
    using k te by (simp add: k_def svc_simps sbind_def [of "ensureSelfVerificationForPlatform _ _"])
  moreover have "termsAcceptedAt u2 = termsAcceptedAt user0" "user_id u2 = user_id user0" by (simp_all add: u2_def)
  ultimately show ?thesis
    using w u em wt te sv eff by (intro exI [of _ wallet] exI [of _ user0] exI [of _ u2] exI [of _ t2]) (simp add: u2_def t2_def)
qed

lemma default_limit: "DEFAULT_CREDIT_LIMIT_USDC g = Inr (10 ^ TOKEN_DECIMALS g)"
  using toUnits_Num [of 1] by (simp add: DEFAULT_CREDIT_LIMIT_USDC_def)

lemma existing_credit_run:
  assumes e: "existing_credit env gw wallet user t = (Inr x, s')" and n: "score user = Some n"
  shows "users s' = users t \<and> loans s' = loans t \<and> (\<exists>lim. readCreditLimitOnChain gw wallet (chain t) = Inr lim \<and>
    (if lim > 0 then chain s' = chain t
     else \<exists>k. giveCreditScoreAndLimit gw wallet n
            (limitUsdc (getStepForScore n) * 10 ^ TOKEN_DECIMALS (BLOCKCHAIN_GATEWAY env)) (chain t) = (Inr k, chain s')))"
proof -
  have u: "toUnits (Num (limitUsdc (getStepForScore n))) d = Inr (limitUsdc (getStepForScore n) * 10 ^ d)" for d
    using step_range [OF getStepForScore_mem, of n] by (intro toUnits_Num) simp
  obtain lim where lim: "readCreditLimitOnChain gw wallet (chain t) = Inr lim"
    using e by (auto simp: existing_credit_def svc_simps split: sum.splits)
  have "users s' = users t \<and> loans s' = loans t \<and> (if lim > 0 then chain s' = chain t
      else \<exists>k. giveCreditScoreAndLimit gw wallet n (limitUsdc (getStepForScore n) * 10 ^ TOKEN_DECIMALS (BLOCKCHAIN_GATEWAY env)) (chain t) = (Inr k, chain s'))"
    using e lim n u
    by (auto simp: existing_credit_def svc_simps Let_def sbind_def [of "scatch _ _"] chain_write_def nullish_def
        split: if_splits sum.splits prod.splits)
  then show ?thesis using lim by blast
qed

lemma first_credit_run:
  assumes f: "first_credit env gw wallet user t = (Inr x, s')"
    and wf: "wf_rows us" "user0 \<in> set us" and user: "user = user0\<lparr>platform := p\<rparr>"
    and t: "users t = with_row us user0 user" "user_by_wallet wallet t = Some user"
  shows "users s' = with_row us user0 (user\<lparr>score := Some 1, creditLimit := Some (10 ^ TOKEN_DECIMALS (BLOCKCHAIN_GATEWAY env))\<rparr>) \<and>
    loans s' = loans t \<and> giveCreditScoreAndLimit gw wallet 1 (10 ^ TOKEN_DECIMALS (BLOCKCHAIN_GATEWAY env)) (chain t) = (Inr 200, chain s') \<and>
    vr_score x = Some 1 \<and> vr_creditLimit x = Some (10 ^ TOKEN_DECIMALS (BLOCKCHAIN_GATEWAY env))"
proof -
  let ?d = "10 ^ TOKEN_DECIMALS (BLOCKCHAIN_GATEWAY env) :: int"
  have "\<bar>?d\<bar> < 2 ^ 53" by (simp add: TOKEN_DECIMALS_def STELLAR_TOKEN_DECIMALS_def EVM_USDC_DECIMALS_def)
  then have num: "num_of_big ?d = of_int ?d" unfolding num_of_big_def by (rule fl_of_int)
  have fixed: "toFixed 2 (of_int ?d) = of_int ?d" by (rule toFixed_of_int)
  obtain c where c: "giveCreditScoreAndLimit gw wallet 1 ?d (chain t) = (Inr 200, c)"
    using f by (auto simp: first_credit_def default_limit svc_simps sbind_def [of "scatch _ _"] chain_write_def DEFAULT_SCORE_def
        split: sum.splits prod.splits if_splits)
  define g where "g u = (if user_id u = user_id user then store_user (u\<lparr>score := Some 1, creditLimit := Some (of_int ?d)\<rparr>) else u)" for u :: User
  have g: "walletAddress (g u) = walletAddress u" for u by (simp add: g_def)
  have "first_credit env gw wallet user t = (case user_by_wallet wallet (t\<lparr>chain := c, users := map g (users t)\<rparr>) of
      None \<Rightarrow> (Inl (BadRequest ''Identity verification failed''), t\<lparr>chain := c, users := map g (users t)\<rparr>)
    | Some f \<Rightarrow> (Inr \<lparr>vr_alreadyHadCredit = False, vr_refreshedOnChain = False, vr_userId = user_id f,
             vr_walletAddress = walletAddress f, vr_score = score f, vr_creditLimit = creditLimit f\<rparr>, t\<lparr>chain := c, users := map g (users t)\<rparr>))"
    using c num
    by (simp del: of_int_power add: first_credit_def default_limit svc_simps sbind_def [of "scatch _ _"] chain_write_def
        DEFAULT_SCORE_def g_def [abs_def] split: option.split)
  moreover have "user_by_wallet wallet (t\<lparr>chain := c, users := map g (users t)\<rparr>) = Some (g user)"
    using user_by_wallet_map [of g wallet t, OF g] t(2) by (simp add: user_by_wallet_def)
  ultimately have s': "s' = t\<lparr>chain := c, users := map g (users t)\<rparr>" "vr_score x = score (g user)" "vr_creditLimit x = creditLimit (g user)"
    using f by auto
  have "store_user user0 = user0" using wf by (simp add: wf_rows_def)
  then have st: "store_user (user\<lparr>score := Some 1, creditLimit := Some (of_int ?d)\<rparr>) = user\<lparr>score := Some 1, creditLimit := Some (of_int ?d)\<rparr>"
    unfolding user using fixed by (cases user0) (simp add: store_user_def del: of_int_power)
  have "map g (users t) = with_row us user0 (user\<lparr>score := Some 1, creditLimit := Some (of_int ?d)\<rparr>)"
    unfolding t(1) g_def using with_row_update [OF wf, of user "\<lambda>u. u\<lparr>score := Some 1, creditLimit := Some (of_int ?d)\<rparr>"] st user
    by (simp del: of_int_power)
  moreover have "g user = user\<lparr>score := Some 1, creditLimit := Some (of_int ?d)\<rparr>" using st by (simp add: g_def del: of_int_power)
  ultimately show ?thesis using c s' by simp
qed

text \<open>
  C24. A verification that returns was made for a stored user with an e-mail and a kind of work who
  accepted the terms or comes from Farcaster, and a Farcaster user passed the Self check. Afterwards the
  tables are as before but for this user's row, which holds the effective platform and, for a user
  without a credit line, score one and a limit of one whole token, the same as were written to the
  chain and as the answer carries. A user with a credit line keeps score and limit, and the chain is only
  written to restore the limit of the stored score when the chain's own limit is zero.
\<close>

theorem verify_credit_line:
  assumes run: "verify env gw selfRows dto s = (Inr x, s')"
    and wf: "distinct (map user_id (users s))" "\<forall>u \<in> set (users s). store_user u = u"
  shows "\<exists>wallet user. normalizeWallet (vu_walletAddress dto) = Inr wallet \<and> user_by_wallet wallet s = Some user \<and>
    \<not> falsy_str (email user) \<and> \<not> falsy_str (workType user) \<and>
    (termsAcceptedAt user \<noteq> None \<or> effective_platform dto user = ''farcaster'') \<and>
    (effective_platform dto user = ''farcaster'' \<longrightarrow> isUserSelfVerified selfRows (user_id user)) \<and> loans s' = loans s \<and>
    (if alreadyHasCredit user
     then users s' = map (\<lambda>u. if u = user then u\<lparr>platform := Some (effective_platform dto user)\<rparr> else u) (users s) \<and>
          (\<exists>lim. readCreditLimitOnChain gw wallet (chain s) = Inr lim \<and>
             (if lim > 0 then chain s' = chain s
              else \<exists>n. giveCreditScoreAndLimit gw wallet (the (score user))
                     (limitUsdc (getStepForScore (the (score user))) * 10 ^ TOKEN_DECIMALS (BLOCKCHAIN_GATEWAY env)) (chain s) = (Inr n, chain s')))
     else users s' = map (\<lambda>u. if u = user then u\<lparr>platform := Some (effective_platform dto user), score := Some 1,
              creditLimit := Some (10 ^ TOKEN_DECIMALS (BLOCKCHAIN_GATEWAY env))\<rparr> else u) (users s) \<and>
          giveCreditScoreAndLimit gw wallet 1 (10 ^ TOKEN_DECIMALS (BLOCKCHAIN_GATEWAY env)) (chain s) = (Inr 200, chain s') \<and>
          vr_score x = Some 1 \<and> vr_creditLimit x = Some (10 ^ TOKEN_DECIMALS (BLOCKCHAIN_GATEWAY env)))"
proof -
  have rows: "wf_rows (users s)" using wf by (simp add: wf_rows_def)
  from verify_run [OF run rows] obtain wallet user0 user t where v: "normalizeWallet (vu_walletAddress dto) = Inr wallet"
    "user_by_wallet wallet s = Some user0" "\<not> falsy_str (email user0)" "\<not> falsy_str (workType user0)"
    "user = user0\<lparr>platform := Some (effective_platform dto user0)\<rparr>"
    "termsAcceptedAt user0 \<noteq> None \<or> effective_platform dto user0 = ''farcaster''"
    "effective_platform dto user0 = ''farcaster'' \<longrightarrow> isUserSelfVerified selfRows (user_id user0)"
    "t = s\<lparr>users := with_row (users s) user0 user\<rparr>" and
    fin: "(if alreadyHasCredit user then existing_credit env gw wallet user else first_credit env gw wallet user) t = (Inr x, s')"
    by blast
  have ac: "alreadyHasCredit user = alreadyHasCredit user0" "score user = score user0"
    using v(5) by (simp_all add: alreadyHasCredit_def)
  have t: "chain t = chain s" "loans t = loans s" "users t = with_row (users s) user0 user" using v(8) by simp_all
  have row: "with_row (users s) user0 (f user0) = map (\<lambda>u. if u = user0 then f u else u) (users s)" for f
    by (simp add: with_row_def cong: if_cong)
  show ?thesis
  proof (cases "alreadyHasCredit user0")
    case True
    then obtain n where n: "score user0 = Some n" by (auto simp: alreadyHasCredit_def split: option.splits)
    have "existing_credit env gw wallet user t = (Inr x, s')" "score user = Some n" using fin True ac n by simp_all
    from existing_credit_run [OF this, unfolded t] obtain lim where
      "users s' = with_row (users s) user0 user" "loans s' = loans s" "readCreditLimitOnChain gw wallet (chain s) = Inr lim"
      "if lim > 0 then chain s' = chain s else \<exists>k. giveCreditScoreAndLimit gw wallet n
         (limitUsdc (getStepForScore n) * 10 ^ TOKEN_DECIMALS (BLOCKCHAIN_GATEWAY env)) (chain s) = (Inr k, chain s')" by blast
    then show ?thesis
      using v(1-4,6,7) True n row [of "\<lambda>u. u\<lparr>platform := Some (effective_platform dto user0)\<rparr>"] v(5)
      by (intro exI [of _ wallet] exI [of _ user0]) simp
  next
    case False
    have "user_by_wallet wallet t = Some user" using with_row_wallet [OF v(2) _ t(3)] v(5) by simp
    from first_credit_run [OF _ rows _ v(5) t(3) this] fin False ac user_by_walletD [OF v(2)] show ?thesis
      using v(1-4,6,7) t row [of "\<lambda>u. u\<lparr>platform := Some (effective_platform dto user0), score := Some 1,
        creditLimit := Some (10 ^ TOKEN_DECIMALS (BLOCKCHAIN_GATEWAY env))\<rparr>"] v(5)
      by (intro exI [of _ wallet] exI [of _ user0]) simp
  qed
qed

definition example_applicant :: User where
  "example_applicant = example_user\<lparr>email := Some ''a@b'', workType := Some ''w'', termsAcceptedAt := Some 0, score := None, platform := Some ''webapp''\<rparr>"

definition example_verify_world :: "bool world" where
  "example_verify_world = \<lparr>users = [example_applicant], loans = [], chain = True, now = 0\<rparr>"

lemma example_verify:
  "\<exists>x s'. verify example_env example_gw [] \<lparr>vu_walletAddress = example_wallet, vu_platform = None\<rparr> example_verify_world = (Inr x, s')"
proof -
  have pf: "normalizePlatform (Some ''webapp'') = Some ''webapp''" "to_lower ''webapp'' = ''webapp''" "normalizePlatform None = None" by code_simp+
  have u: "user_by_wallet example_wallet example_verify_world = Some example_applicant"
    by (simp add: user_by_wallet_def example_verify_world_def example_applicant_def example_user_def)
  have sel: "email example_applicant = Some ''a@b''" "workType example_applicant = Some ''w''" "platform example_applicant = Some ''webapp''"
    "termsAcceptedAt example_applicant = Some 0" "user_id example_applicant = 1" "walletAddress example_applicant = example_wallet"
    "score example_applicant = None" "creditLimit example_applicant = None"
    by (simp_all add: example_applicant_def example_user_def)
  have g: "giveCreditScoreAndLimit example_gw w sc l c = (Inr 200, c)" for w sc l c by (simp add: example_gw_def)
  have same: "set_platform False p v = sret v" for p v by (simp add: set_platform_def)
  have self: "ensureSelfVerificationForPlatform [] example_applicant = sret ()"
    by (simp add: ensureSelfVerificationForPlatform_def sel pf nullish_def)
  have "verify example_env example_gw [] \<lparr>vu_walletAddress = example_wallet, vu_platform = None\<rparr> example_verify_world =
      first_credit example_env example_gw example_wallet example_applicant example_verify_world"
    by (simp add: verify_def svc_simps example_wallet_norm u sel pf falsy_str_def Let_def same self nullish_def orelse_def
        getUserUntilWaitlist_def alreadyHasCredit_def)
  moreover have "\<exists>x s'. first_credit example_env example_gw example_wallet example_applicant example_verify_world = (Inr x, s')"
    by (simp add: first_credit_def default_limit svc_simps sbind_def [of "scatch _ _"] chain_write_def g)
      (simp add: user_by_wallet_def example_verify_world_def sel store_user_def svc_simps)
  ultimately show ?thesis by simp
qed

theorem verify_credit_line_witness:
  "\<exists>x s'. verify example_env example_gw [] \<lparr>vu_walletAddress = example_wallet, vu_platform = None\<rparr> example_verify_world = (Inr x, s') \<and>
     vr_score x = Some 1 \<and> vr_creditLimit x = Some 10000000 \<and>
     users s' = [example_applicant\<lparr>platform := Some ''webapp'', score := Some 1, creditLimit := Some 10000000\<rparr>]"
proof -
  obtain x s' where run: "verify example_env example_gw [] \<lparr>vu_walletAddress = example_wallet, vu_platform = None\<rparr>
      example_verify_world = (Inr x, s')" using example_verify by blast
  have st: "\<forall>u \<in> set (users example_verify_world). store_user u = u"
    by (simp add: example_verify_world_def example_applicant_def example_user_def store_user_def)
  have u: "user_by_wallet example_wallet example_verify_world = Some example_applicant" "\<not> alreadyHasCredit example_applicant"
    by (simp_all add: user_by_wallet_def example_verify_world_def example_applicant_def example_user_def alreadyHasCredit_def)
  have d: "TOKEN_DECIMALS (BLOCKCHAIN_GATEWAY example_env) = 7" unfolding example_env_def by code_simp
  have pf: "normalizePlatform (Some ''webapp'') = Some ''webapp''" "normalizePlatform None = None" by code_simp+
  have e: "effective_platform \<lparr>vu_walletAddress = example_wallet, vu_platform = None\<rparr> example_applicant = ''webapp''"
    using pf by (simp add: effective_platform_def example_applicant_def orelse_def nullish_def)
  have us: "users example_verify_world = [example_applicant]" by (simp add: example_verify_world_def)
  then have "distinct (map user_id (users example_verify_world))" by simp
  from verify_credit_line [OF run this st] u d e run show ?thesis by (auto simp: example_wallet_norm us)
qed

end
