(* ===== verification/Wallet_Link.thy ===== *)
theory Wallet_Link
  imports Auth
begin

text \<open>
  Linking of an external wallet (\<open>backend/src/wallet-link\<close>, \<open>common/otp-hash.ts\<close>): a code
  for an e-mail address, a session token for the code, a nonce with a message for an
  address, and the link once the message's signature recovers the address.

  Hashing, recovery of the signer, random bytes and random codes are third-party code, the
  fields of \<open>LinkPorts\<close>. Rows of the user table are only read.
\<close>

named_theorems link_simps \<open>evaluation of the wallet-link handlers\<close>

section \<open>Dates as text\<close>

text \<open>\<open>Date.prototype.toISOString\<close>: the proleptic Gregorian date of a number of milliseconds.\<close>

definition civil_date :: "int \<Rightarrow> int \<times> int \<times> int" where
  "civil_date days =
     (let z = days + 719468; era = z div 146097; doe = z mod 146097;
          yoe = (doe - doe div 1460 + doe div 36524 - doe div 146096) div 365;
          doy = doe - (365 * yoe + yoe div 4 - yoe div 100);
          mp = (5 * doy + 2) div 153;
          d = doy - (153 * mp + 2) div 5 + 1;
          m = (if mp < 10 then mp + 3 else mp - 9);
          y = yoe + era * 400 + (if m \<le> 2 then 1 else 0)
      in (y, m, d))"

definition pad_int :: "nat \<Rightarrow> int \<Rightarrow> string" where
  "pad_int w n = (let s = nat_str (nat n) in replicate (w - length s) (CHR ''0'') @ s)"

definition iso_year :: "int \<Rightarrow> string" where
  "iso_year y = (if 0 \<le> y \<and> y \<le> 9999 then pad_int 4 y
     else if y < 0 then ''-'' @ pad_int 6 (- y) else ''+'' @ pad_int 6 y)"

definition toISOString :: "int \<Rightarrow> string" where
  "toISOString t =
     (let (y, m, d) = civil_date (t div 86400000); r = t mod 86400000
      in iso_year y @ ''-'' @ pad_int 2 m @ ''-'' @ pad_int 2 d @ ''T'' @ pad_int 2 (r div 3600000) @ '':'' @
         pad_int 2 (r div 60000 mod 60) @ '':'' @ pad_int 2 (r div 1000 mod 60) @ ''.'' @ pad_int 3 (r mod 1000) @ ''Z'')"

section \<open>State and ports\<close>

record WalletLinkSession =
  ls_id :: nat
  ls_email :: string
  ls_userId :: "nat option"
  otpCodeHash :: "string option"
  otpExpiresAt :: "int option"
  otpAttemptCount :: int
  lastOtpSentAt :: "int option"
  ls_token :: "string option"
  ls_tokenExpiresAt :: "int option"

record WalletLinkNonce =
  ln_id :: nat
  ln_userId :: nat
  ln_address :: string
  ln_nonce :: string
  ln_message :: string
  ln_used :: bool
  ln_expiresAt :: int

record LinkedExternalWallet =
  lw_id :: nat
  lw_userId :: nat
  lw_address :: string
  lw_chainId :: int
  lw_verifiedAt :: int
  lw_source :: string
  lw_method :: string
  lw_message :: "string option"
  lw_signature :: "string option"

record LinkPorts =
  otp_sha256 :: "bytes \<Rightarrow> bytes"
  recoverSigner :: "string \<Rightarrow> string \<Rightarrow> (http_error, string) result"
  linkBytes :: "nat \<Rightarrow> nat \<Rightarrow> bytes"
  randomInt :: "int \<Rightarrow> int \<Rightarrow> nat \<Rightarrow> int"

record link =
  link_users :: "User list"
  linked_wallets :: "LinkedExternalWallet list"
  link_sessions :: "WalletLinkSession list"
  link_nonces :: "WalletLinkNonce list"
  link_now :: int
  link_draws :: nat

type_synonym 'a link_svc = "(link, 'a) svc"

definition OTP_TTL_MS :: int where "OTP_TTL_MS = 10 * 60 * 1000"
definition OTP_THROTTLE_MS :: int where "OTP_THROTTLE_MS = 60 * 1000"
definition OTP_MAX_ATTEMPTS :: int where "OTP_MAX_ATTEMPTS = 5"
definition SESSION_TTL_MS :: int where "SESSION_TTL_MS = 15 * 60 * 1000"
definition NONCE_TTL_MS :: int where "NONCE_TTL_MS = 5 * 60 * 1000"
definition SIGN_DOMAIN :: string where "SIGN_DOMAIN = ''link.lendoor.xyz''"

section \<open>Helpers\<close>

definition hashOtp :: "LinkPorts \<Rightarrow> string \<Rightarrow> string" where
  "hashOtp P otp = hex_of (otp_sha256 P (text_encode otp))"

definition norm_email :: "string option \<Rightarrow> string" where
  "norm_email raw = to_lower (js_trim (nullish raw []))"

text \<open>The pattern of an e-mail address: one at sign, and a dot inside the part after it.\<close>

definition EMAIL_PATTERN :: "string \<Rightarrow> bool" where
  "EMAIL_PATTERN s =
     (list_all (\<lambda>c. \<not> is_ws c) s \<and>
      (case split_on (CHR ''@'') s of
         [a, d] \<Rightarrow> a \<noteq> [] \<and> list_ex (\<lambda>k. d ! k = CHR ''.'') [1..<length d - 1]
       | _ \<Rightarrow> False))"

definition requireAddress :: "string option \<Rightarrow> (http_error, string) result" where
  "requireAddress raw =
     (let a = to_lower (js_trim (nullish raw []))
      in if EVM_WALLET_ADDRESS_PATTERN a then Inr a else Inl (BadRequest ''Invalid address''))"

definition link_draw :: "(nat \<Rightarrow> 'a) \<Rightarrow> 'a link_svc" where
  "link_draw f = (\<lambda>s. (Inr (f (link_draws s)), s\<lparr>link_draws := link_draws s + 1\<rparr>))"

definition session_by_email :: "string \<Rightarrow> link \<Rightarrow> WalletLinkSession option" where
  "session_by_email e s = find (\<lambda>x. ls_email x = e) (link_sessions s)"

text \<open>\<open>save\<close> of a session: its row is replaced, or a new one is added. One row per e-mail address.\<close>

definition save_session :: "WalletLinkSession \<Rightarrow> unit link_svc" where
  "save_session x = (\<lambda>s.
     if list_ex (\<lambda>y. ls_id y = ls_id x) (link_sessions s)
     then (Inr (), s\<lparr>link_sessions := put_row ls_id x (link_sessions s)\<rparr>)
     else if list_ex (\<lambda>y. ls_email y = ls_email x) (link_sessions s) then (Inl unique_violation, s)
     else (Inr (), s\<lparr>link_sessions := link_sessions s @ [x\<lparr>ls_id := fresh_id ls_id (link_sessions s)\<rparr>]\<rparr>))"

definition blank_session :: "string \<Rightarrow> WalletLinkSession" where
  "blank_session e = \<lparr>ls_id = 0, ls_email = e, ls_userId = None, otpCodeHash = None, otpExpiresAt = None,
     otpAttemptCount = 0, lastOtpSentAt = None, ls_token = None, ls_tokenExpiresAt = None\<rparr>"

section \<open>Handlers\<close>

text \<open>The session row that \<open>start\<close> stores: a new code, no attempts, no token.\<close>

definition armed :: "LinkPorts \<Rightarrow> nat \<Rightarrow> string \<Rightarrow> int \<Rightarrow> WalletLinkSession \<Rightarrow> WalletLinkSession" where
  "armed P userId code t x = x\<lparr>ls_userId := Some userId, otpCodeHash := Some (hashOtp P code),
     otpExpiresAt := Some (t + OTP_TTL_MS), otpAttemptCount := 0, lastOtpSentAt := Some t,
     ls_token := None, ls_tokenExpiresAt := None\<rparr>"

definition link_start :: "LinkPorts \<Rightarrow> string option \<Rightarrow> string option link_svc" where
  "link_start P emailRaw =
     (let e = norm_email emailRaw in
      if \<not> EMAIL_PATTERN e then sthrow (BadRequest ''Invalid email'')
      else
        sbind (sget (\<lambda>s. filter (\<lambda>u. email u = Some e \<or> lemonEmail u = Some e) (link_users s))) (\<lambda>matches.
        if length matches \<noteq> 1 then sret None
        else
          sbind (sget (\<lambda>s. (session_by_email e s, link_now s))) (\<lambda>(found, t).
          if (case found of None \<Rightarrow> False
              | Some x \<Rightarrow> (case lastOtpSentAt x of None \<Rightarrow> False | Some l \<Rightarrow> t - l < OTP_THROTTLE_MS))
          then sthrow (BadRequest ''Espera unos segundos antes de pedir otro codigo'')
          else
            sbind (link_draw (\<lambda>k. int_str (randomInt P 100000 1000000 k))) (\<lambda>code.
            sbind (save_session (armed P (user_id (hd matches)) code t (nullish found (blank_session e)))) (\<lambda>_.
            sret (Some (toISOString (t + OTP_TTL_MS))))))))"

record LinkSession =
  linkSession :: string
  lk_userId :: nat
  lk_email :: string
  lendoorAddress :: "string option"

definition code_failure :: http_error where
  "code_failure = Unauthorized ''Invalid or expired code''"

definition too_many :: http_error where
  "too_many = Unauthorized ''Too many attempts, request a new code''"

definition link_session :: "LinkPorts \<Rightarrow> string option \<Rightarrow> string option \<Rightarrow> LinkSession link_svc" where
  "link_session P emailRaw code =
     (let e = norm_email emailRaw; trimmedCode = js_trim (nullish code []) in
      sbind (sget (\<lambda>s. (session_by_email e s, link_now s))) (\<lambda>(found, t).
      case found of
        None \<Rightarrow> sthrow code_failure
      | Some x \<Rightarrow>
          if falsy_str (otpCodeHash x) \<or> otpExpiresAt x = None \<or> ls_userId x = None then sthrow code_failure
          else if the (otpExpiresAt x) < t then sthrow code_failure
          else if otpAttemptCount x \<ge> OTP_MAX_ATTEMPTS then sthrow too_many
          else if otpCodeHash x \<noteq> Some (hashOtp P trimmedCode) then
            sbind (save_session (x\<lparr>otpAttemptCount := otpAttemptCount x + 1\<rparr>)) (\<lambda>_. sthrow code_failure)
          else
            sbind (link_draw (\<lambda>k. hex_of (linkBytes P 24 k))) (\<lambda>v.
            sbind (save_session (x\<lparr>ls_token := Some v, ls_tokenExpiresAt := Some (t + SESSION_TTL_MS),
                     otpCodeHash := None, otpExpiresAt := None, otpAttemptCount := 0\<rparr>)) (\<lambda>_.
            sbind (sget (\<lambda>s. find (\<lambda>u. Some (user_id u) = ls_userId x) (link_users s))) (\<lambda>user.
            sret \<lparr>linkSession = v, lk_userId = the (ls_userId x), lk_email = e,
                  lendoorAddress = map_option walletAddress user\<rparr>)))))"

definition validateLinkSession :: "string \<Rightarrow> nat link_svc" where
  "validateLinkSession v =
     sbind (sget (\<lambda>s. (find (\<lambda>x. ls_token x = Some v) (link_sessions s), link_now s))) (\<lambda>(found, t).
     case found of
       None \<Rightarrow> sthrow (Unauthorized ''Invalid link session'')
     | Some x \<Rightarrow>
         if ls_userId x = None \<or> ls_tokenExpiresAt x = None then sthrow (Unauthorized ''Invalid link session'')
         else if the (ls_tokenExpiresAt x) < t then sthrow (Unauthorized ''Link session expired'')
         else sret (the (ls_userId x)))"

definition WalletLinkScopeGuard :: "string option \<Rightarrow> nat link_svc" where
  "WalletLinkScopeGuard header =
     (case bearer header of
        None \<Rightarrow> sthrow (Unauthorized ''Missing link session'')
      | Some v \<Rightarrow> if v = [] then sthrow (Unauthorized ''Empty link session'') else validateLinkSession v)"

definition NL :: string where "NL = [CHR 0x0A]"

definition link_message :: "string \<Rightarrow> int \<Rightarrow> string \<Rightarrow> int \<Rightarrow> string" where
  "link_message address chainId n issuedAt =
     ''By signing, you are proving you own this wallet and linking it to your Lendoor account. '' @
     ''This does not initiate a transaction or cost any fees.'' @ NL @ NL @
     ''Domain: '' @ SIGN_DOMAIN @ NL @
     ''Wallet: '' @ address @ NL @
     ''Chain ID: '' @ int_str chainId @ NL @
     ''Nonce: '' @ n @ NL @
     ''Issued At: '' @ toISOString issuedAt"

record NonceReply =
  nr_nonce :: string
  nr_message :: string
  nr_expiresAt :: string

definition insert_link_nonce :: "WalletLinkNonce \<Rightarrow> unit link_svc" where
  "insert_link_nonce n = (\<lambda>s.
     if list_ex (\<lambda>m. ln_nonce m = ln_nonce n) (link_nonces s) then (Inl unique_violation, s)
     else (Inr (), s\<lparr>link_nonces := link_nonces s @ [n\<lparr>ln_id := fresh_id ln_id (link_nonces s)\<rparr>]\<rparr>))"

definition link_createNonce :: "LinkPorts \<Rightarrow> nat \<Rightarrow> string option \<Rightarrow> int \<Rightarrow> NonceReply link_svc" where
  "link_createNonce P userId addressRaw chainId =
     sbind (slift (requireAddress addressRaw)) (\<lambda>address.
     sbind (link_draw (\<lambda>k. hex_of (linkBytes P 16 k))) (\<lambda>n.
     sbind (sget link_now) (\<lambda>issuedAt.
     let message = link_message address chainId n issuedAt
     in sbind (insert_link_nonce \<lparr>ln_id = 0, ln_userId = userId, ln_address = address, ln_nonce = n,
                 ln_message = message, ln_used = False, ln_expiresAt = issuedAt + NONCE_TTL_MS\<rparr>) (\<lambda>_.
        sret \<lparr>nr_nonce = n, nr_message = message, nr_expiresAt = toISOString (issuedAt + NONCE_TTL_MS)\<rparr>))))"

text \<open>The checks of \<open>verify\<close>, up to the signature; they change nothing.\<close>

definition link_check :: "LinkPorts \<Rightarrow> nat \<Rightarrow> string option \<Rightarrow> string \<Rightarrow> string \<Rightarrow> (string \<times> WalletLinkNonce) link_svc" where
  "link_check P userId addressRaw message signature =
     sbind (slift (requireAddress addressRaw)) (\<lambda>address.
     if \<not> is_plain_ecdsa signature then sthrow (BadRequest ''Unsupported signature (v1 = ECDSA only)'')
     else
       sbind (sget (\<lambda>s. (find (\<lambda>n. ln_userId n = userId \<and> ln_address n = address \<and> ln_message n = message \<and> \<not> ln_used n)
                (link_nonces s), link_now s))) (\<lambda>(found, t).
       case found of
         None \<Rightarrow> sthrow (BadRequest ''Nonce not found or already used'')
       | Some row \<Rightarrow>
           if ln_expiresAt row < t then sthrow (BadRequest ''Nonce expired'')
           else
             (case recoverSigner P message signature of
                Inl _ \<Rightarrow> sthrow (BadRequest ''Invalid signature'')
              | Inr recovered \<Rightarrow>
                  if to_lower recovered \<noteq> address then sthrow (BadRequest ''Signature does not match wallet'')
                  else sret (address, row))))"

definition consume_nonce :: "nat \<Rightarrow> nat link_svc" where
  "consume_nonce i = (\<lambda>s.
     let hit = (\<lambda>n. ln_id n = i \<and> \<not> ln_used n)
     in (Inr (length (filter hit (link_nonces s))),
         s\<lparr>link_nonces := map (\<lambda>n. if hit n then n\<lparr>ln_used := True\<rparr> else n) (link_nonces s)\<rparr>))"

definition insert_linked :: "LinkedExternalWallet \<Rightarrow> unit link_svc" where
  "insert_linked w = (\<lambda>s.
     if list_ex (\<lambda>y. lw_address y = lw_address w) (linked_wallets s) then (Inl unique_violation, s)
     else (Inr (), s\<lparr>linked_wallets := linked_wallets s @ [w\<lparr>lw_id := fresh_id lw_id (linked_wallets s)\<rparr>]\<rparr>))"

text \<open>The rest of \<open>verify\<close>: the nonce is consumed by a conditional update, then the wallet is linked.\<close>

definition link_commit :: "nat \<Rightarrow> int \<Rightarrow> string \<Rightarrow> string \<Rightarrow> string \<times> WalletLinkNonce \<Rightarrow> (string \<times> string) link_svc" where
  "link_commit userId chainId message signature = (\<lambda>(address, row).
     sbind (consume_nonce (ln_id row)) (\<lambda>affected.
     if affected = 0 then sthrow (BadRequest ''Nonce already used'')
     else
       sbind (sget (\<lambda>s. (find (\<lambda>w. lw_address w = address) (linked_wallets s), link_now s))) (\<lambda>(existing, verifiedAt).
       case existing of
         Some w \<Rightarrow>
           if lw_userId w \<noteq> userId then sthrow (Conflict ''Wallet already linked to another account'')
           else sret (address, toISOString (lw_verifiedAt w))
       | None \<Rightarrow>
           sbind (insert_linked \<lparr>lw_id = 0, lw_userId = userId, lw_address = address, lw_chainId = chainId,
                    lw_verifiedAt = verifiedAt, lw_source = ''companion_web'', lw_method = ''ecdsa_companion'',
                    lw_message = Some message, lw_signature = Some signature\<rparr>) (\<lambda>_.
           sret (address, toISOString verifiedAt)))))"

definition link_verify :: "LinkPorts \<Rightarrow> nat \<Rightarrow> string option \<Rightarrow> int \<Rightarrow> string \<Rightarrow> string \<Rightarrow> (string \<times> string) link_svc" where
  "link_verify P userId addressRaw chainId message signature =
     sbind (link_check P userId addressRaw message signature) (link_commit userId chainId message signature)"

definition linked_of :: "nat \<Rightarrow> link \<Rightarrow> LinkedExternalWallet list" where
  "linked_of userId s = sort_key (\<lambda>w. - lw_verifiedAt w) (filter (\<lambda>w. lw_userId w = userId) (linked_wallets s))"

record WalletView =
  wv_address :: string
  wv_chainId :: int
  wv_verifiedAt :: string
  wv_source :: string

definition walletsForUser :: "nat \<Rightarrow> WalletView list link_svc" where
  "walletsForUser userId = sget (\<lambda>s. map (\<lambda>r. \<lparr>wv_address = lw_address r, wv_chainId = lw_chainId r,
     wv_verifiedAt = toISOString (lw_verifiedAt r), wv_source = lw_source r\<rparr>) (linked_of userId s))"

record LinkStatus =
  linkedCount :: nat
  lst_wallets :: "(string \<times> string) list"
  latestVerifiedAt :: "string option"

definition no_links :: LinkStatus where
  "no_links = \<lparr>linkedCount = 0, lst_wallets = [], latestVerifiedAt = None\<rparr>"

definition statusForWallet :: "string option \<Rightarrow> LinkStatus link_svc" where
  "statusForWallet addr =
     (case normalizeWalletOrNull addr of
        None \<Rightarrow> sret no_links
      | Some w \<Rightarrow>
          sget (\<lambda>s. case find (\<lambda>u. walletAddress u = w) (link_users s) of
            None \<Rightarrow> no_links
          | Some u \<Rightarrow> (let rows = linked_of (user_id u) s in
              \<lparr>linkedCount = length rows, lst_wallets = map (\<lambda>r. (lw_address r, toISOString (lw_verifiedAt r))) rows,
               latestVerifiedAt = (case rows of [] \<Rightarrow> None | r # _ \<Rightarrow> Some (toISOString (lw_verifiedAt r)))\<rparr>)))"

definition link_cleanup :: "unit link_svc" where
  "link_cleanup = smod (\<lambda>s. s\<lparr>link_nonces := filter (\<lambda>n. \<not> ln_expiresAt n < link_now s) (link_nonces s),
     link_sessions := map (\<lambda>x. if (case ls_tokenExpiresAt x of None \<Rightarrow> False | Some e \<Rightarrow> e < link_now s)
       then x\<lparr>ls_token := None, ls_tokenExpiresAt := None\<rparr> else x) (link_sessions s)\<rparr>)"

section \<open>Codes\<close>

lemma save_session_put:
  assumes "session_by_email e s = Some x" "ls_id y = ls_id x"
  shows "save_session y s = (Inr (), s\<lparr>link_sessions := put_row ls_id y (link_sessions s)\<rparr>)"
proof -
  have "x \<in> set (link_sessions s)" using assms(1) unfolding session_by_email_def using find_cond by fastforce
  with assms(2) show ?thesis by (auto simp: save_session_def list_ex_iff)
qed

text \<open>A session row that waits for a code.\<close>

definition awaits :: "WalletLinkSession \<Rightarrow> string \<Rightarrow> int \<Rightarrow> bool" where
  "awaits x h t \<longleftrightarrow> otpCodeHash x = Some h \<and> h \<noteq> [] \<and> ls_userId x \<noteq> None \<and> (\<exists>e. otpExpiresAt x = Some e \<and> t \<le> e)"

lemma session_found:
  assumes "distinct (map ls_id (link_sessions s))" "session_by_email e s = Some x" "ls_id y = ls_id x" "ls_email y = ls_email x"
  shows "session_by_email e (s\<lparr>link_sessions := put_row ls_id y (link_sessions s)\<rparr>) = Some y"
proof -
  have m: "map ls_email (put_row ls_id y (link_sessions s)) = map ls_email (link_sessions s)"
    using assms find_cond [of _ "link_sessions s" x] unfolding session_by_email_def put_row_def
    by (auto simp: distinct_map dest: inj_onD)
  have "find (\<lambda>z. ls_email z = e) (put_row ls_id y rows) = Some y"
    if "find (\<lambda>z. ls_email z = e) rows = Some x" "map ls_email (put_row ls_id y rows) = map ls_email rows" for rows
    using that assms(3,4) by (induction rows) (auto simp: put_row_def split: if_splits)
  with m assms(2) show ?thesis by (simp add: session_by_email_def)
qed

lemma session_wrong_code:
  assumes "session_by_email e s = Some x" "norm_email (Some e) = e" "awaits x h (link_now s)"
    "otpAttemptCount x < OTP_MAX_ATTEMPTS" "hashOtp P (js_trim c) \<noteq> h"
  shows "link_session P (Some e) (Some c) s =
    (Inl code_failure, s\<lparr>link_sessions := put_row ls_id (x\<lparr>otpAttemptCount := otpAttemptCount x + 1\<rparr>) (link_sessions s)\<rparr>)"
  using assms save_session_put [OF assms(1), of "x\<lparr>otpAttemptCount := otpAttemptCount x + 1\<rparr>"]
  by (auto simp: link_session_def Let_def svc_simps awaits_def sbind_def)

lemma session_locked:
  assumes "session_by_email e s = Some x" "norm_email (Some e) = e" "awaits x h (link_now s)" "OTP_MAX_ATTEMPTS \<le> otpAttemptCount x"
  shows "link_session P (Some e) (Some c) s = (Inl too_many, s)"
  using assms by (auto simp: link_session_def Let_def svc_simps awaits_def)

text \<open>The state after a sequence of codes for one address.\<close>

fun after_codes :: "LinkPorts \<Rightarrow> string \<Rightarrow> string list \<Rightarrow> link \<Rightarrow> link" where
  "after_codes P e [] s = s"
| "after_codes P e (c # cs) s = after_codes P e cs (snd (link_session P (Some e) (Some c) s))"

lemma after_codes_count:
  assumes "distinct (map ls_id (link_sessions s))" "session_by_email e s = Some x" "norm_email (Some e) = e"
    "awaits x h (link_now s)" "0 \<le> otpAttemptCount x" "otpAttemptCount x \<le> OTP_MAX_ATTEMPTS"
    "\<forall>c \<in> set cs. hashOtp P (js_trim c) \<noteq> h"
  shows "\<exists>y. session_by_email e (after_codes P e cs s) = Some y \<and> awaits y h (link_now (after_codes P e cs s)) \<and>
    otpAttemptCount y = min OTP_MAX_ATTEMPTS (otpAttemptCount x + int (length cs))"
  using assms
proof (induction cs arbitrary: s x)
  case (Cons c cs)
  show ?case
  proof (cases "otpAttemptCount x < OTP_MAX_ATTEMPTS")
    case True
    define y where "y = x\<lparr>otpAttemptCount := otpAttemptCount x + 1\<rparr>"
    define u where "u = s\<lparr>link_sessions := put_row ls_id y (link_sessions s)\<rparr>"
    have r: "link_session P (Some e) (Some c) s = (Inl code_failure, u)"
      using session_wrong_code [OF Cons.prems(2,3,4) True, of P c] Cons.prems(7) by (simp add: u_def y_def)
    have d: "distinct (map ls_id (link_sessions u))"
    proof -
      have "map ls_id (put_row ls_id y rows) = map ls_id rows" for rows by (simp add: put_row_def)
      then show ?thesis using Cons.prems(1) by (simp add: u_def)
    qed
    have f: "session_by_email e u = Some y"
      unfolding u_def by (rule session_found [OF Cons.prems(1,2)]) (simp_all add: y_def)
    have a: "awaits y h (link_now u)" using Cons.prems(4) by (simp add: awaits_def y_def u_def)
    from Cons.IH [OF d f Cons.prems(3) a] Cons.prems(5,7) True r show ?thesis by (simp add: y_def algebra_simps)
  next
    case False
    then have "link_session P (Some e) (Some c) s = (Inl too_many, s)"
      using session_locked [OF Cons.prems(2,3,4)] by simp
    with Cons.IH [OF Cons.prems(1-6)] Cons.prems(7) False show ?thesis by (simp add: min_def)
  qed
qed simp

text \<open>
  A code of the wallet link can be guessed at most five times: once five wrong codes
  were tried for an address, every further code is refused without being compared, the
  right one included, until a new code is requested.
\<close>

theorem otp_guess_bound:
  assumes "distinct (map ls_id (link_sessions s))" and "session_by_email e s = Some x" and "norm_email (Some e) = e"
    and "awaits x h (link_now s)" and "otpAttemptCount x = 0"
    and "\<forall>c \<in> set cs. hashOtp P (js_trim c) \<noteq> h" and "5 \<le> length cs"
  shows "link_session P (Some e) (Some code) (after_codes P e cs s) = (Inl too_many, after_codes P e cs s)"
proof -
  obtain y where "session_by_email e (after_codes P e cs s) = Some y" "awaits y h (link_now (after_codes P e cs s))"
    "otpAttemptCount y = min OTP_MAX_ATTEMPTS (0 + int (length cs))"
    using after_codes_count [OF assms(1-4) _ _ assms(6)] assms(5) by (auto simp: OTP_MAX_ATTEMPTS_def)
  with assms(3,7) show ?thesis by (intro session_locked) (auto simp: OTP_MAX_ATTEMPTS_def)
qed

lemma token_found:
  assumes "x \<in> set rows" "ls_id y = ls_id x" "ls_token y = Some v" "Some v \<notin> ls_token ` set rows"
  shows "find (\<lambda>z. ls_token z = Some v) (put_row ls_id y rows) = Some y"
  using assms by (induction rows) (auto simp: put_row_def image_iff)

lemma link_session_Inr:
  assumes "link_session P (Some e) (Some c) s = (Inr a, s')" "norm_email (Some e) = e"
  obtains x where "session_by_email e s = Some x" "awaits x (hashOtp P (js_trim c)) (link_now s)"
    "otpAttemptCount x < OTP_MAX_ATTEMPTS"
  using assms
  by (auto simp: link_session_def Let_def svc_simps sbind_def awaits_def split: option.splits if_splits prod.splits sum.splits)

text \<open>
  A session token is issued for a live code only: the stored hash is the one of the
  code, the code has not expired, and fewer than five wrong ones were tried. The code is then
  spent, so that the same request fails, and the token identifies the user of the code for
  fifteen minutes, unless the random source repeats a stored token.
\<close>

theorem code_single_use:
  assumes "link_session P (Some e) (Some c) s = (Inr a, s')" and "norm_email (Some e) = e"
    and "distinct (map ls_id (link_sessions s))" and "Some (linkSession a) \<notin> ls_token ` set (link_sessions s)"
  shows "(\<exists>x. session_by_email e s = Some x \<and> awaits x (hashOtp P (js_trim c)) (link_now s) \<and>
      otpAttemptCount x < OTP_MAX_ATTEMPTS \<and> ls_userId x = Some (lk_userId a)) \<and>
    link_session P (Some e) (Some c) s' = (Inl code_failure, s') \<and>
    (\<forall>t. fst (validateLinkSession (linkSession a) (s'\<lparr>link_now := t\<rparr>)) =
      (if t \<le> link_now s + SESSION_TTL_MS then Inr (lk_userId a) else Inl (Unauthorized ''Link session expired'')))"
proof -
  obtain x where x: "session_by_email e s = Some x" "awaits x (hashOtp P (js_trim c)) (link_now s)"
      "otpAttemptCount x < OTP_MAX_ATTEMPTS"
    by (rule link_session_Inr [OF assms(1,2)])
  then obtain uid where uid: "ls_userId x = Some uid" by (auto simp: awaits_def)
  define v where "v = hex_of (linkBytes P 24 (link_draws s))"
  define y where "y = x\<lparr>ls_token := Some v, ls_tokenExpiresAt := Some (link_now s + SESSION_TTL_MS),
    otpCodeHash := None, otpExpiresAt := None, otpAttemptCount := 0\<rparr>"
  have r: "linkSession a = v" "lk_userId a = uid" and s': "s' = s\<lparr>link_draws := link_draws s + 1, link_sessions := put_row ls_id y (link_sessions s)\<rparr>"
    using assms(1,2) x uid save_session_put [of e "s\<lparr>link_draws := link_draws s + 1\<rparr>" x y]
    by (auto simp: link_session_def Let_def svc_simps sbind_def link_draw_def v_def y_def session_by_email_def awaits_def)
  have "session_by_email e s' = Some y"
    using session_found [OF assms(3) x(1), of y] by (simp add: s' session_by_email_def y_def)
  then have "link_session P (Some e) (Some c) s' = (Inl code_failure, s')"
    using assms(2) by (simp add: link_session_def Let_def svc_simps y_def)
  moreover have "find (\<lambda>z. ls_token z = Some v) (link_sessions s') = Some y"
    using token_found [of x "link_sessions s" y v] x(1) assms(4) r(1) find_cond [of _ "link_sessions s" x]
    by (auto simp: s' y_def session_by_email_def)
  then have "fst (validateLinkSession (linkSession a) (s'\<lparr>link_now := t\<rparr>)) =
      (if t \<le> link_now s + SESSION_TTL_MS then Inr (lk_userId a) else Inl (Unauthorized ''Link session expired''))" for t
    using r uid by (simp add: validateLinkSession_def svc_simps y_def)
  ultimately show ?thesis using x uid r by blast
qed

section \<open>Links\<close>

text \<open>Every linked wallet signed a message that names it, and belongs to one user.\<close>

definition signed_for :: "LinkPorts \<Rightarrow> LinkedExternalWallet \<Rightarrow> bool" where
  "signed_for P w \<longleftrightarrow> (\<exists>m sig r c n t. lw_message w = Some m \<and> lw_signature w = Some sig \<and> recoverSigner P m sig = Inr r \<and>
     to_lower r = lw_address w \<and> m = link_message (lw_address w) c n t)"

definition issued_nonce :: "WalletLinkNonce \<Rightarrow> bool" where
  "issued_nonce n \<longleftrightarrow> (\<exists>c t. ln_message n = link_message (ln_address n) c (ln_nonce n) t)"

definition links_ok :: "LinkPorts \<Rightarrow> link \<Rightarrow> bool" where
  "links_ok P s \<longleftrightarrow> distinct (map lw_address (linked_wallets s)) \<and> (\<forall>w \<in> set (linked_wallets s). signed_for P w) \<and>
     (\<forall>n \<in> set (link_nonces s). issued_nonce n)"

definition links_kept :: "LinkPorts \<Rightarrow> link \<Rightarrow> link \<Rightarrow> bool" where
  "links_kept P s t \<longleftrightarrow> (links_ok P s \<longrightarrow> links_ok P t) \<and>
     (\<forall>w \<in> set (linked_wallets s). w \<in> set (linked_wallets t))"

interpretation lnk: world_frame "links_kept P" for P
  by unfold_locales (auto simp: links_kept_def)

lemma lnk_unchanged:
  assumes "\<And>s. linked_wallets (snd (m s)) = linked_wallets s \<and> link_nonces (snd (m s)) = link_nonces s"
  shows "lnk.keeps P m"
  using assms by (auto simp: lnk.keeps_def links_kept_def links_ok_def)

lemma lnk_session: "lnk.keeps P (save_session x)" "lnk.keeps P (link_draw f)"
  by (rule lnk_unchanged, simp add: save_session_def link_draw_def)+

lemma lnk_start: "lnk.keeps P (link_start Q e)"
  unfolding link_start_def Let_def
  by (auto intro!: lnk.keeps_bind lnk.keeps_if lnk_session split: prod.split)

lemma lnk_login: "lnk.keeps P (link_session Q e c)"
  unfolding link_session_def Let_def
  by (auto intro!: lnk.keeps_bind lnk.keeps_if lnk_session split: prod.split option.split)

lemma lnk_nonce: "lnk.keeps P (link_createNonce Q u a c)"
proof -
  have k: "lnk.keeps P (insert_link_nonce n)" if "issued_nonce n" for n
    using that by (auto simp: lnk.keeps_def links_kept_def links_ok_def insert_link_nonce_def issued_nonce_def)
  show ?thesis
    unfolding link_createNonce_def Let_def
    by (auto intro!: lnk.keeps_bind lnk_session k simp: issued_nonce_def) blast
qed

lemma lnk_cleanup: "lnk.keeps P link_cleanup"
  by (auto simp: lnk.keeps_def links_kept_def links_ok_def link_cleanup_def svc_simps)

lemma link_check_frame: "link_check P u a m sig s = (r, s') \<Longrightarrow> s' = s"
  by (auto simp: link_check_def svc_simps split: sum.splits if_splits option.splits)

lemma link_check_Inr:
  assumes "link_check P u ar m sig s = (Inr (a, row), s')"
  shows "row \<in> set (link_nonces s)" "ln_userId row = u" "ln_address row = a" "ln_message row = m" "\<not> ln_used row"
    "link_now s \<le> ln_expiresAt row" "\<exists>r. recoverSigner P m sig = Inr r \<and> to_lower r = a"
proof -
  have f: "find (\<lambda>n. ln_userId n = u \<and> ln_address n = a \<and> ln_message n = m \<and> \<not> ln_used n) (link_nonces s) = Some row"
    and r: "link_now s \<le> ln_expiresAt row" "\<exists>r. recoverSigner P m sig = Inr r \<and> to_lower r = a"
    using assms by (auto simp: link_check_def svc_simps not_less split: sum.splits if_splits option.splits)
  show "row \<in> set (link_nonces s)" "ln_userId row = u" "ln_address row = a" "ln_message row = m" "\<not> ln_used row"
    using find_cond [OF f] by auto
  show "link_now s \<le> ln_expiresAt row" "\<exists>r. recoverSigner P m sig = Inr r \<and> to_lower r = a" by (fact r)+
qed

definition spent :: "nat \<Rightarrow> WalletLinkNonce list \<Rightarrow> WalletLinkNonce list" where
  "spent i rows = map (\<lambda>n. if ln_id n = i \<and> \<not> ln_used n then n\<lparr>ln_used := True\<rparr> else n) rows"

lemma consume_run [link_simps]:
  "consume_nonce i s = (Inr (length (filter (\<lambda>n. ln_id n = i \<and> \<not> ln_used n) (link_nonces s))),
     s\<lparr>link_nonces := spent i (link_nonces s)\<rparr>)"
  by (simp add: consume_nonce_def spent_def Let_def)

lemma spent_none_left: "filter (\<lambda>n. ln_id n = i \<and> \<not> ln_used n) (spent i rows) = []"
  unfolding spent_def by (induction rows) simp_all

lemma spent_id: "filter (\<lambda>n. ln_id n = i \<and> \<not> ln_used n) rows = [] \<Longrightarrow> spent i rows = rows"
  unfolding spent_def by (induction rows) (auto split: if_splits)

lemma spent_issued: "\<forall>n \<in> set rows. issued_nonce n \<Longrightarrow> \<forall>n \<in> set (spent i rows). issued_nonce n"
  by (auto simp: spent_def issued_nonce_def)

text \<open>What the second half of \<open>verify\<close> does to the nonces and the links, whatever it returns.\<close>

lemma link_commit_run:
  assumes "link_commit u c m sig (a, row) s = (r, s')"
  shows "link_nonces s' = spent (ln_id row) (link_nonces s)"
    "linked_wallets s' = linked_wallets s \<or>
      a \<notin> lw_address ` set (linked_wallets s) \<and>
      linked_wallets s' = linked_wallets s @ [\<lparr>lw_id = fresh_id lw_id (linked_wallets s), lw_userId = u, lw_address = a, lw_chainId = c,
        lw_verifiedAt = link_now s, lw_source = ''companion_web'', lw_method = ''ecdsa_companion'',
        lw_message = Some m, lw_signature = Some sig\<rparr>]"
  using assms find_none [of "\<lambda>w. lw_address w = a" "linked_wallets s"]
  by (auto simp: link_commit_def sbind_def link_simps svc_simps insert_linked_def list_ex_iff split: if_splits option.splits)

lemma lnk_verify:
  assumes "link_verify P u ar c m sig s = (r, s')" and ok: "links_ok P s"
  shows "links_ok P s'" "set (linked_wallets s) \<subseteq> set (linked_wallets s')"
proof -
  have "links_ok P s' \<and> set (linked_wallets s) \<subseteq> set (linked_wallets s')"
  proof (cases "link_check P u ar m sig s")
    case (Pair x v)
    then have v: "v = s" by (rule link_check_frame)
    show ?thesis
    proof (cases x)
      case (Inr y)
      obtain a row where y: "y = (a, row)" by (cases y)
      note q = link_check_Inr [OF Pair [unfolded Inr y]]
      from assms Pair Inr y v have cm: "link_commit u c m sig (a, row) s = (r, s')"
        by (simp add: link_verify_def sbind_def)
      have sg: "signed_for P \<lparr>lw_id = i, lw_userId = u, lw_address = a, lw_chainId = c,
        lw_verifiedAt = t, lw_source = z, lw_method = z', lw_message = Some m, lw_signature = Some sig\<rparr>" for i t z z'
        using q ok unfolding signed_for_def links_ok_def issued_nonce_def by fastforce
      show ?thesis
        using link_commit_run [OF cm] ok spent_issued sg unfolding links_ok_def by auto
    qed (use assms Pair v ok in \<open>simp add: link_verify_def sbind_def\<close>)
  qed
  then show "links_ok P s'" "set (linked_wallets s) \<subseteq> set (linked_wallets s')" by simp_all
qed

text \<open>The requests of the companion, the clean-up job, a change of the user table and the passage of time.\<close>

inductive link_step :: "LinkPorts \<Rightarrow> link \<Rightarrow> link \<Rightarrow> bool" for P where
  start: "link_start P e s = (r, s') \<Longrightarrow> link_step P s s'"
| session: "link_session P e c s = (r2, s') \<Longrightarrow> link_step P s s'"
| nonce: "link_createNonce P u a ch s = (r3, s') \<Longrightarrow> link_step P s s'"
| verify: "link_verify P u a ch m sig s = (r4, s') \<Longrightarrow> link_step P s s'"
| cleanup: "link_cleanup s = (r5, s') \<Longrightarrow> link_step P s s'"
| environment: "link_step P s (s\<lparr>link_users := us, link_now := t\<rparr>)"

lemma link_step_keeps: "link_step P s t \<Longrightarrow> links_ok P s \<Longrightarrow> links_ok P t \<and> set (linked_wallets s) \<subseteq> set (linked_wallets t)"
proof (induction rule: link_step.induct)
  case (start e s r s')
  then show ?case using lnk.keeps_run [OF lnk_start [of P P e]] by (auto simp: links_kept_def)
next
  case (session e c s r2 s')
  then show ?case using lnk.keeps_run [OF lnk_login [of P P e c]] by (auto simp: links_kept_def)
next
  case (nonce u a ch s r3 s')
  then show ?case using lnk.keeps_run [OF lnk_nonce [of P P u a ch]] by (auto simp: links_kept_def)
next
  case (verify u a ch m sig s r4 s')
  then show ?case using lnk_verify by blast
next
  case (cleanup s r5 s')
  then show ?case using lnk.keeps_run [OF lnk_cleanup [of P]] by (auto simp: links_kept_def)
next
  case (environment s us t)
  then show ?case by (simp add: links_ok_def)
qed

interpretation links: invariant_system "link_step P" "links_ok P" for P
  by unfold_locales (auto dest: link_step_keeps)

text \<open>
  C19. Over any run of requests, clean-ups and passing time from empty tables: no address is
  linked twice, whatever users try it, and for every link the stored signature recovers the
  linked address from the stored message, which is a message that the service wrote for this
  very address.
\<close>

theorem link_sound:
  assumes "(link_step P)\<^sup>*\<^sup>* s t" and "linked_wallets s = []" and "link_nonces s = []"
  shows "distinct (map lw_address (linked_wallets t)) \<and> (\<forall>w \<in> set (linked_wallets t). signed_for P w)"
proof -
  have "links_ok P s" using assms(2,3) by (simp add: links_ok_def)
  then have "links_ok P t" by (rule links.inv_run [OF assms(1)])
  then show ?thesis by (simp add: links_ok_def)
qed

text \<open>
  A nonce links at most once even under concurrency: of two requests that both passed the
  checks with the same nonce before either consumed it, the second one is refused and changes
  nothing, whether the first one linked the wallet or was refused as a conflict.
\<close>

theorem link_commit_once:
  assumes "link_commit u c m sig (a, row) s = (r, s')"
  shows "link_commit u' c' m' sig' (a', row) s' = (Inl (BadRequest ''Nonce already used''), s') \<and>
    length (linked_wallets s') \<le> length (linked_wallets s) + 1"
proof -
  have n: "link_nonces s' = spent (ln_id row) (link_nonces s)" by (rule link_commit_run(1) [OF assms])
  have e: "filter (\<lambda>n. ln_id n = ln_id row \<and> \<not> ln_used n) (link_nonces s') = []"
    by (simp add: n spent_none_left)
  have "s'\<lparr>link_nonces := spent (ln_id row) (link_nonces s')\<rparr> = s'" by (simp add: spent_id [OF e])
  then show ?thesis
    using e link_commit_run(2) [OF assms] by (auto simp: link_commit_def sbind_def link_simps svc_simps)
qed

section \<open>Examples\<close>

definition link_ports :: LinkPorts where
  "link_ports = \<lparr>otp_sha256 = (\<lambda>bs. bs), recoverSigner = (\<lambda>_ _. Inr (''0x'' @ replicate 40 (CHR ''a''))),
     linkBytes = (\<lambda>n k. word_of_nat k # replicate (n - 1) 0), randomInt = (\<lambda>lo hi k. lo)\<rparr>"

definition link_evm :: string where "link_evm = ''0x'' @ replicate 40 (CHR ''a'')"

definition code_link :: link where
  "code_link = \<lparr>link_users = [], linked_wallets = [],
     link_sessions = [(armed link_ports 7 ''123456'' 0 (blank_session ''a@b.c''))\<lparr>ls_id := 1\<rparr>],
     link_nonces = [], link_now = 0, link_draws = 0\<rparr>"

lemma code_link_facts:
  "distinct (map ls_id (link_sessions code_link))" "norm_email (Some ''a@b.c'') = ''a@b.c''"
  "session_by_email ''a@b.c'' code_link = Some (hd (link_sessions code_link))"
  "awaits (hd (link_sessions code_link)) (hashOtp link_ports ''123456'') (link_now code_link)"
  "otpAttemptCount (hd (link_sessions code_link)) = 0" "js_trim ''1'' = ''1''" "js_trim ''123456'' = ''123456''"
  "hashOtp link_ports ''1'' \<noteq> hashOtp link_ports ''123456''" "ls_token (hd (link_sessions code_link)) = None"
proof -
  show "norm_email (Some ''a@b.c'') = ''a@b.c''" by code_simp
  show "js_trim ''1'' = ''1''" "js_trim ''123456'' = ''123456''" by code_simp+
  show "hashOtp link_ports ''1'' \<noteq> hashOtp link_ports ''123456''"
    by (simp add: hashOtp_def link_ports_def text_encode_def hex_of_def)
  show "awaits (hd (link_sessions code_link)) (hashOtp link_ports ''123456'') (link_now code_link)"
    by (simp add: awaits_def code_link_def armed_def blank_session_def hashOtp_def link_ports_def text_encode_def hex_of_def OTP_TTL_MS_def)
qed (simp_all add: code_link_def session_by_email_def armed_def blank_session_def)

theorem otp_guess_bound_witness:
  "link_session link_ports (Some ''a@b.c'') (Some ''123456'') (after_codes link_ports ''a@b.c'' (replicate 5 ''1'') code_link) =
     (Inl too_many, after_codes link_ports ''a@b.c'' (replicate 5 ''1'') code_link)"
  using code_link_facts
  by (intro otp_guess_bound [OF code_link_facts(1,3,2,4,5)]) simp_all

lemma code_link_session: "\<exists>a s'. link_session link_ports (Some ''a@b.c'') (Some ''123456'') code_link = (Inr a, s')"
  using code_link_facts(2,3,4,5,7) save_session_put [of "''a@b.c''" "code_link\<lparr>link_draws := Suc (link_draws code_link)\<rparr>" "hd (link_sessions code_link)"]
  by (auto simp: link_session_def Let_def svc_simps sbind_def link_draw_def awaits_def OTP_MAX_ATTEMPTS_def session_by_email_def)

theorem code_single_use_witness:
  "\<exists>a s'. link_session link_ports (Some ''a@b.c'') (Some ''123456'') code_link = (Inr a, s') \<and>
     link_session link_ports (Some ''a@b.c'') (Some ''123456'') s' = (Inl code_failure, s')"
proof -
  obtain a s' where r: "link_session link_ports (Some ''a@b.c'') (Some ''123456'') code_link = (Inr a, s')"
    using code_link_session by blast
  have "link_sessions code_link = [hd (link_sessions code_link)]" by (simp add: code_link_def)
  then have "ls_token ` set (link_sessions code_link) = {None}"
    using code_link_facts(9) by (metis empty_set image_empty image_insert list.simps(15))
  then have "Some (linkSession a) \<notin> ls_token ` set (link_sessions code_link)" by simp
  from code_single_use [OF r code_link_facts(2,1) this] r show ?thesis by blast
qed

definition empty_link :: link where
  "empty_link = \<lparr>link_users = [], linked_wallets = [], link_sessions = [], link_nonces = [], link_now = 0, link_draws = 0\<rparr>"

definition example_message :: string where
  "example_message = link_message link_evm 1 (hex_of (linkBytes link_ports 16 0)) 0"

definition nonce_link :: link where
  "nonce_link = empty_link\<lparr>link_draws := 1, link_nonces := [\<lparr>ln_id = 1, ln_userId = 7, ln_address = link_evm,
     ln_nonce = hex_of (linkBytes link_ports 16 0), ln_message = example_message, ln_used = False, ln_expiresAt = 300000\<rparr>]\<rparr>"

definition ecdsa_signature :: string where "ecdsa_signature = ''0x'' @ replicate 130 (CHR ''1'')"

lemma link_evm_facts: "requireAddress (Some link_evm) = Inr link_evm" "to_lower link_evm = link_evm"
    "is_plain_ecdsa ecdsa_signature"
  unfolding ecdsa_signature_def link_evm_def by code_simp+

lemma nonce_link_step: "link_step link_ports empty_link nonce_link"
proof -
  have "link_createNonce link_ports 7 (Some link_evm) 1 empty_link =
      (Inr \<lparr>nr_nonce = hex_of (linkBytes link_ports 16 0), nr_message = example_message,
         nr_expiresAt = toISOString (0 + NONCE_TTL_MS)\<rparr>, nonce_link)"
    by (simp add: link_createNonce_def svc_simps link_evm_facts sbind_def link_draw_def insert_link_nonce_def slift_def Let_def
        empty_link_def nonce_link_def fresh_id_def example_message_def NONCE_TTL_MS_def)
  then show ?thesis by (rule link_step.nonce)
qed

lemma nonce_link_check:
  "link_check link_ports 7 (Some link_evm) example_message ecdsa_signature nonce_link =
     (Inr (link_evm, hd (link_nonces nonce_link)), nonce_link)"
proof -
  have "recoverSigner link_ports example_message ecdsa_signature = Inr link_evm"
    by (simp add: link_ports_def link_evm_def)
  then show ?thesis
    by (simp add: link_check_def sbind_lift sbind_get link_evm_facts svc_if svc_eval nonce_link_def empty_link_def)
qed

lemma nonce_link_verify:
  "\<exists>r s'. link_verify link_ports 7 (Some link_evm) 1 example_message ecdsa_signature nonce_link = (Inr r, s') \<and>
     map lw_address (linked_wallets s') = [link_evm]"
  by (simp add: link_verify_def sbind_def [of "link_check _ _ _ _ _"] nonce_link_check)
    (simp add: link_commit_def sbind_def link_simps svc_simps nonce_link_def empty_link_def insert_linked_def)

theorem link_sound_witness:
  "\<exists>t. (link_step link_ports)\<^sup>*\<^sup>* empty_link t \<and> map lw_address (linked_wallets t) = [link_evm] \<and>
     (\<forall>w \<in> set (linked_wallets t). signed_for link_ports w)"
proof -
  obtain r t where v: "link_verify link_ports 7 (Some link_evm) 1 example_message ecdsa_signature nonce_link = (Inr r, t)"
      "map lw_address (linked_wallets t) = [link_evm]"
    using nonce_link_verify by (elim exE conjE)
  have run: "(link_step link_ports)\<^sup>*\<^sup>* empty_link t"
    using nonce_link_step link_step.verify [OF v(1)] by (meson converse_rtranclp_into_rtranclp r_into_rtranclp)
  from link_sound [OF run] v(2) run show ?thesis by (auto simp: empty_link_def)
qed

theorem link_commit_once_witness:
  "\<exists>r s'. link_commit 7 1 example_message ecdsa_signature (link_evm, hd (link_nonces nonce_link)) nonce_link = (r, s') \<and>
     link_commit 8 1 example_message ecdsa_signature (link_evm, hd (link_nonces nonce_link)) s' = (Inl (BadRequest ''Nonce already used''), s')"
proof -
  obtain r s' where c: "link_commit 7 1 example_message ecdsa_signature (link_evm, hd (link_nonces nonce_link)) nonce_link = (r, s')"
    by (cases "link_commit 7 1 example_message ecdsa_signature (link_evm, hd (link_nonces nonce_link)) nonce_link")
  from link_commit_once [OF c] c show ?thesis by blast
qed

end
