(* ===== verification/Onboarding.thy ===== *)
theory Onboarding
  imports Loan_Verification Wallet_Link
begin

text \<open>
  Registration of users (\<open>backend/src/user/user-onboarding.service.ts\<close>), the queries on their
  progress (\<open>user/user-query.service.ts\<close>) and the profile of the Lemon wallet
  (\<open>user/user.service.ts\<close>, \<open>common/iso-country.util.ts\<close>).

  Beside the world of the services there are the users whose e-mail address is not verified
  yet and the two analytics tables that registration completes. The mail transport is
  external: it is absent without its configuration, and a call of it changes only the external
  component of the world. Columns of the source that no code here reads (the phone columns of
  unverified users) are left out.
\<close>

section \<open>State\<close>

record NotVerifiedUser =
  pu_id :: nat
  pu_wallet :: string
  pu_platform :: "string option"
  pu_email :: "string option"
  pu_otpCode :: "string option"
  pu_otpExpiresAt :: "int option"
  pu_attempts :: int
  pu_lastOtpSentAt :: "int option"
  pu_waitlistJoinedAt :: "int option"
  pu_termsAcceptedAt :: "int option"

record AnalyticsRow =
  an_wallet :: "string option"
  an_userId :: "nat option"

record 'c onboard =
  ob_world :: "'c world"
  pending_users :: "NotVerifiedUser list"
  device_sessions :: "AnalyticsRow list"
  borrow_attempts :: "AnalyticsRow list"
  ob_draws :: nat

type_synonym ('c, 'a) onb_svc = "('c onboard, 'a) svc"

text \<open>The mail transport: the address, the code, and the external state.\<close>

type_synonym 'c mailer = "string \<Rightarrow> string \<Rightarrow> 'c \<Rightarrow> (http_error, unit) result \<times> 'c"

definition on_world :: "('c world, 'a) svc \<Rightarrow> ('c, 'a) onb_svc" where
  "on_world m s = (case m (ob_world s) of (r, w) \<Rightarrow> (r, s\<lparr>ob_world := w\<rparr>))"

definition ob_now :: "'c onboard \<Rightarrow> int" where "ob_now s = now (ob_world s)"

definition ob_user :: "string \<Rightarrow> 'c onboard \<Rightarrow> User option" where
  "ob_user w s = user_by_wallet w (ob_world s)"

definition pending_of :: "string \<Rightarrow> 'c onboard \<Rightarrow> NotVerifiedUser option" where
  "pending_of w s = find (\<lambda>p. pu_wallet p = w) (pending_users s)"

definition blank_pending :: "string \<Rightarrow> NotVerifiedUser" where
  "blank_pending w = \<lparr>pu_id = 0, pu_wallet = w, pu_platform = None, pu_email = None, pu_otpCode = None,
     pu_otpExpiresAt = None, pu_attempts = 0, pu_lastOtpSentAt = None, pu_waitlistJoinedAt = None, pu_termsAcceptedAt = None\<rparr>"

text \<open>
  \<open>save\<close> of an unverified user: its row is replaced, or inserted under the unique index on
  the wallet. The value is the saved entity, which then has its id.
\<close>

definition save_pending :: "NotVerifiedUser \<Rightarrow> ('c, NotVerifiedUser) onb_svc" where
  "save_pending p = (\<lambda>s.
     if list_ex (\<lambda>q. pu_id q = pu_id p) (pending_users s)
     then (Inr p, s\<lparr>pending_users := put_row pu_id p (pending_users s)\<rparr>)
     else if list_ex (\<lambda>q. pu_wallet q = pu_wallet p) (pending_users s) then (Inl unique_violation, s)
     else let p' = p\<lparr>pu_id := fresh_id pu_id (pending_users s)\<rparr>
          in (Inr p', s\<lparr>pending_users := pending_users s @ [p']\<rparr>))"

definition delete_pending :: "nat \<Rightarrow> ('c, unit) onb_svc" where
  "delete_pending i = smod (\<lambda>s. s\<lparr>pending_users := filter (\<lambda>p. pu_id p \<noteq> i) (pending_users s)\<rparr>)"

text \<open>An update of a user row, under the unique indexes on the e-mail address and on the Lemon tag.\<close>

definition index_clash :: "User \<Rightarrow> User list \<Rightarrow> bool" where
  "index_clash u rows = list_ex (\<lambda>v. user_id v \<noteq> user_id u \<and>
     (email u \<noteq> None \<and> email v = email u \<or> lemonTag u \<noteq> None \<and> lemonTag v = lemonTag u)) rows"

definition update_profile :: "nat \<Rightarrow> (User \<Rightarrow> User) \<Rightarrow> ('c, unit) onb_svc" where
  "update_profile i f = (\<lambda>s.
     if list_ex (\<lambda>u. user_id u = i \<and> index_clash (f u) (users (ob_world s))) (users (ob_world s))
     then (Inl unique_violation, s)
     else on_world (update_user i f) s)"

definition new_user :: "string \<Rightarrow> User" where
  "new_user w = \<lparr>user_id = 0, walletAddress = w, platform = None, firstName = None, lastName = None,
     birthdate = None, nationality = None, documentType = None, documentNumber = None, creditLimit = None,
     score = None, email = None, waitlistJoinedAt = None, earlyAccessNotifiedAt = None, user_createdAt = 0,
     xp = 1, waitlistPriority = 0, riskDecision = None, riskPDefault = None, riskClass = None, riskScoredAt = None,
     walletQuality = None, workType = None, termsAcceptedAt = None, phone = None, phoneVerifiedAt = None,
     lastPhoneOtpSentAt = None, phoneOtpCode = None, phoneOtpExpiresAt = None, phoneOtpAttemptCount = 0,
     hadDefaultEver = False, defaultsCount = 0, lemonTag = None, pep = None, lemonCountry = None,
     lemonAuthenticatedAt = None, identityCrossCheckedAt = None, kycStatus = ''none'', kycSessionId = None,
     kycProvider = None, kycApprovedAt = None, identityMatchScore = None, lemonEmail = None, emailMatchesLemon = None\<rparr>"

text \<open>Insertion of a user, under the unique indexes on the wallet and on the e-mail address.\<close>

definition insert_user :: "User \<Rightarrow> ('c, User) onb_svc" where
  "insert_user u = (\<lambda>s.
     let w = ob_world s; u' = u\<lparr>user_id := fresh_id user_id (users w), user_createdAt := now w\<rparr>
     in if list_ex (\<lambda>v. walletAddress v = walletAddress u) (users w) \<or> index_clash u' (users w)
        then (Inl unique_violation, s)
        else (Inr u', s\<lparr>ob_world := w\<lparr>users := users w @ [store_user u']\<rparr>\<rparr>))"

text \<open>A database transaction over users and unverified users.\<close>

definition ob_transaction :: "('c, 'a) onb_svc \<Rightarrow> ('c, 'a) onb_svc" where
  "ob_transaction m s =
     (case m s of
        (Inl e, s') \<Rightarrow> (Inl e, s'\<lparr>ob_world := (ob_world s')\<lparr>users := users (ob_world s), loans := loans (ob_world s)\<rparr>,
           pending_users := pending_users s\<rparr>)
      | (Inr a, s') \<Rightarrow> (Inr a, s'))"

section \<open>Progress of a user\<close>

definition resolvePlatform :: "string option \<Rightarrow> string option \<Rightarrow> string" where
  "resolvePlatform stored requested = nullish (orelse (normalizePlatform stored) (normalizePlatform requested)) ''lemon''"

text \<open>
  The rank is computed through a small cache, an insertion-ordered map from a key to a value
  and its expiry; \<open>rank_key\<close> is the text of the key.
\<close>

type_synonym rank_cache = "(string \<times> int \<times> int) list"

definition RANK_CACHE_TTL_MS :: int where "RANK_CACHE_TTL_MS = 60000"

definition rank_key :: "User \<Rightarrow> string \<Rightarrow> string" where
  "rank_key user pf = pf @ '':'' @ int_str (waitlistPriority user) @ '':'' @ int_str (user_createdAt user)"

definition map_set :: "string \<Rightarrow> 'v \<Rightarrow> (string \<times> 'v) list \<Rightarrow> (string \<times> 'v) list" where
  "map_set k v c = (if k \<in> fst ` set c then map (\<lambda>p. if fst p = k then (k, v) else p) c else c @ [(k, v)])"

definition prune_ranks :: "int \<Rightarrow> rank_cache \<Rightarrow> rank_cache" where
  "prune_ranks t c =
     (if length c > 500 then
        let live = filter (\<lambda>p. \<not> snd (snd p) \<le> t) c
        in if length live > 500 then drop (length live - 500) live else live
      else c)"

definition cached_rank :: "User \<Rightarrow> string \<Rightarrow> 'c world \<Rightarrow> rank_cache \<Rightarrow> int \<times> rank_cache" where
  "cached_rank user pf s c =
     (let k = rank_key user pf; t = now s in
      case map_of c k of
        Some (v, expires) \<Rightarrow>
          if expires > t then (v, c)
          else (let r = getRankWithinPlatform user pf s in (r, prune_ranks t (map_set k (r, t + RANK_CACHE_TTL_MS) c)))
      | None \<Rightarrow> (let r = getRankWithinPlatform user pf s in (r, prune_ranks t (map_set k (r, t + RANK_CACHE_TTL_MS) c))))"

definition getWaitlistPosition :: "User \<Rightarrow> string option \<Rightarrow> 'c world \<Rightarrow> int option" where
  "getWaitlistPosition user override s =
     (if waitlistJoinedAt user = None then None
      else
        let pf = nullish (orelse override (normalizePlatform (platform user))) ''lemon''; limit = getUserUntilWaitlist pf in
        if limit \<le> 0 then None
        else let rank = getRankWithinPlatform user pf s in if rank \<le> limit then None else Some (rank - limit))"

text \<open>A masked phone number: its prefix, a space, a bullet (\<open>None\<close>) for each digit but those of the last four characters.\<close>

definition phone_prefix :: "string \<Rightarrow> nat" where
  "phone_prefix p =
     (case p of
        [] \<Rightarrow> 0
      | c # cs \<Rightarrow> (let n = length (takeWhile is_digit_char (take 3 cs)) in if c = CHR ''+'' \<and> n > 0 then 1 + n else 0))"

definition mask_phone :: "string \<Rightarrow> char option list" where
  "mask_phone p =
     (let k = phone_prefix p; rest = drop k p; h = length rest - 4
      in map Some (take k p) @ [Some (CHR '' '')] @
         map (\<lambda>c. if is_digit_char c then None else Some c) (take h rest) @ map Some (drop h rest))"

record StepView =
  sv_walletAddress :: string
  sv_userId :: "nat option"
  sv_isVerified :: bool
  sv_creditLimit :: "rat option"
  sv_email :: "string option"
  sv_xp :: int
  sv_achievementsCount :: int
  sv_score :: "int option"
  sv_workType :: "string option"
  sv_termsAccepted :: bool
  sv_phoneVerified :: bool
  sv_phoneMasked :: "char option list option"
  sv_pendingPhoneOtp :: "bool option"
  sv_waitlistLimit :: int
  sv_isEarlyUser :: bool
  sv_isInWaitlist :: bool
  sv_waitlistPosition :: "int option"
  sv_waitlistPriority :: int
  sv_needsEmailForWaitlist :: bool
  sv_goToWaitlist :: bool
  sv_hasPendingWaitlist :: bool
  sv_requiresWaitlistOtp :: bool
  sv_otpExpiresAt :: "int option"
  sv_loansTotal :: int
  sv_closedLoansTotal :: int
  sv_loansOnTime :: int
  sv_openLoansCount :: "int option"

text \<open>The answer for a wallet that is not known at all.\<close>

definition unknown_step :: "string \<Rightarrow> StepView" where
  "unknown_step w = \<lparr>sv_walletAddress = w, sv_userId = None, sv_isVerified = False, sv_creditLimit = None, sv_email = None,
     sv_xp = 1, sv_achievementsCount = 0, sv_score = None, sv_workType = None, sv_termsAccepted = False, sv_phoneVerified = False,
     sv_phoneMasked = None, sv_pendingPhoneOtp = None, sv_waitlistLimit = 0, sv_isEarlyUser = True, sv_isInWaitlist = False,
     sv_waitlistPosition = None, sv_waitlistPriority = 0, sv_needsEmailForWaitlist = False, sv_goToWaitlist = False,
     sv_hasPendingWaitlist = False, sv_requiresWaitlistOtp = False, sv_otpExpiresAt = None, sv_loansTotal = 0,
     sv_closedLoansTotal = 0, sv_loansOnTime = 0, sv_openLoansCount = None\<rparr>"

definition allRequiredPresent :: "User \<Rightarrow> bool" where
  "allRequiredPresent u = (nullish (creditLimit u) 0 \<noteq> 0 \<and> nullish (score u) 0 \<noteq> 0)"

definition user_step :: "User \<Rightarrow> 'c onboard \<Rightarrow> StepView" where
  "user_step user s =
     (let w = ob_world s; pending = pending_of (walletAddress user) s; mine = (\<lambda>l. loan_userId l = user_id user)
      in (unknown_step (walletAddress user))\<lparr>sv_userId := Some (user_id user), sv_isVerified := allRequiredPresent user,
           sv_creditLimit := creditLimit user, sv_email := email user, sv_xp := xp user, sv_score := score user,
           sv_workType := workType user, sv_termsAccepted := termsAcceptedAt user \<noteq> None,
           sv_phoneVerified := phoneVerifiedAt user \<noteq> None,
           sv_phoneMasked := (if falsy_str (phone user) then None else Some (mask_phone (the (phone user)))),
           sv_pendingPhoneOtp := Some (\<not> falsy_str (phoneOtpCode user) \<and>
             (case phoneOtpExpiresAt user of None \<Rightarrow> False | Some e \<Rightarrow> e > now w)),
           sv_waitlistPriority := waitlistPriority user, sv_requiresWaitlistOtp := pending \<noteq> None,
           sv_otpExpiresAt := (case pending of None \<Rightarrow> None | Some p \<Rightarrow> pu_otpExpiresAt p),
           sv_loansTotal := count_loans mine w,
           sv_closedLoansTotal := count_loans (\<lambda>l. mine l \<and> closedAt l \<noteq> None) w,
           sv_loansOnTime := count_loans (\<lambda>l. mine l \<and> closedAt l \<noteq> None \<and> repaidOnTime l) w,
           sv_openLoansCount := Some (count_loans (\<lambda>l. mine l \<and> closeTxHash l = None \<and>
             (status l = OPEN \<or> status l = DEFAULTED \<or> status l = DEFAULTED_IN_GRACE)) w)\<rparr>)"

definition pending_step :: "NotVerifiedUser \<Rightarrow> StepView" where
  "pending_step p = (unknown_step (pu_wallet p))\<lparr>sv_email := pu_email p, sv_termsAccepted := pu_termsAcceptedAt p \<noteq> None,
     sv_hasPendingWaitlist := pu_waitlistJoinedAt p \<noteq> None, sv_requiresWaitlistOtp := True,
     sv_otpExpiresAt := pu_otpExpiresAt p\<rparr>"

text \<open>The rank that the code computes on the way for a registered user has no influence on the answer.\<close>

definition getStepByWallet :: "string \<Rightarrow> ('c, StepView) onb_svc" where
  "getStepByWallet addr =
     sbind (slift (normalizeWallet addr)) (\<lambda>wallet.
     sget (\<lambda>s. case ob_user wallet s of
         Some user \<Rightarrow> user_step user s
       | None \<Rightarrow> (case pending_of wallet s of Some p \<Rightarrow> pending_step p | None \<Rightarrow> unknown_step wallet)))"

section \<open>Registration\<close>

definition ensureEmailIsFreeForWallet :: "string \<Rightarrow> string \<Rightarrow> ('c, unit) onb_svc" where
  "ensureEmailIsFreeForWallet e wallet =
     (if e = [] then sthrow (BadRequest ''Email is required'')
      else
        sbind (sget (\<lambda>s. find (\<lambda>u. email u = Some e) (users (ob_world s)))) (\<lambda>existing.
        srequire (case existing of None \<Rightarrow> True | Some u \<Rightarrow> walletAddress u = wallet)
          (BadRequest ''Email already used by another account'')))"

definition issueOtpForPending :: "LinkPorts \<Rightarrow> 'c mailer option \<Rightarrow> NotVerifiedUser \<Rightarrow> ('c, NotVerifiedUser) onb_svc" where
  "issueOtpForPending P mailer p =
     (if falsy_str (pu_email p) then sthrow (BadRequest ''User has no email'')
      else
        sbind (sget ob_now) (\<lambda>t.
        if (case pu_lastOtpSentAt p of None \<Rightarrow> False | Some l \<Rightarrow> t - l < 60000)
        then sthrow (BadRequest ''Espera unos segundos antes de pedir otro codigo'')
        else
          sbind (\<lambda>s. (Inr (int_str (randomInt P 100000 1000000 (ob_draws s))), s\<lparr>ob_draws := ob_draws s + 1\<rparr>)) (\<lambda>code.
          sbind (save_pending (p\<lparr>pu_otpCode := Some (hashOtp P code), pu_otpExpiresAt := Some (t + 10 * 60 * 1000),
                   pu_attempts := 0, pu_lastOtpSentAt := Some t\<rparr>)) (\<lambda>p'.
          sbind (case mailer of
                   None \<Rightarrow> sret ()
                 | Some send \<Rightarrow> scatch (on_world (chain_write (send (the (pu_email p)) code))) (\<lambda>_. sret ())) (\<lambda>_.
          sret p')))))"

text \<open>\<open>updates.platform\<close> of the source: set when the row has none and the request has a known one.\<close>

definition or_platform :: "string option \<Rightarrow> string option \<Rightarrow> string option" where
  "or_platform stored pf = (if falsy_str stored \<and> pf \<noteq> None then pf else stored)"

definition acceptTerms :: "string \<Rightarrow> string option \<Rightarrow> ('c, StepView) onb_svc" where
  "acceptTerms addr requested =
     sbind (slift (normalizeWallet addr)) (\<lambda>wallet.
     let pf = normalizePlatform requested in
     sbind (sget (\<lambda>s. (ob_user wallet s, pending_of wallet s, ob_now s))) (\<lambda>(found, pend, t).
     case found of
       Some user \<Rightarrow>
         sbind (update_profile (user_id user) (\<lambda>u. u\<lparr>termsAcceptedAt := orelse (termsAcceptedAt user) (Some t),
             platform := or_platform (platform user) pf\<rparr>)) (\<lambda>_.
         getStepByWallet wallet)
     | None \<Rightarrow>
         sbind (save_pending (case pend of
             None \<Rightarrow> (blank_pending wallet)\<lparr>pu_platform := pf, pu_termsAcceptedAt := Some t\<rparr>
           | Some p \<Rightarrow> p\<lparr>pu_termsAcceptedAt := orelse (pu_termsAcceptedAt p) (Some t), pu_platform := or_platform (pu_platform p) pf\<rparr>)) (\<lambda>_.
         getStepByWallet wallet)))"

text \<open>The unverified user with a new address; the code it may hold is left as it is.\<close>

definition with_email :: "string \<Rightarrow> string \<Rightarrow> string option \<Rightarrow> NotVerifiedUser option \<Rightarrow> NotVerifiedUser" where
  "with_email wallet e pf pend =
     (case pend of
        None \<Rightarrow> (blank_pending wallet)\<lparr>pu_email := Some e, pu_platform := pf\<rparr>
      | Some p \<Rightarrow> p\<lparr>pu_email := Some e, pu_platform := or_platform (pu_platform p) pf\<rparr>)"

definition verifyEmail :: "LinkPorts \<Rightarrow> 'c mailer option \<Rightarrow> string \<Rightarrow> string \<Rightarrow> string option \<Rightarrow> ('c, StepView) onb_svc" where
  "verifyEmail P mailer addr address requested =
     sbind (slift (normalizeWallet addr)) (\<lambda>wallet.
     let e = to_lower (js_trim address); pf = normalizePlatform requested in
     sbind (ensureEmailIsFreeForWallet e wallet) (\<lambda>_.
     sbind (sget (ob_user wallet)) (\<lambda>found.
     sbind (case found of
              None \<Rightarrow> sret ()
            | Some user \<Rightarrow> update_profile (user_id user) (\<lambda>u. u\<lparr>email := Some e, platform := or_platform (platform user) pf\<rparr>)) (\<lambda>_.
     sbind (sget (pending_of wallet)) (\<lambda>pend.
     sbind (save_pending (with_email wallet e pf pend)) (\<lambda>p.
     sbind (issueOtpForPending P mailer p) (\<lambda>_.
     getStepByWallet wallet)))))))"

definition joinWaitlist :: "LinkPorts \<Rightarrow> 'c mailer option \<Rightarrow> string \<Rightarrow> string \<Rightarrow> string option \<Rightarrow> ('c, StepView) onb_svc" where
  "joinWaitlist P mailer addr address requested =
     sbind (slift (normalizeWallet addr)) (\<lambda>wallet.
     let e = to_lower (js_trim address); pf = normalizePlatform requested in
     sbind (ensureEmailIsFreeForWallet e wallet) (\<lambda>_.
     sbind (sget (\<lambda>s. (ob_user wallet s, ob_now s))) (\<lambda>(found, t).
     sbind (case found of
              None \<Rightarrow> sret None
            | Some user \<Rightarrow>
                sbind (sget (\<lambda>s. isEarlyUser user None (ob_world s))) (\<lambda>early.
                let joined = (if \<not> early \<and> waitlistJoinedAt user = None then Some t else waitlistJoinedAt user)
                in sbind (update_profile (user_id user) (\<lambda>u. u\<lparr>email := Some e, waitlistJoinedAt := joined,
                       platform := or_platform (platform user) pf\<rparr>)) (\<lambda>_. sret joined))) (\<lambda>joined.
     sbind (sget (pending_of wallet)) (\<lambda>pend.
     let p0 = with_email wallet e pf pend
     in sbind (save_pending (p0\<lparr>pu_waitlistJoinedAt := orelse (pu_waitlistJoinedAt p0) (orelse joined (Some t))\<rparr>)) (\<lambda>p.
        sbind (issueOtpForPending P mailer p) (\<lambda>_.
        getStepByWallet wallet)))))))"

text \<open>The rows of the analytics tables that carry the wallet and no user get the new user.\<close>

definition link_rows :: "nat \<Rightarrow> string \<Rightarrow> AnalyticsRow list \<Rightarrow> AnalyticsRow list" where
  "link_rows i wallet rows =
     map (\<lambda>r. if an_userId r = None \<and> (an_wallet r = Some wallet \<or> map_option to_lower (an_wallet r) = Some (to_lower wallet))
       then r\<lparr>an_userId := Some i\<rparr> else r) rows"

definition linkAnalyticsForNewUser :: "nat \<Rightarrow> string \<Rightarrow> ('c, unit) onb_svc" where
  "linkAnalyticsForNewUser i addr =
     sbind (slift (normalizeWallet addr)) (\<lambda>wallet.
     smod (\<lambda>s. s\<lparr>device_sessions := link_rows i wallet (device_sessions s),
       borrow_attempts := link_rows i wallet (borrow_attempts s)\<rparr>))"

text \<open>The branch of \<open>verifyOtp\<close> without a pending address: only the work type of an existing user changes.\<close>

definition otp_without_pending :: "string \<Rightarrow> string \<Rightarrow> string option \<Rightarrow> ('c, StepView) onb_svc" where
  "otp_without_pending wallet work pf =
     sbind (sget (ob_user wallet)) (\<lambda>found.
     case found of
       None \<Rightarrow> sthrow (BadRequest ''Invalid user'')
     | Some user \<Rightarrow>
         sbind (update_profile (user_id user) (\<lambda>u. u\<lparr>workType := Some work, platform := or_platform (platform user) pf\<rparr>)) (\<lambda>_.
         getStepByWallet wallet))"

text \<open>The code of an unverified user is checked; a wrong one is counted.\<close>

definition check_otp :: "LinkPorts \<Rightarrow> NotVerifiedUser \<Rightarrow> string \<Rightarrow> ('c, unit) onb_svc" where
  "check_otp P p code =
     (if falsy_str (pu_otpCode p) \<or> pu_otpExpiresAt p = None then sthrow (BadRequest ''No active code, request a new one'')
      else
        sbind (sget ob_now) (\<lambda>t.
        if the (pu_otpExpiresAt p) < t then sthrow (BadRequest ''Code expired'')
        else if pu_attempts p \<ge> 5 then sthrow (BadRequest ''Too many failed attempts, request a new code'')
        else if pu_otpCode p \<noteq> Some (hashOtp P code)
        then sbind (save_pending (p\<lparr>pu_attempts := pu_attempts p + 1\<rparr>)) (\<lambda>_. sthrow (BadRequest ''Invalid code''))
        else sret ()))"

definition sync_existing :: "User \<Rightarrow> NotVerifiedUser \<Rightarrow> string \<Rightarrow> string \<Rightarrow> string option \<Rightarrow> ('c, unit) onb_svc" where
  "sync_existing user p e work pf =
     ob_transaction (
       sbind (update_profile (user_id user) (\<lambda>u. u\<lparr>email := Some e, workType := Some work,
           platform := or_platform (platform user) pf,
           termsAcceptedAt := (if pu_termsAcceptedAt p \<noteq> None \<and> termsAcceptedAt user = None then pu_termsAcceptedAt p
             else termsAcceptedAt u)\<rparr>)) (\<lambda>_.
       delete_pending (pu_id p)))"

definition registered :: "NotVerifiedUser \<Rightarrow> string \<Rightarrow> string \<Rightarrow> string option \<Rightarrow> bool \<Rightarrow> int \<Rightarrow> User" where
  "registered p e work pf early t = (new_user (pu_wallet p))\<lparr>email := Some e,
     waitlistJoinedAt := (if early then None else orelse (pu_waitlistJoinedAt p) (Some t)),
     platform := pf, workType := Some work, termsAcceptedAt := pu_termsAcceptedAt p\<rparr>"

definition create_user :: "NotVerifiedUser \<Rightarrow> string \<Rightarrow> string \<Rightarrow> string option \<Rightarrow> ('c, unit) onb_svc" where
  "create_user p e work pf =
     sbind (sget (\<lambda>s. (int (length (filter (\<lambda>u. pf = None \<or> platform u = pf) (users (ob_world s)))), ob_now s))) (\<lambda>(current, t).
     let limit = getUserUntilWaitlist (nullish pf []); early = (limit > 0 \<and> current + 1 \<le> limit)
     in sbind (ob_transaction (
          sbind (insert_user (registered p e work pf early t)) (\<lambda>u.
          sbind (delete_pending (pu_id p)) (\<lambda>_. sret u)))) (\<lambda>u.
        scatch (linkAnalyticsForNewUser (user_id u) (walletAddress u)) (\<lambda>_. sret ())))"

definition verifyOtp :: "LinkPorts \<Rightarrow> string \<Rightarrow> string option \<Rightarrow> string option \<Rightarrow> string option \<Rightarrow> ('c, StepView) onb_svc" where
  "verifyOtp P addr code work requested =
     sbind (slift (normalizeWallet addr)) (\<lambda>wallet.
     let c = js_trim (nullish code []); wt = js_trim (nullish work []) in
     if c = [] then sthrow (BadRequest ''Code is required'')
     else if wt = [] then sthrow (BadRequest ''workType is required'')
     else
       let rpf = normalizePlatform requested in
       sbind (sget (pending_of wallet)) (\<lambda>pend.
       if (case pend of None \<Rightarrow> True | Some p \<Rightarrow> falsy_str (pu_email p)) then otp_without_pending wallet wt rpf
       else
         let p = the pend; e = to_lower (js_trim (the (pu_email p))); pf = orelse (normalizePlatform (pu_platform p)) rpf in
         sbind (check_otp P p c) (\<lambda>_.
         sbind (ensureEmailIsFreeForWallet e wallet) (\<lambda>_.
         sbind (sget (ob_user wallet)) (\<lambda>found.
         sbind (case found of Some user \<Rightarrow> sync_existing user p e wt pf | None \<Rightarrow> create_user p e wt pf) (\<lambda>_.
         getStepByWallet wallet))))))"

datatype resend_reply = Step StepView | Resent string "int option"

definition resendOtp :: "LinkPorts \<Rightarrow> 'c mailer option \<Rightarrow> string \<Rightarrow> string option \<Rightarrow> ('c, resend_reply) onb_svc" where
  "resendOtp P mailer addr address =
     sbind (slift (normalizeWallet addr)) (\<lambda>wallet.
     let e = to_lower (js_trim (nullish address [])) in
     sbind (sget (\<lambda>s. (ob_user wallet s, pending_of wallet s))) (\<lambda>(found, pend).
     if found \<noteq> None then sbind (getStepByWallet wallet) (\<lambda>v. sret (Step v))
     else
       sbind (if e = [] then sret pend
              else
                sbind (ensureEmailIsFreeForWallet e wallet) (\<lambda>_.
                sbind (save_pending (case pend of None \<Rightarrow> (blank_pending wallet)\<lparr>pu_email := Some e\<rparr> | Some p \<Rightarrow> p\<lparr>pu_email := Some e\<rparr>))
                  (\<lambda>p. sret (Some p)))) (\<lambda>pend'.
       if (case pend' of None \<Rightarrow> True | Some p \<Rightarrow> falsy_str (pu_email p)) then sthrow (BadRequest ''Invalid user'')
       else
         sbind (issueOtpForPending P mailer (the pend')) (\<lambda>p.
         sret (Resent (pu_wallet p) (pu_otpExpiresAt p))))))"

section \<open>Profile\<close>

definition ALPHA3_TO_ALPHA2 :: "(string \<times> string) list" where
  "ALPHA3_TO_ALPHA2 =
     [(''ARG'', ''AR''), (''BOL'', ''BO''), (''BRA'', ''BR''), (''CHL'', ''CL''), (''COL'', ''CO''), (''CRI'', ''CR''),
      (''CUB'', ''CU''), (''DOM'', ''DO''), (''ECU'', ''EC''), (''SLV'', ''SV''), (''GTM'', ''GT''), (''HND'', ''HN''),
      (''MEX'', ''MX''), (''NIC'', ''NI''), (''PAN'', ''PA''), (''PRY'', ''PY''), (''PER'', ''PE''), (''PRI'', ''PR''),
      (''URY'', ''UY''), (''VEN'', ''VE''), (''USA'', ''US''), (''CAN'', ''CA''), (''ESP'', ''ES''), (''ITA'', ''IT''),
      (''DEU'', ''DE''), (''FRA'', ''FR''), (''GBR'', ''GB''), (''PRT'', ''PT'')]"

definition toIso2 :: "string option \<Rightarrow> string option" where
  "toIso2 code =
     (if falsy_str code then None
      else let trimmed = to_upper (js_trim (the code)) in
        if trimmed = [] then None
        else if length trimmed = 2 then Some trimmed
        else if length trimmed = 3 then map_of ALPHA3_TO_ALPHA2 trimmed
        else None)"

definition countriesEqual :: "string option \<Rightarrow> string option \<Rightarrow> bool option" where
  "countriesEqual a b =
     (case (toIso2 a, toIso2 b) of (Some x, Some y) \<Rightarrow> Some (x = y) | _ \<Rightarrow> None)"

record LemonPayload =
  lp_walletAddress :: string
  lp_firstName :: "string option"
  lp_lastName :: "string option"
  lp_email :: "string option"
  lp_lemonTag :: "string option"
  lp_pep :: "bool option"
  lp_lemonCountry :: "string option"

definition norm_text :: "string option \<Rightarrow> string" where
  "norm_text s = to_lower (js_trim (nullish s []))"

text \<open>A name or address of the payload fills an empty column only.\<close>

definition fill :: "string option \<Rightarrow> string option \<Rightarrow> string option" where
  "fill old new = (if falsy_str old \<and> \<not> falsy_str new then Some (js_trim (the new)) else old)"

definition lemon_match_score :: "User \<Rightarrow> User \<Rightarrow> LemonPayload \<Rightarrow> int option" where
  "lemon_match_score before after payload =
     (let first = \<not> falsy_str (firstName before); surname = \<not> falsy_str (lastName before); mail = \<not> falsy_str (email before)
      in if first \<or> surname \<or> mail then
           Some ((if first \<and> \<not> falsy_str (lp_firstName payload) \<and> norm_text (firstName after) = norm_text (lp_firstName payload) then 40 else 0) +
                 (if surname \<and> \<not> falsy_str (lp_lastName payload) \<and> norm_text (lastName after) = norm_text (lp_lastName payload) then 40 else 0) +
                 (if mail \<and> \<not> falsy_str (lp_email payload) \<and> norm_text (email after) = norm_text (lp_email payload) then 20 else 0))
         else None)"

text \<open>The user after the claims of the payload; the e-mail and tag columns store lower case.\<close>

definition with_claims :: "LemonPayload \<Rightarrow> int \<Rightarrow> User \<Rightarrow> User" where
  "with_claims payload t user =
     (let u = user\<lparr>firstName := fill (firstName user) (lp_firstName payload), lastName := fill (lastName user) (lp_lastName payload),
            email := map_option to_lower (fill (email user) (lp_email payload)),
            lemonTag := (case lp_lemonTag payload of None \<Rightarrow> lemonTag user | Some x \<Rightarrow> Some (to_lower (js_trim x))),
            pep := orelse (lp_pep payload) (pep user),
            lemonCountry := (case lp_lemonCountry payload of None \<Rightarrow> lemonCountry user
               | Some c \<Rightarrow> Some (nullish (toIso2 (Some c)) (to_upper (js_trim c)))),
            lemonAuthenticatedAt := Some t\<rparr>;
          u' = (if falsy_str (lp_email payload) then u
                else u\<lparr>lemonEmail := Some (to_lower (js_trim (the (lp_email payload)))),
                       emailMatchesLemon := (if falsy_str (email u) then emailMatchesLemon u
                         else Some (norm_text (email u) = norm_text (lp_email payload)))\<rparr>)
      in case lemon_match_score user u' payload of
           None \<Rightarrow> u'
         | Some sc \<Rightarrow> u'\<lparr>identityMatchScore := Some sc, identityCrossCheckedAt := Some t\<rparr>)"

definition profile_updated :: "User \<Rightarrow> LemonPayload \<Rightarrow> bool" where
  "profile_updated user payload =
     (falsy_str (firstName user) \<and> \<not> falsy_str (lp_firstName payload) \<or>
      falsy_str (lastName user) \<and> \<not> falsy_str (lp_lastName payload) \<or>
      lp_lemonTag payload \<noteq> None \<or> lp_pep payload \<noteq> None \<or> lp_lemonCountry payload \<noteq> None \<or> \<not> falsy_str (lp_email payload))"

definition upsertLemonProfile :: "LemonPayload \<Rightarrow> ('c, bool \<times> int option) onb_svc" where
  "upsertLemonProfile payload =
     sbind (slift (normalizeWallet (lp_walletAddress payload))) (\<lambda>wallet.
     sbind (sget (\<lambda>s. (ob_user wallet s, ob_now s))) (\<lambda>(found, t).
     case found of
       None \<Rightarrow> sthrow (NotFound ''User not found'')
     | Some user \<Rightarrow>
         sbind (update_profile (user_id user) (with_claims payload t)) (\<lambda>_.
         sret (profile_updated user payload, lemon_match_score user (with_claims payload t user) payload))))"

definition updateWorkType :: "string \<Rightarrow> string \<Rightarrow> ('c, unit) onb_svc" where
  "updateWorkType addr work =
     sbind (on_world (findUserOrThrow ''User not found'' addr)) (\<lambda>user.
     update_profile (user_id user) (\<lambda>u. u\<lparr>workType := Some (js_trim work)\<rparr>))"

definition getStrict :: "string \<Rightarrow> ('c, string) onb_svc" where
  "getStrict addr = sbind (on_world (findUserOrThrow ''User not found'' addr)) (\<lambda>user. sret (walletAddress user))"

section \<open>Evaluation\<close>

named_theorems onb_simps \<open>evaluation of the registration handlers\<close>

lemma on_world_users [onb_simps]:
  "on_world (update_user i f) s = (Inr (), s\<lparr>ob_world := (ob_world s)\<lparr>users :=
     map (\<lambda>u. if user_id u = i then store_user (f u) else u) (users (ob_world s))\<rparr>\<rparr>)"
  by (simp add: on_world_def update_user_def svc_simps)

lemma step_frame: "getStepByWallet w s = (r, s') \<Longrightarrow> s' = s"
  by (auto simp: getStepByWallet_def svc_simps split: sum.splits)

lemma getStep_run [onb_simps]:
  "normalizeWallet a = Inr w \<Longrightarrow> getStepByWallet a s =
     (Inr (case ob_user w s of Some user \<Rightarrow> user_step user s
       | None \<Rightarrow> (case pending_of w s of Some p \<Rightarrow> pending_step p | None \<Rightarrow> unknown_step w)), s)"
  by (simp add: getStepByWallet_def svc_simps)

lemma save_pending_put:
  assumes "pending_of w s = Some p" "pu_id q = pu_id p"
  shows "save_pending q s = (Inr q, s\<lparr>pending_users := put_row pu_id q (pending_users s)\<rparr>)"
proof -
  have "p \<in> set (pending_users s)" using assms(1) unfolding pending_of_def using find_cond by fastforce
  with assms(2) show ?thesis by (auto simp: save_pending_def list_ex_iff)
qed

lemma pending_found:
  assumes "distinct (map pu_id (pending_users s))" "pending_of w s = Some p" "pu_id q = pu_id p" "pu_wallet q = pu_wallet p"
  shows "pending_of w (s\<lparr>pending_users := put_row pu_id q (pending_users s)\<rparr>) = Some q"
proof -
  have m: "map pu_wallet (put_row pu_id q (pending_users s)) = map pu_wallet (pending_users s)"
    using assms find_cond [of _ "pending_users s" p] unfolding pending_of_def put_row_def
    by (auto simp: distinct_map dest: inj_onD)
  have "find (\<lambda>z. pu_wallet z = w) (put_row pu_id q rows) = Some q"
    if "find (\<lambda>z. pu_wallet z = w) rows = Some p" "map pu_wallet (put_row pu_id q rows) = map pu_wallet rows" for rows
    using that assms(3,4) by (induction rows) (auto simp: put_row_def split: if_splits)
  with m assms(2) show ?thesis by (simp add: pending_of_def)
qed

lemma free_run [onb_simps]:
  "ensureEmailIsFreeForWallet e w s =
     (if e = [] then (Inl (BadRequest ''Email is required''), s)
      else if \<forall>u. find (\<lambda>u. email u = Some e) (users (ob_world s)) = Some u \<longrightarrow> walletAddress u = w then (Inr (), s)
      else (Inl (BadRequest ''Email already used by another account''), s))"
  by (auto simp: ensureEmailIsFreeForWallet_def svc_simps srequire_def split: option.split)

lemma free_no_user: "Some e \<notin> email ` set (users (ob_world s)) \<Longrightarrow> find (\<lambda>u. email u = Some e) (users (ob_world s)) = None"
  by (metis (mono_tags, lifting) find_none image_eqI)

text \<open>A code request within a minute of the last one: it throws, after the address was saved.\<close>

lemma issue_throttled:
  assumes "\<not> falsy_str (pu_email p)" "pu_lastOtpSentAt p = Some l" "ob_now s - l < 60000"
  shows "issueOtpForPending P mailer p s = (Inl (BadRequest ''Espera unos segundos antes de pedir otro codigo''), s)"
  using assms by (simp add: issueOtpForPending_def svc_simps)

lemma verifyEmail_throttled:
  assumes w: "normalizeWallet addr = Inr w" and e: "to_lower (js_trim address) = e" "e \<noteq> []"
    and u: "ob_user w s = None" "Some e \<notin> email ` set (users (ob_world s))" and p: "pending_of w s = Some p"
    and l: "pu_lastOtpSentAt p = Some l" "ob_now s - l < 60000"
  shows "verifyEmail P mailer addr address requested s =
    (Inl (BadRequest ''Espera unos segundos antes de pedir otro codigo''),
     s\<lparr>pending_users := put_row pu_id (p\<lparr>pu_email := Some e, pu_platform := or_platform (pu_platform p) (normalizePlatform requested)\<rparr>)
        (pending_users s)\<rparr>)"
proof -
  define q where "q = p\<lparr>pu_email := Some e, pu_platform := or_platform (pu_platform p) (normalizePlatform requested)\<rparr>"
  have q: "with_email w e (normalizePlatform requested) (Some p) = q" "\<not> falsy_str (pu_email q)" "pu_lastOtpSentAt q = Some l" "pu_id q = pu_id p"
    using l e(2) by (simp_all add: q_def with_email_def)
  have sv: "save_pending q s = (Inr q, s\<lparr>pending_users := put_row pu_id q (pending_users s)\<rparr>)"
    by (rule save_pending_put [OF p q(4)])
  have iss: "issueOtpForPending P mailer q (s\<lparr>pending_users := rows\<rparr>) =
      (Inl (BadRequest ''Espera unos segundos antes de pedir otro codigo''), s\<lparr>pending_users := rows\<rparr>)" for rows
    using l(2) by (intro issue_throttled [OF q(2,3)]) (simp add: ob_now_def)
  show ?thesis
    using w e u p q(1) sv iss free_no_user [OF u(2)]
    by (simp add: verifyEmail_def svc_simps Let_def sbind_def slift_def free_run q_def [symmetric])
qed

lemma check_otp_ok:
  assumes "pu_otpCode p = Some (hashOtp P c)" "hashOtp P c \<noteq> []" "pu_otpExpiresAt p = Some x" "ob_now s \<le> x" "pu_attempts p < 5"
  shows "check_otp P p c s = (Inr (), s)"
  using assms by (simp add: check_otp_def svc_simps)

lemma fresh_user_notin: "fresh_id user_id (users w) \<notin> user_id ` set (users w)"
  by (rule fresh_id_notin)

lemma insert_user_run:
  assumes "walletAddress u \<notin> walletAddress ` set (users (ob_world s))" "email u \<notin> email ` set (users (ob_world s))" "lemonTag u = None"
  shows "insert_user u s = (let u' = u\<lparr>user_id := fresh_id user_id (users (ob_world s)), user_createdAt := ob_now s\<rparr>
    in (Inr u', s\<lparr>ob_world := (ob_world s)\<lparr>users := users (ob_world s) @ [store_user u']\<rparr>\<rparr>))"
proof -
  have "\<not> list_ex (\<lambda>v. walletAddress v = walletAddress u) (users (ob_world s))"
    using assms(1) by (metis (mono_tags, lifting) image_eqI list_ex_iff)
  moreover have "\<not> index_clash (u\<lparr>user_id := i, user_createdAt := t\<rparr>) (users (ob_world s))" for i t
    using assms(2,3) by (auto simp: index_clash_def list_ex_iff) (metis image_eqI)
  ultimately show ?thesis by (simp add: insert_user_def Let_def ob_now_def)
qed

text \<open>Registration of a wallet that has no user yet.\<close>

lemma create_user_run:
  assumes "ob_user (pu_wallet p) s = None" "Some e \<notin> email ` set (users (ob_world s))"
  shows "\<exists>u s'. create_user p e work pf s = (Inr (), s') \<and> users (ob_world s') = users (ob_world s) @ [store_user u] \<and>
    walletAddress u = pu_wallet p \<and> email u = Some e \<and> lemonTag u = None \<and> workType u = Some work \<and> user_id u = fresh_id user_id (users (ob_world s)) \<and>
    pending_users s' = filter (\<lambda>q. pu_id q \<noteq> pu_id p) (pending_users s)"
proof -
  obtain early t where r: "create_user p e work pf s =
      sbind (ob_transaction (sbind (insert_user (registered p e work pf early t)) (\<lambda>u.
        sbind (delete_pending (pu_id p)) (\<lambda>_. sret u)))) (\<lambda>u.
        scatch (linkAnalyticsForNewUser (user_id u) (walletAddress u)) (\<lambda>_. sret ())) s"
    by (simp add: create_user_def svc_simps Let_def)
  have w: "pu_wallet p \<notin> walletAddress ` set (users (ob_world s))"
    using assms(1) by (auto simp: ob_user_def user_by_wallet_def find_none)
  define u where "u = (registered p e work pf early t)\<lparr>user_id := fresh_id user_id (users (ob_world s)), user_createdAt := ob_now s\<rparr>"
  define v where "v = s\<lparr>ob_world := (ob_world s)\<lparr>users := users (ob_world s) @ [store_user u]\<rparr>,
    pending_users := filter (\<lambda>q. pu_id q \<noteq> pu_id p) (pending_users s)\<rparr>"
  have "insert_user (registered p e work pf early t) s =
      (Inr u, s\<lparr>ob_world := (ob_world s)\<lparr>users := users (ob_world s) @ [store_user u]\<rparr>\<rparr>)"
    using insert_user_run [of "registered p e work pf early t" s] w assms(2) by (simp add: registered_def new_user_def u_def Let_def)
  then have t: "ob_transaction (sbind (insert_user (registered p e work pf early t)) (\<lambda>u.
        sbind (delete_pending (pu_id p)) (\<lambda>_. sret u))) s = (Inr u, v)"
    by (simp add: ob_transaction_def sbind_def delete_pending_def svc_simps v_def)
  obtain x s' where l: "linkAnalyticsForNewUser (user_id u) (walletAddress u) v = (x, s')" by fastforce
  then have s': "users (ob_world s') = users (ob_world v)" "pending_users s' = pending_users v"
    by (auto simp: linkAnalyticsForNewUser_def svc_simps split: sum.splits)
  have "create_user p e work pf s = (Inr (), s')"
    unfolding r sbind_def t using l by (cases x) (auto simp: scatch_def svc_simps)
  then show ?thesis using s' by (intro exI [of _ u] exI [of _ s']) (simp add: v_def u_def registered_def new_user_def)
qed

text \<open>The cache of ranks holds at most 500 entries.\<close>

lemma prune_ranks_bound: "length (prune_ranks t c) \<le> 500"
  by (simp add: prune_ranks_def Let_def)

lemma rank_cache_bound: "length c \<le> 500 \<Longrightarrow> length (snd (cached_rank user pf s c)) \<le> 500"
  by (auto simp: cached_rank_def Let_def prune_ranks_bound split: option.split)

end
