(* ===== verification/Registration.thy ===== *)
theory Registration
  imports Onboarding
begin

text \<open>
  What registration guarantees (\<open>Onboarding\<close> holds the handlers): accounts stay unique, an
  account is created by a verified code only, and three ways in which an address reaches an
  account without a code that was sent to it. The relations that handlers keep are instances
  of \<open>world_frame\<close>, the runs of the service an instance of \<open>frame_system\<close>.
\<close>

lemma find_snoc: "find Q xs = None \<Longrightarrow> find Q (xs @ [x]) = (if Q x then Some x else None)"
  by (induction xs) (auto split: if_splits)

text \<open>An unverified user whose code is good at a time.\<close>

definition live_code :: "LinkPorts \<Rightarrow> NotVerifiedUser \<Rightarrow> string \<Rightarrow> int \<Rightarrow> bool" where
  "live_code P p code t \<longleftrightarrow> pu_otpCode p = Some (hashOtp P code) \<and> hashOtp P code \<noteq> [] \<and> pu_attempts p < 5 \<and>
     (\<exists>x. pu_otpExpiresAt p = Some x \<and> t \<le> x)"

lemma check_otp_Inr: "check_otp P p c s = (Inr (), s') \<longleftrightarrow> live_code P p c (ob_now s) \<and> s' = s"
  by (auto simp: check_otp_def live_code_def svc_simps falsy_str_def sbind_def not_less
      split: option.splits if_splits prod.splits sum.splits)

text \<open>
  A code proves the wrong address. A wallet that was sent a code for one address and
  asks, within a minute, for a code for another one is told to wait, and no mail is sent; but
  the new address has been stored and the old code is still good, so entering it registers
  the user with the new address.
\<close>

theorem otp_email_swap:
  assumes "normalizeWallet addr = Inr w" and "ob_user w s = None" and "pending_of w s = Some p"
    and "distinct (map pu_id (pending_users s))" and "live_code P p (js_trim code) (ob_now s)"
    and "js_trim code \<noteq> []" and "js_trim work \<noteq> []" and "pu_lastOtpSentAt p = Some l" and "ob_now s - l < 60000"
    and "to_lower (js_trim other) = e" and "to_lower (js_trim e) = e" and "e \<noteq> []" and "Some e \<notin> email ` set (users (ob_world s))"
  shows "\<exists>s1 v s2. verifyEmail P mailer addr other pf s = (Inl (BadRequest ''Espera unos segundos antes de pedir otro codigo''), s1) \<and>
    chain (ob_world s1) = chain (ob_world s) \<and>
    verifyOtp P addr (Some code) (Some work) pf s1 = (Inr v, s2) \<and> sv_userId v \<noteq> None \<and> sv_email v = Some e"
proof -
  define q where "q = p\<lparr>pu_email := Some e, pu_platform := or_platform (pu_platform p) (normalizePlatform pf)\<rparr>"
  define s1 where "s1 = s\<lparr>pending_users := put_row pu_id q (pending_users s)\<rparr>"
  have v: "verifyEmail P mailer addr other pf s = (Inl (BadRequest ''Espera unos segundos antes de pedir otro codigo''), s1)"
    using verifyEmail_throttled [OF assms(1) assms(10,12) assms(2,13,3,8,9)] by (simp add: s1_def q_def)
  have q: "pending_of w s1 = Some q" unfolding s1_def by (rule pending_found [OF assms(4,3)]) (simp_all add: q_def)
  have pw: "pu_wallet q = w" using q find_cond by (fastforce simp: pending_of_def)
  have c: "check_otp P q (js_trim code) s1 = (Inr (), s1)"
    using assms(5) by (simp add: check_otp_Inr live_code_def q_def s1_def ob_now_def)
  have u: "ob_user w s1 = None" "Some e \<notin> email ` set (users (ob_world s1))"
    using assms(2,13) by (simp_all add: s1_def ob_user_def)
  define plat where "plat = orelse (normalizePlatform (pu_platform q)) (normalizePlatform pf)"
  obtain a s2 where r: "create_user q e (js_trim work) plat s1 = (Inr (), s2)"
    and s2: "users (ob_world s2) = users (ob_world s1) @ [store_user a]" "walletAddress a = w" "email a = Some e"
    using create_user_run [of q s1 e "js_trim work" plat] u pw by auto
  have ob: "ob_user w s2 = Some (store_user a)"
    using u(1) s2(1,2) by (simp add: ob_user_def user_by_wallet_def find_snoc store_user_def)
  have "verifyOtp P addr (Some code) (Some work) pf s1 = getStepByWallet w s2"
    using assms(1,6,7,11,12) q c u r free_no_user [OF u(2)]
    by (simp add: verifyOtp_def svc_simps Let_def sbind_def slift_def free_run plat_def) (simp add: q_def)
  moreover have "getStepByWallet w s2 = (Inr (user_step (store_user a) s2), s2)"
    using ob normalizeWallet_fixed [OF assms(1)] by (simp add: getStep_run)
  moreover have "sv_email (user_step (store_user a) s2) = Some e" "sv_userId (user_step (store_user a) s2) \<noteq> None"
    using s2(3) by (simp_all add: user_step_def Let_def unknown_step_def store_user_def)
  ultimately show ?thesis using v by (auto simp: s1_def)
qed

section \<open>Accounts\<close>

text \<open>Two accounts that share an e-mail address or a Lemon tag.\<close>

definition clash :: "User \<Rightarrow> User \<Rightarrow> bool" where
  "clash u v \<longleftrightarrow> user_id v \<noteq> user_id u \<and>
     (email u \<noteq> None \<and> email v = email u \<or> lemonTag u \<noteq> None \<and> lemonTag v = lemonTag u)"

lemma index_clash_iff: "index_clash u rows \<longleftrightarrow> (\<exists>v \<in> set rows. clash u v)"
  by (simp add: index_clash_def clash_def list_ex_iff)

lemma clash_sym: "clash u v \<longleftrightarrow> clash v u"
  by (auto simp: clash_def)

lemma clash_store [simp]: "clash (store_user u) v = clash u v" "clash u (store_user v) = clash u v"
  by (simp_all add: clash_def store_user_def)

definition wf_accounts :: "User list \<Rightarrow> bool" where
  "wf_accounts rows \<longleftrightarrow> distinct (map user_id rows) \<and> distinct (map walletAddress rows) \<and>
     (\<forall>u \<in> set rows. \<forall>v \<in> set rows. \<not> clash u v)"

text \<open>The accounts stay well formed, and no account is added, dropped or given another wallet.\<close>

definition account_keys :: "User list \<Rightarrow> (nat \<times> string) list" where
  "account_keys rows = map (\<lambda>u. (user_id u, walletAddress u)) rows"

definition accounts_kept :: "'c onboard \<Rightarrow> 'c onboard \<Rightarrow> bool" where
  "accounts_kept s t \<longleftrightarrow> (wf_accounts (users (ob_world s)) \<longrightarrow> wf_accounts (users (ob_world t))) \<and>
     account_keys (users (ob_world t)) = account_keys (users (ob_world s))"

interpretation acc: world_frame accounts_kept
  by unfold_locales (auto simp: accounts_kept_def)

text \<open>Handlers that leave the table of users as it is.\<close>

definition same_users :: "'c onboard \<Rightarrow> 'c onboard \<Rightarrow> bool" where
  "same_users s t \<longleftrightarrow> users (ob_world t) = users (ob_world s)"

interpretation usr: world_frame same_users
  by unfold_locales (auto simp: same_users_def)

lemma usr_keeps: "usr.keeps m \<longleftrightarrow> (\<forall>s. users (ob_world (snd (m s))) = users (ob_world s))"
  by (simp add: usr.keeps_def same_users_def)

lemma acc_usr: "usr.keeps m \<Longrightarrow> acc.keeps m"
  by (simp add: acc.keeps_def usr_keeps accounts_kept_def)

lemma usr_frames: "usr.keeps (save_pending p)" "usr.keeps (delete_pending i)" "usr.keeps (getStepByWallet w)"
    "usr.keeps (ensureEmailIsFreeForWallet e w)" "usr.keeps (on_world (chain_write c))" "usr.keeps (check_otp P p code)"
    "usr.keeps (linkAnalyticsForNewUser i w)" "usr.keeps (on_world (findUserOrThrow msg a))"
proof -
  show sp: "usr.keeps (save_pending p)" for p by (simp add: usr_keeps save_pending_def Let_def)
  show "usr.keeps (delete_pending i)" by (simp add: usr_keeps delete_pending_def svc_simps)
  show "usr.keeps (getStepByWallet w)" unfolding usr_keeps by (metis prod.collapse step_frame)
  show "usr.keeps (ensureEmailIsFreeForWallet e w)" by (simp add: usr_keeps free_run)
  show "usr.keeps (on_world (chain_write c))" by (simp add: usr_keeps on_world_def chain_write_def split: prod.split)
  show "usr.keeps (check_otp P p code)" unfolding check_otp_def by (auto intro!: usr.keeps_bind usr.keeps_if sp)
  show "usr.keeps (linkAnalyticsForNewUser i w)"
    by (simp add: usr_keeps linkAnalyticsForNewUser_def svc_simps split: sum.split)
  show "usr.keeps (on_world (findUserOrThrow msg a))"
    by (simp add: usr_keeps on_world_def findUserOrThrow_def svc_simps split: sum.split option.split)
qed

lemma usr_issue: "usr.keeps (issueOtpForPending P mailer p)"
proof -
  have "usr.keeps (\<lambda>s. (Inr (g (ob_draws s)), s\<lparr>ob_draws := ob_draws s + 1\<rparr>))" for g :: "nat \<Rightarrow> string"
    by (simp add: usr_keeps)
  then show ?thesis unfolding issueOtpForPending_def
    by (intro usr.keeps_if usr.keeps_ret usr.keeps_bind usr_frames)
      (auto intro!: usr.keeps_catch usr_frames split: option.split)
qed

lemmas acc_frames = usr_frames [THEN acc_usr] usr_issue [THEN acc_usr]

lemma store_user_keys [simp]: "user_id (store_user u) = user_id u" "walletAddress (store_user u) = walletAddress u"
    "email (store_user u) = email u" "lemonTag (store_user u) = lemonTag u"
  by (simp_all add: store_user_def)

lemma wf_accounts_map:
  assumes wf: "wf_accounts rows" and f: "\<And>u. user_id (f u) = user_id u \<and> walletAddress (f u) = walletAddress u"
    and c: "\<forall>u \<in> set rows. user_id u = i \<longrightarrow> \<not> index_clash (f u) rows"
  shows "wf_accounts (map (\<lambda>u. if user_id u = i then store_user (f u) else u) rows)"
proof -
  define g where "g = (\<lambda>u. if user_id u = i then store_user (f u) else u)"
  have g: "user_id (g u) = user_id u" "walletAddress (g u) = walletAddress u" for u using f by (simp_all add: g_def)
  have other: "\<not> clash (f u) v" if "u \<in> set rows" "user_id u = i" "v \<in> set rows" for u v
    using c that by (auto simp: index_clash_iff)
  have "\<not> clash (g u) (g v)" if "u \<in> set rows" "v \<in> set rows" for u v
  proof (cases "user_id u = user_id v")
    case True
    then show ?thesis using g by (simp add: clash_def)
  next
    case False
    moreover have "\<not> clash u v" using wf that by (simp add: wf_accounts_def)
    ultimately show ?thesis using that other [of u v] other [of v u] by (auto simp: g_def clash_sym)
  qed
  then show ?thesis using wf unfolding wf_accounts_def g_def [symmetric] by (auto simp: o_def g)
qed

lemma acc_update:
  assumes "\<And>u. user_id (f u) = user_id u \<and> walletAddress (f u) = walletAddress u"
  shows "acc.keeps (update_profile i f :: ('c, unit) onb_svc)"
proof -
  have "accounts_kept s (snd (update_profile i f s))" for s :: "'c onboard"
  proof (cases "list_ex (\<lambda>u. user_id u = i \<and> index_clash (f u) (users (ob_world s))) (users (ob_world s))")
    case True
    then show ?thesis by (simp add: update_profile_def acc.R_refl)
  next
    case False
    then have "\<forall>u \<in> set (users (ob_world s)). user_id u = i \<longrightarrow> \<not> index_clash (f u) (users (ob_world s))"
      by (auto simp: list_ex_iff)
    moreover have "account_keys (map (\<lambda>u. if user_id u = i then store_user (f u) else u) rows) = account_keys rows" for rows
      using assms unfolding account_keys_def map_map o_def by (intro map_cong) simp_all
    ultimately show ?thesis
      using False wf_accounts_map [of "users (ob_world s)" f i, OF _ assms]
      by (simp add: update_profile_def accounts_kept_def on_world_users)
  qed
  then show ?thesis by (simp add: acc.keeps_def)
qed

lemma acc_transaction: "acc.keeps m \<Longrightarrow> acc.keeps (ob_transaction m)"
  by (auto simp: acc.keeps_def accounts_kept_def ob_transaction_def split: prod.splits sum.splits) (metis snd_conv)+

lemmas acc_rules = acc.keeps_bind acc.keeps_if acc.keeps_catch acc.keeps_ret acc_frames acc_update acc_transaction

lemma case_option_const: "(case x of None \<Rightarrow> a | Some _ \<Rightarrow> a) = a"
  by (cases x) simp_all

lemma with_claims_keys: "user_id (with_claims payload t u) = user_id u \<and> walletAddress (with_claims payload t u) = walletAddress u"
  by (simp add: with_claims_def Let_def option.case_distrib [of user_id] option.case_distrib [of walletAddress]
      if_distrib [of user_id] if_distrib [of walletAddress] case_option_const cong: option.case_cong if_cong)

lemma acc_handlers:
  "acc.keeps (acceptTerms addr pf)" "acc.keeps (verifyEmail P mailer addr address pf)"
  "acc.keeps (joinWaitlist P mailer addr address pf)" "acc.keeps (resendOtp P mailer addr address')"
  "acc.keeps (upsertLemonProfile payload)" "acc.keeps (updateWorkType addr work)"
  "acc.keeps (otp_without_pending w work pf)" "acc.keeps (sync_existing user p e work pf)"
proof -
  show "acc.keeps (acceptTerms addr pf)"
    unfolding acceptTerms_def Let_def by (intro acc_rules) (auto intro!: acc_rules split: option.split)
  show "acc.keeps (verifyEmail P mailer addr address pf)"
    unfolding verifyEmail_def Let_def by (intro acc_rules) (auto intro!: acc_rules split: option.split)
  show "acc.keeps (joinWaitlist P mailer addr address pf)"
    unfolding joinWaitlist_def Let_def by (intro acc_rules) (auto intro!: acc_rules split: option.split)
  show "acc.keeps (resendOtp P mailer addr address')"
    unfolding resendOtp_def Let_def by (intro acc_rules) (auto intro!: acc_rules split: option.split)
  show "acc.keeps (upsertLemonProfile payload)"
    unfolding upsertLemonProfile_def by (intro acc_rules) (auto intro!: acc_rules with_claims_keys split: option.split)
  show "acc.keeps (updateWorkType addr work)"
    unfolding updateWorkType_def by (intro acc_rules) auto
  show "acc.keeps (otp_without_pending w work pf)"
    unfolding otp_without_pending_def by (intro acc_rules) (auto intro!: acc_rules split: option.split)
  show "acc.keeps (sync_existing user p e work pf)"
    unfolding sync_existing_def by (intro acc_rules) auto
qed

section \<open>Creation of accounts\<close>

text \<open>
  One account is added, for a wallet that had none, on a good code of its pending row; it
  carries the pending address, which no other account has, and the pending row is gone.
\<close>

definition registers :: "LinkPorts \<Rightarrow> NotVerifiedUser \<Rightarrow> string \<Rightarrow> 'c onboard \<Rightarrow> 'c onboard \<Rightarrow> bool" where
  "registers P p code s t \<longleftrightarrow> pending_of (pu_wallet p) s = Some p \<and> live_code P p code (ob_now s) \<and>
     (\<exists>u. users (ob_world t) = users (ob_world s) @ [u] \<and> user_id u \<notin> user_id ` set (users (ob_world s)) \<and>
        walletAddress u = pu_wallet p \<and> walletAddress u \<notin> walletAddress ` set (users (ob_world s)) \<and>
        email u = map_option (\<lambda>e. to_lower (js_trim e)) (pu_email p) \<and> lemonTag u = None \<and> email u \<notin> email ` set (users (ob_world s))) \<and>
     pending_users t = filter (\<lambda>q. pu_id q \<noteq> pu_id p) (pending_users s)"

lemma registers_wf: "registers P p code s t \<Longrightarrow> wf_accounts (users (ob_world s)) \<Longrightarrow> wf_accounts (users (ob_world t))"
  unfolding registers_def wf_accounts_def by (elim conjE exE) (auto simp: image_iff clash_def)

lemma email_free_of_account:
  assumes "ensureEmailIsFreeForWallet e w s = (Inr (), s')" "ob_user w s = None"
  shows "e \<noteq> [] \<and> s' = s \<and> Some e \<notin> email ` set (users (ob_world s))"
proof -
  have e: "e \<noteq> []" and s: "s' = s"
    and f: "\<forall>u. find (\<lambda>u. email u = Some e) (users (ob_world s)) = Some u \<longrightarrow> walletAddress u = w"
    using assms(1) by (simp_all add: free_run split: if_splits)
  have "find (\<lambda>u. email u = Some e) (users (ob_world s)) = None"
  proof (cases "find (\<lambda>u. email u = Some e) (users (ob_world s))")
    case (Some u)
    then have "u \<in> set (users (ob_world s))" "walletAddress u = w" using f find_cond by (fastforce, simp)
    then show ?thesis using assms(2) by (simp add: ob_user_def user_by_wallet_def find_none)
  qed
  then show ?thesis using e s by (auto simp: find_none)
qed

lemma create_registers:
  assumes "pending_of (pu_wallet p) s = Some p" "live_code P p code (ob_now s)" "ob_user (pu_wallet p) s = None"
    "pu_email p = Some a" "e = to_lower (js_trim a)" "Some e \<notin> email ` set (users (ob_world s))"
  shows "\<exists>t. create_user p e work pf s = (Inr (), t) \<and> registers P p code s t"
proof -
  obtain u t where t: "create_user p e work pf s = (Inr (), t)" "users (ob_world t) = users (ob_world s) @ [store_user u]"
      "walletAddress u = pu_wallet p" "email u = Some e" "lemonTag u = None" "user_id u = fresh_id user_id (users (ob_world s))"
      "pending_users t = filter (\<lambda>q. pu_id q \<noteq> pu_id p) (pending_users s)"
    using create_user_run [OF assms(3,6), of work pf] by auto
  have "pu_wallet p \<notin> walletAddress ` set (users (ob_world s))"
    using assms(3) by (auto simp: ob_user_def user_by_wallet_def find_none)
  then have "registers P p code s t"
    unfolding registers_def using t assms fresh_user_notin [of "ob_world s"] by simp
  then show ?thesis using t(1) by blast
qed

text \<open>Up to the point where an account is missing, a verification changes no account.\<close>

lemma kept_until_free:
  assumes "\<And>user. acc.keeps (tail (Some user))"
    and "sbind (check_otp P p c) (\<lambda>_. sbind (ensureEmailIsFreeForWallet e w) (\<lambda>_. sbind (sget (ob_user w)) tail)) s = (r, t)"
    and "\<not> (check_otp P p c s = (Inr (), s) \<and> ensureEmailIsFreeForWallet e w s = (Inr (), s) \<and> ob_user w s = None)"
  shows "accounts_kept s t"
proof (cases "check_otp P p c s")
  case (Pair x s1)
  show ?thesis
  proof (cases x)
    case (Inl e)
    then show ?thesis using assms(2) Pair acc.keeps_run [OF acc_frames(6)] by (simp add: sbind_def)
  next
    case (Inr a)
    then have s1: "check_otp P p c s = (Inr (), s)" using Pair check_otp_Inr [of P p c s s1] by simp
    have "snd (ensureEmailIsFreeForWallet e w s) = s" by (simp add: free_run)
    then obtain y where "ensureEmailIsFreeForWallet e w s = (y, s)" by (metis prod.collapse)
    then show ?thesis
      using assms s1 acc.R_refl acc.keeps_run [OF assms(1)]
      by (cases y; cases "ob_user w s") (auto simp: sbind_def sget_def)
  qed
qed

lemma verifyOtp_effect:
  fixes s :: "'c onboard"
  assumes "verifyOtp P addr code work pf s = (r, t)"
  shows "accounts_kept s t \<or> (\<exists>p. registers P p (js_trim (nullish code [])) s t)"
proof (cases "normalizeWallet addr")
  case (Inl e)
  then show ?thesis using assms by (simp add: verifyOtp_def svc_simps acc.R_refl)
next
  case (Inr w)
  let ?c = "js_trim (nullish code [])" and ?wt = "js_trim (nullish work [])" and ?rpf = "normalizePlatform pf"
  show ?thesis
  proof (cases "?c = [] \<or> ?wt = [] \<or> (case pending_of w s of None \<Rightarrow> True | Some p \<Rightarrow> falsy_str (pu_email p))")
    case True
    then have "(r, t) = (Inl (BadRequest ''Code is required''), s) \<or> (r, t) = (Inl (BadRequest ''workType is required''), s) \<or>
        otp_without_pending w ?wt ?rpf s = (r, t)"
      using assms Inr by (auto simp: verifyOtp_def svc_simps Let_def split: if_splits option.splits)
    then show ?thesis using acc.keeps_run [OF acc_handlers(7)] acc.R_refl by auto
  next
    case False
    then obtain p a where p: "pending_of w s = Some p" "pu_email p = Some a" and ne: "?c \<noteq> []" "?wt \<noteq> []"
      by (cases "pending_of w s"; cases "pu_email (the (pending_of w s))") auto
    have pw: "pu_wallet p = w" using p(1) find_cond by (fastforce simp: pending_of_def)
    define e where "e = to_lower (js_trim (the (pu_email p)))"
    define q where "q = orelse (normalizePlatform (pu_platform p)) ?rpf"
    define tail :: "User option \<Rightarrow> ('c, StepView) onb_svc" where "tail = (\<lambda>found. sbind (case found of Some user \<Rightarrow> sync_existing user p e ?wt q | None \<Rightarrow> create_user p e ?wt q)
       (\<lambda>_. getStepByWallet w))"
    have run: "sbind (check_otp P p ?c) (\<lambda>_. sbind (ensureEmailIsFreeForWallet e w) (\<lambda>_. sbind (sget (ob_user w)) tail)) s = (r, t)"
      using assms Inr p ne False
      by (simp add: verifyOtp_def sbind_get slift_def sbind_def [of "slift _"] Let_def tail_def e_def q_def cong: option.case_cong)
    show ?thesis
    proof (cases "check_otp P p ?c s = (Inr (), s) \<and> ensureEmailIsFreeForWallet e w s = (Inr (), s) \<and> ob_user w s = None")
      case True
      have f: "Some e \<notin> email ` set (users (ob_world s))" using True email_free_of_account by blast
      have live: "live_code P p ?c (ob_now s)" using True check_otp_Inr by blast
      obtain t' where c: "create_user p e ?wt q s = (Inr (), t')" "registers P p ?c s t'"
        using create_registers [of p s P ?c a e ?wt q] p live True f pw by (auto simp: e_def)
      have "getStepByWallet w t' = (r, t)"
        using run True c(1) by (simp add: sbind_def sget_def tail_def)
      then show ?thesis using step_frame c(2) by metis
    next
      case False
      have "acc.keeps (tail (Some user))" for user
        unfolding tail_def by (auto intro!: acc_rules acc_handlers)
      then have "accounts_kept s t" using run False by (rule kept_until_free)
      then show ?thesis ..
    qed
  qed
qed

text \<open>
  A step of the registration service: any handler with any arguments, or a change of the
  world by the rest of the system, which may move the clock and write loans, the chain and
  the columns of users other than their keys.
\<close>

definition row_keys :: "User \<Rightarrow> nat \<times> string \<times> string option \<times> string option" where
  "row_keys u = (user_id u, walletAddress u, email u, lemonTag u)"

inductive onb_step :: "LinkPorts \<Rightarrow> 'c mailer option \<Rightarrow> 'c onboard \<Rightarrow> 'c onboard \<Rightarrow> bool"
  for P :: LinkPorts and mailer :: "'c mailer option" where
  terms: "acceptTerms addr pf s = (r, t) \<Longrightarrow> onb_step P mailer s t"
| mail: "verifyEmail P mailer addr address pf s = (r, t) \<Longrightarrow> onb_step P mailer s t"
| waitlist: "joinWaitlist P mailer addr address pf s = (r, t) \<Longrightarrow> onb_step P mailer s t"
| otp: "verifyOtp P addr code work pf s = (r, t) \<Longrightarrow> onb_step P mailer s t"
| resend: "resendOtp P mailer addr address' s = (q, t) \<Longrightarrow> onb_step P mailer s t"
| lemon: "upsertLemonProfile payload s = (b, t) \<Longrightarrow> onb_step P mailer s t"
| work: "updateWorkType addr wt s = (v, t) \<Longrightarrow> onb_step P mailer s t"
| rest: "map row_keys (users w) = map row_keys (users (ob_world s)) \<Longrightarrow> onb_step P mailer s (s\<lparr>ob_world := w\<rparr>)"

lemma wf_accounts_keys:
  assumes "map row_keys rows = map row_keys rows'"
  shows "wf_accounts rows = wf_accounts rows' \<and> account_keys rows = account_keys rows'"
proof -
  have key: "map (\<lambda>u. h (row_keys u)) rows = map (\<lambda>u. h (row_keys u)) rows'" for h :: "nat \<times> string \<times> string option \<times> string option \<Rightarrow> 'z"
    using arg_cong [OF assms, of "map h"] by (simp add: o_def)
  define h :: "nat \<times> string \<times> string option \<times> string option \<Rightarrow> nat \<times> string \<times> string option \<times> string option \<Rightarrow> bool" where
    "h = (\<lambda>(i, _, e, g) (i', _, e', g'). i' \<noteq> i \<and> (e \<noteq> None \<and> e' = e \<or> g \<noteq> None \<and> g' = g))"
  have h: "clash u v = h (row_keys u) (row_keys v)" for u v by (simp add: row_keys_def clash_def h_def)
  have c: "(\<forall>u \<in> set l. \<forall>v \<in> set l. \<not> clash u v) \<longleftrightarrow> (\<forall>a \<in> set (map row_keys l). \<forall>b \<in> set (map row_keys l). \<not> h a b)" for l
    by (simp add: h)
  have "(\<forall>u \<in> set rows. \<forall>v \<in> set rows. \<not> clash u v) \<longleftrightarrow> (\<forall>u \<in> set rows'. \<forall>v \<in> set rows'. \<not> clash u v)"
    unfolding c assms ..
  then show ?thesis
    using key [of fst] key [of "fst \<circ> snd"] key [of "\<lambda>(i, w, _). (i, w)"]
    by (simp add: wf_accounts_def account_keys_def row_keys_def)
qed

lemma onb_step_effect: "onb_step P mailer s t \<Longrightarrow> accounts_kept s t \<or> (\<exists>p code. registers P p code s t)"
proof (induction rule: onb_step.induct)
  case (otp addr code work pf s r t)
  then show ?case using verifyOtp_effect by blast
next
  case (rest w s)
  then show ?case using wf_accounts_keys [OF rest] by (simp add: accounts_kept_def)
qed (use acc.keeps_run acc_handlers in \<open>meson\<close>)+

lemma registers_keys: "registers P p code s t \<Longrightarrow> \<exists>k. account_keys (users (ob_world t)) = account_keys (users (ob_world s)) @ [k]"
  by (auto simp: registers_def account_keys_def)

definition accounts_grow :: "'c onboard \<Rightarrow> 'c onboard \<Rightarrow> bool" where
  "accounts_grow s t \<longleftrightarrow> (wf_accounts (users (ob_world s)) \<longrightarrow> wf_accounts (users (ob_world t))) \<and>
     (\<exists>more. account_keys (users (ob_world t)) = account_keys (users (ob_world s)) @ more)"

interpretation accounts: frame_system "onb_step P mailer" accounts_grow for P mailer
proof
  show "accounts_grow s s" for s by (simp add: accounts_grow_def)
next
  fix s t u assume a: "accounts_grow s t" "onb_step P mailer t u"
  then show "accounts_grow s u" using onb_step_effect [OF a(2)]
    by (auto simp: accounts_grow_def accounts_kept_def dest: registers_keys intro: registers_wf)
qed

text \<open>
  C20. Accounts are created by a verified code only. A step of the service leaves the list of
  accounts, their ids and wallets, as it is, unless the caller entered the good code of a
  pending registration: then one account is added, for the wallet of that registration, which
  had none, with its address, which no account had, and the registration is removed.
\<close>

theorem registration_sound:
  assumes "onb_step P mailer s t" and "account_keys (users (ob_world t)) \<noteq> account_keys (users (ob_world s))"
  shows "\<exists>p code. registers P p code s t"
  using onb_step_effect [OF assms(1)] assms(2) by (auto simp: accounts_kept_def)

text \<open>Over runs the indexes stay unique and the list of accounts only grows.\<close>

lemma accounts_run:
  assumes "(onb_step P mailer)\<^sup>*\<^sup>* s t" and "wf_accounts (users (ob_world s))"
  shows "wf_accounts (users (ob_world t)) \<and>
    (\<exists>more. account_keys (users (ob_world t)) = account_keys (users (ob_world s)) @ more)"
  using accounts.frame_run [OF assms(1)] assms(2) by (simp add: accounts_grow_def)

lemma find_map_keep: "(\<And>x. Q (g x) = Q x) \<Longrightarrow> find Q (map g xs) = map_option g (find Q xs)"
  by (induction xs) auto

text \<open>
  The address of an account is not a verified one. A verification request for a wallet
  that has an account stores the new address in the account at once: whatever the request
  then returns, with no code entered.
\<close>

theorem unverified_email:
  fixes s :: "'c onboard" and mailer :: "'c mailer option"
  assumes "normalizeWallet addr = Inr w" and "ob_user w s = Some u" and "wf_accounts (users (ob_world s))"
    and "to_lower (js_trim address) = e" and "e \<noteq> []" and "Some e \<notin> email ` set (users (ob_world s))"
  shows "\<exists>r t v. verifyEmail P mailer addr address pf s = (r, t) \<and> ob_user w t = Some v \<and> user_id v = user_id u \<and> email v = Some e"
proof -
  define f :: "User \<Rightarrow> User" where "f = (\<lambda>x. x\<lparr>email := Some e, platform := or_platform (platform u) (normalizePlatform pf)\<rparr>)"
  define s1 where "s1 = s\<lparr>ob_world := (ob_world s)\<lparr>users := map (\<lambda>x. if user_id x = user_id u then store_user (f x) else x) (users (ob_world s))\<rparr>\<rparr>"
  define tail :: "unit \<Rightarrow> ('c, StepView) onb_svc" where "tail = (\<lambda>_. sbind (sget (pending_of w)) (\<lambda>pend. sbind (save_pending (with_email w e (normalizePlatform pf) pend)) (\<lambda>p.
     sbind (issueOtpForPending P mailer p) (\<lambda>_. getStepByWallet w))))"
  have clash: "\<not> index_clash (f x) (users (ob_world s))" if "x \<in> set (users (ob_world s))" for x
  proof -
    have "\<not> clash (f x) v" if v: "v \<in> set (users (ob_world s))" for v
    proof -
      have "\<not> clash x v" "email v \<noteq> Some e" using assms(3,6) \<open>x \<in> _\<close> v by (auto simp: wf_accounts_def image_iff)
      then show ?thesis by (auto simp: clash_def f_def)
    qed
    then show ?thesis by (auto simp: index_clash_iff)
  qed
  have up: "update_profile (user_id u) f s = (Inr (), s1)"
    using clash by (auto simp: update_profile_def on_world_users list_ex_iff s1_def)
  have "verifyEmail P mailer addr address pf s = sbind (update_profile (user_id u) f) tail s"
    using assms free_no_user [OF assms(6)]
    by (simp add: verifyEmail_def Let_def sbind_lift sbind_def [of "ensureEmailIsFreeForWallet _ _"] free_run sbind_get tail_def f_def)
  then have "verifyEmail P mailer addr address pf s = tail () s1" by (simp add: sbind_def up)
  moreover have "usr.keeps (tail ())" unfolding tail_def by (intro usr.keeps_bind usr.keeps_ret usr_frames usr_issue)
  ultimately obtain r t where t: "verifyEmail P mailer addr address pf s = (r, t)" "same_users s1 t"
    by (metis prod.collapse usr.keeps_run)
  have "ob_user w t = ob_user w s1" using t(2) by (simp add: same_users_def ob_user_def user_by_wallet_def)
  also have "\<dots> = Some (store_user (f u))"
    using assms(2) by (simp add: ob_user_def user_by_wallet_def s1_def find_map_keep f_def)
  finally show ?thesis using t(1) by (simp add: f_def)
qed

lemma update_profile_run:
  assumes "\<not> list_ex (\<lambda>u. user_id u = i \<and> index_clash (f u) (users (ob_world s))) (users (ob_world s))"
  shows "update_profile i f s = (Inr (), s\<lparr>ob_world := (ob_world s)\<lparr>users :=
     map (\<lambda>u. if user_id u = i then store_user (f u) else u) (users (ob_world s))\<rparr>\<rparr>)"
  using assms by (simp add: update_profile_def on_world_users)

lemma two_members: "x \<in> set xs \<Longrightarrow> y \<in> set xs \<Longrightarrow> x \<noteq> y \<Longrightarrow> length xs \<noteq> 1"
  by (auto simp: length_Suc_conv)

lemma trim_empty: "js_trim [] = []"
  by (simp add: js_trim_def)

lemma with_claims_email:
  assumes "lp_email payload = Some a" "js_trim a \<noteq> []" "lp_lemonTag payload = None"
  shows "lemonEmail (with_claims payload t u) = Some (to_lower (js_trim a))"
    and "\<not> falsy_str (email u) \<Longrightarrow> email (with_claims payload t u) = map_option to_lower (email u)"
    and "lemonTag (with_claims payload t u) = lemonTag u"
  using assms trim_empty by (auto simp: with_claims_def Let_def fill_def option.case_distrib [of lemonEmail] option.case_distrib [of email]
      option.case_distrib [of lemonTag] case_option_const if_distrib [of lemonEmail] if_distrib [of email] if_distrib [of lemonTag]
      cong: option.case_cong if_cong)

text \<open>
  A wallet can keep another user from linking. The Lemon profile of a request carries an
  address that nobody checked; when it is the address of another account it is stored beside
  it, and from then on the start of a wallet link for that address finds two users and sends
  no code.
\<close>

theorem lemon_email_blocks_link:
  assumes wf: "wf_accounts (users (ob_world s))" and lower: "\<forall>x \<in> set (users (ob_world s)). map_option to_lower (email x) = email x"
    and v: "normalizeWallet (lp_walletAddress payload) = Inr w" "ob_user w s = Some v" "\<not> falsy_str (email v)"
    and u: "u \<in> set (users (ob_world s))" "email u = Some e" "user_id u \<noteq> user_id v"
    and p: "lp_email payload = Some a" "to_lower (js_trim a) = e" "lp_lemonTag payload = None"
    and raw: "norm_email raw = e" "EMAIL_PATTERN e"
  shows "\<exists>r t. upsertLemonProfile payload s = (Inr r, t) \<and>
    (\<forall>l. link_users l = users (ob_world t) \<longrightarrow> link_start P raw l = (Inr None, l))"
proof -
  define f where "f = with_claims payload (ob_now s)"
  define g where "g = (\<lambda>x. if user_id x = user_id v then store_user (f x) else x)"
  define t where "t = s\<lparr>ob_world := (ob_world s)\<lparr>users := map g (users (ob_world s))\<rparr>\<rparr>"
  have vin: "v \<in> set (users (ob_world s))" using v(2) find_cond by (fastforce simp: ob_user_def user_by_wallet_def)
  have "js_trim a \<noteq> []" using p(2) raw(2) by (auto simp: EMAIL_PATTERN_def to_lower_def)
  note claims = with_claims_email [OF p(1) this p(3), where t = "ob_now s" and u = v, folded f_def]
  have same: "clash (f v) = clash v" using claims(2) [OF v(3)] claims(3) with_claims_keys lower vin by (auto simp: clash_def f_def fun_eq_iff)
  have "x = v" if "x \<in> set (users (ob_world s))" "user_id x = user_id v" for x
    using wf vin that by (auto simp: wf_accounts_def distinct_map inj_on_def)
  then have "\<not> list_ex (\<lambda>x. user_id x = user_id v \<and> index_clash (f x) (users (ob_world s))) (users (ob_world s))"
    unfolding list_ex_iff index_clash_iff using wf vin same unfolding wf_accounts_def by metis
  from update_profile_run [OF this] have up: "update_profile (user_id v) f s = (Inr (), t)" by (simp add: t_def g_def)
  have run: "upsertLemonProfile payload s = (Inr (profile_updated v payload, lemon_match_score v (f v) payload), t)"
    using v up by (simp add: upsertLemonProfile_def svc_simps sbind_def [of "update_profile _ _"] f_def)
  have "link_start P raw l = (Inr None, l)" if l: "link_users l = users (ob_world t)" for l
  proof -
    let ?ms = "filter (\<lambda>x. email x = Some e \<or> lemonEmail x = Some e) (link_users l)"
    have "g u = u" "lemonEmail (g v) = Some e" using u(3) claims(1) p(2) by (simp_all add: g_def store_user_def)
    moreover have "g u \<in> set (link_users l)" "g v \<in> set (link_users l)" using l u(1) vin by (simp_all add: t_def)
    ultimately have "u \<in> set ?ms" "g v \<in> set ?ms" using u(2) by simp_all
    moreover have "u \<noteq> g v" using u(3) with_claims_keys by (metis f_def g_def store_user_keys(1))
    ultimately have "length ?ms \<noteq> 1" by (rule two_members)
    then show ?thesis using raw by (simp add: link_start_def svc_simps Let_def)
  qed
  with run show ?thesis by blast
qed

section \<open>Examples\<close>

definition pending_row :: NotVerifiedUser where
  "pending_row = (blank_pending example_wallet)\<lparr>pu_id := 1, pu_email := Some ''a@b.c'', pu_otpCode := Some (hashOtp link_ports ''123456''),
     pu_otpExpiresAt := Some 600000, pu_lastOtpSentAt := Some 0\<rparr>"

definition onb_state :: "User list \<Rightarrow> NotVerifiedUser list \<Rightarrow> fake_kyc onboard" where
  "onb_state us ps = \<lparr>ob_world = fake_world\<lparr>users := us\<rparr>, pending_users = ps, device_sessions = [], borrow_attempts = [], ob_draws = 0\<rparr>"

definition other_wallet :: string where
  "other_wallet = ''0x0000000000000000000000000000000000000002''"

definition mail_user :: User where "mail_user = example_user\<lparr>email := Some ''a@b.c''\<rparr>"
definition other_user :: User where
  "other_user = example_user\<lparr>user_id := 2, walletAddress := other_wallet, email := Some ''v@w.x''\<rparr>"

lemma onb_examples:
  "normalizeWallet other_wallet = Inr other_wallet" "to_lower (js_trim ''d@e.f'') = ''d@e.f''" "to_lower (js_trim ''a@b.c'') = ''a@b.c''"
  "js_trim ''123456'' = ''123456''" "js_trim ''w'' = ''w''" "norm_email (Some ''a@b.c'') = ''a@b.c''" "EMAIL_PATTERN ''a@b.c''"
  "live_code link_ports pending_row ''123456'' 0" "to_lower ''v@w.x'' = ''v@w.x''" "to_lower ''a@b.c'' = ''a@b.c''"
proof -
  show "live_code link_ports pending_row ''123456'' 0"
    by (simp add: live_code_def pending_row_def blank_pending_def hashOtp_def link_ports_def text_encode_def hex_of_def)
  show "normalizeWallet other_wallet = Inr other_wallet" unfolding other_wallet_def by code_simp
qed code_simp+

lemma accounts_example: "wf_accounts [mail_user, other_user]" "other_wallet \<noteq> example_wallet"
  by (simp_all add: wf_accounts_def clash_def mail_user_def other_user_def example_user_def example_wallet_def other_wallet_def)

lemma pending_example: "ob_now (onb_state us ps) = 0" "users (ob_world (onb_state us ps)) = us"
    "pending_of example_wallet (onb_state [] [pending_row]) = Some pending_row"
  by (simp_all add: onb_state_def ob_now_def fake_world_def pending_of_def pending_row_def blank_pending_def)

lemma registration_run:
  "\<exists>r t. verifyOtp link_ports example_wallet (Some ''123456'') (Some ''w'') None (onb_state [] [pending_row]) = (r, t) \<and>
     map walletAddress (users (ob_world t)) = [example_wallet]"
proof -
  have "map walletAddress (users (ob_world (snd (verifyOtp link_ports example_wallet (Some ''123456'') (Some ''w'') None
     (onb_state [] [pending_row]))))) = [example_wallet]" by code_simp
  then show ?thesis by (metis prod.collapse)
qed

theorem otp_email_swap_witness:
  "\<exists>s s1 v s2. verifyEmail link_ports None example_wallet ''d@e.f'' None (s :: fake_kyc onboard) =
      (Inl (BadRequest ''Espera unos segundos antes de pedir otro codigo''), s1) \<and>
    verifyOtp link_ports example_wallet (Some ''123456'') (Some ''w'') None s1 = (Inr v, s2) \<and> sv_userId v \<noteq> None \<and> sv_email v = Some ''d@e.f''"
proof -
  have "ob_user example_wallet (onb_state [] [pending_row]) = None" by (simp add: ob_user_def user_by_wallet_def onb_state_def)
  moreover have "distinct (map pu_id (pending_users (onb_state [] [pending_row])))" by (simp add: onb_state_def)
  moreover have "pu_lastOtpSentAt pending_row = Some 0" by (simp add: pending_row_def)
  ultimately show ?thesis
    using otp_email_swap [OF example_wallet_norm, of "onb_state [] [pending_row]" pending_row link_ports "''123456''" "''w''" 0
        "''d@e.f''" "''d@e.f''" None None] onb_examples pending_example
    by (auto simp: ob_now_def)
qed

theorem registration_sound_witness:
  "\<exists>t. onb_step link_ports None (onb_state [] [pending_row]) t \<and> (\<exists>p code. registers link_ports p code (onb_state [] [pending_row]) t)"
proof -
  obtain r t where run: "verifyOtp link_ports example_wallet (Some ''123456'') (Some ''w'') None (onb_state [] [pending_row]) = (r, t)"
    "map walletAddress (users (ob_world t)) = [example_wallet]" using registration_run by (elim exE conjE)
  have "account_keys (users (ob_world t)) \<noteq> account_keys (users (ob_world (onb_state [] [pending_row])))"
    using run(2) pending_example(2) by (auto simp: account_keys_def)
  from registration_sound [OF onb_step.otp [OF run(1)] this] onb_step.otp [OF run(1)] show ?thesis by blast
qed

theorem unverified_email_witness:
  "\<exists>r t v. verifyEmail link_ports None example_wallet ''d@e.f'' None (onb_state [mail_user, other_user] []) = (r, t) \<and>
     ob_user example_wallet t = Some v \<and> user_id v = 1 \<and> email v = Some ''d@e.f''"
proof -
  let ?s = "onb_state [mail_user, other_user] []"
  have u: "ob_user example_wallet ?s = Some mail_user"
    by (simp add: ob_user_def user_by_wallet_def onb_state_def mail_user_def example_user_def)
  have e: "Some ''d@e.f'' \<notin> email ` set (users (ob_world ?s))" by (simp add: pending_example mail_user_def other_user_def)
  show ?thesis
    using unverified_email [OF example_wallet_norm u _ onb_examples(2) _ e, of link_ports None None] accounts_example(1)
    by (simp add: pending_example) (simp add: mail_user_def example_user_def)
qed

theorem lemon_email_blocks_link_witness:
  "\<exists>payload r t. upsertLemonProfile payload (onb_state [mail_user, other_user] []) = (Inr r, t) \<and>
     link_start link_ports (Some ''a@b.c'') (code_link\<lparr>link_users := users (ob_world t)\<rparr>) =
       (Inr None, code_link\<lparr>link_users := users (ob_world t)\<rparr>)"
proof -
  let ?s = "onb_state [mail_user, other_user] []"
  define payload where "payload = \<lparr>lp_walletAddress = other_wallet, lp_firstName = None, lp_lastName = None, lp_email = Some ''a@b.c'',
    lp_lemonTag = None, lp_pep = None, lp_lemonCountry = None\<rparr>"
  have v: "ob_user other_wallet ?s = Some other_user"
    using accounts_example(2) by (simp add: ob_user_def user_by_wallet_def onb_state_def mail_user_def other_user_def example_user_def)
  have "\<forall>x \<in> set (users (ob_world ?s)). map_option to_lower (email x) = email x"
    by (simp add: pending_example mail_user_def other_user_def onb_examples)
  moreover have "wf_accounts (users (ob_world ?s))" by (simp add: pending_example accounts_example)
  moreover have "normalizeWallet (lp_walletAddress payload) = Inr other_wallet" "lp_email payload = Some ''a@b.c''" "lp_lemonTag payload = None"
    by (simp_all add: payload_def onb_examples)
  moreover have "\<not> falsy_str (email other_user)" "mail_user \<in> set (users (ob_world ?s))" "email mail_user = Some ''a@b.c''"
      "user_id mail_user \<noteq> user_id other_user"
    by (simp_all add: pending_example other_user_def mail_user_def example_user_def)
  ultimately obtain r t where t: "upsertLemonProfile payload ?s = (Inr r, t)"
      "\<forall>l. link_users l = users (ob_world t) \<longrightarrow> link_start link_ports (Some ''a@b.c'') l = (Inr None, l)"
    using lemon_email_blocks_link [OF _ _ _ v, of payload mail_user "''a@b.c''" "''a@b.c''" "Some ''a@b.c''" link_ports] onb_examples
    by (metis (no_types, lifting))
  then show ?thesis by (intro exI [of _ payload] exI [of _ r] exI [of _ t] conjI) simp_all
qed

end
