(* ===== verification/Ownership.thy ===== *)
theory Ownership
  imports Registration Loan_Verification Loan_Book
begin

text \<open>
  Who a handler acts for. A handler that is called for a wallet reads the rows of that wallet
  and of its user, and writes only such rows. The locale \<open>ownership\<close> gives the rules: a
  judgement \<open>holds Q m\<close> says that from a state of the invariant \<open>m\<close> ends in one, keeps what
  belongs to others, and returns only values with \<open>Q\<close>. It is interpreted on the tables of the
  world and on the state of the registration service.
\<close>

section \<open>Rules\<close>

locale ownership =
  fixes ok :: "'s \<Rightarrow> bool" and same :: "'s \<Rightarrow> 's \<Rightarrow> bool"
  assumes same_refl: "same s s" and same_trans: "same s t \<Longrightarrow> same t u \<Longrightarrow> same s u"
begin

definition holds :: "('a \<Rightarrow> bool) \<Rightarrow> ('s, 'a) svc \<Rightarrow> bool" where
  "holds Q m \<longleftrightarrow> (\<forall>s. ok s \<longrightarrow> ok (snd (m s)) \<and> same s (snd (m s)) \<and> (\<forall>a. fst (m s) = Inr a \<longrightarrow> Q a))"

abbreviation safe :: "('s, 'a) svc \<Rightarrow> bool" where "safe m \<equiv> holds (\<lambda>_. True) m"

lemma holds_weaken: "holds Q m \<Longrightarrow> (\<And>a. Q a \<Longrightarrow> Q' a) \<Longrightarrow> holds Q' m"
  by (auto simp: holds_def)

lemma holds_ret: "Q a \<Longrightarrow> holds Q (sret a)"
  by (simp add: holds_def sret_def same_refl)

lemma holds_throw: "holds Q (sthrow e)"
  by (simp add: holds_def sthrow_def same_refl)

lemma holds_get: "(\<And>s. ok s \<Longrightarrow> Q (f s)) \<Longrightarrow> holds Q (sget f)"
  by (simp add: holds_def sget_def same_refl)

lemma holds_lift: "(\<And>a. r = Inr a \<Longrightarrow> Q a) \<Longrightarrow> holds Q (slift r)"
  by (simp add: holds_def slift_def same_refl)

lemma holds_require: "holds (\<lambda>_. True) (srequire b e)"
  by (simp add: srequire_def holds_ret holds_throw)

lemma holds_bind: "holds Q m \<Longrightarrow> (\<And>a. Q a \<Longrightarrow> holds Q' (f a)) \<Longrightarrow> holds Q' (sbind m f)"
  unfolding holds_def sbind_def
  by (auto split: sum.splits prod.splits) (metis fst_conv same_trans snd_conv)+

lemma holds_catch: "holds Q m \<Longrightarrow> (\<And>e. holds Q (h e)) \<Longrightarrow> holds Q (scatch m h)"
  unfolding holds_def scatch_def
  by (auto split: sum.splits prod.splits) (metis fst_conv same_trans snd_conv)+

lemma holds_if: "(b \<Longrightarrow> holds Q m) \<Longrightarrow> (\<not> b \<Longrightarrow> holds Q m') \<Longrightarrow> holds Q (if b then m else m')"
  by simp

lemma holds_option: "(r = None \<Longrightarrow> holds Q m) \<Longrightarrow> (\<And>x. r = Some x \<Longrightarrow> holds Q (f x)) \<Longrightarrow>
    holds Q (case r of None \<Rightarrow> m | Some x \<Rightarrow> f x)"
  by (cases r) simp_all

lemma holds_mapM: "(\<And>x. x \<in> set xs \<Longrightarrow> safe (f x)) \<Longrightarrow> safe (smapM f xs)"
proof (induction xs)
  case Nil
  then show ?case by (simp add: holds_ret)
next
  case (Cons x xs)
  then show ?case by (auto intro!: holds_bind holds_ret)
qed

lemma holds_run: "holds Q m \<Longrightarrow> m s = (r, t) \<Longrightarrow> ok s \<Longrightarrow> same s t"
  by (metis holds_def snd_conv)

lemmas holds_rules = holds_bind holds_catch holds_if holds_option holds_require holds_throw holds_mapM

end

lemma filter_update:
  "(\<And>x. x \<in> set rows \<Longrightarrow> Q x \<Longrightarrow> \<not> P x \<and> \<not> P (g x)) \<Longrightarrow> filter P (map (\<lambda>x. if Q x then g x else x) rows) = filter P rows"
  by (induction rows) auto

section \<open>The tables\<close>

text \<open>
  \<open>w\<close> is the wallet, \<open>G\<close> holds the ids of the users of other wallets and \<open>F\<close> the ids of their
  loans. The invariant says that the primary keys keep them apart from the rows of \<open>w\<close>.
\<close>

definition foreign_users :: "string \<Rightarrow> 'c world \<Rightarrow> User list" where
  "foreign_users w s = filter (\<lambda>u. walletAddress u \<noteq> w) (users s)"

definition foreign_loans :: "nat set \<Rightarrow> 'c world \<Rightarrow> Loan list" where
  "foreign_loans G s = filter (\<lambda>l. loan_userId l \<in> G) (loans s)"

definition apart :: "string \<Rightarrow> nat set \<Rightarrow> nat set \<Rightarrow> 'c world \<Rightarrow> bool" where
  "apart w G F s \<longleftrightarrow> user_id ` set (foreign_users w s) = G \<and> loan_id ` set (foreign_loans G s) = F \<and>
     (\<forall>u \<in> set (users s). user_id u \<in> G \<longrightarrow> walletAddress u \<noteq> w) \<and>
     (\<forall>l \<in> set (loans s). loan_id l \<in> F \<longrightarrow> loan_userId l \<in> G)"

definition others_same :: "string \<Rightarrow> nat set \<Rightarrow> 'c world \<Rightarrow> 'c world \<Rightarrow> bool" where
  "others_same w G s t \<longleftrightarrow> foreign_users w t = foreign_users w s \<and> foreign_loans G t = foreign_loans G s"

lemma apart_init:
  assumes "distinct (map user_id (users s))" "distinct (map loan_id (loans s))"
  obtains G F where "apart w G F s"
proof
  define G where "G = user_id ` set (foreign_users w s)"
  have "walletAddress u \<noteq> w" if "u \<in> set (users s)" "user_id u \<in> G" for u
    using assms(1) that by (auto simp: G_def foreign_users_def distinct_map inj_on_def)
  moreover have "loan_userId l \<in> G" if "l \<in> set (loans s)" "loan_id l \<in> loan_id ` set (foreign_loans G s)" for l
    using assms(2) that by (auto simp: foreign_loans_def distinct_map inj_on_def)
  ultimately show "apart w G (loan_id ` set (foreign_loans G s)) s" by (simp add: apart_def G_def)
qed

lemma apart_user: "apart w G F s \<Longrightarrow> u \<in> set (users s) \<Longrightarrow> user_id u \<in> G \<longleftrightarrow> walletAddress u \<noteq> w"
  unfolding apart_def foreign_users_def by fastforce

lemma apart_loan: "apart w G F s \<Longrightarrow> l \<in> set (loans s) \<Longrightarrow> loan_id l \<in> F \<longleftrightarrow> loan_userId l \<in> G"
  unfolding apart_def foreign_loans_def by fastforce

lemma apartI:
  assumes "apart w G F s" "foreign_users w t = foreign_users w s" "foreign_loans G t = foreign_loans G s"
    "\<And>u. u \<in> set (users t) \<Longrightarrow> walletAddress u = w \<Longrightarrow> user_id u \<notin> G"
    "\<And>l. l \<in> set (loans t) \<Longrightarrow> loan_userId l \<notin> G \<Longrightarrow> loan_id l \<notin> F"
  shows "apart w G F t \<and> others_same w G s t"
  using assms unfolding apart_def others_same_def by metis

text \<open>A user, and a loan, that is not somebody else's.\<close>

definition my_user :: "string \<Rightarrow> nat set \<Rightarrow> User \<Rightarrow> bool" where
  "my_user w G u \<longleftrightarrow> walletAddress u = w \<and> user_id u \<notin> G"

definition my_loan :: "nat set \<Rightarrow> nat set \<Rightarrow> Loan \<Rightarrow> bool" where
  "my_loan G F l \<longleftrightarrow> loan_userId l \<notin> G \<and> loan_id l \<notin> F"

interpretation own: ownership "apart w G F" "others_same w G" for w G F
  by unfold_locales (auto simp: others_same_def)

lemma apart_cong:
  assumes "users t = users s" "loans t = loans s"
  shows "apart w G F t = apart w G F s" "others_same w G s t"
  using assms by (simp_all add: apart_def others_same_def foreign_users_def foreign_loans_def)

lemma own_readonly:
  assumes "\<And>s. users (snd (m s)) = users s \<and> loans (snd (m s)) = loans s"
  shows "own.safe w G F m"
  unfolding own.holds_def using assms apart_cong by meson

text \<open>A change of users that leaves the keys, and the rows of other wallets, as they are.\<close>

lemma apart_users:
  assumes a: "apart w G F s" and t: "users t = map g (users s)" "loans t = loans s"
    and g: "\<And>u. u \<in> set (users s) \<Longrightarrow> user_id (g u) = user_id u \<and> walletAddress (g u) = walletAddress u"
    "\<And>u. u \<in> set (foreign_users w s) \<Longrightarrow> g u = u"
  shows "apart w G F t \<and> others_same w G s t"
proof -
  have "filter (\<lambda>u. walletAddress u \<noteq> w) (map g us) = filter (\<lambda>u. walletAddress u \<noteq> w) us"
    if "\<And>u. u \<in> set us \<Longrightarrow> walletAddress (g u) = walletAddress u \<and> (walletAddress u \<noteq> w \<longrightarrow> g u = u)" for us
    using that by (induction us) auto
  then have "foreign_users w t = foreign_users w s" using t(1) g by (simp add: foreign_users_def)
  then show ?thesis
    by (rule apartI [OF a]) (use t g(1) apart_user [OF a] apart_loan [OF a] in \<open>auto simp: foreign_loans_def\<close>)
qed

lemma own_chain: "own.safe w G F (chain_read p)" "own.safe w G F (chain_write q)"
  by (rule own_readonly; simp add: chain_read_def chain_write_def split: prod.split)+

lemma own_find: "own.holds w G F (\<lambda>r. \<forall>u. r = Some u \<longrightarrow> my_user w G u) (sget (user_by_wallet w))"
  by (rule own.holds_get) (auto simp: user_by_wallet_def my_user_def apart_user dest!: find_cond)

lemma own_map_users:
  assumes "\<And>u. user_id (g u) = user_id u \<and> walletAddress (g u) = walletAddress u"
    and "\<And>u. walletAddress u \<noteq> w \<Longrightarrow> user_id u \<in> G \<Longrightarrow> g u = u"
  shows "own.safe w G F (smod (\<lambda>s :: 'c world. s\<lparr>users := map g (users s)\<rparr>))"
proof -
  have "apart w G F (s\<lparr>users := map g (users s)\<rparr>) \<and> others_same w G s (s\<lparr>users := map g (users s)\<rparr>)" if a: "apart w G F s" for s :: "'c world"
    by (rule apart_users [OF a, where g = g]) (use assms apart_user [OF a] in \<open>auto simp: foreign_users_def\<close>)
  then show ?thesis by (simp add: own.holds_def smod_def)
qed

lemma own_update_user:
  assumes "i \<notin> G" "\<And>u. user_id (f u) = user_id u \<and> walletAddress (f u) = walletAddress u"
  shows "own.safe w G F (update_user i f)"
  unfolding update_user_def by (rule own_map_users) (use assms in auto)

lemma own_update_wallet:
  assumes "\<And>u. user_id (f u) = user_id u \<and> walletAddress (f u) = walletAddress u"
  shows "own.safe w G F (update_by_wallet w f)"
  unfolding update_by_wallet_def by (rule own_map_users) (use assms in auto)

lemma own_save_user:
  assumes "my_user w G u"
  shows "own.safe w G F (save_user u :: ('c world, unit) svc)"
proof -
  have "apart w G F (s\<lparr>users := put_row user_id (store_user u) (users s)\<rparr>) \<and> others_same w G s (s\<lparr>users := put_row user_id (store_user u) (users s)\<rparr>)"
    if a: "apart w G F s" for s :: "'c world"
  proof (rule apart_users [OF a, where g = "\<lambda>v. if user_id v = user_id u then store_user u else v"])
    have w: "walletAddress v = walletAddress u" if "v \<in> set (users s)" "user_id v = user_id u" for v
      using apart_user [OF a that(1)] that(2) assms by (simp add: my_user_def)
    show "\<And>v. v \<in> set (users s) \<Longrightarrow> user_id (if user_id v = user_id u then store_user u else v) = user_id v \<and>
        walletAddress (if user_id v = user_id u then store_user u else v) = walletAddress v"
      using w by simp
    show "\<And>v. v \<in> set (foreign_users w s) \<Longrightarrow> (if user_id v = user_id u then store_user u else v) = v"
      using w assms by (auto simp: foreign_users_def my_user_def)
  qed (simp_all add: put_row_def)
  then show ?thesis by (simp add: own.holds_def save_user_def smod_def)
qed

lemma own_transaction:
  fixes m :: "('c world, 'a) svc"
  shows "own.holds w G F Q m \<Longrightarrow> own.holds w G F Q (transaction m)"
  unfolding own.holds_def
proof (intro allI impI)
  fix s :: "'c world" assume h: "\<forall>s. apart w G F s \<longrightarrow> apart w G F (snd (m s)) \<and> others_same w G s (snd (m s)) \<and> (\<forall>a. fst (m s) = Inr a \<longrightarrow> Q a)"
    and a: "apart w G F s"
  show "apart w G F (snd (transaction m s)) \<and> others_same w G s (snd (transaction m s)) \<and> (\<forall>a. fst (transaction m s) = Inr a \<longrightarrow> Q a)"
  proof (cases "m s")
    case (Pair r t)
    then show ?thesis using h a apart_cong [of "t\<lparr>users := users s, loans := loans s\<rparr>" s]
      by (cases r) (auto simp: transaction_def)
  qed
qed

text \<open>A change of loans that keeps those of other users.\<close>

lemma apart_loans:
  assumes a: "apart w G F s" and u: "users t = users s" and f: "foreign_loans G t = foreign_loans G s"
    and l: "\<And>l. l \<in> set (loans t) \<Longrightarrow> l \<in> set (loans s) \<or> loan_id l \<notin> F"
  shows "apart w G F t \<and> others_same w G s t"
  by (rule apartI [OF a _ f]) (use u l apart_user [OF a] apart_loan [OF a] in \<open>auto simp: foreign_users_def\<close>)

lemma store_loan_ids [simp]: "loan_id (store_loan l) = loan_id l" "loan_userId (store_loan l) = loan_userId l"
  by (simp_all add: store_loan_def)

lemma own_save_loan:
  assumes "my_loan G F l"
  shows "own.safe w G F (save_loan l :: ('c world, unit) svc)"
proof -
  have "apart w G F (s\<lparr>loans := put_row loan_id (store_loan l) (loans s)\<rparr>) \<and> others_same w G s (s\<lparr>loans := put_row loan_id (store_loan l) (loans s)\<rparr>)"
    if a: "apart w G F s" for s :: "'c world"
  proof (rule apart_loans [OF a])
    show "foreign_loans G (s\<lparr>loans := put_row loan_id (store_loan l) (loans s)\<rparr>) = foreign_loans G s"
      unfolding foreign_loans_def put_row_def
      using assms apart_loan [OF a] by simp (rule filter_update, metis my_loan_def store_loan_ids)
  qed (use assms in \<open>auto simp: put_row_def my_loan_def\<close>)
  then show ?thesis by (auto simp: own.holds_def save_loan_def own.same_refl)
qed

lemma own_insert_loan:
  assumes "loan_userId l \<notin> G"
  shows "own.safe w G F (insert_loan l :: ('c world, Loan) svc)"
proof -
  have "apart w G F (s\<lparr>loans := loans s @ [k]\<rparr>) \<and> others_same w G s (s\<lparr>loans := loans s @ [k]\<rparr>)"
    if a: "apart w G F s" and k: "loan_id k = fresh_id loan_id (loans s)" "loan_userId k = loan_userId l" for s :: "'c world" and k
  proof (rule apart_loans [OF a])
    have "F \<subseteq> loan_id ` set (loans s)" using a by (auto simp: apart_def foreign_loans_def)
    then show "\<And>l. l \<in> set (loans (s\<lparr>loans := loans s @ [k]\<rparr>)) \<Longrightarrow> l \<in> set (loans s) \<or> loan_id l \<notin> F"
      using k(1) fresh_id_notin [of loan_id "loans s"] by auto
  qed (use k assms in \<open>simp_all add: foreign_loans_def\<close>)
  then show ?thesis by (simp add: own.holds_def insert_loan_def Let_def own.same_refl)
qed

section \<open>Handlers on the tables\<close>

lemma own_with_wallet: "normalizeWallet a = Inr w \<Longrightarrow> own.holds v G F Q (f w) \<Longrightarrow> own.holds v G F Q (sbind (slift (normalizeWallet a)) f)"
  by (rule own.holds_bind [where Q = "\<lambda>x. x = w"]) (auto intro: own.holds_lift)

lemma own_with_user:
  "(\<And>u. my_user w G u \<Longrightarrow> own.holds w G F Q (f u)) \<Longrightarrow> own.holds w G F Q m \<Longrightarrow>
     own.holds w G F Q (sbind (sget (user_by_wallet w)) (\<lambda>r. case r of None \<Rightarrow> m | Some u \<Rightarrow> f u))"
  by (rule own.holds_bind [OF own_find]) (simp split: option.split)

lemma own_step: "own.safe w G F m \<Longrightarrow> (\<And>a. own.holds w G F Q (f a)) \<Longrightarrow> own.holds w G F Q (sbind m f)"
  by (rule own.holds_bind)

lemma own_basic: "own.safe w G F (sret a)" "own.safe w G F (sget f)" "own.safe w G F (slift r)"
  by (auto intro: own.holds_ret own.holds_get own.holds_lift)

lemma own_findUser:
  assumes "normalizeWallet a = Inr w"
  shows "own.holds w G F (my_user w G) (findUserOrThrow msg a)"
  unfolding findUserOrThrow_def
  by (intro own_with_wallet [OF assms] own_with_user own.holds_ret own.holds_throw)

lemma own_case: "(r = None \<Longrightarrow> own.holds w G F Q m) \<Longrightarrow> (\<And>x. r = Some x \<Longrightarrow> own.holds w G F Q (f x)) \<Longrightarrow>
    own.holds w G F Q (case r of None \<Rightarrow> m | Some x \<Rightarrow> f x)"
  by (rule own.holds_option)

lemmas own_rules = own_with_user own_step own.holds_catch own.holds_if own_case own.holds_throw own_basic
  own.holds_require own_chain own_update_user own_update_wallet own_save_user own_save_loan own_insert_loan own_transaction

lemma own_kyc:
  assumes "normalizeWallet a = Inr w"
  shows "own.safe w G F (kyc_start p a)" "own.safe w G F (kyc_status p a)"
proof -
  show "own.safe w G F (kyc_start p a)"
    unfolding kyc_start_def
    by (rule own.holds_bind [OF own_findUser [OF assms]]) (intro own_rules; simp add: my_user_def)
  show "own.safe w G F (kyc_status p a)"
    unfolding kyc_status_def
    by (rule own.holds_bind [OF own_findUser [OF assms]]) (auto intro!: own_rules split: KycDecision.split simp: my_user_def)
qed

lemma own_phone_parts:
  assumes "normalizeWallet a = Inr w"
  shows "own.safe w G F (sendVerification k r number a)" "own.safe w G F (checkVerification code a)"
    "own.safe w G F (ensurePhoneIsFreeForWallet number v)" "own.safe w G F (assertPhoneOtpThrottle u)"
    "i \<notin> G \<Longrightarrow> own.safe w G F (update_phone i number)"
proof -
  show "own.safe w G F (sendVerification k r number a)"
    unfolding sendVerification_def Let_def
    by (rule own_with_wallet [OF assms]) (intro own_rules; simp)
  show "own.safe w G F (checkVerification code a)"
    unfolding checkVerification_def
    by (rule own_with_wallet [OF assms]) (auto intro!: own_rules split: option.split)
  show "own.safe w G F (ensurePhoneIsFreeForWallet number v)" "own.safe w G F (assertPhoneOtpThrottle u)"
    unfolding ensurePhoneIsFreeForWallet_def assertPhoneOtpThrottle_def by (intro own_rules)+
  show "own.safe w G F (update_phone i number)" if "i \<notin> G"
    using own_update_user [OF that, where f = "\<lambda>u. u\<lparr>phone := Some number, phoneVerifiedAt := Some t\<rparr>" for t]
    unfolding own.holds_def update_phone_def by (auto simp: own.same_refl)
qed

lemma own_phone:
  assumes a: "normalizeWallet a = Inr w"
  shows "own.safe w G F (verifyPhone k r a number)" "own.safe w G F (verifyPhoneOtp a number code)"
    "own.safe w G F (resendPhoneOtp k r a number)" "own.safe w G F (updatePhone k r a number)"
proof -
  note w = normalizeWallet_fixed [OF a]
  show "own.safe w G F (verifyPhone k r a number)"
    unfolding verifyPhone_def
    by (rule own.holds_bind [OF own_findUser [OF a]])
      (intro own_with_wallet [OF a] own_rules own_phone_parts [OF w]; simp add: my_user_def)
  then show "own.safe w G F (resendPhoneOtp k r a number)" by (simp add: resendPhoneOtp_def)
  show "own.safe w G F (updatePhone k r a number)"
    unfolding updatePhone_def
    by (rule own.holds_bind [OF own_findUser [OF a]])
      (intro own_with_wallet [OF a] own_rules own_phone_parts [OF w]; simp add: my_user_def)
  show "own.safe w G F (verifyPhoneOtp a number code)"
    unfolding verifyPhoneOtp_def
    by (rule own.holds_bind [OF own_findUser [OF a]])
      (intro own_with_wallet [OF a] own_rules own_phone_parts [OF w]; simp add: my_user_def)
qed

lemma own_set_platform: "my_user w G u \<Longrightarrow> own.holds w G F (my_user w G) (set_platform b pf u)"
  unfolding set_platform_def by (auto simp: my_user_def intro!: own_step own_update_user own.holds_ret)

lemma own_verify:
  assumes a: "normalizeWallet (vu_walletAddress dto) = Inr w"
  shows "own.safe w G F (verify env gw rows dto)"
proof -
  have ex: "own.safe w G F (existing_credit env gw w u)" "own.safe w G F (ensureSelfVerificationForPlatform rows u)" for u
    unfolding existing_credit_def ensureSelfVerificationForPlatform_def Let_def by (intro own_rules)+
  have fc: "own.safe w G F (first_credit env gw w u)" if "my_user w G u" for u
    unfolding first_credit_def using that by (intro own_rules; simp add: my_user_def)
  show ?thesis unfolding verify_def Let_def
    by (intro own_with_wallet [OF a] own_with_user own_step [OF own.holds_require] own.holds_bind [OF own_set_platform]
        own_step [OF ex(2)] own_step [OF own_basic(2)] own.holds_if ex(1) fc own.holds_throw; assumption)
qed

lemma own_borrow:
  assumes a: "normalizeWallet (bo_receiver dto) = Inr w"
  shows "own.safe w G F (borrow env gw dto)"
proof -
  have parts: "own.safe w G F (assertNoBorrowCooldown gw w)" "own.safe w G F (make_offer gw amount w tenor fee)"
      "own.safe w G F (effective_limit env gw w u)" "own.safe w G F (priced_fee u tenor)" for u amount tenor fee
    unfolding assertNoBorrowCooldown_def make_offer_def effective_limit_def priced_fee_def Let_def by (intro own_rules)+
  show ?thesis unfolding borrow_def
    by (intro own.holds_if own.holds_throw own_with_wallet [OF a] own_step [OF own_basic(3)] own_with_user
        own_step [OF own.holds_require] own_step [OF parts(1)] own_step [OF parts(3)] own_step [OF parts(4)] parts(2))
qed

lemma own_terms:
  assumes a: "normalizeWallet a = Inr w"
  shows "own.safe w G F (getLoanTerms env a amount)" "own.safe w G F (preflightRepayment env gw a force)"
proof -
  show "own.safe w G F (getLoanTerms env a amount)"
    unfolding getLoanTerms_def Let_def by (intro own_with_wallet [OF a] own_rules)
  show "own.safe w G F (preflightRepayment env gw a force)"
    unfolding preflightRepayment_def preflight_finish_def accrue_now_def Let_def
    by (intro own_with_wallet [OF a] own_rules)
qed

text \<open>The loans of a user that is not somebody else's.\<close>

lemma own_loans:
  assumes "\<And>l. P l \<Longrightarrow> loan_userId l = i" "i \<notin> G"
  shows "own.holds w G F (\<lambda>ls. \<forall>l \<in> set ls. my_loan G F l) (sget (\<lambda>s. filter P (loans s)))"
    and "own.holds w G F (\<lambda>r. \<forall>l. r = Some l \<longrightarrow> my_loan G F l) (sget (\<lambda>s. newest k P (loans s)))"
proof -
  have mine: "my_loan G F l" if "apart w G F s" "l \<in> set (loans s)" "P l" for s :: "'c world" and l
    using that assms apart_loan [OF that(1,2)] by (metis my_loan_def)
  show "own.holds w G F (\<lambda>ls. \<forall>l \<in> set ls. my_loan G F l) (sget (\<lambda>s :: 'c world. filter P (loans s)))"
    by (rule own.holds_get) (auto intro: mine)
  show "own.holds w G F (\<lambda>r. \<forall>l. r = Some l \<longrightarrow> my_loan G F l) (sget (\<lambda>s :: 'c world. newest k P (loans s)))"
    by (rule own.holds_get) (auto intro: mine dest: newest_Some)
qed

lemma own_open:
  assumes u: "my_user w G u" and mk: "\<And>t. loan_userId (mk t) = user_id u"
  shows "own.safe w G F (open_transaction u mk txHash)"
proof -
  have ids: "user_id u \<notin> G" using u by (simp add: my_user_def)
  have close: "own.safe w G F (smapM (\<lambda>l. save_loan (close_orphan t l)) ls)" if "\<forall>l \<in> set ls. my_loan G F l" for ls t
    using that by (intro own.holds_mapM own_save_loan) (simp add: my_loan_def close_orphan_def)
  have orphans: "own.holds w G F (\<lambda>ls. \<forall>l \<in> set ls. my_loan G F l) (sget (\<lambda>s. filter (orphan (user_id u)) (loans s)))"
    by (rule own_loans(1) [OF _ ids]) (simp add: orphan_def)
  show ?thesis unfolding open_transaction_def
    by (intro own_transaction own_step [OF own_basic(2)] own_case own_basic own.holds_bind [OF orphans] own_step [OF close]
        own.holds_catch own_step [OF own_insert_loan] own.holds_if own.holds_throw; simp add: mk ids)
qed

lemma own_informLoanOpened:
  assumes a: "normalizeWallet (il_walletAddress dto) = Inr w"
  shows "own.safe w G F (informLoanOpened env gw dto)"
proof -
  have parts: "own.safe w G F (assertLoanOpenedTxValid gw h w)" "own.safe w G F (priced_fee u tenor)" for h u tenor
    unfolding assertLoanOpenedTxValid_def priced_fee_def by (intro own_rules)+
  show ?thesis unfolding informLoanOpened_def Let_def
    by (intro own_with_wallet [OF a] own_with_user own_step [OF own_basic(3)] own_step [OF own_basic(2)] own_case own_basic
        own_step [OF parts(1)] own_step [OF parts(2)] own_open own.holds_throw; simp add: new_loan_def)
qed

lemma own_close:
  assumes u: "my_user w G u"
  shows "own.holds w G F (\<lambda>(_, _, v). my_user w G v) (close_transaction env dto u paid)"
proof -
  have ids: "user_id u \<notin> G" using u by (simp add: my_user_def)
  have due: "own.holds w G F (\<lambda>r. \<forall>l. r = Some l \<longrightarrow> my_loan G F l) (sget (\<lambda>s. newest startAt (payable (user_id u)) (loans s)))"
    by (rule own_loans(2) [OF _ ids]) (simp add: payable_def)
  have closed: "my_loan G F l \<Longrightarrow> my_loan G F (closed_loan l n t h)" for l n t h
    by (simp add: my_loan_def closed_loan_def Let_def)
  show ?thesis unfolding close_transaction_def Let_def
    by (intro own_transaction own.holds_bind [OF due] own_case own_step [OF own_basic(3)] own_step [OF own_basic(2)]
        own_step [OF own_save_loan] own.holds_if own_step [OF own_save_user] own.holds_ret own.holds_throw)
      (use u closed in \<open>auto simp: my_user_def\<close>)
qed

lemma own_publish: "my_user w G u \<Longrightarrow> own.holds w G F (my_user w G) (publish_credit gw v u sc units)"
  unfolding publish_credit_def Let_def
  by (intro own.holds_catch own_step [OF own_basic(3)] own_step [OF own_chain(2)] own.holds_if own_step [OF own_save_user] own.holds_ret)
    (auto simp: my_user_def)

lemma own_settle:
  assumes "my_user w G (snd (snd r))"
  shows "own.safe w G F (settle_user env gw v sc r)"
proof -
  obtain l b u where r: "r = (l, b, u)" by (cases r)
  then have u: "my_user w G u" using assms by simp
  have "own.holds w G F (my_user w G) (reward_on_time env gw v u n)" "own.holds w G F (my_user w G) (penalize_post_default env gw v u)"
      "own.holds w G F (my_user w G) (renew_late env gw v u)" for n
    unfolding reward_on_time_def penalize_post_default_def renew_late_def Let_def using u
    by (auto intro!: own_step [OF own_basic(3)] own_publish own.holds_ret own_step own.holds_catch own_basic own_chain simp: my_user_def)
  then show ?thesis unfolding settle_user_def r Let_def prod.case
    by (intro own_step [OF own_basic(2)] own.holds_bind [where Q = "my_user w G"] own.holds_if own_basic) simp_all
qed

lemma own_repay:
  assumes a: "normalizeWallet (ir_walletAddress dto) = Inr w"
  shows "own.safe w G F (processRepayment env gw dto)"
proof -
  have confirm: "own.safe w G F (confirm_repay gw h w)" for h
    unfolding confirm_repay_def verify_by_txHash_def assert_closed_on_chain_def Let_def
    by (auto intro!: own_rules split: repay_check.split repay_reason.split)
  have "own.safe w G F (record_repayment env gw dto w u paid)" if "my_user w G u" for u paid
    unfolding record_repayment_def
    by (intro own_step [OF own_basic(2)] own_case own_basic own.holds_bind [OF own_close [OF that]] own_settle) auto
  then show ?thesis unfolding processRepayment_def
    by (intro own_with_wallet [OF a] own_with_user own_step [OF confirm] own.holds_throw)
qed

section \<open>Handlers of the registration service\<close>

definition foreign_pending :: "string \<Rightarrow> 'c onboard \<Rightarrow> NotVerifiedUser list" where
  "foreign_pending w s = filter (\<lambda>p. pu_wallet p \<noteq> w) (pending_users s)"

definition apart_onb :: "string \<Rightarrow> nat set \<Rightarrow> nat set \<Rightarrow> nat set \<Rightarrow> 'c onboard \<Rightarrow> bool" where
  "apart_onb w G F H s \<longleftrightarrow> apart w G F (ob_world s) \<and> pu_id ` set (foreign_pending w s) = H \<and> 0 \<notin> H \<and>
     (\<forall>p \<in> set (pending_users s). pu_id p \<in> H \<longrightarrow> pu_wallet p \<noteq> w)"

definition others_same_onb :: "string \<Rightarrow> nat set \<Rightarrow> 'c onboard \<Rightarrow> 'c onboard \<Rightarrow> bool" where
  "others_same_onb w G s t \<longleftrightarrow> others_same w G (ob_world s) (ob_world t) \<and> foreign_pending w t = foreign_pending w s"

lemma apart_onb_init:
  assumes "distinct (map user_id (users (ob_world s)))" "distinct (map loan_id (loans (ob_world s)))"
    "distinct (map pu_id (pending_users s))" "0 \<notin> pu_id ` set (pending_users s)"
  obtains G F H where "apart_onb w G F H s" "G = user_id ` set (foreign_users w (ob_world s))"
proof -
  obtain G F where a: "apart w G F (ob_world s)" using apart_init [OF assms(1,2)] .
  have "pu_wallet p \<noteq> w" if "p \<in> set (pending_users s)" "pu_id p \<in> pu_id ` set (foreign_pending w s)" for p
    using assms(3) that by (auto simp: foreign_pending_def distinct_map inj_on_def)
  moreover have "0 \<notin> pu_id ` set (foreign_pending w s)" using assms(4) by (auto simp: foreign_pending_def)
  ultimately have "apart_onb w G F (pu_id ` set (foreign_pending w s)) s" using a by (simp add: apart_onb_def)
  then show ?thesis by (rule that) (use a in \<open>simp add: apart_def\<close>)
qed

interpretation onb: ownership "apart_onb w G F H" "others_same_onb w G" for w G F H
  by unfold_locales (auto simp: others_same_onb_def own.same_refl intro: own.same_trans)

lemma onb_pending: "apart_onb w G F H s \<Longrightarrow> p \<in> set (pending_users s) \<Longrightarrow> pu_id p \<in> H \<longleftrightarrow> pu_wallet p \<noteq> w"
  unfolding apart_onb_def foreign_pending_def by fastforce

definition my_pending :: "string \<Rightarrow> nat set \<Rightarrow> NotVerifiedUser \<Rightarrow> bool" where
  "my_pending w H p \<longleftrightarrow> pu_wallet p = w \<and> pu_id p \<notin> H"

lemma onb_on_world: "own.holds w G F Q m \<Longrightarrow> onb.holds w G F H Q (on_world m)"
  unfolding own.holds_def onb.holds_def on_world_def
  by (auto split: prod.split simp: apart_onb_def others_same_onb_def foreign_pending_def)

lemma onb_seq: "onb.safe w G F H m \<Longrightarrow> (\<And>a. onb.holds w G F H Q (f a)) \<Longrightarrow> onb.holds w G F H Q (sbind m f)"
  by (rule onb.holds_bind)

lemma onb_basic: "onb.safe w G F H (sret a)" "onb.safe w G F H (sget f)" "onb.safe w G F H (slift r)"
  by (auto intro: onb.holds_ret onb.holds_get onb.holds_lift)

lemma onb_with_wallet: "normalizeWallet a = Inr w \<Longrightarrow> onb.holds v G F H Q (f w) \<Longrightarrow> onb.holds v G F H Q (sbind (slift (normalizeWallet a)) f)"
  by (rule onb.holds_bind [where Q = "\<lambda>x. x = w"]) (auto intro: onb.holds_lift)

lemma onb_user_read: "apart_onb w G F H s \<Longrightarrow> ob_user w s = Some u \<Longrightarrow> my_user w G u"
  by (auto simp: ob_user_def user_by_wallet_def my_user_def apart_onb_def apart_user dest!: find_cond)

lemma onb_pending_read: "apart_onb w G F H s \<Longrightarrow> pending_of w s = Some p \<Longrightarrow> my_pending w H p"
  by (auto simp: pending_of_def my_pending_def onb_pending dest!: find_cond)

lemma onb_find_user: "onb.holds w G F H (\<lambda>r. \<forall>u. r = Some u \<longrightarrow> my_user w G u) (sget (ob_user w))"
  by (rule onb.holds_get) (use onb_user_read in blast)

lemma onb_find_pending: "onb.holds w G F H (\<lambda>r. \<forall>p. r = Some p \<longrightarrow> my_pending w H p) (sget (pending_of w))"
  by (rule onb.holds_get) (use onb_pending_read in blast)

text \<open>A change of the pending rows that keeps those of other wallets.\<close>

lemma apart_pending:
  assumes a: "apart_onb w G F H s" and f: "filter (\<lambda>p. pu_wallet p \<noteq> w) ps = foreign_pending w s"
    and i: "\<And>p. p \<in> set ps \<Longrightarrow> p \<in> set (pending_users s) \<or> pu_id p \<notin> H"
  shows "apart_onb w G F H (s\<lparr>pending_users := ps\<rparr>) \<and> others_same_onb w G s (s\<lparr>pending_users := ps\<rparr>)"
  using a f i onb_pending [OF a] by (auto simp: apart_onb_def others_same_onb_def foreign_pending_def own.same_refl)

lemma onb_save_pending:
  assumes "pu_wallet p = w" "pu_id p \<notin> H"
  shows "onb.holds w G F H (my_pending w H) (save_pending p :: ('c, NotVerifiedUser) onb_svc)"
proof -
  have put: "apart_onb w G F H (s\<lparr>pending_users := put_row pu_id p (pending_users s)\<rparr>) \<and>
      others_same_onb w G s (s\<lparr>pending_users := put_row pu_id p (pending_users s)\<rparr>)" if a: "apart_onb w G F H s" for s :: "'c onboard"
  proof (rule apart_pending [OF a])
    show "filter (\<lambda>p. pu_wallet p \<noteq> w) (put_row pu_id p (pending_users s)) = foreign_pending w s"
      unfolding foreign_pending_def put_row_def
      by (rule filter_update) (use assms onb_pending [OF a] in metis)
  qed (use assms in \<open>auto simp: put_row_def\<close>)
  have add: "apart_onb w G F H (s\<lparr>pending_users := pending_users s @ [p\<lparr>pu_id := fresh_id pu_id (pending_users s)\<rparr>]\<rparr>) \<and>
      others_same_onb w G s (s\<lparr>pending_users := pending_users s @ [p\<lparr>pu_id := fresh_id pu_id (pending_users s)\<rparr>]\<rparr>) \<and>
      fresh_id pu_id (pending_users s) \<notin> H" if a: "apart_onb w G F H s" for s :: "'c onboard"
  proof -
    have "H \<subseteq> pu_id ` set (pending_users s)" using a by (auto simp: apart_onb_def foreign_pending_def)
    then have n: "fresh_id pu_id (pending_users s) \<notin> H" using fresh_id_notin [of pu_id "pending_users s"] by blast
    have "apart_onb w G F H (s\<lparr>pending_users := pending_users s @ [p\<lparr>pu_id := fresh_id pu_id (pending_users s)\<rparr>]\<rparr>) \<and>
        others_same_onb w G s (s\<lparr>pending_users := pending_users s @ [p\<lparr>pu_id := fresh_id pu_id (pending_users s)\<rparr>]\<rparr>)"
      by (rule apart_pending [OF a]) (use n assms(1) in \<open>auto simp: foreign_pending_def\<close>)
    with n show ?thesis by simp
  qed
  show ?thesis unfolding onb.holds_def save_pending_def Let_def my_pending_def
    using put add assms by (auto simp: onb.same_refl)
qed

lemma onb_delete_pending: 
  assumes "i \<notin> H"
  shows "onb.safe w G F H (delete_pending i :: ('c, unit) onb_svc)"
proof -
  have "apart_onb w G F H (s\<lparr>pending_users := filter (\<lambda>p. pu_id p \<noteq> i) (pending_users s)\<rparr>) \<and>
      others_same_onb w G s (s\<lparr>pending_users := filter (\<lambda>p. pu_id p \<noteq> i) (pending_users s)\<rparr>)" if a: "apart_onb w G F H s" for s :: "'c onboard"
  proof (rule apart_pending [OF a])
    show "filter (\<lambda>p. pu_wallet p \<noteq> w) (filter (\<lambda>p. pu_id p \<noteq> i) (pending_users s)) = foreign_pending w s"
      unfolding foreign_pending_def filter_filter
      by (rule filter_cong) (use assms onb_pending [OF a] in \<open>auto\<close>)
  qed auto
  then show ?thesis by (simp add: onb.holds_def delete_pending_def smod_def)
qed

lemma onb_update_profile:
  assumes "i \<notin> G" "\<And>u. user_id (f u) = user_id u \<and> walletAddress (f u) = walletAddress u"
  shows "onb.safe w G F H (update_profile i f)"
  using onb_on_world [OF own_update_user [OF assms]] unfolding onb.holds_def update_profile_def
  by (auto simp: onb.same_refl)

lemma onb_insert_user:
  assumes "walletAddress u = w"
  shows "onb.safe w G F H (insert_user u :: ('c, User) onb_svc)"
proof -
  have "apart_onb w G F H (s\<lparr>ob_world := (ob_world s)\<lparr>users := users (ob_world s) @ [v]\<rparr>\<rparr>) \<and>
      others_same_onb w G s (s\<lparr>ob_world := (ob_world s)\<lparr>users := users (ob_world s) @ [v]\<rparr>\<rparr>)"
    if a: "apart_onb w G F H s" and v: "user_id v = fresh_id user_id (users (ob_world s))" "walletAddress v = w" for s :: "'c onboard" and v
  proof -
    have b: "apart w G F (ob_world s)" using a by (simp add: apart_onb_def)
    then have "G \<subseteq> user_id ` set (users (ob_world s))" by (auto simp: apart_def foreign_users_def)
    then have "user_id v \<notin> G" using v(1) fresh_id_notin [of user_id "users (ob_world s)"] by auto
    then have "apart w G F ((ob_world s)\<lparr>users := users (ob_world s) @ [v]\<rparr>) \<and> others_same w G (ob_world s) ((ob_world s)\<lparr>users := users (ob_world s) @ [v]\<rparr>)"
      by (intro apartI [OF b]) (use v(2) apart_user [OF b] apart_loan [OF b] in \<open>auto simp: foreign_users_def foreign_loans_def\<close>)
    then show ?thesis using a by (simp add: apart_onb_def others_same_onb_def foreign_pending_def)
  qed
  then show ?thesis using assms by (simp add: onb.holds_def insert_user_def Let_def onb.same_refl)
qed

lemma onb_transaction:
  fixes m :: "('c, 'a) onb_svc"
  assumes "onb.holds w G F H Q m"
  shows "onb.holds w G F H Q (ob_transaction m)"
  unfolding onb.holds_def
proof (intro allI impI)
  fix s :: "'c onboard" assume a: "apart_onb w G F H s"
  obtain r t where m: "m s = (r, t)" by fastforce
  have b: "apart w G F (ob_world s)" using a by (simp add: apart_onb_def)
  have undone: "apart w G F ((ob_world t)\<lparr>users := users (ob_world s), loans := loans (ob_world s)\<rparr>)"
      "others_same w G (ob_world s) ((ob_world t)\<lparr>users := users (ob_world s), loans := loans (ob_world s)\<rparr>)"
    using b apart_cong [of "(ob_world t)\<lparr>users := users (ob_world s), loans := loans (ob_world s)\<rparr>" "ob_world s"] by simp_all
  show "apart_onb w G F H (snd (ob_transaction m s)) \<and> others_same_onb w G s (snd (ob_transaction m s)) \<and>
      (\<forall>x. fst (ob_transaction m s) = Inr x \<longrightarrow> Q x)"
  proof (cases r)
    case (Inl e)
    then show ?thesis using m a undone by (simp add: ob_transaction_def apart_onb_def others_same_onb_def foreign_pending_def)
  next
    case (Inr x)
    then show ?thesis using assms a m by (simp add: ob_transaction_def onb.holds_def) (metis fst_conv snd_conv)
  qed
qed

lemma onb_readonly:
  fixes m :: "('c, 'a) onb_svc"
  assumes "\<And>s. users (ob_world (snd (m s))) = users (ob_world s) \<and> loans (ob_world (snd (m s))) = loans (ob_world s) \<and>
      pending_users (snd (m s)) = pending_users s"
  shows "onb.safe w G F H m"
  unfolding onb.holds_def
proof (intro allI impI)
  fix s :: "'c onboard" assume a: "apart_onb w G F H s"
  have e: "users (ob_world (snd (m s))) = users (ob_world s)" "loans (ob_world (snd (m s))) = loans (ob_world s)"
      "pending_users (snd (m s)) = pending_users s" using assms by simp_all
  then show "apart_onb w G F H (snd (m s)) \<and> others_same_onb w G s (snd (m s)) \<and> (\<forall>x. fst (m s) = Inr x \<longrightarrow> True)"
    using a apart_cong [OF e(1,2)] by (simp add: apart_onb_def others_same_onb_def foreign_pending_def)
qed

lemma onb_reads: "onb.safe w G F H (getStepByWallet a)" "onb.safe w G F H (ensureEmailIsFreeForWallet e v)"
    "onb.safe w G F H (linkAnalyticsForNewUser i v)" "onb.safe w G F H (on_world (chain_write q))"
proof -
  show "onb.safe w G F H (getStepByWallet a)"
    by (rule onb_readonly) (simp add: getStepByWallet_def svc_simps split: sum.split)
  show "onb.safe w G F H (ensureEmailIsFreeForWallet e v)" by (rule onb_readonly) (simp add: free_run)
  show "onb.safe w G F H (linkAnalyticsForNewUser i v)"
    by (rule onb_readonly) (simp add: linkAnalyticsForNewUser_def svc_simps split: sum.split)
qed (rule onb_on_world [OF own_chain(2)])

lemma onb_issue:
  assumes "my_pending w H p"
  shows "onb.holds w G F H (my_pending w H) (issueOtpForPending P mailer p)"
proof -
  have draw: "onb.safe w G F H (\<lambda>s. (Inr (g (ob_draws s)), s\<lparr>ob_draws := ob_draws s + 1\<rparr>))" for g :: "nat \<Rightarrow> string"
    by (rule onb_readonly) simp
  have sp: "onb.holds w G F H (my_pending w H) (save_pending (p\<lparr>pu_otpCode := c, pu_otpExpiresAt := e, pu_attempts := 0, pu_lastOtpSentAt := l\<rparr>))" for c e l
    using assms by (intro onb_save_pending) (simp_all add: my_pending_def)
  have mail: "onb.safe w G F H (case mailer of None \<Rightarrow> sret ()
      | Some send \<Rightarrow> scatch (on_world (chain_write (send (the (pu_email p)) c))) (\<lambda>_. sret ()))" for c
    by (intro onb.holds_option onb.holds_catch onb_basic onb_reads)
  show ?thesis unfolding issueOtpForPending_def
    by (intro onb.holds_if onb.holds_throw onb_seq [OF onb_basic(2)] onb_seq [OF draw] onb.holds_bind [OF sp] onb_seq [OF mail] onb.holds_ret)
qed

lemma onb_check_otp: "my_pending w H p \<Longrightarrow> onb.safe w G F H (check_otp P p c)"
  unfolding check_otp_def
  by (intro onb.holds_if onb.holds_throw onb_seq [OF onb_basic(2)] onb.holds_bind [OF onb_save_pending] onb_basic) (simp_all add: my_pending_def)

lemma my_blank: "0 \<notin> H \<Longrightarrow> my_pending w H (blank_pending w)"
  by (simp add: my_pending_def blank_pending_def)

text \<open>The invariant rules out a row of another wallet with the id that a new row has before it is saved.\<close>

lemma onb_blank:
  assumes "0 \<notin> H \<Longrightarrow> onb.holds w G F H Q m"
  shows "onb.holds w G F H Q m"
  using assms by (auto simp: onb.holds_def apart_onb_def)

lemma my_with_email: "0 \<notin> H \<Longrightarrow> (\<And>p. r = Some p \<Longrightarrow> my_pending w H p) \<Longrightarrow> my_pending w H (with_email w e pf r)"
  by (auto simp: with_email_def my_pending_def blank_pending_def split: option.split)

lemma onb_save_mine: "my_pending w H p \<Longrightarrow> onb.holds w G F H (my_pending w H) (save_pending p)"
  by (rule onb_save_pending) (simp_all add: my_pending_def)

lemma onb_profile: "my_user w G u \<Longrightarrow> (\<And>v. user_id (f v) = user_id v \<and> walletAddress (f v) = walletAddress v) \<Longrightarrow>
    onb.safe w G F H (update_profile (user_id u) f)"
  by (rule onb_update_profile) (simp_all add: my_user_def)

lemma onb_acceptTerms:
  assumes a: "normalizeWallet a = Inr w"
  shows "onb.safe w G F H (acceptTerms a pf)"
proof (rule onb_blank)
  assume z: "0 \<notin> H"
  have read: "onb.holds w G F H (\<lambda>(u, p, _). (\<forall>x. u = Some x \<longrightarrow> my_user w G x) \<and> (\<forall>x. p = Some x \<longrightarrow> my_pending w H x))
      (sget (\<lambda>s. (ob_user w s, pending_of w s, ob_now s)))"
    by (rule onb.holds_get) (use onb_user_read onb_pending_read in fastforce)
  show "onb.safe w G F H (acceptTerms a pf)"
    unfolding acceptTerms_def Let_def
  proof (rule onb_with_wallet [OF a], rule onb.holds_bind [OF read], clarify, intro onb.holds_option)
    fix p t assume p: "\<forall>x. p = Some x \<longrightarrow> my_pending w H x"
    show "onb.safe w G F H (sbind (save_pending (case p of None \<Rightarrow> (blank_pending w)\<lparr>pu_platform := q, pu_termsAcceptedAt := Some t\<rparr>
         | Some x \<Rightarrow> x\<lparr>pu_termsAcceptedAt := orelse (pu_termsAcceptedAt x) (Some t), pu_platform := or_platform (pu_platform x) q\<rparr>)) (\<lambda>_. getStepByWallet w))" for q
      using p z by (intro onb.holds_bind [OF onb_save_mine] onb_reads) (auto simp: my_pending_def blank_pending_def split: option.split)
  qed (auto intro!: onb_seq onb_profile onb_reads)
qed

lemma onb_verifyEmail:
  assumes a: "normalizeWallet a = Inr w"
  shows "onb.safe w G F H (verifyEmail P mailer a address pf)"
proof (rule onb_blank)
  assume z: "0 \<notin> H"
  have tail: "onb.safe w G F H (sbind (sget (pending_of w)) (\<lambda>pend. sbind (save_pending (with_email w e q pend)) (\<lambda>p.
      sbind (issueOtpForPending P mailer p) (\<lambda>_. getStepByWallet w))))" for e q
    by (intro onb.holds_bind [OF onb_find_pending] onb.holds_bind [OF onb_save_mine] onb.holds_bind [OF onb_issue] onb_reads my_with_email)
      (use z in auto)
  show "onb.safe w G F H (verifyEmail P mailer a address pf)"
    unfolding verifyEmail_def Let_def
    by (intro onb_with_wallet [OF a] onb_seq [OF onb_reads(2)] onb.holds_bind [OF onb_find_user] onb_seq [OF onb.holds_option] tail onb_basic onb_profile)
      auto
qed

lemma onb_joinWaitlist:
  assumes a: "normalizeWallet a = Inr w"
  shows "onb.safe w G F H (joinWaitlist P mailer a address pf)"
proof (rule onb_blank)
  assume z: "0 \<notin> H"
  have read: "onb.holds w G F H (\<lambda>(u, _). \<forall>x. u = Some x \<longrightarrow> my_user w G x) (sget (\<lambda>s. (ob_user w s, ob_now s)))"
    by (rule onb.holds_get) (use onb_user_read in fastforce)
  have tail: "onb.safe w G F H (sbind (sget (pending_of w)) (\<lambda>pend. sbind (save_pending ((with_email w e q pend)\<lparr>pu_waitlistJoinedAt := j pend\<rparr>)) (\<lambda>p.
      sbind (issueOtpForPending P mailer p) (\<lambda>_. getStepByWallet w))))" for e q j
    by (intro onb.holds_bind [OF onb_find_pending] onb.holds_bind [OF onb_save_mine] onb.holds_bind [OF onb_issue] onb_reads)
      (use z my_with_email in \<open>auto simp: my_pending_def\<close>)
  show "onb.safe w G F H (joinWaitlist P mailer a address pf)"
    unfolding joinWaitlist_def Let_def
    apply (rule onb_with_wallet [OF a], rule onb_seq [OF onb_reads(2)], rule onb.holds_bind [OF read], clarify)
    by (intro onb_seq [OF onb.holds_option] tail onb_basic onb_seq [OF onb_basic(2)] onb_seq [OF onb_profile]) auto
qed

lemma onb_verifyOtp:
  assumes a: "normalizeWallet a = Inr w"
  shows "onb.safe w G F H (verifyOtp P a code work pf)"
proof -
  have none: "onb.safe w G F H (otp_without_pending w wt q)" for wt q
    unfolding otp_without_pending_def
    by (intro onb.holds_bind [OF onb_find_user] onb.holds_option onb.holds_throw onb_seq [OF onb_profile] onb_reads) auto
  have sync: "onb.safe w G F H (sync_existing u p e wt q)" if "my_user w G u" "my_pending w H p" for u p e wt q
    unfolding sync_existing_def using that
    by (intro onb_transaction onb_seq [OF onb_profile] onb_delete_pending) (auto simp: my_pending_def)
  have create: "onb.safe w G F H (create_user p e wt q)" if p: "my_pending w H p" for p e wt q
  proof -
    have "walletAddress (registered p e wt q early t) = w" for early t
      using p by (simp add: registered_def new_user_def my_pending_def)
    moreover have "pu_id p \<notin> H" using p by (simp add: my_pending_def)
    ultimately have "onb.safe w G F H (ob_transaction (sbind (insert_user (registered p e wt q early t)) (\<lambda>u.
        sbind (delete_pending (pu_id p)) (\<lambda>_. sret u))))" for early t
      by (intro onb_transaction onb_seq [OF onb_insert_user] onb_seq [OF onb_delete_pending] onb_basic)
    then show ?thesis unfolding create_user_def Let_def
      by (intro onb_seq [OF onb_basic(2)]) (auto intro!: onb_seq onb.holds_catch onb_reads onb_basic)
  qed
  have rest: "onb.safe w G F H (sbind (check_otp P p c) (\<lambda>_. sbind (ensureEmailIsFreeForWallet e w) (\<lambda>_. sbind (sget (ob_user w)) (\<lambda>found.
      sbind (case found of Some user \<Rightarrow> sync_existing user p e wt q | None \<Rightarrow> create_user p e wt q) (\<lambda>_. getStepByWallet w)))))"
    if "my_pending w H p" for p c e wt q
    using that by (intro onb_seq [OF onb_check_otp] onb_seq [OF onb_reads(2)] onb.holds_bind [OF onb_find_user]
        onb_seq [OF onb.holds_option] sync create onb_reads) auto
  show ?thesis unfolding verifyOtp_def Let_def
    by (intro onb_with_wallet [OF a] onb.holds_if onb.holds_throw onb.holds_bind [OF onb_find_pending] none rest)
      (auto split: option.splits)
qed

lemma onb_resendOtp:
  assumes a: "normalizeWallet a = Inr w"
  shows "onb.safe w G F H (resendOtp P mailer a address)"
proof (rule onb_blank)
  assume z: "0 \<notin> H"
  have read: "onb.holds w G F H (\<lambda>(_, p). \<forall>x. p = Some x \<longrightarrow> my_pending w H x) (sget (\<lambda>s. (ob_user w s, pending_of w s)))"
    by (rule onb.holds_get) (use onb_pending_read in fastforce)
  have new: "onb.holds w G F H (\<lambda>p. \<forall>x. p = Some x \<longrightarrow> my_pending w H x)
      (if e = [] then sret pend
       else sbind (ensureEmailIsFreeForWallet e w) (\<lambda>_. sbind (save_pending (case pend of None \<Rightarrow> (blank_pending w)\<lparr>pu_email := Some e\<rparr>
         | Some p \<Rightarrow> p\<lparr>pu_email := Some e\<rparr>)) (\<lambda>p. sret (Some p))))"
    if "\<forall>x. pend = Some x \<longrightarrow> my_pending w H x" for e pend
    using that z by (intro onb.holds_if onb_seq [OF onb_reads(2)] onb.holds_bind [OF onb_save_mine] onb.holds_ret)
      (auto simp: my_pending_def blank_pending_def split: option.split)
  show "onb.safe w G F H (resendOtp P mailer a address)"
    unfolding resendOtp_def Let_def
    apply (rule onb_with_wallet [OF a], rule onb.holds_bind [OF read], clarify)
    by (intro onb.holds_if onb.holds_throw onb_seq [OF onb_reads(1)] onb_basic onb.holds_bind [OF new] onb.holds_bind [OF onb_issue])
      (auto split: option.splits)
qed

lemma onb_profiles:
  shows "normalizeWallet (lp_walletAddress payload) = Inr w \<Longrightarrow> onb.safe w G F H (upsertLemonProfile payload)"
    and "normalizeWallet a = Inr w \<Longrightarrow> onb.safe w G F H (updateWorkType a wt)"
proof -
  assume a: "normalizeWallet (lp_walletAddress payload) = Inr w"
  have read: "onb.holds w G F H (\<lambda>(u, _). \<forall>x. u = Some x \<longrightarrow> my_user w G x) (sget (\<lambda>s. (ob_user w s, ob_now s)))"
    by (rule onb.holds_get) (use onb_user_read in fastforce)
  show "onb.safe w G F H (upsertLemonProfile payload)"
    unfolding upsertLemonProfile_def
    apply (rule onb_with_wallet [OF a], rule onb.holds_bind [OF read], clarify)
    by (intro onb.holds_option onb.holds_throw onb_seq [OF onb_profile] onb_basic) (auto simp: with_claims_keys)
next
  assume a: "normalizeWallet a = Inr w"
  show "onb.safe w G F H (updateWorkType a wt)"
    unfolding updateWorkType_def
    by (rule onb.holds_bind [OF onb_on_world [OF own_findUser [OF a]]]) (rule onb_profile, auto)
qed

end
