(* ===== verification/Http_Api.thy ===== *)
theory Http_Api
  imports Ownership Auth_Sessions
begin

text \<open>
  The routes of the backend (\<open>infrastructure/http/loan.controller.ts\<close>, \<open>kyc.controller.ts\<close> and
  \<open>user.controller.ts\<close>) over the services, behind the token guard, and what a request can
  change. Requests are taken as validated by their DTO; the throttling of the framework is
  left out.
\<close>

section \<open>The server\<close>

text \<open>
  The state of the backend: that of the authentication service, and the tables and services
  around them. What is configured at start-up is \<open>server_config\<close>: the environment, the
  gateway, the KYC vendor, the messaging and mail clients, and the rows of the Self
  verification. \<open>sandbox\<close> is the \<open>resolve\<close> of the fake KYC vendor, present when the vendor is
  that one.
\<close>

record ('x, 'k, 'c) server =
  srv_auth :: "('x, 'k) auth"
  srv_onb :: "'c onboard"

record 'c server_config =
  cfg_env :: env
  cfg_gateway :: "'c BlockchainGatewayPort"
  cfg_kyc :: "'c KycProviderPort"
  cfg_sandbox :: "(string \<Rightarrow> KycDecision \<Rightarrow> 'c \<Rightarrow> 'c) option"
  cfg_kapso :: "'c KapsoClient option"
  cfg_mailer :: "'c mailer option"
  cfg_ports :: LinkPorts
  cfg_selfRows :: "(nat \<times> bool) list"

type_synonym ('x, 'k, 'c, 'a) route = "(('x, 'k, 'c) server, 'a) svc"

definition on_auth :: "('x, 'k, 'a) auth_svc \<Rightarrow> ('x, 'k, 'c, 'a) route" where
  "on_auth m s = (case m (srv_auth s) of (r, a) \<Rightarrow> (r, s\<lparr>srv_auth := a\<rparr>))"

definition on_onb :: "('c, 'a) onb_svc \<Rightarrow> ('x, 'k, 'c, 'a) route" where
  "on_onb m s = (case m (srv_onb s) of (r, a) \<Rightarrow> (r, s\<lparr>srv_onb := a\<rparr>))"

definition on_tables :: "('c world, 'a) svc \<Rightarrow> ('x, 'k, 'c, 'a) route" where
  "on_tables m = on_onb (on_world m)"

text \<open>
  A route behind \<open>AccessTokenGuard\<close>, which gets the wallet of the token (\<open>CallerWallet\<close>), and
  one that first compares it with the wallet of the request.
\<close>

definition guarded :: "'k CacheStore \<Rightarrow> string option \<Rightarrow> (string \<Rightarrow> ('x, 'k, 'c, 'a) route) \<Rightarrow> ('x, 'k, 'c, 'a) route" where
  "guarded C header f = sbind (on_auth (AccessTokenGuard C header)) f"

definition owned :: "'k CacheStore \<Rightarrow> string option \<Rightarrow> string \<Rightarrow> ('x, 'k, 'c, 'a) route \<Rightarrow> ('x, 'k, 'c, 'a) route" where
  "owned C header addr m = guarded C header (\<lambda>caller. sbind (slift (assertWalletOwnership caller addr)) (\<lambda>_. m))"

section \<open>Loans\<close>

definition LoanController_getLadder :: "'k CacheStore \<Rightarrow> string option \<Rightarrow> ('x, 'k, 'c, CreditTier list) route" where
  "LoanController_getLadder C header = guarded C header (\<lambda>_. sret getLadder)"

definition LoanController_getHistory :: "'k CacheStore \<Rightarrow> string option \<Rightarrow> ('x, 'k, 'c, HistoryRow list) route" where
  "LoanController_getHistory C header = guarded C header (\<lambda>caller. on_tables (sget (getHistory caller)))"

definition LoanController_verify :: "'c server_config \<Rightarrow> 'k CacheStore \<Rightarrow> string option \<Rightarrow> VerifyUserDto \<Rightarrow> ('x, 'k, 'c, VerifyResult) route" where
  "LoanController_verify D C header dto =
     owned C header (vu_walletAddress dto) (on_tables (verify (cfg_env D) (cfg_gateway D) (cfg_selfRows D) dto))"

definition LoanController_borrow :: "'c server_config \<Rightarrow> 'k CacheStore \<Rightarrow> string option \<Rightarrow> BorrowLoanDto \<Rightarrow> ('x, 'k, 'c, LoanOffer) route" where
  "LoanController_borrow D C header dto = owned C header (bo_receiver dto) (on_tables (borrow (cfg_env D) (cfg_gateway D) dto))"

definition LoanController_informLoanOpen :: "'c server_config \<Rightarrow> 'k CacheStore \<Rightarrow> string option \<Rightarrow> InformLoanDto \<Rightarrow> ('x, 'k, 'c, nat) route" where
  "LoanController_informLoanOpen D C header dto =
     owned C header (il_walletAddress dto) (on_tables (informLoanOpened (cfg_env D) (cfg_gateway D) dto))"

definition LoanController_informRepayment :: "'c server_config \<Rightarrow> 'k CacheStore \<Rightarrow> string option \<Rightarrow> InformRepaymentDto \<Rightarrow> ('x, 'k, 'c, repayment_outcome) route" where
  "LoanController_informRepayment D C header dto =
     owned C header (ir_walletAddress dto) (on_tables (processRepayment (cfg_env D) (cfg_gateway D) dto))"

text \<open>The reply of the preflight: the payload with its amounts in units as text.\<close>

record PreflightReply =
  pr_principal :: string
  pr_storedAmountDueBefore :: string
  pr_accruedAmountDue :: string
  pr_ratePerSecWad :: string
  pr_rest :: PreflightPayload

definition preflight_reply :: "PreflightPayload \<Rightarrow> PreflightReply" where
  "preflight_reply p = \<lparr>pr_principal = int_str (pf_principal p), pr_storedAmountDueBefore = int_str (storedAmountDueBefore p),
     pr_accruedAmountDue = int_str (accruedAmountDue p), pr_ratePerSecWad = int_str (pf_ratePerSecWad p), pr_rest = p\<rparr>"

definition LoanController_repayPreflight :: "'c server_config \<Rightarrow> 'k CacheStore \<Rightarrow> string option \<Rightarrow> string \<Rightarrow> string option \<Rightarrow> ('x, 'k, 'c, PreflightReply) route" where
  "LoanController_repayPreflight D C header addr forceQuery =
     owned C header addr (
       let force = (forceQuery = Some ''true'' \<or> forceQuery = Some ''1'')
       in sbind (on_tables (preflightRepayment (cfg_env D) (cfg_gateway D) addr force)) (\<lambda>p. sret (preflight_reply p)))"

definition LoanController_getLoanTerms :: "'c server_config \<Rightarrow> 'k CacheStore \<Rightarrow> string option \<Rightarrow> string \<Rightarrow> string \<Rightarrow> ('x, 'k, 'c, LoanTerms) route" where
  "LoanController_getLoanTerms D C header addr amountHuman =
     owned C header addr (on_tables (getLoanTerms (cfg_env D) addr amountHuman))"

section \<open>KYC\<close>

definition KycController_start :: "'c server_config \<Rightarrow> 'k CacheStore \<Rightarrow> string option \<Rightarrow> ('x, 'k, 'c, KycStart) route" where
  "KycController_start D C header = guarded C header (\<lambda>caller. on_tables (kyc_start (cfg_kyc D) caller))"

definition KycController_status :: "'c server_config \<Rightarrow> 'k CacheStore \<Rightarrow> string option \<Rightarrow> ('x, 'k, 'c, string \<times> bool) route" where
  "KycController_status D C header =
     guarded C header (\<lambda>caller.
     sbind (on_tables (kyc_status (cfg_kyc D) caller)) (\<lambda>status. sret (status, kycGateEnabled (cfg_env D))))"

definition KycController_sandboxDecision :: "'c server_config \<Rightarrow> 'k CacheStore \<Rightarrow> string option \<Rightarrow> string \<Rightarrow> KycDecision \<Rightarrow> ('x, 'k, 'c, unit) route" where
  "KycController_sandboxDecision D C header sid decision =
     guarded C header (\<lambda>_.
     case cfg_sandbox D of
       None \<Rightarrow> sthrow (Forbidden ''sandbox decisions only exist for the fake provider'')
     | Some resolve \<Rightarrow> on_tables (smod (\<lambda>s. s\<lparr>chain := resolve sid decision (chain s)\<rparr>)))"

section \<open>Users\<close>

definition UserController_getByWallet :: "'k CacheStore \<Rightarrow> string option \<Rightarrow> string \<Rightarrow> ('x, 'k, 'c, StepView) route" where
  "UserController_getByWallet C header addr =
     guarded C header (\<lambda>caller.
     sbind (if caller \<noteq> [] then slift (assertWalletOwnership caller addr) else sret ()) (\<lambda>_.
     on_onb (getStepByWallet addr)))"

definition UserController_acceptTerms :: "'k CacheStore \<Rightarrow> string option \<Rightarrow> string \<Rightarrow> string option \<Rightarrow> ('x, 'k, 'c, StepView) route" where
  "UserController_acceptTerms C header addr pf = owned C header addr (on_onb (acceptTerms addr pf))"

definition UserController_joinWaitlist :: "'c server_config \<Rightarrow> 'k CacheStore \<Rightarrow> string option \<Rightarrow> string \<Rightarrow> string \<Rightarrow> string option \<Rightarrow> ('x, 'k, 'c, StepView) route" where
  "UserController_joinWaitlist D C header addr address pf =
     owned C header addr (on_onb (joinWaitlist (cfg_ports D) (cfg_mailer D) addr address pf))"

definition UserController_verifyEmail :: "'c server_config \<Rightarrow> 'k CacheStore \<Rightarrow> string option \<Rightarrow> string \<Rightarrow> string \<Rightarrow> string option \<Rightarrow> ('x, 'k, 'c, StepView) route" where
  "UserController_verifyEmail D C header addr address pf =
     owned C header addr (on_onb (verifyEmail (cfg_ports D) (cfg_mailer D) addr address pf))"

definition UserController_verifyOtp :: "'c server_config \<Rightarrow> 'k CacheStore \<Rightarrow> string option \<Rightarrow> string \<Rightarrow> string option \<Rightarrow> string option \<Rightarrow> string option \<Rightarrow> ('x, 'k, 'c, StepView) route" where
  "UserController_verifyOtp D C header addr code work pf =
     owned C header addr (on_onb (verifyOtp (cfg_ports D) addr code work pf))"

definition UserController_resendOtp :: "'c server_config \<Rightarrow> 'k CacheStore \<Rightarrow> string option \<Rightarrow> string \<Rightarrow> string option \<Rightarrow> ('x, 'k, 'c, resend_reply) route" where
  "UserController_resendOtp D C header addr address =
     owned C header addr (on_onb (resendOtp (cfg_ports D) (cfg_mailer D) addr address))"

text \<open>The phone routes; \<open>random\<close> is the value of \<open>Math.random\<close> that the code is made from.\<close>

definition UserController_verifyPhone :: "'c server_config \<Rightarrow> 'k CacheStore \<Rightarrow> string option \<Rightarrow> rat \<Rightarrow> string \<Rightarrow> string \<Rightarrow> ('x, 'k, 'c, unit) route" where
  "UserController_verifyPhone D C header random addr number =
     owned C header addr (on_tables (verifyPhone (cfg_kapso D) random addr number))"

definition UserController_verifyPhoneOtp :: "'k CacheStore \<Rightarrow> string option \<Rightarrow> string \<Rightarrow> string \<Rightarrow> string \<Rightarrow> ('x, 'k, 'c, unit) route" where
  "UserController_verifyPhoneOtp C header addr number code =
     owned C header addr (on_tables (verifyPhoneOtp addr number code))"

definition UserController_resendPhoneOtp :: "'c server_config \<Rightarrow> 'k CacheStore \<Rightarrow> string option \<Rightarrow> rat \<Rightarrow> string \<Rightarrow> string \<Rightarrow> ('x, 'k, 'c, unit) route" where
  "UserController_resendPhoneOtp D C header random addr number =
     owned C header addr (on_tables (resendPhoneOtp (cfg_kapso D) random addr number))"

definition UserController_updatePhone :: "'c server_config \<Rightarrow> 'k CacheStore \<Rightarrow> string option \<Rightarrow> rat \<Rightarrow> string \<Rightarrow> string \<Rightarrow> ('x, 'k, 'c, unit) route" where
  "UserController_updatePhone D C header random addr number =
     owned C header addr (on_tables (updatePhone (cfg_kapso D) random addr number))"

definition UserController_lemonProfile :: "'k CacheStore \<Rightarrow> string option \<Rightarrow> LemonPayload \<Rightarrow> ('x, 'k, 'c, bool \<times> int option) route" where
  "UserController_lemonProfile C header payload =
     owned C header (lp_walletAddress payload) (on_onb (upsertLemonProfile payload))"

text \<open>One request with the given \<open>Authorization\<close> header, to any of the routes.\<close>

inductive request :: "'c server_config \<Rightarrow> 'k CacheStore \<Rightarrow> string option \<Rightarrow> ('x, 'k, 'c) server \<Rightarrow> ('x, 'k, 'c) server \<Rightarrow> bool"
  for D :: "'c server_config" and C :: "'k CacheStore" and header :: "string option" where
  "LoanController_getLadder C header s = (r1, t) \<Longrightarrow> request D C header s t"
| "LoanController_getHistory C header s = (r2, t) \<Longrightarrow> request D C header s t"
| "LoanController_verify D C header vdto s = (r3, t) \<Longrightarrow> request D C header s t"
| "LoanController_borrow D C header bdto s = (r4, t) \<Longrightarrow> request D C header s t"
| "LoanController_informLoanOpen D C header odto s = (r5, t) \<Longrightarrow> request D C header s t"
| "LoanController_informRepayment D C header rdto s = (r6, t) \<Longrightarrow> request D C header s t"
| "LoanController_repayPreflight D C header addr q s = (r7, t) \<Longrightarrow> request D C header s t"
| "LoanController_getLoanTerms D C header addr amount s = (r8, t) \<Longrightarrow> request D C header s t"
| "KycController_start D C header s = (r9, t) \<Longrightarrow> request D C header s t"
| "KycController_status D C header s = (r10, t) \<Longrightarrow> request D C header s t"
| "KycController_sandboxDecision D C header sid decision s = (r11, t) \<Longrightarrow> request D C header s t"
| "UserController_getByWallet C header addr s = (r12, t) \<Longrightarrow> request D C header s t"
| "UserController_acceptTerms C header addr pf s = (r12, t) \<Longrightarrow> request D C header s t"
| "UserController_joinWaitlist D C header addr address pf s = (r12, t) \<Longrightarrow> request D C header s t"
| "UserController_verifyEmail D C header addr address pf s = (r12, t) \<Longrightarrow> request D C header s t"
| "UserController_verifyOtp D C header addr code work pf s = (r12, t) \<Longrightarrow> request D C header s t"
| "UserController_resendOtp D C header addr newAddress s = (r13, t) \<Longrightarrow> request D C header s t"
| "UserController_verifyPhone D C header random addr number s = (r11, t) \<Longrightarrow> request D C header s t"
| "UserController_verifyPhoneOtp C header addr number pcode s = (r11, t) \<Longrightarrow> request D C header s t"
| "UserController_resendPhoneOtp D C header random addr number s = (r11, t) \<Longrightarrow> request D C header s t"
| "UserController_updatePhone D C header random addr number s = (r11, t) \<Longrightarrow> request D C header s t"
| "UserController_lemonProfile C header payload s = (r14, t) \<Longrightarrow> request D C header s t"

section \<open>Isolation\<close>

text \<open>What belongs to other wallets: their users, the loans of those users, and their pending rows.\<close>

definition others_untouched :: "string \<Rightarrow> ('x, 'k, 'c) server \<Rightarrow> ('x, 'k, 'c) server \<Rightarrow> bool" where
  "others_untouched w s t \<longleftrightarrow>
     others_same_onb w (user_id ` set (foreign_users w (ob_world (srv_onb s)))) (srv_onb s) (srv_onb t)"

definition tables_untouched :: "('x, 'k, 'c) server \<Rightarrow> ('x, 'k, 'c) server \<Rightarrow> bool" where
  "tables_untouched s t \<longleftrightarrow> srv_onb t = srv_onb s"

text \<open>The primary keys of the tables, which the database keeps unique; serial ids start at one.\<close>

definition wf_ids :: "'c onboard \<Rightarrow> bool" where
  "wf_ids s \<longleftrightarrow> distinct (map user_id (users (ob_world s))) \<and> distinct (map loan_id (loans (ob_world s))) \<and>
     distinct (map pu_id (pending_users s)) \<and> 0 \<notin> pu_id ` set (pending_users s)"

text \<open>The wallet that a token of the header stands for, by the table of tokens.\<close>

definition token_wallet :: "string option \<Rightarrow> ('x, 'k) auth \<Rightarrow> string \<Rightarrow> bool" where
  "token_wallet header a w \<longleftrightarrow> (\<exists>v r. bearer header = Some v \<and> r \<in> set (access_tokens a) \<and> valid_row v w (auth_now a) r)"

lemma guard_token:
  assumes "tokens_ok C a" "AccessTokenGuard C header a = (Inr w, a')"
  shows "token_wallet header a w \<and> normalizeWallet w = Inr w"
proof -
  obtain v where v: "bearer header = Some v" "validateToken C v a = (Inr w, a')"
    using assms(2) by (auto simp: AccessTokenGuard_def svc_simps split: option.splits if_splits)
  have wf: "wf_tokens (access_tokens a)" using assms(1) by (simp add: tokens_ok_def)
  have "checkToken v a = Inr w" using validateToken_agrees [OF assms(1), of v] v(2) by simp
  then obtain r where r: "r \<in> set (access_tokens a)" "valid_row v w (auth_now a) r" using checkToken_iff [OF wf] by blast
  then have "normalizeWallet w = Inr w" using wf by (auto simp: wf_tokens_def valid_row_def)
  then show ?thesis using v(1) r by (auto simp: token_wallet_def)
qed

text \<open>A route whose body, called for the wallet of the token, keeps what belongs to others.\<close>

definition isolated :: "'k CacheStore \<Rightarrow> string option \<Rightarrow> ('x, 'k, 'c, 'a) route \<Rightarrow> bool" where
  "isolated C header m \<longleftrightarrow> (\<forall>s r t. tokens_ok C (srv_auth s) \<longrightarrow> wf_ids (srv_onb s) \<longrightarrow> m s = (r, t) \<longrightarrow>
     tables_untouched s t \<or> (\<exists>w. token_wallet header (srv_auth s) w \<and> others_untouched w s t))"

lemma guarded_isolated:
  fixes f :: "string \<Rightarrow> ('x, 'k, 'c, 'a) route"
  assumes "\<And>w s r t. normalizeWallet w = Inr w \<Longrightarrow> wf_ids (srv_onb s) \<Longrightarrow> f w s = (r, t) \<Longrightarrow> others_untouched w s t"
  shows "isolated C header (guarded C header f)"
  unfolding isolated_def
proof (intro allI impI)
  fix s :: "('x, 'k, 'c) server" and r t
  assume ok: "tokens_ok C (srv_auth s)" "wf_ids (srv_onb s)" and m: "guarded C header f s = (r, t)"
  obtain g a where g: "AccessTokenGuard C header (srv_auth s) = (g, a)" by fastforce
  show "tables_untouched s t \<or> (\<exists>w. token_wallet header (srv_auth s) w \<and> others_untouched w s t)"
  proof (cases g)
    case (Inl e)
    then show ?thesis using m g by (auto simp: guarded_def sbind_def on_auth_def tables_untouched_def)
  next
    case (Inr w)
    then have w: "token_wallet header (srv_auth s) w" "normalizeWallet w = Inr w" using guard_token [OF ok(1)] g by auto
    have "f w (s\<lparr>srv_auth := a\<rparr>) = (r, t)" using m g Inr by (simp add: guarded_def sbind_def on_auth_def)
    then have "others_untouched w (s\<lparr>srv_auth := a\<rparr>) t" using assms [OF w(2)] ok(2) by simp
    then show ?thesis using w(1) by (auto simp: others_untouched_def)
  qed
qed

lemma onb_untouched:
  assumes "\<And>G F H. onb.safe w G F H m" "wf_ids (srv_onb s)" "on_onb m s = (r, t)"
  shows "others_untouched w s t"
proof -
  obtain G F H where a: "apart_onb w G F H (srv_onb s)" and G: "G = user_id ` set (foreign_users w (ob_world (srv_onb s)))"
    using apart_onb_init [of "srv_onb s"] assms(2) unfolding wf_ids_def by metis
  obtain x where x: "m (srv_onb s) = (r, x)" "t = s\<lparr>srv_onb := x\<rparr>" using assms(3) by (auto simp: on_onb_def split: prod.splits)
  from onb.holds_run [OF assms(1) x(1) a] show ?thesis using x(2) G by (simp add: others_untouched_def)
qed

lemma owned_onb:
  fixes m :: "('c, 'a) onb_svc"
  assumes "\<And>w G F H. normalizeWallet addr = Inr w \<Longrightarrow> onb.safe w G F H m"
  shows "isolated C header (owned C header addr (on_onb m) :: ('x, 'k, 'c, 'a) route)"
  unfolding owned_def
proof (rule guarded_isolated)
  fix w and s :: "('x, 'k, 'c) server" and r t
  assume w: "normalizeWallet w = Inr w" "wf_ids (srv_onb s)"
    and run: "sbind (slift (assertWalletOwnership w addr)) (\<lambda>_. on_onb m) s = (r, t)"
  show "others_untouched w s t"
  proof (cases "normalizeWallet addr = Inr w")
    case True
    then have "on_onb m s = (r, t)" using run w(1) by (simp add: assertWalletOwnership_def svc_simps)
    from onb_untouched [OF assms [OF True] w(2) this] show ?thesis .
  next
    case False
    then have "t = s" using run w(1) by (cases "normalizeWallet addr") (auto simp: assertWalletOwnership_def svc_simps)
    then show ?thesis by (simp add: others_untouched_def onb.same_refl)
  qed
qed

lemma owned_tables:
  assumes "\<And>w G F. normalizeWallet addr = Inr w \<Longrightarrow> own.safe w G F m"
  shows "isolated C header (owned C header addr (on_tables m))"
  unfolding on_tables_def using assms by (intro owned_onb onb_on_world)

lemma guarded_tables:
  assumes "\<And>w G F. normalizeWallet w = Inr w \<Longrightarrow> own.safe w G F (f w)"
  shows "isolated C header (guarded C header (\<lambda>w. on_tables (f w)))"
  unfolding on_tables_def by (rule guarded_isolated) (use assms in \<open>blast intro: onb_untouched onb_on_world\<close>)

lemma on_tables_map: "sbind (on_tables m) (\<lambda>p. sret (g p)) = on_tables (sbind m (\<lambda>p. sret (g p)))"
  by (rule ext) (simp add: on_tables_def on_onb_def on_world_def sbind_def sret_def split: prod.split sum.split)

lemma isolated_tables:
  "isolated C header (LoanController_verify D C header vdto)" "isolated C header (LoanController_borrow D C header bdto)"
  "isolated C header (LoanController_informLoanOpen D C header odto)" "isolated C header (LoanController_informRepayment D C header rdto)"
  "isolated C header (LoanController_repayPreflight D C header addr q)" "isolated C header (LoanController_getLoanTerms D C header addr amount)"
  "isolated C header (UserController_verifyPhone D C header random addr number)" "isolated C header (UserController_verifyPhoneOtp C header addr number code)"
  "isolated C header (UserController_resendPhoneOtp D C header random addr number)" "isolated C header (UserController_updatePhone D C header random addr number)"
  unfolding LoanController_verify_def LoanController_borrow_def LoanController_informLoanOpen_def LoanController_informRepayment_def
    LoanController_repayPreflight_def LoanController_getLoanTerms_def UserController_verifyPhone_def UserController_verifyPhoneOtp_def
    UserController_resendPhoneOtp_def UserController_updatePhone_def Let_def on_tables_map
  by (rule owned_tables; intro own_verify own_borrow own_informLoanOpened own_repay own_step [OF own_terms(2)] own_terms(1) own_phone own_basic; assumption)+

lemma own_external: "own.safe w G F (smod (\<lambda>s. s\<lparr>chain := g (chain s)\<rparr>))"
  by (rule own_readonly) (simp add: smod_def)

lemma isolated_guarded:
  "isolated C header (LoanController_getLadder C header)" "isolated C header (LoanController_getHistory C header)"
  "isolated C header (KycController_start D C header)" "isolated C header (KycController_status D C header)"
  "isolated C header (KycController_sandboxDecision D C header sid decision)" "isolated C header (UserController_getByWallet C header addr)"
proof -
  show "isolated C header (LoanController_getLadder C header)"
    unfolding LoanController_getLadder_def by (rule guarded_isolated) (simp add: sret_def others_untouched_def onb.same_refl)
  show "isolated C header (LoanController_getHistory C header)"
    unfolding LoanController_getHistory_def by (rule guarded_tables) (rule own_basic)
  show "isolated C header (KycController_start D C header)"
    unfolding KycController_start_def by (rule guarded_tables) (rule own_kyc)
  show "isolated C header (KycController_status D C header)"
    unfolding KycController_status_def on_tables_map by (rule guarded_tables) (intro own_step [OF own_kyc(2)] own_basic)
  show "isolated C header (KycController_sandboxDecision D C header sid decision)"
  proof (cases "cfg_sandbox D")
    case None
    show ?thesis unfolding KycController_sandboxDecision_def None option.case
      by (rule guarded_isolated) (simp add: sthrow_def others_untouched_def onb.same_refl)
  next
    case (Some g)
    show ?thesis unfolding KycController_sandboxDecision_def Some option.case by (rule guarded_tables) (rule own_external)
  qed
  show "isolated C header (UserController_getByWallet C header addr)"
    unfolding UserController_getByWallet_def
    by (rule guarded_isolated) (auto simp: sbind_def slift_def sret_def on_onb_def others_untouched_def onb.same_refl
        split: if_splits sum.splits prod.splits dest: step_frame)
qed

lemma isolated_onboarding:
  "isolated C header (UserController_acceptTerms C header addr pf)" "isolated C header (UserController_joinWaitlist D C header addr address pf)"
  "isolated C header (UserController_verifyEmail D C header addr address pf)" "isolated C header (UserController_verifyOtp D C header addr otp work pf)"
  "isolated C header (UserController_resendOtp D C header addr newAddress)" "isolated C header (UserController_lemonProfile C header payload)"
  unfolding UserController_acceptTerms_def UserController_joinWaitlist_def UserController_verifyEmail_def UserController_verifyOtp_def
    UserController_resendOtp_def UserController_lemonProfile_def
  by (rule owned_onb; intro onb_acceptTerms onb_joinWaitlist onb_verifyEmail onb_verifyOtp onb_resendOtp onb_profiles(1); assumption)+

lemma isolated_run:
  "isolated C header m \<Longrightarrow> m s = (r, t) \<Longrightarrow> tokens_ok C (srv_auth s) \<Longrightarrow> wf_ids (srv_onb s) \<Longrightarrow>
     tables_untouched s t \<or> (\<exists>w. token_wallet header (srv_auth s) w \<and> others_untouched w s t)"
  by (simp add: isolated_def)

lemmas isolated_routes = isolated_guarded [THEN isolated_run] isolated_tables [THEN isolated_run] isolated_onboarding [THEN isolated_run]


text \<open>
  C38. The bound KYC vendor can be overruled by any caller. The module binds the fake vendor,
  so the sandbox route is open: with any valid token, of any wallet, a pending session is
  resolved as approved, and the next status request of its user stores the approval that the
  credit gate asks for.
\<close>

theorem kyc_self_approval:
  assumes "cfg_kyc D = FakeKycProvider uuid flag" and "cfg_sandbox D = Some fake_resolve"
    and "AccessTokenGuard C other (srv_auth s) = (Inr v, a)" and "AccessTokenGuard C header a = (Inr w, b)" and "normalizeWallet w = Inr w"
    and "user_by_wallet w (ob_world (srv_onb s)) = Some u" and "kycStatus u = ''pending''" and "kycSessionId u = Some sid" and "sid \<noteq> []"
  shows "\<exists>t x y. KycController_sandboxDecision D C other sid Kyc_approved s = (Inr (), t) \<and>
    KycController_status D C header t = (Inr (''approved'', kycGateEnabled (cfg_env D)), x) \<and>
    user_by_wallet w (ob_world (srv_onb x)) = Some y \<and> user_id y = user_id u \<and> (\<forall>env. assertKycGate env y = Inr ())"
proof -
  define f where "f = chain (ob_world (srv_onb s))"
  define t where "t = s\<lparr>srv_auth := a, srv_onb := (srv_onb s)\<lparr>ob_world := (ob_world (srv_onb s))\<lparr>chain := fake_resolve sid Kyc_approved f\<rparr>\<rparr>\<rparr>"
  have t: "KycController_sandboxDecision D C other sid Kyc_approved s = (Inr (), t)"
    using assms(2,3) by (simp add: KycController_sandboxDecision_def guarded_def sbind_def on_auth_def on_tables_def on_onb_def on_world_def
        smod_def t_def f_def)
  define g :: "User \<Rightarrow> User" where "g = (\<lambda>v. v\<lparr>kycStatus := ''approved'', kycApprovedAt := Some (now (ob_world (srv_onb s)))\<rparr>)"
  define wld where "wld = ob_world (srv_onb t)"
  have d: "fake_getDecision flag sid (chain wld) = (Inr Kyc_approved, chain wld)" "now wld = now (ob_world (srv_onb s))"
    by (simp_all add: fake_getDecision_def fake_resolve_def wld_def t_def)
  have u: "user_by_wallet w wld = Some u" using assms(6) by (simp add: wld_def t_def user_by_wallet_def)
  define x where "x = wld\<lparr>users := map (\<lambda>v. if user_id v = user_id u then store_user (g v) else v) (users wld)\<rparr>"
  have "kyc_status (cfg_kyc D) w wld = (Inr ''approved'', x)"
    using assms(1,5,7-9) u d by (simp add: kyc_status_def svc_simps FakeKycProvider_def x_def g_def)
  then have st: "KycController_status D C header t = (Inr (''approved'', kycGateEnabled (cfg_env D)), t\<lparr>srv_auth := b, srv_onb := (srv_onb t)\<lparr>ob_world := x\<rparr>\<rparr>)"
  proof -
    have "srv_auth t = a" by (simp add: t_def)
    then have "KycController_status D C header t =
        sbind (on_tables (kyc_status (cfg_kyc D) w)) (\<lambda>st. sret (st, kycGateEnabled (cfg_env D))) (t\<lparr>srv_auth := b\<rparr>)"
      using assms(4) by (simp add: KycController_status_def guarded_def sbind_def [of "on_auth _"] on_auth_def)
    with \<open>kyc_status _ _ _ = _\<close> show ?thesis
      by (simp add: sbind_def sret_def on_tables_def on_onb_def on_world_def wld_def)
  qed
  have y: "user_by_wallet w x = Some (store_user (g u))"
    unfolding x_def using u by (subst user_by_wallet_map) (auto simp: g_def)
  have "assertKycGate env (store_user (g u)) = Inr ()" for env by (simp add: assertKycGate_def g_def)
  moreover have "user_id (store_user (g u)) = user_id u" by (simp add: g_def)
  ultimately show ?thesis using t st y
    by (intro exI [of _ t] exI [of _ "t\<lparr>srv_auth := b, srv_onb := (srv_onb t)\<lparr>ob_world := x\<rparr>\<rparr>"] exI [of _ "store_user (g u)"] conjI) simp_all
qed

section \<open>Examples\<close>

text \<open>A server with one logged-in Stellar wallet, the fake vendor and a second user.\<close>

definition fake_gw :: "fake_kyc BlockchainGatewayPort" where
  "fake_gw = \<lparr>readCreditLimitOnChain = (\<lambda>w c. Inr 10000000), readNextBorrowTime = None,
     giveCreditScoreAndLimit = (\<lambda>w sc l c. (Inr 200, c)),
     createLoanOfferBackend = (\<lambda>a w t f c. (Inl (ServiceUnavailable ''offline''), c)),
     setPremiumConfig = (\<lambda>w r c. (Inr (), c)), previewLoanWithLate = (\<lambda>w c. Inr None),
     readLoanFull = (\<lambda>w c. Inr None), readLoanOnChain = (\<lambda>w c. Inr None),
     readPremium = (\<lambda>w c. Inr None), readIsDefaulted = (\<lambda>w c. Inr None),
     getChainBlockTimestamp = (\<lambda>c. Inr None), getLatestLedger = (\<lambda>c. Inr 1),
     readUserRisk = (\<lambda>w c. Inr None), getLoanOpenedEvents = (\<lambda>a b c. Inr []),
     findLoanClosedEvent = (\<lambda>w a b c. Inr None), verifyLoanOpenedByTxHash = (\<lambda>h w c. Inr True),
     accrueLate = (\<lambda>w c. (Inr (), c)), verifyRepayByTxHash = (\<lambda>h w c. Inr (Unverified NoMatch))\<rparr>"

definition demo_config :: "fake_kyc server_config" where
  "demo_config = \<lparr>cfg_env = example_env, cfg_gateway = fake_gw, cfg_kyc = FakeKycProvider nat_str None, cfg_sandbox = Some fake_resolve,
     cfg_kapso = None, cfg_mailer = None, cfg_ports = link_ports, cfg_selfRows = []\<rparr>"

definition pending_user :: User where
  "pending_user = example_user\<lparr>user_id := 3, walletAddress := auth_account, kycStatus := ''pending'', kycSessionId := Some ''fake-0''\<rparr>"

definition demo_server :: "User list \<Rightarrow> (unit, map_cache, fake_kyc) server" where
  "demo_server us = \<lparr>srv_auth = login_auth, srv_onb = onb_state us []\<rparr>"

definition demo_header :: "string option" where "demo_header = Some (''Bearer '' @ token1)"

lemma demo_bearer: "bearer demo_header = Some token1" "token1 \<noteq> []"
proof -
  have "js_trim token1 = token1" by code_simp
  then show "bearer demo_header = Some token1" by (simp add: bearer_def demo_header_def)
qed (simp add: token1_def example_ports_def hex_of_Cons)

lemma demo_guard:
  assumes "tokens_ok map_store a" "access_tokens a = access_tokens login_auth" "auth_now a = auth_now login_auth"
  obtains b where "AccessTokenGuard map_store demo_header a = (Inr auth_account, b)"
    "tokens_ok map_store b" "access_tokens b = access_tokens login_auth" "auth_now b = auth_now login_auth"
proof -
  have "checkToken token1 a = Inr auth_account"
    using checkToken_iff [of a token1 auth_account] assms by (auto simp: tokens_ok_def valid_row_def login_auth_def new_token_def nonce_auth_def)
  then obtain b where v: "validateToken map_store token1 a = (Inr auth_account, b)"
    using validateToken_agrees [OF assms(1), of token1] by (metis prod.collapse)
  have "b = a \<or> b = a\<lparr>auth_cache := auth_cache b\<rparr>"
    using validate_miss_state [OF validateToken_state [OF v]] by force
  then have b: "access_tokens b = access_tokens a" "auth_now b = auth_now a" by (metis auth.ext_inject auth.surjective auth.update_convs(3))+
  have "tokens_ok map_store b"
    by (rule tokens_ok_validate [OF map_store_contract assms(1) v])
      (use assms(2,3) in \<open>simp add: login_auth_def new_token_def nonce_auth_def empty_auth_def\<close>)
  moreover have "AccessTokenGuard map_store demo_header a = (Inr auth_account, b)"
    using v demo_bearer by (simp add: AccessTokenGuard_def)
  ultimately show ?thesis using b assms(2,3) by (intro that) simp_all
qed

lemma demo_keys: "wf_ids (srv_onb (demo_server [pending_user, mail_user]))"
  by (simp add: wf_ids_def demo_server_def onb_state_def fake_world_def mail_user_def pending_user_def example_user_def)

theorem kyc_self_approval_witness:
  "\<exists>t x y. KycController_sandboxDecision demo_config map_store demo_header ''fake-0'' Kyc_approved (demo_server [pending_user, mail_user]) = (Inr (), t) \<and>
    KycController_status demo_config map_store demo_header t = (Inr (''approved'', False), x) \<and>
    user_by_wallet auth_account (ob_world (srv_onb x)) = Some y \<and> (\<forall>env. assertKycGate env y = Inr ())"
proof -
  let ?s = "demo_server [pending_user, mail_user]"
  have a0: "srv_auth ?s = login_auth" by (simp add: demo_server_def)
  obtain a where a: "AccessTokenGuard map_store demo_header (srv_auth ?s) = (Inr auth_account, a)" "tokens_ok map_store a"
      "access_tokens a = access_tokens login_auth" "auth_now a = auth_now login_auth"
    using demo_guard [OF example_tokens_ok refl refl] unfolding a0 .
  obtain b where b: "AccessTokenGuard map_store demo_header a = (Inr auth_account, b)" using demo_guard [OF a(2-4)] .
  have u: "user_by_wallet auth_account (ob_world (srv_onb ?s)) = Some pending_user"
    by (simp add: demo_server_def onb_state_def user_by_wallet_def mail_user_def pending_user_def example_user_def)
  have "kycGateEnabled example_env = False" by code_simp
  then show ?thesis
    using kyc_self_approval [OF _ _ a(1) b auth_account_facts(1) u, of demo_config nat_str None "''fake-0''"]
    by (simp add: demo_config_def pending_user_def) blast
qed

lemma demo_terms:
  "\<exists>r t. UserController_acceptTerms map_store demo_header auth_account None (demo_server [pending_user, mail_user]) = (r, t) \<and>
     map termsAcceptedAt (users (ob_world (srv_onb t))) = [Some 0, None]"
proof -
  let ?s = "demo_server [pending_user, mail_user]" and ?o = "onb_state [pending_user, mail_user] []"
  have a0: "srv_auth ?s = login_auth" by (simp add: demo_server_def)
  obtain a where a: "AccessTokenGuard map_store demo_header (srv_auth ?s) = (Inr auth_account, a)"
    using demo_guard [OF example_tokens_ok refl refl] unfolding a0 .
  have u: "ob_user auth_account ?o = Some pending_user" "ob_now ?o = 0"
    by (simp_all add: ob_user_def ob_now_def onb_state_def user_by_wallet_def pending_user_def fake_world_def)
  have c: "\<not> index_clash (pending_user\<lparr>termsAcceptedAt := y, platform := z\<rparr>) [pending_user, mail_user]" for y z
    by (simp add: index_clash_def pending_user_def mail_user_def example_user_def)
  have t0: "termsAcceptedAt pending_user = None" "termsAcceptedAt mail_user = None" "user_id pending_user = 3" "user_id mail_user = 1"
    by (simp_all add: pending_user_def mail_user_def example_user_def)
  define f :: "User \<Rightarrow> User" where
    "f = (\<lambda>u. u\<lparr>termsAcceptedAt := Some 0, platform := or_platform (platform pending_user) (normalizePlatform None)\<rparr>)"
  define o' where "o' = ?o\<lparr>ob_world := (ob_world ?o)\<lparr>users := [store_user (f pending_user), mail_user]\<rparr>\<rparr>"
  have up: "update_profile 3 f ?o = (Inr (), o')"
    using update_profile_run [of 3 f ?o] c t0 by (simp add: pending_example(2) f_def o'_def)
  obtain r x where x: "acceptTerms auth_account None ?o = (r, x)" by fastforce
  have "acceptTerms auth_account None ?o = sbind (update_profile 3 f) (\<lambda>_. getStepByWallet auth_account) ?o"
    using u t0 auth_account_facts(1) by (simp add: acceptTerms_def svc_simps Let_def f_def)
  then have "getStepByWallet auth_account o' = (r, x)" using x up by (simp add: sbind_def)
  then have "x = o'" by (rule step_frame)
  then have "map termsAcceptedAt (users (ob_world x)) = [Some 0, None]"
    using t0 by (simp add: o'_def f_def store_user_def)
  moreover have "UserController_acceptTerms map_store demo_header auth_account None ?s = (r, ?s\<lparr>srv_auth := a, srv_onb := x\<rparr>)"
    using a x auth_account_facts(1)
    by (simp add: UserController_acceptTerms_def owned_def guarded_def sbind_def on_auth_def slift_def assertWalletOwnership_def on_onb_def)
      (simp add: demo_server_def)
  ultimately show ?thesis by simp
qed


end
