(* ===== verification/Retry_Queue.thy ===== *)
theory Retry_Queue
  imports Http_Api
begin

text \<open>
  The part of the browser that reports openings and repayments to the backend
  (\<open>frontend/src/lib/\<close>: \<open>wallet-address.ts\<close>, \<open>repaymentQueue.ts\<close>, \<open>loanOpenQueue.ts\<close>,
  \<open>retryWithBackoff.ts\<close>, \<open>auth.ts\<close>, \<open>api.ts\<close>; \<open>frontend/src/hooks/borrow/\<close>: \<open>useRepaymentRecovery.ts\<close> and
  the \<open>informBackend\<close> of \<open>useRepay.ts\<close> and \<open>useBorrow.ts\<close>): two queues in the local storage, requests
  with a token, retries with backoff, and the recovery that runs when the page opens.
\<close>

section \<open>Wallet addresses in the browser\<close>

definition STELLAR_ACCOUNT_ADDRESS_PATTERN :: "string \<Rightarrow> bool" where
  "STELLAR_ACCOUNT_ADDRESS_PATTERN w =
     (length w = 56 \<and> take 1 w = ''G'' \<and> list_all (\<lambda>c. c \<in> set BASE32_ALPHABET) (drop 1 w))"

definition normalizeWalletAddress :: "string option \<Rightarrow> string option \<Rightarrow> string option" where
  "normalizeWalletAddress address mode =
     (case address of
        None \<Rightarrow> None
      | Some a \<Rightarrow>
          (let trimmed = js_trim a in
           if trimmed = [] then None
           else if mode = Some ''stellar''
           then (if STELLAR_ACCOUNT_ADDRESS_PATTERN trimmed then Some trimmed else None)
           else if EVM_WALLET_ADDRESS_PATTERN trimmed then Some (to_lower trimmed)
           else if STELLAR_ACCOUNT_ADDRESS_PATTERN trimmed then Some trimmed
           else None))"

definition walletAddressEquals :: "string option \<Rightarrow> string option \<Rightarrow> string option \<Rightarrow> bool" where
  "walletAddressEquals a b mode =
     (let left = normalizeWalletAddress a mode; right = normalizeWalletAddress b mode
      in \<not> falsy_str left \<and> \<not> falsy_str right \<and> left = right)"

section \<open>The page\<close>

record PendingRepayment =
  rp_id :: string
  rp_walletAddress :: string
  rp_amountPaidHuman :: string
  rp_txHash :: "string option"
  rp_createdAt :: int
  rp_attempts :: int
  rp_lastAttemptAt :: "int option"

record PendingLoanOpen =
  po_id :: string
  po_walletAddress :: string
  po_amountHuman :: string
  po_tenorDays :: int
  po_txHash :: "string option"
  po_createdAt :: int
  po_attempts :: int
  po_lastAttemptAt :: "int option"

text \<open>
  The state of a page: the backend it talks to, the access token and the two queues in the local
  storage (an unreadable entry is the empty queue), the clock, and the states of the backend at
  the moment of each request sent so far.
\<close>

record 's page =
  backend :: 's
  accessToken :: "string option"
  pendingRepayments :: "PendingRepayment list"
  pendingLoanOpens :: "PendingLoanOpen list"
  date_now :: int
  sent :: "'s list"

text \<open>
  What is outside the page: whether the \<open>n\<close>-th request arrives, is lost, is refused before it
  reaches a handler (by the throttling guard or a proxy) or has its answer lost; what else
  happens at the backend before it; the time it takes; the random numbers; and whether the
  storage is full.
\<close>

datatype delivery = Arrives | Request_lost | Answer_lost | Refused http_error

record 's outside =
  network :: "nat \<Rightarrow> delivery"
  meanwhile :: "nat \<Rightarrow> 's \<Rightarrow> 's"
  latency :: "nat \<Rightarrow> int"
  mathRandom :: "nat \<Rightarrow> rat"
  storageFull :: "nat \<Rightarrow> bool"

type_synonym ('s, 'a) action = "'s page \<Rightarrow> 'a \<times> 's page"

section \<open>The queues\<close>

text \<open>\<open>findIndex\<close> and the update of the element found.\<close>

fun patch_first :: "('a \<Rightarrow> bool) \<Rightarrow> ('a \<Rightarrow> 'a) \<Rightarrow> 'a list \<Rightarrow> 'a list" where
  "patch_first P f [] = []"
| "patch_first P f (x # xs) = (if P x then f x # xs else x # patch_first P f xs)"

definition same_wallet :: "string \<Rightarrow> string \<Rightarrow> bool" where
  "same_wallet wallet owner \<longleftrightarrow>
     normalizeWalletAddress (Some owner) None = Some (nullish (normalizeWalletAddress (Some wallet) None) wallet)"

definition QUEUE_MAX_AGE_MS :: int where "QUEUE_MAX_AGE_MS = 7 * 24 * 60 * 60 * 1000"

definition writeAll :: "'s outside \<Rightarrow> PendingRepayment list \<Rightarrow> 's page \<Rightarrow> 's page" where
  "writeAll E items p = (if storageFull E (length (sent p)) then p else p\<lparr>pendingRepayments := items\<rparr>)"

definition getPendingForWallet :: "string \<Rightarrow> 's page \<Rightarrow> PendingRepayment list" where
  "getPendingForWallet wallet p = filter (\<lambda>r. same_wallet wallet (rp_walletAddress r)) (pendingRepayments p)"

text \<open>\<open>identifier\<close> is the text made from the clock and a random number.\<close>

definition addPending :: "'s outside \<Rightarrow> string \<Rightarrow> string \<Rightarrow> string \<Rightarrow> string option \<Rightarrow> ('s, PendingRepayment) action" where
  "addPending E identifier wallet amountPaidHuman txHash p =
     (let item = \<lparr>rp_id = identifier, rp_walletAddress = nullish (normalizeWalletAddress (Some wallet) None) wallet,
            rp_amountPaidHuman = amountPaidHuman, rp_txHash = txHash, rp_createdAt = date_now p, rp_attempts = 0,
            rp_lastAttemptAt = None\<rparr>
      in (item, writeAll E (pendingRepayments p @ [item]) p))"

definition removePending :: "'s outside \<Rightarrow> string \<Rightarrow> 's page \<Rightarrow> 's page" where
  "removePending E i p = writeAll E (filter (\<lambda>r. rp_id r \<noteq> i) (pendingRepayments p)) p"

definition updatePending :: "'s outside \<Rightarrow> string \<Rightarrow> (PendingRepayment \<Rightarrow> PendingRepayment) \<Rightarrow> 's page \<Rightarrow> 's page" where
  "updatePending E i patch p =
     (if list_ex (\<lambda>r. rp_id r = i) (pendingRepayments p)
      then writeAll E (patch_first (\<lambda>r. rp_id r = i) patch (pendingRepayments p)) p else p)"

definition clearStale :: "'s outside \<Rightarrow> 's page \<Rightarrow> 's page" where
  "clearStale E p = writeAll E (filter (\<lambda>r. date_now p - rp_createdAt r < QUEUE_MAX_AGE_MS) (pendingRepayments p)) p"

definition writeAllOpens :: "'s outside \<Rightarrow> PendingLoanOpen list \<Rightarrow> 's page \<Rightarrow> 's page" where
  "writeAllOpens E items p = (if storageFull E (length (sent p)) then p else p\<lparr>pendingLoanOpens := items\<rparr>)"

definition getPendingOpensForWallet :: "string \<Rightarrow> 's page \<Rightarrow> PendingLoanOpen list" where
  "getPendingOpensForWallet wallet p = filter (\<lambda>r. same_wallet wallet (po_walletAddress r)) (pendingLoanOpens p)"

definition addPendingOpen :: "'s outside \<Rightarrow> string \<Rightarrow> string \<Rightarrow> string \<Rightarrow> int \<Rightarrow> string option \<Rightarrow> ('s, PendingLoanOpen) action" where
  "addPendingOpen E identifier wallet amountHuman tenor txHash p =
     (let item = \<lparr>po_id = identifier, po_walletAddress = nullish (normalizeWalletAddress (Some wallet) None) wallet,
            po_amountHuman = amountHuman, po_tenorDays = tenor, po_txHash = txHash, po_createdAt = date_now p, po_attempts = 0,
            po_lastAttemptAt = None\<rparr>
      in (item, writeAllOpens E (pendingLoanOpens p @ [item]) p))"

definition removePendingOpen :: "'s outside \<Rightarrow> string \<Rightarrow> 's page \<Rightarrow> 's page" where
  "removePendingOpen E i p = writeAllOpens E (filter (\<lambda>r. po_id r \<noteq> i) (pendingLoanOpens p)) p"

definition updatePendingOpen :: "'s outside \<Rightarrow> string \<Rightarrow> (PendingLoanOpen \<Rightarrow> PendingLoanOpen) \<Rightarrow> 's page \<Rightarrow> 's page" where
  "updatePendingOpen E i patch p =
     (if list_ex (\<lambda>r. po_id r = i) (pendingLoanOpens p)
      then writeAllOpens E (patch_first (\<lambda>r. po_id r = i) patch (pendingLoanOpens p)) p else p)"

definition clearStaleLoanOpens :: "'s outside \<Rightarrow> 's page \<Rightarrow> 's page" where
  "clearStaleLoanOpens E p =
     writeAllOpens E (filter (\<lambda>r. date_now p - po_createdAt r < QUEUE_MAX_AGE_MS) (pendingLoanOpens p)) p"

section \<open>Requests\<close>

text \<open>The status code that the exception filter of the backend answers an error with.\<close>

definition http_status :: "http_error \<Rightarrow> int" where
  "http_status e = (case e of BadRequest _ \<Rightarrow> 400 | Unauthorized _ \<Rightarrow> 401 | Forbidden _ \<Rightarrow> 403 | NotFound _ \<Rightarrow> 404
     | Conflict _ \<Rightarrow> 409 | PreconditionRequired _ \<Rightarrow> 428 | TooManyRequests _ \<Rightarrow> 429 | ServiceUnavailable _ \<Rightarrow> 503
     | InternalError _ \<Rightarrow> 500 | RuntimeError _ \<Rightarrow> 500)"

text \<open>One request to a route of the backend. No response is a network error.\<close>

type_synonym ('s, 'a) endpoint = "string option \<Rightarrow> ('s, 'a) svc"

definition doFetch :: "'s outside \<Rightarrow> ('s, 'a) endpoint \<Rightarrow> string option \<Rightarrow> ('s, (http_error, 'a) result option) action" where
  "doFetch E endpoint token p =
     (let n = length (sent p);
          s = meanwhile E n (backend p);
          header = (if falsy_str token then None else Some (''Bearer '' @ the token));
          q = p\<lparr>backend := s, sent := sent p @ [s], date_now := date_now p + latency E n\<rparr>
      in case network E n of
           Request_lost \<Rightarrow> (None, q)
         | Refused e \<Rightarrow> (Some (Inl e), q)
         | Answer_lost \<Rightarrow> (None, q\<lparr>backend := snd (endpoint header s)\<rparr>)
         | Arrives \<Rightarrow> (Some (fst (endpoint header s)), q\<lparr>backend := snd (endpoint header s)\<rparr>))"

definition status_401 :: "(http_error, 'a) result option \<Rightarrow> bool" where
  "status_401 res = (case res of Some (Inl e) \<Rightarrow> http_status e = 401 | _ \<Rightarrow> False)"

text \<open>
  \<open>refreshAccessToken\<close> is an argument, as in the source; calls of one page run one after the
  other here, so that no two refreshes are in flight.
\<close>

definition fetchWithAuthRetry :: "'s outside \<Rightarrow> ('s, string option) action \<Rightarrow> ('s, 'a) endpoint
    \<Rightarrow> ('s, (http_error, 'a) result option \<times> bool) action" where
  "fetchWithAuthRetry E refreshAccessToken endpoint p =
     (let token = accessToken p in
      if falsy_str token then
        (let (token, p) = refreshAccessToken p in
         if falsy_str token then (let (res, p) = doFetch E endpoint None p in ((res, False), p))
         else (let (res, p) = doFetch E endpoint token p in ((res, status_401 res), p)))
      else
        (let (res, p) = doFetch E endpoint token p in
         if \<not> status_401 res then ((res, False), p)
         else
           (let (fresh, p) = refreshAccessToken p in
            if falsy_str fresh then ((res, False), p)
            else (let (res2, p) = doFetch E endpoint fresh p in ((res2, status_401 res2), p)))))"

text \<open>The errors of the client; \<open>Undefined\<close> is what \<open>retryWithBackoff\<close> throws when it may not try at all.\<close>

datatype api_error = ApiError int | AuthError | NetworkError | Undefined

definition authed :: "'s outside \<Rightarrow> ('s, string option) action \<Rightarrow> ('s, 'a) endpoint \<Rightarrow> ('s, (api_error, 'a) result) action" where
  "authed E refreshAccessToken endpoint p =
     (let ((res, authFailed), p) = fetchWithAuthRetry E refreshAccessToken endpoint p
      in (if authFailed then Inl AuthError
          else case res of None \<Rightarrow> Inl NetworkError | Some (Inl e) \<Rightarrow> Inl (ApiError (http_status e)) | Some (Inr a) \<Rightarrow> Inr a, p))"

section \<open>Retries\<close>

definition backoff_ms :: "'s outside \<Rightarrow> rat \<Rightarrow> nat \<Rightarrow> 's page \<Rightarrow> rat" where
  "backoff_ms E baseDelayMs attempt p =
     (let delay = fmul baseDelayMs (2 ^ (attempt - 1))
      in fmul delay (fadd (lit 8 1) (fmul (mathRandom E (length (sent p))) (lit 4 1))))"

function retry_from :: "'s outside \<Rightarrow> nat \<Rightarrow> rat \<Rightarrow> (api_error \<Rightarrow> bool) \<Rightarrow> ('s, (api_error, 'a) result) action \<Rightarrow> nat
    \<Rightarrow> ('s, (api_error, 'a) result) action" where
  "retry_from E maxAttempts baseDelayMs shouldRetry f attempt p =
     (if attempt \<le> maxAttempts then
        (case f p of
           (Inr a, q) \<Rightarrow> (Inr a, q)
         | (Inl err, q) \<Rightarrow>
             if attempt \<ge> maxAttempts \<or> \<not> shouldRetry err then (Inl err, q)
             else retry_from E maxAttempts baseDelayMs shouldRetry f (attempt + 1)
                    (q\<lparr>date_now := date_now q + \<lfloor>backoff_ms E baseDelayMs attempt q\<rfloor>\<rparr>))
      else (Inl Undefined, p))"
  by pat_completeness auto
termination by (relation "measure (\<lambda>(_, m, _, _, _, a, _). Suc m - a)") auto

definition retryWithBackoff :: "'s outside \<Rightarrow> nat \<Rightarrow> rat \<Rightarrow> (api_error \<Rightarrow> bool) \<Rightarrow> ('s, (api_error, 'a) result) action
    \<Rightarrow> ('s, (api_error, 'a) result) action" where
  "retryWithBackoff E maxAttempts baseDelayMs shouldRetry f = retry_from E maxAttempts baseDelayMs shouldRetry f 1"

definition isNonRetryableStatus :: "api_error \<Rightarrow> bool" where
  "isNonRetryableStatus err = (case err of ApiError n \<Rightarrow> n \<ge> 400 \<and> n < 500 | _ \<Rightarrow> False)"

declare retry_from.simps [simp del]

section \<open>The two reports\<close>

text \<open>
  The validation of a request body by its class (\<open>loan/dto/inform-repayment.dto.ts\<close>,
  \<open>inform-loan.dto.ts\<close>), which runs after the guard and before the handler.
\<close>

definition CHAIN_TX_HASH_PATTERN :: "string \<Rightarrow> bool" where
  "CHAIN_TX_HASH_PATTERN h =
     (let b = (if starts_with h ''0x'' then drop 2 h else h) in length b = 64 \<and> list_all is_hex_char b)"

definition WALLET_ADDRESS_PATTERN :: "string \<Rightarrow> bool" where
  "WALLET_ADDRESS_PATTERN w = (EVM_WALLET_ADDRESS_PATTERN w \<or> STELLAR_ACCOUNT_ADDRESS_PATTERN w)"

definition AMOUNT_PATTERN :: "string \<Rightarrow> bool" where
  "AMOUNT_PATTERN a =
     (let whole = takeWhile is_digit_char a; rest = dropWhile is_digit_char a
      in whole \<noteq> [] \<and> length whole \<le> 10 \<and>
         (rest = [] \<or> hd rest = CHR ''.'' \<and> tl rest \<noteq> [] \<and> length (tl rest) \<le> 6 \<and> list_all is_digit_char (tl rest)))"

definition valid_InformRepaymentDto :: "InformRepaymentDto \<Rightarrow> bool" where
  "valid_InformRepaymentDto dto =
     (WALLET_ADDRESS_PATTERN (ir_walletAddress dto) \<and> AMOUNT_PATTERN (ir_amountPaidHuman dto) \<and>
      (case ir_txHash dto of None \<Rightarrow> True | Some h \<Rightarrow> CHAIN_TX_HASH_PATTERN h))"

definition valid_InformLoanDto :: "InformLoanDto \<Rightarrow> bool" where
  "valid_InformLoanDto dto =
     (WALLET_ADDRESS_PATTERN (il_walletAddress dto) \<and> AMOUNT_PATTERN (il_amountHuman dto) \<and>
      il_tenorDays dto \<in> {7, 14, 21} \<and> CHAIN_TX_HASH_PATTERN (il_txHash dto))"

definition rejected :: "'k CacheStore \<Rightarrow> string option \<Rightarrow> ('x, 'k, 'c, 'a) route" where
  "rejected C header = guarded C header (\<lambda>_. sthrow (BadRequest ''Bad Request Exception''))"

definition post_inform_repayment :: "'c server_config \<Rightarrow> 'k CacheStore \<Rightarrow> InformRepaymentDto
    \<Rightarrow> (('x, 'k, 'c) server, repayment_outcome) endpoint" where
  "post_inform_repayment D C dto header =
     (if valid_InformRepaymentDto dto then LoanController_informRepayment D C header dto else rejected C header)"

text \<open>The body of \<open>inform-open\<close> may lack its hash, which the validation does not accept.\<close>

definition post_inform_open :: "'c server_config \<Rightarrow> 'k CacheStore \<Rightarrow> string \<Rightarrow> string \<Rightarrow> int \<Rightarrow> string option
    \<Rightarrow> (('x, 'k, 'c) server, nat) endpoint" where
  "post_inform_open D C wallet amountHuman tenor txHash header =
     (case txHash of
        None \<Rightarrow> rejected C header
      | Some h \<Rightarrow>
          (let dto = \<lparr>il_walletAddress = wallet, il_amountHuman = amountHuman, il_tenorDays = tenor, il_txHash = h\<rparr>
           in if valid_InformLoanDto dto then LoanController_informLoanOpen D C header dto else rejected C header))"

text \<open>What a page is built with: the backend, its cache and the refresh of the token.\<close>

record ('x, 'k, 'c) api =
  api_config :: "'c server_config"
  api_cache :: "'k CacheStore"
  api_refresh :: "(('x, 'k, 'c) server, string option) action"


definition informRepayment :: "('x, 'k, 'c) server outside \<Rightarrow> ('x, 'k, 'c) api \<Rightarrow> string \<Rightarrow> string \<Rightarrow> string option
    \<Rightarrow> (('x, 'k, 'c) server, (api_error, repayment_outcome) result) action" where
  "informRepayment E A wallet amountPaidHuman txHash =
     authed E (api_refresh A) (post_inform_repayment (api_config A) (api_cache A)
       \<lparr>ir_walletAddress = wallet, ir_amountPaidHuman = amountPaidHuman, ir_txHash = txHash\<rparr>)"

definition informOpen :: "('x, 'k, 'c) server outside \<Rightarrow> ('x, 'k, 'c) api \<Rightarrow> string \<Rightarrow> string \<Rightarrow> int \<Rightarrow> string option
    \<Rightarrow> (('x, 'k, 'c) server, (api_error, nat) result) action" where
  "informOpen E A wallet amountHuman tenor txHash =
     authed E (api_refresh A) (post_inform_open (api_config A) (api_cache A) wallet amountHuman tenor txHash)"

text \<open>\<open>useRefreshLoanStats\<close>, less the stores of the interface that take the answer.\<close>

definition refreshLoanStats :: "('x, 'k, 'c) server outside \<Rightarrow> ('x, 'k, 'c) api \<Rightarrow> string
    \<Rightarrow> ('x, 'k, 'c) server page \<Rightarrow> ('x, 'k, 'c) server page" where
  "refreshLoanStats E A wallet p =
     (if js_trim wallet = [] then p
      else snd (authed E (api_refresh A) (\<lambda>header. UserController_getByWallet (api_cache A) header (js_trim wallet)) p))"

definition retried :: "'s outside \<Rightarrow> ('s, (api_error, 'a) result) action \<Rightarrow> ('s, (api_error, 'a) result) action" where
  "retried E f = retryWithBackoff E 3 1000 (\<lambda>err. \<not> isNonRetryableStatus err) f"

text \<open>The \<open>informBackend\<close> of a repayment and of a loan, called once the transaction is signed.\<close>

definition repay_informBackend :: "('x, 'k, 'c) server outside \<Rightarrow> ('x, 'k, 'c) api \<Rightarrow> string \<Rightarrow> string \<Rightarrow> string
    \<Rightarrow> string option \<Rightarrow> (('x, 'k, 'c) server, bool) action" where
  "repay_informBackend E A identifier wallet amountPaidHuman txHash p =
     (if wallet = [] then (False, p)
      else
        (let (pending, p) = addPending E identifier wallet amountPaidHuman txHash p
         in case retried E (informRepayment E A wallet amountPaidHuman txHash) p of
              (Inr data, p) \<Rightarrow> (True, refreshLoanStats E A wallet (removePending E (rp_id pending) p))
            | (Inl e, p) \<Rightarrow>
                if e = ApiError 404 then (True, refreshLoanStats E A wallet (removePending E (rp_id pending) p))
                else (False, updatePending E (rp_id pending)
                        (\<lambda>r. r\<lparr>rp_attempts := rp_attempts pending + 1, rp_lastAttemptAt := Some (date_now p)\<rparr>) p)))"

definition borrow_informBackend :: "('x, 'k, 'c) server outside \<Rightarrow> ('x, 'k, 'c) api \<Rightarrow> string \<Rightarrow> string \<Rightarrow> string \<Rightarrow> int
    \<Rightarrow> string option \<Rightarrow> (('x, 'k, 'c) server, bool) action" where
  "borrow_informBackend E A identifier wallet amountHuman tenor txHash p =
     (if wallet = [] then (False, p)
      else
        (let (pending, p) = addPendingOpen E identifier wallet amountHuman tenor txHash p
         in case retried E (informOpen E A wallet amountHuman tenor txHash) p of
              (Inr data, p) \<Rightarrow> (True, refreshLoanStats E A wallet (removePendingOpen E (po_id pending) p))
            | (Inl e, p) \<Rightarrow>
                (False, updatePendingOpen E (po_id pending)
                   (\<lambda>r. r\<lparr>po_attempts := po_attempts pending + 1, po_lastAttemptAt := Some (date_now p)\<rparr>) p)))"

section \<open>Recovery\<close>

definition recover_repayment :: "('x, 'k, 'c) server outside \<Rightarrow> ('x, 'k, 'c) api \<Rightarrow> string \<Rightarrow> PendingRepayment
    \<Rightarrow> ('x, 'k, 'c) server page \<Rightarrow> ('x, 'k, 'c) server page" where
  "recover_repayment E A wallet entry p =
     (case retried E (informRepayment E A (rp_walletAddress entry) (rp_amountPaidHuman entry) (rp_txHash entry)) p of
        (Inr data, p) \<Rightarrow> refreshLoanStats E A wallet (removePending E (rp_id entry) p)
      | (Inl e, p) \<Rightarrow>
          if e = ApiError 404 then refreshLoanStats E A wallet (removePending E (rp_id entry) p)
          else updatePending E (rp_id entry)
                 (\<lambda>r. r\<lparr>rp_attempts := rp_attempts entry + 1, rp_lastAttemptAt := Some (date_now p)\<rparr>) p)"

definition recover_open :: "('x, 'k, 'c) server outside \<Rightarrow> ('x, 'k, 'c) api \<Rightarrow> string \<Rightarrow> PendingLoanOpen
    \<Rightarrow> ('x, 'k, 'c) server page \<Rightarrow> ('x, 'k, 'c) server page" where
  "recover_open E A wallet entry p =
     (case retried E (informOpen E A (po_walletAddress entry) (po_amountHuman entry) (po_tenorDays entry) (po_txHash entry)) p of
        (Inr data, p) \<Rightarrow> refreshLoanStats E A wallet (removePendingOpen E (po_id entry) p)
      | (Inl e, p) \<Rightarrow>
          updatePendingOpen E (po_id entry)
            (\<lambda>r. r\<lparr>po_attempts := po_attempts entry + 1, po_lastAttemptAt := Some (date_now p)\<rparr>) p)"

definition recover_repayments :: "('x, 'k, 'c) server outside \<Rightarrow> ('x, 'k, 'c) api \<Rightarrow> string
    \<Rightarrow> ('x, 'k, 'c) server page \<Rightarrow> ('x, 'k, 'c) server page" where
  "recover_repayments E A wallet p =
     (let p = clearStale E p
      in fold (recover_repayment E A wallet) (sort_key rp_createdAt (getPendingForWallet wallet p)) p)"

definition recover_opens :: "('x, 'k, 'c) server outside \<Rightarrow> ('x, 'k, 'c) api \<Rightarrow> string
    \<Rightarrow> ('x, 'k, 'c) server page \<Rightarrow> ('x, 'k, 'c) server page" where
  "recover_opens E A wallet p =
     (let p = clearStaleLoanOpens E p
      in fold (recover_open E A wallet) (sort_key po_createdAt (getPendingOpensForWallet wallet p)) p)"

text \<open>
  The effect of the hook when it runs; \<open>mode\<close>, \<open>address\<close> and \<open>primary\<close> are those of the connected
  wallet. A second run does not start before the first has ended.
\<close>

definition useRepaymentRecovery :: "('x, 'k, 'c) server outside \<Rightarrow> ('x, 'k, 'c) api \<Rightarrow> string option \<Rightarrow> string option
    \<Rightarrow> string option \<Rightarrow> ('x, 'k, 'c) server page \<Rightarrow> ('x, 'k, 'c) server page" where
  "useRepaymentRecovery E A mode address primary p =
     (let raw = (if mode = Some ''stellar'' \<or> mode = Some ''farcaster'' then primary else orelse address primary)
      in case normalizeWalletAddress raw mode of
           None \<Rightarrow> p
         | Some wallet \<Rightarrow> if wallet = [] then p else recover_opens E A wallet (recover_repayments E A wallet p))"

end
