(* ===== verification/Report_Frame.thy ===== *)
theory Report_Frame
  imports Retry_Queue Loan_Book
begin

text \<open>
  A frame for requests over an unreliable network (locale \<open>persistence\<close>, an extension of
  \<open>world_frame\<close>): what a request, its retries and a loop over a queue keep, and what an answer
  says of the backend. Its first instance are the transaction hashes that the loan table keeps.
\<close>

section \<open>What a request keeps and what its answer says\<close>

text \<open>
  \<open>le s t\<close> says that \<open>t\<close> keeps what \<open>s\<close> has recorded. The world outside and the refresh of the
  token are \<^emph>\<open>calm\<close> when they keep it, and the refresh leaves the queues alone.
\<close>

definition grows :: "('s \<Rightarrow> 's \<Rightarrow> bool) \<Rightarrow> 's page \<Rightarrow> 's page \<Rightarrow> bool" where
  "grows le p q \<longleftrightarrow> le (backend p) (backend q) \<and> set (sent p) \<subseteq> set (sent q) \<and>
     (\<forall>s \<in> set (sent q). s \<in> set (sent p) \<or> le (backend p) s)"

definition same_queues :: "'s page \<Rightarrow> 's page \<Rightarrow> bool" where
  "same_queues p q \<longleftrightarrow> pendingRepayments q = pendingRepayments p \<and> pendingLoanOpens q = pendingLoanOpens p"

definition calm :: "('s \<Rightarrow> 's \<Rightarrow> bool) \<Rightarrow> 's outside \<Rightarrow> ('s, string option) action \<Rightarrow> bool" where
  "calm le E refresh \<longleftrightarrow> (\<forall>n s. le s (meanwhile E n s)) \<and> (\<forall>p. grows le p (snd (refresh p)) \<and> same_queues p (snd (refresh p)))"

text \<open>What an answer says: the endpoint gave it in a state that was sent a request, or it was refused on the way.\<close>

definition answered :: "('s \<Rightarrow> 's \<Rightarrow> bool) \<Rightarrow> 's outside \<Rightarrow> ('s, 'a) endpoint \<Rightarrow> 's page \<Rightarrow> (http_error, 'a) result \<Rightarrow> bool" where
  "answered le E endpoint p r \<longleftrightarrow>
     (\<exists>header s t. s \<in> set (sent p) \<and> endpoint header s = (r, t) \<and> le t (backend p)) \<or>
     (\<exists>n e. network E n = Refused e \<and> r = Inl e)"

locale persistence = world_frame le for le :: "'s \<Rightarrow> 's \<Rightarrow> bool"
begin

lemmas le_refl = R_refl and le_trans = R_trans

lemma grows_refl: "grows le p p"
  by (simp add: grows_def le_refl)

lemma grows_trans: "grows le p q \<Longrightarrow> grows le q r \<Longrightarrow> grows le p r"
  unfolding grows_def using le_trans by (meson subset_trans)

lemma answered_grows: "answered le E endpoint p r \<Longrightarrow> grows le p q \<Longrightarrow> answered le E endpoint q r"
  unfolding answered_def grows_def using le_trans by blast

lemma doFetch_run:
  assumes "calm le E refresh" and mono: "\<And>header s. le s (snd (endpoint header s))" and run: "doFetch E endpoint token p = (res, q)"
  shows "grows le p q \<and> same_queues p q \<and> (\<forall>r. res = Some r \<longrightarrow> answered le E endpoint q r)"
proof -
  let ?n = "length (sent p)" and ?h = "if falsy_str token then None else Some (''Bearer '' @ the token)"
  let ?s = "meanwhile E ?n (backend p)"
  have 1: "le (backend p) ?s" using assms(1) by (simp add: calm_def)
  have 2: "le (backend p) (snd (endpoint ?h ?s))" using 1 mono le_trans by blast
  show ?thesis
  proof (cases "network E ?n")
    case Arrives
    obtain r t where e: "endpoint ?h ?s = (r, t)" by fastforce
    have q: "res = Some r" "q = p\<lparr>backend := t, sent := sent p @ [?s], date_now := date_now p + latency E ?n\<rparr>"
      using Arrives run e by (auto simp: doFetch_def Let_def)
    have "le (backend p) t" using 2 e by simp
    note 1 this
    moreover have "answered le E endpoint q (Inr a)" if "r = Inr a" for a
      using e that le_refl unfolding answered_def q(2) by (intro disjI1 exI [of _ ?h] exI [of _ ?s] exI [of _ t]) simp
    moreover have "answered le E endpoint q (Inl a)" if "r = Inl a" for a
      using e that le_refl unfolding answered_def q(2) by (intro disjI1 exI [of _ ?h] exI [of _ ?s] exI [of _ t]) simp
    ultimately show ?thesis using q by (cases r) (auto simp: grows_def same_queues_def)
  qed (use 1 2 run le_refl in \<open>auto simp: doFetch_def Let_def grows_def same_queues_def answered_def\<close>)
qed

lemma refresh_run: "calm le E refresh \<Longrightarrow> refresh p = (t, q) \<Longrightarrow> grows le p q \<and> same_queues p q"
  by (auto simp: calm_def dest: spec [of _ p])

lemma authed_run:
  assumes calm: "calm le E refresh" and mono: "\<And>header s. le s (snd (endpoint header s))"
    and run: "authed E refresh endpoint p = (r, q)"
  shows "grows le p q \<and> same_queues p q \<and> (\<forall>a. r = Inr a \<longrightarrow> answered le E endpoint q (Inr a)) \<and>
    (\<forall>n. r = Inl (ApiError n) \<longrightarrow> (\<exists>e. http_status e = n \<and> answered le E endpoint q (Inl e)))"
proof -
  obtain res failed where f: "fetchWithAuthRetry E refresh endpoint p = ((res, failed), q)"
    and r: "r = (if failed then Inl AuthError
          else case res of None \<Rightarrow> Inl NetworkError | Some (Inl e) \<Rightarrow> Inl (ApiError (http_status e)) | Some (Inr a) \<Rightarrow> Inr a)"
    using run by (auto simp: authed_def Let_def split: prod.splits)
  note ft = doFetch_run [OF calm mono] and rf = refresh_run [OF calm]
  have tq: "same_queues x y \<Longrightarrow> same_queues y z \<Longrightarrow> same_queues x z" for x y z :: "'s page" by (simp add: same_queues_def)
  have "grows le p q \<and> same_queues p q \<and> (\<forall>r. res = Some r \<longrightarrow> answered le E endpoint q r)"
  proof (cases "falsy_str (accessToken p)")
    case True
    obtain t p1 where 1: "refresh p = (t, p1)" by fastforce
    obtain t' where 2: "doFetch E endpoint t' p1 = (res, q)"
      using f True 1 by (auto simp: fetchWithAuthRetry_def Let_def split: if_splits prod.splits)
    show ?thesis using rf [OF 1] ft [OF 2] grows_trans tq by blast
  next
    case False
    obtain res1 p1 where 1: "doFetch E endpoint (accessToken p) p = (res1, p1)" by fastforce
    obtain t p2 where 2: "refresh p1 = (t, p2)" by fastforce
    obtain res2 p3 where 3: "doFetch E endpoint t p2 = (res2, p3)" by fastforce
    consider "res = res1" "q = p1" | "res = res1" "q = p2" | "res = res2" "q = p3"
      using f False 1 2 3 by (auto simp: fetchWithAuthRetry_def Let_def split: if_splits)
    moreover have g: "grows le p p1" "grows le p1 p2" "grows le p p2" "grows le p p3"
      using ft [OF 1] rf [OF 2] ft [OF 3] grows_trans by blast+
    moreover have "same_queues p p1" "same_queues p p2" "same_queues p p3"
      using ft [OF 1] rf [OF 2] ft [OF 3] tq by blast+
    moreover have "answered le E endpoint p1 x" "answered le E endpoint p2 x" if "res1 = Some x" for x
      using ft [OF 1] that answered_grows [OF _ g(2)] by blast+
    moreover have "answered le E endpoint p3 x" if "res2 = Some x" for x using ft [OF 3] that by blast
    ultimately show ?thesis by cases simp_all
  qed
  then show ?thesis using r by (auto split: option.splits sum.splits)
qed

text \<open>Retries keep what each try keeps; what they return, the last try returned.\<close>

lemma retry_from_run:
  assumes step: "\<And>p r q. f p = (r, q) \<Longrightarrow> grows le p q \<and> same_queues p q \<and> Q r q"
  shows "retry_from E m b sr f k p = (r, q) \<Longrightarrow> grows le p q \<and> same_queues p q \<and> (Q r q \<or> r = Inl Undefined)"
proof (induction "Suc m - k" arbitrary: k p)
  case 0
  then show ?case by (simp add: retry_from.simps grows_refl same_queues_def)
next
  case (Suc n)
  obtain r1 p1 where 1: "f p = (r1, p1)" by fastforce
  let ?p = "p1\<lparr>date_now := date_now p1 + \<lfloor>backoff_ms E b k p1\<rfloor>\<rparr>"
  have w: "grows le p1 ?p" "same_queues p1 ?p" by (simp_all add: grows_def same_queues_def le_refl)
  have "k \<le> m" using Suc.hyps(2) by simp
  then have eq: "retry_from E m b sr f k p = (case r1 of Inr a \<Rightarrow> (Inr a, p1)
      | Inl err \<Rightarrow> if k \<ge> m \<or> \<not> sr err then (Inl err, p1) else retry_from E m b sr f (k + 1) ?p)"
    using 1 by (simp add: retry_from.simps [of E m b sr f k p] split: sum.splits)
  consider (last) "r = r1" "q = p1" | (again) "retry_from E m b sr f (k + 1) ?p = (r, q)"
  proof (cases "\<exists>err. r1 = Inl err \<and> \<not> (k \<ge> m \<or> \<not> sr err)")
    case True
    then have "retry_from E m b sr f (k + 1) ?p = (r, q)" using Suc.prems eq by auto
    then show thesis by (rule again)
  next
    case False
    then have "(r1, p1) = (r, q)" using Suc.prems unfolding eq by (cases r1) auto
    then show thesis by (intro last) simp_all
  qed
  then show ?case
  proof cases
    case last
    then show ?thesis using step [OF 1] by blast
  next
    case again
    have "n = Suc m - (k + 1)" using Suc.hyps(2) by simp
    then have IH: "grows le ?p q" "same_queues ?p q" "Q r q \<or> r = Inl Undefined" using Suc.hyps(1) again by blast+
    have "grows le p q" using step [OF 1] w(1) IH(1) grows_trans by blast
    moreover have "same_queues p q" using step [OF 1] IH(2) by (simp add: same_queues_def)
    ultimately show ?thesis using IH(3) by blast
  qed
qed

lemma retried_run:
  assumes calm: "calm le E refresh" and mono: "\<And>header s. le s (snd (endpoint header s))"
    and run: "retried E (authed E refresh endpoint) p = (r, q)"
  shows "grows le p q" "same_queues p q" "r = Inr a \<Longrightarrow> answered le E endpoint q (Inr a)"
    "r = Inl (ApiError n) \<Longrightarrow> \<exists>e. http_status e = n \<and> answered le E endpoint q (Inl e)"
proof -
  let ?Q = "\<lambda>r q. (\<forall>a. r = Inr a \<longrightarrow> answered le E endpoint q (Inr a)) \<and>
    (\<forall>n. r = Inl (ApiError n) \<longrightarrow> (\<exists>e. http_status e = n \<and> answered le E endpoint q (Inl e)))"
  have "grows le p q \<and> same_queues p q \<and> (?Q r q \<or> r = Inl Undefined)"
    by (rule retry_from_run [OF _ run [unfolded retried_def retryWithBackoff_def], where Q = ?Q]) (rule authed_run [OF calm mono])
  then show "grows le p q" "same_queues p q" "r = Inr a \<Longrightarrow> answered le E endpoint q (Inr a)"
    "r = Inl (ApiError n) \<Longrightarrow> \<exists>e. http_status e = n \<and> answered le E endpoint q (Inl e)" by auto
qed

text \<open>
  A loop over the entries of a queue: each step touches its own entry only, and takes it out
  only when it is done; then an entry that has left the queue is done.
\<close>

lemma fold_queue:
  assumes step: "\<And>x p. x \<in> set es \<Longrightarrow> grows le p (step x p) \<and> (\<forall>k. k \<noteq> key x \<longrightarrow> k \<in> ids (step x p) \<longleftrightarrow> k \<in> ids p) \<and>
      (key x \<in> ids p \<longrightarrow> key x \<notin> ids (step x p) \<longrightarrow> finished x (step x p))"
    and keep: "\<And>x p q. finished x p \<Longrightarrow> grows le p q \<Longrightarrow> finished x q"
  shows "grows le p (fold step es p) \<and>
    (k \<in> ids p \<longrightarrow> k \<notin> ids (fold step es p) \<longrightarrow> (\<exists>x \<in> set es. key x = k \<and> finished x (fold step es p)))"
  using step
proof (induction es arbitrary: p)
  case Nil
  then show ?case by (simp add: grows_refl)
next
  case (Cons x es)
  let ?q = "step x p"
  have IH: "grows le ?q (fold step es ?q)"
    "k \<in> ids ?q \<Longrightarrow> k \<notin> ids (fold step es ?q) \<Longrightarrow> \<exists>y \<in> set es. key y = k \<and> finished y (fold step es ?q)"
    using Cons.IH [of ?q] Cons.prems by simp_all
  have x: "grows le p ?q" "k \<noteq> key x \<Longrightarrow> k \<in> ids ?q \<longleftrightarrow> k \<in> ids p"
      "key x \<in> ids p \<Longrightarrow> key x \<notin> ids ?q \<Longrightarrow> finished x ?q"
    using Cons.prems [of x p] by simp_all
  have "\<exists>y \<in> set (x # es). key y = k \<and> finished y (fold step es ?q)" if k: "k \<in> ids p" "k \<notin> ids (fold step es ?q)"
  proof (cases "k \<in> ids ?q")
    case True
    then show ?thesis using IH(2) k(2) by auto
  next
    case False
    then have "k = key x" using x(2) k(1) by blast
    then have "finished x ?q" using x(3) k(1) False by simp
    then show ?thesis using keep IH(1) \<open>k = key x\<close> by auto
  qed
  then show ?case using x(1) IH(1) grows_trans by auto
qed

end

section \<open>The record of hashes\<close>

text \<open>
  The transactions that the loan table has recorded as opening and as closing a loan. A table
  whose ids are unique keeps them when no row loses or changes a hash.
\<close>

definition open_hashes :: "'c world \<Rightarrow> string set" where
  "open_hashes w = {h. \<exists>l \<in> set (loans w). openTxHash l = Some h}"

definition close_hashes :: "'c world \<Rightarrow> string set" where
  "close_hashes w = {h. \<exists>l \<in> set (loans w). closeTxHash l = Some h}"

definition hashes_kept :: "'c world \<Rightarrow> 'c world \<Rightarrow> bool" where
  "hashes_kept w v \<longleftrightarrow> (distinct (map loan_id (loans w)) \<longrightarrow>
     distinct (map loan_id (loans v)) \<and> open_hashes w \<subseteq> open_hashes v \<and> close_hashes w \<subseteq> close_hashes v)"

definition tables_of :: "('x, 'k, 'c) server \<Rightarrow> 'c world" where
  "tables_of s = ob_world (srv_onb s)"

definition keeps_hashes :: "('x, 'k, 'c) server \<Rightarrow> ('x, 'k, 'c) server \<Rightarrow> bool" where
  "keeps_hashes s t \<longleftrightarrow> hashes_kept (tables_of s) (tables_of t)"

interpretation hashes: persistence keeps_hashes
  by unfold_locales (auto simp: keeps_hashes_def hashes_kept_def)

lemma hashes_kept_same: "loans v = loans w \<Longrightarrow> hashes_kept w v"
  by (simp add: hashes_kept_def open_hashes_def close_hashes_def)

lemma rows_kept:
  assumes ids: "distinct (map loan_id rows)" and v: "loans v = rows @ extra" "map loan_id rows = map loan_id (loans w)"
    and "distinct (map loan_id (loans v))"
    and row: "\<And>r. r \<in> set rows \<Longrightarrow> \<exists>k \<in> set (loans w). loan_id r = loan_id k \<and> openTxHash r = openTxHash k \<and>
      (closeTxHash k = None \<or> closeTxHash r = closeTxHash k)"
  shows "hashes_kept w v"
proof -
  have "\<exists>r \<in> set rows. openTxHash r = openTxHash k \<and> (closeTxHash k = None \<or> closeTxHash r = closeTxHash k)"
    if k: "k \<in> set (loans w)" for k
  proof -
    have "loan_id k \<in> set (map loan_id rows)" using k v(2) by auto
    then obtain r where r: "r \<in> set rows" "loan_id r = loan_id k" by auto
    then obtain k' where k': "k' \<in> set (loans w)" "loan_id r = loan_id k'" "openTxHash r = openTxHash k'"
      "closeTxHash k' = None \<or> closeTxHash r = closeTxHash k'" using row by blast
    have "distinct (map loan_id (loans w))" using ids v(2) by simp
    then have "k' = k" using k k' r(2) by (auto simp: distinct_map dest: inj_onD)
    then show ?thesis using r(1) k' by blast
  qed
  then show ?thesis
    using v(1) assms(4) by (fastforce simp: hashes_kept_def open_hashes_def close_hashes_def)
qed

lemma processRepayment_hashes:
  assumes "processRepayment env gw dto w = (r, v)"
  shows "hashes_kept w v"
proof (cases "v = w \<or> \<not> distinct (map loan_id (loans w))")
  case False
  then obtain x wallet user cp loan paid where "repaid_by env gw dto w x v wallet user cp loan paid"
    using processRepayment_same_or_repaid [OF assms] by blast
  then have l: "loan \<in> set (loans w)" "closeTxHash loan = None"
    and v: "loans v = put_row loan_id (store_loan (closed_loan loan paid (now w) (ir_txHash dto))) (loans w)"
    using newest_Some by (fastforce simp: repaid_by_def payable_def)+
  show ?thesis
  proof (rule rows_kept [where rows = "loans v" and extra = "[]"])
    fix r assume "r \<in> set (loans v)"
    then show "\<exists>k \<in> set (loans w). loan_id r = loan_id k \<and> openTxHash r = openTxHash k \<and>
        (closeTxHash k = None \<or> closeTxHash r = closeTxHash k)"
      using l unfolding v set_put_row by (auto split: if_splits)
  qed (use False v in simp_all)
qed (auto simp: hashes_kept_def)

lemma informLoanOpened_hashes:
  assumes "informLoanOpened env gw dto w = (r, v)"
  shows "hashes_kept w v"
proof (cases "v = w \<or> \<not> distinct (map loan_id (loans w))")
  case False
  then obtain user l0 new where op: "opened user l0 (il_txHash dto) w new v"
    using informLoanOpened_run [OF assms] by (auto simp: recorded_def)
  from op obtain rows where rows: "loans v = rows @ [store_loan new]" "map loan_id rows = map loan_id (loans w)"
    "\<forall>l \<in> set rows. l \<in> set (loans w) \<or> (\<exists>k \<in> set (loans w). orphan (user_id user) k \<and> l = store_loan (close_orphan (now w) k))"
    unfolding opened_def by blast
  have "loan_id new \<notin> loan_id ` set (loans w)"
    using op fresh_id_notin [of loan_id "loans w"] by (auto simp: opened_def)
  moreover have "set (map loan_id rows) = loan_id ` set (loans w)" using rows(2) by (metis set_map)
  ultimately have d: "distinct (map loan_id (loans v))" using False rows(1,2) by simp
  show ?thesis
  proof (rule rows_kept [OF _ rows(1,2) d])
    fix r assume "r \<in> set rows"
    then show "\<exists>k \<in> set (loans w). loan_id r = loan_id k \<and> openTxHash r = openTxHash k \<and>
        (closeTxHash k = None \<or> closeTxHash r = closeTxHash k)"
      using rows(3) by (auto simp: orphan_def) force
  qed (use False rows(2) in simp)
qed (auto simp: hashes_kept_def)

text \<open>Any run of the handlers of loans keeps the hashes.\<close>

lemma loan_steps_hashes: "(loan_step env gw)\<^sup>*\<^sup>* w v \<Longrightarrow> hashes_kept w v"
proof (induction rule: rtranclp_induct)
  case base
  then show ?case by (simp add: hashes_kept_def)
next
  case (step v u)
  have "hashes_kept v u" using step.hyps(2)
  proof (cases rule: loan_step.cases)
    case (step_borrow dto r)
    then have "loans u = loans v" using tables.keeps_run [OF borrow_tables] by (force simp: same_tables_def)
    then show ?thesis by (rule hashes_kept_same)
  qed (auto intro: processRepayment_hashes informLoanOpened_hashes hashes_kept_same)
  then show ?case using step.IH by (auto simp: hashes_kept_def)
qed

section \<open>The endpoints of the page\<close>

text \<open>A route behind the guard either stops with the tables as they were, or runs its body.\<close>

lemma guard_error: "AccessTokenGuard C header a = (Inl e, b) \<Longrightarrow> \<exists>m. e = Unauthorized m"
  by (auto simp: AccessTokenGuard_def validateToken_def validate_miss_def svc_simps Let_def cached_def cache_put_def sbind_mod
      split: option.splits if_splits sum.splits prod.splits cache_value.splits)

definition refused :: "('x, 'k, 'c) server \<Rightarrow> (http_error, 'a) result \<Rightarrow> ('x, 'k, 'c) server \<Rightarrow> bool" where
  "refused s r t \<longleftrightarrow> tables_of t = tables_of s \<and> (\<exists>e. r = Inl e \<and> (\<forall>m. e \<noteq> NotFound m))"

lemma guarded_run:
  assumes "guarded C header f s = (r, t)"
  shows "refused s r t \<or> (\<exists>a caller. f caller (s\<lparr>srv_auth := a\<rparr>) = (r, t))"
proof -
  obtain g a where g: "AccessTokenGuard C header (srv_auth s) = (g, a)" by fastforce
  show ?thesis using assms g guard_error [of C header "srv_auth s" _ a]
    by (cases g) (auto simp: guarded_def sbind_def on_auth_def refused_def tables_of_def)
qed

lemma ownership_error: "assertWalletOwnership a b = Inl e \<Longrightarrow> \<forall>m. e \<noteq> NotFound m"
  by (auto simp: assertWalletOwnership_def rbind_def normalizeWallet_def Let_def split: sum.splits if_splits)

lemma owned_run:
  fixes s :: "('x, 'k, 'c) server"
  assumes "owned C header addr (on_tables m) s = (r, t)"
  shows "refused s r t \<or> m (tables_of s) = (r, tables_of t)"
proof -
  let ?f = "\<lambda>caller. sbind (slift (assertWalletOwnership caller addr)) (\<lambda>_. on_tables m) :: ('x, 'k, 'c, 'a) route"
  have "refused s r t \<or> (\<exists>a caller. ?f caller (s\<lparr>srv_auth := a\<rparr>) = (r, t))"
    using guarded_run [of C header ?f s r t] assms by (simp add: owned_def)
  moreover have "refused s r t \<or> m (tables_of s) = (r, tables_of t)" if f: "?f caller (s\<lparr>srv_auth := a\<rparr>) = (r, t)" for a caller
  proof (cases "assertWalletOwnership caller addr")
    case (Inl e)
    then show ?thesis using f ownership_error [OF Inl] by (auto simp: svc_simps refused_def tables_of_def)
  next
    case (Inr u)
    then show ?thesis using f
      by (auto simp: svc_simps on_tables_def on_onb_def on_world_def tables_of_def split: prod.splits)
  qed
  ultimately show ?thesis by blast
qed

lemma rejected_run: "rejected C header s = (r, t) \<Longrightarrow> refused s r t"
  unfolding rejected_def by (drule guarded_run) (auto simp: svc_simps refused_def tables_of_def)

lemma post_inform_repayment_run:
  assumes "post_inform_repayment D C dto header s = (r, t)"
  shows "refused s r t \<or> processRepayment (cfg_env D) (cfg_gateway D) dto (tables_of s) = (r, tables_of t)"
  using assms rejected_run [of C header s r t] owned_run [of C header "ir_walletAddress dto" _ s r t]
  by (auto simp: post_inform_repayment_def LoanController_informRepayment_def split: if_splits)

lemma post_inform_open_run:
  assumes "post_inform_open D C wallet amount tenor txHash header s = (r, t)"
  shows "refused s r t \<or> (\<exists>h. txHash = Some h \<and> informLoanOpened (cfg_env D) (cfg_gateway D)
    \<lparr>il_walletAddress = wallet, il_amountHuman = amount, il_tenorDays = tenor, il_txHash = h\<rparr> (tables_of s) = (r, tables_of t))"
  using assms rejected_run [of C header s r t] owned_run [of C header wallet _ s r t]
  by (auto simp: post_inform_open_def LoanController_informLoanOpen_def Let_def split: if_splits option.splits)

lemma getByWallet_run:
  assumes "UserController_getByWallet C header addr s = (r, t)"
  shows "tables_of t = tables_of s"
proof -
  have "tables_of t = tables_of s"
    if "sbind (if caller \<noteq> [] then slift (assertWalletOwnership caller addr) else sret ()) (\<lambda>_. on_onb (getStepByWallet addr))
      (s\<lparr>srv_auth := a\<rparr>) = (r, t)" for a caller
    using that step_frame [of addr "srv_onb s"]
    by (auto simp: svc_simps on_onb_def tables_of_def split: if_splits sum.splits prod.splits)
  then show ?thesis
    using guarded_run [OF assms [unfolded UserController_getByWallet_def]] unfolding refused_def by blast
qed

lemma endpoints_keep:
  "keeps_hashes s (snd (post_inform_repayment D C dto header s))"
  "keeps_hashes s (snd (post_inform_open D C wallet amount tenor txHash header s))"
  "keeps_hashes s (snd (UserController_getByWallet C header addr s))"
  using post_inform_repayment_run [OF prod.collapse [symmetric]] post_inform_open_run [OF prod.collapse [symmetric]]
    getByWallet_run [OF prod.collapse [symmetric]]
  unfolding keeps_hashes_def refused_def by (metis processRepayment_hashes informLoanOpened_hashes hashes_kept_same)+

text \<open>When a repayment is answered with 404, and what a success says.\<close>

definition nothing_to_repay :: "string \<Rightarrow> 'c world \<Rightarrow> bool" where
  "nothing_to_repay addr w \<longleftrightarrow> (\<exists>wallet. normalizeWallet addr = Inr wallet \<and>
     (case user_by_wallet wallet w of None \<Rightarrow> True | Some u \<Rightarrow> \<forall>l \<in> set (loans w). \<not> payable (user_id u) l))"

lemma processRepayment_404:
  assumes run: "processRepayment env gw dto w = (Inl (NotFound m), v)"
    and gw: "\<And>h a c m. verifyRepayByTxHash gw h a c \<noteq> Inl (NotFound m)"
  shows "nothing_to_repay (ir_walletAddress dto) w"
proof (cases "normalizeWallet (ir_walletAddress dto)")
  case (Inl e)
  then have "e = NotFound m" using run by (simp add: processRepayment_def svc_simps)
  then show ?thesis using Inl by (simp add: normalizeWallet_def Let_def split: if_splits)
next
  case (Inr wallet)
  show ?thesis
  proof (cases "user_by_wallet wallet w")
    case None
    then show ?thesis using Inr by (simp add: nothing_to_repay_def)
  next
    case (Some user)
    obtain x s0 where x: "confirm_repay gw (ir_txHash dto) wallet w = (x, s0)" by fastforce
    have s0: "s0 = w" using confirm_repay_run(1) [OF x] .
    have "x \<noteq> Inl (NotFound m)"
      using x gw by (auto simp: confirm_repay_def verify_by_txHash_run assert_closed_on_chain_def sbind_def scatch_def
          chain_read_def sthrow_def srequire_def sret_def Let_def split: if_splits sum.splits repay_check.splits repay_reason.splits prod.splits option.splits)
    then obtain cp where cp: "record_repayment env gw dto wallet user cp w = (Inl (NotFound m), v)"
      using run x s0 Inr Some
      by (auto simp: processRepayment_def svc_simps sbind_def [of "confirm_repay _ _ _"] split: sum.splits)
    obtain y s1 where y: "close_transaction env dto user cp w = (y, s1)" by fastforce
    have settled: "settle_user env gw wallet sc0 res s1 \<noteq> (Inl e, v)" for sc0 res e
      using settle_user_run by (metis Inl_Inr_False prod_cases3)
    have "y = Inl (NotFound m)"
      using cp y settled
      by (auto simp: record_repayment_def svc_simps sbind_def [of "close_transaction _ _ _ _"] split: option.splits sum.splits if_splits)
    then have "newest startAt (payable (user_id user)) (loans w) = None"
      using y by (auto simp: close_transaction_def transaction_def svc_simps Let_def parseAmountHuman_def unique_violation_def
          split: option.splits sum.splits if_splits prod.splits)
    then show ?thesis using Inr Some by (auto simp: nothing_to_repay_def newest_None)
  qed
qed

lemma processRepayment_closes:
  assumes run: "processRepayment env gw dto w = (Inr a, v)" and h: "ir_txHash dto = Some h" "h \<noteq> []"
  shows "h \<in> close_hashes v"
proof (cases "\<exists>x. a = Repaid x")
  case True
  then obtain x where "processRepayment env gw dto w = (Inr (Repaid x), v)" using run by blast
  from Repaid_run [OF this] obtain wallet user cp loan paid where
    r: "repaid_by env gw dto w x v wallet user cp loan paid" by blast
  define c where "c = store_loan (closed_loan loan paid (now w) (ir_txHash dto))"
  have "loan \<in> set (loans w)" using r newest_Some by (fastforce simp: repaid_by_def)
  then have "c \<in> set (loans v)" using r put_row_same [of loan "loans w" loan_id c] by (simp add: repaid_by_def c_def)
  moreover have "closeTxHash c = Some h" using h by (simp add: c_def)
  ultimately show ?thesis by (auto simp: close_hashes_def)
next
  case False
  then have v: "v = w" using processRepayment_run [OF run] settle_user_run by (metis prod_cases3 sum.inject(2))
  obtain wallet user where wu: "normalizeWallet (ir_walletAddress dto) = Inr wallet" "user_by_wallet wallet w = Some user"
    using run by (auto simp: processRepayment_def svc_simps split: sum.splits option.splits)
  obtain x s0 where x: "confirm_repay gw (ir_txHash dto) wallet w = (x, s0)" by fastforce
  then obtain cp where cp: "record_repayment env gw dto wallet user cp w = (Inr a, v)"
    using run wu confirm_repay_run(1) [OF x]
    by (auto simp: processRepayment_def svc_simps sbind_def [of "confirm_repay _ _ _"] split: sum.splits)
  obtain y s1 where y: "close_transaction env dto user cp w = (y, s1)" by fastforce
  obtain l where "find (\<lambda>l. closeTxHash l = ir_txHash dto) (loans w) = Some l"
  proof (cases "find (\<lambda>l. closeTxHash l = ir_txHash dto) (loans w)")
    case None
    then obtain res where "settle_user env gw wallet (nullish (score user) DEFAULT_SCORE) res s1 = (Inr a, v)"
      using cp y h by (auto simp: record_repayment_def svc_simps sbind_def [of "close_transaction _ _ _ _"] split: sum.splits if_splits)
    then show ?thesis using settle_user_run False by (metis prod_cases3 sum.inject(2))
  qed
  then have "l \<in> set (loans w) \<and> closeTxHash l = Some h" using find_cond h by fastforce
  then show ?thesis using v by (auto simp: close_hashes_def)
qed

definition has_open_loan :: "string \<Rightarrow> 'c world \<Rightarrow> bool" where
  "has_open_loan addr w \<longleftrightarrow> (\<exists>wallet user. normalizeWallet addr = Inr wallet \<and> user_by_wallet wallet w = Some user \<and>
     (\<exists>l \<in> set (loans w). loan_userId l = user_id user \<and> is_open l))"

lemma informLoanOpened_opens:
  assumes run: "informLoanOpened env gw dto w = (Inr i, v)"
  shows "il_txHash dto \<in> open_hashes v \<or> has_open_loan (il_walletAddress dto) w"
proof (cases "find (\<lambda>l. openTxHash l = Some (il_txHash dto)) (loans w)")
  case (Some l)
  then have "l \<in> set (loans w)" "openTxHash l = Some (il_txHash dto)" using find_cond by fastforce+
  then have w: "il_txHash dto \<in> open_hashes w" by (auto simp: open_hashes_def)
  have "v = w" using run Some
    by (auto simp: informLoanOpened_def svc_simps split: sum.splits option.splits if_splits)
  then show ?thesis using w by simp
next
  case None
  obtain wallet user where wu: "normalizeWallet (il_walletAddress dto) = Inr wallet" "user_by_wallet wallet w = Some user"
    "check_tenor (il_tenorDays dto) = Inr ()"
    using run by (auto simp: informLoanOpened_def svc_simps split: sum.splits option.splits)
  obtain amount where a: "verifyLoanOpenedByTxHash gw (il_txHash dto) wallet (chain w) = Inr True"
    "parseAmountHuman env (il_amountHuman dto) = Inr amount"
    using run wu None by (auto simp: informLoanOpened_def svc_simps split: sum.splits if_splits)
  have "il_tenorDays dto \<in> {7, 14, 21}" using wu(3) by (simp only: check_tenor_Inr)
  then obtain fee where fee: "priced_fee user (il_tenorDays dto) w = (Inr fee, w)" using priced_fee_run by blast
  define mk where "mk c = new_loan user wallet (formatAmount amount)
           (formatAmount (dadd amount (ddiv (dmul amount (of_int fee)) 10000))) (il_tenorDays dto) fee c (il_txHash dto)" for c
  have t: "open_transaction user mk (il_txHash dto) w = (Inr i, v)"
    using run wu None a fee
    by (simp add: informLoanOpened_def svc_simps Let_def mk_def [abs_def] sbind_def [of "priced_fee _ _"])
  have mk: "\<And>c. openTxHash (mk c) = Some (il_txHash dto)" "\<And>c. closeTxHash (mk c) = None" by (simp_all add: mk_def)
  from open_transaction_run [OF t mk]
  consider "\<exists>l \<in> set (loans w). openTxHash l = Some (il_txHash dto) \<or> loan_userId l = user_id user \<and> is_open l" "v = w"
    | (new) new where "opened user (mk (now w)) (il_txHash dto) w new v" by auto
  then show ?thesis
  proof cases
    case 1
    then show ?thesis using wu by (auto simp: open_hashes_def has_open_loan_def)
  next
    case new
    then have "store_loan new \<in> set (loans v)" "openTxHash new = Some (il_txHash dto)" by (auto simp: opened_def mk)
    then have "\<exists>l \<in> set (loans v). openTxHash l = Some (il_txHash dto)" by (intro bexI [of _ "store_loan new"]) simp_all
    then show ?thesis by (simp add: open_hashes_def)
  qed
qed

section \<open>Steps of the recovery\<close>

lemma patch_first_keys: "(\<And>x. key (f x) = key x) \<Longrightarrow> map key (patch_first P f xs) = map key xs"
  by (induction xs) auto

abbreviation (input) "repayment_ids p \<equiv> rp_id ` set (pendingRepayments p)"
abbreviation (input) "open_ids p \<equiv> po_id ` set (pendingLoanOpens p)"

lemma removePending_run:
  "grows keeps_hashes p (removePending E i p)" "pendingLoanOpens (removePending E i p) = pendingLoanOpens p"
  "k \<noteq> i \<Longrightarrow> k \<in> repayment_ids (removePending E i p) \<longleftrightarrow> k \<in> repayment_ids p"
  by (auto simp: removePending_def writeAll_def grows_def hashes.le_refl)

lemma updatePending_run:
  assumes "\<And>r. rp_id (f r) = rp_id r"
  shows "grows keeps_hashes p (updatePending E i f p)" "pendingLoanOpens (updatePending E i f p) = pendingLoanOpens p"
    "repayment_ids (updatePending E i f p) = repayment_ids p"
proof -
  have "rp_id ` set (patch_first P f xs) = rp_id ` set xs" for P and xs
    using patch_first_keys [where key = rp_id, of f P xs] assms by (metis set_map)
  then show "repayment_ids (updatePending E i f p) = repayment_ids p" by (simp add: updatePending_def writeAll_def)
qed (simp_all add: updatePending_def writeAll_def grows_def hashes.le_refl)

lemma removePendingOpen_run:
  "grows keeps_hashes p (removePendingOpen E i p)" "pendingRepayments (removePendingOpen E i p) = pendingRepayments p"
  "k \<noteq> i \<Longrightarrow> k \<in> open_ids (removePendingOpen E i p) \<longleftrightarrow> k \<in> open_ids p"
  by (auto simp: removePendingOpen_def writeAllOpens_def grows_def hashes.le_refl)

lemma updatePendingOpen_run:
  assumes "\<And>r. po_id (f r) = po_id r"
  shows "grows keeps_hashes p (updatePendingOpen E i f p)" "pendingRepayments (updatePendingOpen E i f p) = pendingRepayments p"
    "open_ids (updatePendingOpen E i f p) = open_ids p"
proof -
  have "po_id ` set (patch_first P f xs) = po_id ` set xs" for P and xs
    using patch_first_keys [where key = po_id, of f P xs] assms by (metis set_map)
  then show "open_ids (updatePendingOpen E i f p) = open_ids p" by (simp add: updatePendingOpen_def writeAllOpens_def)
qed (simp_all add: updatePendingOpen_def writeAllOpens_def grows_def hashes.le_refl)

lemma refreshLoanStats_run:
  assumes "calm keeps_hashes E (api_refresh A)"
  shows "grows keeps_hashes p (refreshLoanStats E A wallet p)" "same_queues p (refreshLoanStats E A wallet p)"
  using hashes.authed_run [OF assms endpoints_keep(3) prod.collapse [symmetric]]
  by (auto simp: refreshLoanStats_def hashes.grows_refl same_queues_def)

definition entry_dto :: "PendingRepayment \<Rightarrow> InformRepaymentDto" where
  "entry_dto e = \<lparr>ir_walletAddress = rp_walletAddress e, ir_amountPaidHuman = rp_amountPaidHuman e, ir_txHash = rp_txHash e\<rparr>"

text \<open>What the page knows of a repayment that it takes out of the queue.\<close>

definition repayment_settled :: "('x, 'k, 'c) server outside \<Rightarrow> ('x, 'k, 'c) api \<Rightarrow> PendingRepayment \<Rightarrow> ('x, 'k, 'c) server page \<Rightarrow> bool" where
  "repayment_settled E A e p \<longleftrightarrow>
     (\<exists>r. answered keeps_hashes E (post_inform_repayment (api_config A) (api_cache A) (entry_dto e)) p r \<and>
        ((\<exists>a. r = Inr a) \<or> (\<exists>m. r = Inl (NotFound m))))"

definition open_settled :: "('x, 'k, 'c) server outside \<Rightarrow> ('x, 'k, 'c) api \<Rightarrow> PendingLoanOpen \<Rightarrow> ('x, 'k, 'c) server page \<Rightarrow> bool" where
  "open_settled E A e p \<longleftrightarrow>
     (\<exists>a. answered keeps_hashes E (post_inform_open (api_config A) (api_cache A) (po_walletAddress e) (po_amountHuman e)
        (po_tenorDays e) (po_txHash e)) p (Inr a))"

lemma repayment_settled_grows: "repayment_settled E A e p \<Longrightarrow> grows keeps_hashes p q \<Longrightarrow> repayment_settled E A e q"
  unfolding repayment_settled_def using hashes.answered_grows by blast

lemma open_settled_grows: "open_settled E A e p \<Longrightarrow> grows keeps_hashes p q \<Longrightarrow> open_settled E A e q"
  unfolding open_settled_def using hashes.answered_grows by blast

lemma status_404: "http_status e = 404 \<longleftrightarrow> (\<exists>m. e = NotFound m)"
  by (cases e) (simp_all add: http_status_def)

lemma recover_repayment_step:
  assumes calm: "calm keeps_hashes E (api_refresh A)"
  shows "grows keeps_hashes p (recover_repayment E A wallet e p) \<and>
    (\<forall>k. k \<noteq> rp_id e \<longrightarrow> k \<in> repayment_ids (recover_repayment E A wallet e p) \<longleftrightarrow> k \<in> repayment_ids p) \<and>
    (rp_id e \<in> repayment_ids p \<longrightarrow> rp_id e \<notin> repayment_ids (recover_repayment E A wallet e p) \<longrightarrow>
       repayment_settled E A e (recover_repayment E A wallet e p)) \<and>
    pendingLoanOpens (recover_repayment E A wallet e p) = pendingLoanOpens p"
proof -
  let ?ep = "post_inform_repayment (api_config A) (api_cache A) (entry_dto e)"
  obtain r p1 where run: "retried E (authed E (api_refresh A) ?ep) p = (r, p1)" by fastforce
  note ret = hashes.retried_run [OF calm endpoints_keep(1) run]
  let ?out = "refreshLoanStats E A wallet (removePending E (rp_id e) p1)"
  let ?upd = "updatePending E (rp_id e) (\<lambda>r. r\<lparr>rp_attempts := rp_attempts e + 1, rp_lastAttemptAt := Some (date_now p1)\<rparr>) p1"
  have eq: "recover_repayment E A wallet e p = (if (\<exists>a. r = Inr a) \<or> r = Inl (ApiError 404) then ?out else ?upd)"
    using run by (cases r) (simp_all add: recover_repayment_def informRepayment_def entry_dto_def)
  show ?thesis
  proof (cases "(\<exists>a. r = Inr a) \<or> r = Inl (ApiError 404)")
    case True
    then consider (ok) a where "r = Inr a" | (missing) "r = Inl (ApiError 404)" by blast
    then have "repayment_settled E A e p1"
    proof cases
      case ok
      then show ?thesis using ret(3) unfolding repayment_settled_def by blast
    next
      case missing
      then show ?thesis using ret(4) status_404 unfolding repayment_settled_def by blast
    qed
    then have "repayment_settled E A e ?out"
      by (rule repayment_settled_grows) (rule hashes.grows_trans [OF removePending_run(1) refreshLoanStats_run(1) [OF calm]])
    moreover have "grows keeps_hashes p ?out"
      using ret(1) by (meson hashes.grows_trans removePending_run(1) refreshLoanStats_run(1) [OF calm])
    ultimately show ?thesis
      using True ret(2) refreshLoanStats_run(2) [OF calm, of "removePending E (rp_id e) p1" wallet]
        removePending_run(2) [of E "rp_id e" p1] removePending_run(3) [where i = "rp_id e" and E = E and p = p1]
      unfolding eq by (simp add: same_queues_def)
  next
    case False
    then show ?thesis
      using ret(1,2) updatePending_run [where E = E and i = "rp_id e" and p = p1
          and f = "\<lambda>r. r\<lparr>rp_attempts := rp_attempts e + 1, rp_lastAttemptAt := Some (date_now p1)\<rparr>"]
      unfolding eq by (simp add: same_queues_def) (meson hashes.grows_trans)
  qed
qed

lemma recover_open_step:
  assumes calm: "calm keeps_hashes E (api_refresh A)"
  shows "grows keeps_hashes p (recover_open E A wallet e p) \<and>
    (\<forall>k. k \<noteq> po_id e \<longrightarrow> k \<in> open_ids (recover_open E A wallet e p) \<longleftrightarrow> k \<in> open_ids p) \<and>
    (po_id e \<in> open_ids p \<longrightarrow> po_id e \<notin> open_ids (recover_open E A wallet e p) \<longrightarrow>
       open_settled E A e (recover_open E A wallet e p)) \<and>
    pendingRepayments (recover_open E A wallet e p) = pendingRepayments p"
proof -
  let ?ep = "post_inform_open (api_config A) (api_cache A) (po_walletAddress e) (po_amountHuman e) (po_tenorDays e) (po_txHash e)"
  obtain r p1 where run: "retried E (authed E (api_refresh A) ?ep) p = (r, p1)" by fastforce
  note ret = hashes.retried_run [OF calm endpoints_keep(2) run]
  let ?out = "refreshLoanStats E A wallet (removePendingOpen E (po_id e) p1)"
  let ?upd = "updatePendingOpen E (po_id e) (\<lambda>r. r\<lparr>po_attempts := po_attempts e + 1, po_lastAttemptAt := Some (date_now p1)\<rparr>) p1"
  have eq: "recover_open E A wallet e p = (if \<exists>a. r = Inr a then ?out else ?upd)"
    using run by (cases r) (simp_all add: recover_open_def informOpen_def)
  show ?thesis
  proof (cases "\<exists>a. r = Inr a")
    case True
    then have "open_settled E A e p1" using ret(3) unfolding open_settled_def by metis
    then have "open_settled E A e ?out"
      by (rule open_settled_grows) (rule hashes.grows_trans [OF removePendingOpen_run(1) refreshLoanStats_run(1) [OF calm]])
    moreover have "grows keeps_hashes p ?out"
      using ret(1) by (meson hashes.grows_trans removePendingOpen_run(1) refreshLoanStats_run(1) [OF calm])
    ultimately show ?thesis
      using True ret(2) refreshLoanStats_run(2) [OF calm, of "removePendingOpen E (po_id e) p1" wallet]
        removePendingOpen_run(2) [of E "po_id e" p1] removePendingOpen_run(3) [where i = "po_id e" and E = E and p = p1]
      unfolding eq by (simp add: same_queues_def)
  next
    case False
    then show ?thesis
      using ret(1,2) updatePendingOpen_run [where E = E and i = "po_id e" and p = p1
          and f = "\<lambda>r. r\<lparr>po_attempts := po_attempts e + 1, po_lastAttemptAt := Some (date_now p1)\<rparr>"]
      unfolding eq by (simp add: same_queues_def) (meson hashes.grows_trans)
  qed
qed

lemma clearStale_run:
  "grows keeps_hashes p (clearStale E p)" "pendingLoanOpens (clearStale E p) = pendingLoanOpens p"
  "set (pendingRepayments (clearStale E p)) \<subseteq> set (pendingRepayments p)"
  "x \<in> set (pendingRepayments p) \<Longrightarrow> date_now p - rp_createdAt x < QUEUE_MAX_AGE_MS \<Longrightarrow> x \<in> set (pendingRepayments (clearStale E p))"
  by (auto simp: clearStale_def writeAll_def grows_def hashes.le_refl)

lemma clearStaleLoanOpens_run:
  "grows keeps_hashes p (clearStaleLoanOpens E p)" "pendingRepayments (clearStaleLoanOpens E p) = pendingRepayments p"
  "set (pendingLoanOpens (clearStaleLoanOpens E p)) \<subseteq> set (pendingLoanOpens p)"
  "x \<in> set (pendingLoanOpens p) \<Longrightarrow> date_now p - po_createdAt x < QUEUE_MAX_AGE_MS \<Longrightarrow>
     x \<in> set (pendingLoanOpens (clearStaleLoanOpens E p))"
  by (auto simp: clearStaleLoanOpens_def writeAllOpens_def grows_def hashes.le_refl)

lemma recover_repayments_run:
  assumes calm: "calm keeps_hashes E (api_refresh A)" and q: "recover_repayments E A wallet p = q"
    and ids: "distinct (map rp_id (pendingRepayments p))"
  shows "grows keeps_hashes p q" "pendingLoanOpens q = pendingLoanOpens p"
    "e \<in> set (pendingRepayments p) \<Longrightarrow> rp_id e \<notin> repayment_ids q \<Longrightarrow> date_now p - rp_createdAt e < QUEUE_MAX_AGE_MS \<Longrightarrow>
       repayment_settled E A e q"
proof -
  let ?p = "clearStale E p"
  let ?es = "sort_key rp_createdAt (getPendingForWallet wallet ?p)"
  have q': "q = fold (recover_repayment E A wallet) ?es ?p" using q by (simp add: recover_repayments_def Let_def)
  have step: "grows keeps_hashes r (recover_repayment E A wallet x r) \<and>
      (\<forall>k. k \<noteq> rp_id x \<longrightarrow> k \<in> repayment_ids (recover_repayment E A wallet x r) \<longleftrightarrow> k \<in> repayment_ids r) \<and>
      (rp_id x \<in> repayment_ids r \<longrightarrow> rp_id x \<notin> repayment_ids (recover_repayment E A wallet x r) \<longrightarrow>
         repayment_settled E A x (recover_repayment E A wallet x r))" for x r
    using recover_repayment_step [OF calm, of r wallet x] by blast
  have fold: "grows keeps_hashes ?p q \<and> (k \<in> repayment_ids ?p \<longrightarrow> k \<notin> repayment_ids q \<longrightarrow> (\<exists>x \<in> set ?es. rp_id x = k \<and> repayment_settled E A x q))" for k
    unfolding q'
  proof (rule hashes.fold_queue [where key = rp_id and ids = "\<lambda>r. repayment_ids r"])
    show "repayment_settled E A x u" if "repayment_settled E A x t" "grows keeps_hashes t u" for x t u
      using that by (rule repayment_settled_grows)
  qed (rule step)
  show "grows keeps_hashes p q" by (rule hashes.grows_trans [OF clearStale_run(1) fold [THEN conjunct1]])
  have "pendingLoanOpens (recover_repayment E A wallet x r) = pendingLoanOpens r" for x r
    by (rule recover_repayment_step [OF calm, THEN conjunct2, THEN conjunct2, THEN conjunct2])
  then have "pendingLoanOpens (fold (recover_repayment E A wallet) es r) = pendingLoanOpens r" for es r
    by (induction es arbitrary: r) simp_all
  then show "pendingLoanOpens q = pendingLoanOpens p" by (simp add: q' clearStale_run(2))
  assume e: "e \<in> set (pendingRepayments p)" "rp_id e \<notin> repayment_ids q" "date_now p - rp_createdAt e < QUEUE_MAX_AGE_MS"
  then have "rp_id e \<in> repayment_ids ?p" using clearStale_run(4) by blast
  then obtain x where x: "x \<in> set ?es" "rp_id x = rp_id e" "repayment_settled E A x q" using fold e(2) by blast
  then have "x \<in> set (pendingRepayments p)" using clearStale_run(3) by (auto simp: getPendingForWallet_def)
  then have "x = e" using ids x(2) e(1) by (auto simp: distinct_map dest: inj_onD)
  then show "repayment_settled E A e q" using x(3) by simp
qed

lemma recover_opens_run:
  assumes calm: "calm keeps_hashes E (api_refresh A)" and q: "recover_opens E A wallet p = q"
    and ids: "distinct (map po_id (pendingLoanOpens p))"
  shows "grows keeps_hashes p q" "pendingRepayments q = pendingRepayments p"
    "e \<in> set (pendingLoanOpens p) \<Longrightarrow> po_id e \<notin> open_ids q \<Longrightarrow> date_now p - po_createdAt e < QUEUE_MAX_AGE_MS \<Longrightarrow>
       open_settled E A e q"
proof -
  let ?p = "clearStaleLoanOpens E p"
  let ?es = "sort_key po_createdAt (getPendingOpensForWallet wallet ?p)"
  have q': "q = fold (recover_open E A wallet) ?es ?p" using q by (simp add: recover_opens_def Let_def)
  have step: "grows keeps_hashes r (recover_open E A wallet x r) \<and>
      (\<forall>k. k \<noteq> po_id x \<longrightarrow> k \<in> open_ids (recover_open E A wallet x r) \<longleftrightarrow> k \<in> open_ids r) \<and>
      (po_id x \<in> open_ids r \<longrightarrow> po_id x \<notin> open_ids (recover_open E A wallet x r) \<longrightarrow>
         open_settled E A x (recover_open E A wallet x r))" for x r
    using recover_open_step [OF calm, of r wallet x] by blast
  have fold: "grows keeps_hashes ?p q \<and> (k \<in> open_ids ?p \<longrightarrow> k \<notin> open_ids q \<longrightarrow> (\<exists>x \<in> set ?es. po_id x = k \<and> open_settled E A x q))" for k
    unfolding q'
  proof (rule hashes.fold_queue [where key = po_id and ids = "\<lambda>r. open_ids r"])
    show "open_settled E A x u" if "open_settled E A x t" "grows keeps_hashes t u" for x t u
      using that by (rule open_settled_grows)
  qed (rule step)
  show "grows keeps_hashes p q" by (rule hashes.grows_trans [OF clearStaleLoanOpens_run(1) fold [THEN conjunct1]])
  have "pendingRepayments (recover_open E A wallet x r) = pendingRepayments r" for x r
    by (rule recover_open_step [OF calm, THEN conjunct2, THEN conjunct2, THEN conjunct2])
  then have "pendingRepayments (fold (recover_open E A wallet) es r) = pendingRepayments r" for es r
    by (induction es arbitrary: r) simp_all
  then show "pendingRepayments q = pendingRepayments p" by (simp add: q' clearStaleLoanOpens_run(2))
  assume e: "e \<in> set (pendingLoanOpens p)" "po_id e \<notin> open_ids q" "date_now p - po_createdAt e < QUEUE_MAX_AGE_MS"
  then have "po_id e \<in> open_ids ?p" using clearStaleLoanOpens_run(4) by blast
  then obtain x where x: "x \<in> set ?es" "po_id x = po_id e" "open_settled E A x q" using fold e(2) by blast
  then have "x \<in> set (pendingLoanOpens p)" using clearStaleLoanOpens_run(3) by (auto simp: getPendingOpensForWallet_def)
  then have "x = e" using ids x(2) e(1) by (auto simp: distinct_map dest: inj_onD)
  then show "open_settled E A e q" using x(3) by simp
qed

text \<open>What a settled entry means for the tables, in a run that started with nothing sent.\<close>

lemma sent_distinct:
  assumes "grows keeps_hashes p q" "sent p = []" "s \<in> set (sent q)" "distinct (map loan_id (loans (tables_of (backend p))))"
  shows "distinct (map loan_id (loans (tables_of s)))"
  using assms by (auto simp: grows_def keeps_hashes_def hashes_kept_def)

lemma repayment_settled_means:
  assumes "repayment_settled E A e q" and g: "grows keeps_hashes p q" "sent p = []"
      "distinct (map loan_id (loans (tables_of (backend p))))"
    and net: "\<And>n m. network E n \<noteq> Refused (NotFound m)"
    and gw: "\<And>h a c m. verifyRepayByTxHash (cfg_gateway (api_config A)) h a c \<noteq> Inl (NotFound m)"
    and h: "rp_txHash e = Some h" "h \<noteq> []"
  shows "h \<in> close_hashes (tables_of (backend q)) \<or> (\<exists>s \<in> set (sent q). nothing_to_repay (rp_walletAddress e) (tables_of s))"
proof -
  let ?D = "api_config A"
  let ?ep = "post_inform_repayment ?D (api_cache A) (entry_dto e)"
  obtain r header s t where r: "(\<exists>a. r = Inr a) \<or> (\<exists>m. r = Inl (NotFound m))"
    and s: "s \<in> set (sent q)" "?ep header s = (r, t)" "keeps_hashes t (backend q)"
    using assms(1) net unfolding repayment_settled_def answered_def by (metis Inl_Inr_False sum.inject(1))
  have run: "processRepayment (cfg_env ?D) (cfg_gateway ?D) (entry_dto e) (tables_of s) = (r, tables_of t)"
    using post_inform_repayment_run [OF s(2)] r by (auto simp: refused_def)
  from r show ?thesis
  proof
    assume "\<exists>a. r = Inr a"
    then have c: "h \<in> close_hashes (tables_of t)" using run h processRepayment_closes by (fastforce simp: entry_dto_def)
    have "distinct (map loan_id (loans (tables_of t)))"
      using processRepayment_hashes [OF run] sent_distinct [OF g(1,2) s(1) g(3)] by (simp add: hashes_kept_def)
    then show ?thesis using c s(3) by (auto simp: keeps_hashes_def hashes_kept_def)
  next
    assume "\<exists>m. r = Inl (NotFound m)"
    then have "nothing_to_repay (rp_walletAddress e) (tables_of s)"
      using run processRepayment_404 [OF _ gw] by (fastforce simp: entry_dto_def)
    then show ?thesis using s(1) by blast
  qed
qed

lemma open_settled_means:
  assumes "open_settled E A e q" and g: "grows keeps_hashes p q" "sent p = []"
      "distinct (map loan_id (loans (tables_of (backend p))))"
  shows "\<exists>h. po_txHash e = Some h \<and>
    (h \<in> open_hashes (tables_of (backend q)) \<or> (\<exists>s \<in> set (sent q). has_open_loan (po_walletAddress e) (tables_of s)))"
proof -
  let ?D = "api_config A"
  obtain a header s t where s: "s \<in> set (sent q)" "keeps_hashes t (backend q)"
    "post_inform_open ?D (api_cache A) (po_walletAddress e) (po_amountHuman e) (po_tenorDays e) (po_txHash e) header s = (Inr a, t)"
    using assms(1) unfolding open_settled_def answered_def by blast
  let ?dto = "\<lambda>h. \<lparr>il_walletAddress = po_walletAddress e, il_amountHuman = po_amountHuman e, il_tenorDays = po_tenorDays e, il_txHash = h\<rparr>"
  obtain h where h: "po_txHash e = Some h"
    and run: "informLoanOpened (cfg_env ?D) (cfg_gateway ?D) (?dto h) (tables_of s) = (Inr a, tables_of t)"
    using post_inform_open_run [OF s(3)] by (auto simp: refused_def)
  have "distinct (map loan_id (loans (tables_of t)))"
    using informLoanOpened_hashes [OF run] sent_distinct [OF g(1,2) s(1) g(3)] by (simp add: hashes_kept_def)
  then show ?thesis
    using informLoanOpened_opens [OF run] h s by (auto simp: keeps_hashes_def hashes_kept_def)
qed

end
