(* ===== verification/Recovery.thy ===== *)
theory Recovery
  imports Report_Frame
begin

text \<open>
  What the reports of the browser (\<open>Retry_Queue\<close>) achieve together with the backend: no
  repayment is lost without cause, one whose answers are lost is recorded once, a report is
  bounded; and the order of the two queues, which loses a repayment.
\<close>

section \<open>Requests with a live session\<close>

text \<open>The token of the header is that of a wallet, in the table and not at the very end of its life.\<close>

definition logged_in :: "'k CacheStore \<Rightarrow> string option \<Rightarrow> string \<Rightarrow> ('x, 'k) auth \<Rightarrow> bool" where
  "logged_in C header w a \<longleftrightarrow> cache_contract C \<and> tokens_ok C a \<and> (\<exists>v r. bearer header = Some v \<and> v \<noteq> [] \<and>
     r \<in> set (access_tokens a) \<and> valid_row v w (auth_now a) r \<and> tok_expiresAt r \<noteq> Some (auth_now a))"

lemma logged_in_guard:
  assumes "logged_in C header w a"
  obtains b where "AccessTokenGuard C header a = (Inr w, b)" "logged_in C header w b" "normalizeWallet w = Inr w"
proof -
  obtain v r where v: "bearer header = Some v" "v \<noteq> []" and r: "r \<in> set (access_tokens a)" "valid_row v w (auth_now a) r"
    "tok_expiresAt r \<noteq> Some (auth_now a)" and C: "cache_contract C" and ok: "tokens_ok C a"
    using assms unfolding logged_in_def by blast
  have wf: "wf_tokens (access_tokens a)" using ok by (simp add: tokens_ok_def)
  have "checkToken v a = Inr w" using checkToken_iff [OF wf] r by blast
  then obtain b where b: "validateToken C v a = (Inr w, b)"
    using validateToken_agrees [OF ok, of v] by (metis prod.collapse)
  have "b = a \<or> b = a\<lparr>auth_cache := auth_cache b\<rparr>" using validate_miss_state [OF validateToken_state [OF b]] by force
  then have same: "access_tokens b = access_tokens a" "auth_now b = auth_now a"
    by (metis auth.ext_inject auth.surjective auth.update_convs(3))+
  have "\<forall>k \<in> set (access_tokens a). tok_value k = v \<longrightarrow> tok_expiresAt k \<noteq> Some (auth_now a)"
    using wf r by (auto simp: wf_tokens_def valid_row_def distinct_map dest: inj_onD)
  then have "tokens_ok C b" by (rule tokens_ok_validate [OF C ok b])
  then have "logged_in C header w b" using v r C same unfolding logged_in_def by auto
  moreover have "AccessTokenGuard C header a = (Inr w, b)" using v b by (simp add: AccessTokenGuard_def)
  moreover have "normalizeWallet w = Inr w" using wf r by (auto simp: wf_tokens_def valid_row_def)
  ultimately show ?thesis by (intro that)
qed

lemma owned_logged_in:
  assumes "logged_in C header w (srv_auth s)" and "normalizeWallet addr = Inr w" and "m (tables_of s) = (r, v)"
  obtains t where "owned C header addr (on_tables m) s = (r, t)" "tables_of t = v" "logged_in C header w (srv_auth t)"
proof -
  obtain b where b: "AccessTokenGuard C header (srv_auth s) = (Inr w, b)" "logged_in C header w b" "normalizeWallet w = Inr w"
    using logged_in_guard [OF assms(1)] .
  let ?t = "s\<lparr>srv_auth := b, srv_onb := (srv_onb s)\<lparr>ob_world := v\<rparr>\<rparr>"
  have "owned C header addr (on_tables m) s = (r, ?t)"
    using b assms(2,3)
    by (simp add: owned_def guarded_def sbind_def on_auth_def slift_def assertWalletOwnership_def on_tables_def on_onb_def on_world_def tables_of_def)
  then show ?thesis using b(2) by (intro that [of ?t]) (simp_all add: tables_of_def)
qed

lemma getByWallet_logged_in:
  assumes "logged_in C header w (srv_auth s)" and "normalizeWallet addr = Inr w"
  obtains a t where "UserController_getByWallet C header addr s = (Inr a, t)" "tables_of t = tables_of s" "logged_in C header w (srv_auth t)"
proof -
  obtain b where b: "AccessTokenGuard C header (srv_auth s) = (Inr w, b)" "logged_in C header w b" "normalizeWallet w = Inr w"
    using logged_in_guard [OF assms(1)] .
  have "\<exists>a. UserController_getByWallet C header addr s = (Inr a, s\<lparr>srv_auth := b\<rparr>)"
    using b assms(2)
    by (simp add: UserController_getByWallet_def guarded_def sbind_def on_auth_def slift_def sret_def assertWalletOwnership_def on_onb_def
        getStep_run)
  then show ?thesis using b(2) that by (auto simp: tables_of_def)
qed

text \<open>A request with the stored token that arrives, and one that does not.\<close>

definition reply :: "(http_error, 'a) result \<Rightarrow> (api_error, 'a) result" where
  "reply r = (case r of Inl e \<Rightarrow> Inl (ApiError (http_status e)) | Inr a \<Rightarrow> Inr a)"

definition sent_page :: "'s outside \<Rightarrow> 's page \<Rightarrow> 's \<Rightarrow> 's page" where
  "sent_page E p t = p\<lparr>backend := t, sent := sent p @ [meanwhile E (length (sent p)) (backend p)],
     date_now := date_now p + latency E (length (sent p))\<rparr>"

lemma sent_page_sel [simp]:
  "backend (sent_page E p t) = t" "length (sent (sent_page E p t)) = Suc (length (sent p))"
  "accessToken (sent_page E p t) = accessToken p" "same_queues p (sent_page E p t)"
  "date_now (sent_page E p t) = date_now p + latency E (length (sent p))"
  by (simp_all add: sent_page_def same_queues_def)

lemma authed_arrives:
  assumes "accessToken p = Some tok" "tok \<noteq> []" "network E (length (sent p)) = Arrives"
    and "endpoint (Some (''Bearer '' @ tok)) (meanwhile E (length (sent p)) (backend p)) = (r, t)" and "\<forall>m. r \<noteq> Inl (Unauthorized m)"
  shows "authed E refresh endpoint p = (reply r, sent_page E p t)"
proof -
  have "doFetch E endpoint (Some tok) p = (Some r, sent_page E p t)"
    using assms(2-4) by (simp add: doFetch_def Let_def sent_page_def falsy_str_def)
  moreover have "\<not> status_401 (Some r)"
    using assms(5) by (auto simp: status_401_def http_status_def split: sum.splits http_error.splits)
  ultimately show ?thesis
    using assms(1,2) by (simp add: authed_def fetchWithAuthRetry_def Let_def falsy_str_def reply_def split: sum.splits)
qed

lemma authed_lost:
  assumes "accessToken p = Some tok" "tok \<noteq> []" "network E (length (sent p)) \<in> {Request_lost, Answer_lost}"
    and "endpoint (Some (''Bearer '' @ tok)) (meanwhile E (length (sent p)) (backend p)) = (r, t)"
  shows "\<exists>u \<in> {meanwhile E (length (sent p)) (backend p), t}. authed E refresh endpoint p = (Inl NetworkError, sent_page E p u)"
proof -
  have "\<exists>u \<in> {meanwhile E (length (sent p)) (backend p), t}. doFetch E endpoint (Some tok) p = (None, sent_page E p u)"
    using assms(2-4) by (auto simp: doFetch_def Let_def sent_page_def falsy_str_def)
  then show ?thesis
    using assms(1,2) by (auto simp: authed_def fetchWithAuthRetry_def Let_def falsy_str_def status_401_def)
qed

lemma retried_first:
  assumes "f p = (r, q)" "\<And>e. r = Inl e \<Longrightarrow> isNonRetryableStatus e"
  shows "retried E f p = (r, q)"
  using assms by (auto simp: retried_def retryWithBackoff_def retry_from.simps [of _ _ _ _ _ "Suc 0" p] split: sum.splits)

section \<open>A calm network\<close>

text \<open>Every request arrives at once, nothing else happens, and the storage takes every write.\<close>

definition quiet :: "'s outside \<Rightarrow> bool" where
  "quiet E \<longleftrightarrow> (\<forall>n. network E n = Arrives \<and> (\<forall>s. meanwhile E n s = s) \<and> latency E n = 0 \<and> \<not> storageFull E n)"

text \<open>A page whose session is live, over the given tables.\<close>

definition live_page :: "'k CacheStore \<Rightarrow> string \<Rightarrow> string \<Rightarrow> 'c world \<Rightarrow> ('x, 'k, 'c) server page \<Rightarrow> bool" where
  "live_page C tok w tbl p \<longleftrightarrow> accessToken p = Some tok \<and> tok \<noteq> [] \<and>
     logged_in C (Some (''Bearer '' @ tok)) w (srv_auth (backend p)) \<and> tables_of (backend p) = tbl"

lemma live_page_sent: "live_page C tok w tbl p \<Longrightarrow> logged_in C (Some (''Bearer '' @ tok)) w (srv_auth t) \<Longrightarrow>
    live_page C tok w (tables_of t) (sent_page E p t)"
  by (simp add: live_page_def)

lemma quiet_repayment:
  assumes q: "quiet E" and p: "live_page (api_cache A) tok w tbl p"
    and dto: "valid_InformRepaymentDto dto" "normalizeWallet (ir_walletAddress dto) = Inr w"
    and run: "processRepayment (cfg_env (api_config A)) (cfg_gateway (api_config A)) dto tbl = (r, v)" "\<forall>m. r \<noteq> Inl (Unauthorized m)"
  obtains t where "authed E (api_refresh A) (post_inform_repayment (api_config A) (api_cache A) dto) p = (reply r, sent_page E p t)"
    "live_page (api_cache A) tok w v (sent_page E p t)"
proof -
  let ?h = "Some (''Bearer '' @ tok)"
  have l: "logged_in (api_cache A) ?h w (srv_auth (backend p))" and b: "tables_of (backend p) = tbl" using p by (simp_all add: live_page_def)
  obtain t where t: "owned (api_cache A) ?h (ir_walletAddress dto)
      (on_tables (processRepayment (cfg_env (api_config A)) (cfg_gateway (api_config A)) dto)) (backend p) = (r, t)"
      "tables_of t = v" "logged_in (api_cache A) ?h w (srv_auth t)"
    using owned_logged_in [OF l dto(2)] run(1) b by blast
  have "authed E (api_refresh A) (post_inform_repayment (api_config A) (api_cache A) dto) p = (reply r, sent_page E p t)"
  proof (rule authed_arrives [where tok = tok])
    show "post_inform_repayment (api_config A) (api_cache A) dto ?h (meanwhile E (length (sent p)) (backend p)) = (r, t)"
      using q t(1) dto(1) by (simp add: quiet_def post_inform_repayment_def LoanController_informRepayment_def)
  qed (use p q run(2) in \<open>auto simp: live_page_def quiet_def\<close>)
  then show ?thesis using that t live_page_sent [OF p t(3)] by simp
qed

lemma quiet_open:
  assumes q: "quiet E" and p: "live_page (api_cache A) tok w tbl p"
    and dto: "valid_InformLoanDto dto" "normalizeWallet (il_walletAddress dto) = Inr w"
    and run: "informLoanOpened (cfg_env (api_config A)) (cfg_gateway (api_config A)) dto tbl = (r, v)" "\<forall>m. r \<noteq> Inl (Unauthorized m)"
  obtains t where "authed E (api_refresh A) (post_inform_open (api_config A) (api_cache A) (il_walletAddress dto) (il_amountHuman dto)
      (il_tenorDays dto) (Some (il_txHash dto))) p = (reply r, sent_page E p t)"
    "live_page (api_cache A) tok w v (sent_page E p t)"
proof -
  let ?h = "Some (''Bearer '' @ tok)"
  have l: "logged_in (api_cache A) ?h w (srv_auth (backend p))" and b: "tables_of (backend p) = tbl" using p by (simp_all add: live_page_def)
  obtain t where t: "owned (api_cache A) ?h (il_walletAddress dto)
      (on_tables (informLoanOpened (cfg_env (api_config A)) (cfg_gateway (api_config A)) dto)) (backend p) = (r, t)"
      "tables_of t = v" "logged_in (api_cache A) ?h w (srv_auth t)"
    using owned_logged_in [OF l dto(2)] run(1) b by blast
  have "authed E (api_refresh A) (post_inform_open (api_config A) (api_cache A) (il_walletAddress dto) (il_amountHuman dto)
      (il_tenorDays dto) (Some (il_txHash dto))) p = (reply r, sent_page E p t)"
  proof (rule authed_arrives [where tok = tok])
    show "post_inform_open (api_config A) (api_cache A) (il_walletAddress dto) (il_amountHuman dto) (il_tenorDays dto)
        (Some (il_txHash dto)) ?h (meanwhile E (length (sent p)) (backend p)) = (r, t)"
      using q t(1) dto(1) by (cases dto) (simp add: quiet_def post_inform_open_def LoanController_informLoanOpen_def Let_def)
  qed (use p q run(2) in \<open>auto simp: live_page_def quiet_def\<close>)
  then show ?thesis using that t live_page_sent [OF p t(3)] by simp
qed

lemma quiet_stats:
  assumes q: "quiet E" and p: "live_page (api_cache A) tok w tbl p"
  shows "live_page (api_cache A) tok w tbl (refreshLoanStats E A w p) \<and> same_queues p (refreshLoanStats E A w p) \<and>
    date_now (refreshLoanStats E A w p) = date_now p"
proof (cases "js_trim w = []")
  case True
  then show ?thesis using p by (simp add: refreshLoanStats_def same_queues_def)
next
  case False
  let ?h = "Some (''Bearer '' @ tok)"
  have l: "logged_in (api_cache A) ?h w (srv_auth (backend p))" using p by (simp add: live_page_def)
  obtain b where "normalizeWallet w = Inr w" using logged_in_guard [OF l] .
  then have w: "normalizeWallet (js_trim w) = Inr w" by (elim normalizeWallet_cases) (simp_all add: normalizeWallet_def)
  obtain a t where t: "UserController_getByWallet (api_cache A) ?h (js_trim w) (backend p) = (Inr a, t)"
      "tables_of t = tables_of (backend p)" "logged_in (api_cache A) ?h w (srv_auth t)"
    using getByWallet_logged_in [OF l w] .
  have "authed E (api_refresh A) (\<lambda>header. UserController_getByWallet (api_cache A) header (js_trim w)) p = (reply (Inr a), sent_page E p t)"
    by (rule authed_arrives [where tok = tok]) (use p q t in \<open>simp_all add: live_page_def quiet_def\<close>)
  then have "refreshLoanStats E A w p = sent_page E p t" using False by (simp add: refreshLoanStats_def)
  then show ?thesis using live_page_sent [OF p t(3)] t(2) p q by (simp add: live_page_def quiet_def)
qed

lemma processRepayment_none:
  assumes "normalizeWallet (ir_walletAddress dto) = Inr w" "user_by_wallet w tbl = Some u"
    and "ir_txHash dto = Some h" "h \<noteq> []" "verifyRepayByTxHash gw h w (chain tbl) = Inr (Verified cp)"
    and "h \<notin> close_hashes tbl" and "\<forall>l \<in> set (loans tbl). \<not> payable (user_id u) l"
  shows "processRepayment env gw dto tbl = (Inl (NotFound ''No active loan found to repay''), tbl)"
proof -
  have c: "confirm_repay gw (Some h) w tbl = (Inr cp, tbl)"
    using assms(4,5) by (simp add: confirm_repay_def sbind_def verify_by_txHash_run sret_def)
  have f: "find (\<lambda>l. closeTxHash l = Some h) (loans tbl) = None" using assms(6) by (auto simp: close_hashes_def find_None_iff)
  have "newest startAt (payable (user_id u)) (loans tbl) = None" using assms(7) by (simp add: newest_None)
  then have "close_transaction env dto u cp tbl = (Inl (NotFound ''No active loan found to repay''), tbl)"
    by (simp add: close_transaction_def transaction_def svc_simps)
  then show ?thesis
    using assms(1-4) c f
    by (simp add: processRepayment_def record_repayment_def svc_simps sbind_def [of "confirm_repay _ _ _"] sbind_def [of "close_transaction _ _ _ _"])
qed

lemma open_fresh:
  assumes "normalizeWallet (il_walletAddress dto) = Inr w" "user_by_wallet w tbl = Some u" "il_tenorDays dto \<in> {7, 14, 21}"
    and none: "\<forall>l \<in> set (loans tbl). loan_userId l \<noteq> user_id u" and h: "il_txHash dto \<notin> open_hashes tbl"
    and "verifyLoanOpenedByTxHash gw (il_txHash dto) w (chain tbl) = Inr True"
    "parseAmountHuman env (il_amountHuman dto) = Inr amount"
  shows "\<exists>i new. informLoanOpened env gw dto tbl = (Inr i, tbl\<lparr>loans := loans tbl @ [store_loan new]\<rparr>) \<and>
    openTxHash new = Some (il_txHash dto) \<and> closeTxHash new = None \<and> is_open new"
proof -
  obtain fee where fee: "priced_fee u (il_tenorDays dto) tbl = (Inr fee, tbl)" using priced_fee_run assms(3) by blast
  define mk where "mk c = new_loan u w (formatAmount amount)
           (formatAmount (dadd amount (ddiv (dmul amount (of_int fee)) 10000))) (il_tenorDays dto) fee c (il_txHash dto)" for c
  define new where "new = (mk (now tbl))\<lparr>loan_id := fresh_id loan_id (loans tbl), loan_createdAt := now tbl\<rparr>"
  have f: "find (\<lambda>l. openTxHash l = Some (il_txHash dto)) (loans tbl) = None" using h by (auto simp: open_hashes_def find_None_iff)
  have p: "find (\<lambda>l. loan_userId l = user_id u \<and> status l = OPEN \<and> closedAt l = None) (loans tbl) = None"
    using none by (auto simp: find_None_iff)
  have o: "filter (orphan (user_id u)) (loans tbl) = []" using none by (auto simp: filter_empty_conv orphan_def)
  have "\<not> hash_clash new (loans tbl)" using h by (auto simp: hash_clash_def list_ex_iff new_def mk_def open_hashes_def)
  then have "insert_loan (mk (now tbl)) tbl = (Inr new, tbl\<lparr>loans := loans tbl @ [store_loan new]\<rparr>)"
    by (simp add: insert_loan_def Let_def new_def)
  then have "open_transaction u mk (il_txHash dto) tbl = (Inr (loan_id new), tbl\<lparr>loans := loans tbl @ [store_loan new]\<rparr>)"
    using f p o by (simp add: open_transaction_def transaction_def svc_simps sbind_def [of "insert_loan _"])
  moreover have "check_tenor (il_tenorDays dto) = Inr ()" using assms(3) by (simp only: check_tenor_Inr)
  ultimately have "informLoanOpened env gw dto tbl = (Inr (loan_id new), tbl\<lparr>loans := loans tbl @ [store_loan new]\<rparr>)"
    using assms fee f by (simp add: informLoanOpened_def svc_simps Let_def mk_def [abs_def] sbind_def [of "priced_fee _ _"])
  then show ?thesis by (intro exI [of _ "loan_id new"] exI [of _ new]) (simp add: new_def mk_def is_open_def new_loan_def)
qed

text \<open>A page of a wallet that has both reports in its queues.\<close>

definition entry_open :: "PendingLoanOpen \<Rightarrow> string \<Rightarrow> InformLoanDto" where
  "entry_open e h = \<lparr>il_walletAddress = po_walletAddress e, il_amountHuman = po_amountHuman e, il_tenorDays = po_tenorDays e, il_txHash = h\<rparr>"

lemma quiet_recover_missing:
  assumes q: "quiet E" and p: "live_page (api_cache A) tok w tbl p" and w: "rp_walletAddress e = w" "normalizeWallet w = Inr w"
    and dto: "valid_InformRepaymentDto (entry_dto e)"
    and run: "processRepayment (cfg_env (api_config A)) (cfg_gateway (api_config A)) (entry_dto e) tbl = (Inl (NotFound m), tbl)"
  shows "live_page (api_cache A) tok w tbl (recover_repayment E A w e p)"
    "pendingRepayments (recover_repayment E A w e p) = filter (\<lambda>r. rp_id r \<noteq> rp_id e) (pendingRepayments p)"
    "pendingLoanOpens (recover_repayment E A w e p) = pendingLoanOpens p" "date_now (recover_repayment E A w e p) = date_now p"
proof -
  let ?ep = "post_inform_repayment (api_config A) (api_cache A) (entry_dto e)"
  obtain t where t: "authed E (api_refresh A) ?ep p = (reply (Inl (NotFound m)), sent_page E p t)"
      "live_page (api_cache A) tok w tbl (sent_page E p t)"
    using quiet_repayment [OF q p dto _ run] w by (auto simp: entry_dto_def)
  have "retried E (authed E (api_refresh A) ?ep) p = (Inl (ApiError 404), sent_page E p t)"
    by (rule retried_first) (use t(1) in \<open>simp_all add: reply_def http_status_def isNonRetryableStatus_def\<close>)
  then have r: "recover_repayment E A w e p = refreshLoanStats E A w (removePending E (rp_id e) (sent_page E p t))"
    by (simp add: recover_repayment_def informRepayment_def entry_dto_def)
  let ?p = "removePending E (rp_id e) (sent_page E p t)"
  have x: "pendingRepayments ?p = filter (\<lambda>r. rp_id r \<noteq> rp_id e) (pendingRepayments p)" "pendingLoanOpens ?p = pendingLoanOpens p"
    "date_now ?p = date_now p" "live_page (api_cache A) tok w tbl ?p"
    using q t(2) by (simp_all add: removePending_def writeAll_def quiet_def sent_page_def live_page_def)
  show "live_page (api_cache A) tok w tbl (recover_repayment E A w e p)"
    "pendingRepayments (recover_repayment E A w e p) = filter (\<lambda>r. rp_id r \<noteq> rp_id e) (pendingRepayments p)"
    "pendingLoanOpens (recover_repayment E A w e p) = pendingLoanOpens p" "date_now (recover_repayment E A w e p) = date_now p"
    using quiet_stats [OF q x(4)] x unfolding r by (simp_all add: same_queues_def)
qed

lemma quiet_recover_open:
  assumes q: "quiet E" and p: "live_page (api_cache A) tok w tbl p" and w: "po_walletAddress e = w" "normalizeWallet w = Inr w"
    and dto: "po_txHash e = Some h" "valid_InformLoanDto (entry_open e h)"
    and run: "informLoanOpened (cfg_env (api_config A)) (cfg_gateway (api_config A)) (entry_open e h) tbl = (Inr i, v)"
  shows "live_page (api_cache A) tok w v (recover_open E A w e p)"
    "pendingLoanOpens (recover_open E A w e p) = filter (\<lambda>r. po_id r \<noteq> po_id e) (pendingLoanOpens p)"
    "pendingRepayments (recover_open E A w e p) = pendingRepayments p"
proof -
  let ?ep = "post_inform_open (api_config A) (api_cache A) (po_walletAddress e) (po_amountHuman e) (po_tenorDays e) (po_txHash e)"
  obtain t where t: "authed E (api_refresh A) ?ep p = (reply (Inr i), sent_page E p t)"
      "live_page (api_cache A) tok w v (sent_page E p t)"
    using quiet_open [OF q p dto(2) _ run] w dto(1) by (auto simp: entry_open_def)
  have "retried E (authed E (api_refresh A) ?ep) p = (Inr i, sent_page E p t)"
    by (rule retried_first) (use t(1) in \<open>simp_all add: reply_def\<close>)
  then have r: "recover_open E A w e p = refreshLoanStats E A w (removePendingOpen E (po_id e) (sent_page E p t))"
    by (simp add: recover_open_def informOpen_def)
  let ?p = "removePendingOpen E (po_id e) (sent_page E p t)"
  have x: "pendingLoanOpens ?p = filter (\<lambda>r. po_id r \<noteq> po_id e) (pendingLoanOpens p)" "pendingRepayments ?p = pendingRepayments p"
    "live_page (api_cache A) tok w v ?p"
    using q t(2) by (simp_all add: removePendingOpen_def writeAllOpens_def quiet_def sent_page_def live_page_def)
  show "live_page (api_cache A) tok w v (recover_open E A w e p)"
    "pendingLoanOpens (recover_open E A w e p) = filter (\<lambda>r. po_id r \<noteq> po_id e) (pendingLoanOpens p)"
    "pendingRepayments (recover_open E A w e p) = pendingRepayments p"
    using quiet_stats [OF q x(3)] x unfolding r by (simp_all add: same_queues_def)
qed

lemma quiet_clear:
  assumes "quiet E"
  shows "\<forall>r \<in> set (pendingRepayments p). date_now p - rp_createdAt r < QUEUE_MAX_AGE_MS \<Longrightarrow> clearStale E p = p"
    "\<forall>r \<in> set (pendingLoanOpens p). date_now p - po_createdAt r < QUEUE_MAX_AGE_MS \<Longrightarrow> clearStaleLoanOpens E p = p"
  using assms by (simp_all add: clearStale_def writeAll_def clearStaleLoanOpens_def writeAllOpens_def quiet_def)

section \<open>Properties\<close>

text \<open>
  C9. The recovery does not lose a repayment. When an entry of the queue with a transaction hash is
  gone after a run, it was older than seven days, or the loan table has a loan closed by that
  hash, or at some moment of the run the backend had no loan of the wallet to repay. The network
  may lose requests and answers, the storage may be full, and the backend may do anything else
  meanwhile that keeps the recorded hashes.
\<close>

theorem recovery_safe:
  assumes "calm keeps_hashes E (api_refresh A)" and "\<And>n m. network E n \<noteq> Refused (NotFound m)"
    and "\<And>h a c m. verifyRepayByTxHash (cfg_gateway (api_config A)) h a c \<noteq> Inl (NotFound m)"
    and "distinct (map loan_id (loans (tables_of (backend p))))" and "sent p = []"
    and "distinct (map rp_id (pendingRepayments p))" "distinct (map po_id (pendingLoanOpens p))"
    and "e \<in> set (pendingRepayments p)" "rp_txHash e = Some h" "h \<noteq> []"
    and "useRepaymentRecovery E A mode address primary p = q" "rp_id e \<notin> rp_id ` set (pendingRepayments q)"
  shows "date_now p - rp_createdAt e \<ge> QUEUE_MAX_AGE_MS \<or> h \<in> close_hashes (tables_of (backend q)) \<or>
    (\<exists>s \<in> set (sent q). nothing_to_repay (rp_walletAddress e) (tables_of s))"
proof (cases "date_now p - rp_createdAt e < QUEUE_MAX_AGE_MS")
  case True
  have "q \<noteq> p" using assms(8,12) by blast
  then obtain wallet where q: "q = recover_opens E A wallet (recover_repayments E A wallet p)"
    using assms(11) by (auto simp: useRepaymentRecovery_def Let_def split: option.splits if_splits)
  define p1 where "p1 = recover_repayments E A wallet p"
  note 1 = recover_repayments_run [OF assms(1) p1_def [symmetric] assms(6)]
  have d: "distinct (map po_id (pendingLoanOpens p1))" using 1(2) assms(7) by simp
  note 2 = recover_opens_run [OF assms(1) q [folded p1_def, symmetric] d]
  have "repayment_settled E A e p1" using 1(3) [OF assms(8) _ True] assms(12) 2(2) by simp
  then have "repayment_settled E A e q" using 2(1) by (rule repayment_settled_grows)
  moreover have "grows keeps_hashes p q" using 1(1) 2(1) by (rule hashes.grows_trans)
  ultimately show ?thesis using repayment_settled_means assms(2-5,9,10) by blast
qed simp

text \<open>
  C32. The two queues are recovered in the wrong order for a loan that was opened and repaid while
  the backend could not be reached: the repayment is sent first, finds no loan, is answered with
  404 and dropped; then the opening is recorded. Both queues end up empty, the loan is open in the
  table, and nothing records that it was repaid.
\<close>

theorem recovery_order:
  assumes E: "quiet E" and p: "live_page (api_cache A) tok w tbl p"
    and queues: "pendingRepayments p = [e]" "pendingLoanOpens p = [b]"
    and w: "rp_walletAddress e = w" "po_walletAddress b = w" "normalizeWallet w = Inr w" "w \<noteq> []"
      "normalizeWalletAddress (Some w) None = Some w"
      "normalizeWalletAddress (if mode = Some ''stellar'' \<or> mode = Some ''farcaster'' then primary else orelse address primary) mode = Some w"
    and fresh: "date_now p - rp_createdAt e < QUEUE_MAX_AGE_MS" "date_now p - po_createdAt b < QUEUE_MAX_AGE_MS"
    and valid: "valid_InformRepaymentDto (entry_dto e)" "valid_InformLoanDto (entry_open b h0)"
    and hash: "rp_txHash e = Some h1" "h1 \<noteq> []" "po_txHash b = Some h0" "h1 \<notin> close_hashes tbl" "h0 \<notin> open_hashes tbl"
    and user: "user_by_wallet w tbl = Some u" "\<forall>l \<in> set (loans tbl). loan_userId l \<noteq> user_id u"
    and chain: "verifyRepayByTxHash (cfg_gateway (api_config A)) h1 w (chain tbl) = Inr (Verified cp)"
      "verifyLoanOpenedByTxHash (cfg_gateway (api_config A)) h0 w (chain tbl) = Inr True"
      "parseAmountHuman (cfg_env (api_config A)) (po_amountHuman b) = Inr amount"
  shows "\<exists>q l. useRepaymentRecovery E A mode address primary p = q \<and> pendingRepayments q = [] \<and> pendingLoanOpens q = [] \<and>
    l \<in> set (loans (tables_of (backend q))) \<and> openTxHash l = Some h0 \<and> is_open l \<and> closeTxHash l = None \<and>
    h1 \<notin> close_hashes (tables_of (backend q))"
proof -
  let ?env = "cfg_env (api_config A)" and ?gw = "cfg_gateway (api_config A)"
  have "processRepayment ?env ?gw (entry_dto e) tbl = (Inl (NotFound ''No active loan found to repay''), tbl)"
    using w hash user chain(1) by (intro processRepayment_none [where w = w and h = h1 and cp = cp]) (auto simp: entry_dto_def payable_def)
  note r = quiet_recover_missing [OF E p w(1,3) valid(1) this]
  have t: "il_tenorDays (entry_open b h0) \<in> {7, 14, 21}" using valid(2) by (simp add: valid_InformLoanDto_def)
  have b: "il_walletAddress (entry_open b h0) = w" "il_txHash (entry_open b h0) = h0" "il_amountHuman (entry_open b h0) = po_amountHuman b"
    using w(2) by (simp_all add: entry_open_def)
  obtain i new where new: "informLoanOpened ?env ?gw (entry_open b h0) tbl = (Inr i, tbl\<lparr>loans := loans tbl @ [store_loan new]\<rparr>)"
      "openTxHash new = Some h0" "closeTxHash new = None" "is_open new"
    using open_fresh [OF _ user(1) t user(2), of ?gw ?env amount] w(3) hash(5) chain(2,3) unfolding b by blast
  have "recover_repayments E A w p = recover_repayment E A w e p"
    using quiet_clear(1) [OF E] queues(1) fresh(1) w by (simp add: recover_repayments_def getPendingForWallet_def same_wallet_def)
  moreover have "recover_opens E A w (recover_repayment E A w e p) = recover_open E A w b (recover_repayment E A w e p)"
    using quiet_clear(2) [OF E] r(3,4) queues(2) fresh(2) w
    by (simp add: recover_opens_def getPendingOpensForWallet_def same_wallet_def)
  ultimately have q: "useRepaymentRecovery E A mode address primary p = recover_open E A w b (recover_repayment E A w e p)"
    using w by (simp add: useRepaymentRecovery_def)
  note o = quiet_recover_open [OF E r(1) w(2,3) hash(3) valid(2) new(1)]
  have "tables_of (backend (recover_open E A w b (recover_repayment E A w e p))) = tbl\<lparr>loans := loans tbl @ [store_loan new]\<rparr>"
    using o(1) by (simp add: live_page_def)
  then show ?thesis
    using q o(2,3) r(2,3) queues new hash(4)
    by (intro exI [of _ "recover_open E A w b (recover_repayment E A w e p)"] exI [of _ "store_loan new"]) (simp add: close_hashes_def)
qed

section \<open>Lost answers\<close>

text \<open>The instance of the same frame for what leaves the tables alone.\<close>

definition same_tables_of :: "('x, 'k, 'c) server \<Rightarrow> ('x, 'k, 'c) server \<Rightarrow> bool" where
  "same_tables_of s t \<longleftrightarrow> tables_of t = tables_of s"

interpretation still: persistence same_tables_of
  by unfold_locales (simp_all add: same_tables_of_def)

lemma repaid_still_user:
  assumes "repaid_by env gw dto s x s' w user cp loan paid"
  shows "\<exists>u. user_by_wallet w s' = Some u"
proof -
  have user: "user \<in> set (users s)" "walletAddress user = w" using assms user_by_walletD by (fastforce simp: repaid_by_def)+
  have put: "\<exists>u \<in> set (put_row user_id r rows). walletAddress u = w"
    if "\<exists>u \<in> set rows. walletAddress u = w" "walletAddress r = w" for r :: User and rows
    using that by (auto simp: set_put_row)
  define pd where "pd = (now s - dueAt loan > DEFAULT_LATE_PERIOD_MS)"
  define u' where "u' = (if pd \<and> \<not> hadDefaultEver user then user\<lparr>hadDefaultEver := True\<rparr> else user)"
  from assms obtain s1 n u where "users s1 = (if pd \<and> \<not> hadDefaultEver user then put_row user_id (store_user u') (users s) else users s)"
    and eff: "credit_effect env u' (rr_repaidOnTime x) pd n s1 (Inr u) s'"
    unfolding repaid_by_def Let_def pd_def [symmetric] u'_def [symmetric] by blast
  moreover have u': "walletAddress u' = w" using user(2) by (simp add: u'_def)
  ultimately have "\<exists>u \<in> set (users s1). walletAddress u = w"
    using user put [of "users s" "store_user u'"] by (auto simp: store_user_def)
  then have s1: "\<exists>u \<in> set (users s1). walletAddress u = w" .
  have "\<exists>u \<in> set (users s'). walletAddress u = w"
  proof -
    consider "users s' = users s1" | r where "users s' = put_row user_id (store_user r) (users s1)" "walletAddress r = walletAddress u'"
      using eff unfolding credit_effect_def by force
    then show ?thesis using s1 put u' by cases (simp_all add: store_user_def)
  qed
  then have "user_by_wallet w s' \<noteq> None" by (auto simp: user_by_wallet_def find_None_iff)
  then show ?thesis by blast
qed

lemma processRepayment_again:
  assumes "normalizeWallet (ir_walletAddress dto) = Inr w" "user_by_wallet w tbl = Some u"
    and "ir_txHash dto = Some h" "h \<noteq> []" "verifyRepayByTxHash gw h w (chain tbl) = Inr (Verified cp)" and h: "h \<in> close_hashes tbl"
  shows "\<exists>a. processRepayment env gw dto tbl = (Inr a, tbl)"
proof -
  have c: "confirm_repay gw (Some h) w tbl = (Inr cp, tbl)"
    using assms(4,5) by (simp add: confirm_repay_def sbind_def verify_by_txHash_run sret_def)
  obtain l where "find (\<lambda>l. closeTxHash l = Some h) (loans tbl) = Some l"
    using h by (auto simp: close_hashes_def) (metis (mono_tags, lifting) find_None_iff option.exhaust)
  then show ?thesis
    using assms(1-4) c by (simp add: processRepayment_def record_repayment_def svc_simps sbind_def [of "confirm_repay _ _ _"])
qed

text \<open>The tables before the repayment is recorded and after it.\<close>

definition paid_once :: "'c world \<Rightarrow> Loan \<Rightarrow> string \<Rightarrow> 'c world \<Rightarrow> bool" where
  "paid_once tbl loan h v \<longleftrightarrow>
     (\<exists>paid. loans v = put_row loan_id (store_loan (closed_loan loan paid (now tbl) (Some h))) (loans tbl))"

definition payment_due :: "env \<Rightarrow> 'c BlockchainGatewayPort \<Rightarrow> InformRepaymentDto \<Rightarrow> string \<Rightarrow> string \<Rightarrow> 'c world \<Rightarrow> Loan \<Rightarrow> bool" where
  "payment_due env gw dto w h tbl loan \<longleftrightarrow>
     normalizeWallet (ir_walletAddress dto) = Inr w \<and> ir_txHash dto = Some h \<and> h \<noteq> [] \<and>
     (\<forall>c. \<exists>cp. verifyRepayByTxHash gw h w c = Inr (Verified cp)) \<and>
     (\<exists>a. parseAmountHuman env (ir_amountPaidHuman dto) = Inr a) \<and> wf_loans tbl \<and> h \<notin> close_hashes tbl \<and>
     (\<exists>u. user_by_wallet w tbl = Some u \<and> newest startAt (payable (user_id u)) (loans tbl) = Some loan)"

definition stage :: "'c world \<Rightarrow> Loan \<Rightarrow> string \<Rightarrow> string \<Rightarrow> 'c world \<Rightarrow> bool" where
  "stage tbl loan w h v \<longleftrightarrow> v = tbl \<or> paid_once tbl loan h v \<and> (\<exists>u. user_by_wallet w v = Some u)"

lemma paid_closes: "loan \<in> set (loans tbl) \<Longrightarrow> paid_once tbl loan h v \<Longrightarrow> h \<in> close_hashes v"
proof -
  assume l: "loan \<in> set (loans tbl)" and "paid_once tbl loan h v"
  then obtain paid where v: "loans v = put_row loan_id (store_loan (closed_loan loan paid (now tbl) (Some h))) (loans tbl)"
    by (auto simp: paid_once_def)
  have "store_loan (closed_loan loan paid (now tbl) (Some h)) \<in> set (loans v)"
    unfolding v using l by (intro put_row_same) simp_all
  then show "h \<in> close_hashes v" by (force simp: close_hashes_def)
qed

lemma stage_run:
  assumes due: "payment_due env gw dto w h tbl loan" and "stage tbl loan w h v"
  shows "\<exists>a t. processRepayment env gw dto v = (Inr a, t) \<and> stage tbl loan w h t \<and> paid_once tbl loan h t"
proof -
  note wallet = due [unfolded payment_due_def, THEN conjunct1]
  have hash: "ir_txHash dto = Some h" "h \<noteq> []" and confirmed: "\<And>c. \<exists>cp. verifyRepayByTxHash gw h w c = Inr (Verified cp)"
    and wf: "wf_loans tbl" "h \<notin> close_hashes tbl" using due by (auto simp: payment_due_def)
  obtain a where a: "parseAmountHuman env (ir_amountPaidHuman dto) = Inr a" using due unfolding payment_due_def by blast
  obtain u where u: "user_by_wallet w tbl = Some u" "newest startAt (payable (user_id u)) (loans tbl) = Some loan"
    using due unfolding payment_due_def by blast
  have loan: "loan \<in> set (loans tbl)" using newest_Some [OF u(2)] by blast
  show ?thesis
  proof (cases "v = tbl")
    case True
    obtain cp where "verifyRepayByTxHash gw h w (chain tbl) = Inr (Verified cp)" using confirmed by blast
    then have c: "confirm_repay gw (ir_txHash dto) w tbl = (Inr cp, tbl)"
      using hash by (simp add: confirm_repay_def sbind_def verify_by_txHash_run sret_def)
    have n: "falsy_str (ir_txHash dto) \<or> (\<forall>l \<in> set (loans tbl). closeTxHash l \<noteq> ir_txHash dto)"
      using wf(2) hash by (auto simp: close_hashes_def)
    have i: "\<not> hash_clash (closed_loan loan p (now tbl) (ir_txHash dto)) (loans tbl)" for p
    proof -
      have "closeTxHash k \<noteq> Some h \<and> (openTxHash loan = None \<or> openTxHash k \<noteq> openTxHash loan)"
        if "k \<in> set (loans tbl)" "loan_id k \<noteq> loan_id loan" for k
      proof
        show "closeTxHash k \<noteq> Some h" using that wf(2) by (auto simp: close_hashes_def)
        show "openTxHash loan = None \<or> openTxHash k \<noteq> openTxHash loan"
          using that wf(1) loan unfolding wf_loans_def by metis
      qed
      then show ?thesis using hash by (auto simp: hash_clash_def list_ex_iff)
    qed
    from processRepayment_ok [OF wallet u(1) c n u(2) i a] obtain x t paid where
      t: "processRepayment env gw dto tbl = (Inr (Repaid x), t)"
        "loans t = put_row loan_id (store_loan (closed_loan loan paid (now tbl) (ir_txHash dto))) (loans tbl)" by blast
    then have "paid_once tbl loan h t" using hash by (auto simp: paid_once_def)
    moreover have "\<exists>u. user_by_wallet w t = Some u"
      using Repaid_run [OF t(1)] repaid_still_user wallet by (metis repaid_by_def sum.inject(2))
    ultimately show ?thesis using t(1) True by (auto simp: stage_def)
  next
    case False
    then obtain u where v: "paid_once tbl loan h v" "user_by_wallet w v = Some u" using assms by (auto simp: stage_def)
    obtain cp where "verifyRepayByTxHash gw h w (chain v) = Inr (Verified cp)" using confirmed by blast
    from processRepayment_again [OF wallet v(2) hash this paid_closes [OF loan v(1)], of env] show ?thesis
      using assms v(1) by blast
  qed
qed

lemma retry_lost:
  assumes lost: "\<And>p. I p \<Longrightarrow> network E (length (sent p)) \<in> {Request_lost, Answer_lost} \<Longrightarrow>
      \<exists>q. f p = (Inl NetworkError, q) \<and> I q \<and> length (sent q) = Suc (length (sent p))"
    and arrives: "\<And>p. I p \<Longrightarrow> network E (length (sent p)) = Arrives \<Longrightarrow> \<exists>a q. f p = (Inr a, q) \<and> J q"
    and wait: "\<And>p t. I p \<Longrightarrow> I (p\<lparr>date_now := t\<rparr>)" and sr: "sr NetworkError"
  shows "k + j \<le> m \<Longrightarrow> \<forall>i < j. network E (length (sent p) + i) \<in> {Request_lost, Answer_lost} \<Longrightarrow>
    network E (length (sent p) + j) = Arrives \<Longrightarrow> I p \<Longrightarrow> \<exists>a q. retry_from E m b sr f k p = (Inr a, q) \<and> J q"
proof (induction j arbitrary: k p)
  case 0
  then obtain a q where "f p = (Inr a, q)" "J q" using arrives [of p] by auto
  then show ?case using 0(1) by (simp add: retry_from.simps [of _ _ _ _ _ k p])
next
  case (Suc j)
  from Suc.prems(2) have "network E (length (sent p) + 0) \<in> {Request_lost, Answer_lost}" by blast
  then obtain q where q: "f p = (Inl NetworkError, q)" "I q" "length (sent q) = Suc (length (sent p))"
    using lost [OF Suc.prems(4)] by auto
  let ?q = "q\<lparr>date_now := date_now q + \<lfloor>backoff_ms E b k q\<rfloor>\<rparr>"
  have "\<forall>i < j. network E (length (sent ?q) + i) \<in> {Request_lost, Answer_lost}"
    using Suc.prems(2) q(3) by (metis Suc_less_eq add_Suc_shift page.select_convs(6) page.surjective page.update_convs(5))
  moreover have "network E (length (sent ?q) + j) = Arrives" using Suc.prems(3) q(3) by simp
  ultimately obtain a r where r: "retry_from E m b sr f (k + 1) ?q = (Inr a, r)" "J r"
    using Suc.IH [of "k + 1" ?q] Suc.prems(1) wait [OF q(2)] by auto
  have "retry_from E m b sr f k p = retry_from E m b sr f (k + 1) ?q"
    using q(1) sr Suc.prems(1) by (simp add: retry_from.simps [of _ _ _ _ _ k p])
  then show ?case using r by simp
qed

definition reporting :: "'k CacheStore \<Rightarrow> string \<Rightarrow> string \<Rightarrow> string \<Rightarrow> 'c world \<Rightarrow> Loan \<Rightarrow> PendingRepayment list \<Rightarrow> ('x, 'k, 'c) server page \<Rightarrow> bool" where
  "reporting C tok w h tbl loan es p \<longleftrightarrow> accessToken p = Some tok \<and> tok \<noteq> [] \<and>
     logged_in C (Some (''Bearer '' @ tok)) w (srv_auth (backend p)) \<and> stage tbl loan w h (tables_of (backend p)) \<and>
     pendingRepayments p = es \<and> pendingLoanOpens p = []"

lemma reporting_endpoint:
  assumes D: "payment_due (cfg_env D) (cfg_gateway D) dto w h tbl loan" "valid_InformRepaymentDto dto"
    and s: "logged_in C (Some (''Bearer '' @ tok)) w (srv_auth s)" "stage tbl loan w h (tables_of s)"
  shows "\<exists>a t. post_inform_repayment D C dto (Some (''Bearer '' @ tok)) s = (Inr a, t) \<and>
    logged_in C (Some (''Bearer '' @ tok)) w (srv_auth t) \<and> stage tbl loan w h (tables_of t) \<and> paid_once tbl loan h (tables_of t)"
proof -
  obtain a v where v: "processRepayment (cfg_env D) (cfg_gateway D) dto (tables_of s) = (Inr a, v)" "stage tbl loan w h v" "paid_once tbl loan h v"
    using stage_run [OF D(1) s(2)] by (elim exE conjE)
  have w: "normalizeWallet (ir_walletAddress dto) = Inr w" using D(1) by (simp add: payment_due_def)
  obtain t where t: "owned C (Some (''Bearer '' @ tok)) (ir_walletAddress dto) (on_tables (processRepayment (cfg_env D) (cfg_gateway D) dto)) s = (Inr a, t)"
    "tables_of t = v" "logged_in C (Some (''Bearer '' @ tok)) w (srv_auth t)" using owned_logged_in [OF s(1) w, where m = "processRepayment (cfg_env D) (cfg_gateway D) dto", OF v(1)] .
  then have "post_inform_repayment D C dto (Some (''Bearer '' @ tok)) s = (Inr a, t)"
    using D(2) by (simp only: post_inform_repayment_def LoanController_informRepayment_def if_True)
  moreover have "stage tbl loan w h (tables_of t)" "paid_once tbl loan h (tables_of t)" unfolding t(2) by (rule v(2), rule v(3))
  ultimately show ?thesis using t(3) by blast
qed

lemma reporting_retried:
  fixes A :: "('x, 'k, 'c) api" and p :: "('x, 'k, 'c) server page"
  assumes D: "payment_due (cfg_env (api_config A)) (cfg_gateway (api_config A)) dto w h tbl loan" "valid_InformRepaymentDto dto"
    and E: "\<forall>n s. tables_of (meanwhile E n s) = tables_of s"
      "\<forall>n s. logged_in (api_cache A) (Some (''Bearer '' @ tok)) w (srv_auth s) \<longrightarrow> logged_in (api_cache A) (Some (''Bearer '' @ tok)) w (srv_auth (meanwhile E n s))"
    and net: "j < 3" "\<forall>i < j. network E (length (sent p) + i) \<in> {Request_lost, Answer_lost}" "network E (length (sent p) + j) = Arrives"
    and p: "reporting (api_cache A) tok w h tbl loan es p"
  shows "\<exists>a q. retried E (authed E (api_refresh A) (post_inform_repayment (api_config A) (api_cache A) dto)) p = (Inr a, q) \<and>
    reporting (api_cache A) tok w h tbl loan es q \<and> paid_once tbl loan h (tables_of (backend q))"
proof -
  let ?ep = "post_inform_repayment (api_config A) (api_cache A) dto" and ?I = "reporting (api_cache A) tok w h tbl loan es :: ('x, 'k, 'c) server page \<Rightarrow> bool"
  let ?J = "\<lambda>q. ?I q \<and> paid_once tbl loan h (tables_of (backend q))"
  have run: "\<exists>a t. ?ep (Some (''Bearer '' @ tok)) (meanwhile E (length (sent p)) (backend p)) = (Inr a, t) \<and> ?I (sent_page E p t) \<and>
      paid_once tbl loan h (tables_of t) \<and> ?I (sent_page E p (meanwhile E (length (sent p)) (backend p)))" if "?I p" for p
  proof -
    have s: "logged_in (api_cache A) (Some (''Bearer '' @ tok)) w (srv_auth (meanwhile E (length (sent p)) (backend p)))"
      "stage tbl loan w h (tables_of (meanwhile E (length (sent p)) (backend p)))" using that E by (simp_all add: reporting_def)
    show ?thesis using reporting_endpoint [OF D s] that s unfolding reporting_def by (force simp: sent_page_def)
  qed
  have "\<exists>a q. retry_from E 3 1000 (\<lambda>err. \<not> isNonRetryableStatus err) (authed E (api_refresh A) ?ep) 1 p = (Inr a, q) \<and> ?J q"
  proof (rule retry_lost [where I = ?I and j = j])
    fix p assume i: "?I p"
    then have tok: "accessToken p = Some tok" "tok \<noteq> []" by (simp_all add: reporting_def)
    obtain a t where t: "?ep (Some (''Bearer '' @ tok)) (meanwhile E (length (sent p)) (backend p)) = (Inr a, t)" "?I (sent_page E p t)"
      "paid_once tbl loan h (tables_of t)" "?I (sent_page E p (meanwhile E (length (sent p)) (backend p)))" using run [OF i] by (elim exE conjE)
    show "\<exists>q. authed E (api_refresh A) ?ep p = (Inl NetworkError, q) \<and> ?I q \<and> length (sent q) = Suc (length (sent p))"
      if "network E (length (sent p)) \<in> {Request_lost, Answer_lost}"
      using authed_lost [where endpoint = ?ep, OF tok that t(1), of "api_refresh A"] t(2,4) by auto
    show "\<exists>a q. authed E (api_refresh A) ?ep p = (Inr a, q) \<and> ?J q" if "network E (length (sent p)) = Arrives"
      using authed_arrives [where endpoint = ?ep, OF tok that t(1), of "api_refresh A"] t(2,3) by (simp add: reply_def)
    show "?I (p\<lparr>date_now := u\<rparr>)" for u using i by (simp add: reporting_def)
  qed (use net p in \<open>simp_all add: isNonRetryableStatus_def\<close>)
  then show ?thesis by (simp add: retried_def retryWithBackoff_def)
qed

text \<open>
  C10. A repayment whose answers are lost is recorded exactly once. With a live session and a loan
  to repay, when two of the three tries may lose the request or its answer and the last one
  arrives, the recovery empties the queue, and the loan table differs from the one before by the
  one loan that the transaction closed.
\<close>

theorem recovery_exactly_once:
  fixes A :: "('x, 'k, 'c) api"
  assumes calm: "calm same_tables_of E (api_refresh A)"
    and session: "\<And>n s. logged_in (api_cache A) (Some (''Bearer '' @ tok)) w (srv_auth s) \<Longrightarrow>
      logged_in (api_cache A) (Some (''Bearer '' @ tok)) w (srv_auth (meanwhile E n s))"
    and storage: "\<And>n. \<not> storageFull E n"
    and net: "j < 3" "\<forall>i < j. network E i \<in> {Request_lost, Answer_lost}" "network E j = Arrives"
    and p: "live_page (api_cache A) tok w tbl p" "sent p = []" "pendingRepayments p = [e]" "pendingLoanOpens p = []"
    and w: "rp_walletAddress e = w" "w \<noteq> []" "normalizeWalletAddress (Some w) None = Some w"
      "normalizeWalletAddress (if mode = Some ''stellar'' \<or> mode = Some ''farcaster'' then primary else orelse address primary) mode = Some w"
    and e: "date_now p - rp_createdAt e < QUEUE_MAX_AGE_MS" "valid_InformRepaymentDto (entry_dto e)"
    and due: "payment_due (cfg_env (api_config A)) (cfg_gateway (api_config A)) (entry_dto e) w h tbl loan"
  shows "\<exists>q paid. useRepaymentRecovery E A mode address primary p = q \<and> pendingRepayments q = [] \<and>
    loans (tables_of (backend q)) = put_row loan_id (store_loan (closed_loan loan paid (now tbl) (Some h))) (loans tbl)"
proof -
  have session': "\<forall>n s. logged_in (api_cache A) (Some (''Bearer '' @ tok)) w (srv_auth s) \<longrightarrow>
      logged_in (api_cache A) (Some (''Bearer '' @ tok)) w (srv_auth (meanwhile E n s))" using session by blast
  have m: "\<forall>n s. tables_of (meanwhile E n s) = tables_of s" using calm by (simp add: calm_def same_tables_of_def)
  have r0: "reporting (api_cache A) tok w h tbl loan [e] p" using p by (simp add: live_page_def reporting_def stage_def)
  have n: "\<forall>i < j. network E (length (sent p) + i) \<in> {Request_lost, Answer_lost}" "network E (length (sent p) + j) = Arrives"
    using net p(2) by simp_all
  obtain a q where q: "retried E (authed E (api_refresh A) (post_inform_repayment (api_config A) (api_cache A) (entry_dto e))) p = (Inr a, q)"
      "reporting (api_cache A) tok w h tbl loan [e] q" "paid_once tbl loan h (tables_of (backend q))"
    using reporting_retried [OF due e(2) m session' net(1) n r0] by (elim exE conjE)
  let ?q = "removePending E (rp_id e) q" and ?ep = "\<lambda>header. UserController_getByWallet (api_cache A) header (js_trim w)"
  have x: "pendingRepayments ?q = []" "pendingLoanOpens ?q = []" "tables_of (backend ?q) = tables_of (backend q)"
    using q(2) storage by (simp_all add: reporting_def removePending_def writeAll_def)
  have mono: "same_tables_of s (snd (?ep header s))" for header and s :: "('x, 'k, 'c) server"
    using getByWallet_run [OF prod.collapse [symmetric]] by (simp add: same_tables_of_def)
  define z where "z = refreshLoanStats E A w ?q"
  have "grows same_tables_of ?q z \<and> same_queues ?q z"
    using still.authed_run [OF calm mono prod.collapse [symmetric], of ?q]
    by (auto simp: z_def refreshLoanStats_def still.grows_refl same_queues_def)
  then have z: "pendingRepayments z = []" "pendingLoanOpens z = []" "tables_of (backend z) = tables_of (backend q)"
    using x by (simp_all add: grows_def same_queues_def same_tables_of_def)
  have s: "clearStale E p = p" using e(1) p(3) storage by (simp add: clearStale_def writeAll_def)
  have "recover_repayment E A w e p = z"
    using q(1) by (simp add: recover_repayment_def informRepayment_def entry_dto_def z_def)
  then have r: "recover_repayments E A w p = z"
    using s p(3) w by (simp add: recover_repayments_def getPendingForWallet_def same_wallet_def)
  have "recover_opens E A w z = z" using z(2) by (simp add: recover_opens_def clearStaleLoanOpens_def writeAllOpens_def getPendingOpensForWallet_def)
  then have "useRepaymentRecovery E A mode address primary p = z" using r w by (simp add: useRepaymentRecovery_def)
  then show ?thesis using z q(3) by (auto simp: paid_once_def)
qed

section \<open>Bounds of a report\<close>

lemma fl_le: "0 \<le> x \<Longrightarrow> fl x \<le> x + x / 2 ^ 53"
  using fl_error [of x] abs_ge_self [of "fl x - x"] by simp

lemma backoff_bound:
  assumes r: "0 \<le> mathRandom E (length (sent p))" "mathRandom E (length (sent p)) < 1" and k: "k = 1 \<or> k = 2"
  shows "\<lfloor>backoff_ms E 1000 k p\<rfloor> \<le> 1200 * int k"
proof -
  define a where "a = lit 8 1"
  define b where "b = lit 4 1"
  define c where "c = fmul (mathRandom E (length (sent p))) b"
  have a: "0 \<le> a" "a \<le> 8 / 10 + 8 / 10 / 2 ^ 53" unfolding a_def using fl_le [of "8 / 10"] by (simp_all add: lit_def fl_nonneg)
  have b: "0 \<le> b" "b \<le> 4 / 10 + 4 / 10 / 2 ^ 53" unfolding b_def using fl_le [of "4 / 10"] by (simp_all add: lit_def fl_nonneg)
  have "mathRandom E (length (sent p)) * b \<le> 1 * b" using r b(1) by (intro mult_right_mono) simp_all
  then have "c \<le> fl b" unfolding c_def fmul_def using fl_mono by simp
  then have c: "c \<le> b" by (simp add: b_def lit_def)
  have c0: "0 \<le> c" using r b(1) by (simp add: c_def fmul_def fl_nonneg)
  define d where "d = fadd a c"
  have d0: "0 \<le> d" using a(1) c0 by (simp add: d_def fadd_def fl_nonneg)
  have "d \<le> fl (a + b)" unfolding d_def fadd_def using c by (intro fl_mono) simp
  also have "\<dots> \<le> (a + b) + (a + b) / 2 ^ 53" using a(1) b(1) by (intro fl_le) simp
  finally have d1: "d \<le> (a + b) + (a + b) / 2 ^ 53" .
  have ab: "a + b \<le> 12000001 / 10000000" using a(2) b(2) by simp
  have "(a + b) / 2 ^ 53 \<le> 12000001 / 10000000 / 2 ^ 53" using ab by (intro divide_right_mono) simp_all
  also have "\<dots> \<le> 1 / 100000" by simp
  finally have "(a + b) / 2 ^ 53 \<le> 1 / 100000" .
  then have d: "d \<le> 12001 / 10000" using d1 ab by linarith
  have "fl (1000 * 2 ^ (k - 1)) = 1000 * of_nat k" using k fl_of_int [of 1000] fl_of_int [of 2000] by auto
  then have "backoff_ms E 1000 k p = fl (1000 * of_nat k * d)"
    by (simp add: backoff_ms_def fmul_def [of 1000] a_def b_def c_def d_def) (simp add: fmul_def)
  also have "\<dots> \<le> 1000 * of_nat k * d + 1000 * of_nat k * d / 2 ^ 53" using d0 by (intro fl_le) simp
  also have "\<dots> < 1200 * of_nat k + 1" using k d d0 by auto
  finally have "backoff_ms E 1000 k p < of_int (1200 * int k + 1)" by simp
  then have "\<lfloor>backoff_ms E 1000 k p\<rfloor> < 1200 * int k + 1" by (simp only: floor_less_iff)
  then show ?thesis by simp
qed

definition silent :: "('s, string option) action \<Rightarrow> bool" where
  "silent refresh \<longleftrightarrow> (\<forall>p. sent (snd (refresh p)) = sent p \<and> date_now (snd (refresh p)) = date_now p)"

definition took :: "'s page \<Rightarrow> 's page \<Rightarrow> nat \<Rightarrow> nat \<Rightarrow> int \<Rightarrow> bool" where
  "took p q lo hi t \<longleftrightarrow> length (sent p) + lo \<le> length (sent q) \<and> length (sent q) \<le> length (sent p) + hi \<and> date_now q \<le> date_now p + t"

lemma doFetch_took: "doFetch E endpoint token p = (res, q) \<Longrightarrow> length (sent q) = Suc (length (sent p)) \<and> date_now q = date_now p + latency E (length (sent p))"
  by (auto simp: doFetch_def Let_def split: delivery.splits)

lemma authed_took:
  assumes s: "silent refresh" and L: "\<And>n. 0 \<le> latency E n \<and> latency E n \<le> L" and run: "authed E refresh endpoint p = (r, q)"
  shows "took p q 1 2 (2 * L) \<and> r \<noteq> Inl Undefined"
proof -
  obtain res failed where f: "fetchWithAuthRetry E refresh endpoint p = ((res, failed), q)"
    and r: "r = (if failed then Inl AuthError
          else case res of None \<Rightarrow> Inl NetworkError | Some (Inl e) \<Rightarrow> Inl (ApiError (http_status e)) | Some (Inr a) \<Rightarrow> Inr a)"
    using run by (auto simp: authed_def Let_def split: prod.splits)
  have rs: "refresh p' = (t, p'') \<Longrightarrow> sent p'' = sent p' \<and> date_now p'' = date_now p'" for p' t p''
    using s by (auto simp: silent_def dest: spec [of _ p'])
  have l: "0 \<le> L" using L [of 0] by simp
  have "took p q 1 2 (2 * L)"
  proof (cases "falsy_str (accessToken p)")
    case True
    obtain t p1 where 1: "refresh p = (t, p1)" by fastforce
    obtain t' where 2: "doFetch E endpoint t' p1 = (res, q)"
      using f True 1 by (auto simp: fetchWithAuthRetry_def Let_def split: if_splits prod.splits)
    show ?thesis using rs [OF 1] doFetch_took [OF 2] L [of "length (sent p)"] l by (simp add: took_def)
  next
    case False
    obtain res1 p1 where 1: "doFetch E endpoint (accessToken p) p = (res1, p1)" by fastforce
    obtain t p2 where 2: "refresh p1 = (t, p2)" by fastforce
    obtain res2 p3 where 3: "doFetch E endpoint t p2 = (res2, p3)" by fastforce
    consider "q = p1" | "q = p2" | "q = p3"
      using f False 1 2 3 by (auto simp: fetchWithAuthRetry_def Let_def split: if_splits)
    then show ?thesis
      using doFetch_took [OF 1] rs [OF 2] doFetch_took [OF 3] L [of "length (sent p)"] L [of "Suc (length (sent p))"]
      by cases (simp_all add: took_def)
  qed
  moreover have "r \<noteq> Inl Undefined" using r by (auto split: if_splits option.splits sum.splits)
  ultimately show ?thesis by blast
qed

lemma took_trans: "took p q a b s \<Longrightarrow> took q r c d t \<Longrightarrow> took p r (a + c) (b + d) (s + t)"
  by (simp add: took_def)

lemma took_weaken: "took p q a b s \<Longrightarrow> a' \<le> a \<Longrightarrow> b \<le> b' \<Longrightarrow> s \<le> t \<Longrightarrow> took p q a' b' t"
  by (simp add: took_def)

text \<open>
  A report to the backend is bounded. Whatever the network and the backend answer, it takes
  one to six requests (three tries, each repeated at most once with a fresh token), and ends
  within the time of these requests and 3.6 seconds of waiting, for any random numbers of the
  backoff. The requests and the time of a refresh are not counted.
\<close>

theorem report_bounded:
  assumes "silent refresh" and "\<And>n. 0 \<le> latency E n \<and> latency E n \<le> L" and "\<And>n. 0 \<le> mathRandom E n \<and> mathRandom E n < 1"
    and "retried E (authed E refresh endpoint) p = (r, q)"
  shows "length (sent p) + 1 \<le> length (sent q) \<and> length (sent q) \<le> length (sent p) + 6 \<and>
    date_now q \<le> date_now p + 6 * L + 3600 \<and> r \<noteq> Inl Undefined"
proof -
  let ?f = "authed E refresh endpoint" and ?sr = "\<lambda>err. \<not> isNonRetryableStatus err"
  have l: "0 \<le> L" using assms(2) [of 0] by simp
  have call: "?f x = (y, z) \<Longrightarrow> took x z 1 2 (2 * L) \<and> y \<noteq> Inl Undefined" for x y z
    by (rule authed_took [OF assms(1,2)])
  define nap where "nap k x = x\<lparr>date_now := date_now x + \<lfloor>backoff_ms E 1000 k x\<rfloor>\<rparr>" for k and x :: "'a page"
  have nap: "took x (nap k x) 0 0 (1200 * int k)" if "k = 1 \<or> k = 2" for k x
    using backoff_bound [of E x k] assms(3) that by (auto simp: nap_def took_def)
  obtain r1 p1 where 1: "?f p = (r1, p1)" by fastforce
  obtain r2 p2 where 2: "?f (nap 1 p1) = (r2, p2)" by fastforce
  obtain r3 p3 where 3: "?f (nap 2 p2) = (r3, p3)" by fastforce
  have s1: "took p p1 1 2 (2 * L)" using call [OF 1] by simp
  have s2: "took p p2 (Suc (Suc 0)) 4 (4 * L + 1200)"
    using took_trans [OF took_trans [OF s1 nap [of 1 p1]] conjunct1 [OF call [OF 2]]] by simp
  have s3: "took p p3 (Suc (Suc (Suc 0))) 6 (6 * L + 3600)"
    using took_trans [OF took_trans [OF s2 nap [of 2 p2]] conjunct1 [OF call [OF 3]]] by simp
  have "retry_from E 3 1000 ?sr ?f 3 (nap 2 p2) = (r3, p3)"
    using 3 by (simp add: retry_from.simps [of _ _ _ _ _ 3] split: sum.splits)
  then have k2: "retry_from E 3 1000 ?sr ?f 2 (nap 1 p1) \<in> {(r2, p2), (r3, p3)}"
    using 2 by (auto simp: retry_from.simps [of _ _ _ _ _ 2] nap_def split: sum.splits)
  have "retry_from E 3 1000 ?sr ?f 1 p \<in> {(r1, p1), retry_from E 3 1000 ?sr ?f 2 (nap 1 p1)}"
    using 1 by (subst retry_from.simps) (auto simp: nap_def numeral_2_eq_2 split: sum.splits)
  then consider "r = r1" "q = p1" | "r = r2" "q = p2" | "r = r3" "q = p3"
    using assms(4) k2 by (auto simp: retried_def retryWithBackoff_def)
  then have "took p q 1 6 (6 * L + 3600) \<and> r \<noteq> Inl Undefined"
    using s1 s2 s3 call [OF 1] call [OF 2] call [OF 3] l by cases (auto elim: took_weaken)
  then show ?thesis by (simp add: took_def)
qed

section \<open>Examples\<close>

text \<open>
  A page of the wallet that is logged in at the server of \<open>Http_Api\<close>, with a gateway that
  confirms every transaction.
\<close>

definition recovery_gw :: "fake_kyc BlockchainGatewayPort" where
  "recovery_gw = fake_gw\<lparr>verifyRepayByTxHash := (\<lambda>h w c. Inr (Verified (Some 10000000)))\<rparr>"

definition recovery_api :: "(unit, map_cache, fake_kyc) api" where
  "recovery_api = \<lparr>api_config = demo_config\<lparr>cfg_gateway := recovery_gw\<rparr>, api_cache = map_store, api_refresh = (\<lambda>p. (None, p))\<rparr>"

definition open_hash :: string where "open_hash = replicate 64 (CHR ''a'')"
definition close_hash :: string where "close_hash = replicate 64 (CHR ''b'')"

definition queued_repayment :: PendingRepayment where
  "queued_repayment = \<lparr>rp_id = ''r'', rp_walletAddress = auth_account, rp_amountPaidHuman = ''1'', rp_txHash = Some close_hash,
     rp_createdAt = 0, rp_attempts = 0, rp_lastAttemptAt = None\<rparr>"

definition queued_open :: PendingLoanOpen where
  "queued_open = \<lparr>po_id = ''o'', po_walletAddress = auth_account, po_amountHuman = ''1'', po_tenorDays = 7, po_txHash = Some open_hash,
     po_createdAt = 0, po_attempts = 0, po_lastAttemptAt = None\<rparr>"

definition recovery_tables :: "Loan list \<Rightarrow> fake_kyc world" where
  "recovery_tables ls = fake_world\<lparr>users := [pending_user], loans := ls\<rparr>"

definition recovery_page :: "Loan list \<Rightarrow> PendingLoanOpen list \<Rightarrow> (unit, map_cache, fake_kyc) server page" where
  "recovery_page ls os = \<lparr>backend = \<lparr>srv_auth = login_auth, srv_onb = (onb_state [] [])\<lparr>ob_world := recovery_tables ls\<rparr>\<rparr>,
     accessToken = Some token1, pendingRepayments = [queued_repayment], pendingLoanOpens = os, date_now = 0, sent = []\<rparr>"

definition recovery_net :: "(nat \<Rightarrow> delivery) \<Rightarrow> 's outside" where
  "recovery_net d = \<lparr>network = d, meanwhile = (\<lambda>n s. s), latency = (\<lambda>n. 0), mathRandom = (\<lambda>n. 0), storageFull = (\<lambda>n. False)\<rparr>"

lemma to_digits_Suc: "to_digits b (Suc k) n = (n div b ^ k mod b) # to_digits b k n"
  by (induction k arbitrary: n) (simp_all add: div_mult2_eq)

text \<open>The browser accepts the account id of every key.\<close>

lemma account_id_pattern:
  assumes "length key = 32"
  shows "STELLAR_ACCOUNT_ADDRESS_PATTERN (account_id key)"
proof -
  let ?n = "be_nat (account_bytes key)"
  obtain rest where rest: "account_bytes key = [ACCOUNT_ID_VERSION_BYTE] @ rest" "length rest = 34"
    using account_bytes_props(1,2) [OF assms] by (cases "account_bytes key") auto
  have "?n = 48 * 256 ^ 34 + be_nat rest"
    unfolding rest(1) be_nat_append rest(2) using be_nat_snoc [of "[]"] by (simp add: ACCOUNT_ID_VERSION_BYTE_def)
  moreover have "be_nat rest < 256 ^ 34" using be_nat_less [of rest] rest(2) by simp
  ultimately have "6 * 32 ^ 55 \<le> ?n" "?n < 7 * 32 ^ 55" by simp_all
  then have "?n div 32 ^ 55 = 6" by (intro div_nat_eqI) simp_all
  then have d: "to_digits 32 56 ?n = 6 # to_digits 32 55 ?n" using to_digits_Suc [of 32 55 ?n] by simp
  have id: "account_id key = map (\<lambda>d. BASE32_ALPHABET ! d) (to_digits 32 56 ?n)"
    using account_bytes_props(1) [OF assms] by (simp add: account_id_def b32_encode_def)
  have "BASE32_ALPHABET ! 6 = CHR ''G''" by code_simp
  moreover have "\<forall>c \<in> set (account_id key). c \<in> set BASE32_ALPHABET"
    using to_digits_less [of 32] by (auto simp: id alphabet_length)
  ultimately show ?thesis
    using length_account_id [OF assms] unfolding STELLAR_ACCOUNT_ADDRESS_PATTERN_def id d by (auto simp: list_all_iff)
qed

lemma account_pattern: "STELLAR_ACCOUNT_ADDRESS_PATTERN auth_account" "js_trim auth_account = auth_account" "auth_account \<noteq> []"
proof -
  show p: "STELLAR_ACCOUNT_ADDRESS_PATTERN auth_account" unfolding auth_account_def by (rule account_id_pattern) simp
  show "js_trim auth_account = auth_account" using auth_account_facts(1) by (elim normalizeWallet_cases)
  show "auth_account \<noteq> []" using p by (auto simp: STELLAR_ACCOUNT_ADDRESS_PATTERN_def)
qed

lemma account_normal: "normalizeWalletAddress (Some auth_account) (Some ''stellar'') = Some auth_account"
    "normalizeWalletAddress (Some auth_account) None = Some auth_account"
proof -
  have "\<not> EVM_WALLET_ADDRESS_PATTERN auth_account" using account_pattern(1)
    by (simp add: EVM_WALLET_ADDRESS_PATTERN_def STELLAR_ACCOUNT_ADDRESS_PATTERN_def)
  then show "normalizeWalletAddress (Some auth_account) (Some ''stellar'') = Some auth_account"
    "normalizeWalletAddress (Some auth_account) None = Some auth_account"
    using account_pattern by (simp_all add: normalizeWalletAddress_def)
qed

lemma hash_patterns: "CHAIN_TX_HASH_PATTERN open_hash" "CHAIN_TX_HASH_PATTERN close_hash" "AMOUNT_PATTERN ''1''" "close_hash \<noteq> []" "open_hash \<noteq> []"
  unfolding open_hash_def close_hash_def by code_simp+

lemma recovery_valid: "valid_InformRepaymentDto (entry_dto queued_repayment)" "valid_InformLoanDto (entry_open queued_open open_hash)"
  using account_pattern hash_patterns
  by (simp_all add: valid_InformRepaymentDto_def valid_InformLoanDto_def entry_dto_def entry_open_def queued_repayment_def queued_open_def
      WALLET_ADDRESS_PATTERN_def)

lemma recovery_live: "live_page (api_cache recovery_api) token1 auth_account (recovery_tables ls) (recovery_page ls os)"
proof -
  have "logged_in map_store demo_header auth_account login_auth"
    unfolding logged_in_def using demo_bearer map_store_contract example_tokens_ok
    by (auto simp: valid_row_def login_auth_def new_token_def nonce_auth_def empty_auth_def)
  then show ?thesis using demo_bearer(2)
    by (simp add: live_page_def recovery_page_def recovery_api_def demo_header_def tables_of_def)
qed

lemma recovery_user: "user_by_wallet auth_account (recovery_tables ls) = Some pending_user"
  by (simp add: user_by_wallet_def recovery_tables_def pending_user_def)

lemma recovery_sel [simp]:
  "verifyRepayByTxHash (cfg_gateway (api_config recovery_api)) h a c = Inr (Verified (Some 10000000))"
  "verifyLoanOpenedByTxHash (cfg_gateway (api_config recovery_api)) h a c = Inr True"
  "cfg_env (api_config recovery_api) = example_env" "api_refresh recovery_api = (\<lambda>p. (None, p))"
  "network (recovery_net d) = d" "meanwhile (recovery_net d) n s = s" "storageFull (recovery_net d) n = False"
  "latency (recovery_net d) n = 0" "mathRandom (recovery_net d) n = 0"
  "pendingRepayments (recovery_page ls os) = [queued_repayment]" "pendingLoanOpens (recovery_page ls os) = os"
  "sent (recovery_page ls os) = []" "date_now (recovery_page ls os) = 0"
  "rp_walletAddress queued_repayment = auth_account" "rp_txHash queued_repayment = Some close_hash" "rp_createdAt queued_repayment = 0"
  "po_walletAddress queued_open = auth_account" "po_txHash queued_open = Some open_hash" "po_createdAt queued_open = 0"
  "po_amountHuman queued_open = ''1''" "tables_of (backend (recovery_page ls os)) = recovery_tables ls"
  by (simp_all add: recovery_api_def recovery_gw_def fake_gw_def demo_config_def recovery_net_def recovery_page_def queued_repayment_def
      queued_open_def tables_of_def)

lemma recovery_calm: "calm keeps_hashes (recovery_net d) (api_refresh recovery_api)" "calm same_tables_of (recovery_net d) (api_refresh recovery_api)"
  by (simp_all add: calm_def hashes.le_refl hashes.grows_refl still.le_refl still.grows_refl same_queues_def)

theorem recovery_order_witness:
  "\<exists>q l. useRepaymentRecovery (recovery_net (\<lambda>n. Arrives)) recovery_api (Some ''stellar'') None (Some auth_account) (recovery_page [] [queued_open]) = q \<and>
    pendingRepayments q = [] \<and> pendingLoanOpens q = [] \<and> l \<in> set (loans (tables_of (backend q))) \<and> openTxHash l = Some open_hash \<and>
    is_open l \<and> closeTxHash l = None \<and> close_hash \<notin> close_hashes (tables_of (backend q))"
  by (rule recovery_order [OF _ recovery_live, where e = queued_repayment and b = queued_open and u = pending_user])
    (simp_all add: quiet_def auth_account_facts account_normal account_pattern QUEUE_MAX_AGE_MS_def recovery_valid hash_patterns
      close_hashes_def open_hashes_def recovery_user example_facts, simp_all add: recovery_tables_def)

text \<open>The first answer and the second request are lost.\<close>

definition lossy :: "nat \<Rightarrow> delivery" where
  "lossy n = (if n = 0 then Answer_lost else if n = 1 then Request_lost else Arrives)"

definition owed_loan :: Loan where "owed_loan = example_loan\<lparr>loan_userId := 3\<rparr>"

lemma recovery_due:
  "payment_due (cfg_env (api_config recovery_api)) (cfg_gateway (api_config recovery_api)) (entry_dto queued_repayment) auth_account close_hash
     (recovery_tables [owed_loan]) owed_loan"
proof -
  have "newest startAt (payable 3) [owed_loan] = Some owed_loan"
    by (simp add: newest_def payable_def owed_loan_def example_loan_def)
  moreover have "wf_loans (recovery_tables [owed_loan])" by (simp add: wf_loans_def recovery_tables_def)
  moreover have "close_hash \<notin> close_hashes (recovery_tables [owed_loan])"
    by (simp add: close_hashes_def recovery_tables_def owed_loan_def example_loan_def)
  ultimately show ?thesis
    using recovery_user [of "[owed_loan]"] hash_patterns(4) example_facts(3)
    by (simp add: payment_due_def entry_dto_def auth_account_facts) (simp add: queued_repayment_def recovery_tables_def pending_user_def)
qed

theorem recovery_exactly_once_witness:
  "\<exists>q paid. useRepaymentRecovery (recovery_net lossy) recovery_api (Some ''stellar'') None (Some auth_account) (recovery_page [owed_loan] []) = q \<and>
    pendingRepayments q = [] \<and> loans (tables_of (backend q)) = [store_loan (closed_loan owed_loan paid 0 (Some close_hash))]"
proof -
  have n: "\<forall>i < 2. network (recovery_net lossy) i \<in> {Request_lost, Answer_lost}" "network (recovery_net lossy) 2 = Arrives"
    by (simp_all add: lossy_def)
  have "\<exists>q paid. useRepaymentRecovery (recovery_net lossy) recovery_api (Some ''stellar'') None (Some auth_account) (recovery_page [owed_loan] []) = q \<and>
    pendingRepayments q = [] \<and>
    loans (tables_of (backend q)) = put_row loan_id (store_loan (closed_loan owed_loan paid (now (recovery_tables [owed_loan])) (Some close_hash)))
      (loans (recovery_tables [owed_loan]))"
    by (rule recovery_exactly_once [OF recovery_calm(2) _ _ _ n recovery_live, where e = queued_repayment])
      (use recovery_due in \<open>simp_all add: account_normal account_pattern QUEUE_MAX_AGE_MS_def recovery_valid\<close>)
  then show ?thesis by (simp add: recovery_tables_def fake_world_def put_row_def)
qed

text \<open>A run at a backend without the loan: the entry leaves the queue because there is nothing to repay.\<close>

theorem recovery_safe_witness:
  "\<exists>q. useRepaymentRecovery (recovery_net (\<lambda>n. Arrives)) recovery_api (Some ''stellar'') None (Some auth_account) (recovery_page [] []) = q \<and>
    pendingRepayments q = [] \<and> (\<exists>s \<in> set (sent q). nothing_to_repay auth_account (tables_of s))"
proof -
  let ?E = "recovery_net (\<lambda>n. Arrives)" and ?p = "recovery_page [] []"
  define q where "q = useRepaymentRecovery ?E recovery_api (Some ''stellar'') None (Some auth_account) ?p"
  have E: "quiet (?E :: (unit, map_cache, fake_kyc) server outside)" by (simp add: quiet_def)
  have "processRepayment example_env (cfg_gateway (api_config recovery_api)) (entry_dto queued_repayment) (recovery_tables []) =
      (Inl (NotFound ''No active loan found to repay''), recovery_tables [])"
    by (rule processRepayment_none [OF _ recovery_user, where h = close_hash])
      (simp_all add: entry_dto_def auth_account_facts hash_patterns close_hashes_def, simp_all add: recovery_tables_def)
  then have run: "processRepayment (cfg_env (api_config recovery_api)) (cfg_gateway (api_config recovery_api)) (entry_dto queued_repayment)
      (recovery_tables []) = (Inl (NotFound ''No active loan found to repay''), recovery_tables [])" by simp
  note r = quiet_recover_missing [OF E recovery_live [of "[]" "[]"] recovery_sel(14) auth_account_facts(1) recovery_valid(1) run]
  have "recover_repayments ?E recovery_api auth_account ?p = recover_repayment ?E recovery_api auth_account queued_repayment ?p"
    using quiet_clear(1) [OF E, of ?p]
    by (simp add: recover_repayments_def getPendingForWallet_def same_wallet_def account_normal QUEUE_MAX_AGE_MS_def)
  moreover have "recover_opens ?E recovery_api auth_account p' = p'" if "pendingLoanOpens p' = []" for p'
    using that by (simp add: recover_opens_def clearStaleLoanOpens_def writeAllOpens_def getPendingOpensForWallet_def)
  ultimately have "q = recover_repayment ?E recovery_api auth_account queued_repayment ?p"
    using r(3) account_normal account_pattern by (simp add: q_def useRepaymentRecovery_def)
  then have q: "pendingRepayments q = []" "tables_of (backend q) = recovery_tables []" using r(1,2) by (simp_all add: live_page_def)
  have "date_now ?p - rp_createdAt queued_repayment \<ge> QUEUE_MAX_AGE_MS \<or> close_hash \<in> close_hashes (tables_of (backend q)) \<or>
      (\<exists>s \<in> set (sent q). nothing_to_repay (rp_walletAddress queued_repayment) (tables_of s))"
    by (rule recovery_safe [OF recovery_calm(1) _ _ _ _ _ _ _ _ _ q_def [symmetric]])
      (simp_all add: hash_patterns q, simp_all add: recovery_tables_def)
  then show ?thesis using q q_def by (auto simp: QUEUE_MAX_AGE_MS_def close_hashes_def recovery_tables_def)
qed

theorem report_bounded_witness:
  "\<exists>r q. retried (recovery_net lossy) (authed (recovery_net lossy) (api_refresh recovery_api)
      (post_inform_repayment (api_config recovery_api) (api_cache recovery_api) (entry_dto queued_repayment))) (recovery_page [owed_loan] []) = (r, q) \<and>
    1 \<le> length (sent q) \<and> length (sent q) \<le> 6 \<and> date_now q \<le> 3600"
proof -
  let ?f = "authed (recovery_net lossy) (api_refresh recovery_api)
      (post_inform_repayment (api_config recovery_api) (api_cache recovery_api) (entry_dto queued_repayment))"
  obtain r q where run: "retried (recovery_net lossy) ?f (recovery_page [owed_loan] []) = (r, q)" by fastforce
  have "silent (api_refresh recovery_api)" by (simp add: silent_def)
  from report_bounded [OF this _ _ run, of 0] show ?thesis using run by simp
qed

end
