(* ===== verification/Client_Login.thy ===== *)
theory Client_Login
  imports Recovery
begin

text \<open>
  The login of the page, \<open>frontend/src/hooks/borrow/useRefreshAccessToken.ts\<close> with
  \<open>stores/authStore.ts\<close>, composed with the authentication of the backend (\<open>Auth\<close>) over the network of
  \<open>Retry_Queue\<close>: a silent refresh of the stored token, else a nonce, a message, a signature and its
  verification. Shown is that a token which the page obtains belongs to the wallet that is
  connected, and that a login with a Stellar wallet completes.
\<close>

section \<open>Messages\<close>

text \<open>\<open>toISOString\<close> of a time after 1970: the civil date of a day number, and two or three digits.\<close>

definition two_digits :: "int \<Rightarrow> string" where
  "two_digits n = map (\<lambda>d. char_of (48 + d)) (to_digits 10 2 (nat n))"

definition three_digits :: "int \<Rightarrow> string" where
  "three_digits n = map (\<lambda>d. char_of (48 + d)) (to_digits 10 3 (nat n))"

definition civil_date :: "int \<Rightarrow> int \<times> int \<times> int" where
  "civil_date days =
     (let z = days + 719468;
          era = z div 146097;
          doe = z mod 146097;
          yoe = (doe - doe div 1460 + doe div 36524 - doe div 146096) div 365;
          doy = doe - (365 * yoe + yoe div 4 - yoe div 100);
          mp = (5 * doy + 2) div 153;
          d = doy - (153 * mp + 2) div 5 + 1;
          mon = (if mp < 10 then mp + 3 else mp - 9)
      in (yoe + era * 400 + (if mon \<le> 2 then 1 else 0), mon, d))"

definition toISOString :: "int \<Rightarrow> string" where
  "toISOString ms =
     (let (y, mon, d) = civil_date (ms div 86400000);
          t = ms mod 86400000
      in int_str y @ ''-'' @ two_digits mon @ ''-'' @ two_digits d @ ''T'' @ two_digits (t div 3600000) @ '':'' @
         two_digits (t div 60000 mod 60) @ '':'' @ two_digits (t div 1000 mod 60) @ ''.'' @ three_digits (t mod 1000) @ ''Z'')"

definition newline :: string where "newline = [CHR 0x0A]"

definition buildSiweMessage :: "string \<Rightarrow> string \<Rightarrow> string \<Rightarrow> string \<Rightarrow> int \<Rightarrow> string \<Rightarrow> string" where
  "buildSiweMessage host origin issuedAt address chainId nonce =
     host @ '' wants you to sign in with your Ethereum account:'' @ newline @ address @ newline @ newline @
     ''Sign in to Lendoor'' @ newline @ newline @ ''URI: '' @ origin @ newline @ ''Version: 1'' @ newline @
     ''Chain ID: '' @ int_str chainId @ newline @ ''Nonce: '' @ nonce @ newline @ ''Issued At: '' @ issuedAt"

definition buildStellarAuthMessage :: "string \<Rightarrow> string \<Rightarrow> string \<Rightarrow> string \<Rightarrow> string \<Rightarrow> string" where
  "buildStellarAuthMessage host origin issuedAt address nonce =
     host @ '' wants you to sign in with your Stellar account:'' @ newline @ address @ newline @ newline @
     ''Sign in to Lendoor'' @ newline @ newline @ ''URI: '' @ origin @ newline @ ''Version: 1'' @ newline @
     ''Nonce: '' @ nonce @ newline @ ''Issued At: '' @ issuedAt"

section \<open>The claims of a Lemon login\<close>

record LemonClaims =
  lc_firstName :: "string option"
  lc_lastName :: "string option"
  lc_email :: "string option"
  lc_lemonTag :: "string option"
  lc_pep :: "bool option"
  lc_lemonCountry :: "string option"

definition or_null :: "string \<Rightarrow> string option" where
  "or_null v = (if v = [] then None else Some v)"

definition parse_claim :: "string \<times> string \<Rightarrow> LemonClaims \<Rightarrow> LemonClaims" where
  "parse_claim = (\<lambda>(key, v) out.
     if key = ''NAME'' then out\<lparr>lc_firstName := or_null v\<rparr>
     else if key = ''LAST_NAME'' then out\<lparr>lc_lastName := or_null v\<rparr>
     else if key = ''EMAIL'' then out\<lparr>lc_email := or_null v\<rparr>
     else if key = ''IS_PEP'' then
       out\<lparr>lc_pep := (if v = ''true'' \<or> v = ''1'' then Some True
                      else if v = ''false'' \<or> v = ''0'' then Some False else None)\<rparr>
     else if key = ''LEMONTAG'' then out\<lparr>lc_lemonTag := or_null v\<rparr>
     else if key = ''OPERATION_COUNTRY'' then out\<lparr>lc_lemonCountry := or_null v\<rparr>
     else out)"

definition parseLemonClaims :: "(string \<times> string) list option \<Rightarrow> LemonClaims" where
  "parseLemonClaims granted =
     fold parse_claim (nullish granted [])
       \<lparr>lc_firstName = None, lc_lastName = None, lc_email = None, lc_lemonTag = None, lc_pep = None, lc_lemonCountry = None\<rparr>"

section \<open>The page and its wallets\<close>

text \<open>
  The wallets are third-party code: the connected addresses, and functions that sign a message for
  an address or fail. A Lemon login answers with a wallet, a signature and its message. The chain
  of a Lemon login is a setting of the build.
\<close>

record wallets =
  wl_mode :: string
  primaryWallet :: "string option"
  stellarLoading :: bool
  wagmiConnected :: bool
  wagmiAddress :: "string option"
  wagmiChainId :: "int option"
  signActiveStellarAuthMessage :: "string \<Rightarrow> string \<Rightarrow> string option"
  signMessageAsync :: "string \<Rightarrow> string \<Rightarrow> string option"
  lemonAuthenticate :: "string \<Rightarrow> int \<Rightarrow> (string \<times> string \<times> string) option"
  lemonChainId :: int
  location_host :: string
  location_origin :: string

text \<open>
  The token of the store in memory, the wallet it was stored for, and the page with the token of the
  local storage. The flag of a running login is left out.
\<close>

record ('x, 'k) tab =
  tab_page :: "('x, 'k) auth page"
  store_token :: "string option"
  tokenWallet :: "string option"

definition setAccessToken :: "('x, 'k) auth outside \<Rightarrow> string option \<Rightarrow> ('x, 'k) tab \<Rightarrow> ('x, 'k) tab" where
  "setAccessToken E tok b =
     (let p = tab_page b;
          p = (if falsy_str tok then p\<lparr>accessToken := None\<rparr>
               else if storageFull E (length (sent p)) then p else p\<lparr>accessToken := tok\<rparr>)
      in b\<lparr>store_token := tok, tab_page := p\<rparr>)"

definition setTokenWallet :: "('x, 'k) auth outside \<Rightarrow> string \<Rightarrow> ('x, 'k) tab \<Rightarrow> ('x, 'k) tab" where
  "setTokenWallet E w b = (if storageFull E (length (sent (tab_page b))) then b else b\<lparr>tokenWallet := Some w\<rparr>)"

definition clearAuth :: "('x, 'k) auth outside \<Rightarrow> ('x, 'k) tab \<Rightarrow> ('x, 'k) tab" where
  "clearAuth E b = (setAccessToken E None b)\<lparr>tokenWallet := None\<rparr>"

section \<open>Requests\<close>

text \<open>The routes of \<open>auth.controller.ts\<close>; the body of a verification has no empty field.\<close>

definition AuthController_getNonce :: "'x AuthPorts \<Rightarrow> (('x, 'k) auth, string) endpoint" where
  "AuthController_getNonce P header = createNonce P"

definition complete_body :: "VerifyInput \<Rightarrow> bool" where
  "complete_body i \<longleftrightarrow> in_wallet i \<noteq> [] \<and> in_signature i \<noteq> [] \<and> in_message i \<noteq> [] \<and> in_nonce i \<noteq> []"

definition AuthController_verify :: "'x AuthPorts \<Rightarrow> 'k CacheStore \<Rightarrow> VerifyInput \<Rightarrow> (('x, 'k) auth, AuthResult) endpoint" where
  "AuthController_verify P C i header =
     (if complete_body i then verifySiweAndIssueToken P C i else sthrow (BadRequest ''Bad Request Exception''))"

definition AuthController_verifyStellar :: "'x AuthPorts \<Rightarrow> VerifyInput \<Rightarrow> (('x, 'k) auth, AuthResult) endpoint" where
  "AuthController_verifyStellar P i header =
     (if complete_body i then verifyStellarAndIssueToken P i else sthrow (BadRequest ''Bad Request Exception''))"

text \<open>A request of the login; \<open>None\<close> when it fails or its answer is not \<open>ok\<close>.\<close>

definition request :: "('x, 'k) auth outside \<Rightarrow> (('x, 'k) auth, 'a) endpoint \<Rightarrow> string option \<Rightarrow> ('x, 'k) tab \<Rightarrow> 'a option \<times> ('x, 'k) tab" where
  "request E endpoint tok b =
     (let (res, p) = doFetch E endpoint tok (tab_page b)
      in (case res of Some (Inr a) \<Rightarrow> Some a | _ \<Rightarrow> None, b\<lparr>tab_page := p\<rparr>))"

section \<open>Silent refresh\<close>

definition connectedWallet :: "wallets \<Rightarrow> string option" where
  "connectedWallet wl =
     (if wl_mode wl = ''stellar'' then primaryWallet wl else if wl_mode wl = ''lemon'' then None else wagmiAddress wl)"

definition session_matches :: "wallets \<Rightarrow> AuthResult \<Rightarrow> bool" where
  "session_matches wl a \<longleftrightarrow>
     (if falsy_str (connectedWallet wl) then wl_mode wl = ''lemon'' \<or> (wl_mode wl = ''stellar'' \<and> stellarLoading wl)
      else walletAddressEquals (Some (res_wallet a)) (connectedWallet wl) (Some (wl_mode wl)))"

text \<open>
  A session of another wallet is removed and the exception that reports it is caught at once, so
  the login goes on.
\<close>

definition silent_refresh :: "('x, 'k) auth outside \<Rightarrow> 'x AuthPorts \<Rightarrow> 'k CacheStore \<Rightarrow> wallets \<Rightarrow> ('x, 'k) tab
    \<Rightarrow> string option \<times> ('x, 'k) tab" where
  "silent_refresh E P C wl b =
     (if falsy_str (accessToken (tab_page b)) then (None, b)
      else
        (let (res, b) = request E (auth_refresh P C) (accessToken (tab_page b)) b
         in case res of
              None \<Rightarrow> (None, b)
            | Some a \<Rightarrow>
                if session_matches wl a
                then (Some (res_token a), setTokenWallet E
                        (if wl_mode wl = ''stellar'' then res_wallet a else to_lower (res_wallet a))
                        (setAccessToken E (Some (res_token a)) b))
                else (None, clearAuth E b)))"

section \<open>Logins\<close>

text \<open>A login throws (\<open>Inl\<close>) or returns a token or null.\<close>

type_synonym login_outcome = "(unit, string option) result"

definition verified :: "('x, 'k) auth outside \<Rightarrow> (('x, 'k) auth, AuthResult) endpoint \<Rightarrow> string \<Rightarrow> ('x, 'k) tab
    \<Rightarrow> login_outcome \<times> ('x, 'k) tab" where
  "verified E endpoint shownWallet b =
     (let (res, b) = request E endpoint None b
      in case res of
           None \<Rightarrow> (Inl (), b)
         | Some a \<Rightarrow> (Inr (Some (res_token a)), setTokenWallet E shownWallet (setAccessToken E (Some (res_token a)) b)))"

definition with_nonce :: "('x, 'k) auth outside \<Rightarrow> 'x AuthPorts \<Rightarrow> (string \<Rightarrow> ('x, 'k) tab \<Rightarrow> login_outcome \<times> ('x, 'k) tab)
    \<Rightarrow> ('x, 'k) tab \<Rightarrow> login_outcome \<times> ('x, 'k) tab" where
  "with_nonce E P f b =
     (let (res, b) = request E (AuthController_getNonce P) None b
      in case res of None \<Rightarrow> (Inl (), b) | Some nonce \<Rightarrow> f nonce b)"

text \<open>The report of the granted claims, which is sent without waiting and may fail, is left out.\<close>

definition lemon_login :: "('x, 'k) auth outside \<Rightarrow> 'x AuthPorts \<Rightarrow> 'k CacheStore \<Rightarrow> wallets \<Rightarrow> ('x, 'k) tab
    \<Rightarrow> login_outcome \<times> ('x, 'k) tab" where
  "lemon_login E P C wl = with_nonce E P (\<lambda>nonce b.
     case lemonAuthenticate wl nonce (lemonChainId wl) of
       None \<Rightarrow> (Inl (), b)
     | Some (wallet, signature, message) \<Rightarrow>
         verified E (AuthController_verify P C \<lparr>in_wallet = wallet, in_signature = signature, in_message = message, in_nonce = nonce\<rparr>)
           (to_lower wallet) b)"

definition stellar_login :: "('x, 'k) auth outside \<Rightarrow> 'x AuthPorts \<Rightarrow> wallets \<Rightarrow> ('x, 'k) tab
    \<Rightarrow> login_outcome \<times> ('x, 'k) tab" where
  "stellar_login E P wl b =
     (if stellarLoading wl \<or> falsy_str (primaryWallet wl) then (Inr None, b)
      else
        (let address = the (primaryWallet wl)
         in with_nonce E P (\<lambda>nonce b.
              let message = buildStellarAuthMessage (location_host wl) (location_origin wl)
                    (toISOString (date_now (tab_page b))) address nonce
              in case signActiveStellarAuthMessage wl address message of
                   None \<Rightarrow> (Inl (), b)
                 | Some signature \<Rightarrow>
                     verified E (AuthController_verifyStellar P
                         \<lparr>in_wallet = address, in_signature = signature, in_message = message, in_nonce = nonce\<rparr>) address b) b))"

definition wagmi_login :: "('x, 'k) auth outside \<Rightarrow> 'x AuthPorts \<Rightarrow> 'k CacheStore \<Rightarrow> wallets \<Rightarrow> ('x, 'k) tab
    \<Rightarrow> login_outcome \<times> ('x, 'k) tab" where
  "wagmi_login E P C wl b =
     (if \<not> wagmiConnected wl \<or> falsy_str (wagmiAddress wl) \<or> nullish (wagmiChainId wl) 0 = 0 then (Inr None, b)
      else
        (let address = the (wagmiAddress wl)
         in with_nonce E P (\<lambda>nonce b.
              let message = buildSiweMessage (location_host wl) (location_origin wl)
                    (toISOString (date_now (tab_page b))) address (the (wagmiChainId wl)) nonce
              in case signMessageAsync wl address message of
                   None \<Rightarrow> (Inl (), b)
                 | Some signature \<Rightarrow>
                     verified E (AuthController_verify P C
                         \<lparr>in_wallet = address, in_signature = signature, in_message = message, in_nonce = nonce\<rparr>) (to_lower address) b) b))"

definition useRefreshAccessToken :: "('x, 'k) auth outside \<Rightarrow> 'x AuthPorts \<Rightarrow> 'k CacheStore \<Rightarrow> wallets \<Rightarrow> ('x, 'k) tab
    \<Rightarrow> string option \<times> ('x, 'k) tab" where
  "useRefreshAccessToken E P C wl b =
     (let (silent, b) = silent_refresh E P C wl b
      in case silent of
           Some tok \<Rightarrow> (Some tok, b)
         | None \<Rightarrow>
             (let (res, b) = (if wl_mode wl = ''lemon'' then lemon_login E P C wl b
                              else if wl_mode wl = ''stellar'' then stellar_login E P wl b
                              else wagmi_login E P C wl b)
              in case res of Inl _ \<Rightarrow> (None, setAccessToken E None b) | Inr r \<Rightarrow> (r, b)))"

section \<open>Lemmas\<close>

text \<open>The backend and the page normalise an address alike, where the backend accepts it.\<close>

lemma normalise_agree:
  assumes "normalizeWallet x = Inr w"
  shows "normalizeWalletAddress (Some w) m = normalizeWalletAddress (Some x) m"
proof (cases "EVM_WALLET_ADDRESS_PATTERN (js_trim x)")
  case True
  then have w: "w = to_lower (js_trim x)" using assms by (simp add: normalizeWallet_def Let_def)
  then have e: "EVM_WALLET_ADDRESS_PATTERN w" "js_trim w = w" "to_lower w = w"
    using True js_trim_evm_lower by simp_all
  have "\<not> STELLAR_ACCOUNT_ADDRESS_PATTERN v" if "EVM_WALLET_ADDRESS_PATTERN v" for v
    using that by (auto simp: EVM_WALLET_ADDRESS_PATTERN_def STELLAR_ACCOUNT_ADDRESS_PATTERN_def)
  moreover have "v \<noteq> []" if "EVM_WALLET_ADDRESS_PATTERN v" for v using that by (auto simp: EVM_WALLET_ADDRESS_PATTERN_def)
  ultimately show ?thesis using True e w by (simp add: normalizeWalletAddress_def Let_def)
next
  case False
  then have "w = js_trim x" using assms by (auto simp: normalizeWallet_def Let_def split: if_splits)
  then show ?thesis by (simp add: normalizeWalletAddress_def)
qed

lemma tab_sel [simp]:
  "backend (tab_page (setAccessToken E tok b)) = backend (tab_page b)" "store_token (setAccessToken E tok b) = tok"
  "backend (tab_page (setTokenWallet E w b)) = backend (tab_page b)" "store_token (setTokenWallet E w b) = store_token b"
  "tokenWallet (setAccessToken E tok b) = tokenWallet b" "sent (tab_page (setAccessToken E tok b)) = sent (tab_page b)"
  by (simp_all add: setAccessToken_def setTokenWallet_def Let_def)

lemma request_ok:
  assumes "request E endpoint tok b = (Some a, b')"
  obtains s where "endpoint (if falsy_str tok then None else Some (''Bearer '' @ the tok)) s = (Inr a, backend (tab_page b'))"
proof -
  let ?h = "if falsy_str tok then None else Some (''Bearer '' @ the tok)"
  obtain res p where f: "doFetch E endpoint tok (tab_page b) = (res, p)" by fastforce
  then have r: "res = Some (Inr a)" "b' = b\<lparr>tab_page := p\<rparr>"
    using assms by (auto simp: request_def split: option.splits sum.splits)
  then have "endpoint ?h (meanwhile E (length (sent (tab_page b))) (backend (tab_page b))) = (Inr a, backend p)"
    using f by (auto simp: doFetch_def Let_def prod_eq_iff split: delivery.splits)
  then show ?thesis using that r(2) by simp
qed

text \<open>A row of the token table that lets the holder of the token act for a wallet.\<close>

definition session_for :: "string \<Rightarrow> string \<Rightarrow> string \<Rightarrow> ('x, 'k) auth \<Rightarrow> bool" where
  "session_for tok wallet mode s \<longleftrightarrow> (\<exists>row \<in> set (access_tokens s). tok_value row = tok \<and> tok_revokedAt row = None \<and>
     tok_expiresAt row = Some (auth_now s + 60 * 60 * 1000) \<and>
     normalizeWalletAddress (Some (tok_wallet row)) (Some mode) = normalizeWalletAddress (Some wallet) (Some mode))"

lemma session_forI:
  assumes "access_tokens s = rows @ [row]" and "tok_value row = tok" and "tok_revokedAt row = None"
    and "tok_expiresAt row = Some (auth_now s + 60 * 60 * 1000)" and "normalizeWallet w = Inr (tok_wallet row)"
    and "normalizeWalletAddress (Some w) (Some mode) = normalizeWalletAddress (Some wallet) (Some mode)"
  shows "session_for tok wallet mode s"
  using assms normalise_agree [OF assms(5), of "Some mode"] by (auto simp: session_for_def)

lemma refreshed_session:
  assumes "auth_refresh P C header s = (Inr a, s')"
    and "walletAddressEquals (Some (res_wallet a)) (Some wallet) (Some mode)"
  shows "session_for (res_token a) wallet mode s'"
proof -
  obtain v r t where "refresh_check v s = (Inr r, t)" and i: "refresh_issue P C v r t = (Inr a, s')"
    using assms(1) by (auto simp: auth_refresh_def refreshToken_def svc_simps sbind_Inr_iff split: option.splits)
  obtain w where w: "normalizeWallet (tok_wallet r) = Inr w" "res_wallet a = tok_wallet r"
    and s': "access_tokens s' = revoked (tok_id r) (auth_now t) (access_tokens t) @
         [new_token (res_token a) w (t\<lparr>access_tokens := revoked (tok_id r) (auth_now t) (access_tokens t)\<rparr>)]" "auth_now s' = auth_now t"
    by (rule refresh_issue_Inr [OF i]) simp
  show ?thesis
    using s' w assms(2) by (intro session_forI [OF s'(1), where w = "tok_wallet r"]) (simp_all add: new_token_def walletAddressEquals_def Let_def)
qed

lemma stellar_session:
  assumes "AuthController_verifyStellar P i header s = (Inr a, s')"
  shows "session_for (res_token a) (in_wallet i) mode s'"
proof -
  have "verifyStellarAndIssueToken P i s = (Inr a, s')"
    using assms by (auto simp: AuthController_verifyStellar_def svc_simps split: if_splits)
  then obtain w n where c: "stellar_check i s = (Inr (w, n), s)" and r: "stellar_issue P i (w, n) s = (Inr a, s')"
    by (rule stellar_login_split)
  note q = stellar_check_Inr [OF c]
  have s': "s' = s\<lparr>siwe_nonces := put_row nonce_id (n\<lparr>nonce_used := True\<rparr>) (siwe_nonces s), auth_draws := auth_draws s + 1,
           access_tokens := access_tokens s @ [new_token (res_token a) w s]\<rparr>"
    using stellar_issue_run [OF r normalizeWallet_fixed [OF q(1)]] by simp
  show ?thesis
    by (rule session_forI [where row = "new_token (res_token a) w s" and w = "in_wallet i"]) (simp_all add: s' new_token_def q(1))
qed

text \<open>
  The hosts that the parser of SIWE messages reads, a name of letters, digits and the characters
  from plus to full stop with an optional port, and what it documents of them: when the first line
  has such a host and the second line an address of \<open>0x\<close> and forty hexadecimal digits, then
  the address is the one of the second line.
\<close>

definition siwe_host_char :: "char \<Rightarrow> bool" where
  "siwe_host_char c \<longleftrightarrow> (let n = of_char c :: nat in
     (65 \<le> n \<and> n \<le> 90) \<or> (97 \<le> n \<and> n \<le> 122) \<or> (48 \<le> n \<and> n \<le> 57) \<or> (43 \<le> n \<and> n \<le> 46))"

definition siwe_host :: "string \<Rightarrow> bool" where
  "siwe_host h \<longleftrightarrow> (case dropWhile siwe_host_char h of
       [] \<Rightarrow> True
     | c # port \<Rightarrow> c = CHR '':'' \<and> port \<noteq> [] \<and> length port \<le> 5 \<and> list_all is_digit_char port)"

definition reads_address :: "'x AuthPorts \<Rightarrow> bool" where
  "reads_address P \<longleftrightarrow> (\<forall>host origin issuedAt address chainId nonce parsed.
     siwe_host host \<longrightarrow> EVM_WALLET_ADDRESS_PATTERN address \<longrightarrow>
     parseSiweMessage P (buildSiweMessage host origin issuedAt address chainId nonce) = Inr parsed \<longrightarrow>
     siwe_address parsed = Some (to_lower address))"

lemma siwe_session:
  assumes run: "AuthController_verify P C i header s = (Inr a, s')" and evm: "EVM_WALLET_ADDRESS_PATTERN w"
    and msg: "in_message i = buildSiweMessage host origin issuedAt w chainId nonce" and host: "siwe_host host"
    and P: "reads_address P"
  shows "session_for (res_token a) w mode s'"
proof -
  have "verifySiweAndIssueToken P C i s = (Inr a, s')"
    using run by (auto simp: AuthController_verify_def svc_simps split: if_splits)
  then obtain m n stored where c: "siwe_check P C i s = (Inr (m, n, stored), s)" and r: "siwe_issue P C i (m, n, stored) s = (Inr a, s')"
    by (rule siwe_login_split)
  have m: "siwe_address m = Some (to_lower w)" using siwe_check_Inr(1) [OF c] P host evm by (simp add: reads_address_def msg)
  obtain u where u: "siwe_address m = Some (res_wallet a)" "normalizeWallet (res_wallet a) = Inr u"
    "s' = snd (siwe_consume C m n stored s)\<lparr>auth_draws := auth_draws s + 1, access_tokens := access_tokens s @ [new_token (res_token a) u s]\<rparr>"
    by (rule siwe_issue_run [OF r])
  have "normalizeWallet w = Inr (to_lower w)"
    using evm js_trim_no_ws [OF evm_pattern_no_ws [OF evm]] by (simp add: normalizeWallet_def)
  then have "normalizeWalletAddress (Some (to_lower w)) (Some mode) = normalizeWalletAddress (Some w) (Some mode)" by (rule normalise_agree)
  then show ?thesis
    using m u by (intro session_forI [where row = "new_token (res_token a) u s" and w = "to_lower w"])
      (simp_all add: new_token_def siwe_consume_run)
qed

lemma verified_ok:
  assumes "verified E endpoint shown b = (Inr (Some tok), b')"
  obtains s a where "endpoint None s = (Inr a, backend (tab_page b'))" "tok = res_token a" "store_token b' = Some tok"
proof -
  obtain res b1 where q: "request E endpoint None b = (res, b1)" by fastforce
  then obtain a where a: "res = Some a" "tok = res_token a" "b' = setTokenWallet E shown (setAccessToken E (Some tok) b1)"
    using assms by (auto simp: verified_def split: option.splits)
  with q obtain s where "endpoint None s = (Inr a, backend (tab_page b1))" using request_ok [of E endpoint None b a b1] by auto
  then show ?thesis using that a by simp
qed

lemma with_nonce_ok:
  assumes "with_nonce E P f b = (Inr r, b')"
  obtains nonce b1 where "f nonce b1 = (Inr r, b')"
  using assms that by (auto simp: with_nonce_def split: prod.splits option.splits)

lemma silent_ok:
  assumes "silent_refresh E P C wl b = (Some tok, b')" and "connectedWallet wl = Some w" "w \<noteq> []"
  shows "session_for tok w (wl_mode wl) (backend (tab_page b')) \<and> store_token b' = Some tok"
proof -
  let ?t = "accessToken (tab_page b)"
  obtain res b1 where q: "request E (auth_refresh P C) ?t b = (res, b1)" by fastforce
  then obtain a where a: "res = Some a" "tok = res_token a" "session_matches wl a"
    "b' = setTokenWallet E (if wl_mode wl = ''stellar'' then res_wallet a else to_lower (res_wallet a)) (setAccessToken E (Some tok) b1)"
    using assms(1) by (auto simp: silent_refresh_def split: if_splits option.splits)
  from q a(1) obtain s header where "auth_refresh P C header s = (Inr a, backend (tab_page b1))"
    using request_ok [of E "auth_refresh P C" ?t b a b1] by metis
  moreover have "walletAddressEquals (Some (res_wallet a)) (Some w) (Some (wl_mode wl))"
    using a(3) assms(2,3) by (simp add: session_matches_def)
  ultimately have "session_for (res_token a) w (wl_mode wl) (backend (tab_page b1))" by (rule refreshed_session)
  then show ?thesis using a(2,4) by simp
qed

lemma stellar_login_ok:
  assumes "stellar_login E P wl b = (Inr (Some tok), b')"
  shows "session_for tok (the (primaryWallet wl)) mode (backend (tab_page b')) \<and> store_token b' = Some tok"
proof -
  let ?w = "the (primaryWallet wl)"
  have "\<exists>i b1. in_wallet i = ?w \<and> verified E (AuthController_verifyStellar P i) ?w b1 = (Inr (Some tok), b')"
    using assms by (auto simp: stellar_login_def Let_def elim!: with_nonce_ok split: if_splits option.splits)
      (metis VerifyInput.select_convs(1))
  then obtain i b1 where i: "in_wallet i = ?w" "verified E (AuthController_verifyStellar P i) ?w b1 = (Inr (Some tok), b')" by blast
  from verified_ok [OF i(2)] obtain s a where
    "AuthController_verifyStellar P i None s = (Inr a, backend (tab_page b'))" "tok = res_token a" "store_token b' = Some tok" .
  then show ?thesis using stellar_session [of P i None s a _ mode] i(1) by simp
qed

lemma wagmi_login_ok:
  assumes run: "wagmi_login E P C wl b = (Inr (Some tok), b')" and evm: "EVM_WALLET_ADDRESS_PATTERN (the (wagmiAddress wl))"
    and host: "siwe_host (location_host wl)" and P: "reads_address P"
  shows "session_for tok (the (wagmiAddress wl)) mode (backend (tab_page b')) \<and> store_token b' = Some tok"
proof -
  let ?w = "the (wagmiAddress wl)"
  have "\<exists>i b1 origin issued chainId nonce. in_message i = buildSiweMessage (location_host wl) origin issued ?w chainId nonce \<and>
      verified E (AuthController_verify P C i) (to_lower ?w) b1 = (Inr (Some tok), b')"
    using run by (auto simp: wagmi_login_def Let_def elim!: with_nonce_ok split: if_splits option.splits)
      (metis VerifyInput.select_convs(3))
  then obtain i b1 origin issued chainId nonce where i: "in_message i = buildSiweMessage (location_host wl) origin issued ?w chainId nonce"
      "verified E (AuthController_verify P C i) (to_lower ?w) b1 = (Inr (Some tok), b')" by blast
  from verified_ok [OF i(2)] obtain s a where
    "AuthController_verify P C i None s = (Inr a, backend (tab_page b'))" "tok = res_token a" "store_token b' = Some tok" .
  then show ?thesis using siwe_session [OF _ evm i(1) host P] by simp
qed

text \<open>
  C11. A session of the page belongs to its wallet. When the login of the page returns a token while a
  Stellar or an EVM wallet is connected, then whatever was stored before, whatever the
  network lost and whatever else happened at the backend in between, the backend holds a live row
  with that token for the connected wallet, and the page holds the token: a stored session of
  another wallet is never taken over. For an EVM wallet the parser of SIWE messages has to read the
  address of a message whose host and address have the documented form; for a Stellar wallet nothing
  is asked of it.
\<close>

theorem login_bound:
  assumes run: "useRefreshAccessToken E P C wl b = (Some tok, b')"
    and wallet: "connectedWallet wl = Some w" "w \<noteq> []"
    and evm: "wl_mode wl \<noteq> ''stellar'' \<longrightarrow> EVM_WALLET_ADDRESS_PATTERN w \<and> siwe_host (location_host wl) \<and> reads_address P"
  shows "session_for tok w (wl_mode wl) (backend (tab_page b')) \<and> store_token b' = Some tok"
proof -
  obtain silent b1 where s: "silent_refresh E P C wl b = (silent, b1)" by fastforce
  have mode: "wl_mode wl \<noteq> ''lemon''" using wallet(1) by (auto simp: connectedWallet_def)
  show ?thesis
  proof (cases silent)
    case (Some t)
    then have "silent_refresh E P C wl b = (Some tok, b')" using run s by (simp add: useRefreshAccessToken_def)
    from silent_ok [OF this wallet] show ?thesis .
  next
    case None
    show ?thesis
    proof (cases "wl_mode wl = ''stellar''")
      case True
      then have "stellar_login E P wl b1 = (Inr (Some tok), b')"
        using run s None by (auto simp: useRefreshAccessToken_def split: prod.splits sum.splits)
      then show ?thesis using stellar_login_ok wallet(1) True by (fastforce simp: connectedWallet_def)
    next
      case False
      then have "wagmi_login E P C wl b1 = (Inr (Some tok), b')"
        using run s None mode by (auto simp: useRefreshAccessToken_def split: prod.splits sum.splits)
      then show ?thesis using wagmi_login_ok wallet(1) evm False mode by (fastforce simp: connectedWallet_def)
    qed
  qed
qed

section \<open>A login completes\<close>

lemma includes_append: "includes_str (a @ n @ c) n"
proof (induction a)
  case Nil
  show ?case using starts_with_append [of n c] by (cases "n @ c") auto
qed simp

lemma message_has_nonce: "includes_str (buildStellarAuthMessage host origin issuedAt address nonce) nonce"
proof -
  have "buildStellarAuthMessage host origin issuedAt address nonce =
    (host @ '' wants you to sign in with your Stellar account:'' @ newline @ address @ newline @ newline @
     ''Sign in to Lendoor'' @ newline @ newline @ ''URI: '' @ origin @ newline @ ''Version: 1'' @ newline @ ''Nonce: '') @ nonce @
    (newline @ ''Issued At: '' @ issuedAt)"
    by (simp add: buildStellarAuthMessage_def)
  then show ?thesis using includes_append by metis
qed

text \<open>A network that delivers, and a backend that is left alone in the meantime.\<close>

definition undisturbed :: "('x, 'k) auth outside \<Rightarrow> bool" where
  "undisturbed E \<longleftrightarrow> (\<forall>n. network E n = Arrives) \<and> (\<forall>n s. meanwhile E n s = s)"

lemma request_arrives:
  assumes "undisturbed E" and "endpoint (if falsy_str tok then None else Some (''Bearer '' @ the tok)) (backend (tab_page b)) = (Inr a, s')"
  shows "\<exists>b'. request E endpoint tok b = (Some a, b') \<and> backend (tab_page b') = s' \<and> store_token b' = store_token b"
  using assms by (simp add: request_def doFetch_def undisturbed_def Let_def)

lemma fresh_nonce_live:
  "v \<notin> nonce_value ` set rows \<Longrightarrow> t < x \<Longrightarrow>
   live_nonce v t (rows @ [\<lparr>nonce_id = i, nonce_value = v, nonce_used = False, nonce_expiresAt = x\<rparr>]) =
     Some \<lparr>nonce_id = i, nonce_value = v, nonce_used = False, nonce_expiresAt = x\<rparr>"
  by (induction rows) (auto simp: live_nonce_def)

text \<open>What the backend answers to a verification of a nonce it has just issued.\<close>

lemma stellar_verify_fresh:
  assumes w: "normalizeWallet (in_wallet i) = Inr w" and sig: "stellar_signature P i w" and body: "complete_body i"
    and msg: "includes_str (in_message i) (in_nonce i)" and live: "live_nonce (in_nonce i) (auth_now s) (siwe_nonces s) = Some row"
    and fresh: "drawn_token P s \<notin> tok_value ` set (access_tokens s)"
  shows "\<exists>s'. AuthController_verifyStellar P i header s = (Inr \<lparr>res_wallet = w, res_token = drawn_token P s\<rparr>, s') \<and>
    session_for (drawn_token P s) (in_wallet i) ''stellar'' s'"
proof -
  have c: "stellar_check i s = (Inr (w, row), s)"
    using w msg live by (simp add: stellar_check_def svc_simps text_decode_encode Let_def)
  obtain s' where "stellar_issue P i (w, row) s = (Inr \<lparr>res_wallet = w, res_token = drawn_token P s\<rparr>, s')"
    using sig fresh normalizeWallet_fixed [OF w]
    by (simp add: stellar_issue_def sbind_def auth_simps svc_simps drawn_token_def)
  with c have "AuthController_verifyStellar P i header s = (Inr \<lparr>res_wallet = w, res_token = drawn_token P s\<rparr>, s')"
    using body by (simp add: AuthController_verifyStellar_def verifyStellarAndIssueToken_def sbind_def)
  then show ?thesis using stellar_session [of P i header s _ s' "''stellar''"] by (intro exI [of _ s']) simp
qed

lemma stellar_login_run:
  assumes E: "undisturbed E" and s: "s = backend (tab_page b)"
    and page: "falsy_str (accessToken (tab_page b))" "wl_mode wl = ''stellar''" "\<not> stellarLoading wl" "primaryWallet wl = Some w"
    and account: "normalizeWallet w = Inr n"
    and signs: "\<forall>message nonce. \<exists>sg. signActiveStellarAuthMessage wl w message = Some sg \<and> sg \<noteq> [] \<and>
        stellar_signature P \<lparr>in_wallet = w, in_signature = sg, in_message = message, in_nonce = nonce\<rparr> n"
    and nonce: "drawn_nonce P (auth_draws s) \<notin> nonce_value ` set (siwe_nonces s)" "drawn_nonce P (auth_draws s) \<noteq> []"
    and token: "hex_of (randomBytes P 24 (auth_draws s + 1)) \<notin> tok_value ` set (access_tokens s)"
  shows "\<exists>tok b'. useRefreshAccessToken E P C wl b = (Some tok, b') \<and> store_token b' = Some tok \<and>
    session_for tok w ''stellar'' (backend (tab_page b'))"
proof -
  let ?v = "drawn_nonce P (auth_draws s)"
  define s1 where "s1 = s\<lparr>auth_draws := auth_draws s + 1, siwe_nonces := siwe_nonces s @ [\<lparr>nonce_id = fresh_id nonce_id (siwe_nonces s),
          nonce_value = ?v, nonce_used = False, nonce_expiresAt = auth_now s + 10 * 60 * 1000\<rparr>]\<rparr>"
  have "createNonce P s = (Inr ?v, s1)" using nonce(1) by (simp add: createNonce_run s1_def)
  then obtain b1 where b1: "request E (AuthController_getNonce P) None b = (Some ?v, b1)" "backend (tab_page b1) = s1"
    using request_arrives [OF E, of "AuthController_getNonce P" None b ?v s1] by (auto simp: AuthController_getNonce_def s)
  define msg where "msg = buildStellarAuthMessage (location_host wl) (location_origin wl) (toISOString (date_now (tab_page b1))) w ?v"
  obtain sg where sg: "signActiveStellarAuthMessage wl w msg = Some sg" "sg \<noteq> []"
    "stellar_signature P \<lparr>in_wallet = w, in_signature = sg, in_message = msg, in_nonce = ?v\<rparr> n" using signs by blast
  define i where "i = \<lparr>in_wallet = w, in_signature = sg, in_message = msg, in_nonce = ?v\<rparr>"
  have w: "w \<noteq> []" using account normalizeWallet_empty by auto
  have m: "includes_str msg ?v" "msg \<noteq> []" using message_has_nonce by (auto simp: msg_def buildStellarAuthMessage_def)
  have l: "\<exists>row. live_nonce ?v (auth_now s1) (siwe_nonces s1) = Some row"
    using fresh_nonce_live [OF nonce(1)] by (simp add: s1_def)
  have t: "drawn_token P s1 \<notin> tok_value ` set (access_tokens s1)" using token by (simp add: drawn_token_def s1_def)
  obtain s2 where s2: "AuthController_verifyStellar P i None s1 = (Inr \<lparr>res_wallet = n, res_token = drawn_token P s1\<rparr>, s2)"
      "session_for (drawn_token P s1) w ''stellar'' s2"
    using stellar_verify_fresh [of i n P s1 _ None] l t account sg(2,3) m nonce(2) w by (auto simp: i_def complete_body_def)
  obtain b2 where b2: "request E (AuthController_verifyStellar P i) None b1 = (Some \<lparr>res_wallet = n, res_token = drawn_token P s1\<rparr>, b2)"
      "backend (tab_page b2) = s2"
    using request_arrives [OF E, of "AuthController_verifyStellar P i" None b1 _ s2] s2(1) b1(2) by auto
  have "stellar_login E P wl b = (Inr (Some (drawn_token P s1)), setTokenWallet E w (setAccessToken E (Some (drawn_token P s1)) b2))"
    using page w b1(1) b2(1) sg(1)
    by (simp add: stellar_login_def with_nonce_def verified_def Let_def flip: msg_def i_def)
  then show ?thesis using page b2(2) s2(2) by (simp add: useRefreshAccessToken_def silent_refresh_def)
qed

text \<open>
  C12. A login with a Stellar wallet completes. With no stored token, a connected account whose wallet
  signs the message, a network that delivers and a random source that does not repeat, the page
  gets a token in one round of nonce, signature and verification, and the backend holds a
  live row with it for the account: the message that the page builds is one the backend accepts.
\<close>

theorem login_completes:
  assumes E: "undisturbed E" and s: "s = backend (tab_page b)"
    and page: "falsy_str (accessToken (tab_page b))" "wl_mode wl = ''stellar''" "\<not> stellarLoading wl" "primaryWallet wl = Some w"
    and account: "normalizeWallet w = Inr n"
    and signs: "\<forall>message nonce. \<exists>sg. signActiveStellarAuthMessage wl w message = Some sg \<and> sg \<noteq> [] \<and>
        stellar_signature P \<lparr>in_wallet = w, in_signature = sg, in_message = message, in_nonce = nonce\<rparr> n"
    and nonce: "drawn_nonce P (auth_draws s) \<notin> nonce_value ` set (siwe_nonces s)" "drawn_nonce P (auth_draws s) \<noteq> []"
    and token: "hex_of (randomBytes P 24 (auth_draws s + 1)) \<notin> tok_value ` set (access_tokens s)"
  shows "\<exists>tok b'. useRefreshAccessToken E P C wl b = (Some tok, b') \<and> store_token b' = Some tok \<and>
    session_for tok w ''stellar'' (backend (tab_page b'))"
  by (rule stellar_login_run [OF assms])

section \<open>Examples\<close>

text \<open>A parser that takes the second line of a message as its address, and the nonce of the examples.\<close>

definition second_line :: "string \<Rightarrow> string" where
  "second_line s = takeWhile (\<lambda>c. c \<noteq> CHR 0x0A) (tl (dropWhile (\<lambda>c. c \<noteq> CHR 0x0A) s))"

definition line_ports :: "unit AuthPorts" where
  "line_ports = example_ports\<lparr>parseSiweMessage := (\<lambda>s. Inr (web_message\<lparr>sm_address := Some (second_line s), sm_nonce := Some nonce0\<rparr>))\<rparr>"

lemma second_line_append:
  assumes "CHR 0x0A \<notin> set a" and "CHR 0x0A \<notin> set w"
  shows "second_line (a @ CHR 0x0A # w @ CHR 0x0A # rest) = w"
proof -
  have "dropWhile (\<lambda>c. c \<noteq> CHR 0x0A) (a @ CHR 0x0A # w @ CHR 0x0A # rest) = CHR 0x0A # w @ CHR 0x0A # rest"
    using assms(1) by (induction a) auto
  moreover have "takeWhile (\<lambda>c. c \<noteq> CHR 0x0A) (w @ CHR 0x0A # rest) = w" using assms(2) by (induction w) auto
  ultimately show ?thesis by (simp add: second_line_def)
qed

lemma siwe_host_newline: "siwe_host h \<Longrightarrow> CHR 0x0A \<notin> set h"
proof
  assume h: "siwe_host h" and "CHR 0x0A \<in> set h"
  moreover have "\<not> siwe_host_char (CHR 0x0A)" "\<not> is_digit_char (CHR 0x0A)" by code_simp+
  moreover have "set h = set (takeWhile siwe_host_char h) \<union> set (dropWhile siwe_host_char h)" by (metis set_append takeWhile_dropWhile_id)
  ultimately show False
    using set_takeWhileD [of "CHR 0x0A" siwe_host_char h] by (auto simp: siwe_host_def list_all_iff split: list.splits)
qed

lemma message_address:
  assumes "siwe_host h" and "EVM_WALLET_ADDRESS_PATTERN w"
  shows "second_line (buildSiweMessage h u t w k n) = w"
proof -
  have "CHR 0x0A \<notin> set w" using evm_pattern_no_ws [OF assms(2)] by (auto simp: is_ws_def)
  then show ?thesis
    using second_line_append [of "h @ '' wants you to sign in with your Ethereum account:''" w] siwe_host_newline [OF assms(1)]
    by (simp add: buildSiweMessage_def newline_def)
qed

lemma line_ports_reads: "reads_address line_ports"
  by (auto simp: reads_address_def line_ports_def siwe_address_def message_address)

definition calm_network :: "(unit, map_cache) auth outside" where
  "calm_network = \<lparr>network = (\<lambda>n. Arrives), meanwhile = (\<lambda>n s. s), latency = (\<lambda>n. 0), mathRandom = (\<lambda>n. 0), storageFull = (\<lambda>n. False)\<rparr>"

definition stellar_wallets :: wallets where
  "stellar_wallets = \<lparr>wl_mode = ''stellar'', primaryWallet = Some auth_account, stellarLoading = False, wagmiConnected = False,
     wagmiAddress = None, wagmiChainId = None, signActiveStellarAuthMessage = (\<lambda>w m. Some ''s''), signMessageAsync = (\<lambda>w m. None),
     lemonAuthenticate = (\<lambda>n k. None), lemonChainId = 42220, location_host = ''lendoor.xyz'', location_origin = ''https://lendoor.xyz''\<rparr>"

definition new_tab :: "(unit, map_cache) tab" where
  "new_tab = \<lparr>tab_page = \<lparr>backend = empty_auth, accessToken = None, pendingRepayments = [], pendingLoanOpens = [], date_now = 0, sent = []\<rparr>,
     store_token = None, tokenWallet = None\<rparr>"

lemma line_ports_sel:
  "drawn_nonce line_ports 0 \<noteq> []" "stellar_signature line_ports i auth_account"
  using example_draws(1) by (simp_all add: drawn_nonce_def line_ports_def stellar_signature_def auth_account_facts example_ports_def)

lemma example_tab:
  "undisturbed calm_network" "falsy_str (accessToken (tab_page new_tab))" "backend (tab_page new_tab) = empty_auth"
  "wl_mode stellar_wallets = ''stellar''" "\<not> stellarLoading stellar_wallets" "primaryWallet stellar_wallets = Some auth_account"
  "\<forall>message nonce. \<exists>sg. signActiveStellarAuthMessage stellar_wallets auth_account message = Some sg \<and> sg \<noteq> [] \<and>
     stellar_signature line_ports \<lparr>in_wallet = auth_account, in_signature = sg, in_message = message, in_nonce = nonce\<rparr> auth_account"
  by (simp_all add: calm_network_def undisturbed_def new_tab_def stellar_wallets_def line_ports_sel)

lemma empty_auth_sel: "auth_draws empty_auth = 0" "siwe_nonces empty_auth = []" "access_tokens empty_auth = []"
  by (simp_all add: empty_auth_def)

theorem login_completes_witness:
  "\<exists>tok b'. useRefreshAccessToken calm_network line_ports map_store stellar_wallets new_tab = (Some tok, b') \<and>
     session_for tok auth_account ''stellar'' (backend (tab_page b'))"
  using login_completes [OF example_tab(1) example_tab(3) [symmetric] example_tab(2,4-6) auth_account_facts(1) example_tab(7), of map_store]
    line_ports_sel(1) by (auto simp: empty_auth_sel)

definition evm_wallets :: wallets where
  "evm_wallets = stellar_wallets\<lparr>wl_mode := ''webapp'', primaryWallet := None, wagmiConnected := True, wagmiAddress := Some example_evm,
     wagmiChainId := Some 8453, signMessageAsync := (\<lambda>w m. Some plain_signature)\<rparr>"

definition evm_input :: VerifyInput where
  "evm_input = \<lparr>in_wallet = example_evm, in_signature = plain_signature,
     in_message = buildSiweMessage ''lendoor.xyz'' ''https://lendoor.xyz'' (toISOString 0) example_evm 8453 nonce0, in_nonce = nonce0\<rparr>"

lemma evm_pattern: "EVM_WALLET_ADDRESS_PATTERN example_evm" "siwe_host (location_host evm_wallets)"
proof -
  show "EVM_WALLET_ADDRESS_PATTERN example_evm" unfolding example_evm_def by code_simp
  have "siwe_host ''lendoor.xyz''" by code_simp
  then show "siwe_host (location_host evm_wallets)" by (simp add: evm_wallets_def stellar_wallets_def)
qed

lemma line_ports_nonce: "createNonce line_ports empty_auth = (Inr nonce0, nonce_auth)"
  by (simp add: createNonce_run empty_auth_def nonce_auth_def nonce0_def fresh_id_def drawn_nonce_def line_ports_def)

text \<open>The backend accepts the message that the page built for the EVM wallet.\<close>

lemma evm_verified:
  "\<exists>s'. AuthController_verify line_ports map_store evm_input None nonce_auth = (Inr \<lparr>res_wallet = example_evm, res_token = token1\<rparr>, s')"
proof -
  let ?m = "web_message\<lparr>sm_address := Some example_evm, sm_nonce := Some nonce0\<rparr>"
  have host: "siwe_host ''lendoor.xyz''" by code_simp
  have parse: "parseSiweMessage line_ports (in_message evm_input) = Inr ?m"
    using message_address [OF host evm_pattern(1)] by (simp add: line_ports_def evm_input_def)
  have "\<not> isLemonDomain ''lendoor.xyz''" by code_simp
  then have web: "\<not> siwe_lemon ?m" "siwe_address ?m = Some example_evm"
    by (simp_all add: siwe_lemon_def siwe_address_def web_message_def example_evm_facts)
  have n: "nonce0 \<noteq> []" using example_draws(1) by (simp add: nonce0_def)
  have c: "siwe_check line_ports map_store evm_input nonce_auth = (Inr (?m, nonce0, Some (hd (siwe_nonces nonce_auth))), nonce_auth)"
    using parse web(1) n by (simp add: siwe_check_def svc_simps live_nonce_def nonce_auth_def empty_auth_def)
  have "is_plain_ecdsa (in_signature evm_input)" using lemon_signature(1) by (simp add: evm_input_def lemon_input_def)
  moreover have "recovers line_ports (in_message evm_input) (in_signature evm_input) (siwe_address ?m)"
    by (simp add: recovers_def web(2) line_ports_def example_ports_def example_evm_facts)
  ultimately have g: "siwe_signature line_ports evm_input ?m nonce_auth = (Inr True, nonce_auth)" by (rule siwe_signature_plain)
  have d: "drawn_token line_ports nonce_auth = token1" "access_tokens nonce_auth = []"
    by (simp_all add: drawn_token_def line_ports_def nonce_auth_def empty_auth_def token1_def)
  have "\<exists>s'. siwe_issue line_ports map_store evm_input (?m, nonce0, Some (hd (siwe_nonces nonce_auth))) nonce_auth =
      (Inr \<lparr>res_wallet = example_evm, res_token = token1\<rparr>, s')"
    using g web d by (simp add: siwe_issue_def sbind_def siwe_consume_run createAccessToken_run example_evm_facts svc_simps Let_def drawn_token_def)
  moreover have "complete_body evm_input" using n by (simp add: complete_body_def evm_input_def example_evm_def plain_signature_def buildSiweMessage_def)
  ultimately show ?thesis using c by (auto simp: AuthController_verify_def verifySiweAndIssueToken_def sbind_def)
qed

lemma evm_login: "\<exists>b'. useRefreshAccessToken calm_network line_ports map_store evm_wallets new_tab = (Some token1, b')"
proof -
  obtain b1 where b1: "request calm_network (AuthController_getNonce line_ports) None new_tab = (Some nonce0, b1)" "backend (tab_page b1) = nonce_auth"
    "date_now (tab_page b1) = 0"
    using line_ports_nonce
    by (simp add: request_def doFetch_def AuthController_getNonce_def calm_network_def new_tab_def Let_def)
  obtain s' where "AuthController_verify line_ports map_store evm_input None nonce_auth = (Inr \<lparr>res_wallet = example_evm, res_token = token1\<rparr>, s')"
    using evm_verified by blast
  then obtain b2 where b2: "request calm_network (AuthController_verify line_ports map_store evm_input) None b1 =
      (Some \<lparr>res_wallet = example_evm, res_token = token1\<rparr>, b2)"
    using request_arrives [OF example_tab(1), of "AuthController_verify line_ports map_store evm_input" None b1] b1(2) by auto
  have "\<exists>b'. wagmi_login calm_network line_ports map_store evm_wallets new_tab = (Inr (Some token1), b')"
    using b1 b2 by (simp add: wagmi_login_def with_nonce_def verified_def evm_wallets_def stellar_wallets_def example_evm_def evm_input_def Let_def)
  then show ?thesis by (auto simp: useRefreshAccessToken_def silent_refresh_def example_tab(2) evm_wallets_def)
qed

theorem login_bound_witness:
  "\<exists>b'. useRefreshAccessToken calm_network line_ports map_store evm_wallets new_tab = (Some token1, b') \<and>
     store_token b' = Some token1 \<and> session_for token1 example_evm ''webapp'' (backend (tab_page b'))"
proof -
  obtain b' where run: "useRefreshAccessToken calm_network line_ports map_store evm_wallets new_tab = (Some token1, b')" using evm_login by blast
  have "connectedWallet evm_wallets = Some example_evm" "example_evm \<noteq> []" "wl_mode evm_wallets = ''webapp''"
    by (simp_all add: connectedWallet_def evm_wallets_def example_evm_def)
  with login_bound [OF run] evm_pattern line_ports_reads run show ?thesis by auto
qed

end
