(* ===== verification/Amount_Format.thy ===== *)
theory Amount_Format
  imports Retry_Queue
begin

text \<open>
  The amounts of the page, \<open>frontend/src/lib/utils.ts\<close>: units of the token as a numeral for the
  reader, and numerals of the reader as units. The properties are round trips: what is shown is
  read back as the rounded amount, and the amount that is reported after a repayment is what
  the backend understands.
\<close>

section \<open>Numerals\<close>

text \<open>The argument is the variable \<open>VITE_CHAIN_MODE\<close> of the build.\<close>

definition DECIMALS :: "string option \<Rightarrow> nat" where
  "DECIMALS chain_mode =
     (if map_option to_lower chain_mode = Some ''stellar'' then STELLAR_TOKEN_DECIMALS else EVM_USDC_DECIMALS)"

text \<open>
  The pattern of \<open>withThousands\<close> matches between two characters of a word when the digits that follow
  are a multiple of three; the flag says whether the previous character belongs to a word.
\<close>

definition is_word_char :: "char \<Rightarrow> bool" where
  "is_word_char c = (let n = of_char c :: nat in
     is_digit_char c \<or> (65 \<le> n \<and> n \<le> 90) \<or> (97 \<le> n \<and> n \<le> 122) \<or> n = 95)"

fun thousands_from :: "bool \<Rightarrow> string \<Rightarrow> string" where
  "thousands_from joined [] = []"
| "thousands_from joined (c # cs) =
     (let run = takeWhile is_digit_char (c # cs);
          rest = c # thousands_from (is_word_char c) cs
      in if joined \<and> run \<noteq> [] \<and> 3 dvd length run then CHR '','' # rest else rest)"

definition withThousands :: "string \<Rightarrow> string" where
  "withThousands s = thousands_from False s"

text \<open>An optional sign, digits, and a point with digits; either part may be empty.\<close>

definition SIGNED_DECIMAL_PATTERN :: "string \<Rightarrow> bool" where
  "SIGNED_DECIMAL_PATTERN raw =
     (let x = (if starts_with raw ''-'' \<or> starts_with raw ''+'' then tl raw else raw);
          rest = dropWhile is_digit_char x
      in rest = [] \<or> hd rest = CHR ''.'' \<and> list_all is_digit_char (tl rest))"

definition padStart :: "nat \<Rightarrow> char \<Rightarrow> string \<Rightarrow> string" where
  "padStart n c s = replicate (n - length s) c @ s"

text \<open>
  The pattern leaves digits only, on which \<open>BigInt\<close> is their value (\<open>js_BigInt_digits\<close>).
\<close>

definition decimalToUnits :: "string \<Rightarrow> nat \<Rightarrow> int option" where
  "decimalToUnits v decimals =
     (let raw = filter (\<lambda>c. \<not> is_ws c \<and> c \<noteq> CHR '','') v in
      if v = [] \<or> \<not> SIGNED_DECIMAL_PATTERN raw then None
      else
        (let neg = starts_with raw ''-'';
             x = (if neg \<or> starts_with raw ''+'' then tl raw else raw);
             parts = split_on (CHR ''.'') x;
             iPart = hd parts;
             fPartRaw = (case tl parts of [] \<Rightarrow> [] | f # _ \<Rightarrow> f);
             i = (if iPart = [] then ''0'' else iPart);
             f = filter is_digit_char fPartRaw;
             padded = take (decimals + 1) (f @ replicate (decimals + 1) (CHR ''0''));
             next_digit = hex_value (padded ! decimals);
             frac = dec_value (take decimals padded);
             whole = dec_value i;
             (whole, frac) =
               (if next_digit \<ge> 5
                then if frac + 1 \<ge> 10 ^ decimals then (whole + 1, frac + 1 - 10 ^ decimals) else (whole, frac + 1)
                else (whole, frac));
             units = int (whole * 10 ^ decimals + frac)
         in Some (if neg then - units else units)))"

section \<open>Amounts for the reader\<close>

definition trim_zeros :: "string \<Rightarrow> string" where
  "trim_zeros s = rev (dropWhile (\<lambda>c. c = CHR ''0'') (rev s))"

text \<open>The fraction rounded to \<open>maxFrac\<close> digits, with a carry into the whole part.\<close>

definition round_frac :: "nat \<Rightarrow> nat \<Rightarrow> string \<Rightarrow> nat \<Rightarrow> nat \<times> string" where
  "round_frac decimals maxFrac fracFull whole =
     (if decimals > maxFrac then
        (let headInt = dec_value (take maxFrac fracFull);
             nextDigit = hex_value (fracFull ! maxFrac);
             (whole, headInt) =
               (if nextDigit \<ge> 5
                then if headInt + 1 \<ge> 10 ^ maxFrac then (whole + 1, headInt + 1 - 10 ^ maxFrac) else (whole, headInt + 1)
                else (whole, headInt))
         in (whole, padStart maxFrac (CHR ''0'') (nat_str headInt)))
      else (whole, padEnd maxFrac (CHR ''0'') fracFull))"

definition formatAmount_ui :: "int \<Rightarrow> nat \<Rightarrow> nat \<Rightarrow> nat \<Rightarrow> string" where
  "formatAmount_ui amount decimals minFrac maxFrac =
     (let a = nat \<bar>amount\<bar>;
          base = 10 ^ decimals;
          (whole, fracFull) =
            round_frac decimals maxFrac (padStart decimals (CHR ''0'') (nat_str (a mod base))) (a div base);
          trimmed = trim_zeros fracFull;
          fracTrimmed =
            (if length trimmed < minFrac then take (max minFrac (min maxFrac (length fracFull))) fracFull
             else take maxFrac trimmed);
          sign = (if amount < 0 then ''-'' else []);
          wholeStr = withThousands (nat_str whole)
      in if fracTrimmed \<noteq> [] then sign @ wholeStr @ ''.'' @ fracTrimmed else sign @ wholeStr)"

text \<open>The argument of the exported functions is a \<open>bigint\<close> or a string.\<close>

datatype usdc_in = Units int | Text string

definition formatted :: "string option \<Rightarrow> (int \<Rightarrow> string) \<Rightarrow> usdc_in \<Rightarrow> string" where
  "formatted chain_mode show_units v =
     (case v of
        Units n \<Rightarrow> show_units n
      | Text s \<Rightarrow> (case decimalToUnits s (DECIMALS chain_mode) of None \<Rightarrow> s | Some n \<Rightarrow> show_units n))"

definition formatUSDCAmount :: "string option \<Rightarrow> usdc_in \<Rightarrow> string" where
  "formatUSDCAmount m = formatted m (\<lambda>n. formatAmount_ui n (DECIMALS m) 0 6)"

definition formatUSDCAmountExact :: "string option \<Rightarrow> usdc_in \<Rightarrow> string" where
  "formatUSDCAmountExact m = formatted m (\<lambda>units.
     let v = nat \<bar>units\<bar>;
         base = 10 ^ DECIMALS m;
         frac = trim_zeros (padStart (DECIMALS m) (CHR ''0'') (nat_str (v mod base)));
         frac = (if length frac < 2 then padEnd 2 (CHR ''0'') frac else frac)
     in (if units < 0 then ''-'' else []) @ nat_str (v div base) @ ''.'' @ frac)"

definition formatUSDCAmount2dp :: "string option \<Rightarrow> usdc_in \<Rightarrow> string" where
  "formatUSDCAmount2dp m = formatted m (\<lambda>n. formatAmount_ui n (DECIMALS m) 2 2)"

definition formatUSDCAmount2dpTruncated :: "string option \<Rightarrow> usdc_in \<Rightarrow> string" where
  "formatUSDCAmount2dpTruncated m = formatted m (\<lambda>units.
     let truncFactor = 10 ^ (DECIMALS m - 2)
     in formatAmount_ui (big_div units truncFactor * truncFactor) (DECIMALS m) 2 2)"

text \<open>\<open>replace(',', '.')\<close> replaces the first comma.\<close>

fun replace_first :: "char \<Rightarrow> char \<Rightarrow> string \<Rightarrow> string" where
  "replace_first a b [] = []"
| "replace_first a b (c # cs) = (if c = a then b # cs else c # replace_first a b cs)"

definition UNSIGNED_DECIMAL_PATTERN :: "string \<Rightarrow> bool" where
  "UNSIGNED_DECIMAL_PATTERN v =
     (let rest = dropWhile is_digit_char v
      in rest = [] \<or> list_all is_digit_char (if hd rest = CHR ''.'' then tl rest else rest))"

definition parseUsdcAmount :: "string option \<Rightarrow> string \<Rightarrow> int option" where
  "parseUsdcAmount m raw =
     (let v = js_trim (replace_first (CHR '','') (CHR ''.'') raw) in
      if v = [] \<or> \<not> UNSIGNED_DECIMAL_PATTERN v then None
      else
        (let parts = split_on (CHR ''.'') v;
             i = hd parts;
             f = (case tl parts of [] \<Rightarrow> [] | f # _ \<Rightarrow> f);
             frac = take (DECIMALS m) (f @ replicate (DECIMALS m) (CHR ''0''))
         in case rbind (js_BigInt (if i = [] then ''0'' else i)) (\<lambda>w.
                 rbind (js_BigInt (if frac = [] then ''0'' else frac)) (\<lambda>fr.
                 Inr (w * 10 ^ DECIMALS m + fr))) of
              Inl e \<Rightarrow> None | Inr n \<Rightarrow> Some n))"

text \<open>The amount of a repayment as it is reported to the backend (\<open>useRepay.ts\<close>).\<close>

definition formatHumanFromRaw :: "int \<Rightarrow> nat \<Rightarrow> string" where
  "formatHumanFromRaw raw decimals = formatAmount_ui raw decimals 2 6"

section \<open>Lemmas on numerals\<close>

lemma zero_char: "is_digit_char (CHR ''0'')" "hex_value (CHR ''0'') = 0"
  by code_simp+

lemma length_nat_str: "0 < k \<Longrightarrow> n < 10 ^ k \<Longrightarrow> length (nat_str n) \<le> k"
proof (induction n arbitrary: k rule: nat_str.induct)
  case (1 n)
  show ?case
  proof (cases "n < 10")
    case True
    then show ?thesis using 1(2) by (simp add: nat_str.simps [of n])
  next
    case False
    then obtain j where j: "k = Suc j" "0 < j" using 1(2,3) by (cases k; cases "k - 1") auto
    then have "n div 10 < 10 ^ j" using 1(3) by (simp add: div_less_iff_less_mult mult.commute)
    then show ?thesis using 1(1) [OF False, of j] j False by (simp add: nat_str.simps [of n])
  qed
qed

lemma padStart_nat_str:
  assumes "0 < k" and "n < 10 ^ k"
  shows "length (padStart k (CHR ''0'') (nat_str n)) = k" "list_all is_digit_char (padStart k (CHR ''0'') (nat_str n))"
    "dec_value (padStart k (CHR ''0'') (nat_str n)) = n"
  using length_nat_str [OF assms] nat_str_digits [of n] zero_char(1)
  by (auto simp: padStart_def dec_value_append dec_value_zeros list_all_iff)

lemma dec_value_take:
  assumes "list_all is_digit_char s"
  shows "dec_value (take k s) = dec_value s div 10 ^ (length s - k)"
proof -
  have "dec_value s = dec_value (take k s) * 10 ^ (length s - k) + dec_value (drop k s)"
    using dec_value_append [of "take k s" "drop k s"] by simp
  moreover have "dec_value (drop k s) < 10 ^ (length s - k)"
    using dec_value_less [of "drop k s"] assms by (simp add: list_all_iff) (metis in_set_dropD)
  ultimately show ?thesis by simp
qed

lemma dec_value_snoc: "dec_value (s @ [c]) = dec_value s * 10 + hex_value c"
  by (simp add: dec_value_def)

lemma dec_value_nth:
  assumes "list_all is_digit_char s" and "k < length s"
  shows "dec_value s div 10 ^ (length s - Suc k) = dec_value (take k s) * 10 + hex_value (s ! k)" "hex_value (s ! k) < 10"
proof -
  show "dec_value s div 10 ^ (length s - Suc k) = dec_value (take k s) * 10 + hex_value (s ! k)"
    using assms dec_value_take [of s "Suc k"] by (simp add: take_Suc_conv_app_nth dec_value_snoc)
  show "hex_value (s ! k) < 10" using assms digit_props(2) by (simp add: list_all_iff)
qed

lemma trim_zeros_snoc: "trim_zeros (s @ [c]) = (if c = CHR ''0'' then trim_zeros s else s @ [c])"
  by (simp add: trim_zeros_def)

lemma trim_zeros_value:
  "length (trim_zeros s) \<le> length s \<and> dec_value (trim_zeros s) * 10 ^ (length s - length (trim_zeros s)) = dec_value s \<and>
   (list_all is_digit_char s \<longrightarrow> list_all is_digit_char (trim_zeros s))"
proof (induction s rule: rev_induct)
  case Nil
  then show ?case by (simp add: trim_zeros_def)
next
  case (snoc c s)
  show ?case
  proof (cases "c = CHR ''0''")
    case True
    from snoc have "10 * (dec_value (trim_zeros s) * 10 ^ (length s - length (trim_zeros s))) = 10 * dec_value s" by simp
    then show ?thesis using True snoc zero_char(2)
      by (auto simp: trim_zeros_snoc dec_value_snoc Suc_diff_le mult.commute mult.left_commute)
  qed (simp add: trim_zeros_snoc)
qed

lemma filter_thousands:
  "list_all is_digit_char s \<Longrightarrow> filter (\<lambda>c. \<not> is_ws c \<and> c \<noteq> CHR '','') (thousands_from b s) = s"
proof (induction s arbitrary: b)
  case (Cons c s)
  then have "is_digit_char c" "\<not> is_ws c" "c \<noteq> CHR '',''" using digit_props(3) by (auto simp: is_digit_char_def Let_def)
  then show ?case using Cons by (simp add: Let_def)
qed simp

lemma thousands_Nil [simp]: "thousands_from b s = [] \<longleftrightarrow> s = []"
  by (cases s) (simp_all add: Let_def)

text \<open>Rounding half up after \<open>k\<close> digits is decided by the next digit.\<close>

lemma round_by_digit:
  fixes r :: nat
  assumes "0 < k" and "r div 10 ^ (k - 1) = q * 10 + c" and "c < 10"
  shows "(r + 10 ^ k div 2) div 10 ^ k = q + (if 5 \<le> c then 1 else 0)"
proof -
  obtain j where k: "k = Suc j" using assms(1) by (cases k) auto
  have half: "10 ^ k div 2 = 5 * (10 :: nat) ^ j" by (simp add: k)
  have "(r + 5 * 10 ^ j) div 10 ^ j = q * 10 + c + 5" using assms(2) by (simp add: k)
  then have "(r + 5 * 10 ^ j) div (10 ^ j * 10) = (q * 10 + c + 5) div 10" by (simp only: div_mult2_eq)
  also have "\<dots> = q + (if 5 \<le> c then 1 else 0)"
  proof -
    have "(q * 10 + c + 5) div 10 = q + (c + 5) div 10" using div_mult_self3 [of 10 q "c + 5"] by simp
    also have "(c + 5) div 10 = (if 5 \<le> c then 1 else 0)" using assms(3) by auto
    finally show ?thesis .
  qed
  finally show ?thesis by (simp add: half k mult.commute)
qed

lemma round_frac_value:
  assumes d: "0 < mx" "mx \<le> d" and r: "r < 10 ^ d"
    and run: "round_frac d mx (padStart d (CHR ''0'') (nat_str r)) w = (w', f)"
  shows "length f = mx" "list_all is_digit_char f"
    "w' * 10 ^ mx + dec_value f = w * 10 ^ mx + (r + 10 ^ (d - mx) div 2) div 10 ^ (d - mx)"
proof -
  let ?s = "padStart d (CHR ''0'') (nat_str r)"
  have s: "length ?s = d" "list_all is_digit_char ?s" "dec_value ?s = r" using padStart_nat_str [of d r] d r by auto
  have "length f = mx \<and> list_all is_digit_char f \<and>
    w' * 10 ^ mx + dec_value f = w * 10 ^ mx + (r + 10 ^ (d - mx) div 2) div 10 ^ (d - mx)"
  proof (cases "mx < d")
    case False
    then have "mx = d" using d(2) by simp
    then show ?thesis using run s by (auto simp: round_frac_def padEnd_def)
  next
    case True
    let ?q = "dec_value (take mx ?s)" and ?c = "hex_value (?s ! mx)"
    have e: "r div 10 ^ (d - mx - 1) = ?q * 10 + ?c" "?c < 10" using dec_value_nth [of ?s mx] s True by auto
    have rnd: "(r + 10 ^ (d - mx) div 2) div 10 ^ (d - mx) = ?q + (if 5 \<le> ?c then 1 else 0)"
      using round_by_digit [OF _ e] True by simp
    have q: "?q < 10 ^ mx" using dec_value_less [of "take mx ?s"] s True by (simp add: list_all_iff) (metis in_set_takeD)
    define h where "h = (if 5 \<le> ?c then if ?q + 1 \<ge> 10 ^ mx then 0 else ?q + 1 else ?q)"
    have h: "h < 10 ^ mx" using q by (auto simp: h_def)
    have "f = padStart mx (CHR ''0'') (nat_str h)" "w' = (if 5 \<le> ?c \<and> ?q + 1 \<ge> 10 ^ mx then w + 1 else w)"
      using run True q by (auto simp: round_frac_def h_def Let_def split: if_splits)
    then show ?thesis using padStart_nat_str [OF d(1) h] rnd q by (auto simp: h_def)
  qed
  then show "length f = mx" "list_all is_digit_char f"
    "w' * 10 ^ mx + dec_value f = w * 10 ^ mx + (r + 10 ^ (d - mx) div 2) div 10 ^ (d - mx)" by simp_all
qed

section \<open>Round trips\<close>

lemma decimalToUnits_clean:
  assumes raw: "filter (\<lambda>c. \<not> is_ws c \<and> c \<noteq> CHR '','') v = sg @ w @ (if f = [] then [] else CHR ''.'' # f)"
    and sg: "sg \<in> {[], ''-''}" and w: "w \<noteq> []" "list_all is_digit_char w"
    and f: "list_all is_digit_char f" "length f \<le> d"
  shows "decimalToUnits v d = Some ((if sg = [] then 1 else - 1) * int (dec_value w * 10 ^ d + dec_value f * 10 ^ (d - length f)))"
proof -
  define m where "m = w @ (if f = [] then [] else CHR ''.'' # f)"
  have wd: "is_digit_char c" if "c \<in> set w" for c using w(2) that by (simp add: list_all_iff)
  have fd: "is_digit_char c" if "c \<in> set f" for c using f(1) that by (simp add: list_all_iff)
  have dot: "\<not> is_digit_char (CHR ''.'')" by (simp add: is_digit_char_def)
  have dw: "dropWhile is_digit_char m = (if f = [] then [] else CHR ''.'' # f)"
    using wd dot by (auto simp: m_def dropWhile_append2)
  have hw: "hd m = hd w" "hd w \<noteq> CHR ''-''" "hd w \<noteq> CHR ''+''" "m \<noteq> []"
    using w(1) wd digit_props(4,5) [of "hd w"] by (auto simp: m_def)
  have st: "\<not> starts_with m ''-''" "\<not> starts_with m ''+''" using hw by (cases m; auto)+
  have x: "(if sg \<noteq> [] \<or> starts_with (sg @ m) ''+'' then tl (sg @ m) else sg @ m) = m"
    "starts_with (sg @ m) ''-'' \<longleftrightarrow> sg \<noteq> []" using sg st by auto
  have pat: "SIGNED_DECIMAL_PATTERN (sg @ m)" 
    unfolding SIGNED_DECIMAL_PATTERN_def Let_def x dw using f(1) by simp
  have nd: "CHR ''.'' \<notin> set w" "CHR ''.'' \<notin> set f" using wd fd dot by auto
  have sp: "split_on (CHR ''.'') m = (if f = [] then [w] else [w, f])"
    using nd split_on_none [of _ w] split_on_one [of _ w f] by (simp add: m_def)
  have parts: "hd (if f = [] then [w] else [w, f]) = w"
    "(case tl (if f = [] then [w] else [w, f]) of [] \<Rightarrow> [] | g # _ \<Rightarrow> g) = f" by simp_all
  let ?p = "take (d + 1) (f @ replicate (d + 1) (CHR ''0''))"
  have nz: "hex_value (?p ! d) = 0"
    using f(2) zero_char(2) by (simp add: nth_append del: replicate_Suc)
  have tz: "dec_value (take d ?p) = dec_value f * 10 ^ (d - length f)"
    using f(2) by (simp add: min_def dec_value_append dec_value_zeros del: replicate_Suc)
  have ff: "filter is_digit_char f = f" using fd by (simp add: filter_id_conv)
  have v: "v \<noteq> []" using raw hw(4) m_def by auto
  show ?thesis
    unfolding decimalToUnits_def Let_def raw m_def [symmetric] x sp parts ff nz tz
    using pat w(1) v by simp
qed

text \<open>What \<open>formatAmount\<close> shows: the amount rounded half up, away from zero, to \<open>maxFrac\<close> digits.\<close>

definition rounded :: "nat \<Rightarrow> nat \<Rightarrow> int \<Rightarrow> nat" where
  "rounded d mx n = (nat \<bar>n\<bar> + 10 ^ (d - mx) div 2) div 10 ^ (d - mx)"

lemma formatAmount_shape:
  assumes mx: "mn \<le> mx" "0 < mx" "mx \<le> d"
  obtains w f where "formatAmount_ui n d mn mx =
      (if n < 0 then ''-'' else []) @ withThousands (nat_str w) @ (if f = [] then [] else CHR ''.'' # f)"
    "list_all is_digit_char f" "mn \<le> length f" "length f \<le> mx"
    "w * 10 ^ mx + dec_value f * 10 ^ (mx - length f) = rounded d mx n"
proof -
  let ?a = "nat \<bar>n\<bar>"
  obtain w g where g: "round_frac d mx (padStart d (CHR ''0'') (nat_str (?a mod 10 ^ d))) (?a div 10 ^ d) = (w, g)" by fastforce
  have r: "?a mod 10 ^ d < 10 ^ d" by simp
  note gv = round_frac_value [OF mx(2,3) r g]
  define f where "f = (if length (trim_zeros g) < mn then take (max mn (min mx (length g))) g else take mx (trim_zeros g))"
  have f: "f = (if length (trim_zeros g) < mn then g else trim_zeros g)"
    using gv(1) mx(1) trim_zeros_value [of g] by (auto simp: f_def)
  have fv: "list_all is_digit_char f" "mn \<le> length f" "length f \<le> mx" "dec_value f * 10 ^ (mx - length f) = dec_value g"
    using trim_zeros_value [of g] gv(1,2) mx(1) by (auto simp: f)
  have sum: "?a + 10 ^ (d - mx) div 2 = ?a mod 10 ^ d + 10 ^ (d - mx) div 2 + (?a div 10 ^ d) * 10 ^ mx * 10 ^ (d - mx)"
    using mx(3) div_mult_mod_eq [of ?a "10 ^ d"] by (simp add: mult.assoc flip: power_add)
  have "rounded d mx n = ?a div 10 ^ d * 10 ^ mx + (?a mod 10 ^ d + 10 ^ (d - mx) div 2) div 10 ^ (d - mx)"
    unfolding rounded_def sum by (rule div_mult_self1) simp
  then have "w * 10 ^ mx + dec_value f * 10 ^ (mx - length f) = rounded d mx n" using gv(3) fv(4) by simp
  moreover have "formatAmount_ui n d mn mx =
      (if n < 0 then ''-'' else []) @ withThousands (nat_str w) @ (if f = [] then [] else CHR ''.'' # f)"
    unfolding formatAmount_ui_def Let_def g prod.case f_def [symmetric] by simp
  ultimately show ?thesis using that fv by blast
qed

lemma filter_signed:
  assumes "list_all is_digit_char w" and "list_all is_digit_char f"
  shows "filter (\<lambda>c. \<not> is_ws c \<and> c \<noteq> CHR '','') ((if b then ''-'' else []) @ withThousands w @ (if f = [] then [] else CHR ''.'' # f)) =
    (if b then ''-'' else []) @ w @ (if f = [] then [] else CHR ''.'' # f)"
proof -
  have "filter (\<lambda>c. \<not> is_ws c \<and> c \<noteq> CHR '','') f = f"
    using assms(2) digit_props(3) by (auto simp: filter_id_conv list_all_iff is_digit_char_def Let_def)
  then show ?thesis using filter_thousands [OF assms(1)] by (simp add: withThousands_def is_ws_def)
qed

lemma amount_shown:
  assumes mx: "mn \<le> mx" "0 < mx" "mx \<le> d"
  shows "decimalToUnits (formatAmount_ui n d mn mx) d = Some (sgn n * int (rounded d mx n * 10 ^ (d - mx)))"
proof -
  obtain w f where s: "formatAmount_ui n d mn mx =
      (if n < 0 then ''-'' else []) @ withThousands (nat_str w) @ (if f = [] then [] else CHR ''.'' # f)"
    and f: "list_all is_digit_char f" "length f \<le> mx"
    and v: "w * 10 ^ mx + dec_value f * 10 ^ (mx - length f) = rounded d mx n"
    using formatAmount_shape [OF mx] by metis
  have w: "list_all is_digit_char (nat_str w)" "nat_str w \<noteq> []" "dec_value (nat_str w) = w" using nat_str_digits by auto
  have "(w * 10 ^ mx + dec_value f * 10 ^ (mx - length f)) * 10 ^ (d - mx) = w * 10 ^ d + dec_value f * 10 ^ (d - length f)"
    using mx(3) f(2) by (simp add: add_mult_distrib mult.assoc flip: power_add)
  then have e: "w * 10 ^ d + dec_value f * 10 ^ (d - length f) = rounded d mx n * 10 ^ (d - mx)" using v by simp
  have z: "rounded d mx 0 = 0" by (simp add: rounded_def)
  show ?thesis
    using decimalToUnits_clean [OF filter_signed [OF w(1) f(1), of "n < 0"] _ w(2,1) f(1), of d] f(2) mx(3) e w(3) z
    unfolding s by (cases "n = 0") (auto simp: sgn_if split: if_splits)
qed

lemma DECIMALS_cases: "DECIMALS m = 6 \<or> DECIMALS m = 7"
  by (simp add: DECIMALS_def STELLAR_TOKEN_DECIMALS_def EVM_USDC_DECIMALS_def)

lemma parse_numeral:
  assumes w: "w \<noteq> []" "list_all is_digit_char w" and f: "list_all is_digit_char f" "length f \<le> DECIMALS m"
  shows "parseUsdcAmount m (w @ CHR ''.'' # f) =
    Some (int (dec_value w * 10 ^ DECIMALS m + dec_value f * 10 ^ (DECIMALS m - length f)))"
proof -
  let ?v = "w @ CHR ''.'' # f"
  have d: "is_digit_char c" if "c \<in> set w \<union> set f" for c using w(2) f(1) that by (auto simp: list_all_iff)
  have dot: "\<not> is_digit_char (CHR ''.'')" "\<not> is_digit_char (CHR '','')" by (simp_all add: is_digit_char_def)
  have rf: "replace_first (CHR '','') (CHR ''.'') s = s" if "CHR '','' \<notin> set s" for s using that by (induction s) auto
  have "CHR '','' \<notin> set ?v" using d dot by auto
  moreover have "js_trim ?v = ?v" using d digit_props(3) by (intro js_trim_no_ws) (auto simp: is_ws_def)
  ultimately have v: "js_trim (replace_first (CHR '','') (CHR ''.'') ?v) = ?v" using rf by simp
  have pat: "UNSIGNED_DECIMAL_PATTERN ?v"
    using d dot f(1) by (auto simp: UNSIGNED_DECIMAL_PATTERN_def dropWhile_append2)
  have sp: "split_on (CHR ''.'') ?v = [w, f]" using d dot by (intro split_on_one) auto
  let ?g = "take (DECIMALS m) (f @ replicate (DECIMALS m) (CHR ''0''))"
  have g: "?g = f @ replicate (DECIMALS m - length f) (CHR ''0'')" using f(2) by simp
  have gd: "list_all is_digit_char (f @ replicate (DECIMALS m - length f) (CHR ''0''))"
    using d zero_char(1) by (auto simp: list_all_iff)
  have bg: "js_BigInt (if ?g = [] then ''0'' else ?g) = Inr (int (dec_value f * 10 ^ (DECIMALS m - length f)))"
    unfolding g js_BigInt_or_zero [OF gd] by (simp add: dec_value_append dec_value_zeros)
  have bw: "js_BigInt (if w = [] then ''0'' else w) = Inr (int (dec_value w))" using js_BigInt_digits w by simp
  show ?thesis
    unfolding parseUsdcAmount_def Let_def v sp list.sel list.case bw bg using pat by (simp add: rbind_def)
qed

lemma formatExact_shape:
  obtains f where "formatUSDCAmountExact m (Units n) =
      (if n < 0 then ''-'' else []) @ nat_str (nat \<bar>n\<bar> div 10 ^ DECIMALS m) @ CHR ''.'' # f"
    "list_all is_digit_char f" "length f \<le> DECIMALS m"
    "dec_value f * 10 ^ (DECIMALS m - length f) = nat \<bar>n\<bar> mod 10 ^ DECIMALS m"
proof -
  let ?D = "DECIMALS m" and ?r = "nat \<bar>n\<bar> mod 10 ^ DECIMALS m"
  let ?s = "padStart ?D (CHR ''0'') (nat_str ?r)"
  define t where "t = trim_zeros ?s"
  define f where "f = (if length t < 2 then padEnd 2 (CHR ''0'') t else t)"
  have D: "0 < ?D" "2 \<le> ?D" using DECIMALS_cases [of m] by auto
  have s: "length ?s = ?D" "list_all is_digit_char ?s" "dec_value ?s = ?r" using padStart_nat_str [OF D(1), of ?r] by auto
  have t: "length t \<le> ?D" "dec_value t * 10 ^ (?D - length t) = ?r" "list_all is_digit_char t"
    using trim_zeros_value [of ?s] s by (auto simp: t_def)
  have f: "list_all is_digit_char f" "length f \<le> ?D" "dec_value f * 10 ^ (?D - length f) = ?r"
    using t D(2) zero_char(1)
    by (auto simp: f_def padEnd_def list_all_iff dec_value_append dec_value_zeros mult.assoc simp flip: power_add)
  have "formatUSDCAmountExact m (Units n) = (if n < 0 then ''-'' else []) @ nat_str (nat \<bar>n\<bar> div 10 ^ ?D) @ CHR ''.'' # f"
    unfolding formatUSDCAmountExact_def formatted_def Let_def usdc_in.case t_def [symmetric] f_def [symmetric] by simp
  then show ?thesis using that f by blast
qed

lemma parse_exact: "parseUsdcAmount m (formatUSDCAmountExact m (Units n)) = (if n < 0 then None else Some n)"
proof (cases "n < 0")
  case True
  obtain g where "formatUSDCAmountExact m (Units n) = CHR ''-'' # g" using formatExact_shape [of m n] True by auto
  moreover have "js_trim (CHR ''-'' # h) = CHR ''-'' # rev (dropWhile is_ws (rev h))" for h
    by (simp add: js_trim_def is_ws_def dropWhile_append)
  ultimately show ?thesis using True
    by (simp add: parseUsdcAmount_def UNSIGNED_DECIMAL_PATTERN_def is_digit_char_def)
next
  case False
  obtain f where f: "formatUSDCAmountExact m (Units n) = nat_str (nat \<bar>n\<bar> div 10 ^ DECIMALS m) @ CHR ''.'' # f"
      "list_all is_digit_char f" "length f \<le> DECIMALS m" "dec_value f * 10 ^ (DECIMALS m - length f) = nat \<bar>n\<bar> mod 10 ^ DECIMALS m"
    using formatExact_shape [of m n] False by auto
  have "nat_str k \<noteq> []" "list_all is_digit_char (nat_str k)" "dec_value (nat_str k) = k" for k using nat_str_digits by auto
  then have "parseUsdcAmount m (formatUSDCAmountExact m (Units n)) =
      Some (int (nat \<bar>n\<bar> div 10 ^ DECIMALS m * 10 ^ DECIMALS m + nat \<bar>n\<bar> mod 10 ^ DECIMALS m))"
    using parse_numeral [OF _ _ f(2,3)] f(1,4) by simp
  then show ?thesis using False by (simp only: div_mult_mod_eq) simp
qed

lemma amount_truncated:
  fixes m n defines "c \<equiv> 10 ^ (DECIMALS m - 2)"
  shows "decimalToUnits (formatUSDCAmount2dpTruncated m (Units n)) (DECIMALS m) = Some (big_div n c * c)"
proof -
  let ?t = "big_div n c * c" and ?k = "10 ^ (DECIMALS m - 2) :: nat"
  have c: "c = int ?k" by (simp add: c_def)
  define q where "q = nat \<bar>big_div n c\<bar>"
  have t: "nat \<bar>?t\<bar> = q * ?k" by (simp add: q_def c nat_abs_mult_distrib)
  have "rounded (DECIMALS m) 2 ?t = q" by (simp add: rounded_def t)
  then have "sgn ?t * int (rounded (DECIMALS m) 2 ?t * ?k) = sgn ?t * \<bar>?t\<bar>" using t by (metis nat_abs_int_diff abs_ge_zero int_nat_eq of_nat_eq_iff)
  then show ?thesis
    using amount_shown [of 2 2 "DECIMALS m" ?t] DECIMALS_cases [of m]
    by (auto simp: formatUSDCAmount2dpTruncated_def formatted_def Let_def c_def sgn_mult_abs)
qed

section \<open>The amount of a report\<close>

lemma thousands_short:
  "list_all is_digit_char s \<Longrightarrow> length s < 3 \<Longrightarrow> thousands_from b s = s"
proof (induction s arbitrary: b)
  case (Cons c s)
  then have "length (takeWhile is_digit_char (c # s)) = length (c # s)" by (simp add: takeWhile_eq_all_conv [THEN iffD2] list_all_iff)
  moreover have "\<not> 3 dvd length (c # s)" using Cons(3) by (auto dest: dvd_imp_le)
  ultimately show ?case using Cons by (simp add: Let_def del: takeWhile.simps)
qed simp

lemma withThousands_short: "list_all is_digit_char s \<Longrightarrow> length s \<le> 3 \<Longrightarrow> withThousands s = s"
  by (cases s) (simp_all add: withThousands_def Let_def thousands_short)

lemma thousands_comma:
  "list_all is_digit_char s \<Longrightarrow> 3 \<le> length s \<Longrightarrow> CHR '','' \<in> set (thousands_from True s)"
proof (induction s)
  case (Cons c s)
  have tw: "takeWhile is_digit_char (c # s) = c # s" using Cons(2) by (simp add: takeWhile_eq_all_conv list_all_iff)
  show ?case
  proof (cases "3 dvd length (c # s)")
    case True
    then show ?thesis unfolding thousands_from.simps tw by (simp add: Let_def)
  next
    case False
    then have "3 \<le> length s" using Cons(3) by (cases "length s = 2") auto
    moreover have "is_word_char c" using Cons(2) by (simp add: is_word_char_def)
    ultimately show ?thesis using Cons by (simp add: Let_def)
  qed
qed simp

lemma withThousands_comma:
  assumes "list_all is_digit_char s" and "3 < length s"
  shows "CHR '','' \<in> set (withThousands s)"
proof (cases s)
  case (Cons c t)
  then have "is_word_char c" "list_all is_digit_char t" "3 \<le> length t" using assms by (auto simp: is_word_char_def)
  then show ?thesis using thousands_comma [of t] Cons by (simp add: withThousands_def Let_def)
qed (use assms in simp)

lemma nat_str_short: "length (nat_str w) \<le> 3 \<longleftrightarrow> w < 1000"
proof
  assume "length (nat_str w) \<le> 3"
  then have "10 ^ length (nat_str w) \<le> (10 :: nat) ^ 3" by (intro power_increasing) auto
  then show "w < 1000" using dec_value_less [of "nat_str w"] nat_str_digits [of w] by simp
qed (use length_nat_str [of 3 w] in simp)

lemma pattern_no_comma: "AMOUNT_PATTERN a \<Longrightarrow> CHR '','' \<notin> set a"
proof
  assume p: "AMOUNT_PATTERN a" and c: "CHR '','' \<in> set a"
  have nd: "\<not> is_digit_char (CHR '','')" by (simp add: is_digit_char_def)
  then have "CHR '','' \<notin> set (takeWhile is_digit_char a)" using set_takeWhileD by fastforce
  then have d: "CHR '','' \<in> set (dropWhile is_digit_char a)" using c by (metis UnE set_append takeWhile_dropWhile_id)
  then obtain x xs where "dropWhile is_digit_char a = x # xs" by (cases "dropWhile is_digit_char a") auto
  then show False using p d nd by (auto simp: AMOUNT_PATTERN_def Let_def list_all_iff)
qed

text \<open>The numeral that a repayment is reported with.\<close>

lemma reported_shape:
  assumes "6 \<le> d" and "0 \<le> raw"
  obtains w f where "formatHumanFromRaw raw d = withThousands (nat_str w) @ CHR ''.'' # f"
    "list_all is_digit_char f" "f \<noteq> []" "length f \<le> 6"
    "w * 10 ^ 6 + dec_value f * 10 ^ (6 - length f) = rounded d 6 raw"
proof -
  obtain w f where f: "formatHumanFromRaw raw d = withThousands (nat_str w) @ (if f = [] then [] else CHR ''.'' # f)"
      "list_all is_digit_char f" "2 \<le> length f" "length f \<le> 6"
      "w * 10 ^ 6 + dec_value f * 10 ^ (6 - length f) = rounded d 6 raw"
    using formatAmount_shape [of 2 6 d raw] assms by (auto simp: formatHumanFromRaw_def)
  then have "f \<noteq> []" by auto
  then show ?thesis using that f by auto
qed

lemma reported_pattern:
  assumes f: "list_all is_digit_char f" "f \<noteq> []" "length f \<le> 6"
  shows "AMOUNT_PATTERN (withThousands (nat_str w) @ CHR ''.'' # f) \<longleftrightarrow> w < 1000"
proof
  assume "AMOUNT_PATTERN (withThousands (nat_str w) @ CHR ''.'' # f)"
  then show "w < 1000"
    using pattern_no_comma withThousands_comma [of "nat_str w"] nat_str_digits [of w] nat_str_short [of w] by (fastforce simp: not_le)
next
  assume w: "w < 1000"
  have n: "list_all is_digit_char (nat_str w)" "nat_str w \<noteq> []" "length (nat_str w) \<le> 3"
    using nat_str_digits [of w] nat_str_short [of w] w by auto
  have "\<not> is_digit_char (CHR ''.'')" by (simp add: is_digit_char_def)
  then have "takeWhile is_digit_char (nat_str w @ CHR ''.'' # f) = nat_str w"
    "dropWhile is_digit_char (nat_str w @ CHR ''.'' # f) = CHR ''.'' # f"
    using n(1) by (simp_all add: takeWhile_append2 dropWhile_append2 list_all_iff)
  then show "AMOUNT_PATTERN (withThousands (nat_str w) @ CHR ''.'' # f)"
    using n f withThousands_short [OF n(1,3)] by (simp add: AMOUNT_PATTERN_def Let_def)
qed

text \<open>
  \<open>new Decimal\<close> of a numeral is its value: the constructor of the package does not round.
\<close>

definition exact_decimal :: "env \<Rightarrow> bool" where
  "exact_decimal e \<longleftrightarrow> (\<forall>w f. w \<noteq> [] \<longrightarrow> f \<noteq> [] \<longrightarrow> list_all is_digit_char w \<longrightarrow> list_all is_digit_char f \<longrightarrow>
     new_Decimal e (w @ CHR ''.'' # f) = Some (of_nat (dec_value (w @ f)) / 10 ^ length f))"

lemma reported_value:
  assumes f: "list_all is_digit_char f" "f \<noteq> []" "length f \<le> 6"
    and w: "w * 10 ^ 6 + dec_value f * 10 ^ (6 - length f) = r" "0 < r" and e: "exact_decimal e"
  shows "parseAmountHuman e (withThousands (nat_str w) @ CHR ''.'' # f) = Inr (of_nat r / 10 ^ 6)"
proof -
  have n: "list_all is_digit_char (nat_str w)" "nat_str w \<noteq> []" "dec_value (nat_str w) = w" using nat_str_digits by auto
  let ?v = "nat_str w @ CHR ''.'' # f"
  have clean: "js_trim (filter (\<lambda>c. c \<noteq> CHR '','') (withThousands (nat_str w) @ CHR ''.'' # f)) = ?v"
  proof -
    have ns: "\<forall>c \<in> set ?v. \<not> is_ws c" using n(1) f(1) digit_props(3) by (auto simp: list_all_iff is_ws_def)
    have nc: "filter (\<lambda>c. c \<noteq> CHR '','') f = f"
      using f(1) by (auto simp: filter_id_conv list_all_iff is_digit_char_def Let_def)
    have "set (thousands_from b s) \<subseteq> insert (CHR '','') (set s)" for b s
      by (induction b s rule: thousands_from.induct) (auto simp: Let_def)
    then have "\<forall>c \<in> set (withThousands (nat_str w)). \<not> is_ws c"
      using ns by (fastforce simp: withThousands_def is_ws_def)
    then have "filter (\<lambda>c. c \<noteq> CHR '','') (withThousands (nat_str w)) =
        filter (\<lambda>c. \<not> is_ws c \<and> c \<noteq> CHR '','') (withThousands (nat_str w))"
      by (intro filter_cong) auto
    also have "\<dots> = nat_str w" unfolding withThousands_def by (rule filter_thousands [OF n(1)])
    finally have "filter (\<lambda>c. c \<noteq> CHR '','') (withThousands (nat_str w)) = nat_str w" .
    then show ?thesis using js_trim_no_ws [OF ns] nc by simp
  qed
  have "new_Decimal e ?v = Some (of_nat (dec_value (nat_str w @ f)) / 10 ^ length f)"
    using e n f by (simp add: exact_decimal_def)
  moreover have "of_nat (dec_value (nat_str w @ f)) / 10 ^ length f = (of_nat r / 10 ^ 6 :: rat)"
  proof -
    have "dec_value (nat_str w @ f) * 10 ^ (6 - length f) = r"
      using w(1) f(3) n(3) by (simp add: dec_value_append add_mult_distrib mult.assoc flip: power_add)
    then have "(of_nat r :: rat) = of_nat (dec_value (nat_str w @ f)) * 10 ^ (6 - length f)"
      by (metis of_nat_mult of_nat_numeral of_nat_power)
    moreover have "(10 :: rat) ^ 6 = 10 ^ length f * 10 ^ (6 - length f)" using f(3) by (simp flip: power_add)
    ultimately show ?thesis by (simp only:) (simp add: field_simps)
  qed
  ultimately show ?thesis using w(2) unfolding parseAmountHuman_def Let_def clean by simp
qed

lemma rounded_close:
  assumes "6 \<le> d" and "0 \<le> raw"
  shows "\<bar>of_nat (rounded d 6 raw) / 10 ^ 6 - of_int raw / 10 ^ d\<bar> \<le> 1 / (2 * 10 ^ 6 :: rat)"
proof -
  define c where "c = (10 :: nat) ^ (d - 6)"
  let ?r = "rounded d 6 raw"
  have c: "0 < c" by (simp add: c_def)
  have r: "?r = (nat raw + c div 2) div c" using assms(2) by (simp add: rounded_def c_def)
  have "?r * c \<le> nat raw + c div 2" "nat raw + c div 2 < ?r * c + c"
    unfolding r using c by (auto simp: div_times_less_eq_dividend) (metis add.commute dividend_less_div_times)
  then have "2 * (?r * c) \<le> 2 * nat raw + c" "2 * nat raw \<le> 2 * (?r * c) + c" by linarith+
  then have "(of_nat (2 * (?r * c)) :: rat) \<le> of_nat (2 * nat raw + c)" "(of_nat (2 * nat raw) :: rat) \<le> of_nat (2 * (?r * c) + c)"
    by (simp_all only: of_nat_le_iff)
  then have "2 * (of_nat ?r * of_nat c :: rat) \<le> 2 * of_nat (nat raw) + of_nat c"
    "2 * of_nat (nat raw) \<le> 2 * (of_nat ?r * of_nat c :: rat) + of_nat c"
    by simp_all
  moreover have "of_nat (nat raw) = (of_int raw :: rat)" using assms(2) by simp
  ultimately have "\<bar>of_nat ?r * of_nat c - of_int raw\<bar> \<le> (of_nat c / 2 :: rat)"
    by (simp only: abs_le_iff) linarith
  moreover have "(10 :: rat) ^ d = 10 ^ 6 * of_nat c" 
    using assms(1) power_add [of "10 :: rat" 6 "d - 6"] by (simp add: c_def)
  ultimately show ?thesis using c by (simp add: field_simps abs_le_iff)
qed

section \<open>Properties\<close>

text \<open>
  C17. Amounts survive their display. Whatever the amount and its sign, reading the shown numeral
  back gives the amount rounded half away from zero to six or two digits, also where the
  rounding carries into the whole part and where the numeral has thousands separators; with the
  truncating display it gives the amount cut towards zero to two digits. The exact display is
  read back by the amount field as the very amount, and a negative one is refused.
\<close>

theorem amounts_roundtrip:
  "decimalToUnits (formatUSDCAmount m (Units n)) (DECIMALS m) =
     Some (sgn n * int (rounded (DECIMALS m) 6 n * 10 ^ (DECIMALS m - 6))) \<and>
   decimalToUnits (formatUSDCAmount2dp m (Units n)) (DECIMALS m) =
     Some (sgn n * int (rounded (DECIMALS m) 2 n * 10 ^ (DECIMALS m - 2))) \<and>
   decimalToUnits (formatUSDCAmount2dpTruncated m (Units n)) (DECIMALS m) =
     Some (big_div n (10 ^ (DECIMALS m - 2)) * 10 ^ (DECIMALS m - 2)) \<and>
   parseUsdcAmount m (formatUSDCAmountExact m (Units n)) = (if n < 0 then None else Some n)"
proof -
  have d: "6 \<le> DECIMALS m" "2 \<le> DECIMALS m" using DECIMALS_cases [of m] by auto
  show ?thesis
    using amount_shown [of 0 6 "DECIMALS m" n] amount_shown [of 2 2 "DECIMALS m" n] d amount_truncated [of m n] parse_exact [of m n]
    by (simp add: formatUSDCAmount_def formatUSDCAmount2dp_def formatted_def)
qed

text \<open>
  C39. The amount of a reported repayment. With a token of at least six decimals the backend reads
  the numeral that the page sends as the paid amount rounded to six digits, which is within half
  a millionth of it; and its validation accepts the numeral exactly when the rounded amount is
  less than 1000 tokens: from there on the numeral has a thousands separator, and the report of
  the repayment is refused.
\<close>

theorem reported_amount:
  assumes d: "6 \<le> d" and raw: "0 \<le> raw" "0 < rounded d 6 raw" and e: "exact_decimal e"
  shows "parseAmountHuman e (formatHumanFromRaw raw d) = Inr (of_nat (rounded d 6 raw) / 10 ^ 6) \<and>
    \<bar>of_nat (rounded d 6 raw) / 10 ^ 6 - of_int raw / 10 ^ d\<bar> \<le> 1 / (2 * 10 ^ 6 :: rat) \<and>
    (AMOUNT_PATTERN (formatHumanFromRaw raw d) \<longleftrightarrow> rounded d 6 raw < 1000 * 10 ^ 6) \<and>
    (1000 * 10 ^ 6 \<le> rounded d 6 raw \<longrightarrow>
      post_inform_repayment D C (dto\<lparr>ir_amountPaidHuman := formatHumanFromRaw raw d\<rparr>) header = rejected C header)"
proof -
  obtain w f where f: "formatHumanFromRaw raw d = withThousands (nat_str w) @ CHR ''.'' # f"
    "list_all is_digit_char f" "f \<noteq> []" "length f \<le> 6"
    "w * 10 ^ 6 + dec_value f * 10 ^ (6 - length f) = rounded d 6 raw"
    using reported_shape [OF d raw(1)] by metis
  have "dec_value f * 10 ^ (6 - length f) < 10 ^ length f * 10 ^ (6 - length f)"
    using dec_value_less [OF f(2)] by (intro mult_strict_right_mono) simp_all
  then have "dec_value f * 10 ^ (6 - length f) < 10 ^ 6" using f(4) by (simp flip: power_add)
  then have "w < 1000 \<longleftrightarrow> rounded d 6 raw < 1000 * 10 ^ 6"
    unfolding f(5) [symmetric] by (simp, linarith)
  then have pat: "AMOUNT_PATTERN (formatHumanFromRaw raw d) \<longleftrightarrow> rounded d 6 raw < 1000 * 10 ^ 6"
    using reported_pattern [OF f(2-4)] f(1) by simp
  moreover have "parseAmountHuman e (formatHumanFromRaw raw d) = Inr (of_nat (rounded d 6 raw) / 10 ^ 6)"
    using reported_value [OF f(2-5) raw(2) e] f(1) by simp
  moreover have "\<bar>of_nat (rounded d 6 raw) / 10 ^ 6 - of_int raw / 10 ^ d\<bar> \<le> 1 / (2 * 10 ^ 6 :: rat)"
    by (rule rounded_close [OF d raw(1)])
  ultimately show ?thesis
    by (auto simp: post_inform_repayment_def valid_InformRepaymentDto_def)
qed

text \<open>A \<open>Decimal\<close> that reads numerals with a point.\<close>

definition plain_decimal :: "string \<Rightarrow> rat option" where
  "plain_decimal s = (case split_on (CHR ''.'') s of
     [w, f] \<Rightarrow> Some (of_nat (dec_value (w @ f)) / 10 ^ length f) | _ \<Rightarrow> None)"

lemma plain_decimal_exact: "exact_decimal (example_env\<lparr>new_Decimal := plain_decimal\<rparr>)"
proof -
  have "CHR ''.'' \<notin> set s" if "list_all is_digit_char s" for s
    using that by (auto simp: list_all_iff is_digit_char_def)
  then show ?thesis by (simp add: exact_decimal_def plain_decimal_def split_on_one)
qed

theorem reported_amount_witness:
  "parseAmountHuman (example_env\<lparr>new_Decimal := plain_decimal\<rparr>) (formatHumanFromRaw 25000001 7) = Inr (5 / 2) \<and>
   \<not> AMOUNT_PATTERN (formatHumanFromRaw 10000000000 7)"
proof -
  have r: "rounded 7 6 25000001 = 2500000" "rounded 7 6 10000000000 = 1000000000" by (simp_all add: rounded_def)
  show ?thesis
    using reported_amount [of 7 25000001, OF _ _ _ plain_decimal_exact, THEN conjunct1]
      reported_amount [of 7 10000000000, OF _ _ _ plain_decimal_exact, THEN conjunct2, THEN conjunct2, THEN conjunct1] r by simp
qed

end
