(* ===== verification/Credit_View.thy ===== *)
theory Credit_View
  imports Amount_Format
begin

text \<open>
  What the page shows of a borrower: the stores of \<open>frontend/src/stores\<close>, the tiers, the update
  that \<open>useRepay.ts\<close> applies before the backend has answered, and the poll of the chain in
  \<open>useCreditLine.ts\<close>. Shown is that the stores keep the optimistic values as a floor, that these are the
  values the backend will store, and where they are not.
\<close>

section \<open>Tiers\<close>

text \<open>\<open>lib/tiers.ts\<close>; the emojis are left out. Scores are integers, as everywhere in the model.\<close>

record TierDefinition =
  tier_score :: int
  tier_limitUsdc :: int
  tier_name :: string
  tier_groupLabel :: string

definition TIERS :: "TierDefinition list" where
  "TIERS =
    [\<lparr>tier_score = 1, tier_limitUsdc = 1, tier_name = ''Nivel 1: Novato'', tier_groupLabel = ''Novato''\<rparr>,
     \<lparr>tier_score = 2, tier_limitUsdc = 3, tier_name = ''Nivel 2: Novato'', tier_groupLabel = ''Novato''\<rparr>,
     \<lparr>tier_score = 3, tier_limitUsdc = 4, tier_name = ''Nivel 3: Activo'', tier_groupLabel = ''Activo''\<rparr>,
     \<lparr>tier_score = 4, tier_limitUsdc = 6, tier_name = ''Nivel 4: Activo'', tier_groupLabel = ''Activo''\<rparr>,
     \<lparr>tier_score = 5, tier_limitUsdc = 8, tier_name = ''Nivel 5: Estable'', tier_groupLabel = ''Estable''\<rparr>,
     \<lparr>tier_score = 6, tier_limitUsdc = 10, tier_name = ''Nivel 6: Estable'', tier_groupLabel = ''Estable''\<rparr>,
     \<lparr>tier_score = 7, tier_limitUsdc = 12, tier_name = ''Nivel 7: Confiable'', tier_groupLabel = ''Confiable''\<rparr>,
     \<lparr>tier_score = 8, tier_limitUsdc = 15, tier_name = ''Nivel 8: Confiable'', tier_groupLabel = ''Confiable''\<rparr>,
     \<lparr>tier_score = 9, tier_limitUsdc = 18, tier_name = ''Nivel 9: Referente'', tier_groupLabel = ''Referente''\<rparr>,
     \<lparr>tier_score = 10, tier_limitUsdc = 22, tier_name = ''Nivel 10: Referente'', tier_groupLabel = ''Referente''\<rparr>,
     \<lparr>tier_score = 11, tier_limitUsdc = 25, tier_name = ''Nivel 11: Leyenda'', tier_groupLabel = ''Leyenda''\<rparr>]"

definition getTierForScore :: "int \<Rightarrow> TierDefinition" where
  "getTierForScore sc = TIERS ! nat (max 1 (min MAX_CREDIT_LEVEL sc) - 1)"

definition getGroupLabelForScore_ui :: "int \<Rightarrow> string" where
  "getGroupLabelForScore_ui sc = tier_groupLabel (getTierForScore sc)"

datatype TierState = past | current | locked

definition tierState :: "TierDefinition \<Rightarrow> int \<Rightarrow> bool \<Rightarrow> TierState" where
  "tierState td currentScore hasScore =
     (if \<not> hasScore then locked
      else if tier_score td = currentScore then current
      else if tier_score td < currentScore then past
      else locked)"

section \<open>Stores\<close>

record CreditState =
  creditScoreDisplay :: "string option"
  creditScoreRaw :: "int option"
  optimisticScoreRaw :: "int option"
  optimisticLimitRaw :: "int option"
  optimisticUntil :: "int option"

definition reset_credit :: CreditState where
  "reset_credit = \<lparr>creditScoreDisplay = None, creditScoreRaw = None, optimisticScoreRaw = None,
     optimisticLimitRaw = None, optimisticUntil = None\<rparr>"

definition clearOptimistic :: "CreditState \<Rightarrow> CreditState" where
  "clearOptimistic c = c\<lparr>optimisticScoreRaw := None, optimisticLimitRaw := None, optimisticUntil := None\<rparr>"

definition floor_expired :: "int \<Rightarrow> CreditState \<Rightarrow> bool" where
  "floor_expired clock c = (case optimisticUntil c of None \<Rightarrow> False | Some u \<Rightarrow> clock > u)"

definition setCreditScoreRawHwm :: "int \<Rightarrow> int option \<Rightarrow> CreditState \<Rightarrow> CreditState" where
  "setCreditScoreRawHwm clock v c =
     (if floor_expired clock c then clearOptimistic (c\<lparr>creditScoreRaw := v\<rparr>)
      else
        case optimisticScoreRaw c of
          None \<Rightarrow> c\<lparr>creditScoreRaw := v\<rparr>
        | Some f \<Rightarrow>
            (case v of
               None \<Rightarrow> clearOptimistic (c\<lparr>creditScoreRaw := None\<rparr>)
             | Some x \<Rightarrow>
                 if x \<ge> f then clearOptimistic (c\<lparr>creditScoreRaw := Some x\<rparr>)
                 else c\<lparr>creditScoreRaw := Some f\<rparr>))"

definition setOptimistic :: "int \<Rightarrow> int \<Rightarrow> int \<Rightarrow> CreditState \<Rightarrow> CreditState" where
  "setOptimistic scoreRaw limitRaw untilMs c =
     c\<lparr>optimisticScoreRaw := Some scoreRaw, optimisticLimitRaw := Some limitRaw, optimisticUntil := Some untilMs,
       creditScoreRaw := Some scoreRaw\<rparr>"

text \<open>The flag of a running request is left out.\<close>

record LoanStatsState =
  loansCount :: "int option"
  closedLoansCount :: "int option"
  loansOnTimeCount :: "int option"
  openLoansCount :: "int option"
  onTimePercent :: "rat option"

definition reset_stats :: LoanStatsState where
  "reset_stats = \<lparr>loansCount = None, closedLoansCount = None, loansOnTimeCount = None, openLoansCount = None,
     onTimePercent = None\<rparr>"

definition maxOrNull :: "int option \<Rightarrow> int option \<Rightarrow> int option" where
  "maxOrNull a b = (case a of None \<Rightarrow> b | Some x \<Rightarrow> (case b of None \<Rightarrow> Some x | Some y \<Rightarrow> Some (max x y)))"

definition setLoansCountHwm :: "int option \<Rightarrow> LoanStatsState \<Rightarrow> LoanStatsState" where
  "setLoansCountHwm v st = st\<lparr>loansCount := maxOrNull (loansCount st) v\<rparr>"

definition setClosedLoansCountHwm :: "int option \<Rightarrow> LoanStatsState \<Rightarrow> LoanStatsState" where
  "setClosedLoansCountHwm v st = st\<lparr>closedLoansCount := maxOrNull (closedLoansCount st) v\<rparr>"

definition setLoansOnTimeCountHwm :: "int option \<Rightarrow> LoanStatsState \<Rightarrow> LoanStatsState" where
  "setLoansOnTimeCountHwm v st = st\<lparr>loansOnTimeCount := maxOrNull (loansOnTimeCount st) v\<rparr>"

text \<open>The achievements themselves, which no code here reads, are left out.\<close>

record GamificationState =
  shown_xp :: "int option"
  achievementsCount :: "int option"
  pendingRepGain :: "ReputationGainPayload option"

definition reset_game :: GamificationState where
  "reset_game = \<lparr>shown_xp = None, achievementsCount = None, pendingRepGain = None\<rparr>"

section \<open>Statistics of the backend\<close>

definition safeNonNegative :: "int option \<Rightarrow> int" where
  "safeNonNegative v = (case v of None \<Rightarrow> 0 | Some n \<Rightarrow> max 0 n)"

definition on_time_percent :: "int \<Rightarrow> int \<Rightarrow> rat" where
  "on_time_percent closedSafe onTimeSafe =
     (if closedSafe > 0 \<and> onTimeSafe > 0
      then max 0 (min 100 (fmul (fdiv (of_int onTimeSafe) (of_int closedSafe)) 100)) else 0)"

definition setLoanStatsFromJourney :: "int option \<Rightarrow> int option \<Rightarrow> int option \<Rightarrow> int option \<Rightarrow> int option \<Rightarrow> int option \<Rightarrow> bool
    \<Rightarrow> LoanStatsState \<times> GamificationState \<Rightarrow> LoanStatsState \<times> GamificationState" where
  "setLoanStatsFromJourney loans_all loans_closed onTime loans_open xpValue achievementsValue useHwm stores =
     (let (st, g) = stores;
          totalSafe = safeNonNegative loans_all;
          closedSafe = safeNonNegative loans_closed;
          onTimeSafe = safeNonNegative onTime;
          openSafe = safeNonNegative loans_open;
          st = (if useHwm
                then setLoansOnTimeCountHwm (Some onTimeSafe) (setClosedLoansCountHwm (Some closedSafe) (setLoansCountHwm (Some totalSafe) st))
                else st\<lparr>loansCount := Some totalSafe, closedLoansCount := Some closedSafe, loansOnTimeCount := Some onTimeSafe\<rparr>);
          st = st\<lparr>openLoansCount := Some openSafe, onTimePercent := Some (on_time_percent closedSafe onTimeSafe)\<rparr>;
          g = (case xpValue of None \<Rightarrow> g | Some x \<Rightarrow> g\<lparr>shown_xp := Some (max 0 x)\<rparr>);
          g = (case achievementsValue of None \<Rightarrow> g | Some a \<Rightarrow> g\<lparr>achievementsCount := Some (max 0 a)\<rparr>)
      in (st, g))"

section \<open>The poll of the chain\<close>

text \<open>
  The state of \<open>useCreditLine\<close>; where a display has no value yet it shows a dash, here \<open>None\<close>. The flag
  of a running read and the text of an error are left out.
\<close>

record CreditLine =
  scoreRaw :: "int option"
  scoreDisplay :: "string option"
  limitRaw :: "int option"
  borrowedRaw :: "int option"
  borrowedDisplay :: "string option"
  limitDisplay :: "string option"
  hasActiveLoan :: bool
  loanStart :: "int option"
  loanDue :: "int option"
  daysRemaining :: "rat option"
  termDaysTotal :: "rat option"
  termProgressPct :: "rat option"
  loanFeeBps :: "int option"
  isAccruingLateFees :: bool
  nextBorrowTimeRaw :: "int option"
  cooldownActive :: bool
  cooldownSecondsLeft :: "int option"
  cooldownUntil :: "int option"

definition reset_line :: CreditLine where
  "reset_line = \<lparr>scoreRaw = None, scoreDisplay = None, limitRaw = None, borrowedRaw = None, borrowedDisplay = None,
     limitDisplay = None, hasActiveLoan = False, loanStart = None, loanDue = None, daysRemaining = None,
     termDaysTotal = None, termProgressPct = None, loanFeeBps = None, isAccruingLateFees = False,
     nextBorrowTimeRaw = None, cooldownActive = False, cooldownSecondsLeft = None, cooldownUntil = None\<rparr>"

text \<open>What one poll has read; the flags say which reads did not time out.\<close>

record loan_reading =
  lr_amountDue :: int
  lr_start :: int
  lr_due :: int
  lr_feeBps :: int
  lr_gracePeriod :: int
  lr_active :: bool

record reading =
  rd_limit :: int
  rd_loan :: "loan_reading option"
  rd_score :: "int option"
  rd_nextBorrow :: int
  rd_latePreview :: "int option"
  rd_lateRate :: "int option"
  rd_limitOk :: bool
  rd_loanOk :: bool
  rd_lateOk :: bool
  rd_premiumOk :: bool

definition MAX_SCORE :: int where "MAX_SCORE = 1000"

definition score_text :: "int \<Rightarrow> string" where
  "score_text s = withThousands (int_str s) @ ''/'' @ int_str MAX_SCORE"

definition reading_active :: "reading \<Rightarrow> bool" where
  "reading_active r = (case rd_loan r of None \<Rightarrow> False | Some l \<Rightarrow> lr_active l)"

definition reading_debt :: "reading \<Rightarrow> int" where
  "reading_debt r =
     (let debt = (case rd_loan r of None \<Rightarrow> 0 | Some l \<Rightarrow> lr_amountDue l)
      in if reading_active r \<and> rd_lateOk r
         then (case rd_latePreview r of None \<Rightarrow> debt | Some late \<Rightarrow> if late > debt then late else debt)
         else debt)"

text \<open>Start and due date of an active loan, if the due date is later.\<close>

definition reading_term :: "reading \<Rightarrow> (int \<times> int) option" where
  "reading_term r = (case rd_loan r of None \<Rightarrow> None | Some l \<Rightarrow>
     if lr_active l \<and> lr_due l > lr_start l then Some (lr_start l, lr_due l) else None)"

definition apply_loan :: "int \<Rightarrow> reading \<Rightarrow> CreditLine \<Rightarrow> CreditLine" where
  "apply_loan nowSec r h =
     (let h = (case rd_loan r of None \<Rightarrow> h | Some l \<Rightarrow> h\<lparr>loanFeeBps := (if lr_active l then Some (lr_feeBps l) else None)\<rparr>)
      in if reading_active r \<and> \<not> rd_premiumOk r then h
         else
           case (rd_lateRate r, reading_term r, rd_loan r) of
             (Some rate, Some (startTs, dueTs), Some l) \<Rightarrow>
               h\<lparr>isAccruingLateFees := rate > 0 \<and> nowSec > dueTs + lr_gracePeriod l\<rparr>
           | _ \<Rightarrow> h\<lparr>isAccruingLateFees := False\<rparr>)"

definition apply_timing :: "int \<Rightarrow> reading \<Rightarrow> CreditLine \<Rightarrow> CreditLine" where
  "apply_timing nowSec r h =
     (case reading_term r of
        Some (startTs, dueTs) \<Rightarrow>
          (let totalSec = max (dueTs - startTs) 0;
               elapsedSec = max (nowSec - startTs) 0;
               progressRaw = (if totalSec > 0 then fmul (fdiv (of_int elapsedSec) (of_int totalSec)) 100 else 0)
           in h\<lparr>hasActiveLoan := True, loanStart := Some (startTs * 1000), loanDue := Some (dueTs * 1000),
                termDaysTotal := Some (fdiv (of_int totalSec) 86400),
                daysRemaining := Some (fdiv (of_int (dueTs - nowSec)) 86400),
                termProgressPct := Some (max 0 (min 100 progressRaw))\<rparr>)
      | None \<Rightarrow>
          h\<lparr>hasActiveLoan := False, loanStart := None, loanDue := None, termDaysTotal := None,
            daysRemaining := None, termProgressPct := None\<rparr>)"

definition apply_cooldown :: "int \<Rightarrow> reading \<Rightarrow> CreditLine \<Rightarrow> CreditLine" where
  "apply_cooldown nowSec r h =
     (let nbt = rd_nextBorrow r; h = h\<lparr>nextBorrowTimeRaw := Some nbt\<rparr>
      in if nbt > 0 \<and> nowSec < nbt
         then h\<lparr>cooldownActive := True, cooldownSecondsLeft := Some (nbt - nowSec), cooldownUntil := Some (nbt * 1000)\<rparr>
         else h\<lparr>cooldownActive := False, cooldownSecondsLeft := None, cooldownUntil := None\<rparr>)"

text \<open>
  The limit that is shown and the score. As in the source, the score text compares with the floor
  of the store as it was before an expired floor is removed.
\<close>

definition apply_limit :: "string option \<Rightarrow> int \<Rightarrow> reading \<Rightarrow> CreditLine \<times> CreditState \<Rightarrow> CreditLine \<times> CreditState" where
  "apply_limit m clock r hc =
     (let (h, opt) = hc;
          debt = reading_debt r;
          borrowedPretty = formatUSDCAmount2dpTruncated m (Units debt);
          c = (if floor_expired clock opt then clearOptimistic opt else opt);
          effectiveLimit = (case optimisticLimitRaw c of None \<Rightarrow> rd_limit r
                            | Some l \<Rightarrow> if rd_limit r < l then l else rd_limit r)
      in (h\<lparr>borrowedRaw := Some debt, borrowedDisplay := Some borrowedPretty,
            limitDisplay := Some (borrowedPretty @ ''/'' @ formatUSDCAmount2dp m (Units effectiveLimit) @ '' USDC'')\<rparr>, c))"

definition apply_score :: "int \<Rightarrow> reading \<Rightarrow> CreditState \<Rightarrow> CreditLine \<times> CreditState \<Rightarrow> CreditLine \<times> CreditState" where
  "apply_score clock r opt hc =
     (let (h, c) = hc
      in case rd_score r of
           Some s \<Rightarrow>
             (let effective = (case optimisticScoreRaw opt of None \<Rightarrow> s | Some f \<Rightarrow> if s < f then f else s);
                  display = score_text effective
              in (h\<lparr>scoreRaw := Some s, scoreDisplay := Some display\<rparr>,
                  (setCreditScoreRawHwm clock (Some s) c)\<lparr>creditScoreDisplay := Some display\<rparr>))
         | None \<Rightarrow>
             (h\<lparr>scoreRaw := None, scoreDisplay := None\<rparr>, c\<lparr>creditScoreRaw := None, creditScoreDisplay := None\<rparr>))"

text \<open>
  One poll. It may find no wallet or no contract; it may fail; it may end after the wallet has
  changed; and it keeps all values when the limit or the loan could not be read.
\<close>

datatype poll = no_setup | read_error | stale_identity | read_values reading

definition reset_poll :: "CreditState \<Rightarrow> CreditLine \<times> CreditState" where
  "reset_poll c = (reset_line, c\<lparr>creditScoreRaw := None, creditScoreDisplay := None\<rparr>)"

definition useCreditLine_read :: "string option \<Rightarrow> int \<Rightarrow> poll \<Rightarrow> CreditLine \<times> CreditState \<Rightarrow> CreditLine \<times> CreditState" where
  "useCreditLine_read m clock p hc =
     (case p of
        no_setup \<Rightarrow> reset_poll (snd hc)
      | read_error \<Rightarrow> hc
      | stale_identity \<Rightarrow> hc
      | read_values r \<Rightarrow>
          if \<not> rd_limitOk r \<or> \<not> rd_loanOk r then hc
          else
            (let nowSec = clock div 1000;
                 (h, opt) = hc;
                 h = apply_loan nowSec r (h\<lparr>limitRaw := Some (rd_limit r)\<rparr>);
                 (h, c) = apply_score clock r opt (apply_limit m clock r (h, opt))
             in (apply_cooldown nowSec r (apply_timing nowSec r h), c)))"

section \<open>Updates around a repayment\<close>

record view =
  v_credit :: CreditState
  v_stats :: LoanStatsState
  v_game :: GamificationState
  v_line :: CreditLine

definition count_up :: "int option \<Rightarrow> int option" where
  "count_up v = Some (nullish v 0 + 1)"

definition optimistic_gain :: "env \<Rightarrow> int \<Rightarrow> int \<Rightarrow> int \<Rightarrow> ReputationGainPayload option" where
  "optimistic_gain e prevOnTime prevScore nextScore =
     (let repDelta = max 0 (reputationScore e (prevOnTime + 1) - reputationScore e prevOnTime);
          oldGroup = getGroupLabelForScore_ui prevScore;
          newGroup = getGroupLabelForScore_ui nextScore
      in if repDelta > 0
         then Some \<lparr>rg_delta = repDelta, rg_scoreChanged = (nextScore \<noteq> prevScore), rg_groupChanged = (newGroup \<noteq> oldGroup),
                    rg_newGroupLabel = (if newGroup \<noteq> oldGroup then Some newGroup else None), rg_newScore = nextScore\<rparr>
         else None)"

text \<open>\<open>parseUnits\<close> is of the package \<open>ethers\<close>; the limit is converted with six decimals in every build.\<close>

definition applyOptimisticOnTimeUpdate :: "env \<Rightarrow> (string \<Rightarrow> nat \<Rightarrow> int) \<Rightarrow> int \<Rightarrow> view \<Rightarrow> view" where
  "applyOptimisticOnTimeUpdate e parseUnits clock v =
     (let st = v_stats v;
          prevOnTime = nullish (loansOnTimeCount st) 0;
          prevScore = nullish (creditScoreRaw (v_credit v)) 0;
          nextScore = min MAX_CREDIT_LEVEL (prevScore + 1);
          nextLimitRaw = parseUnits (int_str (tier_limitUsdc (getTierForScore nextScore))) 6;
          st = st\<lparr>loansOnTimeCount := Some (prevOnTime + 1), loansCount := count_up (loansCount st),
                 closedLoansCount := count_up (closedLoansCount st)\<rparr>;
          c = (setOptimistic nextScore nextLimitRaw (clock + 15 * 60 * 1000) (v_credit v))
                \<lparr>creditScoreDisplay := Some (int_str nextScore @ ''/'' @ int_str MAX_SCORE)\<rparr>;
          g = (case optimistic_gain e prevOnTime prevScore nextScore of
                 None \<Rightarrow> v_game v | Some gain \<Rightarrow> (v_game v)\<lparr>pendingRepGain := Some gain\<rparr>)
      in v\<lparr>v_stats := st, v_credit := c, v_game := g\<rparr>)"

definition applyOptimisticLateUpdate :: "view \<Rightarrow> view" where
  "applyOptimisticLateUpdate v =
     (let st = v_stats v
      in v\<lparr>v_stats := st\<lparr>loansCount := count_up (loansCount st), closedLoansCount := count_up (closedLoansCount st)\<rparr>\<rparr>)"

text \<open>
  The answer to a report, as \<open>informBackend\<close> and the recovery take it (the latter without an
  optimistic gain). The answer to a repayment that was recorded before carries no score.
\<close>

definition report_answered :: "int \<Rightarrow> bool \<Rightarrow> repayment_outcome \<Rightarrow> view \<Rightarrow> view" where
  "report_answered clock optimisticRepGainApplied out v =
     (case out of
        AlreadyProcessed l onTime paid \<Rightarrow> v
      | Repaid r \<Rightarrow>
          (let c = (case rr_score r of None \<Rightarrow> v_credit v
                    | Some s \<Rightarrow> (setCreditScoreRawHwm clock (Some (max 0 s)) (v_credit v))\<lparr>creditScoreDisplay := Some (int_str (max 0 s))\<rparr>);
               g = (v_game v)\<lparr>shown_xp := Some (max 0 (rr_xp r))\<rparr>;
               g = (case rr_reputationGain r of None \<Rightarrow> g
                    | Some gain \<Rightarrow> if \<not> optimisticRepGainApplied \<and> rg_delta gain > 0 then g\<lparr>pendingRepGain := Some gain\<rparr> else g)
           in v\<lparr>v_credit := c, v_game := g\<rparr>))"

text \<open>The stores after \<open>refreshLoanStats\<close>: without a wallet or after an error, and with an answer.\<close>

definition stats_lost :: "view \<Rightarrow> view" where
  "stats_lost v = v\<lparr>v_stats := (v_stats v)\<lparr>loansCount := None, closedLoansCount := None, loansOnTimeCount := None,
     onTimePercent := Some 0\<rparr>\<rparr>"

definition journey_stats :: "bool \<Rightarrow> StepView \<Rightarrow> view \<Rightarrow> view" where
  "journey_stats useHwm d v =
     (let (st, g) = setLoanStatsFromJourney (Some (sv_loansTotal d)) (Some (sv_closedLoansTotal d)) (Some (sv_loansOnTime d))
                      (sv_openLoansCount d) (Some (sv_xp d)) (Some (sv_achievementsCount d)) useHwm (v_stats v, v_game v)
      in v\<lparr>v_stats := st, v_game := g\<rparr>)"

definition stats_refreshed :: "int \<Rightarrow> StepView \<Rightarrow> view \<Rightarrow> view" where
  "stats_refreshed clock d v =
     (let v = journey_stats True d v
      in case sv_score d of None \<Rightarrow> v
         | Some s \<Rightarrow> v\<lparr>v_credit := setCreditScoreRawHwm clock (Some (max 0 s)) (v_credit v)\<rparr>)"

section \<open>The page over time\<close>

text \<open>
  The events of a page, in any order. Updates: repayments that were signed, answers, statistics of the
  backend, polls, time. Events that forget: the statistics are lost, the journey of the user is
  loaded anew, or the wallet changes.
\<close>

definition reset_view :: view where
  "reset_view = \<lparr>v_credit = reset_credit, v_stats = reset_stats, v_game = reset_game, v_line = reset_line\<rparr>"

definition polled :: "string option \<Rightarrow> int \<Rightarrow> poll \<Rightarrow> view \<Rightarrow> view" where
  "polled m clock p v =
     (let (h, c) = useCreditLine_read m clock p (v_line v, v_credit v) in v\<lparr>v_line := h, v_credit := c\<rparr>)"

inductive view_update :: "env \<Rightarrow> (string \<Rightarrow> nat \<Rightarrow> int) \<Rightarrow> string option \<Rightarrow> view \<times> int \<Rightarrow> view \<times> int \<Rightarrow> bool"
  for e parseUnits m where
  view_on_time: "view_update e parseUnits m (v, t) (applyOptimisticOnTimeUpdate e parseUnits t v, t)"
| view_late: "view_update e parseUnits m (v, t) (applyOptimisticLateUpdate v, t)"
| view_answer: "view_update e parseUnits m (v, t) (report_answered t b out v, t)"
| view_refresh: "view_update e parseUnits m (v, t) (stats_refreshed t d v, t)"
| view_poll: "view_update e parseUnits m (v, t) (polled m t p v, t)"
| view_time: "t \<le> t' \<Longrightarrow> view_update e parseUnits m (v, t) (v, t')"

inductive view_forget :: "view \<times> int \<Rightarrow> view \<times> int \<Rightarrow> bool" where
  view_lost: "view_forget (v, t) (stats_lost v, t)"
| view_journey: "view_forget (v, t) (journey_stats False d v, t)"
| view_wallet: "view_forget (v, t) (reset_view, t)"

definition view_step :: "env \<Rightarrow> (string \<Rightarrow> nat \<Rightarrow> int) \<Rightarrow> string option \<Rightarrow> view \<times> int \<Rightarrow> view \<times> int \<Rightarrow> bool" where
  "view_step e parseUnits m s s' \<longleftrightarrow> view_update e parseUnits m s s' \<or> view_forget s s'"

definition floor_ok :: "CreditState \<Rightarrow> bool" where
  "floor_ok c = (case (optimisticScoreRaw c, creditScoreRaw c) of (Some f, Some x) \<Rightarrow> f \<le> x | _ \<Rightarrow> True)"

definition count_le :: "int option \<Rightarrow> int option \<Rightarrow> bool" where
  "count_le a b = (case a of None \<Rightarrow> True | Some x \<Rightarrow> (case b of None \<Rightarrow> False | Some y \<Rightarrow> x \<le> y))"

definition counters_le :: "LoanStatsState \<Rightarrow> LoanStatsState \<Rightarrow> bool" where
  "counters_le a b \<longleftrightarrow> count_le (loansCount a) (loansCount b) \<and> count_le (closedLoansCount a) (closedLoansCount b) \<and>
     count_le (loansOnTimeCount a) (loansOnTimeCount b)"

lemma count_le_refl [simp]: "count_le a a" "count_le None a"
  by (simp_all add: count_le_def split: option.splits)

lemma count_le_trans: "count_le a b \<Longrightarrow> count_le b c \<Longrightarrow> count_le a c"
  by (auto simp: count_le_def split: option.splits)

lemma count_le_up [simp]: "count_le a (count_up a)" "count_le a (Some (nullish a 0 + 1))" "count_le a (maxOrNull a b)"
  by (auto simp: count_le_def count_up_def maxOrNull_def nullish_def split: option.splits)

lemma counters_le_refl [simp]: "counters_le a a"
  by (simp add: counters_le_def)

lemma counters_le_trans: "counters_le a b \<Longrightarrow> counters_le b c \<Longrightarrow> counters_le a c"
  unfolding counters_le_def using count_le_trans by blast

text \<open>The score store.\<close>

lemma floor_ok_basic [simp]:
  "floor_ok (clearOptimistic c)" "floor_ok (setOptimistic s l u c)" "floor_ok reset_credit"
  "floor_ok (c\<lparr>creditScoreDisplay := d\<rparr>) = floor_ok c" "floor_ok (c\<lparr>creditScoreRaw := None\<rparr>)"
  by (simp_all add: floor_ok_def clearOptimistic_def setOptimistic_def reset_credit_def split: option.splits)

lemma floor_ok_hwm [simp]: "floor_ok (setCreditScoreRawHwm t v c)"
  by (auto simp: setCreditScoreRawHwm_def floor_ok_def clearOptimistic_def split: option.splits)

lemma floor_ok_poll: "floor_ok c \<Longrightarrow> floor_ok (snd (useCreditLine_read m t p (h, c)))"
  by (auto simp: useCreditLine_read_def reset_poll_def apply_score_def apply_limit_def Let_def split_beta split: poll.splits option.splits)

lemma floor_ok_updates:
  "floor_ok (v_credit (applyOptimisticOnTimeUpdate e pu t v))"
  "v_credit (applyOptimisticLateUpdate v) = v_credit v" "v_credit (stats_lost v) = v_credit v"
  "v_credit (journey_stats b d v) = v_credit v"
  "floor_ok (v_credit v) \<Longrightarrow> floor_ok (v_credit (report_answered t b out v))"
  "floor_ok (v_credit v) \<Longrightarrow> floor_ok (v_credit (stats_refreshed t d v))"
  "floor_ok (v_credit v) \<Longrightarrow> floor_ok (v_credit (polled m t p v))"
proof -
  show "floor_ok (v_credit (applyOptimisticOnTimeUpdate e pu t v))"
    by (simp add: applyOptimisticOnTimeUpdate_def Let_def)
  show "v_credit (applyOptimisticLateUpdate v) = v_credit v" "v_credit (stats_lost v) = v_credit v"
    "v_credit (journey_stats b d v) = v_credit v"
    by (simp_all add: applyOptimisticLateUpdate_def stats_lost_def journey_stats_def Let_def split_beta)
  then show "floor_ok (v_credit v) \<Longrightarrow> floor_ok (v_credit (stats_refreshed t d v))"
    by (simp add: stats_refreshed_def Let_def journey_stats_def split_beta split: option.splits)
  show "floor_ok (v_credit v) \<Longrightarrow> floor_ok (v_credit (report_answered t b out v))"
    by (auto simp: report_answered_def Let_def split: repayment_outcome.splits option.splits)
  show "floor_ok (v_credit v) \<Longrightarrow> floor_ok (v_credit (polled m t p v))"
    using floor_ok_poll [of "v_credit v" m t p "v_line v"] by (simp add: polled_def Let_def split_beta)
qed

interpretation score_floor: invariant_system "view_step e pu m" "\<lambda>s. floor_ok (v_credit (fst s))" for e pu m
proof
  fix s s' assume ok: "floor_ok (v_credit (fst s))" and "view_step e pu m s s'"
  from this(2) consider "view_update e pu m s s'" | "view_forget s s'" unfolding view_step_def by blast
  then show "floor_ok (v_credit (fst s'))"
    using ok by cases (auto elim!: view_update.cases view_forget.cases simp: floor_ok_updates reset_view_def)
qed

text \<open>The counters.\<close>

lemma counters_updates:
  "counters_le (v_stats v) (v_stats (applyOptimisticOnTimeUpdate e pu t v))"
  "counters_le (v_stats v) (v_stats (applyOptimisticLateUpdate v))"
  "v_stats (report_answered t b out v) = v_stats v"
  "counters_le (v_stats v) (v_stats (stats_refreshed t d v))"
  "v_stats (polled m t p v) = v_stats v"
proof -
  show "counters_le (v_stats v) (v_stats (applyOptimisticOnTimeUpdate e pu t v))"
    "counters_le (v_stats v) (v_stats (applyOptimisticLateUpdate v))"
    by (simp_all add: applyOptimisticOnTimeUpdate_def applyOptimisticLateUpdate_def Let_def counters_le_def)
  show "v_stats (report_answered t b out v) = v_stats v"
    by (simp add: report_answered_def Let_def split: repayment_outcome.splits option.splits)
  show "counters_le (v_stats v) (v_stats (stats_refreshed t d v))"
    by (simp add: stats_refreshed_def Let_def journey_stats_def setLoanStatsFromJourney_def split_beta counters_le_def
        setLoansCountHwm_def setClosedLoansCountHwm_def setLoansOnTimeCountHwm_def split: option.splits)
  show "v_stats (polled m t p v) = v_stats v" by (simp add: polled_def Let_def split_beta)
qed

interpretation counters: frame_system "view_update e pu m" "\<lambda>s s'. counters_le (v_stats (fst s)) (v_stats (fst s'))" for e pu m
proof
  fix s t u assume le: "counters_le (v_stats (fst s)) (v_stats (fst t))" and "view_update e pu m t u"
  from this(2) have "counters_le (v_stats (fst t)) (v_stats (fst u))"
    by (induction rule: view_update.induct) (auto simp: counters_updates)
  with le show "counters_le (v_stats (fst s)) (v_stats (fst u))" by (rule counters_le_trans)
qed simp

text \<open>What an event that forgets leaves of the counters: nothing, or the numbers of the answer.\<close>

definition counters_unknown :: "view \<Rightarrow> bool" where
  "counters_unknown v \<longleftrightarrow> loansCount (v_stats v) = None \<and> closedLoansCount (v_stats v) = None \<and> loansOnTimeCount (v_stats v) = None"

definition counters_read :: "view \<Rightarrow> StepView \<Rightarrow> bool" where
  "counters_read v d \<longleftrightarrow> loansCount (v_stats v) = Some (max 0 (sv_loansTotal d)) \<and>
     closedLoansCount (v_stats v) = Some (max 0 (sv_closedLoansTotal d)) \<and> loansOnTimeCount (v_stats v) = Some (max 0 (sv_loansOnTime d))"

lemma view_forget_counters: "view_forget s s' \<Longrightarrow> counters_unknown (fst s') \<or> (\<exists>d. counters_read (fst s') d)"
  by (induction rule: view_forget.induct)
    (auto simp: counters_unknown_def counters_read_def stats_lost_def reset_view_def reset_stats_def journey_stats_def
      setLoanStatsFromJourney_def safeNonNegative_def Let_def split_beta split: option.splits)

text \<open>Every run ends with updates only, since its start or since the last event that forgot the counters.\<close>

lemma counters_since:
  assumes "(view_step e pu m)\<^sup>*\<^sup>* s s'"
  obtains y where "(view_step e pu m)\<^sup>*\<^sup>* s y" "(view_update e pu m)\<^sup>*\<^sup>* y s'"
    "y = s \<or> counters_unknown (fst y) \<or> (\<exists>d. counters_read (fst y) d)"
proof -
  from assms have "\<exists>y. (view_step e pu m)\<^sup>*\<^sup>* s y \<and> (view_update e pu m)\<^sup>*\<^sup>* y s' \<and>
      (y = s \<or> counters_unknown (fst y) \<or> (\<exists>d. counters_read (fst y) d))"
  proof (induction rule: rtranclp_induct)
    case (step x z)
    then consider "view_update e pu m x z" | "view_forget x z" unfolding view_step_def by blast
    then show ?case
    proof cases
      case 1
      from step.IH obtain y where "(view_step e pu m)\<^sup>*\<^sup>* s y" "(view_update e pu m)\<^sup>*\<^sup>* y x"
        "y = s \<or> counters_unknown (fst y) \<or> (\<exists>d. counters_read (fst y) d)" by blast
      with 1 show ?thesis by (intro exI [of _ y]) auto
    next
      case 2
      then show ?thesis using step.hyps view_forget_counters by (intro exI [of _ z]) auto
    qed
  qed blast
  then show thesis using that by blast
qed

section \<open>What the page predicts\<close>

text \<open>The tiers of the page are the ladder of the backend, with the same names.\<close>

lemma tiers_ladder:
  "tier_limitUsdc (getTierForScore s) = limitUsdc (getStepForScore s)"
  "getGroupLabelForScore_ui s = getGroupLabelForScore (Some s)"
proof -
  consider "s \<le> 1" | "s = 2" | "s = 3" | "s = 4" | "s = 5" | "s = 6" | "s = 7" | "s = 8" | "s = 9" | "s = 10" | "s \<ge> 11"
    by linarith
  then have "tier_limitUsdc (getTierForScore s) = limitUsdc (getStepForScore s) \<and>
    getGroupLabelForScore_ui s = getGroupLabelForScore (Some s)"
    by cases (simp_all add: getTierForScore_def TIERS_def MAX_CREDIT_LEVEL_def ladder_defs
        getGroupLabelForScore_ui_def getGroupLabelForScore_def GROUP_BY_SCORE_def nullish_def)
  then show "tier_limitUsdc (getTierForScore s) = limitUsdc (getStepForScore s)"
    "getGroupLabelForScore_ui s = getGroupLabelForScore (Some s)" by simp_all
qed

lemma next_score:
  assumes "score user = Some sc" and "sc = step_score (getStepForOnTimeLoans n)" and "0 \<le> n"
  shows "on_time_score (n + 1) user = min MAX_CREDIT_LEVEL (sc + 1)"
  using assms by (auto simp: on_time_score_def step_score_on_time MAX_CREDIT_LEVEL_def nullish_def Let_def)

lemma next_gain:
  assumes "0 \<le> n"
  shows "optimistic_gain e n sc ns = reputation_gain e True (n + 1) sc (Some ns)"
  using assms by (simp add: optimistic_gain_def reputation_gain_def tiers_ladder(2) nullish_def Let_def max_def)

lemma ladder_units_exact:
  "ladder_units e s = Inr (of_int (limitUsdc (getStepForScore s) * 10 ^ TOKEN_DECIMALS (BLOCKCHAIN_GATEWAY e)))"
proof -
  let ?l = "limitUsdc (getStepForScore s)" and ?d = "TOKEN_DECIMALS (BLOCKCHAIN_GATEWAY e)"
  have l: "1 \<le> ?l" "?l \<le> 25" using step_range [OF getStepForScore_mem] by auto
  have d: "?d \<le> 7" by (simp add: TOKEN_DECIMALS_def STELLAR_TOKEN_DECIMALS_def EVM_USDC_DECIMALS_def)
  then have "(10 :: int) ^ ?d \<le> 10 ^ 7" by (intro power_increasing) auto
  then have "?l * 10 ^ ?d \<le> 25 * 10 ^ 7" using l by (intro mult_mono) auto
  then have "num_of_big (?l * 10 ^ ?d) = of_int (?l * 10 ^ ?d)"
    unfolding num_of_big_def using l by (intro fl_of_int) simp
  then show ?thesis using toUnits_Num [of ?l ?d] l by (simp add: ladder_units_def rbind_def)
qed

text \<open>
  C15. The optimistic update predicts the backend. When the page shows the stored score and the
  number of loans paid on time, and the score is that of the ladder, then the score the page
  shows at once after a repayment on time is the score the backend will store, and the
  celebration is the one the backend will answer with. The limit floor is the ladder limit of that
  score in units of six decimals: with the Soroban gateway the backend stores ten times as many.
\<close>

theorem optimistic_prediction:
  assumes shown: "creditScoreRaw (v_credit v) = Some sc" "loansOnTimeCount (v_stats v) = Some n"
    and stored: "score user = Some sc" "sc = step_score (getStepForOnTimeLoans n)" "0 \<le> n"
    and units: "\<forall>k d. 0 \<le> k \<longrightarrow> parseUnits (int_str k) d = k * 10 ^ d"
    and v': "v' = applyOptimisticOnTimeUpdate e parseUnits t v" and next_sc: "ns = on_time_score (n + 1) user"
  shows "creditScoreRaw (v_credit v') = Some ns \<and> optimisticScoreRaw (v_credit v') = Some ns \<and>
    pendingRepGain (v_game v') = orelse (reputation_gain e True (n + 1) sc (Some ns)) (pendingRepGain (v_game v)) \<and>
    (\<exists>l. optimisticLimitRaw (v_credit v') = Some l \<and>
       ladder_units e ns = Inr (of_int (l * 10 ^ (TOKEN_DECIMALS (BLOCKCHAIN_GATEWAY e) - 6))))"
proof -
  let ?l = "limitUsdc (getStepForScore ns)" and ?d = "TOKEN_DECIMALS (BLOCKCHAIN_GATEWAY e)"
  have ns: "min MAX_CREDIT_LEVEL (sc + 1) = ns" using next_score [OF stored] next_sc by simp
  have "1 \<le> ?l" using step_range [OF getStepForScore_mem] by auto
  then have pu: "parseUnits (int_str (tier_limitUsdc (getTierForScore ns))) 6 = ?l * 10 ^ 6" using units tiers_ladder(1) by simp
  have "6 \<le> ?d" by (simp add: TOKEN_DECIMALS_def STELLAR_TOKEN_DECIMALS_def EVM_USDC_DECIMALS_def)
  then have "?l * 10 ^ ?d = ?l * 10 ^ 6 * 10 ^ (?d - 6)" by (simp only: mult.assoc flip: power_add) simp
  then have "ladder_units e ns = Inr (of_int (?l * 10 ^ 6 * 10 ^ (?d - 6)))" using ladder_units_exact [of e ns] by (simp only:)
  then show ?thesis
    using ns pu next_gain [OF stored(3), of e sc ns]
    by (auto simp: v' applyOptimisticOnTimeUpdate_def shown setOptimistic_def orelse_def nullish_def Let_def split: option.splits)
qed

lemma refreshed_stats:
  "loansCount (v_stats (stats_refreshed t d v)) = maxOrNull (loansCount (v_stats v)) (Some (max 0 (sv_loansTotal d)))"
  "closedLoansCount (v_stats (stats_refreshed t d v)) = maxOrNull (closedLoansCount (v_stats v)) (Some (max 0 (sv_closedLoansTotal d)))"
  "loansOnTimeCount (v_stats (stats_refreshed t d v)) = maxOrNull (loansOnTimeCount (v_stats v)) (Some (max 0 (sv_loansOnTime d)))"
  by (simp_all add: stats_refreshed_def journey_stats_def setLoanStatsFromJourney_def safeNonNegative_def split_beta Let_def
      setLoansCountHwm_def setClosedLoansCountHwm_def setLoansOnTimeCountHwm_def split: option.splits)


section \<open>Counters after a repayment\<close>

lemma count_put_row:
  assumes "distinct (map key rows)" and "r \<in> set rows" and "key r = key r'"
  shows "int (length (filter P (put_row key r' rows))) =
    int (length (filter P rows)) + (if P r' then 1 else 0) - (if P r then 1 else 0)"
  using assms
proof (induction rows)
  case (Cons x xs)
  show ?case
  proof (cases "x = r")
    case True
    have "key z \<noteq> key r'" if "z \<in> set xs" for z using that True Cons(2,4) by (auto simp: image_iff)
    then have "put_row key r' xs = xs" by (simp add: put_row_def map_idI)
    then show ?thesis using True Cons(4) by (simp add: put_row_def)
  next
    case False
    then have "r \<in> set xs" "key x \<noteq> key r'" using Cons(2-4) by (auto simp: image_iff)
    then show ?thesis using Cons by (auto simp: put_row_def)
  qed
qed simp

text \<open>An open loan has no closing date and is not marked as paid on time.\<close>

definition open_unclosed :: "'c world \<Rightarrow> bool" where
  "open_unclosed s \<longleftrightarrow> (\<forall>l \<in> set (loans s). status l \<in> {OPEN, DEFAULTED, DEFAULTED_IN_GRACE} \<longrightarrow> closedAt l = None \<and> \<not> repaidOnTime l)"

lemma repaid_server_counts:
  assumes run: "processRepayment env gw dto s = (Inr (Repaid x), s')"
    and keys: "distinct (map loan_id (loans s))" "open_unclosed s"
    and user: "normalizeWallet (ir_walletAddress dto) = Inr wallet" "user_by_wallet wallet s = Some user"
    and ob: "ob_world ob = s" "ob_world ob' = s'" "user_id user' = user_id user"
  shows "sv_loansTotal (user_step user' ob') = sv_loansTotal (user_step user ob)"
    "sv_closedLoansTotal (user_step user' ob') = sv_closedLoansTotal (user_step user ob) + 1"
    "sv_loansOnTime (user_step user' ob') = sv_loansOnTime (user_step user ob) + (if rr_repaidOnTime x then 1 else 0)"
proof -
  from Repaid_run [OF run] obtain w u cp loan paid where r: "repaid_by env gw dto s x s' w u cp loan paid" by blast
  then have u: "u = user" using user by (simp add: repaid_by_def)
  define l' where "l' = store_loan (closed_loan loan paid (now s) (ir_txHash dto))"
  have l: "newest startAt (payable (user_id user)) (loans s) = Some loan" "loans s' = put_row loan_id l' (loans s)"
    and ot: "rr_repaidOnTime x \<longleftrightarrow> now s \<le> dueAt loan + REPAID_ON_TIME_GRACE_MS"
    using r by (simp_all add: repaid_by_def u l'_def)
  from newest_Some [OF l(1)] have mem: "loan \<in> set (loans s)" and pay: "payable (user_id user) loan" by auto
  then have old: "loan_userId loan = user_id user" "closedAt loan = None" "\<not> repaidOnTime loan"
    using keys(2) by (auto simp: payable_def open_unclosed_def)
  have new: "loan_id l' = loan_id loan" "loan_userId l' = user_id user" "closedAt l' \<noteq> None" "repaidOnTime l' = rr_repaidOnTime x"
    using old(1) ot by (auto simp: l'_def store_loan_def closed_loan_def Let_def)
  note c = count_put_row [OF keys(1) mem new(1) [symmetric]]
  show "sv_loansTotal (user_step user' ob') = sv_loansTotal (user_step user ob)"
    "sv_closedLoansTotal (user_step user' ob') = sv_closedLoansTotal (user_step user ob) + 1"
    "sv_loansOnTime (user_step user' ob') = sv_loansOnTime (user_step user ob) + (if rr_repaidOnTime x then 1 else 0)"
    using c [of "\<lambda>l. loan_userId l = user_id user"] c [of "\<lambda>l. loan_userId l = user_id user \<and> closedAt l \<noteq> None"]
      c [of "\<lambda>l. loan_userId l = user_id user \<and> closedAt l \<noteq> None \<and> repaidOnTime l"] old new
    by (simp_all add: user_step_def count_loans_def ob l(2) Let_def)
qed

lemma server_counts_nonneg:
  "0 \<le> sv_loansTotal (user_step user ob)" "0 \<le> sv_closedLoansTotal (user_step user ob)" "0 \<le> sv_loansOnTime (user_step user ob)"
  by (simp_all add: user_step_def count_loans_def Let_def)

text \<open>The counters that the page and the server agree on.\<close>

definition counters_agree :: "view \<Rightarrow> StepView \<Rightarrow> bool" where
  "counters_agree v d \<longleftrightarrow> loansCount (v_stats v) = Some (sv_loansTotal d) \<and>
     closedLoansCount (v_stats v) = Some (sv_closedLoansTotal d) \<and> loansOnTimeCount (v_stats v) = Some (sv_loansOnTime d)"

definition repaid_update :: "env \<Rightarrow> (string \<Rightarrow> nat \<Rightarrow> int) \<Rightarrow> int \<Rightarrow> bool \<Rightarrow> view \<Rightarrow> view" where
  "repaid_update e parseUnits t wasOnTime v =
     (if wasOnTime then applyOptimisticOnTimeUpdate e parseUnits t v else applyOptimisticLateUpdate v)"

lemma repaid_update_stats:
  "loansCount (v_stats (repaid_update e pu t b v)) = count_up (loansCount (v_stats v))"
  "closedLoansCount (v_stats (repaid_update e pu t b v)) = count_up (closedLoansCount (v_stats v))"
  "loansOnTimeCount (v_stats (repaid_update e pu t b v)) =
     (if b then count_up (loansOnTimeCount (v_stats v)) else loansOnTimeCount (v_stats v))"
  by (simp_all add: repaid_update_def applyOptimisticOnTimeUpdate_def applyOptimisticLateUpdate_def count_up_def Let_def)

text \<open>
  The counters after a repayment. When the page agrees with the server, a repayment is recorded,
  and the page applies its update and then takes the answer and the new statistics, the
  closed loans and the loans paid on time agree again, and the number of all loans is one too
  many: the page counts the repaid loan a second time, and the setter that never goes down keeps
  it when the server answers with the right number.
\<close>

theorem repaid_counters:
  assumes run: "processRepayment env gw dto s = (Inr (Repaid x), s')"
    and keys: "distinct (map loan_id (loans s))" "open_unclosed s"
    and user: "normalizeWallet (ir_walletAddress dto) = Inr wallet" "user_by_wallet wallet s = Some user"
    and ob: "ob_world ob = s" "ob_world ob' = s'" "user_id user' = user_id user"
    and agree: "counters_agree v (user_step user ob)" and d: "d = user_step user' ob'"
    and v2: "v2 = stats_refreshed t2 d (report_answered t1 b (Repaid x) (repaid_update e pu t (rr_repaidOnTime x) v))"
  shows "closedLoansCount (v_stats v2) = Some (sv_closedLoansTotal d) \<and>
    loansOnTimeCount (v_stats v2) = Some (sv_loansOnTime d) \<and>
    loansCount (v_stats v2) = Some (sv_loansTotal d + 1)"
  using repaid_server_counts [OF run keys user ob] server_counts_nonneg [of user ob] agree
  by (auto simp: v2 refreshed_stats counters_updates repaid_update_stats counters_agree_def maxOrNull_def count_up_def nullish_def
      d [symmetric])

section \<open>The text of the score\<close>

lemma score_text_inj: "0 \<le> a \<Longrightarrow> 0 \<le> b \<Longrightarrow> score_text a = score_text b \<Longrightarrow> a = b"
proof -
  assume n: "0 \<le> a" "0 \<le> b" and "score_text a = score_text b"
  then have eq: "withThousands (nat_str (nat a)) = withThousands (nat_str (nat b))" by (simp add: score_text_def int_str_def)
  have f: "filter (\<lambda>c. \<not> is_ws c \<and> c \<noteq> CHR '','') (withThousands (nat_str k)) = nat_str k" for k
    unfolding withThousands_def using nat_str_digits by (intro filter_thousands) simp
  have "nat_str (nat a) = nat_str (nat b)"
    using arg_cong [OF eq, of "filter (\<lambda>c. \<not> is_ws c \<and> c \<noteq> CHR '','')"] unfolding f .
  then have "nat a = nat b" using arg_cong [of _ _ dec_value] nat_str_digits by metis
  then show "a = b" using n by simp
qed

text \<open>
  What a poll shows. A poll that could read the score stores it, or the optimistic score while
  that is higher and its window lasts. The text of the score agrees with the stored score, except
  in the poll that finds the window closed while the chain is still behind: it stores the score
  of the chain and shows the optimistic one, because the text compares with the state of the store
  from before the floor is removed.
\<close>

theorem poll_display:
  assumes ok: "rd_limitOk r" "rd_loanOk r" and s: "rd_score r = Some s" "0 \<le> s"
    and run: "useCreditLine_read m t (read_values r) (h, c) = (h', c')"
  shows "creditScoreRaw c' = Some (case optimisticScoreRaw c of None \<Rightarrow> s
       | Some f \<Rightarrow> if s < f \<and> \<not> floor_expired t c then f else s) \<and>
    ((creditScoreDisplay c' = map_option score_text (creditScoreRaw c')) \<longleftrightarrow>
      \<not> (floor_expired t c \<and> (\<exists>f. optimisticScoreRaw c = Some f \<and> s < f)))"
proof -
  have "c' = snd (useCreditLine_read m t (read_values r) (h, c))" using run by simp
  then have c': "creditScoreRaw c' = Some (case optimisticScoreRaw c of None \<Rightarrow> s
       | Some f \<Rightarrow> if s < f \<and> \<not> floor_expired t c then f else s)"
    "creditScoreDisplay c' = Some (score_text (case optimisticScoreRaw c of None \<Rightarrow> s | Some f \<Rightarrow> if s < f then f else s))"
    using ok s(1)
    by (auto simp: useCreditLine_read_def apply_score_def apply_limit_def setCreditScoreRawHwm_def floor_expired_def
        clearOptimistic_def Let_def split_beta split: option.splits)
  show ?thesis using c' score_text_inj [OF s(2)] s(2) by (auto split: option.splits if_splits) (metis less_le_not_le order.trans)+
qed

section \<open>Examples\<close>

definition plain_units :: "string \<Rightarrow> nat \<Rightarrow> int" where
  "plain_units s d = int (dec_value s) * 10 ^ d"

lemma plain_units_exact: "\<forall>k d. 0 \<le> k \<longrightarrow> plain_units (int_str k) d = k * 10 ^ d"
  using nat_str_digits by (simp add: plain_units_def int_str_def)

definition synced_view :: view where
  "synced_view = reset_view\<lparr>v_credit := reset_credit\<lparr>creditScoreRaw := Some 1\<rparr>,
     v_stats := reset_stats\<lparr>loansCount := Some 1, closedLoansCount := Some 0, loansOnTimeCount := Some 0\<rparr>\<rparr>"

lemma synced_view_sel:
  "creditScoreRaw (v_credit synced_view) = Some 1" "floor_ok (v_credit synced_view)" "loansOnTimeCount (v_stats synced_view) = Some 0"
  "loansCount (v_stats synced_view) = Some 1" "closedLoansCount (v_stats synced_view) = Some 0"
  by (simp_all add: synced_view_def floor_ok_def reset_view_def reset_credit_def reset_stats_def)

theorem optimistic_prediction_witness:
  "\<exists>l. creditScoreRaw (v_credit (applyOptimisticOnTimeUpdate example_env plain_units 0 synced_view)) = Some 2 \<and>
     optimisticLimitRaw (v_credit (applyOptimisticOnTimeUpdate example_env plain_units 0 synced_view)) = Some l \<and>
     ladder_units example_env 2 = Inr (of_int (l * 10))"
proof -
  have st: "score example_user = Some 1" "1 = step_score (getStepForOnTimeLoans 0)"
    by (simp_all add: example_user_def step_score_on_time)
  have ns: "on_time_score (0 + 1) example_user = 2"
    using next_score [OF st] by (simp add: MAX_CREDIT_LEVEL_def)
  have d: "TOKEN_DECIMALS (BLOCKCHAIN_GATEWAY example_env) = 7" by code_simp
  show ?thesis
    using optimistic_prediction [OF synced_view_sel(1,3) st _ plain_units_exact refl refl, of example_env 0] ns d by simp
qed


definition onboard_of :: "'c world \<Rightarrow> 'c onboard" where
  "onboard_of w = \<lparr>ob_world = w, pending_users = [], device_sessions = [], borrow_attempts = [], ob_draws = 0\<rparr>"

theorem repaid_counters_witness:
  "\<exists>x s'. processRepayment example_env example_gw example_dto (example_world False 0) = (Inr (Repaid x), s') \<and>
     loansCount (v_stats (stats_refreshed 0 (user_step example_user (onboard_of s'))
       (report_answered 0 True (Repaid x) (repaid_update example_env plain_units 0 (rr_repaidOnTime x) synced_view)))) =
     Some (sv_loansTotal (user_step example_user (onboard_of s')) + 1)"
proof -
  from example_run [of False 0] obtain x s' where
    r: "processRepayment example_env example_gw example_dto (example_world False 0) = (Inr (Repaid x), s')" by blast
  have k: "distinct (map loan_id (loans (example_world False 0)))" "open_unclosed (example_world False 0)"
    by (simp_all add: example_world_def open_unclosed_def example_loan_def)
  have w: "normalizeWallet (ir_walletAddress example_dto) = Inr example_wallet"
    using example_wallet_norm by (simp add: example_dto_def)
  have a: "counters_agree synced_view (user_step example_user (onboard_of (example_world False 0)))"
    by (simp add: counters_agree_def synced_view_sel user_step_def onboard_of_def count_loans_def example_world_def
        example_loan_def example_user_def Let_def)
  show ?thesis
    using repaid_counters [OF r k w example_facts(1) _ _ _ a refl refl, of "onboard_of s'" example_user 0 0 True example_env plain_units 0] r
    by (auto simp: onboard_of_def)
qed

definition late_reading :: reading where
  "late_reading = \<lparr>rd_limit = 10000000, rd_loan = None, rd_score = Some 1, rd_nextBorrow = 0, rd_latePreview = None,
     rd_lateRate = None, rd_limitOk = True, rd_loanOk = True, rd_lateOk = True, rd_premiumOk = True\<rparr>"

theorem poll_display_witness:
  "\<exists>h' c'. useCreditLine_read None 900001 (read_values late_reading) (reset_line, setOptimistic 2 3000000 900000 reset_credit) = (h', c') \<and>
     creditScoreRaw c' = Some 1 \<and> creditScoreDisplay c' \<noteq> map_option score_text (creditScoreRaw c')"
proof -
  let ?c = "setOptimistic 2 3000000 900000 reset_credit"
  obtain h' c' where run: "useCreditLine_read None 900001 (read_values late_reading) (reset_line, ?c) = (h', c')" by fastforce
  have "rd_limitOk late_reading" "rd_loanOk late_reading" "rd_score late_reading = Some 1" "(0 :: int) \<le> 1"
    "floor_expired 900001 ?c" "optimisticScoreRaw ?c = Some 2"
    by (simp_all add: late_reading_def setOptimistic_def floor_expired_def)
  then show ?thesis using poll_display [OF _ _ _ _ run] run by auto
qed

section \<open>Levels\<close>

text \<open>Experience in levels of ten (\<open>lib/utils.ts\<close>).\<close>

definition XP_PER_LEVEL :: int where "XP_PER_LEVEL = 10"
definition MAX_LEVEL :: int where "MAX_LEVEL = 1000"

record LevelInfo =
  li_level :: int
  li_totalXp :: int
  li_xpInLevel :: int
  li_xpToNextLevel :: int
  li_progressInLevel :: rat

definition getLevelInfoFromXp :: "int \<Rightarrow> LevelInfo" where
  "getLevelInfoFromXp rawXp =
     (let totalXp = max 0 rawXp;
          rawLevel = totalXp div XP_PER_LEVEL + 1;
          level = min rawLevel MAX_LEVEL
      in if rawLevel > MAX_LEVEL
         then \<lparr>li_level = level, li_totalXp = totalXp, li_xpInLevel = XP_PER_LEVEL, li_xpToNextLevel = 0, li_progressInLevel = 1\<rparr>
         else
           (let xpInLevel = totalXp - (level - 1) * XP_PER_LEVEL
            in \<lparr>li_level = level, li_totalXp = totalXp, li_xpInLevel = xpInLevel,
                li_xpToNextLevel = XP_PER_LEVEL - xpInLevel, li_progressInLevel = fdiv (of_int xpInLevel) (of_int XP_PER_LEVEL)\<rparr>))"

text \<open>The level and the rest determine the experience below the highest level.\<close>

lemma getLevelInfoFromXp_split:
  "1 \<le> li_level (getLevelInfoFromXp n) \<and> li_level (getLevelInfoFromXp n) \<le> MAX_LEVEL \<and>
   0 \<le> li_xpInLevel (getLevelInfoFromXp n) \<and>
   li_xpInLevel (getLevelInfoFromXp n) + li_xpToNextLevel (getLevelInfoFromXp n) = XP_PER_LEVEL \<and>
   (max 0 n < XP_PER_LEVEL * MAX_LEVEL \<longrightarrow>
     (li_level (getLevelInfoFromXp n) - 1) * XP_PER_LEVEL + li_xpInLevel (getLevelInfoFromXp n) = max 0 n \<and>
     li_xpInLevel (getLevelInfoFromXp n) < XP_PER_LEVEL)"
proof -
  define k where "k = max 0 n"
  have "0 \<le> k" by (simp add: k_def)
  then show ?thesis
    unfolding getLevelInfoFromXp_def Let_def k_def [symmetric] XP_PER_LEVEL_def MAX_LEVEL_def
    by (auto simp: min_def)
qed

end
