(* ===== verification/Debt_Ticker.thy ===== *)
theory Debt_Ticker
  imports Amount_Format
begin

text \<open>
  The debt that the repayment panel shows while late fees accrue,
  \<open>frontend/src/hooks/borrow/blockchain/useRepayPreflight.ts\<close>: the payload of the backend's preflight
  (\<open>Loan_Repayment\<close>) projected to the time of the page. Shown is that the projection is exact and does not
  go down between two answers of the backend, that at the time of the reading it does not exceed what the chain previews and falls
  short of it by less than a second's fee, and that its numeral assumes a token of six decimals.
\<close>

section \<open>The projection\<close>

definition SUB_BASE_DECIMALS :: nat where "SUB_BASE_DECIMALS = 7"
definition SUB_BASE_PER_USDC :: int where "SUB_BASE_PER_USDC = 10 ^ SUB_BASE_DECIMALS"
definition MS_TO_SUB_BASE_DIVISOR :: int where "MS_TO_SUB_BASE_DIVISOR = 10 ^ 20"

text \<open>\<open>BigInt.toString().padStart\<close> and \<open>slice\<close>; the debt is not negative.\<close>

definition formatUsdcSubBase :: "int \<Rightarrow> nat \<Rightarrow> string" where
  "formatUsdcSubBase rawSubBase decimals =
     (let intPart = big_div rawSubBase SUB_BASE_PER_USDC;
          fracPart = rawSubBase - intPart * SUB_BASE_PER_USDC;
          fracStr = padStart SUB_BASE_DECIMALS (CHR ''0'') (int_str fracPart)
      in if decimals \<ge> SUB_BASE_DECIMALS then int_str intPart @ ''.'' @ fracStr
         else int_str intPart @ ''.'' @ take decimals fracStr)"

text \<open>The time of the chain as the page estimates it, in milliseconds.\<close>

definition chainEstimateMs :: "PreflightPayload \<Rightarrow> int \<Rightarrow> rat" where
  "chainEstimateMs p nowMs =
     fadd (fmul (of_int (chainNowUnix p)) 1000) (fsub (of_int nowMs) (fmul (of_int (serverNowUnix p)) 1000))"

definition isMoraAccruingAt :: "PreflightPayload \<Rightarrow> int \<Rightarrow> bool" where
  "isMoraAccruingAt p nowMs =
     (pf_ratePerSecWad p \<noteq> 0 \<and> chainEstimateMs p nowMs \<ge> fmul (of_int (lateStart p)) 1000)"

definition computeDisplaySubBase :: "PreflightPayload \<Rightarrow> int \<Rightarrow> (http_error, int) result" where
  "computeDisplaySubBase p nowMs =
     (let estimate = chainEstimateMs p nowMs;
          lastAccruedMs = fmul (lastAccruedTs p) 1000;
          accruedSubBase = accruedAmountDue p * 10;
          lateStartMs = fmul (of_int (lateStart p)) 1000
      in if pf_ratePerSecWad p = 0 \<or> estimate < lateStartMs then Inr accruedSubBase
         else
           (let elapsedMs = max 0 (fsub estimate (max lastAccruedMs lateStartMs))
            in if elapsedMs = 0 then Inr accruedSubBase
               else rbind (big_of_num elapsedMs) (\<lambda>e.
                    Inr (accruedSubBase + big_div (pf_ratePerSecWad p * e * storedAmountDueBefore p) MS_TO_SUB_BASE_DIVISOR))))"

definition displayRaw :: "PreflightPayload \<Rightarrow> int \<Rightarrow> (http_error, int) result" where
  "displayRaw p nowMs = rbind (computeDisplaySubBase p nowMs) (\<lambda>x. Inr (big_div x 10))"

definition displayHuman :: "PreflightPayload \<Rightarrow> int \<Rightarrow> (http_error, string) result" where
  "displayHuman p nowMs =
     rbind (computeDisplaySubBase p nowMs) (\<lambda>x.
     Inr (formatUsdcSubBase x (if isMoraAccruingAt p nowMs then SUB_BASE_DECIMALS else 2)))"

definition magnitudePct :: "PreflightPayload \<Rightarrow> int \<Rightarrow> (http_error, rat option) result" where
  "magnitudePct p nowMs =
     rbind (displayRaw p nowMs) (\<lambda>d.
     Inr (if pf_principal p = 0 then None
          else Some (fdiv (num_of_big (big_div (d * 10000) (pf_principal p))) 100)))"

section \<open>The request\<close>

text \<open>The reply of the backend has its amounts in units as text (\<open>lib/api.ts\<close>).\<close>

definition api_preflightRepayment :: "PreflightReply \<Rightarrow> (http_error, PreflightPayload) result" where
  "api_preflightRepayment wire =
     rbind (js_BigInt (pr_principal wire)) (\<lambda>a.
     rbind (js_BigInt (pr_storedAmountDueBefore wire)) (\<lambda>b.
     rbind (js_BigInt (pr_accruedAmountDue wire)) (\<lambda>c.
     rbind (js_BigInt (pr_ratePerSecWad wire)) (\<lambda>r.
     Inr ((pr_rest wire)\<lparr>pf_principal := a, storedAmountDueBefore := b, accruedAmountDue := c, pf_ratePerSecWad := r\<rparr>)))))"

text \<open>
  The payload that the panel keeps: an answer replaces it, a loan that is not found removes it, and
  any other failure leaves it and is shown. A panel without a wallet or a debt drops it; one that is
  mounted, refreshed by its timer or brought to the front asks again.
\<close>

record preflight_state =
  ps_payload :: "PreflightPayload option"
  ps_loading :: bool
  ps_error :: "api_error option"

definition fetch_begin :: "bool \<Rightarrow> preflight_state \<Rightarrow> preflight_state" where
  "fetch_begin enabled st = (if \<not> enabled then st else st\<lparr>ps_loading := True, ps_error := None\<rparr>)"

definition fetch_end :: "(api_error, PreflightPayload) result \<Rightarrow> preflight_state \<Rightarrow> preflight_state" where
  "fetch_end answer st =
     (case answer of
        Inr p \<Rightarrow> st\<lparr>ps_payload := Some p, ps_loading := False\<rparr>
      | Inl e \<Rightarrow>
          if e = ApiError 404 then st\<lparr>ps_payload := None, ps_loading := False\<rparr>
          else st\<lparr>ps_error := Some e, ps_loading := False\<rparr>)"

definition preflight_effect :: "bool \<Rightarrow> preflight_state \<Rightarrow> preflight_state" where
  "preflight_effect enabled st = (if \<not> enabled then st\<lparr>ps_payload := None\<rparr> else fetch_begin enabled st)"

text \<open>When the panel reads the clock again: not at all, once, or five times a second.\<close>

datatype ticking = Still | Wakeup int | Every int

definition tick_schedule :: "PreflightPayload option \<Rightarrow> ticking" where
  "tick_schedule payload =
     (case payload of
        None \<Rightarrow> Still
      | Some p \<Rightarrow>
          if pf_ratePerSecWad p = 0 then Still
          else
            (let chainNowMs = chainNowUnix p * 1000; lateStartMs = lateStart p * 1000
             in if chainNowMs < lateStartMs then Wakeup (lateStartMs - chainNowMs + 100) else Every 200))"

section \<open>Exactness\<close>

text \<open>Times of a payload that a number represents exactly: seconds below \<open>2 ^ 40\<close>.\<close>

definition plain_times :: "PreflightPayload \<Rightarrow> int \<Rightarrow> bool" where
  "plain_times p la \<longleftrightarrow> lastAccruedTs p = of_int la \<and> \<bar>la\<bar> < 2 ^ 40 \<and> \<bar>lateStart p\<bar> < 2 ^ 40 \<and>
     \<bar>chainNowUnix p\<bar> < 2 ^ 40 \<and> \<bar>serverNowUnix p\<bar> < 2 ^ 40"

definition estimate :: "PreflightPayload \<Rightarrow> int \<Rightarrow> int" where
  "estimate p t = chainNowUnix p * 1000 + (t - serverNowUnix p * 1000)"

definition debt_at :: "PreflightPayload \<Rightarrow> int \<Rightarrow> int \<Rightarrow> int" where
  "debt_at p la t = accruedAmountDue p * 10 +
     (if pf_ratePerSecWad p = 0 \<or> estimate p t < lateStart p * 1000 then 0
      else pf_ratePerSecWad p * max 0 (estimate p t - max la (lateStart p) * 1000) * storedAmountDueBefore p div 10 ^ 20)"

lemma fl_ints:
  "\<bar>a\<bar> < 2 ^ 40 \<Longrightarrow> fmul (of_int a) 1000 = of_int (a * 1000)"
  "\<bar>a\<bar> < 2 ^ 52 \<Longrightarrow> \<bar>b\<bar> < 2 ^ 52 \<Longrightarrow> fsub (of_int a) (of_int b) = of_int (a - b)"
  "\<bar>a\<bar> < 2 ^ 52 \<Longrightarrow> \<bar>b\<bar> < 2 ^ 52 \<Longrightarrow> fadd (of_int a) (of_int b) = of_int (a + b)"
proof -
  show "\<bar>a\<bar> < 2 ^ 40 \<Longrightarrow> fmul (of_int a) 1000 = of_int (a * 1000)"
    using fl_of_int [of "a * 1000"] by (simp add: fmul_def)
  show "\<bar>a\<bar> < 2 ^ 52 \<Longrightarrow> \<bar>b\<bar> < 2 ^ 52 \<Longrightarrow> fsub (of_int a) (of_int b) = of_int (a - b)"
    using fl_of_int [of "a - b"] by (simp add: fsub_def)
  show "\<bar>a\<bar> < 2 ^ 52 \<Longrightarrow> \<bar>b\<bar> < 2 ^ 52 \<Longrightarrow> fadd (of_int a) (of_int b) = of_int (a + b)"
    using fl_of_int [of "a + b"] by (simp add: fadd_def)
qed

lemma estimate_exact:
  assumes "plain_times p la" and "\<bar>t\<bar> < 2 ^ 51"
  shows "chainEstimateMs p t = of_int (estimate p t)" "\<bar>estimate p t\<bar> < 2 ^ 52"
proof -
  have b: "\<bar>chainNowUnix p\<bar> < 2 ^ 40" "\<bar>serverNowUnix p\<bar> < 2 ^ 40" using assms(1) by (auto simp: plain_times_def)
  then have "chainEstimateMs p t = fadd (of_int (chainNowUnix p * 1000)) (of_int (t - serverNowUnix p * 1000))"
    using assms(2) by (simp add: chainEstimateMs_def fl_ints(1) fl_ints(2) del: of_int_mult of_int_diff)
  then show "chainEstimateMs p t = of_int (estimate p t)"
    using b assms(2) by (simp add: estimate_def fl_ints(3) del: of_int_mult of_int_diff of_int_add)
  show "\<bar>estimate p t\<bar> < 2 ^ 52" using b assms(2) by (simp add: estimate_def)
qed

lemma big_div_floor: "0 \<le> a \<Longrightarrow> 0 < b \<Longrightarrow> big_div a b = a div b"
  by (auto simp: big_div_def sgn_if)

lemma debt_exact:
  assumes p: "plain_times p la" and t: "\<bar>t\<bar> < 2 ^ 51" and pos: "0 \<le> pf_ratePerSecWad p" "0 \<le> storedAmountDueBefore p"
  shows "computeDisplaySubBase p t = Inr (debt_at p la t)"
    "isMoraAccruingAt p t \<longleftrightarrow> pf_ratePerSecWad p \<noteq> 0 \<and> lateStart p * 1000 \<le> estimate p t"
proof -
  have la: "lastAccruedTs p = of_int la" "\<bar>la\<bar> < 2 ^ 40" "\<bar>lateStart p\<bar> < 2 ^ 40" using p by (auto simp: plain_times_def)
  note est = estimate_exact [OF p t]
  have ms: "fmul (lastAccruedTs p) 1000 = of_int (la * 1000)" "fmul (of_int (lateStart p)) 1000 = of_int (lateStart p * 1000)"
    using la fl_ints(1) by simp_all
  show "isMoraAccruingAt p t \<longleftrightarrow> pf_ratePerSecWad p \<noteq> 0 \<and> lateStart p * 1000 \<le> estimate p t"
    unfolding isMoraAccruingAt_def ms est(1) of_int_le_iff by simp
  let ?m = "max la (lateStart p) * 1000" and ?e = "max 0 (estimate p t - max la (lateStart p) * 1000)"
  have m: "max (of_int (la * 1000)) (of_int (lateStart p * 1000)) = (of_int ?m :: rat)"
    unfolding of_int_max [symmetric] by (simp add: max_def)
  have "\<bar>?m\<bar> < 2 ^ 52" using la by (auto simp: max_def)
  then have e: "max 0 (fsub (of_int (estimate p t)) (of_int ?m)) = of_int ?e"
    using est(2) by (simp only: fl_ints(2))
  show "computeDisplaySubBase p t = Inr (debt_at p la t)"
    unfolding computeDisplaySubBase_def Let_def ms est(1) m e
    using pos by (simp add: debt_at_def big_of_num_def rbind_def MS_TO_SUB_BASE_DIVISOR_def big_div_floor del: of_int_max of_int_mult)
qed

section \<open>The numeral\<close>

lemma sub_base_split:
  assumes "0 \<le> x"
  obtains w r where "x = int (w * 10 ^ 7 + r)" "r < 10 ^ 7"
    "\<And>k. formatUsdcSubBase x k = nat_str w @ CHR ''.'' # take k (padStart 7 (CHR ''0'') (nat_str r))"
proof
  let ?w = "nat x div 10 ^ 7" and ?r = "nat x mod 10 ^ 7"
  show "x = int (?w * 10 ^ 7 + ?r)" using assms by (simp only: div_mult_mod_eq)
  show r: "?r < 10 ^ 7" by simp
  have "big_div x (10 ^ 7) = int ?w" "x - int ?w * 10 ^ 7 = int ?r"
    using assms big_div_floor [of x "10 ^ 7"] by (simp_all add: zdiv_int zmod_int minus_div_mult_eq_mod)
  then show "formatUsdcSubBase x k = nat_str ?w @ CHR ''.'' # take k (padStart 7 (CHR ''0'') (nat_str ?r))" for k
    using padStart_nat_str(1) [OF _ r]
    by (simp add: formatUsdcSubBase_def Let_def SUB_BASE_PER_USDC_def SUB_BASE_DECIMALS_def int_str_def)
qed

lemma sub_base_read:
  assumes "0 \<le> x" and "0 < k" "k \<le> 7"
  shows "decimalToUnits (formatUsdcSubBase x k) 7 = Some (x div 10 ^ (7 - k) * 10 ^ (7 - k))"
proof -
  obtain w r where x: "x = int (w * 10 ^ 7 + r)" and r: "r < 10 ^ 7"
    and f: "\<And>k. formatUsdcSubBase x k = nat_str w @ CHR ''.'' # take k (padStart 7 (CHR ''0'') (nat_str r))"
    using sub_base_split [OF assms(1)] by metis
  let ?p = "padStart 7 (CHR ''0'') (nat_str r)"
  have p: "length ?p = 7" "list_all is_digit_char ?p" "dec_value ?p = r" using padStart_nat_str [OF _ r] by simp_all
  have t: "list_all is_digit_char (take k ?p)" "take k ?p \<noteq> []" "length (take k ?p) = k" "dec_value (take k ?p) = r div 10 ^ (7 - k)"
    using p assms(2,3) dec_value_take [OF p(2), of k] by (auto simp: list_all_iff dest: in_set_takeD)
  have w: "nat_str w \<noteq> []" "list_all is_digit_char (nat_str w)" "dec_value (nat_str w) = w" using nat_str_digits by auto
  have keep: "filter (\<lambda>c. \<not> is_ws c \<and> c \<noteq> CHR '','') s = s" if "list_all is_digit_char s" for s
    using that digit_props(3) by (auto simp: filter_id_conv list_all_iff is_digit_char_def Let_def)
  have "filter (\<lambda>c. \<not> is_ws c \<and> c \<noteq> CHR '','') (formatUsdcSubBase x k) = [] @ nat_str w @ (if take k ?p = [] then [] else CHR ''.'' # take k ?p)"
    using keep [OF t(1)] keep [OF w(2)] t(2) by (simp add: f is_ws_def)
  from decimalToUnits_clean [OF this _ w(1,2) t(1)] have
    "decimalToUnits (formatUsdcSubBase x k) 7 = Some (int (w * 10 ^ 7 + r div 10 ^ (7 - k) * 10 ^ (7 - k)))"
    using assms(3) t(3,4) w(3) by simp
  moreover have "(w * 10 ^ 7 + r) div 10 ^ (7 - k) * 10 ^ (7 - k) = w * 10 ^ 7 + r div 10 ^ (7 - k) * 10 ^ (7 - k)"
  proof -
    have e: "(10 :: nat) ^ 7 = 10 ^ k * 10 ^ (7 - k)" using assms(3) unfolding power_add [symmetric] by simp
    then have "w * 10 ^ 7 + r = r + w * 10 ^ k * 10 ^ (7 - k)" by (simp only: mult.assoc add.commute)
    moreover have "(r + w * 10 ^ k * 10 ^ (7 - k)) div 10 ^ (7 - k) = w * 10 ^ k + r div 10 ^ (7 - k)" by simp
    ultimately show ?thesis by (simp only: e add_mult_distrib mult.assoc)
  qed
  moreover have "int n div 10 ^ j * 10 ^ j = int (n div 10 ^ j * 10 ^ j)" for n j by (simp add: zdiv_int)
  ultimately show ?thesis by (simp only: x)
qed

section \<open>What the panel shows\<close>

lemma estimate_mono: "t \<le> t' \<Longrightarrow> estimate p t \<le> estimate p t'"
  by (simp add: estimate_def)

lemma debt_at_props:
  assumes "0 \<le> pf_ratePerSecWad p" "0 \<le> storedAmountDueBefore p"
  shows "accruedAmountDue p * 10 \<le> debt_at p la t" "t \<le> t' \<Longrightarrow> debt_at p la t \<le> debt_at p la t'"
proof -
  let ?m = "\<lambda>t. pf_ratePerSecWad p * max 0 (estimate p t - max la (lateStart p) * 1000) * storedAmountDueBefore p"
  have pos: "0 \<le> ?m t" for t using assms by (intro mult_nonneg_nonneg) simp_all
  then show "accruedAmountDue p * 10 \<le> debt_at p la t"
    by (simp add: debt_at_def pos_imp_zdiv_nonneg_iff)
  assume t: "t \<le> t'"
  have "?m t \<le> ?m t'"
    using assms estimate_mono [OF t, of p] by (intro mult_right_mono mult_left_mono) auto
  then have "?m t div 10 ^ 20 \<le> ?m t' div 10 ^ 20" by (rule zdiv_mono1) simp
  moreover have "0 \<le> ?m t' div 10 ^ 20" using pos [of t'] by (simp add: pos_imp_zdiv_nonneg_iff)
  ultimately show "debt_at p la t \<le> debt_at p la t'"
    using estimate_mono [OF t, of p] by (auto simp: debt_at_def)
qed

section \<open>The payload of the backend\<close>

text \<open>
  Since when the fees are not in the accrued debt: as many whole seconds before the time of the chain as
  the previewed fee stands for, and not before the grace period ended.
\<close>

definition implied_seconds :: "int \<Rightarrow> int \<Rightarrow> int \<Rightarrow> int" where
  "implied_seconds rate accrued pv = (pv - accrued) * 10 ^ 18 div (rate * accrued)"

lemma last_accrued_lazy:
  assumes pos: "0 < rate" "0 < accrued" "accrued \<le> pv" and t: "start < nowChain" "\<bar>start\<bar> < 2 ^ 40" "\<bar>nowChain\<bar> < 2 ^ 40"
  shows "last_accrued False (nowChain > start) rate (Some pv) accrued nowChain start =
    of_int (max (nowChain - implied_seconds rate accrued pv) start)"
proof (cases "pv = accrued")
  case True
  then show ?thesis using t by (simp add: last_accrued_def implied_seconds_def)
next
  case False
  let ?T = "implied_seconds rate accrued pv"
  have T: "0 \<le> ?T" unfolding implied_seconds_def using pos by (simp add: pos_imp_zdiv_nonneg_iff)
  have "big_div ((pv - accrued) * 10 ^ 18) (rate * accrued) = ?T"
    unfolding implied_seconds_def using pos by (intro big_div_floor) simp_all
  then have e: "last_accrued False (nowChain > start) rate (Some pv) accrued nowChain start =
      max (fsub (of_int nowChain) (num_of_big ?T)) (of_int start)"
    using pos t False by (simp add: last_accrued_def Let_def)
  show ?thesis
  proof (cases "?T < 2 ^ 52")
    case True
    then have "num_of_big ?T = of_int ?T" using T fl_of_int [of ?T] by (simp add: num_of_big_def)
    then show ?thesis using e True T t(3) fl_ints(2) [of nowChain ?T] by (simp add: of_int_max)
  next
    case False
    then have "fl (of_int (2 ^ 52)) \<le> num_of_big ?T"
      unfolding num_of_big_def by (intro fl_mono) (simp only: of_int_le_iff not_less)
    moreover have "fl (of_int (2 ^ 52)) = of_int (2 ^ 52)" by (rule fl_of_int) simp
    ultimately have "fsub (of_int nowChain) (num_of_big ?T) \<le> fl (of_int (nowChain - 2 ^ 52))"
      unfolding fsub_def by (intro fl_mono) (simp add: of_int_diff)
    also have "\<dots> = of_int (nowChain - 2 ^ 52)" using t(3) by (intro fl_of_int) simp
    also have "\<dots> \<le> of_int start" using t by (simp only: of_int_le_iff) simp
    finally show ?thesis using e False t by (simp add: max_def)
  qed
qed

lemma payload_plain:
  assumes p: "p = preflight_payload env wallet loan (cl_amountDue loan) rate (Some pv) defaulted nowChain clock (Some reason)"
    and pos: "0 < pf_ratePerSecWad p" "0 < accruedAmountDue p" "accruedAmountDue p \<le> pv"
    and t: "lateStart p < chainNowUnix p" "\<bar>lateStart p\<bar> < 2 ^ 40" "\<bar>chainNowUnix p\<bar> < 2 ^ 40" "\<bar>serverNowUnix p\<bar> < 2 ^ 40"
  shows "plain_times p (max (chainNowUnix p - implied_seconds (pf_ratePerSecWad p) (accruedAmountDue p) pv) (lateStart p))"
    "storedAmountDueBefore p = accruedAmountDue p"
proof -
  have sel: "storedAmountDueBefore p = accruedAmountDue p" "lastAccruedTs p =
      last_accrued False (chainNowUnix p > lateStart p) (pf_ratePerSecWad p) (Some pv) (accruedAmountDue p) (chainNowUnix p) (lateStart p)"
    by (simp_all add: p preflight_payload_def Let_def)
  show "storedAmountDueBefore p = accruedAmountDue p" by (rule sel(1))
  have T: "0 \<le> implied_seconds (pf_ratePerSecWad p) (accruedAmountDue p) pv"
    unfolding implied_seconds_def using pos by (simp add: pos_imp_zdiv_nonneg_iff)
  show "plain_times p (max (chainNowUnix p - implied_seconds (pf_ratePerSecWad p) (accruedAmountDue p) pv) (lateStart p))"
    unfolding plain_times_def sel(2) last_accrued_lazy [OF pos t(1-3)] using t T by (auto simp: max_def)
qed

section \<open>What is shown\<close>

text \<open>
  The events of a panel between two answers that replace its payload: it asks again, a request fails for
  another reason than a missing loan, and the clock is read.
\<close>

inductive panel_step :: "preflight_state \<times> int \<Rightarrow> preflight_state \<times> int \<Rightarrow> bool" where
  panel_asks: "panel_step (st, t) (fetch_begin enabled st, t)"
| panel_fails: "e \<noteq> ApiError 404 \<Longrightarrow> panel_step (st, t) (fetch_end (Inl e) st, t)"
| panel_ticks: "t \<le> t' \<Longrightarrow> panel_step (st, t) (st, t')"

interpretation panel: frame_system panel_step "\<lambda>s s'. ps_payload (fst s') = ps_payload (fst s) \<and> snd s \<le> snd s'"
proof
  fix s t u assume le: "ps_payload (fst t) = ps_payload (fst s) \<and> snd s \<le> snd t" and "panel_step t u"
  from this(2,1) show "ps_payload (fst u) = ps_payload (fst s) \<and> snd s \<le> snd u"
    by (induction rule: panel_step.induct) (auto simp: fetch_begin_def fetch_end_def)
qed simp

text \<open>
  C40. Between two answers of the backend the debt that the panel shows does not go down. Whatever requests the
  panel sends and however they fail in the meantime, it keeps its payload, and the debt that it shows is
  defined, is at least the accrued debt and at every later reading of the clock at least as high; it stands
  still until late fees accrue, and once they do it does not stop. The numeral is
  the projection exactly, with seven decimals when fees accrue, and cut to two before. Read with the
  seven decimals of the Stellar token it is ten times the debt. (A new answer can lower the number, see
  \<open>new_answer_lower\<close>.)
\<close>

theorem ticker_shown:
  assumes run: "panel_step\<^sup>*\<^sup>* (st, t) (st', t')" and payload: "ps_payload st = Some p"
    and p: "plain_times p la" and t: "\<bar>t\<bar> < 2 ^ 51" "\<bar>t'\<bar> < 2 ^ 51"
    and pos: "0 \<le> pf_ratePerSecWad p" "0 \<le> storedAmountDueBefore p" "0 \<le> accruedAmountDue p"
  shows "ps_payload st' = Some p \<and>
    (\<exists>x x' h. computeDisplaySubBase p t = Inr x \<and> computeDisplaySubBase p t' = Inr x' \<and>
    10 * accruedAmountDue p \<le> x \<and> x \<le> x' \<and>
    (if isMoraAccruingAt p t then isMoraAccruingAt p t' else x = 10 * accruedAmountDue p) \<and>
    displayRaw p t = Inr (x div 10) \<and> displayHuman p t = Inr h \<and>
    decimalToUnits h (DECIMALS (Some ''stellar'')) = Some (if isMoraAccruingAt p t then x else x div 10 ^ 5 * 10 ^ 5))"
proof -
  have keep: "ps_payload st' = Some p" "t \<le> t'" using panel.frame_run [OF run] payload by simp_all
  let ?x = "debt_at p la t" and ?k = "if isMoraAccruingAt p t then 7 else 2 :: nat"
  note ex = debt_exact [OF p t(1) pos(1,2)] and ex' = debt_exact [OF p t(2) pos(1,2)]
  have x: "accruedAmountDue p * 10 \<le> ?x" "?x \<le> debt_at p la t'" using debt_at_props [OF pos(1,2)] keep(2) by auto
  then have nn: "0 \<le> ?x" using pos(3) by simp
  have d: "DECIMALS (Some ''stellar'') = 7" by code_simp
  have "decimalToUnits (formatUsdcSubBase ?x ?k) 7 = Some (if isMoraAccruingAt p t then ?x else ?x div 10 ^ 5 * 10 ^ 5)"
    using sub_base_read [OF nn, of ?k] by simp
  moreover have "displayHuman p t = Inr (formatUsdcSubBase ?x ?k)"
    by (simp add: displayHuman_def ex(1) rbind_def SUB_BASE_DECIMALS_def)
  moreover have "displayRaw p t = Inr (?x div 10)" using nn by (simp add: displayRaw_def ex(1) rbind_def big_div_floor)
  moreover have "if isMoraAccruingAt p t then isMoraAccruingAt p t' else ?x = 10 * accruedAmountDue p"
    using ex(2) ex'(2) estimate_mono [OF keep(2), of p] by (auto simp: debt_at_def)
  ultimately show ?thesis using ex(1) ex'(1) x d keep(1) by (simp add: mult.commute)
qed

definition example_payload :: PreflightPayload where
  "example_payload = preflight_payload example_env example_wallet (example_chain_loan True) 10653000 19290123456 (Some 10654800)
     None 700000 700000123 (Some ''lazy_skip'')"

lemma example_payload_facts:
  "lateStart example_payload = 691200" "chainNowUnix example_payload = 700000" "serverNowUnix example_payload = 700000"
  "pf_ratePerSecWad example_payload = 19290123456" "storedAmountDueBefore example_payload = 10653000"
  "accruedAmountDue example_payload = 10653000" "pf_principal example_payload = 10000000" "plain_times example_payload 691241"
proof -
  show sel: "lateStart example_payload = 691200" "chainNowUnix example_payload = 700000" "serverNowUnix example_payload = 700000"
    "pf_ratePerSecWad example_payload = 19290123456" "storedAmountDueBefore example_payload = 10653000"
    "accruedAmountDue example_payload = 10653000" "pf_principal example_payload = 10000000"
    by (simp_all add: example_payload_def preflight_payload_def Let_def example_chain_loan_def)
  have "example_payload = preflight_payload example_env example_wallet (example_chain_loan True) (cl_amountDue (example_chain_loan True))
      19290123456 (Some 10654800) None 700000 700000123 (Some ''lazy_skip'')"
    by (simp add: example_payload_def example_chain_loan_def)
  from payload_plain(1) [OF this] show "plain_times example_payload 691241"
    by (simp add: sel implied_seconds_def)
qed

definition example_panel :: preflight_state where
  "example_panel = \<lparr>ps_payload = Some example_payload, ps_loading = False, ps_error = None\<rparr>"

theorem ticker_shown_witness:
  "\<exists>st x x' h. panel_step\<^sup>*\<^sup>* (example_panel, 700001000) (st, 700002000) \<and> ps_error st \<noteq> None \<and> ps_payload st = Some example_payload \<and>
     computeDisplaySubBase example_payload 700001000 = Inr x \<and> computeDisplaySubBase example_payload 700002000 = Inr x' \<and>
     106530000 \<le> x \<and> x \<le> x' \<and> displayHuman example_payload 700001000 = Inr h \<and>
     decimalToUnits h (DECIMALS (Some ''stellar'')) = Some x"
proof -
  let ?st = "fetch_end (Inl (ApiError 429)) (fetch_begin True example_panel)"
  have "panel_step (example_panel, 700001000) (fetch_begin True example_panel, 700001000)" by (rule panel_asks)
  moreover have "panel_step (fetch_begin True example_panel, 700001000) (?st, 700001000)" by (rule panel_fails) simp
  moreover have "panel_step (?st, 700001000) (?st, 700002000)" by (rule panel_ticks) simp
  ultimately have run: "panel_step\<^sup>*\<^sup>* (example_panel, 700001000) (?st, 700002000)" by simp
  have "isMoraAccruingAt example_payload 700001000"
    using debt_exact(2) [OF example_payload_facts(8), of 700001000] by (simp add: example_payload_facts estimate_def)
  moreover have "ps_payload example_panel = Some example_payload" "ps_error ?st \<noteq> None"
    by (simp_all add: example_panel_def fetch_end_def)
  ultimately show ?thesis
    using ticker_shown [OF run _ example_payload_facts(8)] example_payload_facts run by auto
qed

text \<open>
  A new answer can lower the number: it starts again from the time of the chain, which may be seconds
  behind, and counts whole seconds of the previewed fee.
\<close>

definition later_payload :: PreflightPayload where
  "later_payload = preflight_payload example_env example_wallet (example_chain_loan True) 10653000 19290123456 (Some 10654801)
     None 700004 700009123 (Some ''lazy_skip'')"

lemma later_payload_facts:
  "lateStart later_payload = 691200" "chainNowUnix later_payload = 700004" "serverNowUnix later_payload = 700009"
  "pf_ratePerSecWad later_payload = 19290123456" "storedAmountDueBefore later_payload = 10653000"
  "accruedAmountDue later_payload = 10653000" "plain_times later_payload 691240"
proof -
  show sel: "lateStart later_payload = 691200" "chainNowUnix later_payload = 700004" "serverNowUnix later_payload = 700009"
    "pf_ratePerSecWad later_payload = 19290123456" "storedAmountDueBefore later_payload = 10653000"
    "accruedAmountDue later_payload = 10653000"
    by (simp_all add: later_payload_def preflight_payload_def Let_def example_chain_loan_def)
  have "later_payload = preflight_payload example_env example_wallet (example_chain_loan True) (cl_amountDue (example_chain_loan True))
      19290123456 (Some 10654801) None 700004 700009123 (Some ''lazy_skip'')"
    by (simp add: later_payload_def example_chain_loan_def)
  from payload_plain(1) [OF this] show "plain_times later_payload 691240"
    by (simp add: sel implied_seconds_def)
qed

lemma new_answer_lower:
  "\<exists>x y. computeDisplaySubBase example_payload 700009900 = Inr x \<and>
     ps_payload (fetch_end (Inr later_payload) example_panel) = Some later_payload \<and>
     computeDisplaySubBase later_payload 700010000 = Inr y \<and> y < x"
  using debt_exact(1) [OF example_payload_facts(8), of 700009900] debt_exact(1) [OF later_payload_facts(7), of 700010000]
  by (simp add: debt_at_def estimate_def example_payload_facts later_payload_facts fetch_end_def)

lemma preflight_lazy:
  assumes "preflightRepayment env gw address False s = (Inr p, s')" and "normalizeWallet address = Inr wallet"
    and "previewLoanWithLate gw wallet (chain s) = Inr (Some pv)"
  shows "\<exists>loan rate defaulted nowChain.
    p = preflight_payload env wallet loan (cl_amountDue loan) rate (Some pv) defaulted nowChain (now s) (Some ''lazy_skip'')"
  using assms
  by (auto simp: preflightRepayment_def preflight_finish_def accrue_skip_def accrue_now_def svc_simps Let_def
      split: sum.splits option.splits if_splits)

lemma preflight_wire:
  assumes "0 \<le> pf_principal p" "0 \<le> storedAmountDueBefore p" "0 \<le> accruedAmountDue p" "0 \<le> pf_ratePerSecWad p"
  shows "api_preflightRepayment (preflight_reply p) = Inr p"
proof -
  have "js_BigInt (int_str n) = Inr n" if "0 \<le> n" for n
    using that js_BigInt_digits [of "nat_str (nat n)"] nat_str_digits [of "nat n"] by (simp add: int_str_def)
  then show ?thesis using assms by (simp add: api_preflightRepayment_def preflight_reply_def rbind_def)
qed

text \<open>The single wake-up before the fees begin is late enough, unless the clock of the page is behind the server's.\<close>

lemma wakeup_accrues:
  assumes "plain_times p la" and "tick_schedule (Some p) = Wakeup d" and "serverNowUnix p * 1000 \<le> t + 100" and "\<bar>t + d\<bar> < 2 ^ 51"
    and "0 \<le> pf_ratePerSecWad p" "0 \<le> storedAmountDueBefore p"
  shows "isMoraAccruingAt p (t + d)"
  using assms debt_exact(2) [OF assms(1,4-6)] by (auto simp: tick_schedule_def estimate_def Let_def split: if_splits)

text \<open>The projection at the time of the reading, from the seconds that the previewed fee stands for.\<close>

lemma projected_fee:
  fixes r A d T E :: int
  assumes pos: "0 < r" "0 < A" "0 \<le> d" and T: "T = d * 10 ^ 18 div (r * A)" and E: "E \<le> T"
  shows "r * (E * 1000) * A div 10 ^ 20 \<le> 10 * d"
    "E = T \<Longrightarrow> 10 * d \<le> r * (E * 1000) * A div 10 ^ 20 + r * A div 10 ^ 17 + 1"
proof -
  have e: "r * (E * 1000) * A div 10 ^ 20 = r * A * E div 10 ^ 17"
    using div_mult_mult1 [of 1000 "r * A * E" "10 ^ 17"] by (simp add: ac_simps)
  have rA: "0 < r * A" using pos by simp
  have "r * A * E \<le> r * A * T" using E rA by (intro mult_left_mono) simp_all
  also have "\<dots> \<le> d * 10 ^ 18" unfolding T by (rule minus_mod_eq_mult_div [of "d * 10 ^ 18" "r * A", symmetric, THEN ord_eq_le_trans]) (use rA in simp)
  finally have "r * A * E div 10 ^ 17 \<le> d * 10 ^ 18 div 10 ^ 17" by (rule zdiv_mono1) simp
  then show "r * (E * 1000) * A div 10 ^ 20 \<le> 10 * d" unfolding e by simp
  assume "E = T"
  moreover have "d * 10 ^ 18 < r * A * T + r * A"
    using pos_mod_bound [OF rA, of "d * 10 ^ 18"] mult_div_mod_eq [of "r * A" "d * 10 ^ 18"] unfolding T by linarith
  ultimately show "10 * d \<le> r * (E * 1000) * A div 10 ^ 20 + r * A div 10 ^ 17 + 1"
    unfolding e by simp
qed

text \<open>
  C16. At the time of the reading the panel shows, from the backend's own answer, at least the accrued debt
  and at most what the contract previews, and when the contract charges no more than the rate since the
  grace period ended, what is missing is less than the fee of one second and one unit of the last digit.
\<close>

theorem ticker_preview:
  assumes run: "preflightRepayment env gw address False s = (Inr p, s')" and w: "normalizeWallet address = Inr wallet"
    and pv: "previewLoanWithLate gw wallet (chain s) = Inr (Some pv)" "accruedAmountDue p \<le> pv"
    and pos: "0 < pf_ratePerSecWad p" "0 < accruedAmountDue p"
    and t: "lateStart p < chainNowUnix p" "\<bar>lateStart p\<bar> < 2 ^ 40" "\<bar>chainNowUnix p\<bar> < 2 ^ 40" "\<bar>serverNowUnix p\<bar> < 2 ^ 40"
    and pr: "0 \<le> pf_principal p"
  shows "\<exists>q x. api_preflightRepayment (preflight_reply p) = Inr q \<and> computeDisplaySubBase q (serverNowUnix p * 1000) = Inr x \<and>
    10 * accruedAmountDue p \<le> x \<and> x \<le> 10 * pv \<and>
    ((pv - accruedAmountDue p) * 10 ^ 18 \<le> pf_ratePerSecWad p * accruedAmountDue p * (chainNowUnix p - lateStart p) \<longrightarrow>
      10 * pv \<le> x + pf_ratePerSecWad p * accruedAmountDue p div 10 ^ 17 + 1)"
proof -
  let ?r = "pf_ratePerSecWad p" and ?A = "accruedAmountDue p" and ?d = "chainNowUnix p - lateStart p"
  let ?T = "implied_seconds ?r ?A pv"
  let ?la = "max (chainNowUnix p - ?T) (lateStart p)" and ?E = "min ?T ?d"
  from preflight_lazy [OF run w pv(1)] obtain loan rate defaulted nowChain where
    p: "p = preflight_payload env wallet loan (cl_amountDue loan) rate (Some pv) defaulted nowChain (now s) (Some ''lazy_skip'')" by blast
  note plain = payload_plain [OF p pos pv(2) t]
  have T: "0 \<le> ?T" unfolding implied_seconds_def using pos pv(2) by (simp add: pos_imp_zdiv_nonneg_iff)
  have "max 0 (chainNowUnix p * 1000 - max ?la (lateStart p) * 1000) = ?E * 1000" using T t(1) by (auto simp: max_def min_def)
  then have d: "debt_at p ?la (serverNowUnix p * 1000) = 10 * ?A + ?r * (?E * 1000) * ?A div 10 ^ 20"
    using t(1) pos(1) plain(2) by (simp add: debt_at_def estimate_def)
  have ex: "computeDisplaySubBase p (serverNowUnix p * 1000) = Inr (10 * ?A + ?r * (?E * 1000) * ?A div 10 ^ 20)"
    using debt_exact(1) [OF plain(1), of "serverNowUnix p * 1000"] t(4) pos plain(2) d by simp
  note fee = projected_fee [OF pos, of "pv - ?A" ?T ?E, OF _ implied_seconds_def]
  have "0 \<le> ?r * (?E * 1000) * ?A div 10 ^ 20" using pos T t(1) by (simp add: pos_imp_zdiv_nonneg_iff)
  moreover have "?r * (?E * 1000) * ?A div 10 ^ 20 \<le> 10 * (pv - ?A)" using fee(1) pv(2) by simp
  moreover have "10 * (pv - ?A) \<le> ?r * (?E * 1000) * ?A div 10 ^ 20 + ?r * ?A div 10 ^ 17 + 1"
    if "(pv - ?A) * 10 ^ 18 \<le> ?r * ?A * ?d"
  proof -
    have "?T \<le> ?r * ?A * ?d div (?r * ?A)" unfolding implied_seconds_def using that pos by (intro zdiv_mono1) simp_all
    then have "?E = ?T" using pos by simp
    then show ?thesis using fee(2) pv(2) by simp
  qed
  moreover have "api_preflightRepayment (preflight_reply p) = Inr p" using preflight_wire pr pos plain(2) by simp
  ultimately show ?thesis using ex by auto
qed

definition late_gw :: "bool BlockchainGatewayPort" where
  "late_gw = example_gw\<lparr>previewLoanWithLate := \<lambda>w c. Inr (Some 10654800),
     readPremium := \<lambda>w c. Inr (Some \<lparr>premiumRatePerSecWad = 0, lateRatePerSecWad = 19290123456\<rparr>)\<rparr>"

theorem ticker_preview_witness:
  "\<exists>x. preflightRepayment example_env late_gw example_wallet False (example_world True 700000123) = (Inr example_payload, example_world True 700000123) \<and>
     rbind (api_preflightRepayment (preflight_reply example_payload)) (\<lambda>q. computeDisplaySubBase q 700000000) = Inr x \<and>
     106530000 \<le> x \<and> x \<le> 106548000 \<and> 106548000 \<le> x + 3"
proof -
  have run: "preflightRepayment example_env late_gw example_wallet False (example_world True 700000123) = (Inr example_payload, example_world True 700000123)"
    by (simp add: preflightRepayment_def svc_simps example_wallet_norm late_gw_def)
      (simp add: preflight_finish_def accrue_now_def svc_simps Let_def accrue_skip_def example_world_def example_chain_loan_def example_payload_def)
  show ?thesis
    using ticker_preview [OF run example_wallet_norm, of 10654800] run
    by (auto simp: late_gw_def example_payload_facts rbind_def)
qed

end
