(* ===== verification/Fee_Sponsor.thy ===== *)
theory Fee_Sponsor
  imports Wallet_Units
begin

text \<open>
  Fee sponsorship (\<open>backend/src/sponsor/fee-bump.ts\<close>): the policy for the inner transaction,
  the base fee of the fee bump, and the construction of the bump. Parsing, building and
  signing of transactions belong to the Stellar SDK and are the fields of \<open>StellarSdk\<close>.
\<close>

section \<open>Transactions\<close>

text \<open>
  An operation has an optional source of its own. An invocation carries the address of the
  invoked contract when the host function is a contract call, and nothing otherwise.
\<close>

datatype op_body = InvokeHostFunction "string option" | ChangeTrust string | OtherOperation string

record Operation =
  op_source :: "string option"
  op_body :: op_body

record InnerTx =
  tx_signatures :: "bytes list"
  tx_source :: string
  tx_fee :: int
  tx_operations :: "Operation list"
  tx_resourceFee :: "int option"

datatype Envelope = FeeBumpTransaction | Transaction InnerTx | NotAnEnvelope

datatype sponsor_error = SponsorPolicyViolation string | SponsorFailure string

section \<open>Fee\<close>

definition SPONSOR_MIN_BASE_FEE :: int where "SPONSOR_MIN_BASE_FEE = 100"

text \<open>Division of two \<open>bigint\<close> values truncates; a zero divisor throws.\<close>

definition bigint_div :: "int \<Rightarrow> int \<Rightarrow> (sponsor_error, int) result" where
  "bigint_div a b = (if b = 0 then Inl (SponsorFailure ''Division by zero'')
     else Inr (sgn a * sgn b * (\<bar>a\<bar> div \<bar>b\<bar>)))"

definition inclusion_fee :: "InnerTx \<Rightarrow> int" where
  "inclusion_fee inner = tx_fee inner - nullish (tx_resourceFee inner) 0"

definition sponsorBaseFee :: "InnerTx \<Rightarrow> (sponsor_error, int) result" where
  "sponsorBaseFee inner =
     (let ops = int (length (tx_operations inner)) in
      rbind (bigint_div (inclusion_fee inner + ops - 1) ops) (\<lambda>ceilPerOp.
      Inr (if ceilPerOp > SPONSOR_MIN_BASE_FEE then ceilPerOp else SPONSOR_MIN_BASE_FEE)))"

section \<open>Policy\<close>

record SponsorPolicy =
  allowedContracts :: "string list"
  expectedSource :: "string option"
  maxInnerFee :: "int option"

definition contractIdOf :: "Operation \<Rightarrow> string option" where
  "contractIdOf op = (case op_body op of InvokeHostFunction target \<Rightarrow> target | _ \<Rightarrow> None)"

definition check_operation :: "SponsorPolicy \<Rightarrow> Operation \<Rightarrow> (sponsor_error, unit) result" where
  "check_operation policy op =
     (case op_body op of
        InvokeHostFunction _ \<Rightarrow>
          (let target = contractIdOf op in
           if falsy_str target \<or> the target \<notin> set (allowedContracts policy)
           then Inl (SponsorPolicyViolation (''operation invokes '' @ nullish target ''an unparseable target'' @ '', not an allowed contract''))
           else Inr ())
      | ChangeTrust _ \<Rightarrow> Inr ()
      | OtherOperation ty \<Rightarrow> Inl (SponsorPolicyViolation (''operation type '' @ ty @ '' is not sponsorable'')))"

fun check_operations :: "SponsorPolicy \<Rightarrow> Operation list \<Rightarrow> (sponsor_error, unit) result" where
  "check_operations policy [] = Inr ()"
| "check_operations policy (op # ops) = rbind (check_operation policy op) (\<lambda>_. check_operations policy ops)"

definition validateInnerTx :: "Envelope \<Rightarrow> SponsorPolicy \<Rightarrow> (sponsor_error, InnerTx) result" where
  "validateInnerTx envelope policy =
     (case envelope of
        FeeBumpTransaction \<Rightarrow> Inl (SponsorPolicyViolation ''inner tx is already a fee-bump'')
      | NotAnEnvelope \<Rightarrow> Inl (SponsorPolicyViolation ''not a transaction envelope'')
      | Transaction inner \<Rightarrow>
          if tx_signatures inner = [] then
            Inl (SponsorPolicyViolation ''inner tx is unsigned - the user signs first, the sponsor never signs for them'')
          else if \<not> falsy_str (expectedSource policy) \<and> Some (tx_source inner) \<noteq> expectedSource policy then
            Inl (SponsorPolicyViolation (''inner tx source '' @ tx_source inner @ '' is not the authenticated user '' @
              the (expectedSource policy)))
          else if (case maxInnerFee policy of None \<Rightarrow> False | Some cap \<Rightarrow> tx_fee inner > cap) then
            Inl (SponsorPolicyViolation (''inner fee '' @ int_str (tx_fee inner) @ '' exceeds the sponsor cap '' @
              int_str (the (maxInnerFee policy))))
          else if tx_operations inner = [] then Inl (SponsorPolicyViolation ''inner tx has no operations'')
          else rbind (check_operations policy (tx_operations inner)) (\<lambda>_. Inr inner))"

section \<open>The bump\<close>

record ('k, 'b) StellarSdk =
  fromXDR :: "string \<Rightarrow> string \<Rightarrow> (sponsor_error, Envelope) result"
  buildFeeBumpTransaction :: "'k \<Rightarrow> int \<Rightarrow> InnerTx \<Rightarrow> string \<Rightarrow> (sponsor_error, 'b) result"
  sign_bump :: "'k \<Rightarrow> 'b \<Rightarrow> 'b"
  bump_toXDR :: "'b \<Rightarrow> string"
  bump_fee :: "'b \<Rightarrow> int"

record SponsoredBump =
  feeBumpXdr :: string
  totalFee :: string

definition buildSponsoredFeeBump ::
    "('k, 'b) StellarSdk \<Rightarrow> string \<Rightarrow> string \<Rightarrow> 'k \<Rightarrow> SponsorPolicy \<Rightarrow> (sponsor_error, SponsoredBump) result" where
  "buildSponsoredFeeBump sdk innerXdr networkPassphrase sponsor policy =
     rbind (fromXDR sdk innerXdr networkPassphrase) (\<lambda>envelope.
     rbind (validateInnerTx envelope policy) (\<lambda>inner.
     rbind (sponsorBaseFee inner) (\<lambda>base.
     rbind (buildFeeBumpTransaction sdk sponsor base inner networkPassphrase) (\<lambda>bump.
     let signed = sign_bump sdk sponsor bump
     in Inr \<lparr>feeBumpXdr = bump_toXDR sdk signed, totalFee = int_str (bump_fee sdk signed)\<rparr>))))"

section \<open>Properties\<close>

text \<open>What the policy lets through: any trust line, and invocations of the allowed contracts.\<close>

definition sponsorable :: "SponsorPolicy \<Rightarrow> Operation \<Rightarrow> bool" where
  "sponsorable policy op \<longleftrightarrow> (\<exists>asset. op_body op = ChangeTrust asset) \<or>
     (\<exists>c \<in> set (allowedContracts policy). c \<noteq> [] \<and> op_body op = InvokeHostFunction (Some c))"

lemma check_operation_iff: "check_operation policy op = Inr u \<longleftrightarrow> sponsorable policy op"
  by (cases "op_body op") (auto simp: check_operation_def sponsorable_def contractIdOf_def falsy_str_def split: option.splits)

lemma check_operations_iff: "check_operations policy ops = Inr u \<longleftrightarrow> list_all (sponsorable policy) ops"
  by (induction ops) (auto simp: rbind_Inr_iff check_operation_iff)

lemma validateInnerTx_iff:
  "validateInnerTx e policy = Inr inner \<longleftrightarrow> e = Transaction inner \<and> tx_signatures inner \<noteq> [] \<and>
     (falsy_str (expectedSource policy) \<or> expectedSource policy = Some (tx_source inner)) \<and>
     (\<forall>cap. maxInnerFee policy = Some cap \<longrightarrow> tx_fee inner \<le> cap) \<and>
     tx_operations inner \<noteq> [] \<and> list_all (sponsorable policy) (tx_operations inner)"
  by (cases e) (auto simp: validateInnerTx_def rbind_Inr_iff check_operations_iff split: option.splits)

text \<open>
  C37. The sponsorship policy, exactly: a transaction is sponsored when it is no fee bump, is
  signed, has the expected source and a fee within the cap when these are set, and has at
  least one operation, each of which invokes an allowed contract or changes a trust line.
  The trust line may be for any asset, and the source of a single operation is not looked at.
\<close>

theorem sponsor_policy:
  "validateInnerTx e policy = Inr inner \<longleftrightarrow> e = Transaction inner \<and> tx_signatures inner \<noteq> [] \<and>
     (falsy_str (expectedSource policy) \<or> expectedSource policy = Some (tx_source inner)) \<and>
     (maxInnerFee policy = None \<or> tx_fee inner \<le> the (maxInnerFee policy)) \<and>
     tx_operations inner \<noteq> [] \<and>
     list_all (\<lambda>op. (case op_body op of InvokeHostFunction (Some c) \<Rightarrow> c \<noteq> [] \<and> c \<in> set (allowedContracts policy)
        | ChangeTrust asset \<Rightarrow> True | _ \<Rightarrow> False)) (tx_operations inner)"
proof -
  have "sponsorable policy = (\<lambda>op. case op_body op of InvokeHostFunction (Some c) \<Rightarrow> c \<noteq> [] \<and> c \<in> set (allowedContracts policy)
        | ChangeTrust asset \<Rightarrow> True | _ \<Rightarrow> False)"
    by (auto simp: sponsorable_def fun_eq_iff split: op_body.split option.split)
  then show ?thesis unfolding validateInnerTx_iff by (cases "maxInnerFee policy") auto
qed

lemma ceil_div:
  fixes a n :: int
  assumes "0 < n" and "1 \<le> a + n"
  shows "bigint_div (a + n - 1) n = Inr ((a + n - 1) div n)" "a \<le> n * ((a + n - 1) div n)"
    "n * ((a + n - 1) div n) < a + n"
proof -
  have "0 \<le> a + n - 1" using assms by simp
  then show "bigint_div (a + n - 1) n = Inr ((a + n - 1) div n)"
    using assms(1) by (cases "a + n - 1 = 0") (auto simp: bigint_div_def)
  have "n * ((a + n - 1) div n) = a + n - 1 - (a + n - 1) mod n" by (simp add: minus_mod_eq_mult_div [symmetric])
  moreover have "0 \<le> (a + n - 1) mod n" "(a + n - 1) mod n < n" using assms(1) by simp_all
  ultimately show "a \<le> n * ((a + n - 1) div n)" "n * ((a + n - 1) div n) < a + n" by linarith+
qed

text \<open>
  The declared base fee is right for the network: it is at least the minimum, its product
  with the number of operations covers the inclusion fee of the inner transaction, and it is
  the least such fee. What the sponsor pays for all operations and the bump itself is less
  than twice the inclusion fee plus one unit per operation, or the minimum for each.
\<close>

theorem sponsor_fee:
  assumes "validateInnerTx e policy = Inr inner" and "nullish (tx_resourceFee inner) 0 \<le> tx_fee inner"
  shows "\<exists>base. sponsorBaseFee inner = Inr base \<and> 100 \<le> base \<and>
    inclusion_fee inner \<le> int (length (tx_operations inner)) * base \<and>
    (base = 100 \<or> int (length (tx_operations inner)) * (base - 1) < inclusion_fee inner) \<and>
    (int (length (tx_operations inner)) + 1) * base \<le>
      max (100 * (int (length (tx_operations inner)) + 1)) (2 * inclusion_fee inner + int (length (tx_operations inner)))"
proof -
  define n where "n = int (length (tx_operations inner))"
  define a where "a = inclusion_fee inner"
  have n: "1 \<le> n" using assms(1) by (cases "tx_operations inner") (auto simp: validateInnerTx_iff n_def)
  have a: "0 \<le> a" using assms(2) by (simp add: a_def inclusion_fee_def)
  define q where "q = (a + n - 1) div n"
  have q: "bigint_div (a + n - 1) n = Inr q" "a \<le> n * q" "n * q < a + n"
    using ceil_div [of n a] n a by (simp_all add: q_def)
  have b: "sponsorBaseFee inner = Inr (max 100 q)"
    using q(1) by (auto simp: sponsorBaseFee_def Let_def n_def a_def SPONSOR_MIN_BASE_FEE_def max_def)
  show ?thesis
  proof (cases "q \<le> 100")
    case True
    then have "n * q \<le> n * 100" using n by (intro mult_left_mono) auto
    with True b q(2) show ?thesis by (auto simp: n_def a_def max_def)
  next
    case False
    have "n * (q - 1) < a" using q(3) by (simp add: algebra_simps)
    moreover have "q \<le> a"
    proof (rule ccontr)
      assume "\<not> q \<le> a"
      then have "n * (a + 1) \<le> n * q" using n by (intro mult_left_mono) auto
      moreover have "1 * a \<le> n * a" using n a by (intro mult_right_mono)
      ultimately show False using q(3) by (simp add: algebra_simps)
    qed
    ultimately have "(n + 1) * q < 2 * a + n" using q(3) by (simp add: algebra_simps)
    with False b q(2) \<open>n * (q - 1) < a\<close> show ?thesis by (auto simp: n_def a_def)
  qed
qed

text \<open>A contract call and a trust line with a fee of 1500, of which 1001 are resource fees.\<close>

definition example_inner :: InnerTx where
  "example_inner = \<lparr>tx_signatures = [[1]], tx_source = ''GUSER'', tx_fee = 1500,
     tx_operations = [\<lparr>op_source = None, op_body = InvokeHostFunction (Some ''CVAULT'')\<rparr>, \<lparr>op_source = None, op_body = ChangeTrust ''EURC''\<rparr>],
     tx_resourceFee = Some 1001\<rparr>"

definition example_policy :: SponsorPolicy where
  "example_policy = \<lparr>allowedContracts = [''CVAULT''], expectedSource = Some ''GUSER'', maxInnerFee = Some 2000\<rparr>"

theorem sponsor_fee_witness:
  "validateInnerTx (Transaction example_inner) example_policy = Inr example_inner \<and>
   (\<exists>base. sponsorBaseFee example_inner = Inr base \<and> 100 \<le> base \<and> 499 \<le> 2 * base)"
proof -
  have v: "validateInnerTx (Transaction example_inner) example_policy = Inr example_inner" by code_simp
  from sponsor_fee [OF v] v show ?thesis by (auto simp: example_inner_def inclusion_fee_def)
qed

end
