(* ===== verification/Soroban_Queue.thy ===== *)
theory Soroban_Queue
  imports Prelude
begin

text \<open>
  The signer queue of \<open>backend/src/config/sorobanConfig.ts\<close>: two arrays, a flag, and callbacks
  put on the event loop by \<open>setImmediate\<close>. The step relation interleaves calls of
  \<open>enqueueSoroban\<close>, callbacks and the end of the task in flight in any order.

  The specification is a single server that takes the oldest waiting task of the highest
  priority; the queue refines it, loses no wake-up and drains.
\<close>

section \<open>The queue\<close>

datatype TxPriority = High | Low

text \<open>
  \<open>inflight\<close> is the task whose promise is pending, \<open>immediates\<close> the number of callbacks of
  \<open>dispatch\<close> on the event loop, \<open>settled\<close> the tasks that have settled, in order.
\<close>

record 'a signer =
  highQueue :: "'a list"
  lowQueue :: "'a list"
  processing :: bool
  inflight :: "'a option"
  immediates :: nat
  settled :: "'a list"

definition signer_init :: "'a signer" where
  "signer_init = \<lparr>highQueue = [], lowQueue = [], processing = False, inflight = None, immediates = 0, settled = []\<rparr>"

definition dispatch :: "'a signer \<Rightarrow> 'a signer" where
  "dispatch q =
     (if processing q then q
      else case (highQueue q, lowQueue q) of
          (t # ts, _) \<Rightarrow> q\<lparr>highQueue := ts, processing := True, inflight := Some t\<rparr>
        | ([], t # ts) \<Rightarrow> q\<lparr>lowQueue := ts, processing := True, inflight := Some t\<rparr>
        | ([], []) \<Rightarrow> q)"

text \<open>The \<open>finally\<close> callback of the task in flight.\<close>

definition task_finally :: "'a \<Rightarrow> 'a signer \<Rightarrow> 'a signer" where
  "task_finally t q =
     q\<lparr>processing := False, inflight := None, immediates := immediates q + 1, settled := settled q @ [t]\<rparr>"

definition enqueueSoroban :: "'a \<Rightarrow> TxPriority \<Rightarrow> 'a signer \<Rightarrow> 'a signer" where
  "enqueueSoroban t priority q =
     (let q' = (case priority of High \<Rightarrow> q\<lparr>highQueue := highQueue q @ [t]\<rparr> | Low \<Rightarrow> q\<lparr>lowQueue := lowQueue q @ [t]\<rparr>)
      in q'\<lparr>immediates := immediates q + 1\<rparr>)"

text \<open>What the event loop does by itself: a callback runs, or the task in flight settles.\<close>

inductive signer_internal :: "'a signer \<Rightarrow> 'a signer \<Rightarrow> bool" where
  immediate: "immediates q = Suc n \<Longrightarrow> signer_internal q (dispatch (q\<lparr>immediates := n\<rparr>))"
| settle: "inflight q = Some t \<Longrightarrow> signer_internal q (task_finally t q)"

inductive signer_step :: "'a signer \<Rightarrow> 'a signer \<Rightarrow> bool" where
  enqueue: "signer_step q (enqueueSoroban t p q)"
| internal: "signer_internal q q' \<Longrightarrow> signer_step q q'"

inductive_cases signer_internalE: "signer_internal q q'"
inductive_cases signer_stepE: "signer_step q q'"

text \<open>
  What can be observed of a run: which task was submitted with which priority, which task was taken
  off a queue and started, and which one settled, in this order. \<open>signer_log\<close> is \<open>signer_step\<close> with the
  observations so far.
\<close>

datatype 'a event = Submitted TxPriority 'a | Started 'a | Settled 'a

definition begun :: "'a signer \<Rightarrow> 'a signer \<Rightarrow> 'a event list" where
  "begun q q' =
     (if highQueue q' = highQueue q \<and> lowQueue q' = lowQueue q then []
      else case inflight q' of None \<Rightarrow> [] | Some t \<Rightarrow> [Started t])"

inductive signer_log :: "'a signer \<times> 'a event list \<Rightarrow> 'a signer \<times> 'a event list \<Rightarrow> bool" where
  log_enqueue: "signer_log (q, es) (enqueueSoroban t p q, es @ [Submitted p t])"
| log_immediate: "immediates q = Suc n \<Longrightarrow> q' = dispatch (q\<lparr>immediates := n\<rparr>) \<Longrightarrow> signer_log (q, es) (q', es @ begun q q')"
| log_settle: "inflight q = Some t \<Longrightarrow> signer_log (q, es) (task_finally t q, es @ [Settled t])"

section \<open>The specification\<close>

record 'a server =
  waiting :: "(TxPriority \<times> 'a) list"
  serving :: "'a option"
  served :: "'a list"

definition server_init :: "'a server" where
  "server_init = \<lparr>waiting = [], serving = None, served = []\<rparr>"

text \<open>
  A request may start when no older one has its priority and no waiting one a higher priority. The
  steps carry the same observations.
\<close>

inductive server_step :: "'a server \<times> 'a event list \<Rightarrow> 'a server \<times> 'a event list \<Rightarrow> bool" where
  submit: "server_step (a, es) (a\<lparr>waiting := waiting a @ [(p, t)]\<rparr>, es @ [Submitted p t])"
| start: "serving a = None \<Longrightarrow> waiting a = xs @ (p, t) # ys \<Longrightarrow> p \<notin> fst ` set xs \<Longrightarrow>
    p = Low \<longrightarrow> High \<notin> fst ` set (xs @ ys) \<Longrightarrow>
    server_step (a, es) (a\<lparr>waiting := xs @ ys, serving := Some t\<rparr>, es @ [Started t])"
| finish: "serving a = Some t \<Longrightarrow> server_step (a, es) (a\<lparr>serving := None, served := served a @ [t]\<rparr>, es @ [Settled t])"

section \<open>Lemmas\<close>

definition lane :: "TxPriority \<Rightarrow> (TxPriority \<times> 'a) list \<Rightarrow> 'a list" where
  "lane p ws = map snd (filter (\<lambda>w. fst w = p) ws)"

lemma lane_simps [simp]: "lane p [] = []" "lane p (us @ ws) = lane p us @ lane p ws"
    "lane p ((r, t) # ws) = (if r = p then [t] else []) @ lane p ws"
  by (simp_all add: lane_def)

lemma lane_empty: "lane p ws = [] \<longleftrightarrow> p \<notin> fst ` set ws"
  by (auto simp: lane_def filter_empty_conv)

lemma lane_Cons:
  assumes "lane p ws = t # ts"
  obtains xs ys where "ws = xs @ (p, t) # ys" "p \<notin> fst ` set xs" "lane p ys = ts"
proof -
  from assms obtain us w vs where w: "ws = us @ w # vs" "\<forall>u \<in> set us. fst u \<noteq> p" "fst w = p" "snd w = t"
    "map snd (filter (\<lambda>w. fst w = p) vs) = ts"
    by (auto simp: lane_def filter_eq_Cons_iff)
  show thesis by (rule that [of us vs]) (use w in \<open>auto simp: lane_def image_iff\<close>)
qed

definition signer_rel :: "'a signer \<Rightarrow> 'a server \<Rightarrow> bool" where
  "signer_rel q a \<longleftrightarrow> lane High (waiting a) = highQueue q \<and> lane Low (waiting a) = lowQueue q \<and>
     serving a = inflight q \<and> served a = settled q \<and> (processing q \<longleftrightarrow> inflight q \<noteq> None)"

lemma dispatch_cases:
  obtains (idle) "dispatch q = q" "processing q \<or> highQueue q = [] \<and> lowQueue q = []"
  | (high) t ts where "\<not> processing q" "highQueue q = t # ts"
      "dispatch q = q\<lparr>highQueue := ts, processing := True, inflight := Some t\<rparr>"
  | (low) t ts where "\<not> processing q" "highQueue q = []" "lowQueue q = t # ts"
      "dispatch q = q\<lparr>lowQueue := ts, processing := True, inflight := Some t\<rparr>"
  by (cases "processing q"; cases "highQueue q"; cases "lowQueue q") (auto simp: dispatch_def)

lemma begun_simps [simp]:
  "begun q (q\<lparr>immediates := n\<rparr>) = []"
  "highQueue q = t # ts \<Longrightarrow> begun q (q\<lparr>immediates := n, highQueue := ts, processing := True, inflight := Some t\<rparr>) = [Started t]"
  "lowQueue q = t # ts \<Longrightarrow> begun q (q\<lparr>immediates := n, lowQueue := ts, processing := True, inflight := Some t\<rparr>) = [Started t]"
  by (simp_all add: begun_def)

lemma dispatch_simulated:
  assumes "signer_rel q a"
  shows "\<exists>a'. server_step\<^sup>*\<^sup>* (a, es) (a', es @ begun q (dispatch (q\<lparr>immediates := n\<rparr>))) \<and>
    signer_rel (dispatch (q\<lparr>immediates := n\<rparr>)) a'"
proof (cases rule: dispatch_cases [of "q\<lparr>immediates := n\<rparr>"])
  case idle
  then show ?thesis using assms by (intro exI [of _ a]) (simp add: signer_rel_def)
next
  case (high t ts)
  then have "lane High (waiting a) = t # ts" using assms by (simp add: signer_rel_def)
  then obtain xs ys where w: "waiting a = xs @ (High, t) # ys" "High \<notin> fst ` set xs" "lane High ys = ts" by (rule lane_Cons)
  then have "server_step (a, es) (a\<lparr>waiting := xs @ ys, serving := Some t\<rparr>, es @ [Started t])"
    using assms high by (intro server_step.start [of a xs High t ys]) (auto simp: signer_rel_def)
  then show ?thesis
    using assms high w by (intro exI [of _ "a\<lparr>waiting := xs @ ys, serving := Some t\<rparr>"])
      (auto simp: signer_rel_def lane_empty [symmetric])
next
  case (low t ts)
  then have "lane Low (waiting a) = t # ts" "lane High (waiting a) = []" using assms by (simp_all add: signer_rel_def)
  moreover from this(1) obtain xs ys where w: "waiting a = xs @ (Low, t) # ys" "Low \<notin> fst ` set xs" "lane Low ys = ts"
    by (rule lane_Cons)
  ultimately have "server_step (a, es) (a\<lparr>waiting := xs @ ys, serving := Some t\<rparr>, es @ [Started t])"
    using assms low by (intro server_step.start [of a xs Low t ys]) (auto simp: signer_rel_def lane_empty)
  then show ?thesis
    using assms low w by (intro exI [of _ "a\<lparr>waiting := xs @ ys, serving := Some t\<rparr>"])
      (auto simp: signer_rel_def lane_empty [symmetric])
qed

definition log_rel :: "'a signer \<times> 'a event list \<Rightarrow> 'a server \<times> 'a event list \<Rightarrow> bool" where
  "log_rel c b \<longleftrightarrow> signer_rel (fst c) (fst b) \<and> snd b = snd c"

interpretation signer_sim: simulation signer_log server_step log_rel
proof
  fix c c' :: "'a signer \<times> 'a event list" and b
  assume "log_rel c b" and step: "signer_log c c'"
  then obtain a where rel: "signer_rel (fst c) a" and b: "b = (a, snd c)" by (cases b) (auto simp: log_rel_def)
  from step show "\<exists>b'. server_step\<^sup>*\<^sup>* b b' \<and> log_rel c' b'"
  proof (cases rule: signer_log.cases)
    case (log_enqueue q es t p)
    have "signer_rel (enqueueSoroban t p q) (a\<lparr>waiting := waiting a @ [(p, t)]\<rparr>)"
      using rel log_enqueue by (cases p) (auto simp: signer_rel_def enqueueSoroban_def Let_def)
    then show ?thesis using log_enqueue b
      by (intro exI [of _ "(a\<lparr>waiting := waiting a @ [(p, t)]\<rparr>, es @ [Submitted p t])"])
        (auto simp: log_rel_def intro: server_step.submit)
  next
    case (log_immediate q n q' es)
    then have "signer_rel q a" using rel by simp
    from dispatch_simulated [OF this, of es n] show ?thesis using log_immediate b by (auto simp: log_rel_def)
  next
    case (log_settle q t es)
    have "server_step (a, es) (a\<lparr>serving := None, served := served a @ [t]\<rparr>, es @ [Settled t])"
      using rel log_settle by (intro server_step.finish) (simp add: signer_rel_def)
    moreover have "signer_rel (task_finally t q) (a\<lparr>serving := None, served := served a @ [t]\<rparr>)"
      using rel log_settle by (simp add: signer_rel_def task_finally_def)
    ultimately show ?thesis using log_settle b
      by (intro exI [of _ "(a\<lparr>serving := None, served := served a @ [t]\<rparr>, es @ [Settled t])"]) (auto simp: log_rel_def)
  qed
qed

text \<open>Every run of the queue has its observations.\<close>

lemma signer_logged:
  assumes "signer_step\<^sup>*\<^sup>* q q'"
  shows "\<exists>es'. signer_log\<^sup>*\<^sup>* (q, es) (q', es')"
  using assms
proof (induction rule: rtranclp_induct)
  case (step r u)
  then obtain fs where run: "signer_log\<^sup>*\<^sup>* (q, es) (r, fs)" by blast
  have "\<exists>gs. signer_log (r, fs) (u, gs)"
    using step(2) by (auto elim!: signer_stepE signer_internalE intro: signer_log.intros)
  then show ?case using run by (meson rtranclp.rtrancl_into_rtrancl)
qed blast

text \<open>The flag tells whether a task is in flight, and a waiting task has a wake-up coming.\<close>

definition signer_ok :: "'a signer \<Rightarrow> bool" where
  "signer_ok q \<longleftrightarrow> (processing q \<longleftrightarrow> inflight q \<noteq> None) \<and>
     (highQueue q \<noteq> [] \<or> lowQueue q \<noteq> [] \<longrightarrow> processing q \<or> 0 < immediates q)"

lemma signer_ok_internal: "signer_ok q \<Longrightarrow> signer_internal q q' \<Longrightarrow> signer_ok q'"
proof (erule signer_internalE)
  fix n
  assume "signer_ok q" "q' = dispatch (q\<lparr>immediates := n\<rparr>)"
  then show "signer_ok q'"
    by (cases rule: dispatch_cases [of "q\<lparr>immediates := n\<rparr>"]) (auto simp: signer_ok_def)
qed (simp add: signer_ok_def task_finally_def)

lemma signer_ok_enqueue: "signer_ok q \<Longrightarrow> signer_ok (enqueueSoroban t p q)"
  by (cases p) (auto simp: signer_ok_def enqueueSoroban_def Let_def)

interpretation signer_inv: invariant_system signer_step signer_ok
  by unfold_locales (auto elim!: signer_stepE intro: signer_ok_internal signer_ok_enqueue)

text \<open>What is settled, in flight and waiting, in the order in which it will have settled.\<close>

definition schedule :: "'a signer \<Rightarrow> 'a list" where
  "schedule q = settled q @ (case inflight q of None \<Rightarrow> [] | Some t \<Rightarrow> [t]) @ highQueue q @ lowQueue q"

definition signer_size :: "'a signer \<Rightarrow> nat" where
  "signer_size q = immediates q + (if inflight q = None then 0 else 2) + 3 * (length (highQueue q) + length (lowQueue q))"

lemma internal_schedule:
  assumes "signer_ok q" "signer_internal q q'"
  shows "schedule q' = schedule q"
  using assms(2)
proof (cases rule: signer_internal.cases)
  case (immediate n)
  then show ?thesis using assms(1)
    by (cases rule: dispatch_cases [of "q\<lparr>immediates := n\<rparr>"]) (auto simp: schedule_def signer_ok_def)
qed (simp add: schedule_def task_finally_def)

interpretation signer_drain: terminating_system "\<lambda>q q'. signer_ok q \<and> signer_internal q q'" signer_size
proof
  fix q q' :: "'a signer"
  assume "signer_ok q \<and> signer_internal q q'"
  then have ok: "signer_ok q" and "signer_internal q q'" by simp_all
  from this(2) show "signer_size q' < signer_size q"
  proof (cases rule: signer_internal.cases)
    case (immediate n)
    then show ?thesis using ok
      by (cases rule: dispatch_cases [of "q\<lparr>immediates := n\<rparr>"]) (auto simp: signer_size_def signer_ok_def)
  qed (simp add: signer_size_def task_finally_def)
qed

interpretation signer_order: frame_system signer_internal "\<lambda>q q'. signer_ok q \<longrightarrow> signer_ok q' \<and> schedule q' = schedule q"
  by unfold_locales (auto simp: internal_schedule intro: signer_ok_internal)

lemma signer_stuck:
  assumes "signer_ok q" "\<nexists>q'. signer_internal q q'"
  shows "highQueue q = []" "lowQueue q = []" "inflight q = None" "immediates q = 0"
proof -
  show i: "inflight q = None" using assms(2) by (cases "inflight q") (auto intro: settle)
  show n: "immediates q = 0" using assms(2) by (cases "immediates q") (auto intro: immediate)
  show "highQueue q = []" "lowQueue q = []" using assms(1) i n by (auto simp: signer_ok_def)
qed

lemma signer_init_ok [simp]: "signer_ok signer_init" "signer_rel signer_init server_init"
  by (simp_all add: signer_ok_def signer_rel_def signer_init_def server_init_def)

section \<open>Properties\<close>

text \<open>
  C6. The signer queue refines a single server with two priorities, observation by observation: for every
  run of it, whatever was submitted, started and settled in whatever order, the specification has a run with
  the same observations in the same order. So at most one transaction of the operator account is in
  flight, a task starts only when it is the oldest one of its priority and no high one waits before a
  low one, and no submitted task is lost: what is in flight, what has settled and what waits in either
  queue is what the specification says for these observations.
\<close>

theorem signer_refines:
  assumes "signer_log\<^sup>*\<^sup>* (signer_init, []) (q, es)"
  shows "\<exists>a. server_step\<^sup>*\<^sup>* (server_init, []) (a, es) \<and> serving a = inflight q \<and> served a = settled q \<and>
    highQueue q = map snd (filter (\<lambda>w. fst w = High) (waiting a)) \<and>
    lowQueue q = map snd (filter (\<lambda>w. fst w = Low) (waiting a)) \<and> (processing q \<longleftrightarrow> inflight q \<noteq> None)"
proof -
  have "log_rel (signer_init, []) (server_init, [])" by (simp add: log_rel_def)
  from signer_sim.sim_run [OF assms this] obtain b where "server_step\<^sup>*\<^sup>* (server_init, []) b" "log_rel (q, es) b"
    by (elim exE conjE)
  then show ?thesis by (intro exI [of _ "fst b"]) (cases b, auto simp: log_rel_def signer_rel_def lane_def)
qed

theorem signer_refines_witness:
  "\<exists>q a. signer_log\<^sup>*\<^sup>* (signer_init, []) (q, [Submitted Low ''a'', Submitted High ''b'', Started ''b'']) \<and>
     server_step\<^sup>*\<^sup>* (server_init, []) (a, [Submitted Low ''a'', Submitted High ''b'', Started ''b'']) \<and>
     inflight q = Some ''b'' \<and> serving a = Some ''b'' \<and> lowQueue q = [''a'']"
proof -
  let ?x = "enqueueSoroban ''a'' Low signer_init" and ?y = "enqueueSoroban ''b'' High (enqueueSoroban ''a'' Low signer_init)"
  let ?q = "dispatch (?y\<lparr>immediates := 1\<rparr>)"
  have q: "inflight ?q = Some ''b''" "lowQueue ?q = [''a'']" "begun ?y ?q = [Started ''b'']" "immediates ?y = Suc 1"
    by (simp_all add: dispatch_def enqueueSoroban_def signer_init_def begun_def Let_def)
  have "signer_log (signer_init, []) (?x, [Submitted Low ''a''])" using log_enqueue [of signer_init "[]"] by simp
  moreover have "signer_log (?x, [Submitted Low ''a'']) (?y, [Submitted Low ''a'', Submitted High ''b''])"
    using log_enqueue [of ?x "[Submitted Low ''a'']"] by simp
  moreover have "signer_log (?y, [Submitted Low ''a'', Submitted High ''b'']) (?q, [Submitted Low ''a'', Submitted High ''b'', Started ''b''])"
    using log_immediate [OF q(4) refl, of "[Submitted Low ''a'', Submitted High ''b'']"] q(3) by simp
  ultimately have run: "signer_log\<^sup>*\<^sup>* (signer_init, []) (?q, [Submitted Low ''a'', Submitted High ''b'', Started ''b''])"
    by (meson rtranclp.rtrancl_into_rtrancl r_into_rtranclp)
  from signer_refines [OF run] obtain a where
    "server_step\<^sup>*\<^sup>* (server_init, []) (a, [Submitted Low ''a'', Submitted High ''b'', Started ''b''])" "serving a = inflight ?q"
    by blast
  with run q show ?thesis by (intro exI [of _ ?q] exI [of _ a]) simp
qed

text \<open>
  C26. The signer queue drains: in a reachable state, the event loop left to itself takes a
  bounded number of steps whatever their order, it can stop only with both queues empty and
  nothing in flight, and then every task submitted has settled exactly once: those settled
  before, the one in flight, the high ones in order, the low ones in order. No wake-up is lost.
\<close>

theorem signer_drains:
  assumes "signer_step\<^sup>*\<^sup>* signer_init q"
  shows "(\<exists>q'. signer_internal\<^sup>*\<^sup>* q q' \<and> (\<nexists>q''. signer_internal q' q'')) \<and>
    (\<forall>q' n. (signer_internal ^^ n) q q' \<longrightarrow>
       n \<le> immediates q + 2 + 3 * (length (highQueue q) + length (lowQueue q))) \<and>
    (\<forall>q'. signer_internal\<^sup>*\<^sup>* q q' \<and> (\<nexists>q''. signer_internal q' q'') \<longrightarrow>
       highQueue q' = [] \<and> lowQueue q' = [] \<and> \<not> processing q' \<and>
       settled q' = settled q @ (case inflight q of None \<Rightarrow> [] | Some t \<Rightarrow> [t]) @ highQueue q @ lowQueue q)"
proof -
  have ok: "signer_ok q" using signer_inv.inv_run [OF assms] by simp
  have okr: "signer_ok q' \<and> schedule q' = schedule q" if "signer_internal\<^sup>*\<^sup>* q q'" for q'
    using signer_order.frame_run [OF that] ok by blast
  let ?s = "\<lambda>q q'. signer_ok q \<and> signer_internal q q'"
  have len: "(?s ^^ n) q q'" if "(signer_internal ^^ n) q q'" for n q'
    using that
  proof (induction n arbitrary: q')
    case (Suc n)
    then obtain r where r: "(signer_internal ^^ n) q r" "signer_internal r q'" by auto
    with Suc.IH okr [of r] show ?case by (auto simp: relpowp_imp_rtranclp)
  qed simp
  have bound: "n \<le> immediates q + 2 + 3 * (length (highQueue q) + length (lowQueue q))" if "(signer_internal ^^ n) q q'" for n q'
    using signer_drain.run_length [OF len [OF that]] by (simp add: signer_size_def split: if_splits)
  obtain q' where q': "?s\<^sup>*\<^sup>* q q'" "\<nexists>u. ?s q' u" using signer_drain.stuck_reached [of q] by (elim exE conjE)
  have "?s \<le> signer_internal" by auto
  from rtranclp_mono [OF this] q'(1) have r: "signer_internal\<^sup>*\<^sup>* q q'" by (rule predicate2D)
  have "highQueue t = [] \<and> lowQueue t = [] \<and> \<not> processing t \<and>
       settled t = settled q @ (case inflight q of None \<Rightarrow> [] | Some t \<Rightarrow> [t]) @ highQueue q @ lowQueue q"
    if "signer_internal\<^sup>*\<^sup>* q t" "\<nexists>u. signer_internal t u" for t
  proof -
    have ok': "signer_ok t" "schedule t = schedule q" using okr [OF that(1)] by simp_all
    from signer_stuck [OF ok'(1) that(2)] ok' show ?thesis by (simp add: schedule_def signer_ok_def)
  qed
  then have "\<forall>q'. signer_internal\<^sup>*\<^sup>* q q' \<and> (\<nexists>q''. signer_internal q' q'') \<longrightarrow>
       highQueue q' = [] \<and> lowQueue q' = [] \<and> \<not> processing q' \<and>
       settled q' = settled q @ (case inflight q of None \<Rightarrow> [] | Some t \<Rightarrow> [t]) @ highQueue q @ lowQueue q"
    by (intro allI impI) (elim conjE)
  moreover have "\<nexists>u. signer_internal q' u" using q'(2) okr [OF r] by simp
  ultimately show ?thesis using r bound by (intro conjI allI impI exI [of _ q']) simp_all
qed

theorem signer_drains_witness:
  "\<exists>q q'. signer_step\<^sup>*\<^sup>* signer_init q \<and> signer_internal\<^sup>*\<^sup>* q q' \<and> settled q' = [''b'', ''a'']"
proof -
  let ?q = "enqueueSoroban ''b'' High (enqueueSoroban ''a'' Low signer_init)"
  have run: "signer_step\<^sup>*\<^sup>* signer_init ?q"
    by (rule rtranclp.rtrancl_into_rtrancl [OF r_into_rtranclp]) (rule enqueue)+
  have "settled ?q = []" "inflight ?q = None" "highQueue ?q = [''b'']" "lowQueue ?q = [''a'']"
    by (simp_all add: enqueueSoroban_def signer_init_def Let_def)
  with signer_drains [OF run] have "\<exists>q'. signer_internal\<^sup>*\<^sup>* ?q q' \<and> settled q' = [''b'', ''a'']" by fastforce
  with run show ?thesis by blast
qed

end
