(* ===== verification/Soroban_Client.thy ===== *)
theory Soroban_Client
  imports Service Stellar_Strkey Wallet_Units
begin

text \<open>
  The client of the Soroban RPC, \<open>backend/src/config/sorobanConfig.ts\<close>: building,
  simulating, sending and confirming calls of the loan manager.

  The Stellar SDK and the RPC server are parameters (the record \<open>sdk\<close>): an RPC call maps the
  state of the server to an outcome, the milliseconds it took and the next state. An
  \<open>ScVal\<close> is a value of an arbitrary type; \<open>fromScVal<T>\<close> is one function of the record for
  each type \<open>T\<close> it is used at. The clock of the process advances by what calls and sleeps
  take, so a sleep never takes less than asked for. The writes run as tasks of the queue of
  \<open>Soroban_Queue\<close>, one at a time; here is what a task does. The validation of the two numbers
  of the environment happens when the module is loaded.
\<close>

section \<open>The network\<close>

record 'n net =
  remote :: 'n
  net_clock :: int

type_synonym ('n, 'a) rpc_op = "'n \<Rightarrow> (http_error, 'a) result \<times> nat \<times> 'n"

datatype 'a sim_response = SimError string | SimResult "'a option"
datatype send_status = PENDING | DUPLICATE | TRY_AGAIN_LATER | ERROR
datatype tx_status = SUCCESS | FAILED | NOT_FOUND

record SendResult =
  sr_hash :: string
  sr_status :: send_status

record 'v ContractTx =
  tx_source :: string
  tx_sequence :: int
  tx_contract :: string
  tx_method :: string
  tx_args :: "'v list"
  tx_passphrase :: string
  tx_timeout :: int

record 'v ContractEvent =
  ev_contractId :: "bytes option"
  ev_topics :: "'v list"
  ev_data :: 'v

record 'v TxResponse =
  tr_status :: tx_status
  tr_ledger :: int
  contractEventsXdr :: "'v ContractEvent list list option"

record 'v EventResponse =
  inSuccessfulContractCall :: bool
  er_topic :: "'v list"
  er_value :: 'v
  er_ledger :: int
  er_txHash :: string
  ledgerClosedAt :: string

datatype EventsRange = Ledgers int int | Cursor string

record EventsRequest =
  rq_contractId :: string
  rq_topics :: "string list list"
  rq_range :: EventsRange
  rq_limit :: nat

record 'v EventsPage =
  pg_events :: "'v EventResponse list"
  pg_cursor :: "string option"

record LatestLedger =
  ll_sequence :: int
  ll_closeTime :: string

text \<open>What the contract returns, with either spelling of the fields.\<close>

record SorobanLoan =
  sl_principal :: "int option"
  sl_amount_due :: "int option"
  sl_amountDue :: "int option"
  sl_start :: "int option"
  sl_due :: "int option"
  sl_fee_bps :: "int option"
  sl_feeBps :: "int option"
  sl_grace_period :: "int option"
  sl_gracePeriod :: "int option"
  sl_active :: "bool option"

record SorobanPremium =
  sp_premium_rate_per_sec_wad :: "int option"
  sp_premiumRatePerSecWad :: "int option"
  sp_late_rate_per_sec_wad :: "int option"
  sp_lateRatePerSecWad :: "int option"

record SorobanUserRisk =
  su_score :: "int option"
  su_valid_until :: "int option"
  su_validUntil :: "int option"
  su_limit :: "int option"

text \<open>The native value of a topic: a string, or something else with its text.\<close>

datatype topic_value = TStr string | TOther string

record ('n, 'v) sdk =
  Keypair_fromSecret :: "string \<Rightarrow> (http_error, string) result"
  StrKey_decodeContract :: "string \<Rightarrow> (http_error, bytes) result"
  Address_toScVal :: "string \<Rightarrow> (http_error, 'v) result"
  scU32 :: "int \<Rightarrow> 'v"
  scU64 :: "int \<Rightarrow> 'v"
  scI128 :: "int \<Rightarrow> 'v"
  scBool :: "bool \<Rightarrow> 'v"
  scSymbol :: "string \<Rightarrow> 'v"
  toXDR :: "'v \<Rightarrow> string"
  fromScVal_topic :: "'v \<Rightarrow> topic_value"
  fromScVal_bigint :: "'v \<Rightarrow> int"
  fromScVal_triple :: "'v \<Rightarrow> int \<times> int \<times> int"
  Date_parse :: "string \<Rightarrow> int option"
  js_Number :: "string \<Rightarrow> int option"
  timer_lag :: "'n \<Rightarrow> nat"
  getAccount :: "string \<Rightarrow> ('n, int) rpc_op"
  prepareTransaction :: "'v ContractTx \<Rightarrow> ('n, 'v ContractTx) rpc_op"
  sign :: "'v ContractTx \<Rightarrow> string \<Rightarrow> string"
  sendTransaction :: "string \<Rightarrow> ('n, SendResult) rpc_op"
  getTransaction :: "string \<Rightarrow> ('n, 'v TxResponse) rpc_op"
  getEvents :: "EventsRequest \<Rightarrow> ('n, 'v EventsPage) rpc_op"
  rpc_getLatestLedger :: "('n, LatestLedger) rpc_op"
  simulate_bigint :: "'v ContractTx \<Rightarrow> ('n, int sim_response) rpc_op"
  simulate_number :: "'v ContractTx \<Rightarrow> ('n, int sim_response) rpc_op"
  simulate_bool :: "'v ContractTx \<Rightarrow> ('n, bool sim_response) rpc_op"
  simulate_pair :: "'v ContractTx \<Rightarrow> ('n, (int option \<times> int option) sim_response) rpc_op"
  simulate_loan :: "'v ContractTx \<Rightarrow> ('n, SorobanLoan sim_response) rpc_op"
  simulate_premium :: "'v ContractTx \<Rightarrow> ('n, SorobanPremium sim_response) rpc_op"
  simulate_risk :: "'v ContractTx \<Rightarrow> ('n, SorobanUserRisk sim_response) rpc_op"

record soroban_env =
  env_LOAN_MANAGER :: "string option"
  env_USDC_SAC :: "string option"
  env_PASSPHRASE :: "string option"
  STELLAR_OPERATOR_SECRET :: "string option"
  TX_CONFIRM_TIMEOUT_MS :: int
  MAX_SEND_ATTEMPTS :: nat

definition SOROBAN_LOAN_MANAGER :: "soroban_env \<Rightarrow> string" where
  "SOROBAN_LOAN_MANAGER env =
     nullish (env_LOAN_MANAGER env) ''CDIHUCP6DWKW7B6IUECP3SCK5WCI3W5ITNQDZEK2TNI55WLXDM6Y4WJJ''"

definition SOROBAN_USDC_SAC :: "soroban_env \<Rightarrow> string" where
  "SOROBAN_USDC_SAC env =
     nullish (env_USDC_SAC env) ''CDLZFC3SYJYDZT7K67VZ75HPJVIEUVNIXF47ZG2FB2RMQQVU2HHGCYSC''"

definition NETWORK_PASSPHRASE :: "soroban_env \<Rightarrow> string" where
  "NETWORK_PASSPHRASE env = nullish (env_PASSPHRASE env) ''Test SDF Network ; September 2015''"

definition rpc_call :: "('n, 'a) rpc_op \<Rightarrow> ('n net, 'a) svc" where
  "rpc_call f s = (case f (remote s) of (r, ms, n) \<Rightarrow> (r, s\<lparr>remote := n, net_clock := net_clock s + int ms\<rparr>))"

definition sleep :: "('n, 'v) sdk \<Rightarrow> int \<Rightarrow> ('n net, unit) svc" where
  "sleep sdk ms = smod (\<lambda>s. s\<lparr>net_clock := net_clock s + ms + int (timer_lag sdk (remote s))\<rparr>)"

section \<open>Checks\<close>

definition assertStellarAccount :: "string \<Rightarrow> ('s, unit) svc" where
  "assertStellarAccount address =
     srequire (isValidStellarPublicKey address) (RuntimeError (''Invalid Stellar account: '' @ address))"

definition assertSorobanContractId :: "string \<Rightarrow> string \<Rightarrow> ('s, unit) svc" where
  "assertSorobanContractId contractId label =
     srequire (case contractId of [] \<Rightarrow> False
               | c # cs \<Rightarrow> c = CHR ''C'' \<and> length cs = 55 \<and> list_all (\<lambda>x. x \<in> set BASE32_ALPHABET) cs)
       (RuntimeError (''Invalid '' @ label @ '': '' @ contractId))"

definition isLoanManagerContractEvent :: "('n, 'v) sdk \<Rightarrow> soroban_env \<Rightarrow> 'v ContractEvent \<Rightarrow> (http_error, bool) result" where
  "isLoanManagerContractEvent sdk env event =
     (case ev_contractId event of
        None \<Rightarrow> Inr False
      | Some contractId \<Rightarrow>
          rbind (StrKey_decodeContract sdk (SOROBAN_LOAN_MANAGER env)) (\<lambda>manager. Inr (contractId = manager)))"

definition operatorSecret :: "soroban_env \<Rightarrow> (http_error, string) result" where
  "operatorSecret env =
     (case STELLAR_OPERATOR_SECRET env of
        Some secret \<Rightarrow> if secret = [] then Inl (RuntimeError ''Missing STELLAR_OPERATOR_SECRET'') else Inr secret
      | None \<Rightarrow> Inl (RuntimeError ''Missing STELLAR_OPERATOR_SECRET''))"

definition operatorKeypair :: "('n, 'v) sdk \<Rightarrow> soroban_env \<Rightarrow> (http_error, string) result" where
  "operatorKeypair sdk env = rbind (operatorSecret env) (Keypair_fromSecret sdk)"

fun str_includes :: "string \<Rightarrow> string \<Rightarrow> bool" where
  "str_includes [] pat = (pat = [])"
| "str_includes (c # cs) pat = (take (length pat) (c # cs) = pat \<or> str_includes cs pat)"

definition isRetryableSendError :: "http_error \<Rightarrow> bool" where
  "isRetryableSendError err = str_includes (err_msg err) ''TRY_AGAIN_LATER''"

definition isRetryableConfirmError :: "http_error \<Rightarrow> bool" where
  "isRetryableConfirmError err = str_includes (to_lower (err_msg err)) ''tx_confirm_timeout''"

section \<open>Sending and confirming\<close>

text \<open>
  The two retry loops have the same shape: attempts from 1 to the maximum; an error is thrown
  on the last attempt or when it is not to be retried, and else the loop sleeps. The last
  argument counts the attempts left.
\<close>

fun retry_loop :: "('n, 'v) sdk \<Rightarrow> (http_error \<Rightarrow> bool) \<Rightarrow> ('n net, 'a) svc \<Rightarrow> string \<Rightarrow> nat \<Rightarrow> http_error option \<Rightarrow> nat
    \<Rightarrow> ('n net, 'a) svc" where
  "retry_loop sdk retryable body failure attempt lastErr 0 = sthrow (nullish lastErr (RuntimeError failure))"
| "retry_loop sdk retryable body failure attempt lastErr (Suc left) =
     scatch body (\<lambda>e.
       if left = 0 \<or> \<not> retryable e then sthrow e
       else sbind (sleep sdk (2000 * int attempt)) (\<lambda>_.
            retry_loop sdk retryable body failure (attempt + 1) (Some e) left))"

definition send_once :: "('n, 'v) sdk \<Rightarrow> string \<Rightarrow> string \<Rightarrow> ('n net, SendResult) svc" where
  "send_once sdk prepared purpose =
     sbind (rpc_call (sendTransaction sdk prepared)) (\<lambda>result.
       case sr_status result of
         TRY_AGAIN_LATER \<Rightarrow> sthrow (RuntimeError (''TRY_AGAIN_LATER '' @ sr_hash result))
       | ERROR \<Rightarrow> sthrow (RuntimeError (''Soroban send failed for '' @ purpose @ '': '' @ sr_hash result))
       | _ \<Rightarrow> sret result)"

definition sendPreparedTransaction :: "('n, 'v) sdk \<Rightarrow> soroban_env \<Rightarrow> string \<Rightarrow> string \<Rightarrow> ('n net, SendResult) svc" where
  "sendPreparedTransaction sdk env prepared purpose =
     retry_loop sdk isRetryableSendError (send_once sdk prepared purpose) (purpose @ '' send failed'') 1 None
       (MAX_SEND_ATTEMPTS env)"

function wait_loop :: "('n, 'v) sdk \<Rightarrow> soroban_env \<Rightarrow> string \<Rightarrow> int \<Rightarrow> ('n net, 'v TxResponse) svc" where
  "wait_loop sdk env hash start s =
     (if net_clock s - start < TX_CONFIRM_TIMEOUT_MS env
      then case rpc_call (getTransaction sdk hash) s of
          (Inl e, s') \<Rightarrow> (Inl e, s')
        | (Inr tx, s') \<Rightarrow>
            if tr_status tx = SUCCESS then (Inr tx, s')
            else if tr_status tx = FAILED then (Inl (RuntimeError (''Soroban tx failed: '' @ hash)), s')
            else wait_loop sdk env hash start (snd (sleep sdk 1000 s'))
      else (Inl (RuntimeError (''TX_CONFIRM_TIMEOUT: '' @ hash @ '' not confirmed in '' @
              int_str (TX_CONFIRM_TIMEOUT_MS env) @ ''ms'')), s))"
  by pat_completeness auto
termination
  by (relation "measure (\<lambda>(sdk, env, hash, start, s). nat (TX_CONFIRM_TIMEOUT_MS env - (net_clock s - start)))")
    (auto simp: rpc_call_def sleep_def smod_def split: prod.splits)

declare wait_loop.simps [simp del]

definition waitForTransaction :: "('n, 'v) sdk \<Rightarrow> soroban_env \<Rightarrow> string \<Rightarrow> ('n net, 'v TxResponse) svc" where
  "waitForTransaction sdk env hash = (\<lambda>s. wait_loop sdk env hash (net_clock s) s)"

definition waitForTransactionWithRetry :: "('n, 'v) sdk \<Rightarrow> soroban_env \<Rightarrow> string \<Rightarrow> string \<Rightarrow> ('n net, 'v TxResponse) svc" where
  "waitForTransactionWithRetry sdk env hash purpose =
     retry_loop sdk isRetryableConfirmError (waitForTransaction sdk env hash)
       (purpose @ '' confirmation failed for '' @ hash) 1 None (MAX_SEND_ATTEMPTS env)"

section \<open>Calls of the contract\<close>

definition contract_tx :: "('n, 'v) sdk \<Rightarrow> soroban_env \<Rightarrow> string \<Rightarrow> string \<Rightarrow> 'v list \<Rightarrow> ('n net, 'v ContractTx) svc" where
  "contract_tx sdk env contract fname args =
     sbind (slift (operatorKeypair sdk env)) (\<lambda>publicKey.
     sbind (rpc_call (getAccount sdk publicKey)) (\<lambda>account.
     sret \<lparr>tx_source = publicKey, tx_sequence = account, tx_contract = contract, tx_method = fname, tx_args = args,
           tx_passphrase = NETWORK_PASSPHRASE env, tx_timeout = 30\<rparr>))"

definition buildContractTransaction :: "('n, 'v) sdk \<Rightarrow> soroban_env \<Rightarrow> string \<Rightarrow> 'v list \<Rightarrow> ('n net, 'v ContractTx) svc" where
  "buildContractTransaction sdk env fname args = contract_tx sdk env (SOROBAN_LOAN_MANAGER env) fname args"

definition simulateLoanManagerCall :: "('n, 'v) sdk \<Rightarrow> soroban_env \<Rightarrow> ('v ContractTx \<Rightarrow> ('n, 'a sim_response) rpc_op)
    \<Rightarrow> string \<Rightarrow> 'v list \<Rightarrow> ('n net, 'a option) svc" where
  "simulateLoanManagerCall sdk env simulate fname args =
     sbind (assertSorobanContractId (SOROBAN_LOAN_MANAGER env) ''SOROBAN_LOAN_MANAGER'') (\<lambda>_.
     sbind (buildContractTransaction sdk env fname args) (\<lambda>tx.
     sbind (rpc_call (simulate tx)) (\<lambda>sim.
       case sim of
         SimError err \<Rightarrow> sthrow (RuntimeError (''Soroban simulation failed for '' @ fname @ '': '' @ err))
       | SimResult result \<Rightarrow> sret result)))"

definition simulateUsdcSacDecimals :: "('n, 'v) sdk \<Rightarrow> soroban_env \<Rightarrow> ('n net, int) svc" where
  "simulateUsdcSacDecimals sdk env =
     sbind (assertSorobanContractId (SOROBAN_USDC_SAC env) ''SOROBAN_USDC_SAC'') (\<lambda>_.
     sbind (contract_tx sdk env (SOROBAN_USDC_SAC env) ''decimals'' []) (\<lambda>tx.
     sbind (rpc_call (simulate_number sdk tx)) (\<lambda>sim.
       case sim of
         SimError err \<Rightarrow> sthrow (RuntimeError (''decimals() simulation failed: '' @ err))
       | SimResult None \<Rightarrow> sthrow (RuntimeError ''decimals() simulation returned no result'')
       | SimResult (Some d) \<Rightarrow> sret d)))"

text \<open>The task that \<open>sendLoanManagerCall\<close> gives to the queue.\<close>

definition loan_manager_task :: "('n, 'v) sdk \<Rightarrow> soroban_env \<Rightarrow> string \<Rightarrow> 'v list \<Rightarrow> string \<Rightarrow> ('n net, 'v TxResponse) svc" where
  "loan_manager_task sdk env fname args purpose =
     sbind (slift (operatorKeypair sdk env)) (\<lambda>keypair.
     sbind (buildContractTransaction sdk env fname args) (\<lambda>tx.
     sbind (rpc_call (prepareTransaction sdk tx)) (\<lambda>prepared.
     sbind (sendPreparedTransaction sdk env (sign sdk prepared keypair) (purpose @ '':send'')) (\<lambda>sent.
     waitForTransactionWithRetry sdk env (sr_hash sent) purpose))))"

definition sendLoanManagerCall :: "('n, 'v) sdk \<Rightarrow> soroban_env \<Rightarrow> string \<Rightarrow> 'v list \<Rightarrow> string \<Rightarrow> ('n net, 'v TxResponse) svc" where
  "sendLoanManagerCall sdk env fname args purpose =
     sbind (assertSorobanContractId (SOROBAN_LOAN_MANAGER env) ''SOROBAN_LOAN_MANAGER'') (\<lambda>_.
     loan_manager_task sdk env fname args purpose)"

section \<open>Lemmas\<close>

lemma sbind_rpc [svc_simps]:
  "sbind (rpc_call f) g s =
     (case f (remote s) of
        (Inl e, ms, n) \<Rightarrow> (Inl e, s\<lparr>remote := n, net_clock := net_clock s + int ms\<rparr>)
      | (Inr a, ms, n) \<Rightarrow> g a (s\<lparr>remote := n, net_clock := net_clock s + int ms\<rparr>))"
  by (simp add: sbind_def rpc_call_def split: prod.split sum.split)

lemma sleep_eval [simp]:
  "remote (snd (sleep sdk ms s)) = remote s"
  "net_clock (snd (sleep sdk ms s)) = net_clock s + ms + int (timer_lag sdk (remote s))"
  by (simp_all add: sleep_def smod_def)

lemma rpc_call_cases:
  assumes "rpc_call f s = (r, s')"
  obtains ms n where "f (remote s) = (r, ms, n)" "s' = s\<lparr>remote := n, net_clock := net_clock s + int ms\<rparr>"
  using assms by (auto simp: rpc_call_def split: prod.splits)

text \<open>A value that a retry loop returns comes from one run of its body.\<close>

lemma retry_loop_Inr:
  "retry_loop sdk ok body failure k le n s = (Inr a, s') \<Longrightarrow> \<exists>t. body t = (Inr a, s')"
proof (induction n arbitrary: k le s)
  case 0
  then show ?case by (simp add: svc_simps)
next
  case (Suc n)
  show ?case
  proof (cases "body s")
    case (Pair r t)
    then show ?thesis
      using Suc by (cases r) (auto simp: svc_simps sbind_def sleep_def smod_def split: if_splits)
  qed
qed

lemma send_once_Inr:
  assumes "send_once sdk x purpose s = (Inr sent, s')"
  shows "fst (sendTransaction sdk x (remote s)) = Inr sent \<and> sr_status sent \<in> {PENDING, DUPLICATE}"
  using assms by (auto simp: send_once_def svc_simps split: prod.splits sum.splits send_status.splits)

lemma wait_loop_Inr:
  "wait_loop sdk env hash start s = (Inr tx, s') \<Longrightarrow>
     tr_status tx = SUCCESS \<and> (\<exists>n. fst (getTransaction sdk hash n) = Inr tx)"
proof (induction sdk env hash start s rule: wait_loop.induct)
  case (1 sdk env hash start s)
  obtain r t where r: "rpc_call (getTransaction sdk hash) s = (r, t)" by fastforce
  then have "fst (getTransaction sdk hash (remote s)) = r" by (auto elim: rpc_call_cases)
  then show ?case
    using 1(2) 1(1) [OF _ r [symmetric]] r
    by (subst (asm) wait_loop.simps) (auto split: if_splits sum.splits)
qed

text \<open>
  How many transactions are sent and how many polls are made, counted in the state of the
  server: \<open>sends\<close> and \<open>polls\<close> grow with the calls of the name and with no other.
\<close>

definition metered :: "('n, 'v) sdk \<Rightarrow> ('n \<Rightarrow> nat) \<Rightarrow> ('n \<Rightarrow> nat) \<Rightarrow> bool" where
  "metered sdk sends polls \<longleftrightarrow>
     (\<forall>x n. sends (snd (snd (sendTransaction sdk x n))) = sends n + 1 \<and> polls (snd (snd (sendTransaction sdk x n))) = polls n) \<and>
     (\<forall>h n. polls (snd (snd (getTransaction sdk h n))) = polls n + 1 \<and> sends (snd (snd (getTransaction sdk h n))) = sends n) \<and>
     (\<forall>a n. sends (snd (snd (getAccount sdk a n))) = sends n \<and> polls (snd (snd (getAccount sdk a n))) = polls n) \<and>
     (\<forall>t n. sends (snd (snd (prepareTransaction sdk t n))) = sends n \<and> polls (snd (snd (prepareTransaction sdk t n))) = polls n)"

text \<open>A handler adds at most so many to a counter.\<close>

definition adds :: "('n \<Rightarrow> nat) \<Rightarrow> nat \<Rightarrow> ('n net, 'a) svc \<Rightarrow> bool" where
  "adds c k m \<longleftrightarrow> (\<forall>s. c (remote (snd (m s))) \<le> c (remote s) + k)"

lemma adds_ret [intro, simp]: "adds c k (sret a)" "adds c k (sthrow e)" "adds c k (slift r)" "adds c k (srequire b e)"
    "adds c k (sleep sdk ms)"
  by (simp_all add: adds_def sret_def sthrow_def slift_def srequire_def)

lemma adds_bind: "adds c k m \<Longrightarrow> (\<And>a. adds c l (f a)) \<Longrightarrow> adds c (k + l) (sbind m f)"
  unfolding adds_def sbind_def
  by (auto split: sum.splits prod.splits) (metis add_leD1 add_le_mono1 le_trans snd_conv add.assoc trans_le_add1)+

lemma adds_catch: "adds c k m \<Longrightarrow> (\<And>e. adds c l (h e)) \<Longrightarrow> adds c (k + l) (scatch m h)"
  unfolding adds_def scatch_def
  by (auto split: sum.splits prod.splits) (metis add_leD1 add_le_mono1 le_trans snd_conv add.assoc trans_le_add1)+

lemma adds_rpc: "(\<And>n. c (snd (snd (f n))) \<le> c n + k) \<Longrightarrow> adds c k (rpc_call f)"
  by (auto simp: adds_def rpc_call_def split: prod.splits) (metis snd_conv)

lemma adds_retry:
  assumes "adds c k body"
  shows "adds c (n * k) (retry_loop sdk ok body failure i le n)"
proof (induction n arbitrary: i le)
  case (Suc n)
  have "adds c (0 + n * k) (sbind (sleep sdk d) (\<lambda>_. retry_loop sdk ok body failure (i + 1) (Some e) n))" for d e
    using Suc by (intro adds_bind) simp_all
  then have "adds c (k + n * k) (retry_loop sdk ok body failure i le (Suc n))"
    unfolding retry_loop.simps by (intro adds_catch assms) (auto simp only: add_0 adds_ret split: if_split)
  then show ?case by simp
qed (simp add: adds_def sthrow_def)

lemma adds_wait_loop:
  assumes "\<And>n. polls (snd (snd (getTransaction sdk hash n))) = polls n + 1"
  shows "polls (remote (snd (wait_loop sdk env hash start s)))
    \<le> polls (remote s) + nat ((TX_CONFIRM_TIMEOUT_MS env - (net_clock s - start) + 999) div 1000)"
  using assms
proof (induction sdk env hash start s rule: wait_loop.induct)
  case (1 sdk env hash start s)
  define left where "left x = nat ((TX_CONFIRM_TIMEOUT_MS env - (net_clock x - start) + 999) div 1000)" for x :: "'a net"
  obtain r t where r: "rpc_call (getTransaction sdk hash) s = (r, t)" by fastforce
  then obtain ms n where n: "getTransaction sdk hash (remote s) = (r, ms, n)"
    "t = s\<lparr>remote := n, net_clock := net_clock s + int ms\<rparr>" by (rule rpc_call_cases)
  have p: "polls (remote t) = polls (remote s) + 1" using 1(2) [of "remote s"] n by simp
  show ?case
  proof (cases "net_clock s - start < TX_CONFIRM_TIMEOUT_MS env")
    case False
    then show ?thesis by (subst wait_loop.simps) simp
  next
    case True
    then have one: "1 \<le> left s" by (simp add: left_def)
    have step: "left (snd (sleep sdk 1000 t)) + 1 \<le> left s" using True n by (simp add: left_def)
    show ?thesis
    proof (cases "\<exists>tx. r = Inr tx \<and> tr_status tx = NOT_FOUND")
      case True
      then obtain tx where tx: "r = Inr tx" "tr_status tx = NOT_FOUND" by blast
      have "polls (remote (snd (wait_loop sdk env hash start (snd (sleep sdk 1000 t)))))
          \<le> polls (remote t) + left (snd (sleep sdk 1000 t))"
        using 1(1) [OF \<open>net_clock s - start < _\<close> r [symmetric] tx(1)] tx 1(2) by (simp add: left_def)
      then show ?thesis
        using step p tx r \<open>net_clock s - start < _\<close> by (subst wait_loop.simps) (simp add: left_def [symmetric])
    next
      case False
      have "snd (wait_loop sdk env hash start s) = t"
        using False r \<open>net_clock s - start < _\<close>
        by (subst wait_loop.simps) (cases r; auto intro: tx_status.exhaust)
      then show ?thesis using one p by (simp add: left_def [symmetric])
    qed
  qed
qed

lemma adds_wait:
  assumes "metered sdk sends polls"
  shows "adds polls (nat ((TX_CONFIRM_TIMEOUT_MS env + 999) div 1000)) (waitForTransaction sdk env hash)"
  unfolding adds_def waitForTransaction_def
  using adds_wait_loop [of polls sdk hash env] assms
  by (metis add_diff_cancel_right' diff_self diff_zero metered_def)

lemma wait_loop_sends:
  assumes "\<And>n. sends (snd (snd (getTransaction sdk hash n))) = sends n"
  shows "sends (remote (snd (wait_loop sdk env hash start s))) = (sends (remote s) :: nat)"
  using assms
proof (induction sdk env hash start s rule: wait_loop.induct)
  case (1 sdk env hash start s)
  obtain r t where r: "rpc_call (getTransaction sdk hash) s = (r, t)" by fastforce
  then obtain ms n where n: "getTransaction sdk hash (remote s) = (r, ms, n)" "remote t = n"
    by (auto elim: rpc_call_cases)
  have p: "sends (remote t) = sends (remote s)" using 1(2) [of "remote s"] n by simp
  then show ?case
    using 1(1) [OF _ r [symmetric]] 1(2) r by (subst wait_loop.simps) (auto split: sum.split)
qed

lemma adds_send_once: "metered sdk sends polls \<Longrightarrow> adds sends 1 (send_once sdk x p)" "metered sdk sends polls \<Longrightarrow> adds polls 0 (send_once sdk x p)"
proof -
  assume m: "metered sdk sends polls"
  have "adds sends (1 + 0) (send_once sdk x p)" "adds polls (0 + 0) (send_once sdk x p)"
    unfolding send_once_def using m
    by (intro adds_bind adds_rpc; auto simp: metered_def split: send_status.split)+
  then show "adds sends 1 (send_once sdk x p)" "adds polls 0 (send_once sdk x p)" by simp_all
qed

lemma adds_build:
  assumes "metered sdk sends polls"
  shows "adds sends 0 (buildContractTransaction sdk env m args)" "adds polls 0 (buildContractTransaction sdk env m args)"
proof -
  have "adds sends (0 + (0 + 0)) (buildContractTransaction sdk env m args)" "adds polls (0 + (0 + 0)) (buildContractTransaction sdk env m args)"
    unfolding buildContractTransaction_def contract_tx_def using assms
    by (intro adds_bind adds_rpc; simp add: metered_def)+
  then show "adds sends 0 (buildContractTransaction sdk env m args)" "adds polls 0 (buildContractTransaction sdk env m args)" by simp_all
qed

lemma adds_call:
  assumes m: "metered sdk sends polls"
  shows "adds sends (MAX_SEND_ATTEMPTS env) (sendLoanManagerCall sdk env fname args purpose)"
    "adds polls (MAX_SEND_ATTEMPTS env * nat ((TX_CONFIRM_TIMEOUT_MS env + 999) div 1000))
       (sendLoanManagerCall sdk env fname args purpose)"
proof -
  have prep: "adds sends 0 (rpc_call (prepareTransaction sdk tx))" "adds polls 0 (rpc_call (prepareTransaction sdk tx))" for tx
    using m by (auto intro!: adds_rpc simp: metered_def)
  have send: "adds sends (MAX_SEND_ATTEMPTS env * 1) (sendPreparedTransaction sdk env x p)"
    "adds polls (MAX_SEND_ATTEMPTS env * 0) (sendPreparedTransaction sdk env x p)" for x p
    unfolding sendPreparedTransaction_def by (intro adds_retry adds_send_once [OF m])+
  have "adds sends 0 (waitForTransaction sdk env hash)" for hash
    using m wait_loop_sends [of sends sdk hash env] by (simp add: adds_def waitForTransaction_def metered_def)
  then have wait: "adds sends (MAX_SEND_ATTEMPTS env * 0) (waitForTransactionWithRetry sdk env hash p)"
    "adds polls (MAX_SEND_ATTEMPTS env * nat ((TX_CONFIRM_TIMEOUT_MS env + 999) div 1000)) (waitForTransactionWithRetry sdk env hash p)" for hash p
    unfolding waitForTransactionWithRetry_def by (intro adds_retry adds_wait [OF m]; simp)+
  have "adds sends (0 + (0 + (0 + (0 + (MAX_SEND_ATTEMPTS env * 1 + MAX_SEND_ATTEMPTS env * 0)))))
      (sendLoanManagerCall sdk env fname args purpose)"
    unfolding sendLoanManagerCall_def loan_manager_task_def
    by (intro adds_bind adds_build(1) [OF m] prep send wait adds_ret) (simp add: assertSorobanContractId_def)
  moreover have "adds polls (0 + (0 + (0 + (0 + (MAX_SEND_ATTEMPTS env * 0 +
      MAX_SEND_ATTEMPTS env * nat ((TX_CONFIRM_TIMEOUT_MS env + 999) div 1000))))))
      (sendLoanManagerCall sdk env fname args purpose)"
    unfolding sendLoanManagerCall_def loan_manager_task_def
    by (intro adds_bind adds_build(2) [OF m] prep send wait adds_ret) (simp add: assertSorobanContractId_def)
  ultimately show "adds sends (MAX_SEND_ATTEMPTS env) (sendLoanManagerCall sdk env fname args purpose)"
    "adds polls (MAX_SEND_ATTEMPTS env * nat ((TX_CONFIRM_TIMEOUT_MS env + 999) div 1000))
       (sendLoanManagerCall sdk env fname args purpose)" by simp_all
qed

lemma sendLoanManagerCall_Inr:
  assumes "sendLoanManagerCall sdk env fname args purpose s = (Inr tx, s')"
  shows "tr_status tx = SUCCESS \<and> (\<exists>signed sent n m. fst (sendTransaction sdk signed n) = Inr sent \<and>
    sr_status sent \<in> {PENDING, DUPLICATE} \<and> fst (getTransaction sdk (sr_hash sent) m) = Inr tx)"
proof -
  obtain signed sent p t u v where sp: "sendPreparedTransaction sdk env signed p t = (Inr sent, u)"
    and w: "waitForTransactionWithRetry sdk env (sr_hash sent) purpose u = (Inr tx, v)"
    using assms unfolding sendLoanManagerCall_def loan_manager_task_def by (auto simp: sbind_Inr_iff)
  from retry_loop_Inr [OF sp [unfolded sendPreparedTransaction_def]]
  obtain x where "send_once sdk signed p x = (Inr sent, u)" by (elim exE)
  note s = send_once_Inr [OF this]
  from retry_loop_Inr [OF w [unfolded waitForTransactionWithRetry_def]]
  obtain y where "wait_loop sdk env (sr_hash sent) (net_clock y) y = (Inr tx, v)"
    unfolding waitForTransaction_def by (elim exE)
  from wait_loop_Inr [OF this] s show ?thesis by blast
qed

section \<open>Example\<close>

text \<open>
  A server that counts: the first send must be tried again and the first poll finds nothing;
  then the transaction has succeeded, with both events of the loan manager for an account.
  An \<open>ScVal\<close> is its text.
\<close>

definition example_account :: string where
  "example_account = account_id (replicate 32 0)"

definition example_tx :: "nat \<Rightarrow> string TxResponse" where
  "example_tx polls = \<lparr>tr_status = (if polls = 0 then NOT_FOUND else SUCCESS), tr_ledger = 7,
     contractEventsXdr = Some [[\<lparr>ev_contractId = Some [], ev_topics = [''loanopen'', example_account], ev_data = []\<rparr>,
       \<lparr>ev_contractId = Some [], ev_topics = [''loanclos'', example_account], ev_data = []\<rparr>]]\<rparr>"

definition example_sdk :: "(nat \<times> nat, string) sdk" where
  "example_sdk =
     \<lparr>Keypair_fromSecret = (\<lambda>secret. Inr ''GOP''), StrKey_decodeContract = (\<lambda>c. Inr []), Address_toScVal = (\<lambda>a. Inr a),
      scU32 = int_str, scU64 = int_str, scI128 = int_str, scBool = (\<lambda>b. if b then ''true'' else ''false''), scSymbol = (\<lambda>t. t),
      toXDR = (\<lambda>v. v), fromScVal_topic = TStr, fromScVal_bigint = (\<lambda>v. 10000000),
      fromScVal_triple = (\<lambda>v. (10000000, 10653000, 604800)),
      Date_parse = (\<lambda>t. None), js_Number = (\<lambda>t. None), timer_lag = (\<lambda>n. 0), getAccount = (\<lambda>a n. (Inr 1, 5, n)),
      prepareTransaction = (\<lambda>t n. (Inr t, 5, n)), sign = (\<lambda>t k. tx_method t),
      sendTransaction = (\<lambda>x (i, j).
        (Inr \<lparr>sr_hash = ''h0'', sr_status = (if i = 0 then TRY_AGAIN_LATER else PENDING)\<rparr>, 5, (i + 1, j))),
      getTransaction = (\<lambda>h (i, j). (Inr (example_tx j), 5, (i, j + 1))),
      getEvents = (\<lambda>rq n. (Inr \<lparr>pg_events = [], pg_cursor = None\<rparr>, 5, n)),
      rpc_getLatestLedger = (\<lambda>n. (Inr \<lparr>ll_sequence = 7, ll_closeTime = []\<rparr>, 5, n)),
      simulate_bigint = (\<lambda>t n. (Inr (SimResult (Some 10000000)), 5, n)),
      simulate_number = (\<lambda>t n. (Inr (SimResult (Some 7)), 5, n)),
      simulate_bool = (\<lambda>t n. (Inr (SimResult None), 5, n)), simulate_pair = (\<lambda>t n. (Inr (SimResult None), 5, n)),
      simulate_loan = (\<lambda>t n. (Inr (SimResult None), 5, n)), simulate_premium = (\<lambda>t n. (Inr (SimResult None), 5, n)),
      simulate_risk = (\<lambda>t n. (Inr (SimResult None), 5, n))\<rparr>"

definition example_senv :: soroban_env where
  "example_senv = \<lparr>env_LOAN_MANAGER = None, env_USDC_SAC = None, env_PASSPHRASE = None, STELLAR_OPERATOR_SECRET = Some ''S'',
     TX_CONFIRM_TIMEOUT_MS = 60000, MAX_SEND_ATTEMPTS = 3\<rparr>"

definition example_net :: "(nat \<times> nat) net" where
  "example_net = \<lparr>remote = (0, 0), net_clock = 0\<rparr>"

lemma example_account_valid [simp]: "isValidStellarPublicKey example_account"
  by (simp add: example_account_def account_id_valid)

lemma example_metered: "metered example_sdk fst snd"
  by (auto simp: metered_def example_sdk_def)

lemma example_contract: "assertSorobanContractId (SOROBAN_LOAN_MANAGER example_senv) l s = (Inr (), s)"
proof -
  have "case SOROBAN_LOAN_MANAGER example_senv of [] \<Rightarrow> False
      | c # cs \<Rightarrow> c = CHR ''C'' \<and> length cs = 55 \<and> list_all (\<lambda>x. x \<in> set BASE32_ALPHABET) cs"
    by code_simp
  then show ?thesis by (simp add: assertSorobanContractId_def srequire_def sret_def)
qed

lemma example_task:
  "loan_manager_task example_sdk example_senv ''m'' [] ''p'' example_net =
     (Inr (example_tx 1), \<lparr>remote = (2, 2), net_clock = 3030\<rparr>)"
proof -
  have r: "isRetryableSendError (RuntimeError ''TRY_AGAIN_LATER h0'')" by code_simp
  have w: "wait_loop example_sdk example_senv ''h0'' 2020 \<lparr>remote = (2, 0), net_clock = 2020\<rparr> =
      (Inr (example_tx 1), \<lparr>remote = (2, 2), net_clock = 3030\<rparr>)"
    by (subst wait_loop.simps, subst wait_loop.simps)
      (simp add: rpc_call_def sleep_def smod_def example_sdk_def example_senv_def example_tx_def)
  have b: "buildContractTransaction example_sdk example_senv ''m'' [] example_net =
      (Inr \<lparr>tx_source = ''GOP'', tx_sequence = 1, tx_contract = SOROBAN_LOAN_MANAGER example_senv, tx_method = ''m'', tx_args = [],
         tx_passphrase = NETWORK_PASSPHRASE example_senv, tx_timeout = 30\<rparr>, \<lparr>remote = (0, 0), net_clock = 5\<rparr>)"
    by (simp add: buildContractTransaction_def contract_tx_def svc_simps operatorKeypair_def operatorSecret_def
        example_sdk_def example_senv_def example_net_def rbind_def)
  have s: "sendPreparedTransaction example_sdk example_senv ''m'' ''p:send'' \<lparr>remote = (0, 0), net_clock = 10\<rparr> =
      (Inr \<lparr>sr_hash = ''h0'', sr_status = PENDING\<rparr>, \<lparr>remote = (2, 0), net_clock = 2020\<rparr>)"
    using r by (simp add: sendPreparedTransaction_def numeral_3_eq_3 example_senv_def svc_simps send_once_def example_sdk_def
        sleep_def sbind_def [of "smod _"])
  have c: "waitForTransactionWithRetry example_sdk example_senv ''h0'' ''p'' \<lparr>remote = (2, 0), net_clock = 2020\<rparr> =
      (Inr (example_tx 1), \<lparr>remote = (2, 2), net_clock = 3030\<rparr>)"
    using w by (simp add: waitForTransactionWithRetry_def numeral_3_eq_3 example_senv_def svc_simps waitForTransaction_def)
  have k: "operatorKeypair example_sdk example_senv = Inr ''GOP''" "\<And>t n. prepareTransaction example_sdk t n = (Inr t, 5, n)"
    "\<And>t x. sign example_sdk t x = tx_method t"
    by (simp_all add: operatorKeypair_def operatorSecret_def rbind_def example_sdk_def example_senv_def)
  show ?thesis
    using s c by (simp add: loan_manager_task_def k svc_simps b sbind_def [of "buildContractTransaction _ _ _ _"]
        sbind_def [of "sendPreparedTransaction _ _ _ _"])
qed

lemma example_call:
  "sendLoanManagerCall example_sdk example_senv ''m'' [] ''p'' example_net =
     (Inr (example_tx 1), \<lparr>remote = (2, 2), net_clock = 3030\<rparr>)"
  by (simp add: sendLoanManagerCall_def sbind_def [of "assertSorobanContractId _ _"] example_contract example_task)

section \<open>Properties\<close>

text \<open>
  C27. A write ends: it sends one signed transaction at most \<open>MAX_SEND_ATTEMPTS\<close> times and polls
  at most once a second for the confirmation time of each attempt, whatever the server
  answers. When it returns, the transaction the server accepted has succeeded.
\<close>

theorem sendLoanManagerCall_bounded:
  assumes "metered sdk sends polls" and "sendLoanManagerCall sdk env fname args purpose s = (r, s')"
  shows "sends (remote s') \<le> sends (remote s) + MAX_SEND_ATTEMPTS env \<and>
    polls (remote s') \<le> polls (remote s) + MAX_SEND_ATTEMPTS env * nat ((TX_CONFIRM_TIMEOUT_MS env + 999) div 1000) \<and>
    (\<forall>tx. r = Inr tx \<longrightarrow> tr_status tx = SUCCESS \<and>
       (\<exists>signed sent n m. fst (sendTransaction sdk signed n) = Inr sent \<and> sr_status sent \<in> {PENDING, DUPLICATE} \<and>
          fst (getTransaction sdk (sr_hash sent) m) = Inr tx))"
  using adds_call [OF assms(1), of env fname args purpose] sendLoanManagerCall_Inr assms(2)
  unfolding adds_def by (metis snd_conv)

theorem sendLoanManagerCall_bounded_witness:
  "metered example_sdk fst snd \<and>
   fst (sendLoanManagerCall example_sdk example_senv ''m'' [] ''p'' example_net) = Inr (example_tx 1) \<and>
   tr_status (example_tx 1) = SUCCESS \<and>
   fst (remote (snd (sendLoanManagerCall example_sdk example_senv ''m'' [] ''p'' example_net))) \<le> 3"
  using sendLoanManagerCall_bounded [OF example_metered example_call] example_metered
  unfolding example_call by (simp add: example_net_def example_senv_def)

end
