(* ===== verification/Soroban_Gateway.thy ===== *)
theory Soroban_Gateway
  imports Soroban_Client Js_Number
begin

text \<open>
  The gateway to the loan manager on Soroban,
  \<open>backend/src/infrastructure/blockchain/soroban-blockchain.gateway.ts\<close>: the start-up check
  of the token decimals, the reads by simulation, the writes through the client, the event
  queries with their cursor loop, and the checks of a transaction by its hash. Its
  operations, named with the prefix \<open>soroban\<close>, are put together as the port of \<open>Service\<close>
  at the end.

  The amount of an offer comes from the backend as text. The cursor loop may not end with an
  arbitrary server, so it is a partial function; not returning is \<open>None\<close>.
\<close>

section \<open>Helpers\<close>

definition nowPlus :: "int \<Rightarrow> 'n net \<Rightarrow> int" where
  "nowPlus seconds s = net_clock s div 1000 + seconds"

definition eventTimestamp :: "('n, 'v) sdk \<Rightarrow> string \<Rightarrow> 'n net \<Rightarrow> int" where
  "eventTimestamp sdk closedAtText s =
     (case Date_parse sdk closedAtText of Some parsed \<Rightarrow> parsed div 1000 | None \<Rightarrow> net_clock s div 1000)"

definition eventTopic :: "('n, 'v) sdk \<Rightarrow> string \<Rightarrow> string" where
  "eventTopic sdk value = toXDR sdk (scSymbol sdk value)"

definition events_request :: "soroban_env \<Rightarrow> int \<Rightarrow> int \<Rightarrow> string list list \<Rightarrow> string option \<Rightarrow> EventsRequest" where
  "events_request env startLedger endLedger topics cursor =
     \<lparr>rq_contractId = SOROBAN_LOAN_MANAGER env, rq_topics = topics,
      rq_range = (case cursor of Some c \<Rightarrow> Cursor c | None \<Rightarrow> Ledgers startLedger endLedger), rq_limit = 1000\<rparr>"

text \<open>The body of the loop pushes the page; the cursor is null or not empty when it is tested.\<close>

partial_function (option) events_loop ::
    "('n, 'v) sdk \<Rightarrow> soroban_env \<Rightarrow> int \<Rightarrow> int \<Rightarrow> string list list \<Rightarrow> string option \<Rightarrow> 'v EventResponse list
      \<Rightarrow> 'n net \<Rightarrow> ((http_error, 'v EventResponse list) result \<times> 'n net) option" where
  "events_loop sdk env startLedger endLedger topics cursor events s =
     (case rpc_call (getEvents sdk (events_request env startLedger endLedger topics cursor)) s of
        (Inl e, s') \<Rightarrow> Some (Inl e, s')
      | (Inr response, s') \<Rightarrow>
          if falsy_str (pg_cursor response) \<or> pg_cursor response = cursor
          then Some (Inr (events @ pg_events response), s')
          else if length (pg_events response) = 1000
          then events_loop sdk env startLedger endLedger topics (pg_cursor response) (events @ pg_events response) s'
          else Some (Inr (events @ pg_events response), s'))"

definition getContractEvents ::
    "('n, 'v) sdk \<Rightarrow> soroban_env \<Rightarrow> int \<Rightarrow> int \<Rightarrow> string list list \<Rightarrow> 'n net
      \<Rightarrow> ((http_error, 'v EventResponse list) result \<times> 'n net) option" where
  "getContractEvents sdk env startLedger endLedger topics s = events_loop sdk env startLedger endLedger topics None [] s"

definition normalizeLoan :: "SorobanLoan \<Rightarrow> ChainLoan" where
  "normalizeLoan loan =
     \<lparr>cl_principal = nullish (sl_principal loan) 0,
      cl_amountDue = nullish (orelse (sl_amount_due loan) (sl_amountDue loan)) 0,
      cl_start = nullish (sl_start loan) 0,
      cl_due = nullish (sl_due loan) 0,
      cl_feeBps = nullish (orelse (sl_fee_bps loan) (sl_feeBps loan)) 0,
      cl_gracePeriod = js_num (nullish (orelse (sl_grace_period loan) (sl_gracePeriod loan)) 0),
      cl_active = nullish (sl_active loan) False\<rparr>"

definition no_loan :: SorobanLoan where
  "no_loan = \<lparr>sl_principal = None, sl_amount_due = None, sl_amountDue = None, sl_start = None, sl_due = None,
     sl_fee_bps = None, sl_feeBps = None, sl_grace_period = None, sl_gracePeriod = None, sl_active = None\<rparr>"

definition normalizePremium :: "SorobanPremium \<Rightarrow> ChainPremium" where
  "normalizePremium premium =
     \<lparr>premiumRatePerSecWad = nullish (orelse (sp_premium_rate_per_sec_wad premium) (sp_premiumRatePerSecWad premium)) 0,
      lateRatePerSecWad = nullish (orelse (sp_late_rate_per_sec_wad premium) (sp_lateRatePerSecWad premium)) 0\<rparr>"

definition no_premium :: SorobanPremium where
  "no_premium = \<lparr>sp_premium_rate_per_sec_wad = None, sp_premiumRatePerSecWad = None, sp_late_rate_per_sec_wad = None,
     sp_lateRatePerSecWad = None\<rparr>"

section \<open>The check of the decimals\<close>

text \<open>
  What start-up does: it goes on verified, it goes on with a re-check scheduled, or it throws.
  A re-check ends the process, ends verified, or schedules the next one.
\<close>

datatype boot = Verified_decimals | Recheck_scheduled int

datatype recheck = Recheck_ok | Process_exit | Recheck_again int

definition recheck_delay :: "int \<Rightarrow> int" where
  "recheck_delay attempt = min (60000 * attempt) 600000"

definition onModuleInit :: "('n, 'v) sdk \<Rightarrow> soroban_env \<Rightarrow> string option \<Rightarrow> ('n net, boot) svc" where
  "onModuleInit sdk env gateway =
     sbind (scatch (sbind (simulateUsdcSacDecimals sdk env) (\<lambda>d. sret (Some d))) (\<lambda>_. sret None)) (\<lambda>onChain.
     case onChain of
       None \<Rightarrow> sret (Recheck_scheduled (recheck_delay 1))
     | Some d \<Rightarrow>
         if d \<noteq> int (TOKEN_DECIMALS gateway)
         then sthrow (RuntimeError (''SAC '' @ SOROBAN_USDC_SAC env @ '' tiene decimals()='' @ int_str d))
         else sret Verified_decimals)"

definition recheck_timer :: "('n, 'v) sdk \<Rightarrow> soroban_env \<Rightarrow> string option \<Rightarrow> int \<Rightarrow> ('n net, recheck) svc" where
  "recheck_timer sdk env gateway attempt =
     scatch
       (sbind (simulateUsdcSacDecimals sdk env) (\<lambda>d.
        sret (if d \<noteq> int (TOKEN_DECIMALS gateway) then Process_exit else Recheck_ok)))
       (\<lambda>_. sret (Recheck_again (recheck_delay (attempt + 1))))"

section \<open>Reads\<close>

definition soroban_readCreditLimitOnChain :: "('n, 'v) sdk \<Rightarrow> soroban_env \<Rightarrow> string \<Rightarrow> ('n net, int) svc" where
  "soroban_readCreditLimitOnChain sdk env borrower =
     sbind (assertStellarAccount borrower) (\<lambda>_.
     sbind (slift (Address_toScVal sdk borrower)) (\<lambda>a.
     sbind (simulateLoanManagerCall sdk env (simulate_bigint sdk) ''credit_limit'' [a]) (\<lambda>value.
     sret (nullish value 0))))"

definition soroban_readNextBorrowTime :: "('n, 'v) sdk \<Rightarrow> soroban_env \<Rightarrow> string \<Rightarrow> ('n net, int) svc" where
  "soroban_readNextBorrowTime sdk env borrower =
     sbind (assertStellarAccount borrower) (\<lambda>_.
     sbind (slift (Address_toScVal sdk borrower)) (\<lambda>a.
     sbind (simulateLoanManagerCall sdk env (simulate_bigint sdk) ''next_borrow_time'' [a]) (\<lambda>value.
     sret (js_num (nullish value 0)))))"

text \<open>The reads that answer null instead of throwing.\<close>

definition try_read :: "('n net, 'a option) svc \<Rightarrow> ('n net, 'a option) svc" where
  "try_read m = scatch m (\<lambda>_. sret None)"

definition soroban_previewLoanWithLate :: "('n, 'v) sdk \<Rightarrow> soroban_env \<Rightarrow> string \<Rightarrow> ('n net, int option) svc" where
  "soroban_previewLoanWithLate sdk env borrower =
     sbind (assertStellarAccount borrower) (\<lambda>_.
     try_read (
       sbind (slift (Address_toScVal sdk borrower)) (\<lambda>a.
       sbind (simulateLoanManagerCall sdk env (simulate_pair sdk) ''preview_loan_with_late'' [a]) (\<lambda>result.
       sret (Option.bind result snd)))))"

definition soroban_readLoanFull :: "('n, 'v) sdk \<Rightarrow> soroban_env \<Rightarrow> string \<Rightarrow> ('n net, ChainLoan option) svc" where
  "soroban_readLoanFull sdk env borrower =
     sbind (assertStellarAccount borrower) (\<lambda>_.
     try_read (
       sbind (slift (Address_toScVal sdk borrower)) (\<lambda>a.
       sbind (simulateLoanManagerCall sdk env (simulate_loan sdk) ''get_loan'' [a]) (\<lambda>result.
       sret (Some (normalizeLoan (nullish result no_loan)))))))"

text \<open>
  \<open>readLoanOnChain\<close> keeps three fields of the answer of \<open>readLoanFull\<close>; the port gives both the
  same type.
\<close>

definition soroban_readLoanOnChain :: "('n, 'v) sdk \<Rightarrow> soroban_env \<Rightarrow> string \<Rightarrow> ('n net, ChainLoan option) svc" where
  "soroban_readLoanOnChain sdk env borrower = soroban_readLoanFull sdk env borrower"

definition soroban_readPremium :: "('n, 'v) sdk \<Rightarrow> soroban_env \<Rightarrow> string \<Rightarrow> ('n net, ChainPremium option) svc" where
  "soroban_readPremium sdk env borrower =
     sbind (assertStellarAccount borrower) (\<lambda>_.
     try_read (
       sbind (slift (Address_toScVal sdk borrower)) (\<lambda>a.
       sbind (simulateLoanManagerCall sdk env (simulate_premium sdk) ''get_premium'' [a]) (\<lambda>result.
       sret (Some (normalizePremium (nullish result no_premium)))))))"

definition soroban_readIsDefaulted :: "('n, 'v) sdk \<Rightarrow> soroban_env \<Rightarrow> string \<Rightarrow> ('n net, bool option) svc" where
  "soroban_readIsDefaulted sdk env borrower =
     sbind (assertStellarAccount borrower) (\<lambda>_.
     try_read (
       sbind (slift (Address_toScVal sdk borrower)) (\<lambda>a.
       simulateLoanManagerCall sdk env (simulate_bool sdk) ''is_defaulted'' [a])))"

definition soroban_getChainBlockTimestamp :: "('n, 'v) sdk \<Rightarrow> ('n net, int option) svc" where
  "soroban_getChainBlockTimestamp sdk =
     try_read (
       sbind (rpc_call (rpc_getLatestLedger sdk)) (\<lambda>ledger.
       case js_Number sdk (ll_closeTime ledger) of
         Some numeric \<Rightarrow> sret (Some numeric)
       | None \<Rightarrow> sret (map_option (\<lambda>parsed. parsed div 1000) (Date_parse sdk (ll_closeTime ledger)))))"

definition soroban_getLatestLedger :: "('n, 'v) sdk \<Rightarrow> ('n net, int) svc" where
  "soroban_getLatestLedger sdk = sbind (rpc_call (rpc_getLatestLedger sdk)) (\<lambda>ledger. sret (ll_sequence ledger))"

text \<open>Without a result the field access of the source throws, which is caught.\<close>

definition soroban_readUserRisk :: "('n, 'v) sdk \<Rightarrow> soroban_env \<Rightarrow> string \<Rightarrow> ('n net, ChainRisk option) svc" where
  "soroban_readUserRisk sdk env borrower =
     sbind (assertStellarAccount borrower) (\<lambda>_.
     try_read (
       sbind (slift (Address_toScVal sdk borrower)) (\<lambda>a.
       sbind (simulateLoanManagerCall sdk env (simulate_risk sdk) ''get_user_risk'' [a]) (\<lambda>result.
       case result of
         None \<Rightarrow> sthrow (RuntimeError ''TypeError'')
       | Some r \<Rightarrow>
           sret (Some \<lparr>ur_score = nullish (su_score r) 0,
                       ur_validUntil = js_num (nullish (orelse (su_valid_until r) (su_validUntil r)) 0),
                       ur_limit = nullish (su_limit r) 0\<rparr>)))))"

section \<open>Writes\<close>

definition soroban_giveCreditScoreAndLimit ::
    "('n, 'v) sdk \<Rightarrow> soroban_env \<Rightarrow> string \<Rightarrow> int \<Rightarrow> int \<Rightarrow> bool \<Rightarrow> int option \<Rightarrow> ('n net, nat) svc" where
  "soroban_giveCreditScoreAndLimit sdk env borrower sc limit kycOk validUntil =
     sbind (assertStellarAccount borrower) (\<lambda>_.
     sbind (srequire (\<not> (sc < 1 \<or> sc > 1000))
       (RuntimeError (''Invalid score: '' @ int_str sc @ ''. Must be between 1 and 1000.''))) (\<lambda>_.
     sbind (sget (nowPlus (30 * 24 * 60 * 60))) (\<lambda>later.
     sbind (srequire (\<not> limit < 0) (RuntimeError (''Invalid limit: '' @ int_str limit))) (\<lambda>_.
     sbind (slift (Address_toScVal sdk borrower)) (\<lambda>a.
     sbind (sendLoanManagerCall sdk env ''set_user_risk''
       [a, scU32 sdk sc, scBool sdk kycOk, scU64 sdk (nullish validUntil later), scI128 sdk limit] ''set_user_risk'') (\<lambda>_.
     sret 200))))))"

definition soroban_createLoanOfferBackend ::
    "('n, 'v) sdk \<Rightarrow> soroban_env \<Rightarrow> string option \<Rightarrow> string \<Rightarrow> string \<Rightarrow> int \<Rightarrow> int \<Rightarrow> ('n net, LoanOffer) svc" where
  "soroban_createLoanOfferBackend sdk env gateway amountHuman borrower tenor fee =
     sbind (assertStellarAccount borrower) (\<lambda>_.
     sbind (srequire (\<not> tenor \<le> 0) (RuntimeError (''Invalid tenorDays: '' @ int_str tenor))) (\<lambda>_.
     sbind (srequire (\<not> fee \<le> 0) (RuntimeError (''Invalid feeBps: '' @ int_str fee))) (\<lambda>_.
     sbind (slift (toUnits (Str amountHuman) (TOKEN_DECIMALS gateway))) (\<lambda>maxAmount.
     sbind (srequire (\<not> maxAmount \<le> 0) (RuntimeError (''Invalid amountHuman: '' @ amountHuman))) (\<lambda>_.
     sbind (sget (nowPlus (3 * 24 * 60 * 60))) (\<lambda>validUntil.
     sbind (slift (Address_toScVal sdk borrower)) (\<lambda>a.
     sbind (sendLoanManagerCall sdk env ''set_loan_offer''
       [a, scU32 sdk tenor, scU32 sdk fee, scU64 sdk validUntil, scI128 sdk maxAmount] ''set_loan_offer'') (\<lambda>tx.
     sret \<lparr>of_ok = True, of_feeBps = fee, of_tenorDays = tenor, of_maxAmountBase = int_str maxAmount,
           of_minedBlock = tr_ledger tx\<rparr>))))))))"

definition soroban_setPremiumConfig :: "('n, 'v) sdk \<Rightarrow> soroban_env \<Rightarrow> string \<Rightarrow> int \<Rightarrow> ('n net, unit) svc" where
  "soroban_setPremiumConfig sdk env borrower lateRate =
     sbind (assertStellarAccount borrower) (\<lambda>_.
     sbind (srequire (\<not> lateRate < 0) (RuntimeError (''Invalid lateRatePerSecWad: '' @ int_str lateRate))) (\<lambda>_.
     sbind (slift (Address_toScVal sdk borrower)) (\<lambda>a.
     sbind (sendLoanManagerCall sdk env ''set_premium_config'' [a, scI128 sdk 0, scI128 sdk lateRate] ''set_premium_config'') (\<lambda>_.
     sret ()))))"

definition soroban_accrueLate :: "('n, 'v) sdk \<Rightarrow> soroban_env \<Rightarrow> string \<Rightarrow> ('n net, unit) svc" where
  "soroban_accrueLate sdk env borrower =
     sbind (assertStellarAccount borrower) (\<lambda>_.
     sbind (slift (Address_toScVal sdk borrower)) (\<lambda>a.
     sbind (sendLoanManagerCall sdk env ''accrue_late'' [a] ''accrue_late'') (\<lambda>_. sret ())))"

section \<open>Events\<close>

text \<open>\<open>String(topics[1])\<close>.\<close>

definition topic_text :: "('n, 'v) sdk \<Rightarrow> 'v list \<Rightarrow> nat \<Rightarrow> string" where
  "topic_text sdk ts i =
     (if i < length ts then case fromScVal_topic sdk (ts ! i) of TStr t \<Rightarrow> t | TOther t \<Rightarrow> t else ''undefined'')"

definition opened_event :: "('n, 'v) sdk \<Rightarrow> 'n net \<Rightarrow> 'v EventResponse \<Rightarrow> ChainLoanOpenedEvent" where
  "opened_event sdk s event =
     (let (p, due_amount, due_at) = fromScVal_triple sdk (er_value event)
      in \<lparr>oe_borrower = topic_text sdk (er_topic event) 1, oe_principal = p, oe_amountDue = due_amount,
          oe_due = js_num due_at, oe_feeBps = (if p > 0 then js_num (big_div ((due_amount - p) * 10000) p) else 0),
          oe_ledger = er_ledger event, oe_txHash = er_txHash event,
          oe_timestamp = eventTimestamp sdk (ledgerClosedAt event) s\<rparr>)"

definition soroban_getLoanOpenedEvents ::
    "('n, 'v) sdk \<Rightarrow> soroban_env \<Rightarrow> int \<Rightarrow> int \<Rightarrow> 'n net \<Rightarrow> ((http_error, ChainLoanOpenedEvent list) result \<times> 'n net) option" where
  "soroban_getLoanOpenedEvents sdk env fromLedger toLedger s =
     (case getContractEvents sdk env fromLedger toLedger [[eventTopic sdk ''loanopen'']] s of
        None \<Rightarrow> None
      | Some (Inl e, s') \<Rightarrow> Some (Inl e, s')
      | Some (Inr events, s') \<Rightarrow> Some (Inr (map (opened_event sdk s') (filter inSuccessfulContractCall events)), s'))"

text \<open>The stable sort by descending time and ledger: the first of it is the match.\<close>

definition closed_matches :: "('n, 'v) sdk \<Rightarrow> 'n net \<Rightarrow> int \<Rightarrow> 'v EventResponse list \<Rightarrow> ('v EventResponse \<times> int) list" where
  "closed_matches sdk s loanStartUnix events =
     sort_key (\<lambda>(event, timestamp). - timestamp)
       (sort_key (\<lambda>(event, timestamp). - er_ledger event)
         (filter (\<lambda>(event, timestamp). timestamp \<ge> loanStartUnix)
           (map (\<lambda>event. (event, eventTimestamp sdk (ledgerClosedAt event) s)) (filter inSuccessfulContractCall events))))"

definition soroban_findLoanClosedEvent ::
    "('n, 'v) sdk \<Rightarrow> soroban_env \<Rightarrow> string \<Rightarrow> int \<Rightarrow> int \<Rightarrow> 'n net
      \<Rightarrow> ((http_error, ChainLoanClosedEvent option) result \<times> 'n net) option" where
  "soroban_findLoanClosedEvent sdk env borrower loanStartAt currentLedger s =
     (if \<not> isValidStellarPublicKey borrower then Some (Inl (RuntimeError (''Invalid Stellar account: '' @ borrower)), s)
      else case Address_toScVal sdk borrower of
        Inl e \<Rightarrow> Some (Inl e, s)
      | Inr a \<Rightarrow>
          (case getContractEvents sdk env (max 0 (currentLedger - 100000)) currentLedger
                 [[eventTopic sdk ''loanclos''], [toXDR sdk a]] s of
             None \<Rightarrow> None
           | Some (Inl e, s') \<Rightarrow> Some (Inl e, s')
           | Some (Inr events, s') \<Rightarrow>
               Some (Inr (case closed_matches sdk s' (loanStartAt div 1000) events of
                   [] \<Rightarrow> None
                 | (event, timestamp) # _ \<Rightarrow>
                     Some \<lparr>ce_borrower = borrower, ce_amountPaid = fromScVal_bigint sdk (er_value event),
                           ce_txHash = er_txHash event, ce_ledger = er_ledger event, ce_timestamp = timestamp\<rparr>), s')))"

section \<open>Transactions by hash\<close>

text \<open>Up to ten polls, one second apart; the argument counts the polls left.\<close>

fun poll_tx :: "('n, 'v) sdk \<Rightarrow> string \<Rightarrow> nat \<Rightarrow> ('n net, 'v TxResponse option) svc" where
  "poll_tx sdk txHash 0 = sret None"
| "poll_tx sdk txHash (Suc left) =
     sbind (rpc_call (getTransaction sdk txHash)) (\<lambda>tx.
       if tr_status tx \<noteq> NOT_FOUND \<or> left = 0 then sret (Some tx)
       else sbind (sleep sdk 1000) (\<lambda>_. poll_tx sdk txHash left))"

definition topic_is :: "('n, 'v) sdk \<Rightarrow> 'v list \<Rightarrow> nat \<Rightarrow> string \<Rightarrow> bool" where
  "topic_is sdk ts i text \<longleftrightarrow> i < length ts \<and> fromScVal_topic sdk (ts ! i) = TStr text"

text \<open>The nested loops over the groups of events, as one loop over their concatenation.\<close>

fun scan_events :: "('n, 'v) sdk \<Rightarrow> soroban_env \<Rightarrow> string \<Rightarrow> string \<Rightarrow> 'v ContractEvent list
    \<Rightarrow> (http_error, 'v ContractEvent option) result" where
  "scan_events sdk env name borrower [] = Inr None"
| "scan_events sdk env name borrower (event # events) =
     rbind (isLoanManagerContractEvent sdk env event) (\<lambda>ours.
       if ours \<and> topic_is sdk (ev_topics event) 0 name \<and> topic_is sdk (ev_topics event) 1 borrower
       then Inr (Some event)
       else scan_events sdk env name borrower events)"

definition tx_events :: "'v TxResponse \<Rightarrow> 'v ContractEvent list" where
  "tx_events tx = concat (nullish (contractEventsXdr tx) [])"

definition soroban_verifyLoanOpenedByTxHash :: "('n, 'v) sdk \<Rightarrow> soroban_env \<Rightarrow> string \<Rightarrow> string \<Rightarrow> ('n net, bool) svc" where
  "soroban_verifyLoanOpenedByTxHash sdk env txHash borrower =
     sbind (assertStellarAccount borrower) (\<lambda>_.
     sbind (poll_tx sdk txHash 10) (\<lambda>tx.
     case tx of
       None \<Rightarrow> sret False
     | Some tx \<Rightarrow>
         if tr_status tx \<noteq> SUCCESS then sret False
         else sbind (slift (scan_events sdk env ''loanopen'' borrower (tx_events tx))) (\<lambda>found. sret (found \<noteq> None))))"

definition soroban_verifyRepayByTxHash :: "('n, 'v) sdk \<Rightarrow> soroban_env \<Rightarrow> string \<Rightarrow> string \<Rightarrow> ('n net, repay_check) svc" where
  "soroban_verifyRepayByTxHash sdk env txHash borrower =
     sbind (assertStellarAccount borrower) (\<lambda>_.
     scatch
       (sbind (poll_tx sdk txHash 10) (\<lambda>tx.
        case tx of
          None \<Rightarrow> sret (Unverified NoReceipt)
        | Some tx \<Rightarrow>
            (case tr_status tx of
               NOT_FOUND \<Rightarrow> sret (Unverified NoReceipt)
             | FAILED \<Rightarrow> sret (Unverified Reverted)
             | SUCCESS \<Rightarrow>
                 sbind (slift (scan_events sdk env ''loanclos'' borrower (tx_events tx))) (\<lambda>found.
                 sret (case found of
                     Some event \<Rightarrow> Verified (Some (fromScVal_bigint sdk (ev_data event)))
                   | None \<Rightarrow> Unverified NoMatch)))))
       (\<lambda>_. sret (Unverified RpcError)))"

section \<open>The port\<close>

text \<open>
  The operations as the port of \<open>Service\<close>, the network being its chain. A read of the port
  answers and leaves the chain as it is, so the time it takes is dropped; a query of events
  that never returns has no answer in the code and \<open>no_answer\<close> here.
\<close>

definition port_read :: "('n net, 'a) svc \<Rightarrow> 'n net \<Rightarrow> (http_error, 'a) result" where
  "port_read m s = fst (m s)"

definition no_answer :: http_error where "no_answer = RuntimeError ''no answer''"

definition port_query :: "('n net \<Rightarrow> ((http_error, 'a) result \<times> 'n net) option) \<Rightarrow> 'n net \<Rightarrow> (http_error, 'a) result" where
  "port_query q s = (case q s of Some (r, s') \<Rightarrow> r | None \<Rightarrow> Inl no_answer)"

definition sorobanGateway :: "('n, 'v) sdk \<Rightarrow> soroban_env \<Rightarrow> string option \<Rightarrow> 'n net BlockchainGatewayPort" where
  "sorobanGateway sdk env gateway =
     \<lparr>readCreditLimitOnChain = (\<lambda>w. port_read (soroban_readCreditLimitOnChain sdk env w)),
      readNextBorrowTime = Some (\<lambda>w. port_read (soroban_readNextBorrowTime sdk env w)),
      giveCreditScoreAndLimit = (\<lambda>w sc lim. soroban_giveCreditScoreAndLimit sdk env w sc lim True None),
      createLoanOfferBackend = soroban_createLoanOfferBackend sdk env gateway,
      setPremiumConfig = soroban_setPremiumConfig sdk env,
      previewLoanWithLate = (\<lambda>w. port_read (soroban_previewLoanWithLate sdk env w)),
      readLoanFull = (\<lambda>w. port_read (soroban_readLoanFull sdk env w)),
      readLoanOnChain = (\<lambda>w. port_read (soroban_readLoanOnChain sdk env w)),
      readPremium = (\<lambda>w. port_read (soroban_readPremium sdk env w)),
      readIsDefaulted = (\<lambda>w. port_read (soroban_readIsDefaulted sdk env w)),
      getChainBlockTimestamp = port_read (soroban_getChainBlockTimestamp sdk),
      getLatestLedger = port_read (soroban_getLatestLedger sdk),
      readUserRisk = (\<lambda>w. port_read (soroban_readUserRisk sdk env w)),
      getLoanOpenedEvents = (\<lambda>a b. port_query (soroban_getLoanOpenedEvents sdk env a b)),
      findLoanClosedEvent = (\<lambda>w t l. port_query (soroban_findLoanClosedEvent sdk env w t l)),
      verifyLoanOpenedByTxHash = (\<lambda>h w. port_read (soroban_verifyLoanOpenedByTxHash sdk env h w)),
      accrueLate = soroban_accrueLate sdk env,
      verifyRepayByTxHash = (\<lambda>h w. port_read (soroban_verifyRepayByTxHash sdk env h w))\<rparr>"

lemma port_readD: "port_read m s = r \<Longrightarrow> \<exists>t. m s = (r, t)"
  by (cases "m s") (simp add: port_read_def)

section \<open>Lemmas\<close>

lemma poll_tx_Some:
  "poll_tx sdk h n s = (Inr (Some tx), s') \<Longrightarrow> \<exists>m. fst (getTransaction sdk h m) = Inr tx"
proof (induction n arbitrary: s)
  case (Suc n)
  show ?case
  proof (cases "getTransaction sdk h (remote s)")
    case (fields r ms m)
    then show ?thesis
      using Suc by (cases r) (auto simp: svc_simps sbind_def [of "sleep _ _"] sleep_def smod_def split: if_splits intro!: exI [of _ "remote s"])
  qed
qed (simp add: svc_simps)

lemma scan_events_Some:
  "scan_events sdk env name borrower evs = Inr (Some e) \<Longrightarrow> e \<in> set evs \<and> isLoanManagerContractEvent sdk env e = Inr True \<and>
     topic_is sdk (ev_topics e) 0 name \<and> topic_is sdk (ev_topics e) 1 borrower"
  by (induction evs) (auto simp: rbind_Inr_iff split: if_splits)

text \<open>
  A transaction of the ledger that succeeded and in which the loan manager published an event
  of the name for the account.
\<close>

definition ledger_event :: "('n, 'v) sdk \<Rightarrow> soroban_env \<Rightarrow> string \<Rightarrow> string \<Rightarrow> string \<Rightarrow> 'v ContractEvent \<Rightarrow> bool" where
  "ledger_event sdk env name txHash account event \<longleftrightarrow>
     (\<exists>n tx. fst (getTransaction sdk txHash n) = Inr tx \<and> tr_status tx = SUCCESS \<and> event \<in> set (tx_events tx)) \<and>
     isLoanManagerContractEvent sdk env event = Inr True \<and>
     topic_is sdk (ev_topics event) 0 name \<and> topic_is sdk (ev_topics event) 1 account"

lemma sbind_account [svc_simps]:
  "sbind (assertStellarAccount w) g s =
     (if isValidStellarPublicKey w then g () s else (Inl (RuntimeError (''Invalid Stellar account: '' @ w)), s))"
  by (simp only: assertStellarAccount_def sbind_require)

lemma verifyLoanOpened_ledger:
  assumes "soroban_verifyLoanOpenedByTxHash sdk env h w s = (Inr True, s')"
  shows "isValidStellarPublicKey w \<and> (\<exists>e. ledger_event sdk env ''loanopen'' h w e)"
proof -
  from assms have v: "isValidStellarPublicKey w"
    by (auto simp: soroban_verifyLoanOpenedByTxHash_def svc_simps split: if_splits)
  with assms obtain tx t where t: "poll_tx sdk h 10 s = (Inr (Some tx), t)" "tr_status tx = SUCCESS"
    "sbind (slift (scan_events sdk env ''loanopen'' w (tx_events tx))) (\<lambda>found. sret (found \<noteq> None)) t = (Inr True, s')"
    by (auto simp: soroban_verifyLoanOpenedByTxHash_def sbind_account sbind_Inr_iff [of "poll_tx _ _ _"] svc_eval
        split: option.splits if_splits)
  then obtain e where e: "scan_events sdk env ''loanopen'' w (tx_events tx) = Inr (Some e)"
    by (auto simp: svc_simps split: sum.splits)
  from poll_tx_Some [OF t(1)] scan_events_Some [OF e] t(2) v show ?thesis
    unfolding ledger_event_def by blast
qed

lemma verifyRepay_ledger:
  assumes "soroban_verifyRepayByTxHash sdk env h w s = (Inr (Verified p), s')"
  shows "isValidStellarPublicKey w \<and> (\<exists>e. ledger_event sdk env ''loanclos'' h w e \<and> p = Some (fromScVal_bigint sdk (ev_data e)))"
proof -
  from assms have v: "isValidStellarPublicKey w"
    by (auto simp: soroban_verifyRepayByTxHash_def svc_simps split: if_splits)
  with assms obtain tx e t where t: "poll_tx sdk h 10 s = (Inr (Some tx), t)" "tr_status tx = SUCCESS"
    "scan_events sdk env ''loanclos'' w (tx_events tx) = Inr (Some e)" "p = Some (fromScVal_bigint sdk (ev_data e))"
    by (auto simp: soroban_verifyRepayByTxHash_def sbind_account scatch_def sbind_def [of "poll_tx _ _ _"] sbind_lift svc_eval
        split: option.splits if_splits sum.splits prod.splits tx_status.splits)
  from poll_tx_Some [OF t(1)] scan_events_Some [OF t(3)] t(2,4) v show ?thesis
    unfolding ledger_event_def by blast
qed

text \<open>The answer to a repayment check is a value for every valid account, never an exception.\<close>

lemma verifyRepay_total:
  "isValidStellarPublicKey w \<Longrightarrow> \<exists>c. fst (soroban_verifyRepayByTxHash sdk env h w s) = Inr c"
  by (auto simp: soroban_verifyRepayByTxHash_def assertStellarAccount_def svc_simps split: sum.splits prod.splits)

section \<open>Paging\<close>

text \<open>
  A server that pages a log: the first request answers the first thousand events from
  position \<open>start\<close> that are within the range, a request with a cursor answers from the position
  of the cursor and, as it has no range, to the end of the log.
\<close>

definition serves :: "('n, 'v) sdk \<Rightarrow> soroban_env \<Rightarrow> int \<Rightarrow> int \<Rightarrow> string list list \<Rightarrow> 'v EventResponse list \<Rightarrow> nat
    \<Rightarrow> ('v EventResponse \<Rightarrow> bool) \<Rightarrow> (nat \<Rightarrow> string) \<Rightarrow> bool" where
  "serves sdk env a b topics entries start inrange token \<longleftrightarrow>
     inj token \<and> (\<forall>j. token j \<noteq> []) \<and>
     (\<forall>n. \<exists>ms n'. getEvents sdk (events_request env a b topics None) n =
        (let page = take 1000 (takeWhile inrange (drop start entries))
         in (Inr \<lparr>pg_events = page, pg_cursor = Some (token (start + length page))\<rparr>, ms, n'))) \<and>
     (\<forall>n j. \<exists>ms n'. getEvents sdk (events_request env a b topics (Some (token j))) n =
        (let page = take 1000 (drop j entries)
         in (Inr \<lparr>pg_events = page, pg_cursor = Some (token (j + length page))\<rparr>, ms, n')))"

lemma events_loop_cursor:
  assumes "serves sdk env a b topics entries start inrange token"
  shows "\<exists>s'. events_loop sdk env a b topics (Some (token j)) acc s = Some (Inr (acc @ drop j entries), s')"
proof (induction "length entries - j" arbitrary: j acc s rule: less_induct)
  case less
  define page where "page = take 1000 (drop j entries)"
  have tok: "token i \<noteq> []" "token i = token k \<longleftrightarrow> i = k" for i k
    using assms by (auto simp: serves_def inj_eq)
  obtain ms n where "getEvents sdk (events_request env a b topics (Some (token j))) (remote s) =
      (Inr \<lparr>pg_events = page, pg_cursor = Some (token (j + length page))\<rparr>, ms, n)"
    using assms unfolding serves_def page_def Let_def by blast
  then obtain t where step: "rpc_call (getEvents sdk (events_request env a b topics (Some (token j)))) s =
      (Inr \<lparr>pg_events = page, pg_cursor = Some (token (j + length page))\<rparr>, t)"
    by (simp add: rpc_call_def)
  show ?case
  proof (cases "length page = 1000")
    case True
    then have "length entries - (j + 1000) < length entries - j" "page @ drop (j + 1000) entries = drop j entries"
      by (auto simp: page_def) (metis add.commute append_take_drop_id drop_drop)
    then show ?thesis
      using less [of "j + 1000" "acc @ page" t] True tok
      by (subst events_loop.simps) (simp add: step falsy_str_def)
  next
    case False
    then have "page = drop j entries" by (auto simp: page_def min_def split: if_splits)
    then show ?thesis using False tok by (subst events_loop.simps) (simp add: step falsy_str_def)
  qed
qed

section \<open>Example\<close>

definition example_event :: "string EventResponse" where
  "example_event = \<lparr>inSuccessfulContractCall = True, er_topic = [''loanopen'', example_account], er_value = [], er_ledger = 5,
     er_txHash = ''h0'', ledgerClosedAt = []\<rparr>"

definition example_log_sdk :: "(nat \<times> nat, string) sdk" where
  "example_log_sdk = example_sdk\<lparr>getEvents := (\<lambda>rq n.
     let page = take 1000 (drop (case rq_range rq of Ledgers a b \<Rightarrow> 0 | Cursor c \<Rightarrow> length c - 1) [example_event, example_event]);
         pos = (case rq_range rq of Ledgers a b \<Rightarrow> 0 | Cursor c \<Rightarrow> length c - 1)
     in (Inr \<lparr>pg_events = page, pg_cursor = Some (replicate (pos + length page + 1) (CHR ''x''))\<rparr>, 5, n))\<rparr>"

section \<open>Properties\<close>

text \<open>
  The cursor loop over the events returns, on any server that pages a finite log: with
  fewer than a thousand events in the range it returns exactly those, in order; with more, it
  follows the cursor, which carries no end ledger, and returns every event from the start of
  the range to the end of the log, past the end of the range.
\<close>

theorem getContractEvents_pages:
  assumes "serves sdk env a b topics entries start inrange token"
  shows "\<exists>s'. getContractEvents sdk env a b topics s =
    Some (Inr (let inside = takeWhile inrange (drop start entries) in if length inside < 1000 then inside else drop start entries), s')"
proof -
  define inside where "inside = takeWhile inrange (drop start entries)"
  define page where "page = take 1000 inside"
  have tok: "token i \<noteq> []" for i using assms by (auto simp: serves_def)
  obtain ms n where "getEvents sdk (events_request env a b topics None) (remote s) =
      (Inr \<lparr>pg_events = page, pg_cursor = Some (token (start + length page))\<rparr>, ms, n)"
    using assms unfolding serves_def page_def inside_def Let_def by blast
  then obtain t where step: "rpc_call (getEvents sdk (events_request env a b topics None)) s =
      (Inr \<lparr>pg_events = page, pg_cursor = Some (token (start + length page))\<rparr>, t)"
    by (simp add: rpc_call_def)
  show ?thesis
  proof (cases "length inside < 1000")
    case True
    then have "page = inside" by (simp add: page_def)
    then show ?thesis
      using True tok by (subst getContractEvents_def, subst events_loop.simps) (simp add: step falsy_str_def inside_def Let_def)
  next
    case False
    have "inside = take (length inside) (drop start entries)" unfolding inside_def by (rule takeWhile_eq_take)
    then have "page = take 1000 (drop start entries)" using False by (metis min.absorb1 not_less page_def take_take)
    then have "page @ drop (start + 1000) entries = drop start entries"
      by (metis add.commute append_take_drop_id drop_drop)
    then show ?thesis
      using events_loop_cursor [OF assms, of "start + 1000" page t] False tok
      by (subst getContractEvents_def, subst events_loop.simps)
        (simp add: step falsy_str_def page_def inside_def [symmetric] Let_def)
  qed
qed

theorem getContractEvents_pages_witness:
  "\<exists>s'. getContractEvents example_log_sdk example_senv 1 9 [] example_net = Some (Inr [example_event, example_event], s')"
proof -
  have "inj (\<lambda>j. replicate (j + 1) (CHR ''x''))" by (rule injI) (metis add_right_cancel length_replicate)
  then have "serves example_log_sdk example_senv 1 9 [] [example_event, example_event] 0 (\<lambda>e. True) (\<lambda>j. replicate (j + 1) (CHR ''x''))"
    by (simp add: serves_def example_log_sdk_def events_request_def Let_def)
  from getContractEvents_pages [OF this, of example_net] show ?thesis by simp
qed

end
