(* ===== verification/Spec2Isabelle.thy ===== *)
theory Spec2Isabelle
  imports Auth_Sessions Cctp_Delivery Chain_Book Client_Login Credit_View Debt_Ticker Fee_Sponsor Soroban_Queue Soroban_Gateway Wallet_Link
begin

text \<open>
  Lendoor is an under-collateralised lending service on Stellar. Its backend (TypeScript, NestJS)
  keeps users and loans in a database, prices credit, writes offers to a loan-manager contract
  through a gateway port, checks what users report against the ledger, and relays USDC that
  arrives over Circle's CCTP bridge. The page in the browser signs on the ledger and reports to the
  backend. This development models the backend, the reports and what the page shows, and proves what each part
  promises; this theory imports the parts and holds the properties that span them.

  \<^bold>\<open>How the parts interact.\<close> A user proves identity (KYC, phone), gets a credit line
  (\<open>verify\<close>), asks for an offer (\<open>borrow\<close>), signs it on the ledger, reports the opening
  (\<open>informLoanOpened\<close>) and later the repayment (\<open>processRepayment\<close>). Prices and limits come from
  the credit policy, amounts from the unit conversion, wallets from the address normalisation.
  Every contact with the chain goes through the port \<open>BlockchainGatewayPort\<close>; the Soroban gateway
  implements it over the RPC client, whose writes pass one at a time through the signer queue.
  CCTP transfers are a separate state machine with its own executor. A login (\<open>auth/\<close>) turns a
  signature into an access token; the controllers turn requests with a token into calls of the
  services; a background job reads the events of the contract and brings the loan table in line.

  \<^bold>\<open>Theories and sources\<close> (paths below \<open>src/backend/src\<close> unless they start otherwise):
  \<^item> \<open>Prelude\<close>: results, errors, strings, bytes; the locales \<open>invariant_system\<close>,
    \<open>frame_system\<close>, \<open>simulation\<close> and \<open>terminating_system\<close> of step relations. Two further locales
    are contracts of handlers: \<open>world_frame\<close> (a handler keeps a part of the world) and \<open>ownership\<close>
    (a handler touches only the rows of one wallet).
  \<^item> \<open>Js_Number\<close>: IEEE binary64 numbers as rationals with rounding to nearest even, \<open>toFixed\<close>,
    \<open>BigInt\<close> division; \<open>integer_rounding\<close> is the interface of the two rounding functions.
  \<^item> \<open>Credit_Policy\<close>: \<open>domain/services/credit-policy.service.ts\<close>. Ladder, tiers, risk rates.
  \<^item> \<open>Digits\<close>, \<open>Stellar_Strkey\<close>, \<open>Wallet_Units\<close>: \<open>common/stellar-strkey.ts\<close>,
    \<open>normalize-wallet.ts\<close>, \<open>amount-units.ts\<close>.
  \<^item> \<open>Cctp_Message\<close>, \<open>Cctp_Transfer\<close>, \<open>Cctp_Delivery\<close>: \<open>cctp/\<close>.
  \<^item> \<open>Entities\<close>, \<open>Service\<close>: the columns of users and loans, the world a handler runs in
    (tables, chain, clock), transactions with rollback, the gateway port.
  \<^item> \<open>Loan_Repayment\<close>, \<open>Loan_Service\<close>, \<open>Loan_Book\<close>: \<open>loan/loan-repayment.service.ts\<close>,
    \<open>loan-calculations.service.ts\<close>, \<open>loan.service.ts\<close>, \<open>borrow-cooldown.ts\<close>, \<open>kyc/kyc-gate.ts\<close>; the
    last one is the loan table over time.
  \<^item> \<open>Identity\<close>: \<open>kyc/\<close>, \<open>user/phone-otp.service.ts\<close>, \<open>user/phone-verification.service.ts\<close>.
  \<^item> \<open>Loan_Verification\<close>: \<open>loan/loan-verification.service.ts\<close>, \<open>user/early-access.service.ts\<close>, the
    Farcaster check of \<open>self/self.service.ts\<close>.
  \<^item> \<open>Soroban_Queue\<close>, \<open>Soroban_Client\<close>: \<open>config/sorobanConfig.ts\<close>; \<open>Soroban_Gateway\<close>:
    \<open>infrastructure/blockchain/soroban-blockchain.gateway.ts\<close>.
  \<^item> \<open>Chain_Sync\<close>, \<open>Chain_Book\<close>: \<open>loan/chain-sync.service.ts\<close> and
    \<open>infrastructure/queue/chain-sync.processor.ts\<close>; the second one is the loan table under the job.
  \<^item> \<open>Auth\<close>, \<open>Auth_Sessions\<close>: \<open>auth/\<close>, \<open>common/guards/api-key.guard.ts\<close>,
    \<open>common/assert-wallet-ownership.ts\<close>; nonces, tokens and refresh sessions over time.
  \<^item> \<open>Wallet_Link\<close>: \<open>wallet-link/\<close>. \<open>Fee_Sponsor\<close>: \<open>sponsor/fee-bump.ts\<close>.
  \<^item> \<open>Onboarding\<close>, \<open>Registration\<close>: \<open>user/user-onboarding.service.ts\<close>, \<open>user-query.service.ts\<close>,
    \<open>user.service.ts\<close>, \<open>common/iso-country.util.ts\<close>; the second one is the user table over time.
  \<^item> \<open>Ownership\<close>: every handler of the services above touches only rows of the wallet it is called
    for. \<open>Http_Api\<close>: \<open>infrastructure/http/loan.controller.ts\<close>, \<open>kyc.controller.ts\<close>,
    \<open>user.controller.ts\<close>, a route per method with its guards, and requests as a step relation.
  \<^item> \<open>Retry_Queue\<close>, \<open>Report_Frame\<close>, \<open>Recovery\<close>: the browser's side (below \<open>src/frontend/src\<close>):
    \<open>lib/wallet-address.ts\<close>, \<open>lib/repaymentQueue.ts\<close>, \<open>lib/loanOpenQueue.ts\<close>,
    \<open>lib/retryWithBackoff.ts\<close>, \<open>lib/auth.ts\<close>, \<open>lib/api.ts\<close>, \<open>hooks/borrow/useRepaymentRecovery.ts\<close>,
    \<open>useRefreshLoanStats.ts\<close>, the function \<open>informBackend\<close> of \<open>useRepay.ts\<close> and of \<open>useBorrow.ts\<close>; and
    what the server adds to the two routes, \<open>common/filters/http-exception.filter.ts\<close> and the
    validation of \<open>loan/dto/\<close>. The network is a list of fates: a request arrives, is lost, arrives
    and its answer is lost, or is refused; between two requests the server may run other handlers.
    The locale \<open>persistence\<close> extends \<open>world_frame\<close> by what no handler of the server undoes.
  \<^item> \<open>Amount_Format\<close>: \<open>lib/utils.ts\<close>, amounts as numerals and back. \<open>Credit_View\<close>: \<open>lib/tiers.ts\<close>,
    \<open>stores/\<close>, the optimistic updates of \<open>hooks/borrow/blockchain/useRepay.ts\<close>, what
    \<open>useCreditLine.ts\<close> does with a reading of the chain, and the page as a step relation.
  \<^item> \<open>Client_Login\<close>: \<open>hooks/borrow/useRefreshAccessToken.ts\<close> and \<open>stores/authStore.ts\<close> over the same
    network, with the routes of the backend's \<open>infrastructure/http/auth.controller.ts\<close>.
  \<^item> \<open>Debt_Ticker\<close>: \<open>hooks/borrow/blockchain/useRepayPreflight.ts\<close>, the debt of the repayment panel
    projected from the answer of \<open>preflightRepayment\<close>.

  \<^bold>\<open>How code becomes definitions.\<close> A class or interface is a record, a union a datatype, a table the
  list of its rows, an \<open>async\<close> method a function from the world to an outcome and the world after
  it (\<open>Inl\<close> is a thrown error; effects before it stay, tables of a transaction are rolled back). Log
  lines and the texts of messages that no code reads are left out. JavaScript numbers are rounded
  as binary64; \<open>bigint\<close> is \<open>int\<close>; CCTP fields keep their width in bytes.

  \<^bold>\<open>What is shown.\<close>
  \<^item> Composition: with the Soroban gateway, a loan is recorded or closed only for what the ledger
    says (\<open>opened_on_ledger\<close>, \<open>repaid_on_ledger\<close>).
  \<^item> Requests: whatever a request with a session for one wallet does, the users and loans of other
    wallets stay as they are (\<open>request_isolated\<close>); and that a client can approve its own KYC.
  \<^item> Logins: requests one after the other use a nonce at most once, a token names the wallet that
    signed, a refresh replaces the token at once and for good, and the cache decides as the token
    table (\<open>validate_transparent\<close>), but for a token validated in the millisecond of its expiry, which then never
    ends (\<open>expired_token_served\<close>); a Lemon login that can be replayed and a key with
    several wallets; wallets are linked only with their signature, codes can be guessed five times.
  \<^item> The page's login: a token it obtains is a session of the connected wallet (\<open>login_bound\<close>), and
    with a Stellar wallet it obtains one (\<open>login_completes\<close>).
  \<^item> Registration: an account is created only with a verified code;
    and two defects of the e-mail step.
  \<^item> Synchronisation: what the job writes agrees with the events it read and with what the handlers write
    (\<open>sync_life_invariant\<close>), and where it can lose one.
  \<^item> Reports: an entry leaves the queue only when it is old, recorded or answered for good
    (\<open>recovery_safe\<close>), lost requests and lost answers end in one record (\<open>recovery_exactly_once\<close>), a
    report takes at most six requests; and the order of recovery that drops a repayment.
  \<^item> The page: amounts read back as they are shown (\<open>amounts_roundtrip\<close>) and as they are reported
    (\<open>reported_amount\<close>), the optimistic score is a floor and the counters go down only when they are forgotten
    (\<open>credit_floor\<close>), and the score is what the backend will
    store (\<open>optimistic_prediction\<close>); and a counter, a limit and a text that are not. The ticking debt
    does not go down between two answers of the backend (\<open>ticker_shown\<close>) and agrees with the contract's preview to a second's fee
    (\<open>ticker_preview\<close>); on Stellar its numeral is ten times too large.
  \<^item> Sponsorship: only transactions of the allowed shape are paid for.
  \<^item> Loans: the invariant of the tables over any interleaving of handlers, the owner, term and life of every row, what
    opening and repaying record, idempotence, the gates of an offer, the agreement of quoted and
    written fee, how score and limit change, late fees under rounding; and two defects (a
    repayment that can be replayed, a code that is not bound to its number).
  \<^item> Identity and credit line: KYC approval only by the vendor's decision, soundness of phone codes,
    what a verification has checked and writes.
  \<^item> Signer queue: its observations are those of a single server with two priorities, and it drains. Client:
    a write ends within a bounded number of sends and polls. Events: the cursor loop returns.
  \<^item> CCTP: the byte layout round-trips, plans are safe, deliveries submit what they should and
    recover from a crash between mint and deposit; one path that skips the deposit.
  \<^item> Policy, addresses and units: bounds and monotonicity of rates, exact acceptance of addresses,
    exact conversion of decimal numerals.

  \<^bold>\<open>Bounds and fuel.\<close> Loops with a counter in the source recurse on it: ten polls of a transaction
  hash, the attempts of a send. The confirmation loop ends by its deadline, which a sleep moves
  nearer (termination is proved by that measure). The cursor loop over event pages has no bound
  in the source; it is a partial function, and its property says on which servers it returns. A
  page holds 1000 events, as in the request. The timer loop of the gateway's start-up check takes
  one step per call. Batches of promises run in the order of the list inside one handler; the step
  relations let handlers run in any order. The clock does not move inside a handler, except where
  the handler sleeps. A cache entry is read until its time to live is over, and without end when that is
  zero, as the cache documents.

  \<^bold>\<open>Parameters.\<close> Code outside the repository is an argument: the Stellar SDK and the RPC server
  (record \<open>sdk\<close>), the SDK address codec, the ABI encoder, Iris, the KYC vendor's port, the WhatsApp
  client, the wallets of the browser, random numbers and identifiers; the reports of \<open>Retry_Queue\<close> take the
  refresh of the token as an argument, as their source does. Hypotheses about them are stated in the theorems and
  shown to hold for a concrete instance by the witnesses.

  \<^bold>\<open>Not modelled.\<close> The EVM gateway (calls of the ethers package), the wiring of modules and
  throttling by the framework, migrations and one-off scripts with their helpers, the React
  components and the hooks that build and sign transactions, generated contract clients, and the Rust contracts, which the backend sees only through
  the answers of the port.
\<close>

section \<open>Loans over the Soroban gateway\<close>

text \<open>
  An account of the Stellar network with one user, and the example server of
  \<open>Soroban_Client\<close> behind the gateway.
\<close>

definition stellar_user :: User where
  "stellar_user = example_user\<lparr>walletAddress := example_account\<rparr>"

definition stellar_world :: "Loan list \<Rightarrow> (nat \<times> nat) net world" where
  "stellar_world ls = \<lparr>users = [stellar_user], loans = ls, chain = example_net, now = 0\<rparr>"

lemma stellar_account_norm: "normalizeWallet example_account = Inr example_account"
  unfolding example_account_def by (rule account_id_norm) simp

lemma stellar_user_found: "user_by_wallet example_account (stellar_world ls) = Some stellar_user"
  by (simp add: user_by_wallet_def stellar_world_def stellar_user_def)

lemma stellar_poll:
  "poll_tx example_sdk h 10 example_net = (Inr (Some (example_tx 1)), \<lparr>remote = (0, 2), net_clock = 1010\<rparr>)"
  by (simp add: numeral_eq_Suc svc_simps sbind_def [of "sleep _ _"] sleep_def smod_def example_sdk_def example_net_def example_tx_def)

lemma stellar_scan:
  "scan_events example_sdk example_senv ''loanopen'' example_account (tx_events (example_tx 1)) =
     Inr (Some \<lparr>ev_contractId = Some [], ev_topics = [''loanopen'', example_account], ev_data = []\<rparr>)"
  "scan_events example_sdk example_senv ''loanclos'' example_account (tx_events (example_tx 1)) =
     Inr (Some \<lparr>ev_contractId = Some [], ev_topics = [''loanclos'', example_account], ev_data = []\<rparr>)"
  by (simp_all add: tx_events_def example_tx_def isLoanManagerContractEvent_def topic_is_def example_sdk_def rbind_def)

lemma stellar_verify:
  "verifyLoanOpenedByTxHash (sorobanGateway example_sdk example_senv g) h example_account example_net = Inr True"
  "verifyRepayByTxHash (sorobanGateway example_sdk example_senv g) h example_account example_net = Inr (Verified (Some 10000000))"
proof -
  have st: "tr_status (example_tx 1) = SUCCESS" by (simp add: example_tx_def)
  have big: "fromScVal_bigint example_sdk v = 10000000" for v by (simp add: example_sdk_def)
  show "verifyLoanOpenedByTxHash (sorobanGateway example_sdk example_senv g) h example_account example_net = Inr True"
    using st stellar_scan(1) stellar_poll [of h]
    by (simp add: sorobanGateway_def port_read_def soroban_verifyLoanOpenedByTxHash_def svc_simps sbind_def [of "poll_tx _ _ _"])
  show "verifyRepayByTxHash (sorobanGateway example_sdk example_senv g) h example_account example_net = Inr (Verified (Some 10000000))"
    using st stellar_scan(2) stellar_poll [of h] big
    by (simp add: sorobanGateway_def port_read_def soroban_verifyRepayByTxHash_def svc_simps sbind_def [of "poll_tx _ _ _"])
qed

section \<open>Properties\<close>

text \<open>
  C2. With the Soroban gateway, a loan is recorded only when a transaction with the given hash
  succeeded on the ledger and in it the loan manager published \<open>loanopen\<close> for the wallet of the
  user; the wallet is a valid Stellar account and the new row carries the hash.
\<close>

theorem opened_on_ledger:
  assumes "informLoanOpened env (sorobanGateway sdk senv g) dto s = (r, s')" and "s' \<noteq> s"
  shows "\<exists>wallet user new event. normalizeWallet (il_walletAddress dto) = Inr wallet \<and> isValidStellarPublicKey wallet \<and>
    user_by_wallet wallet s = Some user \<and> last (loans s') = store_loan new \<and> loan_userId new = user_id user \<and>
    openTxHash new = Some (il_txHash dto) \<and> ledger_event sdk senv ''loanopen'' (il_txHash dto) wallet event"
proof -
  from informLoanOpened_run [OF assms(1)] assms(2) obtain new wallet user l0 where
    n: "normalizeWallet (il_walletAddress dto) = Inr wallet" "user_by_wallet wallet s = Some user"
      "verifyLoanOpenedByTxHash (sorobanGateway sdk senv g) (il_txHash dto) wallet (chain s) = Inr True"
    and op: "opened user l0 (il_txHash dto) s new s'" "loan_userId l0 = user_id user" "openTxHash l0 = Some (il_txHash dto)"
    unfolding recorded_def by (metis new_loan_sel(1,3))
  from n(3) have "port_read (soroban_verifyLoanOpenedByTxHash sdk senv (il_txHash dto) wallet) (chain s) = Inr True"
    by (simp add: sorobanGateway_def)
  from port_readD [OF this]
  obtain t where "soroban_verifyLoanOpenedByTxHash sdk senv (il_txHash dto) wallet (chain s) = (Inr True, t)" by (elim exE)
  from verifyLoanOpened_ledger [OF this] obtain e where
    "isValidStellarPublicKey wallet" "ledger_event sdk senv ''loanopen'' (il_txHash dto) wallet e" by blast
  moreover have "last (loans s') = store_loan new" "loan_userId new = user_id user" "openTxHash new = Some (il_txHash dto)"
    using op by (auto simp: opened_def)
  ultimately show ?thesis using n by blast
qed

theorem opened_on_ledger_witness:
  "\<exists>s' event. informLoanOpened example_env (sorobanGateway example_sdk example_senv (Some ''soroban''))
       \<lparr>il_walletAddress = example_account, il_amountHuman = ''1'', il_tenorDays = 7, il_txHash = ''h0''\<rparr> (stellar_world []) = (Inr 1, s') \<and>
     s' \<noteq> stellar_world [] \<and> ledger_event example_sdk example_senv ''loanopen'' ''h0'' example_account event"
proof -
  let ?gw = "sorobanGateway example_sdk example_senv (Some ''soroban'')"
  let ?dto = "\<lparr>il_walletAddress = example_account, il_amountHuman = ''1'', il_tenorDays = 7, il_txHash = ''h0''\<rparr>"
  have w: "normalizeWallet (il_walletAddress ?dto) = Inr example_account" by (simp add: stellar_account_norm)
  have "verifyLoanOpenedByTxHash ?gw (il_txHash ?dto) example_account (chain (stellar_world [])) = Inr True"
    by (simp add: stellar_verify stellar_world_def)
  then obtain s' where run: "informLoanOpened example_env ?gw ?dto (stellar_world []) = (Inr 1, s')" "s' \<noteq> stellar_world []"
    using open_first [OF w stellar_user_found, of "[]" ?gw example_env 1] example_facts(3) by (auto simp: stellar_world_def)
  from opened_on_ledger [OF run] run show ?thesis by (auto simp: stellar_account_norm)
qed

text \<open>
  C3. With the Soroban gateway, a repayment is recorded only for a valid Stellar account, and
  only when the loan manager published \<open>loanclos\<close> for it in the given transaction, which
  succeeded, or the contract answered that the account has no active loan.
\<close>

theorem repaid_on_ledger:
  assumes "processRepayment env (sorobanGateway sdk senv g) dto s = (Inr (Repaid x), s')"
  shows "\<exists>wallet. normalizeWallet (ir_walletAddress dto) = Inr wallet \<and> isValidStellarPublicKey wallet \<and>
    ((\<exists>h event. ir_txHash dto = Some h \<and> ledger_event sdk senv ''loanclos'' h wallet event) \<or>
     (\<exists>loan. fst (soroban_readLoanFull sdk senv wallet (chain s)) = Inr (Some loan) \<and> \<not> cl_active loan))"
proof -
  let ?gw = "sorobanGateway sdk senv g"
  from Repaid_run [OF assms] obtain wallet user cp loan paid where
    "repaid_by env ?gw dto s x s' wallet user cp loan paid" by blast
  then have w: "normalizeWallet (ir_walletAddress dto) = Inr wallet" and c: "chain_confirms ?gw (ir_txHash dto) wallet (chain s) cp"
    by (simp_all add: repaid_by_def)
  from c consider (tx) h where "ir_txHash dto = Some h" "verifyRepayByTxHash ?gw h wallet (chain s) = Inr (Verified cp)"
    | (loan) l where "readLoanOnChain ?gw wallet (chain s) = Inr (Some l)" "\<not> cl_active l"
    by (auto simp: chain_confirms_def falsy_str_def split: option.splits)
  then show ?thesis
  proof cases
    case tx
    from tx(2) have "port_read (soroban_verifyRepayByTxHash sdk senv h wallet) (chain s) = Inr (Verified cp)"
      by (simp add: sorobanGateway_def)
    from port_readD [OF this]
    obtain t where "soroban_verifyRepayByTxHash sdk senv h wallet (chain s) = (Inr (Verified cp), t)" by (elim exE)
    from verifyRepay_ledger [OF this] show ?thesis using w tx(1) by blast
  next
    case loan
    then have l: "fst (soroban_readLoanFull sdk senv wallet (chain s)) = Inr (Some l)"
      by (simp add: sorobanGateway_def port_read_def soroban_readLoanOnChain_def)
    then have "isValidStellarPublicKey wallet" by (auto simp: soroban_readLoanFull_def svc_simps split: if_splits)
    then show ?thesis using w l loan(2) by blast
  qed
qed

theorem repaid_on_ledger_witness:
  "\<exists>x s' event. processRepayment example_env (sorobanGateway example_sdk example_senv (Some ''soroban''))
       \<lparr>ir_walletAddress = example_account, ir_amountPaidHuman = ''1'', ir_txHash = Some ''h1''\<rparr> (stellar_world [example_loan]) =
         (Inr (Repaid x), s') \<and>
     ledger_event example_sdk example_senv ''loanclos'' ''h1'' example_account event"
proof -
  let ?gw = "sorobanGateway example_sdk example_senv (Some ''soroban'')"
  let ?dto = "\<lparr>ir_walletAddress = example_account, ir_amountPaidHuman = ''1'', ir_txHash = Some ''h1''\<rparr>"
  let ?s = "stellar_world [example_loan]"
  have w: "normalizeWallet (ir_walletAddress ?dto) = Inr example_account" by (simp add: stellar_account_norm)
  have c: "confirm_repay ?gw (ir_txHash ?dto) example_account ?s = (Inr (Some 10000000), ?s)"
    by (simp add: confirm_repay_def sbind_def verify_by_txHash_run sret_def falsy_str_def stellar_verify stellar_world_def)
  have l: "newest startAt (payable (user_id stellar_user)) (loans ?s) = Some example_loan"
    using example_facts(2) by (simp add: stellar_world_def stellar_user_def example_user_def)
  obtain x s' where run: "processRepayment example_env ?gw ?dto ?s = (Inr (Repaid x), s')"
    using processRepayment_ok [OF w stellar_user_found c _ l, of example_env 1] example_facts(3)
    by (auto simp: stellar_world_def hash_clash_def example_loan_def)
  from repaid_on_ledger [OF run] have "(\<exists>event. ledger_event example_sdk example_senv ''loanclos'' ''h1'' example_account event) \<or>
     (\<exists>loan. fst (soroban_readLoanFull example_sdk example_senv example_account example_net) = Inr (Some loan) \<and> \<not> cl_active loan)"
    by (simp add: stellar_account_norm stellar_world_def)
  moreover have "ledger_event example_sdk example_senv ''loanclos'' ''h1'' example_account
      \<lparr>ev_contractId = Some [], ev_topics = [''loanclos'', example_account], ev_data = []\<rparr>"
    using scan_events_Some [OF stellar_scan(2)]
    by (auto simp: ledger_event_def example_sdk_def example_tx_def intro!: exI [of _ "(0, 1) :: nat \<times> nat"])
  ultimately show ?thesis using run by blast
qed

end
